(* ===== verification/Seat_Prelude.thy ===== *)
theory Seat_Prelude
  imports Main "HOL-Library.Word" "HOL-Library.Char_ord" "HOL-Library.List_Lexorder"
begin

text \<open>
  Shared vocabulary of the Agent Seat development: machine-integer names and checked
  arithmetic, results as sums, Rust byte-order conversions, UTF-8 decoding as
  \<^verbatim>\<open>str::chars\<close> performs it, splitting at a separator, decimal numerals, and two
  interfaces that several components implement: fixed canonical byte encodings
  (\<open>canonical_codec\<close>) and never-reusing identity allocators (\<open>fresh_ids\<close>).
\<close>

unbundle bit_operations_syntax

named_theorems res_simps \<open>unfolding rules for results and validation chains\<close>
named_theorems validate_defs \<open>definitions of the wire validators\<close>

type_synonym u8 = "8 word"
type_synonym u16 = "16 word"
type_synonym u32 = "32 word"
type_synonym u64 = "64 word"
type_synonym i16 = "16 word"
type_synonym i32 = "32 word"
type_synonym byte = "8 word"

section \<open>Results\<close>

text \<open>
  A Rust \<^verbatim>\<open>Result<T, E>\<close> is \<open>'e + 't\<close>: \<open>Inl\<close> is \<^verbatim>\<open>Err\<close>. The question-mark
  operator is \<open>res_bind\<close>; \<open>ensure\<close> is an early return guarded by a condition.
\<close>

definition res_bind :: "'e + 'a \<Rightarrow> ('a \<Rightarrow> 'e + 'b) \<Rightarrow> 'e + 'b" where
  "res_bind r f = (case r of Inl e \<Rightarrow> Inl e | Inr a \<Rightarrow> f a)"

definition map_err :: "('e \<Rightarrow> 'f) \<Rightarrow> 'e + 'a \<Rightarrow> 'f + 'a" where
  "map_err g r = (case r of Inl e \<Rightarrow> Inl (g e) | Inr a \<Rightarrow> Inr a)"

definition map_ok :: "('a \<Rightarrow> 'b) \<Rightarrow> 'e + 'a \<Rightarrow> 'e + 'b" where
  "map_ok g r = (case r of Inl e \<Rightarrow> Inl e | Inr a \<Rightarrow> Inr (g a))"

definition ensure :: "bool \<Rightarrow> 'e \<Rightarrow> 'e + unit" where
  "ensure b e = (if b then Inr () else Inl e)"

definition ok_or :: "'a option \<Rightarrow> 'e \<Rightarrow> 'e + 'a" where
  "ok_or o' e = (case o' of None \<Rightarrow> Inl e | Some a \<Rightarrow> Inr a)"

definition is_ok :: "'e + 'a \<Rightarrow> bool" where
  "is_ok r = (case r of Inl _ \<Rightarrow> False | Inr _ \<Rightarrow> True)"

text \<open>The result of a \<^verbatim>\<open>Validate::validate\<close> implementation.\<close>

type_synonym validation = "string + unit"

definition seq_v :: "validation \<Rightarrow> validation \<Rightarrow> validation" where
  "seq_v a b = (case a of Inl e \<Rightarrow> Inl e | Inr _ \<Rightarrow> b)"

fun all_v :: "('a \<Rightarrow> validation) \<Rightarrow> 'a list \<Rightarrow> validation" where
  "all_v f [] = Inr ()"
| "all_v f (x # xs) = seq_v (f x) (all_v f xs)"

lemma res_bind_Inr [simp, res_simps]: "res_bind (Inr a) f = f a"
  by (simp add: res_bind_def)

lemma res_bind_Inl [simp, res_simps]: "res_bind (Inl e) f = Inl e"
  by (simp add: res_bind_def)

lemma res_bind_eq_Inr [res_simps]: "res_bind r f = Inr b \<longleftrightarrow> (\<exists>a. r = Inr a \<and> f a = Inr b)"
  by (cases r) auto

lemma res_bind_eq_Inl:
  "res_bind r f = Inl e \<longleftrightarrow> r = Inl e \<or> (\<exists>a. r = Inr a \<and> f a = Inl e)"
  by (cases r) auto

lemma map_err_Inr [simp]: "map_err g (Inr a) = Inr a"
  by (simp add: map_err_def)

lemma map_err_Inl [simp]: "map_err g (Inl e) = Inl (g e)"
  by (simp add: map_err_def)

lemma map_err_eq_Inr [res_simps]: "map_err g r = Inr a \<longleftrightarrow> r = Inr a"
  by (cases r) auto

lemma map_ok_Inr [simp]: "map_ok g (Inr a) = Inr (g a)"
  by (simp add: map_ok_def)

lemma map_ok_Inl [simp]: "map_ok g (Inl e) = Inl e"
  by (simp add: map_ok_def)

lemma map_ok_eq_Inr [res_simps]: "map_ok g r = Inr b \<longleftrightarrow> (\<exists>a. r = Inr a \<and> b = g a)"
  by (cases r) auto

lemma ensure_eq_Inr [simp, res_simps]: "ensure b e = Inr u \<longleftrightarrow> b"
  by (simp add: ensure_def)

lemma ensure_eq_Inl [simp]: "ensure b e = Inl f \<longleftrightarrow> \<not> b \<and> f = e"
  by (auto simp: ensure_def)

lemma ok_or_eq_Inr [simp, res_simps]: "ok_or x e = Inr a \<longleftrightarrow> x = Some a"
  by (cases x) (auto simp: ok_or_def)

lemma is_ok_Inr [simp]: "is_ok (Inr a)"
  by (simp add: is_ok_def)

lemma is_ok_Inl [simp]: "\<not> is_ok (Inl e)"
  by (simp add: is_ok_def)

lemma is_ok_iff: "is_ok r \<longleftrightarrow> (\<exists>a. r = Inr a)"
  by (cases r) auto

lemma seq_v_Inr [simp]: "seq_v (Inr u) b = b"
  by (simp add: seq_v_def)

lemma seq_v_Inl [simp]: "seq_v (Inl e) b = Inl e"
  by (simp add: seq_v_def)

lemma seq_v_eq_Inr [simp, res_simps]: "seq_v a b = Inr u \<longleftrightarrow> a = Inr () \<and> b = Inr ()"
  by (cases a) auto

lemma all_v_eq_Inr [simp, res_simps]: "all_v f xs = Inr u \<longleftrightarrow> (\<forall>x\<in>set xs. f x = Inr ())"
  by (induction xs) auto

section \<open>State passing with errors\<close>

text \<open>
  A method that mutates \<^verbatim>\<open>self\<close> and returns a \<^verbatim>\<open>Result\<close>: the state after the call is returned
  whether the call failed or not. \<open>st_bind\<close> is sequencing with \<^verbatim>\<open>?\<close>; \<open>st_try\<close> runs a call that does
  not touch the state.
\<close>

type_synonym ('s, 'e, 'a) st = "'s \<Rightarrow> ('e + 'a) \<times> 's"

definition st_return :: "'a \<Rightarrow> ('s, 'e, 'a) st" where
  "st_return a s = (Inr a, s)"

definition st_fail :: "'e \<Rightarrow> ('s, 'e, 'a) st" where
  "st_fail e s = (Inl e, s)"

definition st_try :: "'e + 'a \<Rightarrow> ('s, 'e, 'a) st" where
  "st_try r s = (r, s)"

definition st_bind :: "('s, 'e, 'a) st \<Rightarrow> ('a \<Rightarrow> ('s, 'e, 'b) st) \<Rightarrow> ('s, 'e, 'b) st" where
  "st_bind m f s = (case m s of (Inl e, t) \<Rightarrow> (Inl e, t) | (Inr a, t) \<Rightarrow> f a t)"

definition st_get :: "('s \<Rightarrow> 'a) \<Rightarrow> ('s, 'e, 'a) st" where
  "st_get f s = (Inr (f s), s)"

definition st_modify :: "('s \<Rightarrow> 's) \<Rightarrow> ('s, 'e, unit) st" where
  "st_modify f s = (Inr (), f s)"

lemmas st_run = st_return_def st_fail_def st_try_def st_get_def st_modify_def

lemma st_bind_Inr [simp]: "m s = (Inr a, t) \<Longrightarrow> st_bind m f s = f a t"
  by (simp add: st_bind_def)

lemma st_bind_Inl [simp]: "m s = (Inl e, t) \<Longrightarrow> st_bind m f s = (Inl e, t)"
  by (simp add: st_bind_def)

lemma st_bind_unfold:
  "st_bind (st_return a) f s = f a s" "st_bind (st_fail e) f s = (Inl e, s)"
  "st_bind (st_try r) f s = (case r of Inl e \<Rightarrow> (Inl e, s) | Inr a \<Rightarrow> f a s)"
  "st_bind (st_get g) f s = f (g s) s"
  by (auto simp: st_bind_def st_run split: sum.split)

lemma st_bind_modify: "st_bind (st_modify h) f s = f () (h s)"
  by (simp add: st_bind_def st_run)

lemma st_bind_eq_Inr:
  "st_bind m f s = (Inr b, u) \<longleftrightarrow> (\<exists>a t. m s = (Inr a, t) \<and> f a t = (Inr b, u))"
  by (auto simp: st_bind_def split: prod.splits sum.splits)

lemma st_bind_cases:
  assumes "st_bind m f s = (r, u)"
  obtains (err) e where "m s = (Inl e, u)" "r = Inl e"
    | (ok) a t where "m s = (Inr a, t)" "f a t = (r, u)"
  using assms by (auto simp: st_bind_def split: prod.splits sum.splits)

lemma st_return_eq [simp]: "st_return a s = (r, t) \<longleftrightarrow> r = Inr a \<and> t = s"
  by (auto simp: st_run)

lemma st_fail_eq [simp]: "st_fail e s = (r, t) \<longleftrightarrow> r = Inl e \<and> t = s"
  by (auto simp: st_run)

lemma st_try_eq [simp]: "st_try x s = (r, t) \<longleftrightarrow> x = r \<and> t = s"
  by (auto simp: st_run)

lemma st_get_eq [simp]: "st_get f s = (r, t) \<longleftrightarrow> r = Inr (f s) \<and> t = s"
  by (auto simp: st_run)

lemma st_modify_eq [simp]: "st_modify g s = (r, t) \<longleftrightarrow> r = Inr () \<and> t = g s"
  by (auto simp: st_run)

text \<open>
  A state invariant is kept by a sequence when each call keeps it, failed calls included: the
  state is observable after an error too.
\<close>

definition keeps :: "('s \<Rightarrow> bool) \<Rightarrow> ('s, 'e, 'a) st \<Rightarrow> bool" where
  "keeps I m \<longleftrightarrow> (\<forall>s. I s \<longrightarrow> I (snd (m s)))"

named_theorems keeps_intros

lemma keeps_bind [keeps_intros]: "keeps I m \<Longrightarrow> (\<And>a. keeps I (f a)) \<Longrightarrow> keeps I (st_bind m f)"
  by (force simp: keeps_def st_bind_def split: prod.splits sum.splits)

lemma keeps_return [keeps_intros]: "keeps I (st_return a)"
  by (simp add: keeps_def st_run)

lemma keeps_fail [keeps_intros]: "keeps I (st_fail e)"
  by (simp add: keeps_def st_run)

lemma keeps_try [keeps_intros]: "keeps I (st_try r)"
  by (simp add: keeps_def st_run)

lemma keeps_get [keeps_intros]: "keeps I (st_get f)"
  by (simp add: keeps_def st_run)

lemma keeps_modify [keeps_intros]: "(\<And>s. I s \<Longrightarrow> I (g s)) \<Longrightarrow> keeps I (st_modify g)"
  by (simp add: keeps_def st_run)

lemma keeps_if [keeps_intros]: "keeps I a \<Longrightarrow> keeps I b \<Longrightarrow> keeps I (if c then a else b)"
  by simp

lemma keepsD: "keeps I m \<Longrightarrow> I s \<Longrightarrow> m s = (r, t) \<Longrightarrow> I t"
  by (force simp: keeps_def)

section \<open>Checked machine arithmetic\<close>

lemma unat_add_of_nat: "unat b = unat a + k \<Longrightarrow> b = a + (of_nat k :: 'a::len word)"
proof -
  assume "unat b = unat a + k"
  then have "(of_nat (unat b) :: 'a word) = of_nat (unat a) + of_nat k"
    by simp
  then show ?thesis by simp
qed

lemma unat_bound: "unat (w :: 'a::len word) < 2 ^ LENGTH('a)"
  by (rule unsigned_less)

definition checked_add :: "'a::len word \<Rightarrow> 'a word \<Rightarrow> 'a word option" where
  "checked_add a b = (if unat a + unat b < 2 ^ LENGTH('a) then Some (a + b) else None)"

lemma checked_add_Some_iff:
  "checked_add a b = Some (c :: 'a::len word) \<longleftrightarrow> unat c = unat a + unat b"
proof (cases "unat a + unat b < 2 ^ LENGTH('a)")
  case True
  then have "unat (a + b) = unat a + unat b"
    by (simp add: unat_word_ariths)
  with True show ?thesis
    by (simp add: checked_add_def word_unat_eq_iff eq_commute)
next
  case False
  then show ?thesis
    using unat_bound [of c] by (auto simp: checked_add_def simp del: unsigned_less)
qed

lemma checked_add_one_None:
  "checked_add a (1 :: 'a::len word) = None \<longleftrightarrow> unat a + 1 = 2 ^ LENGTH('a)"
  using unat_bound [of a] by (auto simp: checked_add_def simp del: unsigned_less)

section \<open>Rust byte-order conversions\<close>

text \<open>
  \<open>le_digits k n\<close> are the \<open>k\<close> little-endian bytes of \<open>n\<close>, \<open>le_value\<close> reads them
  back; \<^verbatim>\<open>to_be_bytes\<close> and \<^verbatim>\<open>from_be_bytes\<close> are the reversals.
\<close>

primrec le_digits :: "nat \<Rightarrow> nat \<Rightarrow> byte list" where
  "le_digits 0 n = []"
| "le_digits (Suc k) n = word_of_nat (n mod 256) # le_digits k (n div 256)"

primrec le_value :: "byte list \<Rightarrow> nat" where
  "le_value [] = 0"
| "le_value (b # bs) = unat b + 256 * le_value bs"

definition be_digits :: "nat \<Rightarrow> nat \<Rightarrow> byte list" where
  "be_digits k n = rev (le_digits k n)"

definition be_value :: "byte list \<Rightarrow> nat" where
  "be_value bs = le_value (rev bs)"

lemma length_le_digits [simp]: "length (le_digits k n) = k"
  by (induction k arbitrary: n) auto

lemma length_be_digits [simp]: "length (be_digits k n) = k"
  by (simp add: be_digits_def)

lemma unat_byte_of_mod [simp]: "unat (word_of_nat (n mod 256) :: byte) = n mod 256"
  by (simp add: unat_of_nat)

lemma unat_byte_less [simp]: "unat (b :: byte) < 256"
  using unat_bound [of b] by simp

lemma le_value_le_digits: "le_value (le_digits k n) = n mod 256 ^ k"
proof (induction k arbitrary: n)
  case 0
  show ?case by simp
next
  case (Suc k)
  have "n mod 256 ^ Suc k = n mod 256 + 256 * (n div 256 mod 256 ^ k)"
    by (simp add: mod_mult2_eq)
  with Suc.IH show ?case by simp
qed

lemma le_value_less: "le_value bs < 256 ^ length bs"
proof (induction bs)
  case Nil
  show ?case by simp
next
  case (Cons b bs)
  have "unat b + 256 * le_value bs < 256 + 256 * le_value bs"
    by simp
  also have "\<dots> \<le> 256 * 256 ^ length bs"
    using Cons.IH by simp
  finally show ?case by simp
qed

lemma le_digits_le_value: "length bs = k \<Longrightarrow> le_digits k (le_value bs) = bs"
proof (induction bs arbitrary: k)
  case Nil
  then show ?case by simp
next
  case (Cons b bs)
  have "(unat b + 256 * le_value bs) mod 256 = unat b"
    and "(unat b + 256 * le_value bs) div 256 = le_value bs"
    by simp_all
  with Cons show ?case by auto
qed

lemma be_value_be_digits: "be_value (be_digits k n) = n mod 256 ^ k"
  by (simp add: be_value_def be_digits_def le_value_le_digits)

lemma be_value_less: "be_value bs < 256 ^ length bs"
  using le_value_less [of "rev bs"] by (simp add: be_value_def)

lemma be_digits_be_value: "length bs = k \<Longrightarrow> be_digits k (be_value bs) = bs"
  by (simp add: be_value_def be_digits_def le_digits_le_value)

definition u32_to_be_bytes :: "u32 \<Rightarrow> byte list" where
  "u32_to_be_bytes w = be_digits 4 (unat w)"

definition u32_from_be_bytes :: "byte list \<Rightarrow> u32" where
  "u32_from_be_bytes bs = word_of_nat (be_value bs)"

definition u32_to_le_bytes :: "u32 \<Rightarrow> byte list" where
  "u32_to_le_bytes w = le_digits 4 (unat w)"

definition u32_from_le_bytes :: "byte list \<Rightarrow> u32" where
  "u32_from_le_bytes bs = word_of_nat (le_value bs)"

definition u64_to_le_bytes :: "u64 \<Rightarrow> byte list" where
  "u64_to_le_bytes w = le_digits 8 (unat w)"

definition u64_from_le_bytes :: "byte list \<Rightarrow> u64" where
  "u64_from_le_bytes bs = word_of_nat (le_value bs)"

lemma length_to_bytes [simp]:
  "length (u32_to_be_bytes w) = 4"
  "length (u32_to_le_bytes w) = 4"
  "length (u64_to_le_bytes v) = 8"
  by (simp_all add: u32_to_be_bytes_def u32_to_le_bytes_def u64_to_le_bytes_def)

lemma u32_be_round_trip [simp]: "u32_from_be_bytes (u32_to_be_bytes w) = w"
  using unat_bound [of w]
  by (simp add: u32_from_be_bytes_def u32_to_be_bytes_def be_value_be_digits)

lemma u32_le_round_trip [simp]: "u32_from_le_bytes (u32_to_le_bytes w) = w"
  using unat_bound [of w]
  by (simp add: u32_from_le_bytes_def u32_to_le_bytes_def le_value_le_digits)

lemma u64_le_round_trip [simp]: "u64_from_le_bytes (u64_to_le_bytes w) = w"
  using unat_bound [of w]
  by (simp add: u64_from_le_bytes_def u64_to_le_bytes_def le_value_le_digits)

lemma unat_u32_from_le: "length bs = 4 \<Longrightarrow> unat (u32_from_le_bytes bs) = le_value bs"
  using le_value_less [of bs] by (simp add: u32_from_le_bytes_def unat_of_nat)

lemma unat_u32_from_be: "length bs = 4 \<Longrightarrow> unat (u32_from_be_bytes bs) = be_value bs"
  using be_value_less [of bs] by (simp add: u32_from_be_bytes_def unat_of_nat)

lemma unat_u64_from_le: "length bs = 8 \<Longrightarrow> unat (u64_from_le_bytes bs) = le_value bs"
  using le_value_less [of bs] by (simp add: u64_from_le_bytes_def unat_of_nat)

lemma u32_le_inverse: "length bs = 4 \<Longrightarrow> u32_to_le_bytes (u32_from_le_bytes bs) = bs"
  by (simp add: u32_to_le_bytes_def unat_u32_from_le le_digits_le_value)

lemma u32_be_inverse: "length bs = 4 \<Longrightarrow> u32_to_be_bytes (u32_from_be_bytes bs) = bs"
  by (simp add: u32_to_be_bytes_def unat_u32_from_be be_digits_be_value)

lemma u64_le_inverse: "length bs = 8 \<Longrightarrow> u64_to_le_bytes (u64_from_le_bytes bs) = bs"
  by (simp add: u64_to_le_bytes_def unat_u64_from_le le_digits_le_value)

section \<open>Strings\<close>

text \<open>
  A Rust \<^verbatim>\<open>str\<close> is its UTF-8 byte sequence, a \<open>string\<close> whose \<open>char\<close>s are bytes; so
  \<^verbatim>\<open>len\<close> is \<open>length\<close> and the derived order is the lexicographic order on bytes.
  \<open>chars_str\<close> is the decoder behind \<^verbatim>\<open>str::chars\<close>, which trusts that its input is
  well-formed; \<open>utf8_encode\<close> is \<^verbatim>\<open>char::encode_utf8\<close>.
\<close>

abbreviation code_of :: "char \<Rightarrow> nat" where
  "code_of c \<equiv> of_char c"

definition as_bytes :: "string \<Rightarrow> byte list" where
  "as_bytes s = map of_char s"

lemma length_as_bytes [simp]: "length (as_bytes s) = length s"
  by (simp add: as_bytes_def)

lemma as_bytes_append [simp]: "as_bytes (s @ t) = as_bytes s @ as_bytes t"
  by (simp add: as_bytes_def)

fun chars_str :: "string \<Rightarrow> nat list" where
  "chars_str [] = []"
| "chars_str (x # rest) =
    (if code_of x < 128 then code_of x # chars_str rest
     else if code_of x < 224 then
       (case rest of
          y # rest1 \<Rightarrow> ((code_of x mod 32) * 64 + code_of y mod 64) # chars_str rest1
        | _ \<Rightarrow> [])
     else if code_of x < 240 then
       (case rest of
          y # z # rest2 \<Rightarrow>
            ((code_of x mod 16) * 4096 + (code_of y mod 64) * 64 + code_of z mod 64)
              # chars_str rest2
        | _ \<Rightarrow> [])
     else
       (case rest of
          y # z # w # rest3 \<Rightarrow>
            ((code_of x mod 8) * 262144 + (code_of y mod 64) * 4096
               + (code_of z mod 64) * 64 + code_of w mod 64) # chars_str rest3
        | _ \<Rightarrow> []))"

text \<open>Unicode scalar values: code points without the surrogate range.\<close>

definition is_scalar :: "nat \<Rightarrow> bool" where
  "is_scalar c \<longleftrightarrow> c < 55296 \<or> (57344 \<le> c \<and> c < 1114112)"

definition utf8_encode :: "nat \<Rightarrow> string" where
  "utf8_encode c =
    (if c < 128 then [char_of c]
     else if c < 2048 then [char_of (192 + c div 64), char_of (128 + c mod 64)]
     else if c < 65536 then
       [char_of (224 + c div 4096), char_of (128 + c div 64 mod 64), char_of (128 + c mod 64)]
     else
       [char_of (240 + c div 262144), char_of (128 + c div 4096 mod 64),
        char_of (128 + c div 64 mod 64), char_of (128 + c mod 64)])"

definition utf8_of :: "nat list \<Rightarrow> string" where
  "utf8_of cs = concat (map utf8_encode cs)"

text \<open>\<^verbatim>\<open>char::is_control\<close>: the general category Cc.\<close>

definition is_control :: "nat \<Rightarrow> bool" where
  "is_control c \<longleftrightarrow> c < 32 \<or> (127 \<le> c \<and> c < 160)"

lemma code_of_char_of: "n < 256 \<Longrightarrow> code_of (char_of n) = n"
  by (simp add: of_char_of)


lemma char_of_add_nat: "char_of (of_char c :: nat) = c"
  by simp

lemma utf8_parts2: "c div 64 * 64 + c mod 64 = (c :: nat)"
  by (rule div_mult_mod_eq)

lemma utf8_parts3: "c div 4096 * 4096 + c div 64 mod 64 * 64 + c mod 64 = (c :: nat)"
proof -
  have split: "c div 4096 = c div 64 div 64"
    by (simp add: div_mult2_eq [of c 64 64, simplified])
  show ?thesis
    using utf8_parts2 [of "c div 64"] utf8_parts2 [of c] unfolding split by linarith
qed

lemma utf8_parts4:
  "c div 262144 * 262144 + c div 4096 mod 64 * 4096 + c div 64 mod 64 * 64 + c mod 64 = (c :: nat)"
proof -
  have split: "c div 262144 = c div 4096 div 64"
    by (simp add: div_mult2_eq [of c 4096 64, simplified])
  show ?thesis
    using utf8_parts2 [of "c div 4096"] utf8_parts3 [of c] unfolding split by linarith
qed

lemma lead_byte_payload:
  fixes q :: nat
  shows "q < 32 \<Longrightarrow> (192 + q) mod 32 = q"
    and "q < 16 \<Longrightarrow> (224 + q) mod 16 = q"
    and "q < 8 \<Longrightarrow> (240 + q) mod 8 = q"
  using mod_add_left_eq [of 192 32 q] mod_add_left_eq [of 224 16 q] mod_add_left_eq [of 240 8 q]
  by simp_all

lemma tail_byte_payload: "(128 + r mod 64) mod 64 = r mod (64 :: nat)"
  using mod_add_left_eq [of 128 64 "r mod 64"] by simp

lemma tail_byte_less: "128 + r mod 64 < (256 :: nat)"
  by (simp add: order_less_le_trans [OF mod_less_divisor])

lemmas utf8_decode_facts = lead_byte_payload tail_byte_payload utf8_parts2 utf8_parts3 utf8_parts4

lemma chars_str_encode:
  assumes "is_scalar c"
  shows "chars_str (utf8_encode c @ s) = c # chars_str s"
proof -
  consider "c < 128" | "128 \<le> c" "c < 2048" | "2048 \<le> c" "c < 65536"
    | "65536 \<le> c" "c < 1114112"
    using assms unfolding is_scalar_def by linarith
  then show ?thesis
  proof cases
    case 1
    then show ?thesis by (simp add: utf8_encode_def)
  next
    case 2
    then have "c div 64 < 32" by (simp add: less_mult_imp_div_less)
    with 2 show ?thesis by (simp add: utf8_encode_def utf8_decode_facts)
  next
    case 3
    then have "c div 4096 < 16" by (simp add: less_mult_imp_div_less)
    with 3 show ?thesis by (simp add: utf8_encode_def utf8_decode_facts)
  next
    case 4
    then have "c div 262144 < 8" by (simp add: less_mult_imp_div_less)
    with 4 show ?thesis by (simp add: utf8_encode_def utf8_decode_facts)
  qed
qed

lemma chars_str_utf8_of: "list_all is_scalar cs \<Longrightarrow> chars_str (utf8_of cs) = cs"
  by (induction cs) (simp_all add: utf8_of_def chars_str_encode)


section \<open>Splitting, ordering and decimal numerals\<close>

text \<open>
  \<open>split_on\<close> is \<^verbatim>\<open>str::split\<close> (and \<^verbatim>\<open>slice::split\<close>) at one element: always at least one
  field. \<open>join_on\<close> puts the separator back.
\<close>

fun split_on :: "'a \<Rightarrow> 'a list \<Rightarrow> 'a list list" where
  "split_on c [] = [[]]"
| "split_on c (x # xs) =
    (if x = c then [] # split_on c xs
     else (x # hd (split_on c xs)) # tl (split_on c xs))"

fun join_on :: "'a \<Rightarrow> 'a list list \<Rightarrow> 'a list" where
  "join_on c [] = []"
| "join_on c [w] = w"
| "join_on c (w # v # ws) = w @ c # join_on c (v # ws)"

lemma split_on_not_Nil [simp]: "split_on c xs \<noteq> []"
  by (cases xs) auto

lemma split_on_Cons_ex: "\<exists>w ws. split_on c xs = w # ws"
  using split_on_not_Nil [of c xs] by (cases "split_on c xs") auto

lemma join_on_split_on: "join_on c (split_on c xs) = xs"
proof (induction xs)
  case Nil
  show ?case by simp
next
  case (Cons x xs)
  obtain w ws where "split_on c xs = w # ws"
    using split_on_Cons_ex [of c xs] by blast
  with Cons.IH show ?case by (cases ws) auto
qed

lemma split_on_free: "c \<notin> set w \<Longrightarrow> split_on c w = [w]"
  by (induction w) auto

lemma split_on_append_sep:
  "c \<notin> set w \<Longrightarrow> split_on c (w @ c # xs) = w # split_on c xs"
  by (induction w) auto

lemma split_on_fields_free: "w \<in> set (split_on c xs) \<Longrightarrow> c \<notin> set w"
proof (induction xs arbitrary: w)
  case Nil
  then show ?case by simp
next
  case (Cons x xs)
  have "hd (split_on c xs) \<in> set (split_on c xs)"
    by simp
  with Cons show ?case
    by (auto split: if_splits dest: list.set_sel(2) [rotated])
qed

text \<open>\<^verbatim>\<open>values.windows(2).all(|pair| pair[0] < pair[1])\<close>.\<close>

fun strictly_ordered :: "'a::linorder list \<Rightarrow> bool" where
  "strictly_ordered (x # y # ys) \<longleftrightarrow> x < y \<and> strictly_ordered (y # ys)"
| "strictly_ordered _ \<longleftrightarrow> True"

lemma strictly_ordered_sorted_wrt: "strictly_ordered xs \<longleftrightarrow> sorted_wrt (<) xs"
proof (induction xs rule: strictly_ordered.induct)
  case (1 x y ys)
  then show ?case by (auto dest: less_trans)
qed auto

lemma strictly_ordered_filter: "strictly_ordered xs \<Longrightarrow> strictly_ordered (filter P xs)"
  by (simp add: strictly_ordered_sorted_wrt sorted_wrt_filter)

lemma strictly_ordered_distinct: "strictly_ordered xs \<Longrightarrow> distinct xs"
  by (simp add: strictly_ordered_sorted_wrt strict_sorted_iff)

text \<open>\<^verbatim>\<open>ToString\<close> on an unsigned integer.\<close>

fun decimal :: "nat \<Rightarrow> string" where
  "decimal n = (if n < 10 then [char_of (48 + n)] else decimal (n div 10) @ [char_of (48 + n mod 10)])"

declare decimal.simps [simp del]

fun decimal_value :: "nat \<Rightarrow> string \<Rightarrow> nat" where
  "decimal_value acc [] = acc"
| "decimal_value acc (c # cs) = decimal_value (10 * acc + (code_of c - 48)) cs"

definition is_digit :: "char \<Rightarrow> bool" where
  "is_digit c \<longleftrightarrow> 48 \<le> code_of c \<and> code_of c \<le> 57"

lemma decimal_value_append:
  "decimal_value acc (s @ [c]) = 10 * decimal_value acc s + (code_of c - 48)"
  by (induction s arbitrary: acc) auto

lemma decimal_value_decimal: "decimal_value 0 (decimal n) = n"
proof (induction n rule: decimal.induct)
  case (1 n)
  show ?case
  proof (cases "n < 10")
    case True
    then show ?thesis by (simp add: decimal.simps [of n])
  next
    case False
    with 1 have "decimal_value 0 (decimal (n div 10)) = n div 10" by simp
    moreover have "48 + n mod 10 < 256"
      by (simp add: order_less_le_trans [OF mod_less_divisor])
    ultimately show ?thesis
      using False by (simp add: decimal.simps [of n] decimal_value_append)
  qed
qed

lemma decimal_inject [simp]: "decimal m = decimal n \<longleftrightarrow> m = n"
  using decimal_value_decimal by metis

lemma decimal_digits: "list_all is_digit (decimal n)"
proof (induction n rule: decimal.induct)
  case (1 n)
  have "48 + n mod 10 < 256" and "n mod 10 < 10"
    by (simp_all add: order_less_le_trans [OF mod_less_divisor])
  with 1 show ?case
    by (cases "n < 10") (auto simp: decimal.simps [of n] is_digit_def)
qed

section \<open>Two shared interfaces\<close>

text \<open>
  A canonical codec: decoding what was encoded gives the value back, and a decoded value
  has no other encoding than the bytes it was read from. The fixed binary frames and the
  text records of the program all promise this.
\<close>

locale canonical_codec =
  fixes encode :: "'a \<Rightarrow> 'b list"
    and decode :: "'b list \<Rightarrow> 'e + 'a"
    and valid :: "'a \<Rightarrow> bool"
  assumes decode_encode: "valid a \<Longrightarrow> decode (encode a) = Inr a"
    and encode_decode: "decode bs = Inr a \<Longrightarrow> encode a = bs"
    and decode_valid: "decode bs = Inr a \<Longrightarrow> valid a"
begin

lemma encode_inject: "valid a \<Longrightarrow> valid b \<Longrightarrow> encode a = encode b \<longleftrightarrow> a = b"
  by (metis Inr_inject decode_encode)

lemma decode_eq_iff: "decode bs = Inr a \<longleftrightarrow> valid a \<and> bs = encode a"
  using decode_encode decode_valid encode_decode by blast

lemma decode_unique: "decode bs = Inr a \<Longrightarrow> decode cs = Inr a \<Longrightarrow> bs = cs"
  using encode_decode by blast

lemma refused_iff: "(\<exists>e. decode bs = Inl e) \<longleftrightarrow> (\<forall>a. valid a \<longrightarrow> encode a \<noteq> bs)"
  by (metis decode_eq_iff obj_sumE sum.simps(4))

end

text \<open>
  An identity allocator: \<open>alloc\<close> returns an identity and the next state, or fails; \<open>used\<close>
  are the identities a state can no longer hand out. Runs of any length never repeat one.
\<close>

locale fresh_ids =
  fixes alloc :: "'s \<Rightarrow> 'e + ('i \<times> 's)"
    and used :: "'s \<Rightarrow> 'i set"
  assumes alloc_fresh: "alloc s = Inr (i, t) \<Longrightarrow> i \<notin> used s"
    and alloc_used: "alloc s = Inr (i, t) \<Longrightarrow> insert i (used s) \<subseteq> used t"
begin

fun alloc_many :: "nat \<Rightarrow> 's \<Rightarrow> 'e + ('i list \<times> 's)" where
  "alloc_many 0 s = Inr ([], s)"
| "alloc_many (Suc n) s =
    res_bind (alloc s) (\<lambda>(i, t). res_bind (alloc_many n t) (\<lambda>(is, u). Inr (i # is, u)))"

lemma alloc_many_fresh:
  "alloc_many n s = Inr (is, t) \<Longrightarrow>
    distinct is \<and> set is \<inter> used s = {} \<and> set is \<union> used s \<subseteq> used t"
proof (induction n arbitrary: s "is")
  case 0
  then show ?case by simp
next
  case (Suc n)
  then obtain i u js where i: "alloc s = Inr (i, u)" and js: "alloc_many n u = Inr (js, t)"
    and "is": "is = i # js"
    by (auto simp: res_simps)
  with Suc.IH [OF js] alloc_fresh [OF i] alloc_used [OF i] show ?case
    by auto
qed

end

end
