(* ===== verification/Wire_Bounded.thy ===== *)
theory Wire_Bounded
  imports Seat_Prelude
begin

text \<open>
  Allocation-bounded strings and lists, from
  \<^verbatim>\<open>crates/agent-seat-proto/src/bounded.rs\<close>. A \<^verbatim>\<open>BoundedText<limit>\<close> is the string it owns and
  a \<^verbatim>\<open>BoundedList<T, limit>\<close> the list it owns; the const parameter \<^verbatim>\<open>limit\<close> is an argument of
  the constructors and of the type invariants \<open>bounded_text\<close> and \<open>bounded_list\<close>. Both
  constructors implement the interface \<open>bounded_new\<close>. The list visitor's incremental loop
  over a \<^verbatim>\<open>SeqAccess\<close> is \<open>visit_seq\<close>, and it is shown to agree with the direct constructor.
\<close>

record BoundError =
  be_limit :: nat
  be_actual :: nat

definition bounded_text :: "nat \<Rightarrow> string \<Rightarrow> bool" where
  "bounded_text limit s \<longleftrightarrow> length s \<le> limit"

definition bounded_list :: "nat \<Rightarrow> 'a list \<Rightarrow> bool" where
  "bounded_list limit xs \<longleftrightarrow> length xs \<le> limit"

definition BoundedText_new :: "nat \<Rightarrow> string \<Rightarrow> BoundError + string" where
  "BoundedText_new limit value =
    (if length value > limit then Inl \<lparr>be_limit = limit, be_actual = length value\<rparr>
     else Inr value)"

definition BoundedList_new :: "nat \<Rightarrow> 'a list \<Rightarrow> BoundError + 'a list" where
  "BoundedList_new limit values =
    (if length values > limit then Inl \<lparr>be_limit = limit, be_actual = length values\<rparr>
     else Inr values)"

text \<open>The contract the two constructors share, with what a client may conclude from it.\<close>

locale bounded_new =
  fixes new :: "nat \<Rightarrow> 'v \<Rightarrow> BoundError + 'v"
    and len :: "'v \<Rightarrow> nat"
  assumes new_accepts: "len v \<le> limit \<Longrightarrow> new limit v = Inr v"
    and new_refuses: "limit < len v \<Longrightarrow> new limit v = Inl \<lparr>be_limit = limit, be_actual = len v\<rparr>"
begin

lemma new_Inr_iff: "new limit v = Inr w \<longleftrightarrow> w = v \<and> len v \<le> limit"
  by (metis Inl_Inr_False Inr_inject linorder_not_le new_accepts new_refuses)

lemma new_Inl_iff:
  "new limit v = Inl e \<longleftrightarrow> limit < len v \<and> e = \<lparr>be_limit = limit, be_actual = len v\<rparr>"
  by (metis Inl_Inr_False Inl_inject linorder_not_le new_accepts new_refuses)

lemma new_weaken: "new limit v = Inr w \<Longrightarrow> limit \<le> limit' \<Longrightarrow> new limit' v = Inr w"
  by (simp add: new_Inr_iff)

end

interpretation btext: bounded_new BoundedText_new length
  by unfold_locales (simp_all add: BoundedText_new_def)

interpretation blist: bounded_new BoundedList_new length
  by unfold_locales (simp_all add: BoundedList_new_def)

lemmas bounded_new_iffs = btext.new_Inr_iff btext.new_Inl_iff blist.new_Inr_iff blist.new_Inl_iff

section \<open>Incremental deserialization of a bounded list\<close>

text \<open>
  A \<^verbatim>\<open>SeqAccess\<close> is the sequence of results its \<^verbatim>\<open>next_element\<close> calls give (an element or
  a deserialization error), then \<^verbatim>\<open>None\<close>; \<open>hint\<close> is its \<^verbatim>\<open>size_hint\<close>. \<open>elem\<close> deserializes
  one source element as \<^verbatim>\<open>T\<close>, \<open>ignored\<close> as \<^verbatim>\<open>IgnoredAny\<close>.
\<close>

datatype 'e seq_error = ItemBound | ElementError 'e

fun visit_loop ::
  "('r \<Rightarrow> 'e + 'a) \<Rightarrow> ('r \<Rightarrow> 'e + unit) \<Rightarrow> nat \<Rightarrow> 'a list \<Rightarrow> 'r list \<Rightarrow> 'e seq_error + 'a list"
where
  "visit_loop elem ignored limit values [] = Inr values"
| "visit_loop elem ignored limit values (r # rs) =
    (if length values < limit then
       (case elem r of
          Inl e \<Rightarrow> Inl (ElementError e)
        | Inr v \<Rightarrow> visit_loop elem ignored limit (values @ [v]) rs)
     else
       (case ignored r of
          Inl e \<Rightarrow> Inl (ElementError e)
        | Inr _ \<Rightarrow> Inl ItemBound))"

definition visit_seq ::
  "('r \<Rightarrow> 'e + 'a) \<Rightarrow> ('r \<Rightarrow> 'e + unit) \<Rightarrow> nat \<Rightarrow> nat option \<Rightarrow> 'r list \<Rightarrow> 'e seq_error + 'a list"
where
  "visit_seq elem ignored limit hint source =
    (if (case hint of None \<Rightarrow> False | Some hinted \<Rightarrow> hinted > limit) then Inl ItemBound
     else visit_loop elem ignored limit [] source)"

text \<open>The specification: deserialize the elements in order, then bound the result.\<close>

fun collect :: "('r \<Rightarrow> 'e + 'a) \<Rightarrow> 'r list \<Rightarrow> 'e + 'a list" where
  "collect elem [] = Inr []"
| "collect elem (r # rs) = res_bind (elem r) (\<lambda>v. map_ok (Cons v) (collect elem rs))"

lemma visit_loop_Inr:
  "length values \<le> limit \<Longrightarrow>
    visit_loop elem ignored limit values rs = Inr out \<longleftrightarrow>
      (\<exists>vs. collect elem rs = Inr vs \<and> out = values @ vs \<and> length out \<le> limit)"
proof (induction rs arbitrary: "values")
  case Nil
  then show ?case by auto
next
  case (Cons r rs)
  show ?case
  proof (cases "length values < limit")
    case True
    then show ?thesis
      using Cons.IH [of "values @ [v]" for v]
      by (cases "elem r") (auto simp: res_simps)
  next
    case False
    with Cons.prems show ?thesis
      by (auto simp: res_simps split: sum.splits)
  qed
qed

lemma collect_length: "collect elem rs = Inr vs \<Longrightarrow> length vs = length rs"
  by (induction rs arbitrary: vs) (auto simp: res_simps)

text \<open>
  Deserializing a list item by item (\<^verbatim>\<open>ListVisitor::visit_seq\<close>, with or without a size
  hint) accepts exactly the inputs whose elements all deserialize and whose count is within the
  bound, and returns those elements in order: it agrees with collecting everything and then
  calling \<^verbatim>\<open>BoundedList::new\<close>, without ever holding more than \<^verbatim>\<open>limit\<close> items. A size hint, where
  given, is the exact element count.
\<close>

theorem visit_seq_agrees_with_new:
  assumes "hint = None \<or> hint = Some (length source)"
  shows "visit_seq elem ignored limit hint source = Inr out \<longleftrightarrow>
    (\<exists>vs. collect elem source = Inr vs \<and> BoundedList_new limit vs = Inr out)"
proof -
  have "visit_loop elem ignored limit [] source = Inr out \<longleftrightarrow>
      (\<exists>vs. collect elem source = Inr vs \<and> BoundedList_new limit vs = Inr out)"
    by (auto simp: visit_loop_Inr blist.new_Inr_iff)
  with assms show ?thesis
    by (auto simp: visit_seq_def blist.new_Inr_iff dest!: collect_length)
qed

theorem visit_seq_agrees_with_new_witness:
  "visit_seq (\<lambda>n :: nat. if n < 256 then Inr n else Inl ''range'') (\<lambda>_. Inr ()) 2 None [1, 2]
     = Inr [1, 2]
   \<and> (\<forall>out. visit_seq (\<lambda>n :: nat. if n < 256 then Inr n else Inl ''range'') (\<lambda>_. Inr ()) 2
        (Some 3) [1, 2, 3] \<noteq> Inr out)"
proof -
  have hyp: "(None :: nat option) = None \<or> None = Some (length [1 :: nat, 2])"
    "Some 3 = (None :: nat option) \<or> Some 3 = Some (length [1 :: nat, 2, 3])"
    by simp_all
  let ?elem = "\<lambda>n :: nat. if n < 256 then Inr n else Inl ''range''"
  have "visit_seq ?elem (\<lambda>_. Inr ()) 2 None [1, 2] = Inr [1, 2]"
    using visit_seq_agrees_with_new [OF hyp(1), of ?elem "\<lambda>_. Inr ()" 2 "[1, 2]"]
    by (simp add: BoundedList_new_def)
  moreover have "visit_seq ?elem (\<lambda>_. Inr ()) 2 (Some 3) [1, 2, 3] \<noteq> Inr out" for out
    using visit_seq_agrees_with_new [OF hyp(2), of ?elem "\<lambda>_. Inr ()" 2 out]
    by (simp add: BoundedList_new_def)
  ultimately show ?thesis by simp
qed

end
