(* ===== verification/Wire_Codec.thy ===== *)
theory Wire_Codec
  imports Seat_Prelude
begin

text \<open>
  Four-byte length-prefixed framing, from \<^verbatim>\<open>crates/agent-seat-proto/src/codec.rs\<close>.

  A reader (\<^verbatim>\<open>R: Read\<close>) is the script of what its successive \<^verbatim>\<open>read\<close> calls will give: data,
  an interruption, or a failure; the end of the script is end of file, and a \<^verbatim>\<open>read\<close> takes at
  most the room of its buffer and leaves the rest. A writer (\<^verbatim>\<open>W: Write\<close>) is an abstract state
  with a \<^verbatim>\<open>write_all\<close> operation. JSON encoding, strict JSON decoding and the message's own
  \<^verbatim>\<open>Validate::validate\<close> are arguments: serde and serde\_json are not part of this repository.
\<close>

type_synonym io_error = string
type_synonym json_error = string

datatype read_step = Chunk "byte list" | Interrupted | Failed io_error

type_synonym reader = "read_step list"

datatype io_kind = KInterrupted | KOther io_error

text \<open>\<^verbatim>\<open>Read::read\<close> into a buffer with room for \<open>n\<close> bytes.\<close>

fun read :: "nat \<Rightarrow> reader \<Rightarrow> (io_kind + byte list) \<times> reader" where
  "read n [] = (Inr [], [])"
| "read n (Chunk bs # rs) =
    (Inr (take n bs), if drop n bs = [] then rs else Chunk (drop n bs) # rs)"
| "read n (Interrupted # rs) = (Inl KInterrupted, rs)"
| "read n (Failed i # rs) = (Inl (KOther i), rs)"

datatype 'm ReadFrame = Message 'm | CleanEof

datatype CodecError =
  Io io_error | TruncatedPrefix | TruncatedPayload | Empty | TooLarge nat nat | Json json_error | Invalid string

definition u32_MAX :: u32 where
  "u32_MAX = - 1"

lemma unat_u32_MAX: "unat u32_MAX = 4294967295"
  by (simp add: u32_MAX_def unsigned_minus_1_eq_mask mask_eq_exp_minus_1)

definition PREFIX_BYTES :: nat where
  "PREFIX_BYTES = 4"

text \<open>How much a script still holds; every loop below consumes it.\<close>

fun reader_size :: "reader \<Rightarrow> nat" where
  "reader_size [] = 0"
| "reader_size (Chunk bs # rs) = Suc (length bs) + reader_size rs"
| "reader_size (_ # rs) = Suc (reader_size rs)"

lemma read_data_size: "read n rs = (Inr (b # bs), rs') \<Longrightarrow> reader_size rs' < reader_size rs"
  by (cases n; cases "(n, rs)" rule: read.cases) (auto split: if_splits)

lemma read_fault_size: "read n rs = (Inl e, rs') \<Longrightarrow> reader_size rs' < reader_size rs"
  by (cases "(n, rs)" rule: read.cases) (auto split: if_splits)

text \<open>The prefix loop of \<^verbatim>\<open>read_frame\<close>, with the bytes read so far.\<close>

function read_prefix ::
  "byte list \<Rightarrow> reader \<Rightarrow> (CodecError + byte list option) \<times> reader"
where
  "read_prefix got rs =
    (if length got < PREFIX_BYTES then
       (case read (PREFIX_BYTES - length got) rs of
          (Inr [], rs') \<Rightarrow>
            if got = [] then (Inr None, rs') else (Inl TruncatedPrefix, rs')
        | (Inr (b # bs), rs') \<Rightarrow> read_prefix (got @ b # bs) rs'
        | (Inl KInterrupted, rs') \<Rightarrow> read_prefix got rs'
        | (Inl (KOther i), rs') \<Rightarrow> (Inl (Io i), rs'))
     else (Inr (Some got), rs))"
  by pat_completeness auto
termination
  by (relation "measure (\<lambda>(got, rs). reader_size rs)")
    (auto dest!: sym [of _ "read _ _"] dest: read_data_size read_fault_size)

declare read_prefix.simps [simp del]

text \<open>\<^verbatim>\<open>Read::read_exact\<close> of the standard library.\<close>

datatype exact_error = UnexpectedEof | ExactOther io_error

function read_exact ::
  "nat \<Rightarrow> byte list \<Rightarrow> reader \<Rightarrow> (exact_error + byte list) \<times> reader"
where
  "read_exact n got rs =
    (if length got < n then
       (case read (n - length got) rs of
          (Inr [], rs') \<Rightarrow> (Inl UnexpectedEof, rs')
        | (Inr (b # bs), rs') \<Rightarrow> read_exact n (got @ b # bs) rs'
        | (Inl KInterrupted, rs') \<Rightarrow> read_exact n got rs'
        | (Inl (KOther i), rs') \<Rightarrow> (Inl (ExactOther i), rs'))
     else (Inr got, rs))"
  by pat_completeness auto
termination
  by (relation "measure (\<lambda>(n, got, rs). reader_size rs)")
    (auto dest!: sym [of _ "read _ _"] dest: read_data_size read_fault_size)

declare read_exact.simps [simp del]

definition read_frame ::
  "(byte list \<Rightarrow> json_error + 'm) \<Rightarrow> ('m \<Rightarrow> validation) \<Rightarrow> nat \<Rightarrow> reader
    \<Rightarrow> (CodecError + 'm ReadFrame) \<times> reader"
where
  "read_frame from_slice validate limit rs =
    (case read_prefix [] rs of
       (Inl e, rs1) \<Rightarrow> (Inl e, rs1)
     | (Inr None, rs1) \<Rightarrow> (Inr CleanEof, rs1)
     | (Inr (Some prefix), rs1) \<Rightarrow>
         let len = unat (u32_from_be_bytes prefix) in
         if len = 0 then (Inl Empty, rs1)
         else if len > limit then (Inl (TooLarge len limit), rs1)
         else
           (case read_exact len [] rs1 of
              (Inl UnexpectedEof, rs2) \<Rightarrow> (Inl TruncatedPayload, rs2)
            | (Inl (ExactOther i), rs2) \<Rightarrow> (Inl (Io i), rs2)
            | (Inr payload, rs2) \<Rightarrow>
                (res_bind (map_err Json (from_slice payload)) (\<lambda>message.
                   res_bind (map_err Invalid (validate message)) (\<lambda>_.
                     Inr (Message message))), rs2)))"

definition write_frame ::
  "('m \<Rightarrow> json_error + byte list) \<Rightarrow> ('m \<Rightarrow> validation) \<Rightarrow> ('w \<Rightarrow> byte list \<Rightarrow> (io_error + unit) \<times> 'w)
    \<Rightarrow> nat \<Rightarrow> 'm \<Rightarrow> 'w \<Rightarrow> (CodecError + unit) \<times> 'w"
where
  "write_frame to_vec validate write_all limit message w =
    (case validate message of
       Inl e \<Rightarrow> (Inl (Invalid e), w)
     | Inr _ \<Rightarrow>
         (case to_vec message of
            Inl e \<Rightarrow> (Inl (Json e), w)
          | Inr payload \<Rightarrow>
              if payload = [] then (Inl Empty, w)
              else if length payload > limit \<or> length payload > unat u32_MAX
                then (Inl (TooLarge (length payload) limit), w)
              else
                (case write_all w (u32_to_be_bytes (word_of_nat (length payload))) of
                   (Inl i, w1) \<Rightarrow> (Inl (Io i), w1)
                 | (Inr _, w1) \<Rightarrow>
                     (case write_all w1 payload of
                        (Inl i, w2) \<Rightarrow> (Inl (Io i), w2)
                      | (Inr _, w2) \<Rightarrow> (Inr (), w2)))))"

text \<open>\<^verbatim>\<open>write_all\<close> on a \<^verbatim>\<open>Vec<u8>\<close>, and the frame bytes.\<close>

definition vec_write_all :: "byte list \<Rightarrow> byte list \<Rightarrow> (io_error + unit) \<times> byte list" where
  "vec_write_all w bs = (Inr (), w @ bs)"

definition frame_bytes :: "byte list \<Rightarrow> byte list" where
  "frame_bytes payload = u32_to_be_bytes (word_of_nat (length payload)) @ payload"


section \<open>Readers that deliver\<close>

text \<open>
  A clean script neither fails nor reports a premature end of file: it delivers its data in
  nonempty pieces of any size, with interruptions anywhere in between.
\<close>

fun clean :: "reader \<Rightarrow> bool" where
  "clean [] \<longleftrightarrow> True"
| "clean (Chunk bs # rs) \<longleftrightarrow> bs \<noteq> [] \<and> clean rs"
| "clean (Interrupted # rs) \<longleftrightarrow> clean rs"
| "clean (Failed i # rs) \<longleftrightarrow> False"

fun script_data :: "reader \<Rightarrow> byte list" where
  "script_data [] = []"
| "script_data (Chunk bs # rs) = bs @ script_data rs"
| "script_data (_ # rs) = script_data rs"

lemma read_clean:
  assumes "clean rs" and "0 < n"
  obtains (eof) "rs = []" "script_data rs = []" "read n rs = (Inr [], [])"
  | (interrupted) rs' where "read n rs = (Inl KInterrupted, rs')" "clean rs'"
      "script_data rs' = script_data rs"
  | (got) b bs rs' where "read n rs = (Inr (b # bs), rs')" "clean rs'"
      "script_data rs = (b # bs) @ script_data rs'" "length (b # bs) \<le> n"
proof (cases "(n, rs)" rule: read.cases)
  case (1 m)
  then show ?thesis using eof by simp
next
  case (2 m bs rs1)
  define rs' where "rs' = (if drop n bs = [] then rs1 else Chunk (drop n bs) # rs1)"
  from 2 assms obtain b cs where cs: "take n bs = b # cs"
    by (cases "take n bs") auto
  show ?thesis
  proof (rule got)
    show "read n rs = (Inr (b # cs), rs')"
      using 2 cs by (simp add: rs'_def)
    show "clean rs'"
      using 2 assms by (simp add: rs'_def)
    show "script_data rs = (b # cs) @ script_data rs'"
      using 2 append_take_drop_id [of n bs] unfolding cs rs'_def by auto
    show "length (b # cs) \<le> n"
      using arg_cong [OF cs, of length] by simp
  qed
next
  case (3 m rs1)
  then show ?thesis using assms interrupted [of rs1] by simp
next
  case (4 m i rs1)
  then show ?thesis using assms by simp
qed

lemma append_split_le:
  assumes "xs @ ys = us @ vs" and "length xs \<le> length us"
  obtains ws where "us = xs @ ws" and "ys = ws @ vs"
  using assms by (auto simp: append_eq_append_conv2)

lemma read_exact_clean:
  assumes "clean rs" and "script_data rs = pre @ rest" and "length got + length pre = n"
  shows "\<exists>rs'. read_exact n got rs = (Inr (got @ pre), rs') \<and> clean rs' \<and> script_data rs' = rest"
  using assms
proof (induction n got rs arbitrary: pre rule: read_exact.induct)
  case (1 n got rs)
  show ?case
  proof (cases "length got < n")
    case False
    with "1.prems" have "pre = []" by (cases pre) auto
    with False "1.prems" show ?thesis by (simp add: read_exact.simps [of n got rs])
  next
    case True
    then have pos: "0 < n - length got" by simp
    from "1.prems"(1) pos show ?thesis
    proof (cases rule: read_clean)
      case eof
      with "1.prems" True show ?thesis by auto
    next
      case (interrupted rs')
      with "1.IH"(1) [OF True interrupted(1) [symmetric] refl refl] "1.prems" True show ?thesis
        by (simp add: read_exact.simps [of n got rs])
    next
      case (got b bs rs')
      have "length (b # bs) \<le> length pre"
        using got(4) "1.prems"(3) by simp
      then obtain ws where ws: "pre = (b # bs) @ ws" "script_data rs' = ws @ rest"
        using append_split_le [of "b # bs" "script_data rs'" pre rest] got(3) "1.prems"(2) by metis
      with "1.IH"(2) [OF True got(1) [symmetric] refl refl, of ws] got "1.prems" True show ?thesis
        by (simp add: read_exact.simps [of n _ rs])
    qed
  qed
qed


lemma read_exact_short:
  assumes "clean rs" and "length got + length (script_data rs) < n"
  shows "\<exists>rs'. read_exact n got rs = (Inl UnexpectedEof, rs')"
  using assms
proof (induction n got rs rule: read_exact.induct)
  case (1 n got rs)
  then have True: "length got < n" by simp
  then have pos: "0 < n - length got" by simp
  from "1.prems"(1) pos show ?case
  proof (cases rule: read_clean)
    case eof
    with True show ?thesis by (simp add: read_exact.simps [of n got "[]"])
  next
    case (interrupted rs')
    with "1.IH"(1) [OF True interrupted(1) [symmetric] refl refl] "1.prems" True show ?thesis
      by (simp add: read_exact.simps [of n got rs])
  next
    case (got b bs rs')
    with "1.IH"(2) [OF True got(1) [symmetric] refl refl] "1.prems" True show ?thesis
      by (simp add: read_exact.simps [of n _ rs])
  qed
qed

lemma read_prefix_clean:
  assumes "clean rs" and "script_data rs = pre @ rest" and "length got + length pre = PREFIX_BYTES"
  shows "\<exists>rs'. read_prefix got rs = (Inr (Some (got @ pre)), rs') \<and> clean rs'
    \<and> script_data rs' = rest"
  using assms
proof (induction got rs arbitrary: pre rule: read_prefix.induct)
  case (1 got rs)
  show ?case
  proof (cases "length got < PREFIX_BYTES")
    case False
    with "1.prems" have "pre = []" by (cases pre) auto
    with False "1.prems" show ?thesis by (simp add: read_prefix.simps [of got rs])
  next
    case True
    then have pos: "0 < PREFIX_BYTES - length got" by simp
    from "1.prems"(1) pos show ?thesis
    proof (cases rule: read_clean)
      case eof
      with "1.prems" True show ?thesis by auto
    next
      case (interrupted rs')
      with "1.IH"(1) [OF True interrupted(1) [symmetric] refl refl] "1.prems" True show ?thesis
        by (simp add: read_prefix.simps [of got rs])
    next
      case (got b bs rs')
      have "length (b # bs) \<le> length pre"
        using got(4) "1.prems"(3) by simp
      then obtain ws where ws: "pre = (b # bs) @ ws" "script_data rs' = ws @ rest"
        using append_split_le [of "b # bs" "script_data rs'" pre rest] got(3) "1.prems"(2) by metis
      with "1.IH"(2) [OF True got(1) [symmetric] refl refl, of ws] got "1.prems" True show ?thesis
        by (simp add: read_prefix.simps [of _ rs])
    qed
  qed
qed

lemma read_prefix_short:
  assumes "clean rs" and "length got + length (script_data rs) < PREFIX_BYTES"
  shows "fst (read_prefix got rs) =
    (if got @ script_data rs = [] then Inr None else Inl TruncatedPrefix)"
  using assms
proof (induction got rs rule: read_prefix.induct)
  case (1 got rs)
  then have True: "length got < PREFIX_BYTES" by simp
  then have pos: "0 < PREFIX_BYTES - length got" by simp
  from "1.prems"(1) pos show ?case
  proof (cases rule: read_clean)
    case eof
    with True show ?thesis by (auto simp: read_prefix.simps [of got "[]"])
  next
    case (interrupted rs')
    with "1.IH"(1) [OF True interrupted(1) [symmetric] refl refl] "1.prems" True show ?thesis
      by (simp add: read_prefix.simps [of got rs])
  next
    case (got b bs rs')
    with "1.IH"(2) [OF True got(1) [symmetric] refl refl] "1.prems" True show ?thesis
      by (simp add: read_prefix.simps [of _ rs])
  qed
qed

section \<open>Frames\<close>

text \<open>A payload that \<open>write_frame\<close> puts on the wire under a limit.\<close>

definition frameable :: "nat \<Rightarrow> byte list \<Rightarrow> bool" where
  "frameable limit payload \<longleftrightarrow>
    payload \<noteq> [] \<and> length payload \<le> limit \<and> length payload < 2 ^ 32"

lemma frame_prefix_value:
  "frameable limit payload \<Longrightarrow>
    unat (u32_from_be_bytes (u32_to_be_bytes (word_of_nat (length payload)))) = length payload"
  by (simp add: frameable_def unat_of_nat)

lemma write_frame_vec:
  "write_frame to_vec validate vec_write_all limit m w = (Inr (), w') \<longleftrightarrow>
    validate m = Inr () \<and>
    (\<exists>payload. to_vec m = Inr payload \<and> frameable limit payload \<and> w' = w @ frame_bytes payload)"
  by (auto simp: write_frame_def vec_write_all_def frame_bytes_def frameable_def unat_u32_MAX
      split: sum.splits if_splits)

lemma read_frame_frame_bytes:
  assumes "clean rs" and "script_data rs = frame_bytes payload @ rest"
    and "frameable limit payload"
  shows "\<exists>rs'. read_frame from_slice validate limit rs =
      (res_bind (map_err Json (from_slice payload)) (\<lambda>m.
         res_bind (map_err Invalid (validate m)) (\<lambda>_. Inr (Message m))), rs')
      \<and> clean rs' \<and> script_data rs' = rest"
proof -
  let ?prefix = "u32_to_be_bytes (word_of_nat (length payload))"
  have "script_data rs = ?prefix @ (payload @ rest)"
    using assms(2) by (simp add: frame_bytes_def)
  then obtain rs1 where rs1:
    "read_prefix [] rs = (Inr (Some ?prefix), rs1)"
    "clean rs1"
    "script_data rs1 = payload @ rest"
    using read_prefix_clean [OF assms(1), of ?prefix _ "[]"] by (auto simp: PREFIX_BYTES_def)
  obtain rs2 where rs2: "read_exact (length payload) [] rs1 = (Inr payload, rs2)" "clean rs2"
    "script_data rs2 = rest"
    using read_exact_clean [OF rs1(2,3), of "[]" "length payload"] by auto
  have "length payload \<noteq> 0" "\<not> limit < length payload"
    using assms(3) by (simp_all add: frameable_def)
  with rs1 rs2 frame_prefix_value [OF assms(3)] show ?thesis
    by (simp add: read_frame_def Let_def)
qed


text \<open>
  C17. A frame written by \<^verbatim>\<open>write_frame\<close> is read back by \<^verbatim>\<open>read_frame\<close> as the same message, however
  the transport splits or interrupts the bytes, and the bytes after the frame stay unread for the
  next call. The JSON hypothesis is serde's: decoding what was encoded gives the value back.
\<close>

theorem frame_round_trip:
  assumes "write_frame to_vec validate vec_write_all limit m w = (Inr (), w @ sent)"
    and "\<And>payload. to_vec m = Inr payload \<Longrightarrow> from_slice payload = Inr m"
    and "clean rs" and "script_data rs = sent @ rest"
  shows "\<exists>rs'. read_frame from_slice validate limit rs = (Inr (Message m), rs')
    \<and> clean rs' \<and> script_data rs' = rest"
proof -
  obtain payload where p: "validate m = Inr ()" "to_vec m = Inr payload"
    "frameable limit payload" "sent = frame_bytes payload"
    using assms(1) by (auto simp: write_frame_vec)
  with assms(2-) show ?thesis
    using read_frame_frame_bytes [of rs payload rest limit from_slice validate] by simp
qed

definition demo_to_vec :: "u8 \<Rightarrow> string + byte list" where
  "demo_to_vec b = Inr [b]"

definition demo_from_slice :: "byte list \<Rightarrow> string + u8" where
  "demo_from_slice bs = (case bs of [b] \<Rightarrow> Inr b | _ \<Rightarrow> Inl ''trailing'')"

definition demo_validate :: "u8 \<Rightarrow> validation" where
  "demo_validate b = ensure (b \<noteq> 0) ''value must be nonzero''"

lemma demo_prefix: "u32_to_be_bytes (word_of_nat 1) = [0, 0, 0, 1]"
  by code_simp

theorem frame_round_trip_witness:
  "\<exists>rs' :: reader. read_frame demo_from_slice demo_validate 64
      [Chunk [0, 0], Interrupted, Chunk [0, 1, 7, 0], Chunk [0]] = (Inr (Message 7), rs')
    \<and> clean rs' \<and> script_data rs' = [0, 0]"
proof (rule frame_round_trip [where to_vec = demo_to_vec and w = "[]" and sent = "[0, 0, 0, 1, 7]"])
  show "write_frame demo_to_vec demo_validate vec_write_all 64 7 [] =
      ((Inr () :: CodecError + unit), [] @ [0, 0, 0, 1, 7])"
    by (simp add: write_frame_vec demo_validate_def demo_to_vec_def frameable_def frame_bytes_def
        demo_prefix [simplified])
qed (simp_all add: demo_to_vec_def demo_from_slice_def)

text \<open>Several frames in a row: the writer's calls, then the reader's.\<close>

fun write_frames ::
  "('m \<Rightarrow> json_error + byte list) \<Rightarrow> ('m \<Rightarrow> validation) \<Rightarrow> nat \<Rightarrow> 'm list \<Rightarrow> byte list
    \<Rightarrow> (CodecError + unit) \<times> byte list"
where
  "write_frames to_vec validate limit [] w = (Inr (), w)"
| "write_frames to_vec validate limit (m # ms) w =
    (case write_frame to_vec validate vec_write_all limit m w of
       (Inl e, w') \<Rightarrow> (Inl e, w')
     | (Inr _, w') \<Rightarrow> write_frames to_vec validate limit ms w')"

fun read_frames ::
  "(byte list \<Rightarrow> json_error + 'm) \<Rightarrow> ('m \<Rightarrow> validation) \<Rightarrow> nat \<Rightarrow> nat \<Rightarrow> reader
    \<Rightarrow> (CodecError + 'm list) \<times> reader"
where
  "read_frames from_slice validate limit 0 rs = (Inr [], rs)"
| "read_frames from_slice validate limit (Suc n) rs =
    (case read_frame from_slice validate limit rs of
       (Inl e, rs') \<Rightarrow> (Inl e, rs')
     | (Inr CleanEof, rs') \<Rightarrow> (Inr [], rs')
     | (Inr (Message m), rs') \<Rightarrow>
         (case read_frames from_slice validate limit n rs' of
            (Inl e, rs'') \<Rightarrow> (Inl e, rs'')
          | (Inr ms, rs'') \<Rightarrow> (Inr (m # ms), rs'')))"

lemma write_frames_bytes:
  "write_frames to_vec validate limit ms w = (Inr (), w') \<Longrightarrow>
    \<exists>ps. list_all2 (\<lambda>m p. validate m = Inr () \<and> to_vec m = Inr p \<and> frameable limit p) ms ps
      \<and> w' = w @ concat (map frame_bytes ps)"
proof (induction ms arbitrary: w)
  case Nil
  then show ?case by auto
next
  case (Cons m ms)
  then obtain w1 where w1: "write_frame to_vec validate vec_write_all limit m w = (Inr (), w1)"
    and rest: "write_frames to_vec validate limit ms w1 = (Inr (), w')"
    by (auto split: prod.splits sum.splits)
  from w1 obtain p where p: "validate m = Inr ()" "to_vec m = Inr p" "frameable limit p"
    "w1 = w @ frame_bytes p"
    by (auto simp: write_frame_vec)
  from Cons.IH [OF rest] obtain ps where
    "list_all2 (\<lambda>m p. validate m = Inr () \<and> to_vec m = Inr p \<and> frameable limit p) ms ps"
    "w' = w1 @ concat (map frame_bytes ps)"
    by blast
  with p show ?case by (intro exI [of _ "p # ps"]) simp
qed

lemma read_frame_eof:
  "clean rs \<Longrightarrow> script_data rs = [] \<Longrightarrow> fst (read_frame from_slice validate limit rs) = Inr CleanEof"
  using read_prefix_short [of rs "[]"]
  by (cases "read_prefix [] rs") (simp add: read_frame_def PREFIX_BYTES_def)

lemma read_frames_concat:
  assumes "list_all2 (\<lambda>m p. validate m = Inr () \<and> to_vec m = Inr p \<and> frameable limit p) ms ps"
    and "\<And>m p. m \<in> set ms \<Longrightarrow> to_vec m = Inr p \<Longrightarrow> from_slice p = Inr m"
    and "clean rs" and "script_data rs = concat (map frame_bytes ps) @ rest"
  shows "\<exists>rs'. read_frames from_slice validate limit (length ms) rs = (Inr ms, rs')
    \<and> clean rs' \<and> script_data rs' = rest"
  using assms
proof (induction ms ps arbitrary: rs rule: list_all2_induct)
  case Nil
  then show ?case by simp
next
  case (Cons m ms p ps)
  then have fs: "from_slice p = Inr m" and v: "validate m = Inr ()" and f: "frameable limit p"
    and d: "script_data rs = frame_bytes p @ (concat (map frame_bytes ps) @ rest)"
    by auto
  obtain rs1 where rs1: "read_frame from_slice validate limit rs = (Inr (Message m), rs1)"
    "clean rs1" "script_data rs1 = concat (map frame_bytes ps) @ rest"
    using read_frame_frame_bytes [OF Cons.prems(2) d f, of from_slice validate]
    by (auto simp: fs v)
  with Cons.IH [of rs1] Cons.prems show ?case by auto
qed

text \<open>
  A whole stream of messages survives framing: what a sequence of \<^verbatim>\<open>write_frame\<close> calls wrote is
  read back as the same sequence of messages, in order, whatever the transport's chunking, and the
  call after the last frame reports the clean end of the stream.
\<close>

theorem frame_stream_round_trip:
  assumes "write_frames to_vec validate limit ms [] = (Inr (), sent)"
    and "\<And>m p. m \<in> set ms \<Longrightarrow> to_vec m = Inr p \<Longrightarrow> from_slice p = Inr m"
    and "clean rs" and "script_data rs = sent"
  shows "\<exists>rs'. read_frames from_slice validate limit (length ms) rs = (Inr ms, rs')
    \<and> fst (read_frame from_slice validate limit rs') = Inr CleanEof"
proof -
  obtain ps where ps: "list_all2 (\<lambda>m p. validate m = Inr () \<and> to_vec m = Inr p
      \<and> frameable limit p) ms ps" and "sent = concat (map frame_bytes ps)"
    using write_frames_bytes [OF assms(1)] by auto
  then obtain rs' where "read_frames from_slice validate limit (length ms) rs = (Inr ms, rs')"
    "clean rs'" "script_data rs' = []"
    using read_frames_concat [OF ps, of from_slice rs "[]"] assms(2-4) by auto
  then show ?thesis using read_frame_eof by blast
qed

theorem frame_stream_round_trip_witness:
  "\<exists>rs' :: reader. read_frames demo_from_slice demo_validate 64 2
      [Chunk [0, 0, 0, 1, 7, 0, 0], Interrupted, Chunk [0, 1, 9]] = (Inr [7, 9], rs')
    \<and> fst (read_frame demo_from_slice demo_validate 64 rs') = Inr CleanEof"
proof -
  have sent: "write_frames demo_to_vec demo_validate 64 [7, 9] [] =
      ((Inr () :: CodecError + unit), [0, 0, 0, 1, 7, 0, 0, 0, 1, 9])"
    by (simp add: write_frame_def vec_write_all_def demo_validate_def demo_to_vec_def ensure_def
        demo_prefix [simplified] unat_u32_MAX)
  let ?rs = "[Chunk [0, 0, 0, 1, 7, 0, 0], Interrupted, Chunk [0, 1, 9]]"
  have codec: "demo_from_slice p = Inr m" if "demo_to_vec m = Inr p" for m p
    using that by (auto simp: demo_to_vec_def demo_from_slice_def)
  have "\<exists>rs'. read_frames demo_from_slice demo_validate 64 (length [7 :: u8, 9]) ?rs
        = (Inr [7, 9], rs')
      \<and> fst (read_frame demo_from_slice demo_validate 64 rs') = Inr CleanEof"
    by (rule frame_stream_round_trip [OF sent codec]) simp_all
  moreover have "length [7 :: u8, 9] = 2" by simp
  ultimately show ?thesis by (simp only:)
qed

lemma read_frame_edges_aux:
  assumes "clean rs"
  shows "length (script_data rs) < 4 \<Longrightarrow>
      fst (read_frame from_slice validate limit rs) =
        (if script_data rs = [] then Inr CleanEof else Inl TruncatedPrefix)"
    and "script_data rs = u32_to_be_bytes n @ rest \<Longrightarrow> n = 0 \<or> limit < unat n \<Longrightarrow>
      \<exists>rs'. read_frame from_slice validate limit rs =
          (Inl (if n = 0 then Empty else TooLarge (unat n) limit), rs')
        \<and> script_data rs' = rest"
    and "script_data rs = u32_to_be_bytes n @ rest \<Longrightarrow> n \<noteq> 0 \<Longrightarrow> unat n \<le> limit \<Longrightarrow>
      length rest < unat n \<Longrightarrow>
      fst (read_frame from_slice validate limit rs) = Inl TruncatedPayload"
proof -
  show "fst (read_frame from_slice validate limit rs) =
        (if script_data rs = [] then Inr CleanEof else Inl TruncatedPrefix)"
    if "length (script_data rs) < 4"
    using that read_prefix_short [OF assms, of "[]"]
    by (cases "read_prefix [] rs") (auto simp: read_frame_def PREFIX_BYTES_def)
  have prefix: "\<exists>rs1. read_prefix [] rs = (Inr (Some (u32_to_be_bytes n)), rs1) \<and> clean rs1
      \<and> script_data rs1 = rest" if "script_data rs = u32_to_be_bytes n @ rest"
    using read_prefix_clean [OF assms that, of "[]"] by (simp add: PREFIX_BYTES_def)
  show "\<exists>rs'. read_frame from_slice validate limit rs =
          (Inl (if n = 0 then Empty else TooLarge (unat n) limit), rs')
        \<and> script_data rs' = rest"
    if "script_data rs = u32_to_be_bytes n @ rest" "n = 0 \<or> limit < unat n"
    using prefix [OF that(1)] that(2) by (auto simp: read_frame_def unat_eq_0)
  show "fst (read_frame from_slice validate limit rs) = Inl TruncatedPayload"
    if "script_data rs = u32_to_be_bytes n @ rest" "n \<noteq> 0" "unat n \<le> limit"
      "length rest < unat n"
    using prefix [OF that(1)] that(2-) read_exact_short [of _ "[]" "unat n"]
    by (fastforce simp: read_frame_def unat_eq_0)
qed

text \<open>
  C36. Reading a frame is fail-closed at its edges. When the prefix announces more than the limit
  or nothing at all, the call refuses with exactly the four prefix bytes consumed and no payload
  read; when the stream ends inside the prefix or the payload it reports which, and only a stream
  that ends before the first prefix byte is a clean end.
\<close>

theorem read_frame_edges:
  assumes "clean rs"
  shows "(length (script_data rs) < 4 \<longrightarrow>
      fst (read_frame from_slice validate limit rs) =
        (if script_data rs = [] then Inr CleanEof else Inl TruncatedPrefix))
    \<and> (script_data rs = u32_to_be_bytes n @ rest \<longrightarrow> n = 0 \<or> limit < unat n \<longrightarrow>
      (\<exists>rs'. read_frame from_slice validate limit rs =
          (Inl (if n = 0 then Empty else TooLarge (unat n) limit), rs')
        \<and> script_data rs' = rest))
    \<and> (script_data rs = u32_to_be_bytes n @ rest \<longrightarrow> n \<noteq> 0 \<longrightarrow> unat n \<le> limit \<longrightarrow>
      length rest < unat n \<longrightarrow>
      fst (read_frame from_slice validate limit rs) = Inl TruncatedPayload)"
  using read_frame_edges_aux [OF assms] by blast

lemma be_65: "u32_to_be_bytes 65 = [0, 0, 0, 65]"
  by code_simp

theorem read_frame_edges_witness:
  "fst (read_frame demo_from_slice demo_validate 64 [Chunk [0, 0]]) = Inl TruncatedPrefix
   \<and> (\<exists>rs'. read_frame demo_from_slice demo_validate 64 [Chunk [0, 0], Chunk [0, 65, 1]] =
        (Inl (TooLarge 65 64), rs') \<and> script_data rs' = [1])
   \<and> fst (read_frame demo_from_slice demo_validate 64 [Chunk [0, 0, 0, 1]]) = Inl TruncatedPayload"
  using read_frame_edges [of "[Chunk [0, 0]]" demo_from_slice demo_validate 64]
    read_frame_edges [of "[Chunk [0, 0], Chunk [0, 65, 1]]" demo_from_slice demo_validate 64 65
      "[1]"]
    read_frame_edges [of "[Chunk [0, 0, 0, 1]]" demo_from_slice demo_validate 64 1 "[]"]
  by (simp add: be_65 demo_prefix [simplified])

text \<open>
  Outbound validation, encoding and bounding precede every write: unless the transport itself
  failed, a failed \<^verbatim>\<open>write_frame\<close> leaves the writer exactly as it was, and a success means the
  message was valid and its encoding within the limit.
\<close>

theorem write_frame_writes_only_bounded_valid:
  assumes "write_frame to_vec validate write_all limit m w = (r, w')"
  shows "(\<exists>i. r = Inl (Io i)) \<or> (w' = w \<and> (\<exists>e. r = Inl e))
    \<or> (r = Inr () \<and> validate m = Inr () \<and> (\<exists>p. to_vec m = Inr p \<and> frameable limit p))"
  using assms
  by (auto simp: write_frame_def frameable_def unat_u32_MAX split: sum.splits if_splits prod.splits)

theorem write_frame_writes_only_bounded_valid_witness:
  "write_frame demo_to_vec demo_validate vec_write_all 64 0 [1] =
      (Inl (Invalid ''value must be nonzero''), [1])
   \<and> write_frame demo_to_vec demo_validate vec_write_all 0 5 [1] = (Inl (TooLarge 1 0), [1])"
proof -
  have a: "write_frame demo_to_vec demo_validate vec_write_all 64 0 [1] =
      (Inl (Invalid ''value must be nonzero''), [1])"
    and b: "write_frame demo_to_vec demo_validate vec_write_all 0 5 [1] = (Inl (TooLarge 1 0), [1])"
    by (simp_all add: write_frame_def demo_to_vec_def demo_validate_def ensure_def)
  show ?thesis
    using a b write_frame_writes_only_bounded_valid [OF a]
      write_frame_writes_only_bounded_valid [OF b] by simp
qed

end
