(* ===== verification/Wire_Advertisement.thy ===== *)
theory Wire_Advertisement
  imports Seat_Prelude
begin

text \<open>
  The X11 discovery property, from \<^verbatim>\<open>crates/agent-seat-proto/src/advertisement.rs\<close>: the three
  NUL-separated fields protocol, revision and socket path. Parsing and encoding form a
  canonical codec (interface \<open>canonical_codec\<close>).
\<close>

definition PROTOCOL_NAME :: string where
  "PROTOCOL_NAME = ''agent-seat''"

definition PROTOCOL_REVISION :: u16 where
  "PROTOCOL_REVISION = 9"

definition REVISION_TEXT :: string where
  "REVISION_TEXT = ''9''"

definition MAX_ADVERTISEMENT_BYTES :: nat where
  "MAX_ADVERTISEMENT_BYTES = 256"

definition SEPARATOR :: char where
  "SEPARATOR = CHR 0x00"

record Advertisement =
  adv_socket :: string

datatype AdvertisementError = TooLarge | Fields | Protocol | Revision | Socket

definition validate_socket :: "string \<Rightarrow> AdvertisementError + unit" where
  "validate_socket socket =
    (if socket = [] \<or> take 1 socket \<noteq> ''/'' \<or> SEPARATOR \<in> set socket then Inl Socket
     else if length socket > 107 then Inl Socket
     else Inr ())"

definition Advertisement_parse :: "string \<Rightarrow> AdvertisementError + Advertisement" where
  "Advertisement_parse value =
    (if length value > MAX_ADVERTISEMENT_BYTES then Inl TooLarge
     else
       (case split_on SEPARATOR value of
          [] \<Rightarrow> Inl Protocol
        | protocol # fields1 \<Rightarrow>
            if protocol \<noteq> PROTOCOL_NAME then Inl Protocol
            else
              (case fields1 of
                 [] \<Rightarrow> Inl Fields
               | revision # fields2 \<Rightarrow>
                   if revision \<noteq> REVISION_TEXT then Inl Revision
                   else
                     (case fields2 of
                        [] \<Rightarrow> Inl Fields
                      | socket # fields3 \<Rightarrow>
                          if fields3 \<noteq> [] then Inl Fields
                          else res_bind (validate_socket socket)
                                 (\<lambda>_. Inr \<lparr>adv_socket = socket\<rparr>)))))"

definition Advertisement_new :: "string \<Rightarrow> AdvertisementError + Advertisement" where
  "Advertisement_new socket =
    res_bind (validate_socket socket) (\<lambda>_.
      let encoded_len = length PROTOCOL_NAME + 1 + length REVISION_TEXT + 1 + length socket
      in if encoded_len > MAX_ADVERTISEMENT_BYTES then Inl TooLarge
         else Inr \<lparr>adv_socket = socket\<rparr>)"

definition Advertisement_encode :: "Advertisement \<Rightarrow> string" where
  "Advertisement_encode adv =
    PROTOCOL_NAME @ SEPARATOR # decimal (unat PROTOCOL_REVISION) @ SEPARATOR # adv_socket adv"

lemmas advertisement_consts =
  PROTOCOL_NAME_def PROTOCOL_REVISION_def REVISION_TEXT_def MAX_ADVERTISEMENT_BYTES_def

definition valid_advertisement :: "Advertisement \<Rightarrow> bool" where
  "valid_advertisement adv \<longleftrightarrow> validate_socket (adv_socket adv) = Inr ()"

lemma revision_text: "decimal (unat PROTOCOL_REVISION) = REVISION_TEXT"
  by code_simp

lemma length_encode: "length (Advertisement_encode adv) = 13 + length (adv_socket adv)"
  by (simp only: Advertisement_encode_def revision_text) (simp add: advertisement_consts)

lemma names_free: "SEPARATOR \<notin> set PROTOCOL_NAME" "SEPARATOR \<notin> set REVISION_TEXT"
  by (simp_all add: SEPARATOR_def PROTOCOL_NAME_def REVISION_TEXT_def)

lemma socket_facts:
  assumes "validate_socket s = Inr ()"
  shows "SEPARATOR \<notin> set s" and "length s \<le> 107" and "take 1 s = ''/''"
  using assms by (auto simp: validate_socket_def split: if_splits)

lemma encode_fields:
  "SEPARATOR \<notin> set (adv_socket adv) \<Longrightarrow>
    split_on SEPARATOR (Advertisement_encode adv) = [PROTOCOL_NAME, REVISION_TEXT, adv_socket adv]"
  by (simp add: Advertisement_encode_def revision_text split_on_append_sep names_free split_on_free)

lemma parse_encode:
  "valid_advertisement adv \<Longrightarrow> Advertisement_parse (Advertisement_encode adv) = Inr adv"
  using socket_facts [of "adv_socket adv"]
  by (simp add: Advertisement_parse_def encode_fields valid_advertisement_def length_encode
      MAX_ADVERTISEMENT_BYTES_def)

lemma parse_Inr_fields:
  assumes "Advertisement_parse v = Inr adv"
  shows "split_on SEPARATOR v = [PROTOCOL_NAME, REVISION_TEXT, adv_socket adv]"
    and "validate_socket (adv_socket adv) = Inr ()"
  using assms
  by (auto simp: Advertisement_parse_def res_simps split: if_splits list.splits)

lemma encode_parse:
  assumes "Advertisement_parse v = Inr adv"
  shows "Advertisement_encode adv = v"
proof -
  have "v = join_on SEPARATOR [PROTOCOL_NAME, REVISION_TEXT, adv_socket adv]"
    using join_on_split_on [of SEPARATOR v] parse_Inr_fields(1) [OF assms] by simp
  then show ?thesis
    by (simp add: Advertisement_encode_def revision_text)
qed

interpretation advertisement: canonical_codec
  Advertisement_encode Advertisement_parse valid_advertisement
  by unfold_locales
    (auto simp: parse_encode encode_parse valid_advertisement_def dest: parse_Inr_fields)

lemma new_accepts: "Advertisement_new s = Inr adv \<longleftrightarrow>
    validate_socket s = Inr () \<and> adv = \<lparr>adv_socket = s\<rparr>"
  using socket_facts [of s]
  by (auto simp: Advertisement_new_def res_simps Let_def advertisement_consts)

text \<open>
  A discovery value parses to an advertisement exactly when it is the canonical encoding of
  one that \<^verbatim>\<open>Advertisement::new\<close> builds from the same socket path: every advertisement the
  provider publishes is read back unchanged, and no second spelling is accepted.
\<close>

theorem advertisement_parse_iff_encode_new:
  "Advertisement_parse v = Inr adv \<longleftrightarrow>
    Advertisement_new (adv_socket adv) = Inr adv \<and> v = Advertisement_encode adv"
  by (auto simp: advertisement.decode_eq_iff new_accepts valid_advertisement_def)

text \<open>
  A socket path that passes validation always fits the advertisement: the size check of
  \<^verbatim>\<open>Advertisement::new\<close> never fires, its only failure is a bad socket, and the published value
  is at most 120 bytes, inside both the 256-byte property bound and what a reader accepts.
\<close>

theorem advertisement_new_only_fails_on_socket:
  "(case Advertisement_new s of
      Inl e \<Rightarrow> e = Socket \<and> validate_socket s = Inl Socket
    | Inr adv \<Rightarrow> length (Advertisement_encode adv) \<le> 120
        \<and> Advertisement_parse (Advertisement_encode adv) = Inr adv)"
proof (cases "validate_socket s")
  case (Inl e)
  then show ?thesis
    by (auto simp: Advertisement_new_def validate_socket_def split: if_splits)
next
  case (Inr u)
  then have "Advertisement_new s = Inr \<lparr>adv_socket = s\<rparr>"
    by (simp add: new_accepts)
  with Inr socket_facts [of s] show ?thesis
    by (simp add: length_encode parse_encode valid_advertisement_def)
qed

end
