(* ===== verification/Wire_Vocabulary.thy ===== *)
theory Wire_Vocabulary
  imports Seat_Prelude
begin

text \<open>
  The closed vocabularies of the wire protocol, from
  \<^verbatim>\<open>crates/agent-seat-proto/src/message.rs\<close> and \<^verbatim>\<open>ids.rs\<close>: identities, capabilities, features,
  event kinds, client states and actions, keyboard keys and modifiers, error and retry codes.
  A constructor carries a prefix that names its Rust enum (\<^verbatim>\<open>Capability::ManageClose\<close> is
  \<open>Cap_ManageClose\<close>). The derived \<^verbatim>\<open>Ord\<close> of an enum is its declaration order: each
  is an instance of \<open>linorder\<close> through its rank.
\<close>

section \<open>Identities\<close>

text \<open>
  \<^verbatim>\<open>RequestId\<close>, \<^verbatim>\<open>SessionId\<close>, \<^verbatim>\<open>ClientId\<close> and \<^verbatim>\<open>LaunchToken\<close> wrap a \<^verbatim>\<open>NonZeroU64\<close>: a value is
  built through \<open>NonZeroU64_new\<close>, which refuses zero.
\<close>

type_synonym RequestId = u64
type_synonym SessionId = u64
type_synonym ClientId = u64
type_synonym LaunchToken = u64
type_synonym Sequence = u64
type_synonym Generation = u64
type_synonym WorkspaceId = u16

definition NonZeroU64_new :: "u64 \<Rightarrow> u64 option" where
  "NonZeroU64_new v = (if v = 0 then None else Some v)"

section \<open>Closed vocabularies\<close>

datatype Backend = X11Ewmh

datatype Assurance = Tier0

datatype Capability =
  Cap_ObserveStructure | Cap_ObserveTitles | Cap_ObserveEvents | Cap_ManageActivate
  | Cap_ManageClose | Cap_ManageWorkspace | Cap_ManageState | Cap_ManageGeometry
  | Cap_LaunchList | Cap_LaunchExecute | Cap_InputPointer | Cap_InputKeyboard
  | Cap_TextTransfer | Cap_CaptureObscured

datatype Feature =
  Feat_EwmhObservation | Feat_EwmhManagement | Feat_DesktopLaunch
  | Feat_ClientVisibleCapture | Feat_ObscuredCapture | Feat_OutputCapture
  | Feat_InputInjection | Feat_TextTransfer | Feat_HumanActivity | Feat_Accessibility

datatype EventKind =
  Kind_ClientAdded | Kind_ClientChanged | Kind_ClientRemoved | Kind_ActiveChanged
  | Kind_WorkspaceChanged | Kind_ApplicationsChanged

datatype ClientState =
  State_Above | State_Below | State_Fullscreen | State_Hidden | State_MaximizedHorizontal
  | State_MaximizedVertical | State_DemandsAttention | State_Sticky | State_Shaded

datatype StateAction =
  Sa_Add | Sa_Remove | Sa_Toggle

datatype ClientAction =
  Act_Activate | Act_Close | Act_ChangeWorkspace | Act_ChangeState | Act_ChangeGeometry

datatype PointerButton =
  Btn_Primary | Btn_Middle | Btn_Secondary

datatype KeyboardKey =
  Key_Backspace | Key_Delete | Key_Enter | Key_Escape | Key_Tab | Key_Space | Key_Insert
  | Key_Home | Key_End | Key_PageUp | Key_PageDown | Key_ArrowLeft | Key_ArrowRight
  | Key_ArrowUp | Key_ArrowDown | Key_A | Key_B | Key_C | Key_D | Key_E | Key_F | Key_G
  | Key_H | Key_I | Key_J | Key_K | Key_L | Key_M | Key_N | Key_O | Key_P | Key_Q | Key_R
  | Key_S | Key_T | Key_U | Key_V | Key_W | Key_X | Key_Y | Key_Z | Key_Digit0 | Key_Digit1
  | Key_Digit2 | Key_Digit3 | Key_Digit4 | Key_Digit5 | Key_Digit6 | Key_Digit7 | Key_Digit8
  | Key_Digit9 | Key_F1 | Key_F2 | Key_F3 | Key_F4 | Key_F5 | Key_F6 | Key_F7 | Key_F8
  | Key_F9 | Key_F10 | Key_F11 | Key_F12

datatype KeyboardModifier =
  Mod_Control | Mod_Alt | Mod_Shift | Mod_Super

datatype ErrorCode =
  Err_Unavailable | Err_IncompatibleRevision | Err_Refused | Err_NoSuchClient | Err_Stale
  | Err_Unsupported | Err_TimedOut | Err_InvalidArgument | Err_Malformed | Err_TooLarge
  | Err_Internal | Err_ResyncRequired | Err_Revoked | Err_SessionClosed

datatype Retry =
  Retry_Never | Retry_Reobserve | Retry_Reconnect

datatype Observation =
  Obs_Observed | Obs_TimedOut | Obs_TargetGone

datatype InputTerminal =
  In_Queued | In_Interrupted

datatype TextTransferTerminal =
  Tt_Delivered | Tt_Offered | Tt_Interrupted

datatype CaptureFormat = Png

fun ErrorCode_as_str :: "ErrorCode \<Rightarrow> string" where
  "ErrorCode_as_str Err_Unavailable = ''unavailable''"
| "ErrorCode_as_str Err_IncompatibleRevision = ''incompatible_revision''"
| "ErrorCode_as_str Err_Refused = ''refused''"
| "ErrorCode_as_str Err_NoSuchClient = ''no_such_client''"
| "ErrorCode_as_str Err_Stale = ''stale''"
| "ErrorCode_as_str Err_Unsupported = ''unsupported''"
| "ErrorCode_as_str Err_TimedOut = ''timed_out''"
| "ErrorCode_as_str Err_InvalidArgument = ''invalid_argument''"
| "ErrorCode_as_str Err_Malformed = ''malformed''"
| "ErrorCode_as_str Err_TooLarge = ''too_large''"
| "ErrorCode_as_str Err_Internal = ''internal''"
| "ErrorCode_as_str Err_ResyncRequired = ''resync_required''"
| "ErrorCode_as_str Err_Revoked = ''revoked''"
| "ErrorCode_as_str Err_SessionClosed = ''session_closed''"

fun Retry_as_str :: "Retry \<Rightarrow> string" where
  "Retry_as_str Retry_Never = ''never''"
| "Retry_as_str Retry_Reobserve = ''reobserve''"
| "Retry_as_str Retry_Reconnect = ''reconnect''"

section \<open>Canonical orders\<close>

fun capability_rank :: "Capability \<Rightarrow> nat" where
  "capability_rank Cap_ObserveStructure = 0"
| "capability_rank Cap_ObserveTitles = 1"
| "capability_rank Cap_ObserveEvents = 2"
| "capability_rank Cap_ManageActivate = 3"
| "capability_rank Cap_ManageClose = 4"
| "capability_rank Cap_ManageWorkspace = 5"
| "capability_rank Cap_ManageState = 6"
| "capability_rank Cap_ManageGeometry = 7"
| "capability_rank Cap_LaunchList = 8"
| "capability_rank Cap_LaunchExecute = 9"
| "capability_rank Cap_InputPointer = 10"
| "capability_rank Cap_InputKeyboard = 11"
| "capability_rank Cap_TextTransfer = 12"
| "capability_rank Cap_CaptureObscured = 13"

lemma capability_rank_inject: "capability_rank a = capability_rank b \<Longrightarrow> a = b"
  by (cases a; cases b) simp_all

instantiation Capability :: linorder
begin

definition less_eq_Capability :: "Capability \<Rightarrow> Capability \<Rightarrow> bool" where
  "less_eq_Capability a b \<longleftrightarrow> capability_rank a \<le> capability_rank b"

definition less_Capability :: "Capability \<Rightarrow> Capability \<Rightarrow> bool" where
  "less_Capability a b \<longleftrightarrow> capability_rank a < capability_rank b"

instance
  by standard (auto simp: less_eq_Capability_def less_Capability_def intro: capability_rank_inject)

end

fun feature_rank :: "Feature \<Rightarrow> nat" where
  "feature_rank Feat_EwmhObservation = 0"
| "feature_rank Feat_EwmhManagement = 1"
| "feature_rank Feat_DesktopLaunch = 2"
| "feature_rank Feat_ClientVisibleCapture = 3"
| "feature_rank Feat_ObscuredCapture = 4"
| "feature_rank Feat_OutputCapture = 5"
| "feature_rank Feat_InputInjection = 6"
| "feature_rank Feat_TextTransfer = 7"
| "feature_rank Feat_HumanActivity = 8"
| "feature_rank Feat_Accessibility = 9"

lemma feature_rank_inject: "feature_rank a = feature_rank b \<Longrightarrow> a = b"
  by (cases a; cases b) simp_all

instantiation Feature :: linorder
begin

definition less_eq_Feature :: "Feature \<Rightarrow> Feature \<Rightarrow> bool" where
  "less_eq_Feature a b \<longleftrightarrow> feature_rank a \<le> feature_rank b"

definition less_Feature :: "Feature \<Rightarrow> Feature \<Rightarrow> bool" where
  "less_Feature a b \<longleftrightarrow> feature_rank a < feature_rank b"

instance
  by standard (auto simp: less_eq_Feature_def less_Feature_def intro: feature_rank_inject)

end

fun eventKind_rank :: "EventKind \<Rightarrow> nat" where
  "eventKind_rank Kind_ClientAdded = 0"
| "eventKind_rank Kind_ClientChanged = 1"
| "eventKind_rank Kind_ClientRemoved = 2"
| "eventKind_rank Kind_ActiveChanged = 3"
| "eventKind_rank Kind_WorkspaceChanged = 4"
| "eventKind_rank Kind_ApplicationsChanged = 5"

lemma eventKind_rank_inject: "eventKind_rank a = eventKind_rank b \<Longrightarrow> a = b"
  by (cases a; cases b) simp_all

instantiation EventKind :: linorder
begin

definition less_eq_EventKind :: "EventKind \<Rightarrow> EventKind \<Rightarrow> bool" where
  "less_eq_EventKind a b \<longleftrightarrow> eventKind_rank a \<le> eventKind_rank b"

definition less_EventKind :: "EventKind \<Rightarrow> EventKind \<Rightarrow> bool" where
  "less_EventKind a b \<longleftrightarrow> eventKind_rank a < eventKind_rank b"

instance
  by standard (auto simp: less_eq_EventKind_def less_EventKind_def intro: eventKind_rank_inject)

end

fun clientState_rank :: "ClientState \<Rightarrow> nat" where
  "clientState_rank State_Above = 0"
| "clientState_rank State_Below = 1"
| "clientState_rank State_Fullscreen = 2"
| "clientState_rank State_Hidden = 3"
| "clientState_rank State_MaximizedHorizontal = 4"
| "clientState_rank State_MaximizedVertical = 5"
| "clientState_rank State_DemandsAttention = 6"
| "clientState_rank State_Sticky = 7"
| "clientState_rank State_Shaded = 8"

lemma clientState_rank_inject: "clientState_rank a = clientState_rank b \<Longrightarrow> a = b"
  by (cases a; cases b) simp_all

instantiation ClientState :: linorder
begin

definition less_eq_ClientState :: "ClientState \<Rightarrow> ClientState \<Rightarrow> bool" where
  "less_eq_ClientState a b \<longleftrightarrow> clientState_rank a \<le> clientState_rank b"

definition less_ClientState :: "ClientState \<Rightarrow> ClientState \<Rightarrow> bool" where
  "less_ClientState a b \<longleftrightarrow> clientState_rank a < clientState_rank b"

instance
  by standard (auto simp: less_eq_ClientState_def less_ClientState_def intro: clientState_rank_inject)

end

fun clientAction_rank :: "ClientAction \<Rightarrow> nat" where
  "clientAction_rank Act_Activate = 0"
| "clientAction_rank Act_Close = 1"
| "clientAction_rank Act_ChangeWorkspace = 2"
| "clientAction_rank Act_ChangeState = 3"
| "clientAction_rank Act_ChangeGeometry = 4"

lemma clientAction_rank_inject: "clientAction_rank a = clientAction_rank b \<Longrightarrow> a = b"
  by (cases a; cases b) simp_all

instantiation ClientAction :: linorder
begin

definition less_eq_ClientAction :: "ClientAction \<Rightarrow> ClientAction \<Rightarrow> bool" where
  "less_eq_ClientAction a b \<longleftrightarrow> clientAction_rank a \<le> clientAction_rank b"

definition less_ClientAction :: "ClientAction \<Rightarrow> ClientAction \<Rightarrow> bool" where
  "less_ClientAction a b \<longleftrightarrow> clientAction_rank a < clientAction_rank b"

instance
  by standard (auto simp: less_eq_ClientAction_def less_ClientAction_def intro: clientAction_rank_inject)

end

fun keyboardModifier_rank :: "KeyboardModifier \<Rightarrow> nat" where
  "keyboardModifier_rank Mod_Control = 0"
| "keyboardModifier_rank Mod_Alt = 1"
| "keyboardModifier_rank Mod_Shift = 2"
| "keyboardModifier_rank Mod_Super = 3"

lemma keyboardModifier_rank_inject: "keyboardModifier_rank a = keyboardModifier_rank b \<Longrightarrow> a = b"
  by (cases a; cases b) simp_all

instantiation KeyboardModifier :: linorder
begin

definition less_eq_KeyboardModifier :: "KeyboardModifier \<Rightarrow> KeyboardModifier \<Rightarrow> bool" where
  "less_eq_KeyboardModifier a b \<longleftrightarrow> keyboardModifier_rank a \<le> keyboardModifier_rank b"

definition less_KeyboardModifier :: "KeyboardModifier \<Rightarrow> KeyboardModifier \<Rightarrow> bool" where
  "less_KeyboardModifier a b \<longleftrightarrow> keyboardModifier_rank a < keyboardModifier_rank b"

instance
  by standard (auto simp: less_eq_KeyboardModifier_def less_KeyboardModifier_def intro: keyboardModifier_rank_inject)

end

lemma ErrorCode_as_str_inject: "ErrorCode_as_str a = ErrorCode_as_str b \<longleftrightarrow> a = b"
  by (cases a; cases b) simp_all

lemma Retry_as_str_inject: "Retry_as_str a = Retry_as_str b \<longleftrightarrow> a = b"
  by (cases a; cases b) simp_all

lemma strictly_ordered_length:
  assumes "strictly_ordered xs" and "\<And>x. x \<in> set xs \<Longrightarrow> x \<in> S" and "finite S"
  shows "length xs \<le> card S"
  using assms card_mono [of S "set xs"] distinct_card [OF strictly_ordered_distinct [of xs]]
  by auto

end
