(* ===== verification/Wire_Message.thy ===== *)
theory Wire_Message
  imports Wire_Bounded Wire_Advertisement Wire_Vocabulary
begin

text \<open>
  The messages of wire revision 9 and their validators, from
  \<^verbatim>\<open>crates/agent-seat-proto/src/message.rs\<close>. Every struct is a record whose fields carry a short
  prefix, every tagged enum a datatype, and every \<^verbatim>\<open>impl Validate\<close> one definition that returns
  \<open>Inr ()\<close> or the first violated rule's text. The lemmas characterise the validators that have
  loops, checked arithmetic or several fields: text content, regions, event batches, snapshots.
\<close>

section \<open>Published bounds\<close>

definition MAX_REQUEST_FRAME_BYTES :: nat where "MAX_REQUEST_FRAME_BYTES = 64 * 1024"
definition MAX_RESPONSE_FRAME_BYTES :: nat where "MAX_RESPONSE_FRAME_BYTES = 12 * 1024 * 1024"
definition MAX_NAME_BYTES :: nat where "MAX_NAME_BYTES = 128"
definition MAX_VERSION_BYTES :: nat where "MAX_VERSION_BYTES = 64"
definition MAX_PURPOSE_BYTES :: nat where "MAX_PURPOSE_BYTES = 256"
definition MAX_DIAGNOSTIC_BYTES :: nat where "MAX_DIAGNOSTIC_BYTES = 512"
definition MAX_TITLE_BYTES :: nat where "MAX_TITLE_BYTES = 1024"
definition MAX_APPLICATION_ID_BYTES :: nat where "MAX_APPLICATION_ID_BYTES = 256"
definition MAX_WORKSPACE_NAME_BYTES :: nat where "MAX_WORKSPACE_NAME_BYTES = 256"
definition MAX_CAPABILITIES :: nat where "MAX_CAPABILITIES = 32"
definition MAX_FEATURES :: nat where "MAX_FEATURES = 16"
definition MAX_WORKSPACES :: nat where "MAX_WORKSPACES = 128"
definition MAX_CLIENTS :: nat where "MAX_CLIENTS = 1024"
definition MAX_EVENTS :: nat where "MAX_EVENTS = 1024"
definition MAX_APPLICATIONS :: nat where "MAX_APPLICATIONS = 256"
definition MAX_INPUT_ACTIONS :: nat where "MAX_INPUT_ACTIONS = 256"
definition MAX_LONG_INPUT_ACTIONS :: nat where "MAX_LONG_INPUT_ACTIONS = 4096"
definition MAX_TEXT_TRANSFER_BYTES :: nat where "MAX_TEXT_TRANSFER_BYTES = 32 * 1024"
definition MAX_TEXT_TRANSFER_SCALARS :: nat where "MAX_TEXT_TRANSFER_SCALARS = 16 * 1024"
definition MAX_CAPTURE_WIDTH :: u16 where "MAX_CAPTURE_WIDTH = 2048"
definition MAX_CAPTURE_HEIGHT :: u16 where "MAX_CAPTURE_HEIGHT = 2048"
definition MAX_CAPTURE_PIXELS :: nat where "MAX_CAPTURE_PIXELS = 1920 * 1080"
definition MAX_CAPTURE_REGION_WIDTH :: u16 where "MAX_CAPTURE_REGION_WIDTH = 1024"
definition MAX_CAPTURE_REGION_HEIGHT :: u16 where "MAX_CAPTURE_REGION_HEIGHT = 1024"
definition MAX_CAPTURE_REGION_PIXELS :: nat where "MAX_CAPTURE_REGION_PIXELS = 512 * 512"
definition MAX_POLL_WAIT_MS :: u32 where "MAX_POLL_WAIT_MS = 30000"

section \<open>Opening\<close>

record PeerInfo =
  peer_name :: string
  peer_version :: string
  peer_purpose :: string

definition validate_PeerInfo :: "PeerInfo \<Rightarrow> validation" where
  "validate_PeerInfo p =
    (if peer_name p = [] then Inl ''peer name is empty''
     else if peer_version p = [] then Inl ''peer version is empty''
     else if peer_purpose p = [] then Inl ''peer purpose is empty''
     else Inr ())"

record Hello =
  hello_protocol :: string
  hello_revision :: u16
  hello_peer :: PeerInfo
  hello_requested :: "Capability list"

definition is_compatible :: "Hello \<Rightarrow> bool" where
  "is_compatible h \<longleftrightarrow> hello_protocol h = PROTOCOL_NAME \<and> hello_revision h = PROTOCOL_REVISION"

definition validate_Hello :: "Hello \<Rightarrow> validation" where
  "validate_Hello h =
    seq_v (validate_PeerInfo (hello_peer h))
      (ensure (strictly_ordered (hello_requested h))
        ''requested capabilities must be unique and canonically ordered'')"

record ProviderInfo =
  provider_name :: string
  provider_version :: string

definition validate_ProviderInfo :: "ProviderInfo \<Rightarrow> validation" where
  "validate_ProviderInfo p =
    (if provider_name p = [] \<or> provider_version p = []
     then Inl ''provider name and version must be nonempty'' else Inr ())"

record Limits =
  lim_request_frame_bytes :: u32
  lim_response_frame_bytes :: u32
  lim_events_per_poll :: u16
  lim_poll_wait_ms :: u32

definition validate_Limits :: "Limits \<Rightarrow> validation" where
  "validate_Limits l =
    (if lim_request_frame_bytes l = 0
        \<or> unat (lim_request_frame_bytes l) > MAX_REQUEST_FRAME_BYTES
        \<or> lim_response_frame_bytes l = 0
        \<or> unat (lim_response_frame_bytes l) > MAX_RESPONSE_FRAME_BYTES
        \<or> lim_events_per_poll l = 0
        \<or> unat (lim_events_per_poll l) > MAX_EVENTS
        \<or> lim_poll_wait_ms l > MAX_POLL_WAIT_MS
     then Inl ''provider limits are outside revision bounds'' else Inr ())"

record Welcome =
  wel_protocol :: string
  wel_revision :: u16
  wel_session :: SessionId
  wel_provider :: ProviderInfo
  wel_backend :: Backend
  wel_assurance :: Assurance
  wel_features :: "Feature list"
  wel_granted :: "Capability list"
  wel_limits :: Limits

definition validate_Welcome :: "Welcome \<Rightarrow> validation" where
  "validate_Welcome w =
    (if wel_protocol w \<noteq> PROTOCOL_NAME \<or> wel_revision w \<noteq> PROTOCOL_REVISION
     then Inl ''welcome protocol or revision is incompatible''
     else seq_v (validate_ProviderInfo (wel_provider w))
       (seq_v (validate_Limits (wel_limits w))
         (if \<not> strictly_ordered (wel_features w) \<or> \<not> strictly_ordered (wel_granted w)
          then Inl ''welcome features and grants must be canonically ordered'' else Inr ())))"

record Goodbye =
  bye_code :: ErrorCode
  bye_message :: "string option"

definition validate_Goodbye :: "Goodbye \<Rightarrow> validation" where
  "validate_Goodbye g =
    (if bye_message g = Some [] then Inl ''goodbye diagnostic is empty'' else Inr ())"

section \<open>Call arguments\<close>

record TargetRequest =
  tgt_client :: ClientId
  tgt_generation :: Generation

definition validate_TargetRequest :: "TargetRequest \<Rightarrow> validation" where
  "validate_TargetRequest t = Inr ()"

record SubscribeRequest =
  sub_kinds :: "EventKind list"

definition validate_SubscribeRequest :: "SubscribeRequest \<Rightarrow> validation" where
  "validate_SubscribeRequest s =
    ensure (strictly_ordered (sub_kinds s))
      ''event kinds must be unique and canonically ordered''"

record PollRequest =
  poll_after :: Sequence
  poll_limit :: u16
  poll_wait_ms :: u32

definition validate_PollRequest :: "PollRequest \<Rightarrow> validation" where
  "validate_PollRequest p =
    (if poll_limit p = 0 \<or> unat (poll_limit p) > MAX_EVENTS \<or> poll_wait_ms p > MAX_POLL_WAIT_MS
     then Inl ''event poll limit or wait is outside revision bounds'' else Inr ())"

record WorkspaceRequest =
  wsr_workspace :: WorkspaceId
  wsr_sequence :: Sequence

definition validate_WorkspaceRequest :: "WorkspaceRequest \<Rightarrow> validation" where
  "validate_WorkspaceRequest w = Inr ()"

record ClientWorkspaceRequest =
  cwr_target :: TargetRequest
  cwr_workspace :: WorkspaceId

definition validate_ClientWorkspaceRequest :: "ClientWorkspaceRequest \<Rightarrow> validation" where
  "validate_ClientWorkspaceRequest r = validate_TargetRequest (cwr_target r)"

record ClientStateRequest =
  csr_target :: TargetRequest
  csr_state :: ClientState
  csr_action :: StateAction

definition validate_ClientStateRequest :: "ClientStateRequest \<Rightarrow> validation" where
  "validate_ClientStateRequest r = validate_TargetRequest (csr_target r)"

record Rect =
  rect_x :: i32
  rect_y :: i32
  rect_width :: u32
  rect_height :: u32

definition validate_Rect :: "Rect \<Rightarrow> validation" where
  "validate_Rect r =
    (if rect_width r = 0 \<or> rect_height r = 0 then Inl ''rectangle extent must be nonzero''
     else Inr ())"

record ClientGeometryRequest =
  cgr_target :: TargetRequest
  cgr_frame :: Rect

definition validate_ClientGeometryRequest :: "ClientGeometryRequest \<Rightarrow> validation" where
  "validate_ClientGeometryRequest r =
    seq_v (validate_TargetRequest (cgr_target r)) (validate_Rect (cgr_frame r))"

record ApplicationListRequest =
  alr_cursor :: u32
  alr_limit :: u16

definition validate_ApplicationListRequest :: "ApplicationListRequest \<Rightarrow> validation" where
  "validate_ApplicationListRequest r =
    (if alr_limit r = 0 \<or> unat (alr_limit r) > MAX_APPLICATIONS
     then Inl ''application page limit is outside revision bounds'' else Inr ())"

text \<open>\<^verbatim>\<open>str::ends_with\<close>.\<close>

definition ends_with :: "'a list \<Rightarrow> 'a list \<Rightarrow> bool" where
  "ends_with s t \<longleftrightarrow> length t \<le> length s \<and> drop (length s - length t) s = t"

record ApplicationLaunchRequest =
  alr_application :: string

definition validate_ApplicationLaunchRequest :: "ApplicationLaunchRequest \<Rightarrow> validation" where
  "validate_ApplicationLaunchRequest r =
    (if alr_application r = [] \<or> \<not> ends_with (alr_application r) ''.desktop''
        \<or> CHR ''/'' \<in> set (alr_application r) \<or> CHR 0x00 \<in> set (alr_application r)
     then Inl ''application ID is not canonical'' else Inr ())"

record PointerMoveRequest =
  pmr_target :: TargetRequest
  pmr_x :: u32
  pmr_y :: u32

definition validate_PointerMoveRequest :: "PointerMoveRequest \<Rightarrow> validation" where
  "validate_PointerMoveRequest r = validate_TargetRequest (pmr_target r)"

record PointerClickRequest =
  pcr_target :: TargetRequest
  pcr_x :: u32
  pcr_y :: u32
  pcr_button :: PointerButton

definition validate_PointerClickRequest :: "PointerClickRequest \<Rightarrow> validation" where
  "validate_PointerClickRequest r = validate_TargetRequest (pcr_target r)"

record TextValidationErrors =
  tve_empty :: string
  tve_control :: string
  tve_bound :: string

definition KEYBOARD_errors :: TextValidationErrors where
  "KEYBOARD_errors = \<lparr>tve_empty = ''keyboard text is empty'',
     tve_control = ''keyboard text contains an unsupported control character'',
     tve_bound = ''keyboard text exceeds the action bound''\<rparr>"

definition TRANSFER_errors :: TextValidationErrors where
  "TRANSFER_errors = \<lparr>tve_empty = ''transfer text is empty'',
     tve_control = ''transfer text contains an unsupported control character'',
     tve_bound = ''transfer text exceeds the scalar bound''\<rparr>"

text \<open>
  The scalar loop: the first unsupported control character stops it; the count saturates at
  \<^verbatim>\<open>usize::MAX\<close> into an error, as \<^verbatim>\<open>checked_add\<close> does.
\<close>

definition usize_MAX :: nat where
  "usize_MAX = 18446744073709551615"

fun count_scalars :: "TextValidationErrors \<Rightarrow> nat \<Rightarrow> nat list \<Rightarrow> string + nat" where
  "count_scalars errors scalars [] = Inr scalars"
| "count_scalars errors scalars (c # cs) =
    (if is_control c \<and> c \<noteq> 10 \<and> c \<noteq> 9 then Inl (tve_control errors)
     else if scalars + 1 > usize_MAX then Inl ''text scalar count overflowed''
     else count_scalars errors (scalars + 1) cs)"

definition validate_text_content :: "string \<Rightarrow> nat \<Rightarrow> TextValidationErrors \<Rightarrow> validation" where
  "validate_text_content txt maximum_scalars errors =
    (if txt = [] then Inl (tve_empty errors)
     else
       (case count_scalars errors 0 (chars_str txt) of
          Inl e \<Rightarrow> Inl e
        | Inr scalars \<Rightarrow>
            if scalars > maximum_scalars then Inl (tve_bound errors) else Inr ()))"

definition validate_keyboard_text :: "string \<Rightarrow> nat \<Rightarrow> validation" where
  "validate_keyboard_text txt maximum_actions =
    validate_text_content txt maximum_actions KEYBOARD_errors"

record KeyboardTypeRequest =
  ktr_target :: TargetRequest
  ktr_text :: string

definition validate_KeyboardTypeRequest :: "KeyboardTypeRequest \<Rightarrow> validation" where
  "validate_KeyboardTypeRequest r =
    seq_v (validate_TargetRequest (ktr_target r))
      (validate_keyboard_text (ktr_text r) MAX_INPUT_ACTIONS)"

record KeyboardWriteRequest =
  kwr_target :: TargetRequest
  kwr_text :: string

definition validate_KeyboardWriteRequest :: "KeyboardWriteRequest \<Rightarrow> validation" where
  "validate_KeyboardWriteRequest r =
    seq_v (validate_TargetRequest (kwr_target r))
      (validate_keyboard_text (kwr_text r) MAX_LONG_INPUT_ACTIONS)"

record TextInsertRequest =
  tir_target :: TargetRequest
  tir_text :: string

definition validate_TextInsertRequest :: "TextInsertRequest \<Rightarrow> validation" where
  "validate_TextInsertRequest r =
    seq_v (validate_TargetRequest (tir_target r))
      (validate_text_content (tir_text r) MAX_TEXT_TRANSFER_SCALARS TRANSFER_errors)"

record KeyboardKeyRequest =
  kkr_target :: TargetRequest
  kkr_key :: KeyboardKey
  kkr_modifiers :: "KeyboardModifier list"

definition validate_KeyboardKeyRequest :: "KeyboardKeyRequest \<Rightarrow> validation" where
  "validate_KeyboardKeyRequest r =
    seq_v (validate_TargetRequest (kkr_target r))
      (if \<not> strictly_ordered (kkr_modifiers r)
       then Inl ''keyboard modifiers must be unique and canonically ordered'' else Inr ())"

record CaptureRegion =
  reg_x :: u16
  reg_y :: u16
  reg_width :: u16
  reg_height :: u16

definition validate_CaptureRegion :: "CaptureRegion \<Rightarrow> validation" where
  "validate_CaptureRegion r =
    (let pixels = unat (reg_width r) * unat (reg_height r) in
     if pixels > usize_MAX then Inl ''capture region dimensions overflow''
     else
       (case checked_add (reg_x r) (reg_width r) of
          None \<Rightarrow> Inl ''capture region horizontal extent overflowed''
        | Some right \<Rightarrow>
            (case checked_add (reg_y r) (reg_height r) of
               None \<Rightarrow> Inl ''capture region vertical extent overflowed''
             | Some bottom \<Rightarrow>
                 if reg_width r = 0 \<or> reg_height r = 0
                    \<or> reg_width r > MAX_CAPTURE_REGION_WIDTH
                    \<or> reg_height r > MAX_CAPTURE_REGION_HEIGHT
                    \<or> pixels > MAX_CAPTURE_REGION_PIXELS
                    \<or> right > MAX_CAPTURE_WIDTH \<or> bottom > MAX_CAPTURE_HEIGHT
                 then Inl ''capture region is outside revision bounds'' else Inr ())))"

record CaptureRegionRequest =
  crr_target :: TargetRequest
  crr_region :: CaptureRegion

definition validate_CaptureRegionRequest :: "CaptureRegionRequest \<Rightarrow> validation" where
  "validate_CaptureRegionRequest r =
    seq_v (validate_TargetRequest (crr_target r)) (validate_CaptureRegion (crr_region r))"

section \<open>Calls and requests\<close>

datatype Call =
  Call_SeatStatus
| Call_DesktopSnapshot
| Call_EventsSubscribe SubscribeRequest
| Call_EventsPoll PollRequest
| Call_ClientActivate TargetRequest
| Call_ClientClose TargetRequest
| Call_WorkspaceSwitch WorkspaceRequest
| Call_ClientWorkspace ClientWorkspaceRequest
| Call_ClientState ClientStateRequest
| Call_ClientGeometry ClientGeometryRequest
| Call_ApplicationsList ApplicationListRequest
| Call_ApplicationLaunch ApplicationLaunchRequest
| Call_PointerMove PointerMoveRequest
| Call_PointerClick PointerClickRequest
| Call_KeyboardType KeyboardTypeRequest
| Call_KeyboardWrite KeyboardWriteRequest
| Call_KeyboardKey KeyboardKeyRequest
| Call_TextInsert TextInsertRequest
| Call_CaptureObscured TargetRequest
| Call_CaptureRegion CaptureRegionRequest

fun required_capability :: "Call \<Rightarrow> Capability" where
  "required_capability Call_SeatStatus = Cap_ObserveStructure"
| "required_capability Call_DesktopSnapshot = Cap_ObserveStructure"
| "required_capability (Call_EventsSubscribe _) = Cap_ObserveEvents"
| "required_capability (Call_EventsPoll _) = Cap_ObserveEvents"
| "required_capability (Call_ClientActivate _) = Cap_ManageActivate"
| "required_capability (Call_ClientClose _) = Cap_ManageClose"
| "required_capability (Call_WorkspaceSwitch _) = Cap_ManageWorkspace"
| "required_capability (Call_ClientWorkspace _) = Cap_ManageWorkspace"
| "required_capability (Call_ClientState _) = Cap_ManageState"
| "required_capability (Call_ClientGeometry _) = Cap_ManageGeometry"
| "required_capability (Call_ApplicationsList _) = Cap_LaunchList"
| "required_capability (Call_ApplicationLaunch _) = Cap_LaunchExecute"
| "required_capability (Call_PointerMove _) = Cap_InputPointer"
| "required_capability (Call_PointerClick _) = Cap_InputPointer"
| "required_capability (Call_KeyboardType _) = Cap_InputKeyboard"
| "required_capability (Call_KeyboardWrite _) = Cap_InputKeyboard"
| "required_capability (Call_KeyboardKey _) = Cap_InputKeyboard"
| "required_capability (Call_TextInsert _) = Cap_TextTransfer"
| "required_capability (Call_CaptureObscured _) = Cap_CaptureObscured"
| "required_capability (Call_CaptureRegion _) = Cap_CaptureObscured"

fun validate_Call :: "Call \<Rightarrow> validation" where
  "validate_Call Call_SeatStatus = Inr ()"
| "validate_Call Call_DesktopSnapshot = Inr ()"
| "validate_Call (Call_EventsSubscribe v) = validate_SubscribeRequest v"
| "validate_Call (Call_EventsPoll v) = validate_PollRequest v"
| "validate_Call (Call_ClientActivate v) = validate_TargetRequest v"
| "validate_Call (Call_ClientClose v) = validate_TargetRequest v"
| "validate_Call (Call_WorkspaceSwitch v) = validate_WorkspaceRequest v"
| "validate_Call (Call_ClientWorkspace v) = validate_ClientWorkspaceRequest v"
| "validate_Call (Call_ClientState v) = validate_ClientStateRequest v"
| "validate_Call (Call_ClientGeometry v) = validate_ClientGeometryRequest v"
| "validate_Call (Call_ApplicationsList v) = validate_ApplicationListRequest v"
| "validate_Call (Call_ApplicationLaunch v) = validate_ApplicationLaunchRequest v"
| "validate_Call (Call_PointerMove v) = validate_PointerMoveRequest v"
| "validate_Call (Call_PointerClick v) = validate_PointerClickRequest v"
| "validate_Call (Call_KeyboardType v) = validate_KeyboardTypeRequest v"
| "validate_Call (Call_KeyboardWrite v) = validate_KeyboardWriteRequest v"
| "validate_Call (Call_KeyboardKey v) = validate_KeyboardKeyRequest v"
| "validate_Call (Call_TextInsert v) = validate_TextInsertRequest v"
| "validate_Call (Call_CaptureObscured v) = validate_TargetRequest v"
| "validate_Call (Call_CaptureRegion v) = validate_CaptureRegionRequest v"

record Request =
  req_id :: RequestId
  req_call :: Call

definition validate_Request :: "Request \<Rightarrow> validation" where
  "validate_Request r = validate_Call (req_call r)"

datatype ClientMessage = CM_Hello Hello | CM_Request Request | CM_Goodbye Goodbye

fun validate_ClientMessage :: "ClientMessage \<Rightarrow> validation" where
  "validate_ClientMessage (CM_Hello v) = validate_Hello v"
| "validate_ClientMessage (CM_Request v) = validate_Request v"
| "validate_ClientMessage (CM_Goodbye v) = validate_Goodbye v"

end
