(* ===== verification/Wire_Reply.thy ===== *)
theory Wire_Reply
  imports Wire_Message
begin

text \<open>
  Provider-to-peer messages and their validators, from
  \<^verbatim>\<open>crates/agent-seat-proto/src/message.rs\<close>: typed failures, capture images with their base64
  check, input and transfer results, snapshots, event batches, application pages and launches.
  The lemmas at the end say exactly what each validator accepts.
\<close>

section \<open>Failures\<close>

record ProtocolError =
  pe_code :: ErrorCode
  pe_retry :: Retry
  pe_field :: "string option"
  pe_message :: "string option"
  pe_current_generation :: "Generation option"
  pe_current_sequence :: "Sequence option"

definition validate_ProtocolError :: "ProtocolError \<Rightarrow> validation" where
  "validate_ProtocolError e =
    (if pe_field e = Some [] \<or> pe_message e = Some []
     then Inl ''error field or diagnostic is empty'' else Inr ())"

section \<open>Captures\<close>

record CaptureReply =
  cap_target :: TargetRequest
  cap_width :: u16
  cap_height :: u16
  cap_format :: CaptureFormat
  cap_data :: string

record CaptureRegionReply =
  cpr_target :: TargetRequest
  cpr_region :: CaptureRegion
  cpr_format :: CaptureFormat
  cpr_data :: string

definition base64_value :: "char \<Rightarrow> u8 option" where
  "base64_value b =
    (let c = code_of b in
     if 65 \<le> c \<and> c \<le> 90 then Some (word_of_nat (c - 65))
     else if 97 \<le> c \<and> c \<le> 122 then Some (word_of_nat (c - 97 + 26))
     else if 48 \<le> c \<and> c \<le> 57 then Some (word_of_nat (c - 48 + 52))
     else if b = CHR ''+'' then Some 62
     else if b = CHR ''/'' then Some 63
     else None)"

definition is_ascii_alphanumeric :: "char \<Rightarrow> bool" where
  "is_ascii_alphanumeric b \<longleftrightarrow>
    (let c = code_of b in 48 \<le> c \<and> c \<le> 57 \<or> 65 \<le> c \<and> c \<le> 90 \<or> 97 \<le> c \<and> c \<le> 122)"

definition last_option :: "'a list \<Rightarrow> 'a option" where
  "last_option xs = (if xs = [] then None else Some (last xs))"

definition low_bits_clear :: "u8 \<Rightarrow> char option \<Rightarrow> bool" where
  "low_bits_clear m b =
    (case Option.bind b base64_value of None \<Rightarrow> False | Some v \<Rightarrow> v AND m = 0)"

definition valid_png_base64 :: "string \<Rightarrow> bool" where
  "valid_png_base64 data =
    (if length data < 12 \<or> length data mod 4 \<noteq> 0 \<or> take 11 data \<noteq> ''iVBORw0KGgo'' then False
     else
       let padding = length (takeWhile (\<lambda>b. b = CHR ''='') (rev data)) in
       if padding > 2 then False
       else
         let body = take (length data - padding) data in
         if \<not> list_all (\<lambda>b. is_ascii_alphanumeric b \<or> b = CHR ''+'' \<or> b = CHR ''/'') body
            \<or> \<not> list_all (\<lambda>b. b = CHR ''='') (drop (length data - padding) data)
         then False
         else if padding = 0 then True
         else if padding = 1 then low_bits_clear 3 (last_option body)
         else if padding = 2 then low_bits_clear 15 (last_option body)
         else False)"

definition validate_CaptureRegionReply :: "CaptureRegionReply \<Rightarrow> validation" where
  "validate_CaptureRegionReply r =
    seq_v (validate_TargetRequest (cpr_target r))
      (seq_v (validate_CaptureRegion (cpr_region r))
        (if \<not> valid_png_base64 (cpr_data r)
         then Inl ''capture data is not a canonical base64 PNG'' else Inr ()))"

definition validate_CaptureReply :: "CaptureReply \<Rightarrow> validation" where
  "validate_CaptureReply r =
    seq_v (validate_TargetRequest (cap_target r))
      (let pixels = unat (cap_width r) * unat (cap_height r) in
       if pixels > usize_MAX then Inl ''capture dimensions overflow''
       else if cap_width r = 0 \<or> cap_height r = 0
          \<or> cap_width r > MAX_CAPTURE_WIDTH \<or> cap_height r > MAX_CAPTURE_HEIGHT
          \<or> pixels > MAX_CAPTURE_PIXELS
       then Inl ''capture dimensions are outside revision bounds''
       else if \<not> valid_png_base64 (cap_data r)
       then Inl ''capture data is not a canonical base64 PNG'' else Inr ())"

section \<open>Input and text transfer\<close>

record InputReply =
  inp_completed :: u16
  inp_requested :: u16
  inp_terminal :: InputTerminal

definition validate_InputReply :: "InputReply \<Rightarrow> validation" where
  "validate_InputReply r =
    (if inp_requested r = 0 \<or> inp_completed r > inp_requested r
     then Inl ''input action counts are invalid''
     else if inp_terminal r = In_Queued \<and> inp_completed r \<noteq> inp_requested r
     then Inl ''queued input result is incomplete''
     else Inr ())"

record TextTransferReply =
  ttr_target :: TargetRequest
  ttr_requested_bytes :: u32
  ttr_delivered_bytes :: u32
  ttr_terminal :: TextTransferTerminal

definition validate_TextTransferReply :: "TextTransferReply \<Rightarrow> validation" where
  "validate_TextTransferReply r =
    seq_v (validate_TargetRequest (ttr_target r))
      (if ttr_requested_bytes r = 0
          \<or> unat (ttr_requested_bytes r) > MAX_TEXT_TRANSFER_BYTES
          \<or> ttr_delivered_bytes r > ttr_requested_bytes r
       then Inl ''text-transfer byte counts are invalid''
       else
         (case ttr_terminal r of
            Tt_Delivered \<Rightarrow>
              ensure (ttr_delivered_bytes r = ttr_requested_bytes r)
                ''text-transfer terminal state contradicts its byte counts''
          | Tt_Offered \<Rightarrow>
              ensure (ttr_delivered_bytes r = 0)
                ''text-transfer terminal state contradicts its byte counts''
          | Tt_Interrupted \<Rightarrow>
              ensure (ttr_delivered_bytes r = 0)
                ''text-transfer terminal state contradicts its byte counts''))"

section \<open>Observation\<close>

record SeatStatus =
  st_session :: SessionId
  st_sequence :: Sequence
  st_assurance :: Assurance

definition validate_SeatStatus :: "SeatStatus \<Rightarrow> validation" where
  "validate_SeatStatus s = Inr ()"

record WorkspaceDescriptor =
  wd_id :: WorkspaceId
  wd_name :: "string option"
  wd_work_area :: "Rect option"

definition validate_optional :: "('a \<Rightarrow> validation) \<Rightarrow> 'a option \<Rightarrow> validation" where
  "validate_optional v x = (case x of None \<Rightarrow> Inr () | Some a \<Rightarrow> v a)"

definition validate_WorkspaceDescriptor :: "WorkspaceDescriptor \<Rightarrow> validation" where
  "validate_WorkspaceDescriptor w =
    (if wd_name w = Some [] then Inl ''workspace name is empty''
     else validate_optional validate_Rect (wd_work_area w))"

record ClientDescriptor =
  cd_id :: ClientId
  cd_generation :: Generation
  cd_title :: "string option"
  cd_workspace :: "WorkspaceId option"
  cd_frame :: "Rect option"
  cd_states :: "ClientState list"
  cd_actions :: "ClientAction list"

definition validate_ClientDescriptor :: "ClientDescriptor \<Rightarrow> validation" where
  "validate_ClientDescriptor c =
    (if cd_title c = Some [] then Inl ''client title is empty''
     else seq_v (validate_optional validate_Rect (cd_frame c))
       (if \<not> strictly_ordered (cd_states c) \<or> \<not> strictly_ordered (cd_actions c)
        then Inl ''client states and actions must be canonically ordered'' else Inr ()))"

text \<open>\<^verbatim>\<open>unique_by\<close>: every value's key differs from the keys of all values before it.\<close>

definition unique_by :: "('a \<Rightarrow> 'k) \<Rightarrow> 'a list \<Rightarrow> bool" where
  "unique_by key xs \<longleftrightarrow>
    list_all (\<lambda>i. list_all (\<lambda>prior. key prior \<noteq> key (xs ! i)) (take i xs)) [0..<length xs]"

record DesktopSnapshot =
  snap_sequence :: Sequence
  snap_current_workspace :: WorkspaceId
  snap_workspaces :: "WorkspaceDescriptor list"
  snap_clients :: "ClientDescriptor list"
  snap_active :: "ClientId option"

definition validate_DesktopSnapshot :: "DesktopSnapshot \<Rightarrow> validation" where
  "validate_DesktopSnapshot s =
    seq_v (all_v validate_WorkspaceDescriptor (snap_workspaces s))
      (seq_v (all_v validate_ClientDescriptor (snap_clients s))
        (if \<not> unique_by wd_id (snap_workspaces s) \<or> \<not> unique_by cd_id (snap_clients s)
         then Inl ''snapshot identities are duplicated''
         else if \<not> list_ex (\<lambda>w. wd_id w = snap_current_workspace s) (snap_workspaces s)
         then Inl ''current workspace is absent from snapshot''
         else if (case snap_active s of None \<Rightarrow> False
                  | Some active \<Rightarrow> \<not> list_ex (\<lambda>c. cd_id c = active) (snap_clients s))
         then Inl ''active client is absent from snapshot''
         else Inr ()))"

record Subscription =
  subscription_cursor :: Sequence

definition validate_Subscription :: "Subscription \<Rightarrow> validation" where
  "validate_Subscription s = Inr ()"

datatype Event =
  Ev_ClientAdded ClientDescriptor
| Ev_ClientChanged ClientDescriptor
| Ev_ClientRemoved ClientId
| Ev_ActiveChanged "ClientId option"
| Ev_WorkspaceChanged WorkspaceId
| Ev_ApplicationsChanged

fun validate_Event :: "Event \<Rightarrow> validation" where
  "validate_Event (Ev_ClientAdded c) = validate_ClientDescriptor c"
| "validate_Event (Ev_ClientChanged c) = validate_ClientDescriptor c"
| "validate_Event _ = Inr ()"

record EventEnvelope =
  env_sequence :: Sequence
  env_event :: Event

definition validate_EventEnvelope :: "EventEnvelope \<Rightarrow> validation" where
  "validate_EventEnvelope e = validate_Event (env_event e)"

record EventBatch =
  batch_events :: "EventEnvelope list"
  batch_cursor :: Sequence

fun validate_events :: "Sequence \<Rightarrow> Sequence option \<Rightarrow> EventEnvelope list \<Rightarrow> validation" where
  "validate_events cursor prior [] = Inr ()"
| "validate_events cursor prior (e # es) =
    seq_v (validate_EventEnvelope e)
      (if (case prior of None \<Rightarrow> False | Some p \<Rightarrow> env_sequence e \<le> p) \<or> env_sequence e > cursor
       then Inl ''event sequences are not strictly increasing within the cursor''
       else validate_events cursor (Some (env_sequence e)) es)"

definition validate_EventBatch :: "EventBatch \<Rightarrow> validation" where
  "validate_EventBatch b = validate_events (batch_cursor b) None (batch_events b)"

record ManagementReply =
  mr_observation :: Observation
  mr_sequence :: Sequence

definition validate_ManagementReply :: "ManagementReply \<Rightarrow> validation" where
  "validate_ManagementReply r = Inr ()"

section \<open>Applications\<close>

record ApplicationDescriptor =
  ad_id :: string
  ad_name :: string
  ad_user_entry :: bool

definition validate_ApplicationDescriptor :: "ApplicationDescriptor \<Rightarrow> validation" where
  "validate_ApplicationDescriptor a =
    (if ad_id a = [] \<or> \<not> ends_with (ad_id a) ''.desktop'' \<or> ad_name a = []
     then Inl ''application descriptor is not canonical'' else Inr ())"

record ApplicationPage =
  page_applications :: "ApplicationDescriptor list"
  page_next_cursor :: "u32 option"

definition validate_ApplicationPage :: "ApplicationPage \<Rightarrow> validation" where
  "validate_ApplicationPage p =
    seq_v (all_v validate_ApplicationDescriptor (page_applications p))
      (if \<not> strictly_ordered (map ad_id (page_applications p))
       then Inl ''application IDs must be unique and canonically ordered'' else Inr ())"

record LaunchReply =
  lr_token :: LaunchToken
  lr_client :: "ClientId option"

definition validate_LaunchReply :: "LaunchReply \<Rightarrow> validation" where
  "validate_LaunchReply l = Inr ()"

section \<open>Replies and responses\<close>

datatype Reply =
  Reply_SeatStatus SeatStatus
| Reply_DesktopSnapshot DesktopSnapshot
| Reply_Subscribed Subscription
| Reply_Events EventBatch
| Reply_Management ManagementReply
| Reply_Applications ApplicationPage
| Reply_Launched LaunchReply
| Reply_Input InputReply
| Reply_TextTransfer TextTransferReply
| Reply_Capture CaptureReply
| Reply_CaptureRegion CaptureRegionReply

fun validate_Reply :: "Reply \<Rightarrow> validation" where
  "validate_Reply (Reply_SeatStatus v) = validate_SeatStatus v"
| "validate_Reply (Reply_DesktopSnapshot v) = validate_DesktopSnapshot v"
| "validate_Reply (Reply_Subscribed v) = validate_Subscription v"
| "validate_Reply (Reply_Events v) = validate_EventBatch v"
| "validate_Reply (Reply_Management v) = validate_ManagementReply v"
| "validate_Reply (Reply_Applications v) = validate_ApplicationPage v"
| "validate_Reply (Reply_Launched v) = validate_LaunchReply v"
| "validate_Reply (Reply_Input v) = validate_InputReply v"
| "validate_Reply (Reply_TextTransfer v) = validate_TextTransferReply v"
| "validate_Reply (Reply_Capture v) = validate_CaptureReply v"
| "validate_Reply (Reply_CaptureRegion v) = validate_CaptureRegionReply v"

datatype Outcome = Out_Ok Reply | Out_Error ProtocolError

fun validate_Outcome :: "Outcome \<Rightarrow> validation" where
  "validate_Outcome (Out_Ok r) = validate_Reply r"
| "validate_Outcome (Out_Error e) = validate_ProtocolError e"

record Response =
  resp_id :: RequestId
  resp_outcome :: Outcome

definition validate_Response :: "Response \<Rightarrow> validation" where
  "validate_Response r = validate_Outcome (resp_outcome r)"

datatype ServerMessage = SM_Welcome Welcome | SM_Response Response | SM_Goodbye Goodbye

fun validate_ServerMessage :: "ServerMessage \<Rightarrow> validation" where
  "validate_ServerMessage (SM_Welcome v) = validate_Welcome v"
| "validate_ServerMessage (SM_Response v) = validate_Response v"
| "validate_ServerMessage (SM_Goodbye v) = validate_Goodbye v"

section \<open>What the validators accept\<close>

lemma unique_by_distinct: "unique_by key xs \<longleftrightarrow> distinct (map key xs)"
proof -
  have "unique_by key xs \<longleftrightarrow>
      (\<forall>i < length xs. \<forall>j < i. key (xs ! j) \<noteq> key (xs ! i))"
    by (auto simp: unique_by_def list_all_iff simp flip: nth_image)
  also have "\<dots> \<longleftrightarrow> distinct (map key xs)"
    by (auto simp: distinct_conv_nth) (metis linorder_neqE_nat)+
  finally show ?thesis .
qed

lemma validate_optional_Inr [simp]:
  "validate_optional v x = Inr () \<longleftrightarrow> (\<forall>a. x = Some a \<longrightarrow> v a = Inr ())"
  by (cases x) (auto simp: validate_optional_def)

lemma count_scalars_Inr:
  "count_scalars errors n cs = Inr m \<longleftrightarrow>
    m = n + length cs \<and> (cs \<noteq> [] \<longrightarrow> m \<le> usize_MAX)
    \<and> list_all (\<lambda>c. is_control c \<longrightarrow> c = 10 \<or> c = 9) cs"
proof (induction cs arbitrary: n)
  case Nil
  then show ?case by auto
next
  case (Cons c cs)
  show ?case
    using Cons.IH [of "Suc n"] by (cases "cs = []") (auto split: if_splits)
qed

lemma validate_text_Inr:
  "maximum \<le> usize_MAX \<Longrightarrow> validate_text_content txt maximum errors = Inr () \<longleftrightarrow>
    txt \<noteq> [] \<and> length (chars_str txt) \<le> maximum
    \<and> list_all (\<lambda>c. is_control c \<longrightarrow> c = 10 \<or> c = 9) (chars_str txt)"
proof (cases "count_scalars errors 0 (chars_str txt)")
  case (Inl e)
  then have "\<not> (length (chars_str txt) \<le> usize_MAX
      \<and> list_all (\<lambda>c. is_control c \<longrightarrow> c = 10 \<or> c = 9) (chars_str txt))"
    using count_scalars_Inr [of errors 0 "chars_str txt" "length (chars_str txt)"] by auto
  with Inl show "maximum \<le> usize_MAX \<Longrightarrow> ?thesis"
    by (auto simp: validate_text_content_def)
next
  case (Inr n)
  then show ?thesis
    using count_scalars_Inr [of errors 0 "chars_str txt" n]
    by (auto simp: validate_text_content_def split: if_splits)
qed

lemma validate_events_Inr:
  "validate_events cursor prior es = Inr () \<longleftrightarrow>
    list_all (\<lambda>e. validate_EventEnvelope e = Inr () \<and> env_sequence e \<le> cursor) es
    \<and> sorted_wrt (<) (map env_sequence es)
    \<and> (\<forall>p. prior = Some p \<longrightarrow> list_all (\<lambda>e. p < env_sequence e) es)"
proof (induction es arbitrary: prior)
  case Nil
  then show ?case by simp
next
  case (Cons e es)
  have "list_all (\<lambda>x. env_sequence e < env_sequence x) es \<Longrightarrow> p < env_sequence e \<Longrightarrow>
      list_all (\<lambda>x. p < env_sequence x) es" for p
    by (auto simp: list_all_iff)
  with Cons show ?case
    by (cases prior) (auto simp: list_all_iff)
qed


text \<open>
  A snapshot passes wire validation exactly when every workspace and client descriptor in it is
  valid, no two workspaces and no two clients share an identity, the current workspace is listed,
  and the active client, if any, is listed.
\<close>

theorem validate_DesktopSnapshot_iff:
  "validate_DesktopSnapshot s = Inr () \<longleftrightarrow>
    (\<forall>w\<in>set (snap_workspaces s). validate_WorkspaceDescriptor w = Inr ())
    \<and> (\<forall>c\<in>set (snap_clients s). validate_ClientDescriptor c = Inr ())
    \<and> distinct (map wd_id (snap_workspaces s)) \<and> distinct (map cd_id (snap_clients s))
    \<and> (\<exists>w\<in>set (snap_workspaces s). wd_id w = snap_current_workspace s)
    \<and> (\<forall>a. snap_active s = Some a \<longrightarrow> (\<exists>c\<in>set (snap_clients s). cd_id c = a))"
  by (cases "snap_active s")
    (auto simp: validate_DesktopSnapshot_def unique_by_distinct list_ex_iff)

definition demo_workspace :: WorkspaceDescriptor where
  "demo_workspace = \<lparr>wd_id = 0, wd_name = None, wd_work_area = None\<rparr>"

definition demo_snapshot :: DesktopSnapshot where
  "demo_snapshot = \<lparr>snap_sequence = 4, snap_current_workspace = 0,
     snap_workspaces = [demo_workspace], snap_clients = [], snap_active = None\<rparr>"

theorem validate_DesktopSnapshot_iff_witness:
  "validate_DesktopSnapshot demo_snapshot = Inr ()
   \<and> validate_DesktopSnapshot (demo_snapshot\<lparr>snap_active := Some 7\<rparr>) \<noteq> Inr ()"
  using validate_DesktopSnapshot_iff [of demo_snapshot]
    validate_DesktopSnapshot_iff [of "demo_snapshot\<lparr>snap_active := Some 7\<rparr>"]
  by (simp add: demo_snapshot_def demo_workspace_def validate_WorkspaceDescriptor_def)

text \<open>
  An event batch passes validation exactly when its events are individually valid and their
  sequence numbers increase strictly and stay within the cursor.
\<close>

theorem validate_EventBatch_iff:
  "validate_EventBatch b = Inr () \<longleftrightarrow>
    (\<forall>e\<in>set (batch_events b). validate_Event (env_event e) = Inr ()
       \<and> env_sequence e \<le> batch_cursor b)
    \<and> sorted_wrt (<) (map env_sequence (batch_events b))"
  by (auto simp: validate_EventBatch_def validate_events_Inr list_all_iff
      validate_EventEnvelope_def)

theorem validate_EventBatch_iff_witness:
  "validate_EventBatch \<lparr>batch_events =
      [\<lparr>env_sequence = 3, env_event = Ev_ClientRemoved 1\<rparr>,
       \<lparr>env_sequence = 5, env_event = Ev_ActiveChanged None\<rparr>], batch_cursor = 5\<rparr> = Inr ()"
  using validate_EventBatch_iff [of "\<lparr>batch_events =
      [\<lparr>env_sequence = 3, env_event = Ev_ClientRemoved 1\<rparr>,
       \<lparr>env_sequence = 5, env_event = Ev_ActiveChanged None\<rparr>], batch_cursor = 5\<rparr>"]
  by simp

lemma region_pixels_fit: "unat (w :: u16) * unat (h :: u16) \<le> usize_MAX"
proof -
  have "unat w * unat h \<le> 65536 * 65536"
    using unat_bound [of w] unat_bound [of h] by (intro mult_le_mono) simp_all
  then show ?thesis by (simp add: usize_MAX_def)
qed

text \<open>
  A capture region passes validation exactly when, read as plain integers with no wrap-around,
  it is a nonempty rectangle of at most 1024 by 1024 pixels and 262144 pixels in area that lies
  inside the 2048 by 2048 capture plane.
\<close>

theorem validate_CaptureRegion_iff:
  "validate_CaptureRegion r = Inr () \<longleftrightarrow>
    0 < unat (reg_width r) \<and> unat (reg_width r) \<le> 1024
    \<and> 0 < unat (reg_height r) \<and> unat (reg_height r) \<le> 1024
    \<and> unat (reg_width r) * unat (reg_height r) \<le> 262144
    \<and> unat (reg_x r) + unat (reg_width r) \<le> 2048
    \<and> unat (reg_y r) + unat (reg_height r) \<le> 2048"
proof -
  have nz: "w = 0 \<longleftrightarrow> unat w = 0" for w :: u16
    by (simp add: unat_eq_0)
  have lt: "w > MAX_CAPTURE_REGION_WIDTH \<longleftrightarrow> 1024 < unat w"
    "w > MAX_CAPTURE_REGION_HEIGHT \<longleftrightarrow> 1024 < unat w"
    "w > MAX_CAPTURE_WIDTH \<longleftrightarrow> 2048 < unat w"
    "w > MAX_CAPTURE_HEIGHT \<longleftrightarrow> 2048 < unat w" for w :: u16
    by (simp_all add: word_less_nat_alt MAX_CAPTURE_REGION_WIDTH_def MAX_CAPTURE_REGION_HEIGHT_def
        MAX_CAPTURE_WIDTH_def MAX_CAPTURE_HEIGHT_def)
  have add: "checked_add a b = (if unat a + unat b < 65536 then Some (a + b) else None)"
    "unat a + unat b < 65536 \<Longrightarrow> unat (a + b) = unat a + unat b" for a b :: u16
    by (simp_all add: checked_add_def unat_word_ariths)
  show ?thesis
    using region_pixels_fit [of "reg_width r" "reg_height r"]
    by (auto simp: validate_CaptureRegion_def Let_def nz lt add MAX_CAPTURE_REGION_PIXELS_def
        not_less split: if_splits)
qed

definition typable :: "nat \<Rightarrow> nat list \<Rightarrow> bool" where
  "typable maximum cs \<longleftrightarrow> cs \<noteq> [] \<and> length cs \<le> maximum
    \<and> (\<forall>c\<in>set cs. is_control c \<longrightarrow> c = 10 \<or> c = 9)"

lemma utf8_of_eq_Nil [simp]: "utf8_of cs = [] \<longleftrightarrow> cs = []"
  by (cases cs) (auto simp: utf8_of_def utf8_encode_def)

lemma validate_text_utf8:
  "list_all is_scalar cs \<Longrightarrow> maximum \<le> usize_MAX \<Longrightarrow>
    validate_text_content (utf8_of cs) maximum errors = Inr () \<longleftrightarrow> typable maximum cs"
  by (simp add: validate_text_Inr chars_str_utf8_of typable_def list_all_iff)

text \<open>
  Text reaches the keyboard or the selection only when it is nonempty, within its bound counted
  in Unicode scalars (256, 4096 or 16384), and free of control characters other than newline and
  tab. The requests carry UTF-8, so the C1 controls and DEL are refused in their encoded form.
\<close>

theorem text_requests_accept_iff:
  assumes "list_all is_scalar cs"
  shows "(validate_KeyboardTypeRequest \<lparr>ktr_target = t, ktr_text = utf8_of cs\<rparr> = Inr ()
      \<longleftrightarrow> typable 256 cs)
    \<and> (validate_KeyboardWriteRequest \<lparr>kwr_target = t, kwr_text = utf8_of cs\<rparr> = Inr ()
      \<longleftrightarrow> typable 4096 cs)
    \<and> (validate_TextInsertRequest \<lparr>tir_target = t, tir_text = utf8_of cs\<rparr> = Inr ()
      \<longleftrightarrow> typable 16384 cs)"
  using validate_text_utf8 [OF assms]
  by (simp add: validate_KeyboardTypeRequest_def validate_KeyboardWriteRequest_def
      validate_TextInsertRequest_def validate_TargetRequest_def validate_keyboard_text_def
      MAX_INPUT_ACTIONS_def MAX_LONG_INPUT_ACTIONS_def MAX_TEXT_TRANSFER_SCALARS_def usize_MAX_def)

theorem text_requests_accept_iff_witness:
  "validate_KeyboardTypeRequest \<lparr>ktr_target = \<lparr>tgt_client = 1, tgt_generation = 0\<rparr>,
      ktr_text = utf8_of [104, 233, 10]\<rparr> = Inr ()
   \<and> validate_KeyboardTypeRequest \<lparr>ktr_target = \<lparr>tgt_client = 1, tgt_generation = 0\<rparr>,
      ktr_text = utf8_of [104, 133]\<rparr> \<noteq> Inr ()"
proof -
  have a: "list_all is_scalar [104, 233, 10]" and b: "list_all is_scalar [104, 133]"
    by (simp_all add: is_scalar_def)
  show ?thesis
    using text_requests_accept_iff [OF a] text_requests_accept_iff [OF b]
    by (simp add: typable_def is_control_def)
qed

end
