(* ===== verification/Seat_Gate.thy ===== *)
theory Seat_Gate
  imports Seat_Prelude
begin

text \<open>
  The volatile operator gate and its control plane, from \<^verbatim>\<open>crates/agent-seat-x11/src/seat.rs\<close>.
  The gate is one atomic \<^verbatim>\<open>u64\<close>: odd means enabled, half of it is the revocation generation, and
  \<^verbatim>\<open>u64::MAX\<close> is the terminal disabled state. \<open>set_enabled_iter\<close> is one pass of the
  compare-exchange loop, with the value the thread loaded and the value in memory;
  \<open>set_enabled\<close> is a call without interference, and \<open>gate_step\<close> interleaves any number of
  concurrent calls. The interface \<open>revocable_gate\<close> states what sessions rely on, and is
  interpreted on both.
\<close>

definition CONTROL_MAGIC :: "byte list" where
  "CONTROL_MAGIC = as_bytes ''ASG1''"

definition DISABLED_TERMINAL :: u64 where
  "DISABLED_TERMINAL = - 1"

definition is_enabled :: "u64 \<Rightarrow> bool" where
  "is_enabled raw \<longleftrightarrow> raw \<noteq> DISABLED_TERMINAL \<and> raw AND 1 = 1"

type_synonym SeatPermit = u64
type_synonym SeatGate = u64

record GateStatus =
  gs_enabled :: bool
  gs_generation :: u64

definition from_raw :: "u64 \<Rightarrow> GateStatus" where
  "from_raw raw = \<lparr>gs_enabled = is_enabled raw, gs_generation = raw div 2\<rparr>"

definition SeatGate_new :: SeatGate where
  "SeatGate_new = 0"

definition permit :: "SeatGate \<Rightarrow> SeatPermit option" where
  "permit gate = (if is_enabled gate then Some gate else None)"

definition accepts :: "SeatGate \<Rightarrow> SeatPermit \<Rightarrow> bool" where
  "accepts gate p \<longleftrightarrow> gate = p \<and> is_enabled p"

definition gate_status :: "SeatGate \<Rightarrow> GateStatus" where
  "gate_status gate = from_raw gate"

definition exhausted :: string where
  "exhausted = ''seat transition space is exhausted; restart the provider''"

text \<open>
  One pass of the loop in \<^verbatim>\<open>set_enabled\<close>: \<open>current\<close> was loaded earlier, \<open>mem\<close> is the value the
  atomic operation meets. \<open>Again\<close> carries the observed value of a failed exchange.
\<close>

datatype set_result = Done "string + GateStatus" | Again u64

definition set_enabled_iter :: "bool \<Rightarrow> u64 \<Rightarrow> u64 \<Rightarrow> u64 \<times> set_result" where
  "set_enabled_iter enabled current mem =
    (if gs_enabled (from_raw current) = enabled then (mem, Done (Inr (from_raw current)))
     else
       (case checked_add current 1 of
          None \<Rightarrow>
            (DISABLED_TERMINAL,
             Done (if enabled then Inl exhausted else Inr (from_raw DISABLED_TERMINAL)))
        | Some next \<Rightarrow>
            if next = DISABLED_TERMINAL then (DISABLED_TERMINAL, Done (Inl exhausted))
            else if mem = current then (next, Done (Inr (from_raw next)))
            else (mem, Again mem)))"

text \<open>The loop, against the memory values its successive exchanges meet.\<close>

fun set_enabled_loop :: "bool \<Rightarrow> u64 \<Rightarrow> u64 list \<Rightarrow> (u64 \<times> (string + GateStatus)) option" where
  "set_enabled_loop enabled current [] = None"
| "set_enabled_loop enabled current (mem # mems) =
    (case set_enabled_iter enabled current mem of
       (mem', Done r) \<Rightarrow> Some (mem', r)
     | (mem', Again observed) \<Rightarrow> set_enabled_loop enabled observed mems)"

text \<open>A call without interference: the exchange meets the value that was loaded.\<close>

definition set_enabled :: "bool \<Rightarrow> SeatGate \<Rightarrow> SeatGate \<times> (string + GateStatus)" where
  "set_enabled enabled gate =
    (case set_enabled_iter enabled gate gate of
       (gate', Done r) \<Rightarrow> (gate', r)
     | (gate', Again observed) \<Rightarrow> (gate', Inl exhausted))"

section \<open>The control plane\<close>

datatype ControlCommand = Ctl_Status | Ctl_Enable | Ctl_Disable

fun control_code :: "ControlCommand \<Rightarrow> byte" where
  "control_code Ctl_Status = 0"
| "control_code Ctl_Enable = 1"
| "control_code Ctl_Disable = 2"

definition encode_status :: "GateStatus \<Rightarrow> byte list" where
  "encode_status s =
    CONTROL_MAGIC @ [if gs_enabled s then 1 else 0] @ u64_to_le_bytes (gs_generation s)"

definition decode_status :: "byte list \<Rightarrow> string + GateStatus" where
  "decode_status response =
    (if take 4 response \<noteq> CONTROL_MAGIC
     then Inl ''provider returned an invalid seat-control response''
     else
       (case drop 4 response of
          [] \<Rightarrow> Inl ''provider returned an invalid seat-control state''
        | flag # generation \<Rightarrow>
            if flag = 0 then
              Inr \<lparr>gs_enabled = False, gs_generation = u64_from_le_bytes generation\<rparr>
            else if flag = 1 then
              Inr \<lparr>gs_enabled = True, gs_generation = u64_from_le_bytes generation\<rparr>
            else Inl ''provider returned an invalid seat-control state''))"

definition control_request :: "ControlCommand \<Rightarrow> byte list" where
  "control_request command = CONTROL_MAGIC @ [control_code command]"

text \<open>
  What the kernel gives one \<^verbatim>\<open>handle_pending\<close> call: the accepted connection with its peer UID,
  whether the timeouts could be set, the five request bytes if they all arrived, and whether the
  acknowledgement could be written.
\<close>

record control_peer =
  ctl_uid :: "string + u32"
  ctl_timeouts :: "string + unit"
  ctl_request :: "byte list option"
  ctl_write :: "string + unit"

datatype control_accept = WouldBlock | AcceptFailed string | Accepted control_peer

text \<open>The result, the gate afterwards, and the bytes sent back.\<close>

definition handle_pending ::
  "u32 \<Rightarrow> control_accept \<Rightarrow> SeatGate \<Rightarrow> (string + unit) \<times> SeatGate \<times> byte list option"
where
  "handle_pending euid incoming gate =
    (case incoming of
       WouldBlock \<Rightarrow> (Inr (), gate, None)
     | AcceptFailed e \<Rightarrow> (Inl e, gate, None)
     | Accepted peer \<Rightarrow>
         (case ctl_uid peer of
            Inl e \<Rightarrow> (Inl e, gate, None)
          | Inr uid \<Rightarrow>
              if uid \<noteq> euid then (Inr (), gate, None)
              else
                (case ctl_timeouts peer of
                   Inl e \<Rightarrow> (Inl e, gate, None)
                 | Inr _ \<Rightarrow>
                     (case ctl_request peer of
                        None \<Rightarrow> (Inr (), gate, None)
                      | Some request \<Rightarrow>
                          if take 4 request \<noteq> CONTROL_MAGIC then (Inr (), gate, None)
                          else
                            (case (case drop 4 request of
                                 [code] \<Rightarrow>
                                   if code = 0 then Some (gate, Inr (gate_status gate))
                                   else if code = 1 then Some (set_enabled True gate)
                                   else if code = 2 then Some (set_enabled False gate)
                                   else None
                               | _ \<Rightarrow> None) of
                               None \<Rightarrow> (Inr (), gate, None)
                             | Some (gate', Inl e) \<Rightarrow> (Inl e, gate', None)
                             | Some (gate', Inr status) \<Rightarrow>
                                 (ctl_write peer, gate', Some (encode_status status)))))))"

section \<open>The raw value\<close>

lemma enabled_iff_odd: "is_enabled raw \<longleftrightarrow> raw \<noteq> DISABLED_TERMINAL \<and> odd (unat raw)"
proof -
  have "raw AND 1 = 1 \<longleftrightarrow> odd raw"
    by (simp add: and_one_eq odd_iff_mod_2_eq_one)
  also have "\<dots> \<longleftrightarrow> odd (unat raw)"
    by (simp add: bit_unsigned_iff flip: bit_0)
  finally show ?thesis by (simp add: is_enabled_def)
qed

lemma unat_terminal: "unat DISABLED_TERMINAL = 18446744073709551615"
  by (simp add: DISABLED_TERMINAL_def unsigned_minus_1_eq_mask mask_eq_exp_minus_1)

lemma eq_terminal_iff: "raw = DISABLED_TERMINAL \<longleftrightarrow> unat raw = 18446744073709551615"
  by (metis unat_terminal word_unat_eq_iff)

lemma le_terminal [simp]: "raw \<le> DISABLED_TERMINAL"
  by (simp add: DISABLED_TERMINAL_def)

lemma not_enabled_terminal [simp]: "\<not> is_enabled DISABLED_TERMINAL"
  by (simp add: is_enabled_def)


lemma next_facts:
  assumes "checked_add raw 1 = Some next"
  shows "unat next = Suc (unat raw)" and "raw < next"
  using assms by (simp_all add: checked_add_Some_iff word_less_nat_alt)

lemma enabled_has_next: "is_enabled raw \<Longrightarrow> \<exists>next. checked_add raw 1 = Some next
    \<and> next \<noteq> DISABLED_TERMINAL \<and> \<not> is_enabled next"
proof -
  assume en: "is_enabled raw"
  have "unat raw \<noteq> 18446744073709551615" and "odd (unat raw)"
    using en by (simp_all add: enabled_iff_odd eq_terminal_iff)
  moreover have "unat raw < 18446744073709551616"
    using unat_bound [of raw] by simp
  ultimately have bound: "unat raw < 18446744073709551614"
    by presburger
  then have next_raw: "checked_add raw 1 = Some (raw + 1)"
    by (simp add: checked_add_def)
  moreover from next_facts(1) [OF next_raw] bound \<open>odd (unat raw)\<close>
  have "raw + 1 \<noteq> DISABLED_TERMINAL" and "\<not> is_enabled (raw + 1)"
    by (auto simp: eq_terminal_iff enabled_iff_odd)
  ultimately show ?thesis by blast
qed

lemma disabled_next_enabled:
  assumes "\<not> is_enabled raw" and "checked_add raw 1 = Some next" and "next \<noteq> DISABLED_TERMINAL"
  shows "is_enabled next"
proof -
  have "raw \<noteq> DISABLED_TERMINAL"
    using assms(2) checked_add_one_None [of raw] by (auto simp: unat_terminal)
  with assms show ?thesis
    using next_facts(1) [OF assms(2)] by (auto simp: enabled_iff_odd)
qed

lemma iter_mem_le: "set_enabled_iter en cur mem = (mem', r) \<Longrightarrow> mem \<le> mem'"
  by (auto simp: set_enabled_iter_def dest: next_facts(2) split: if_splits option.splits)

lemma iter_disable:
  "set_enabled_iter False cur mem = (mem', Done r) \<Longrightarrow>
    \<exists>status. r = Inr status \<and> \<not> gs_enabled status"
  using enabled_has_next [of cur]
  by (auto simp: set_enabled_iter_def from_raw_def split: if_splits option.splits)

lemma set_enabled_seq:
  "set_enabled en gate =
    (if is_enabled gate = en then (gate, Inr (from_raw gate))
     else
       (case checked_add gate 1 of
          None \<Rightarrow> (DISABLED_TERMINAL,
                   if en then Inl exhausted else Inr (from_raw DISABLED_TERMINAL))
        | Some next \<Rightarrow>
            if next = DISABLED_TERMINAL then (DISABLED_TERMINAL, Inl exhausted)
            else (next, Inr (from_raw next))))"
  by (simp add: set_enabled_def set_enabled_iter_def from_raw_def split: option.split)

text \<open>The CAS loop run alone returns at once with the value of the call.\<close>

lemma set_enabled_loop_alone:
  "set_enabled_loop en gate (gate # mems) = Some (set_enabled en gate)"
  by (simp add: set_enabled_def set_enabled_iter_def split: option.split)

lemma disable_closes:
  obtains gate' status where "set_enabled False gate = (gate', Inr status)"
    "\<not> gs_enabled status" "permit gate' = None"
  using enabled_has_next [of gate]
  by (cases "is_enabled gate") (auto simp: set_enabled_seq permit_def from_raw_def)

text \<open>
  Disabling the seat always succeeds: from every raw state, including the exhausted ones,
  \<^verbatim>\<open>set_enabled(false)\<close> returns a disabled status and leaves a gate that issues no permit. Enabling
  either returns an enabled status and an open gate, or fails with the gate closed for good.
\<close>

theorem set_enabled_outcomes:
  "(\<exists>gate' status. set_enabled False gate = (gate', Inr status)
      \<and> \<not> gs_enabled status \<and> permit gate' = None)
   \<and> (\<exists>gate' status. set_enabled True gate = (gate', Inr status)
        \<and> gs_enabled status \<and> permit gate' = Some gate'
      \<or> set_enabled True gate = (DISABLED_TERMINAL, Inl exhausted))
   \<and> set_enabled True DISABLED_TERMINAL = (DISABLED_TERMINAL, Inl exhausted)"
proof (intro conjI)
  show "\<exists>gate' status. set_enabled False gate = (gate', Inr status)
      \<and> \<not> gs_enabled status \<and> permit gate' = None"
    by (metis disable_closes)
  show "\<exists>gate' status. set_enabled True gate = (gate', Inr status)
        \<and> gs_enabled status \<and> permit gate' = Some gate'
      \<or> set_enabled True gate = (DISABLED_TERMINAL, Inl exhausted)"
    using disabled_next_enabled [of gate]
    by (auto simp: set_enabled_seq permit_def from_raw_def split: option.splits)
  show "set_enabled True DISABLED_TERMINAL = (DISABLED_TERMINAL, Inl exhausted)"
    by (simp add: set_enabled_seq checked_add_def unat_terminal)
qed

section \<open>Revocation\<close>

text \<open>
  What a session relies on: a permit is accepted exactly while the gate still shows the stamp it was
  issued at, and stamps never go back. So a permit that was refused once is refused for ever.
\<close>

locale revocable_gate =
  fixes gate_permit :: "'g \<Rightarrow> 'p option"
    and gate_accepts :: "'g \<Rightarrow> 'p \<Rightarrow> bool"
    and transition :: "'g \<Rightarrow> 'g \<Rightarrow> bool"
    and stamp :: "'g \<Rightarrow> nat"
  assumes permit_iff_accepts: "gate_permit g = Some p \<longleftrightarrow> gate_accepts g p"
    and stamp_mono: "transition g h \<Longrightarrow> stamp g \<le> stamp h"
    and stamp_decides: "stamp g = stamp h \<Longrightarrow> gate_accepts g p = gate_accepts h p"
    and accepted_stamp: "gate_accepts g p \<Longrightarrow> gate_accepts h p \<Longrightarrow> stamp g = stamp h"
begin

lemma stamp_mono_run: "transition\<^sup>*\<^sup>* g h \<Longrightarrow> stamp g \<le> stamp h"
  by (induction rule: rtranclp_induct) (auto dest: stamp_mono)

lemma refused_for_ever:
  assumes "gate_accepts g p" and "transition\<^sup>*\<^sup>* g h" and "\<not> gate_accepts h p"
    and "transition\<^sup>*\<^sup>* h k"
  shows "\<not> gate_accepts k p"
proof
  assume "gate_accepts k p"
  with assms(1) have "stamp g = stamp k" by (rule accepted_stamp)
  with stamp_mono_run [OF assms(2)] stamp_mono_run [OF assms(4)] have "stamp h = stamp k"
    by simp
  with \<open>gate_accepts k p\<close> assms(3) show False using stamp_decides by blast
qed

lemma accepted_throughout:
  assumes "transition\<^sup>*\<^sup>* g h" and "transition\<^sup>*\<^sup>* h k" and "gate_accepts g p" and "gate_accepts k p"
  shows "gate_accepts h p"
  using assms refused_for_ever by blast

end

text \<open>Control requests one after the other, as \<^verbatim>\<open>serve\<close> handles them.\<close>

definition control_transition :: "SeatGate \<Rightarrow> SeatGate \<Rightarrow> bool" where
  "control_transition g h \<longleftrightarrow> (\<exists>en. h = fst (set_enabled en g))"

lemma set_enabled_mono: "set_enabled en g = (h, r) \<Longrightarrow> g \<le> h"
  by (auto simp: set_enabled_seq dest: next_facts(2) split: if_splits option.splits)

interpretation seat: revocable_gate permit accepts control_transition unat
proof
  show "permit g = Some p \<longleftrightarrow> accepts g p" for g p
    by (auto simp: permit_def accepts_def)
  show "unat g \<le> unat h" if "control_transition g h" for g h
    using that set_enabled_mono [of _ g]
    by (auto simp: control_transition_def simp flip: word_le_nat_alt) (metis prod.collapse)
qed (auto simp: accepts_def word_unat_eq_iff)

text \<open>Any number of threads calling \<^verbatim>\<open>set_enabled\<close> on the shared gate.\<close>

datatype caller = Idle | Running bool u64 | Returned "string + GateStatus"

record gate_system =
  memory :: u64
  callers :: "nat \<Rightarrow> caller"

inductive gate_step :: "gate_system \<Rightarrow> gate_system \<Rightarrow> bool" where
  load: "callers s t = Idle \<or> callers s t = Returned r \<Longrightarrow>
    gate_step s (s\<lparr>callers := (callers s)(t := Running en (memory s))\<rparr>)"
| retry: "callers s t = Running en cur \<Longrightarrow> set_enabled_iter en cur (memory s) = (mem', Again c) \<Longrightarrow>
    gate_step s (s\<lparr>memory := mem', callers := (callers s)(t := Running en c)\<rparr>)"
| finish: "callers s t = Running en cur \<Longrightarrow> set_enabled_iter en cur (memory s) = (mem', Done r) \<Longrightarrow>
    gate_step s (s\<lparr>memory := mem', callers := (callers s)(t := Returned r)\<rparr>)"

inductive_cases gate_stepE: "gate_step s t"

definition system_permit :: "gate_system \<Rightarrow> SeatPermit option" where
  "system_permit s = permit (memory s)"

definition system_accepts :: "gate_system \<Rightarrow> SeatPermit \<Rightarrow> bool" where
  "system_accepts s p = accepts (memory s) p"

lemma gate_step_memory: "gate_step s t \<Longrightarrow> memory s \<le> memory t"
  by (erule gate_stepE) (auto dest: iter_mem_le)

interpretation shared_seat: revocable_gate
  system_permit system_accepts gate_step "\<lambda>s. unat (memory s)"
  by unfold_locales
    (auto simp: system_permit_def system_accepts_def seat.permit_iff_accepts gate_step_memory
      accepts_def word_unat_eq_iff simp flip: word_le_nat_alt)

text \<open>
  C1. A revoked seat permit stays revoked. Under any interleaving of concurrent enable and disable
  calls on the shared gate, once a permit that was accepted is refused, no later state accepts it
  again, whatever transitions follow: a session that lost its seat generation cannot get it back.
\<close>

theorem revoked_permit_never_accepted_again:
  assumes "permit (memory s) = Some p" and "gate_step\<^sup>*\<^sup>* s t" and "\<not> accepts (memory t) p"
    and "gate_step\<^sup>*\<^sup>* t u"
  shows "\<not> accepts (memory u) p"
  using shared_seat.refused_for_ever [of s p t u] assms
  by (simp add: system_accepts_def seat.permit_iff_accepts)

definition demo_gate :: gate_system where
  "demo_gate = \<lparr>memory = 1, callers = (\<lambda>_. Idle)\<rparr>"

definition demo_disabling :: gate_system where
  "demo_disabling = demo_gate\<lparr>callers := (\<lambda>_. Idle)(0 := Running False 1)\<rparr>"

definition demo_disabled :: gate_system where
  "demo_disabled = \<lparr>memory = 2, callers = (\<lambda>_. Idle)(0 := Returned (Inr (from_raw 2)))\<rparr>"

lemma demo_run: "gate_step\<^sup>*\<^sup>* demo_gate demo_disabled"
proof -
  have iter: "set_enabled_iter False 1 1 = (2, Done (Inr (from_raw 2)))"
    by (simp add: set_enabled_iter_def from_raw_def is_enabled_def DISABLED_TERMINAL_def
        checked_add_def)
  have "gate_step demo_gate demo_disabling"
    using gate_step.load [of demo_gate 0 "Inl []" False]
    by (simp add: demo_gate_def demo_disabling_def)
  moreover have "gate_step demo_disabling demo_disabled"
    using gate_step.finish [of demo_disabling 0 False 1 2 "Inr (from_raw 2)"] iter
    by (simp add: demo_disabling_def demo_disabled_def demo_gate_def)
  ultimately show ?thesis by simp
qed

theorem revoked_permit_never_accepted_again_witness:
  "permit (memory demo_gate) = Some 1 \<and> \<not> accepts (memory demo_disabled) 1"
proof -
  have p: "permit (memory demo_gate) = Some 1"
    by (simp add: demo_gate_def permit_def is_enabled_def DISABLED_TERMINAL_def)
  have r: "\<not> accepts (memory demo_disabled) 1"
    by (simp add: demo_disabled_def accepts_def)
  show ?thesis
    using p revoked_permit_never_accepted_again [OF p demo_run r rtranclp.rtrancl_refl] by simp
qed

text \<open>
  A disable that returns revokes every permit issued before it was called, for ever: whatever
  control requests came before and follow after, a session holding an earlier permit is refused.
\<close>

theorem disable_revokes_earlier_permits:
  assumes "permit g = Some p" and "control_transition\<^sup>*\<^sup>* g h"
    and "set_enabled False h = (h', r)" and "control_transition\<^sup>*\<^sup>* h' k"
  shows "\<not> accepts k p"
proof -
  have "control_transition h h'"
    using assms(3) by (auto simp: control_transition_def intro: exI [of _ False])
  with assms(2) have "control_transition\<^sup>*\<^sup>* g h'" by simp
  moreover have "\<not> accepts h' p"
    using assms(3) by (cases rule: disable_closes [of h]) (auto simp flip: seat.permit_iff_accepts)
  ultimately show ?thesis
    using seat.refused_for_ever [of g p h' k] assms(1,4) by (simp add: seat.permit_iff_accepts)
qed

theorem disable_revokes_earlier_permits_witness:
  "permit 5 = Some 5 \<and> set_enabled False 5 = (6, Inr (from_raw 6)) \<and> \<not> accepts 6 5"
proof -
  have p: "permit 5 = Some 5" and d: "set_enabled False 5 = (6, Inr (from_raw 6))"
    by (simp_all add: permit_def set_enabled_seq is_enabled_def DISABLED_TERMINAL_def
        checked_add_def)
  show ?thesis
    using p d disable_revokes_earlier_permits [OF p rtranclp.rtrancl_refl d rtranclp.rtrancl_refl]
    by simp
qed

section \<open>Control frames\<close>

lemma length_magic [simp]: "length CONTROL_MAGIC = 4"
  by (simp add: CONTROL_MAGIC_def)

lemma take_magic [simp]: "take 4 (CONTROL_MAGIC @ xs) = CONTROL_MAGIC"
  "drop 4 (CONTROL_MAGIC @ xs) = xs"
  by simp_all

definition decode_frame :: "byte list \<Rightarrow> string + GateStatus" where
  "decode_frame bs = (if length bs = 13 then decode_status bs else Inl ''array length'')"

interpretation status_frame: canonical_codec encode_status decode_frame "\<lambda>_. True"
proof
  show "decode_frame (encode_status a) = Inr a" for a
    by (simp add: decode_frame_def decode_status_def encode_status_def)
  show "encode_status a = bs" if "decode_frame bs = Inr a" for bs a
  proof -
    from that have len: "length bs = 13" and magic: "take 4 bs = CONTROL_MAGIC"
      by (auto simp: decode_frame_def decode_status_def split: if_splits)
    then obtain flag gen where rest: "drop 4 bs = flag # gen" and "length gen = 8"
      by (cases "drop 4 bs") (auto dest!: arg_cong [of _ _ length])
    moreover have "bs = CONTROL_MAGIC @ flag # gen"
      using append_take_drop_id [of 4 bs] magic rest by simp
    ultimately show ?thesis
      using that by (auto simp: decode_frame_def decode_status_def encode_status_def
          u64_le_inverse split: if_splits)
  qed
qed simp

lemma decode_encode_status [simp]: "decode_status (encode_status st) = Inr st"
  by (simp add: decode_status_def encode_status_def)

lemma set_enabled_answer: "set_enabled en gate = (gate', Inr st) \<Longrightarrow> st = gate_status gate'"
  by (auto simp: set_enabled_seq gate_status_def split: if_splits option.splits)

text \<open>
  C32. Only the provider's own user moves the gate, and only with a well-formed command: if a
  control connection changes the gate or is answered, its kernel-reported UID equals the provider's,
  its five bytes are the magic and a known command, and the answer, when the seat transition
  succeeded, decodes to the status of the gate it left behind.
\<close>

theorem control_plane_authority:
  assumes "handle_pending euid incoming gate = (r, gate', answer)"
    and "gate' \<noteq> gate \<or> answer \<noteq> None"
  shows "\<exists>peer command. incoming = Accepted peer \<and> ctl_uid peer = Inr euid
    \<and> ctl_request peer = Some (control_request command)
    \<and> (command = Ctl_Status \<longrightarrow> gate' = gate)
    \<and> (command = Ctl_Enable \<longrightarrow> gate' = fst (set_enabled True gate))
    \<and> (command = Ctl_Disable \<longrightarrow> gate' = fst (set_enabled False gate))
    \<and> (\<forall>bytes. answer = Some bytes \<longrightarrow> decode_status bytes = Inr (gate_status gate'))"
proof -
  obtain peer request where peer: "incoming = Accepted peer" "ctl_uid peer = Inr euid"
    "ctl_timeouts peer = Inr ()" "ctl_request peer = Some request"
    "take 4 request = CONTROL_MAGIC"
    using assms by (auto simp: handle_pending_def split: control_accept.splits sum.splits
        if_splits option.splits)
  from assms peer obtain code where code: "drop 4 request = [code]" "code \<in> {0, 1, 2}"
    by (auto simp: handle_pending_def split: list.splits if_splits)
  have request: "request = CONTROL_MAGIC @ [code]"
    using append_take_drop_id [of 4 request] peer(5) code(1) by simp
  show ?thesis
    using code(2) assms peer
    by (auto simp: request handle_pending_def control_request_def set_enabled_answer
        intro!: exI [of _ "if code = 0 then Ctl_Status else if code = 1 then Ctl_Enable
          else Ctl_Disable"] split: sum.splits prod.splits)
qed


text \<open>
  The same user sends \<open>disable\<close> to an enabled gate: the gate moves from 1 to 2.
\<close>

definition demo_peer :: control_peer where
  "demo_peer = \<lparr>ctl_uid = Inr 1000, ctl_timeouts = Inr (),
    ctl_request = Some (control_request Ctl_Disable), ctl_write = Inr ()\<rparr>"

theorem control_plane_authority_witness:
  "handle_pending 1000 (Accepted demo_peer) 1 = (Inr (), 2, Some (encode_status (from_raw 2)))
    \<and> decode_status (encode_status (from_raw 2)) = Inr (gate_status 2)"
proof -
  have run: "handle_pending 1000 (Accepted demo_peer) 1
    = (Inr (), 2, Some (encode_status (from_raw 2)))"
    by (simp add: handle_pending_def demo_peer_def control_request_def set_enabled_seq
        is_enabled_def DISABLED_TERMINAL_def checked_add_def)
  show ?thesis
    using run control_plane_authority [OF run] by auto
qed

end
