(* ===== verification/Provider_Config.thy ===== *)
theory Provider_Config
  imports Wire_Message Wire_Bounded
begin

text \<open>
  The provider policy (\<^verbatim>\<open>agent-seat-x11/src/config.rs\<close>): the deserialized TOML document
  (\<open>RawConfig\<close> and its tables), its validation into a \<open>Config\<close>, the questions the provider asks
  it (which capabilities a peer is granted, which applications may be launched), and the editable
  \<open>PolicyDraft\<close> with its validated setters. The TOML parser, and the format-preserving document
  behind a draft, are parameters: \<^verbatim>\<open>toml\<close> and \<^verbatim>\<open>toml_edit\<close> are not part of the sources.
\<close>

section \<open>Data\<close>

datatype ClientScope = Scope_None | Scope_CurrentWorkspace | Scope_AllWorkspaces

datatype LaunchMode = Launch_Deny | Launch_AllowListed | Launch_AllowInstalled

record Grant =
  grant_uid :: u32
  grant_capabilities :: "Capability list"

record ObservationPolicy =
  obs_clients :: ClientScope
  obs_titles :: bool

record InputPolicy =
  ip_provider_private_devices :: bool

record LaunchPolicy =
  lp_mode :: LaunchMode
  lp_allow :: "string list"
  lp_deny :: "string list"
  lp_allow_user_entries :: bool

record Config =
  cfg_max_sessions :: nat
  cfg_max_requests :: u16
  cfg_io_timeout :: nat
  cfg_grant :: "Grant option"
  cfg_observation :: ObservationPolicy
  cfg_launch :: LaunchPolicy
  cfg_input :: InputPolicy

record RawGrant =
  rg_uid :: u32
  rg_capabilities :: "Capability list"

record RawObservation =
  ro_clients :: ClientScope
  ro_titles :: bool

record RawLaunch =
  rl_mode :: LaunchMode
  rl_allow :: "string list"
  rl_deny :: "string list"
  rl_allow_user_entries :: bool

record RawInput =
  ri_provider_private_devices :: bool

record RawConfig =
  raw_enabled :: bool
  raw_max_sessions :: u8
  raw_max_requests_per_session :: u16
  raw_io_timeout_ms :: u32
  raw_grant :: "RawGrant option"
  raw_observation :: RawObservation
  raw_launch :: RawLaunch
  raw_input :: RawInput

definition MAX_CONFIG_BYTES :: nat where "MAX_CONFIG_BYTES = 64 * 1024"
definition MAX_POLICY_CAPABILITIES :: nat where "MAX_POLICY_CAPABILITIES = 14"
definition MAX_SESSIONS :: nat where "MAX_SESSIONS = 32"
definition MAX_REQUESTS :: nat where "MAX_REQUESTS = 4096"
definition MIN_IO_TIMEOUT_MS :: nat where "MIN_IO_TIMEOUT_MS = 50"
definition MAX_IO_TIMEOUT_MS :: nat where "MAX_IO_TIMEOUT_MS = 10000"

lemmas config_bounds = MAX_CONFIG_BYTES_def MAX_POLICY_CAPABILITIES_def MAX_SESSIONS_def
  MAX_REQUESTS_def MIN_IO_TIMEOUT_MS_def MAX_IO_TIMEOUT_MS_def MAX_APPLICATIONS_def

section \<open>Launch admission\<close>

definition allows_any :: "LaunchPolicy \<Rightarrow> bool" where
  "allows_any p = (case lp_mode p of
      Launch_Deny \<Rightarrow> False
    | Launch_AllowListed \<Rightarrow> lp_allow p \<noteq> []
    | Launch_AllowInstalled \<Rightarrow> True)"

definition permits :: "LaunchPolicy \<Rightarrow> string \<Rightarrow> bool \<Rightarrow> bool" where
  "permits p application user_entry =
    (if user_entry \<and> \<not> lp_allow_user_entries p \<or> application \<in> set (lp_deny p) then False
     else (case lp_mode p of
        Launch_Deny \<Rightarrow> False
      | Launch_AllowListed \<Rightarrow> application \<in> set (lp_allow p)
      | Launch_AllowInstalled \<Rightarrow> True))"

section \<open>Validation\<close>

fun is_management :: "Capability \<Rightarrow> bool" where
  "is_management Cap_ManageActivate = True"
| "is_management Cap_ManageClose = True"
| "is_management Cap_ManageWorkspace = True"
| "is_management Cap_ManageState = True"
| "is_management Cap_ManageGeometry = True"
| "is_management _ = False"

fun is_input_or_text :: "Capability \<Rightarrow> bool" where
  "is_input_or_text Cap_InputPointer = True"
| "is_input_or_text Cap_InputKeyboard = True"
| "is_input_or_text Cap_TextTransfer = True"
| "is_input_or_text _ = False"

definition RawGrant_validate :: "u32 \<Rightarrow> RawGrant \<Rightarrow> string + Grant" where
  "RawGrant_validate provider_uid g =
    (let caps = rg_capabilities g; holds = (\<lambda>c. c \<in> set caps) in
     if rg_uid g \<noteq> provider_uid
     then Inl (''grant.uid must equal the provider's effective UID '' @ decimal (unat provider_uid))
     else if list_ex (\<lambda>index. caps ! index \<in> set (take index caps)) [0..<length caps]
     then Inl ''grant capabilities must not contain duplicates''
     else if holds Cap_ObserveTitles \<and> \<not> holds Cap_ObserveStructure
     then Inl ''observe_titles requires observe_structure''
     else if holds Cap_ObserveEvents \<and> \<not> holds Cap_ObserveStructure
     then Inl ''observe_events requires observe_structure''
     else if list_ex is_management caps \<and> \<not> holds Cap_ObserveStructure
     then Inl ''management capabilities require observe_structure''
     else if holds Cap_LaunchExecute \<and> \<not> holds Cap_LaunchList
     then Inl ''launch_execute requires launch_list''
     else if list_ex is_input_or_text caps \<and> \<not> holds Cap_ObserveStructure
     then Inl ''input and text-transfer capabilities require observe_structure''
     else if holds Cap_CaptureObscured \<and> \<not> holds Cap_ObserveStructure
     then Inl ''capture_obscured requires observe_structure''
     else Inr \<lparr>grant_uid = rg_uid g, grant_capabilities = caps\<rparr>)"

definition RawInput_validate :: "RawInput \<Rightarrow> string + InputPolicy" where
  "RawInput_validate i =
    Inr \<lparr>ip_provider_private_devices = ri_provider_private_devices i\<rparr>"

text \<open>
  The loop of \<^verbatim>\<open>validate_application_ids\<close>; \<open>prior\<close> are the entries already passed.
\<close>

definition canonical_desktop_id :: "string \<Rightarrow> bool" where
  "canonical_desktop_id a \<longleftrightarrow>
    \<not> (a = [] \<or> \<not> ends_with a ''.desktop'' \<or> list_ex (\<lambda>c. c = CHR ''/'' \<or> c = CHR 0x00) a)"

fun validate_application_ids :: "string \<Rightarrow> string list \<Rightarrow> string list \<Rightarrow> validation" where
  "validate_application_ids field prior [] = Inr ()"
| "validate_application_ids field prior (a # as) =
    (if \<not> canonical_desktop_id a
     then Inl (field @ '' contains a non-canonical desktop ID'')
     else if a \<in> set prior then Inl (field @ '' must not contain duplicates'')
     else validate_application_ids field (prior @ [a]) as)"

definition RawLaunch_validate :: "RawLaunch \<Rightarrow> string + LaunchPolicy" where
  "RawLaunch_validate l =
    res_bind (validate_application_ids ''launch.allow'' [] (rl_allow l)) (\<lambda>_.
    res_bind (validate_application_ids ''launch.deny'' [] (rl_deny l)) (\<lambda>_.
    if list_ex (\<lambda>a. a \<in> set (rl_deny l)) (rl_allow l)
    then Inl ''launch.allow and launch.deny must not overlap''
    else Inr \<lparr>lp_mode = rl_mode l, lp_allow = rl_allow l, lp_deny = rl_deny l,
      lp_allow_user_entries = rl_allow_user_entries l\<rparr>))"

definition transpose_opt :: "('e + 'a) option \<Rightarrow> 'e + 'a option" where
  "transpose_opt x = (case x of None \<Rightarrow> Inr None | Some (Inl e) \<Rightarrow> Inl e | Some (Inr a) \<Rightarrow> Inr (Some a))"

definition RawConfig_validate :: "u32 \<Rightarrow> RawConfig \<Rightarrow> string + Config" where
  "RawConfig_validate provider_uid r =
    (if raw_max_sessions r = 0 \<or> unat (raw_max_sessions r) > MAX_SESSIONS
     then Inl (''max_sessions must be in 1..='' @ decimal MAX_SESSIONS)
     else if raw_max_requests_per_session r = 0
       \<or> unat (raw_max_requests_per_session r) > MAX_REQUESTS
     then Inl (''max_requests_per_session must be in 1..='' @ decimal MAX_REQUESTS)
     else if \<not> (MIN_IO_TIMEOUT_MS \<le> unat (raw_io_timeout_ms r)
       \<and> unat (raw_io_timeout_ms r) \<le> MAX_IO_TIMEOUT_MS)
     then Inl (''io_timeout_ms must be in '' @ decimal MIN_IO_TIMEOUT_MS @ ''..=''
       @ decimal MAX_IO_TIMEOUT_MS)
     else
       res_bind (transpose_opt (map_option (RawGrant_validate provider_uid) (raw_grant r))) (\<lambda>grant.
       res_bind (RawInput_validate (raw_input r)) (\<lambda>input.
       res_bind (RawLaunch_validate (raw_launch r)) (\<lambda>launch.
       Inr \<lparr>cfg_max_sessions = unat (raw_max_sessions r),
         cfg_max_requests = raw_max_requests_per_session r,
         cfg_io_timeout = unat (raw_io_timeout_ms r),
         cfg_grant = grant,
         cfg_observation = \<lparr>obs_clients = ro_clients (raw_observation r),
           obs_titles = ro_titles (raw_observation r)\<rparr>,
         cfg_launch = launch,
         cfg_input = input\<rparr>))))"

definition validate_source ::
    "(string \<Rightarrow> string + RawConfig) \<Rightarrow> string \<Rightarrow> u32 \<Rightarrow> string + (bool \<times> Config \<times> RawConfig)" where
  "validate_source toml_from_str source provider_uid =
    (if length source > MAX_CONFIG_BYTES
     then Inl (''candidate exceeds the '' @ decimal MAX_CONFIG_BYTES
       @ ''-byte configuration bound'')
     else
       res_bind (toml_from_str source) (\<lambda>raw.
       res_bind (RawConfig_validate provider_uid raw) (\<lambda>config.
       Inr (raw_enabled raw, config, raw))))"

section \<open>Questions the provider asks\<close>

definition granted :: "Config \<Rightarrow> u32 \<Rightarrow> Capability list \<Rightarrow> Capability list option" where
  "granted cfg uid requested =
    (case cfg_grant cfg of
       None \<Rightarrow> None
     | Some grant \<Rightarrow>
         if grant_uid grant = uid
         then Some (filter (\<lambda>c. c \<in> set (grant_capabilities grant)) requested)
         else None)"

definition client_scope :: "Config \<Rightarrow> ClientScope" where
  "client_scope cfg = obs_clients (cfg_observation cfg)"

definition titles_enabled :: "Config \<Rightarrow> bool" where
  "titles_enabled cfg = obs_titles (cfg_observation cfg)"

fun client_scope_name :: "ClientScope \<Rightarrow> string" where
  "client_scope_name Scope_None = ''none''"
| "client_scope_name Scope_CurrentWorkspace = ''current_workspace''"
| "client_scope_name Scope_AllWorkspaces = ''all_workspaces''"

fun launch_mode_name :: "LaunchMode \<Rightarrow> string" where
  "launch_mode_name Launch_Deny = ''deny''"
| "launch_mode_name Launch_AllowListed = ''allow_listed''"
| "launch_mode_name Launch_AllowInstalled = ''allow_installed''"

fun capability_name :: "Capability \<Rightarrow> string" where
  "capability_name Cap_ObserveStructure = ''observe_structure''"
| "capability_name Cap_ObserveTitles = ''observe_titles''"
| "capability_name Cap_ObserveEvents = ''observe_events''"
| "capability_name Cap_ManageActivate = ''manage_activate''"
| "capability_name Cap_ManageClose = ''manage_close''"
| "capability_name Cap_ManageWorkspace = ''manage_workspace''"
| "capability_name Cap_ManageState = ''manage_state''"
| "capability_name Cap_ManageGeometry = ''manage_geometry''"
| "capability_name Cap_LaunchList = ''launch_list''"
| "capability_name Cap_LaunchExecute = ''launch_execute''"
| "capability_name Cap_InputPointer = ''input_pointer''"
| "capability_name Cap_InputKeyboard = ''input_keyboard''"
| "capability_name Cap_TextTransfer = ''text_transfer''"
| "capability_name Cap_CaptureObscured = ''capture_obscured''"


section \<open>The editable draft\<close>

text \<open>
  \<^verbatim>\<open>toml_edit::DocumentMut\<close> is a parameter: \<open>document_ops\<close> names the calls the setters make.
\<close>

datatype toml_value =
  Toml_Bool bool
| Toml_Integer int
| Toml_String string
| Toml_Array "string list"

record 'd document_ops =
  doc_assign :: "string list \<Rightarrow> toml_value \<Rightarrow> 'd \<Rightarrow> 'd"
  doc_remove :: "string \<Rightarrow> 'd \<Rightarrow> 'd"
  doc_ensure_table :: "string \<Rightarrow> 'd \<Rightarrow> 'd"
  doc_to_string :: "'d \<Rightarrow> string"

record 'd PolicyDraft =
  draft_raw :: RawConfig
  draft_document :: 'd

definition BoundError_to_string :: "BoundError \<Rightarrow> string" where
  "BoundError_to_string e =
    ''value has '' @ decimal (be_actual e) @ '' bytes or items; maximum is '' @ decimal (be_limit e)"

text \<open>The setters take the draft by mutable reference: state passing, in the order the code writes.\<close>

definition draft_capabilities :: "'d PolicyDraft \<Rightarrow> Capability list" where
  "draft_capabilities d = (case raw_grant (draft_raw d) of None \<Rightarrow> [] | Some g \<Rightarrow> rg_capabilities g)"

definition edit_document :: "('d \<Rightarrow> 'd) \<Rightarrow> ('d PolicyDraft, 'e, unit) st" where
  "edit_document f = st_modify (\<lambda>d. d\<lparr>draft_document := f (draft_document d)\<rparr>)"

definition replace_if_valid :: "u32 \<Rightarrow> RawConfig \<Rightarrow> ('d PolicyDraft, string, unit) st" where
  "replace_if_valid euid candidate =
    st_bind (st_try (RawConfig_validate euid candidate)) (\<lambda>_.
    st_modify (\<lambda>d. d\<lparr>draft_raw := candidate\<rparr>))"

definition PolicyDraft_set_enabled :: "'d document_ops \<Rightarrow> bool \<Rightarrow> ('d PolicyDraft, string, unit) st" where
  "PolicyDraft_set_enabled ops en =
    st_bind (st_modify (\<lambda>d. d\<lparr>draft_raw := (draft_raw d)\<lparr>raw_enabled := en\<rparr>\<rparr>)) (\<lambda>_.
    edit_document (doc_assign ops [''enabled''] (Toml_Bool en)))"

definition set_resource_limits :: "'d document_ops \<Rightarrow> u32 \<Rightarrow> u8 \<Rightarrow> u16 \<Rightarrow> u32
    \<Rightarrow> ('d PolicyDraft, string, unit) st" where
  "set_resource_limits ops euid max_sessions max_requests io_timeout_ms =
    st_bind (st_get draft_raw) (\<lambda>raw.
    st_bind (replace_if_valid euid (raw\<lparr>raw_max_sessions := max_sessions,
      raw_max_requests_per_session := max_requests, raw_io_timeout_ms := io_timeout_ms\<rparr>)) (\<lambda>_.
    st_bind (edit_document (doc_assign ops [''max_sessions''] (Toml_Integer (uint max_sessions)))) (\<lambda>_.
    st_bind (edit_document (doc_assign ops [''max_requests_per_session''] (Toml_Integer (uint max_requests)))) (\<lambda>_.
    edit_document (doc_assign ops [''io_timeout_ms''] (Toml_Integer (uint io_timeout_ms)))))))"

definition set_capabilities :: "'d document_ops \<Rightarrow> u32 \<Rightarrow> Capability list
    \<Rightarrow> ('d PolicyDraft, string, unit) st" where
  "set_capabilities ops euid capabilities =
    st_bind (st_try (map_err BoundError_to_string
        (BoundedList_new MAX_POLICY_CAPABILITIES capabilities))) (\<lambda>capabilities.
    st_bind (st_get draft_raw) (\<lambda>raw.
    st_bind (replace_if_valid euid (raw\<lparr>raw_grant :=
        Some \<lparr>rg_uid = euid, rg_capabilities = capabilities\<rparr>\<rparr>)) (\<lambda>_.
    st_bind (edit_document (doc_ensure_table ops ''grant'')) (\<lambda>_.
    st_bind (edit_document (doc_assign ops [''grant'', ''uid''] (Toml_Integer (uint euid)))) (\<lambda>_.
    st_bind (st_get draft_capabilities) (\<lambda>rendered.
    edit_document (doc_assign ops [''grant'', ''capabilities''] (Toml_Array (map capability_name rendered)))))))))"

definition clear_grant :: "'d document_ops \<Rightarrow> ('d PolicyDraft, string, unit) st" where
  "clear_grant ops =
    st_bind (st_modify (\<lambda>d. d\<lparr>draft_raw := (draft_raw d)\<lparr>raw_grant := None\<rparr>\<rparr>)) (\<lambda>_.
    edit_document (doc_remove ops ''grant''))"

definition set_observation :: "'d document_ops \<Rightarrow> u32 \<Rightarrow> ClientScope \<Rightarrow> bool
    \<Rightarrow> ('d PolicyDraft, string, unit) st" where
  "set_observation ops euid clients titles =
    st_bind (st_get draft_raw) (\<lambda>raw.
    st_bind (replace_if_valid euid (raw\<lparr>raw_observation :=
        \<lparr>ro_clients = clients, ro_titles = titles\<rparr>\<rparr>)) (\<lambda>_.
    st_bind (edit_document (doc_ensure_table ops ''observation'')) (\<lambda>_.
    st_bind (edit_document (doc_assign ops [''observation'', ''clients''] (Toml_String (client_scope_name clients)))) (\<lambda>_.
    edit_document (doc_assign ops [''observation'', ''titles''] (Toml_Bool titles))))))"

definition set_launch :: "'d document_ops \<Rightarrow> u32 \<Rightarrow> LaunchMode \<Rightarrow> string list \<Rightarrow> string list \<Rightarrow> bool
    \<Rightarrow> ('d PolicyDraft, string, unit) st" where
  "set_launch ops euid mode allow deny allow_user_entries =
    st_bind (st_try (map_err BoundError_to_string (BoundedList_new MAX_APPLICATIONS allow))) (\<lambda>allow.
    st_bind (st_try (map_err BoundError_to_string (BoundedList_new MAX_APPLICATIONS deny))) (\<lambda>deny.
    st_bind (st_get draft_raw) (\<lambda>raw.
    st_bind (replace_if_valid euid (raw\<lparr>raw_launch :=
        \<lparr>rl_mode = mode, rl_allow = allow, rl_deny = deny,
          rl_allow_user_entries = allow_user_entries\<rparr>\<rparr>)) (\<lambda>_.
    st_bind (edit_document (doc_ensure_table ops ''launch'')) (\<lambda>_.
    st_bind (edit_document (doc_assign ops [''launch'', ''mode''] (Toml_String (launch_mode_name mode)))) (\<lambda>_.
    st_bind (st_get (\<lambda>d. raw_launch (draft_raw d))) (\<lambda>launch.
    st_bind (edit_document (doc_assign ops [''launch'', ''allow''] (Toml_Array (rl_allow launch)))) (\<lambda>_.
    st_bind (edit_document (doc_assign ops [''launch'', ''deny''] (Toml_Array (rl_deny launch)))) (\<lambda>_.
    edit_document (doc_assign ops [''launch'', ''allow_user_entries''] (Toml_Bool allow_user_entries)))))))))))"

definition set_launch_mode :: "'d document_ops \<Rightarrow> u32 \<Rightarrow> LaunchMode \<Rightarrow> ('d PolicyDraft, string, unit) st" where
  "set_launch_mode ops euid mode =
    st_bind (st_get (\<lambda>d. raw_launch (draft_raw d))) (\<lambda>launch.
    set_launch ops euid mode (rl_allow launch) (rl_deny launch) (rl_allow_user_entries launch))"

definition render :: "'d document_ops \<Rightarrow> (string \<Rightarrow> string + RawConfig) \<Rightarrow> u32
    \<Rightarrow> 'd PolicyDraft \<Rightarrow> string + string" where
  "render ops toml_from_str euid d =
    (let source = doc_to_string ops (draft_document d) in
     res_bind (validate_source toml_from_str source euid) (\<lambda>_. Inr source))"

text \<open>One call of a setter.\<close>

datatype draft_edit =
  Edit_Enabled bool
| Edit_Limits u8 u16 u32
| Edit_Capabilities "Capability list"
| Edit_ClearGrant
| Edit_Observation ClientScope bool
| Edit_LaunchMode LaunchMode
| Edit_Launch LaunchMode "string list" "string list" bool

fun apply_edit :: "'d document_ops \<Rightarrow> u32 \<Rightarrow> draft_edit \<Rightarrow> ('d PolicyDraft, string, unit) st" where
  "apply_edit ops euid (Edit_Enabled en) = PolicyDraft_set_enabled ops en"
| "apply_edit ops euid (Edit_Limits s r t) = set_resource_limits ops euid s r t"
| "apply_edit ops euid (Edit_Capabilities cs) = set_capabilities ops euid cs"
| "apply_edit ops euid Edit_ClearGrant = clear_grant ops"
| "apply_edit ops euid (Edit_Observation c t) = set_observation ops euid c t"
| "apply_edit ops euid (Edit_LaunchMode m) = set_launch_mode ops euid m"
| "apply_edit ops euid (Edit_Launch m a x u) = set_launch ops euid m a x u"

section \<open>What a validated policy guarantees\<close>

text \<open>
  The specification of an acceptable policy, as the configuration file documents it: the
  capability each capability depends on, and a launch table of canonical, unrepeated identities.
\<close>

fun prerequisite :: "Capability \<Rightarrow> Capability option" where
  "prerequisite Cap_ObserveStructure = None"
| "prerequisite Cap_LaunchList = None"
| "prerequisite Cap_LaunchExecute = Some Cap_LaunchList"
| "prerequisite _ = Some Cap_ObserveStructure"

definition grant_ok :: "u32 \<Rightarrow> RawGrant \<Rightarrow> bool" where
  "grant_ok uid g \<longleftrightarrow> rg_uid g = uid \<and> distinct (rg_capabilities g)
    \<and> (\<forall>c \<in> set (rg_capabilities g). \<forall>p. prerequisite c = Some p \<longrightarrow> p \<in> set (rg_capabilities g))"

definition launch_ok :: "RawLaunch \<Rightarrow> bool" where
  "launch_ok l \<longleftrightarrow> distinct (rl_allow l) \<and> distinct (rl_deny l)
    \<and> list_all canonical_desktop_id (rl_allow l @ rl_deny l)
    \<and> set (rl_allow l) \<inter> set (rl_deny l) = {}"

definition limits_ok :: "RawConfig \<Rightarrow> bool" where
  "limits_ok r \<longleftrightarrow> unat (raw_max_sessions r) \<in> {1..32}
    \<and> unat (raw_max_requests_per_session r) \<in> {1..4096}
    \<and> unat (raw_io_timeout_ms r) \<in> {50..10000}"

lemma indexed_duplicate:
  "list_ex (\<lambda>i. xs ! i \<in> set (take i xs)) [0..<length xs] \<longleftrightarrow> \<not> distinct xs"
proof (induction xs rule: rev_induct)
  case Nil
  then show ?case by simp
next
  case (snoc x xs)
  have "list_ex (\<lambda>i. (xs @ [x]) ! i \<in> set (take i (xs @ [x]))) [0..<length xs]
    \<longleftrightarrow> list_ex (\<lambda>i. xs ! i \<in> set (take i xs)) [0..<length xs]"
    by (auto simp: list_ex_iff nth_append)
  with snoc show ?case by auto
qed

lemma Capability_all: "(\<forall>c. P c) \<longleftrightarrow>
    P Cap_ObserveStructure \<and> P Cap_ObserveTitles \<and> P Cap_ObserveEvents \<and> P
    Cap_ManageActivate \<and> P Cap_ManageClose \<and> P Cap_ManageWorkspace \<and> P
    Cap_ManageState \<and> P Cap_ManageGeometry \<and> P Cap_LaunchList \<and> P
    Cap_LaunchExecute \<and> P Cap_InputPointer \<and> P Cap_InputKeyboard \<and> P
    Cap_TextTransfer \<and> P Cap_CaptureObscured"
proof (intro iffI allI)
  fix c
  assume "P Cap_ObserveStructure \<and> P Cap_ObserveTitles \<and> P Cap_ObserveEvents \<and> P
    Cap_ManageActivate \<and> P Cap_ManageClose \<and> P Cap_ManageWorkspace \<and> P
    Cap_ManageState \<and> P Cap_ManageGeometry \<and> P Cap_LaunchList \<and> P
    Cap_LaunchExecute \<and> P Cap_InputPointer \<and> P Cap_InputKeyboard \<and> P
    Cap_TextTransfer \<and> P Cap_CaptureObscured"
  then show "P c" by (cases c) simp_all
qed simp

lemma Capability_ex: "list_ex P (cs :: Capability list) \<longleftrightarrow> \<not> (\<forall>c. c \<in> set cs \<longrightarrow> \<not> P c)"
  by (auto simp: list_ex_iff)

lemma RawGrant_validate_iff:
  "RawGrant_validate uid g = Inr grant \<longleftrightarrow>
    grant_ok uid g \<and> grant = \<lparr>grant_uid = rg_uid g, grant_capabilities = rg_capabilities g\<rparr>"
  unfolding RawGrant_validate_def grant_ok_def Let_def indexed_duplicate Ball_def
    Capability_ex Capability_all
  by (cases "Cap_ObserveStructure \<in> set (rg_capabilities g)";
      cases "Cap_LaunchExecute \<in> set (rg_capabilities g)";
      cases "Cap_LaunchList \<in> set (rg_capabilities g)") (simp_all, auto)

lemma validate_application_ids_iff:
  "validate_application_ids field prior as = Inr () \<longleftrightarrow>
    list_all canonical_desktop_id as \<and> distinct as \<and> set as \<inter> set prior = {}"
  by (induction field prior as rule: validate_application_ids.induct) auto

lemma RawLaunch_validate_iff:
  "RawLaunch_validate l = Inr p \<longleftrightarrow> launch_ok l
    \<and> p = \<lparr>lp_mode = rl_mode l, lp_allow = rl_allow l, lp_deny = rl_deny l,
      lp_allow_user_entries = rl_allow_user_entries l\<rparr>"
  by (auto simp: RawLaunch_validate_def launch_ok_def res_simps validate_application_ids_iff
      list_ex_iff)

lemma transpose_opt_Inr [simp]:
  "transpose_opt (map_option f x) = Inr y \<longleftrightarrow>
    (case x of None \<Rightarrow> y = None | Some a \<Rightarrow> \<exists>b. f a = Inr b \<and> y = Some b)"
  by (auto simp: transpose_opt_def split: option.splits sum.splits)

lemma one_le_unat_iff: "Suc 0 \<le> unat (x :: 'a::len word) \<longleftrightarrow> x \<noteq> 0"
  by (metis Suc_le_eq neq0_conv unsigned_eq_0_iff)

definition policy_ok :: "u32 \<Rightarrow> RawConfig \<Rightarrow> bool" where
  "policy_ok uid r \<longleftrightarrow> limits_ok r \<and> launch_ok (raw_launch r)
    \<and> (case raw_grant r of None \<Rightarrow> True | Some g \<Rightarrow> grant_ok uid g)"

lemma RawConfig_validate_iff:
  "RawConfig_validate uid r = Inr cfg \<longleftrightarrow> policy_ok uid r
    \<and> cfg = \<lparr>cfg_max_sessions = unat (raw_max_sessions r),
         cfg_max_requests = raw_max_requests_per_session r,
         cfg_io_timeout = unat (raw_io_timeout_ms r),
         cfg_grant = map_option (\<lambda>g. \<lparr>grant_uid = rg_uid g,
           grant_capabilities = rg_capabilities g\<rparr>) (raw_grant r),
         cfg_observation = \<lparr>obs_clients = ro_clients (raw_observation r),
           obs_titles = ro_titles (raw_observation r)\<rparr>,
         cfg_launch = \<lparr>lp_mode = rl_mode (raw_launch r), lp_allow = rl_allow (raw_launch r),
           lp_deny = rl_deny (raw_launch r),
           lp_allow_user_entries = rl_allow_user_entries (raw_launch r)\<rparr>,
         cfg_input = \<lparr>ip_provider_private_devices
           = ri_provider_private_devices (raw_input r)\<rparr>\<rparr>"
  by (auto simp: RawConfig_validate_def policy_ok_def limits_ok_def res_simps config_bounds
      RawLaunch_validate_iff RawGrant_validate_iff RawInput_validate_def
      one_le_unat_iff split: option.splits if_splits)

text \<open>
  Policy validation accepts exactly the documented policies: limits in their ranges, a grant for
  the provider's own user whose capabilities are unrepeated and closed under prerequisites, and a
  launch table of canonical unrepeated identities with no identity both allowed and denied; and the
  configuration it returns carries the accepted values unchanged.
\<close>

theorem policy_validation_exact:
  "(\<exists>cfg. RawConfig_validate uid r = Inr cfg
      \<and> cfg_max_sessions cfg = unat (raw_max_sessions r)
      \<and> cfg_max_requests cfg = raw_max_requests_per_session r
      \<and> cfg_io_timeout cfg = unat (raw_io_timeout_ms r)
      \<and> map_option grant_capabilities (cfg_grant cfg) = map_option rg_capabilities (raw_grant r)
      \<and> client_scope cfg = ro_clients (raw_observation r)
      \<and> titles_enabled cfg = ro_titles (raw_observation r))
    \<longleftrightarrow> policy_ok uid r"
  by (auto simp: RawConfig_validate_iff client_scope_def titles_enabled_def option.map_comp o_def)


section \<open>Grants and launch admission\<close>

text \<open>
  C8. A peer receives exactly what the operator granted to its own user: under a validated policy a
  session of the provider's user that has a grant gets the requested capabilities that the policy
  lists, in the order of the request, so that a canonical request gives a canonical grant; every
  other user, and everybody where the policy has no grant, gets nothing.
\<close>

theorem granted_exactly_requested_and_configured:
  assumes "RawConfig_validate provider_uid r = Inr cfg"
  shows "granted cfg uid requested =
      (case raw_grant r of
         Some g \<Rightarrow> if uid = provider_uid then Some (filter (\<lambda>c. c \<in> set (rg_capabilities g)) requested) else None
       | None \<Rightarrow> None)
    \<and> (\<forall>caps. granted cfg uid requested = Some caps \<longrightarrow> strictly_ordered requested \<longrightarrow> strictly_ordered caps)"
  using assms
  by (auto simp: RawConfig_validate_iff granted_def policy_ok_def grant_ok_def
      intro: strictly_ordered_filter split: option.splits if_splits)

lemma fresh_application: "\<exists>a. a \<notin> set (xs :: string list)"
  by (meson ex_new_if_finite infinite_UNIV_listI List.finite_set)

text \<open>
  Launch admission under a validated policy: an application is admitted exactly when it is
  listed in allow-list mode or not denied in installed mode, and user-owned entries only where the
  policy says so (allow-list mode needs no look at the deny list, the two are disjoint); and
  \<^verbatim>\<open>allows_any\<close> tells exactly whether some system entry could be admitted.
\<close>

theorem launch_admission_exact:
  assumes "RawConfig_validate provider_uid r = Inr cfg"
  shows "(permits (cfg_launch cfg) application user_entry \<longleftrightarrow>
      (user_entry \<longrightarrow> rl_allow_user_entries (raw_launch r))
      \<and> (rl_mode (raw_launch r) = Launch_AllowListed \<and> application \<in> set (rl_allow (raw_launch r))
        \<or> rl_mode (raw_launch r) = Launch_AllowInstalled
          \<and> application \<notin> set (rl_deny (raw_launch r))))
    \<and> (allows_any (cfg_launch cfg) \<longleftrightarrow> (\<exists>a. permits (cfg_launch cfg) a False))"
proof -
  have launch: "cfg_launch cfg = \<lparr>lp_mode = rl_mode (raw_launch r), lp_allow = rl_allow (raw_launch r),
      lp_deny = rl_deny (raw_launch r), lp_allow_user_entries = rl_allow_user_entries (raw_launch r)\<rparr>"
    and disjoint: "set (rl_allow (raw_launch r)) \<inter> set (rl_deny (raw_launch r)) = {}"
    using assms by (auto simp: RawConfig_validate_iff policy_ok_def launch_ok_def)
  have 1: "permits (cfg_launch cfg) a u \<longleftrightarrow>
      (u \<longrightarrow> rl_allow_user_entries (raw_launch r))
      \<and> (rl_mode (raw_launch r) = Launch_AllowListed \<and> a \<in> set (rl_allow (raw_launch r))
        \<or> rl_mode (raw_launch r) = Launch_AllowInstalled
          \<and> a \<notin> set (rl_deny (raw_launch r)))" for a u
    using disjoint by (auto simp: launch permits_def split: LaunchMode.splits)
  moreover have "allows_any (cfg_launch cfg) \<longleftrightarrow> (\<exists>a. permits (cfg_launch cfg) a False)"
    using fresh_application [of "rl_deny (raw_launch r)"]
    unfolding 1 by (auto simp: launch allows_any_def ex_in_conv split: LaunchMode.splits)
  ultimately show ?thesis by blast
qed

definition demo_policy :: RawConfig where
  "demo_policy = \<lparr>raw_enabled = True, raw_max_sessions = 4, raw_max_requests_per_session = 1024,
    raw_io_timeout_ms = 2000,
    raw_grant = Some \<lparr>rg_uid = 1000, rg_capabilities = [Cap_ManageClose, Cap_ObserveStructure]\<rparr>,
    raw_observation = \<lparr>ro_clients = Scope_CurrentWorkspace, ro_titles = False\<rparr>,
    raw_launch = \<lparr>rl_mode = Launch_AllowListed, rl_allow = [''a.desktop''], rl_deny = [''b.desktop''],
      rl_allow_user_entries = False\<rparr>,
    raw_input = \<lparr>ri_provider_private_devices = False\<rparr>\<rparr>"

lemma demo_policy_ok: "policy_ok 1000 demo_policy"
  by (simp add: policy_ok_def demo_policy_def limits_ok_def launch_ok_def grant_ok_def
      canonical_desktop_id_def ends_with_def)

lemma demo_policy_config: "\<exists>cfg. RawConfig_validate 1000 demo_policy = Inr cfg
    \<and> granted cfg 1000 [Cap_ObserveStructure, Cap_ManageActivate] = Some [Cap_ObserveStructure]"
  using demo_policy_ok by (simp add: RawConfig_validate_iff granted_def) (simp add: demo_policy_def)

theorem granted_exactly_requested_and_configured_witness:
  "\<exists>cfg. RawConfig_validate 1000 demo_policy = Inr cfg
    \<and> granted cfg 1000 [Cap_ObserveStructure, Cap_ManageActivate] = Some [Cap_ObserveStructure]
    \<and> granted cfg 1001 [Cap_ObserveStructure, Cap_ManageActivate] = None"
proof -
  obtain cfg where cfg: "RawConfig_validate 1000 demo_policy = Inr cfg"
    using demo_policy_config by blast
  show ?thesis
    using granted_exactly_requested_and_configured [OF cfg, of 1000] granted_exactly_requested_and_configured [OF cfg, of 1001] cfg
    by (simp add: demo_policy_def)
qed

theorem launch_admission_exact_witness:
  "\<exists>cfg. RawConfig_validate 1000 demo_policy = Inr cfg
    \<and> permits (cfg_launch cfg) ''a.desktop'' False \<and> \<not> permits (cfg_launch cfg) ''a.desktop'' True"
proof -
  obtain cfg where cfg: "RawConfig_validate 1000 demo_policy = Inr cfg"
    using demo_policy_config by blast
  show ?thesis
    using launch_admission_exact [OF cfg] cfg by (simp add: demo_policy_def)
qed

section \<open>Draft edits\<close>

text \<open>
  The contract of a validated editor: every command leads from an acceptable state to an acceptable
  state, and one that reports an error has written nothing. Any sequence of commands then keeps the
  state acceptable, and refused commands might as well not have been given.
\<close>

fun run_edits :: "('c \<Rightarrow> ('s, 'e, unit) st) \<Rightarrow> 'c list \<Rightarrow> 's \<Rightarrow> 's" where
  "run_edits edit [] s = s"
| "run_edits edit (c # cs) s = run_edits edit cs (snd (edit c s))"

locale validated_editor =
  fixes edit :: "'c \<Rightarrow> ('s, 'e, unit) st"
    and acceptable :: "'s \<Rightarrow> bool"
  assumes edit_acceptable: "acceptable s \<Longrightarrow> edit c s = (Inr u, t) \<Longrightarrow> acceptable t"
    and refused_unchanged: "edit c s = (Inl e, t) \<Longrightarrow> t = s"
begin

lemma run_acceptable: "acceptable s \<Longrightarrow> acceptable (run_edits edit cs s)"
proof (induction cs arbitrary: s)
  case (Cons c cs)
  obtain r t where "edit c s = (r, t)" by fastforce
  then show ?case using Cons edit_acceptable [of s c] refused_unchanged [of c s] by (cases r) auto
qed simp

lemma refused_edit_skipped:
  "edit c (run_edits edit cs s) = (Inl e, t) \<Longrightarrow> run_edits edit (cs @ c # ds) s = run_edits edit (cs @ ds) s"
  by (induction cs arbitrary: s) (auto dest: refused_unchanged)

end

lemma replace_step:
  "st_bind (replace_if_valid euid candidate) f d =
    (case RawConfig_validate euid candidate of Inl e \<Rightarrow> (Inl e, d) | Inr _ \<Rightarrow> f () (d\<lparr>draft_raw := candidate\<rparr>))"
  by (simp add: replace_if_valid_def st_bind_def st_run split: sum.split)

lemma document_step:
  "st_bind (edit_document g) f d = f () (d\<lparr>draft_document := g (draft_document d)\<rparr>)"
  "edit_document g d = (Inr (), d\<lparr>draft_document := g (draft_document d)\<rparr>)"
  by (simp_all add: edit_document_def st_bind_modify st_run)

lemmas draft_setter_defs = PolicyDraft_set_enabled_def set_resource_limits_def set_capabilities_def
  clear_grant_def set_observation_def set_launch_def set_launch_mode_def
  st_bind_unfold st_bind_modify replace_step document_step

interpretation draft: validated_editor "apply_edit ops euid" "\<lambda>d. policy_ok euid (draft_raw d)"
proof
  show "policy_ok euid (draft_raw t)"
    if "policy_ok euid (draft_raw s)" and "apply_edit ops euid c s = (Inr u, t)" for s c u and t :: "'a PolicyDraft"
    using that by (cases c)
      (auto simp: draft_setter_defs RawConfig_validate_iff split: sum.splits,
       auto simp: policy_ok_def limits_ok_def)
  show "t = s" if "apply_edit ops euid c s = (Inl e, t)" for s c e and t :: "'a PolicyDraft"
    using that by (cases c) (auto simp: draft_setter_defs split: sum.splits)
qed

lemma all_capabilities: "UNIV = set [Cap_ObserveStructure, Cap_ObserveTitles, Cap_ObserveEvents,
    Cap_ManageActivate, Cap_ManageClose, Cap_ManageWorkspace, Cap_ManageState, Cap_ManageGeometry,
    Cap_LaunchList, Cap_LaunchExecute, Cap_InputPointer, Cap_InputKeyboard, Cap_TextTransfer,
    Cap_CaptureObscured]"
  using Capability.exhaust by auto

lemma capabilities_fit: "distinct (cs :: Capability list) \<Longrightarrow> length cs \<le> MAX_POLICY_CAPABILITIES"
proof -
  assume "distinct cs"
  then have "length cs = card (set cs)" by (simp add: distinct_card)
  also have "\<dots> \<le> card (UNIV :: Capability set)"
    using all_capabilities by (intro card_mono subset_UNIV) (metis List.finite_set)
  also have "\<dots> \<le> 14"
    unfolding all_capabilities using card_length by (rule order_trans) simp
  finally show ?thesis by (simp add: MAX_POLICY_CAPABILITIES_def)
qed

text \<open>
  C35. A settings draft never leaves the provider's policy language, and its setters are all or
  nothing: after any sequence of setter calls on a valid policy, refused ones and the two that skip
  validation (the enable switch and clearing the grant) included, the draft is valid; the next call,
  if it reports an error, has changed neither the policy nor the document; and replacing the
  capabilities succeeds exactly when they are unrepeated and closed under prerequisites (the size
  bound can never refuse such a list), after which they are the draft's capabilities.
\<close>

theorem draft_edits_stay_valid:
  assumes "policy_ok euid (draft_raw d)" and "d' = run_edits (apply_edit ops euid) edits d"
  shows "policy_ok euid (draft_raw d')
    \<and> (\<forall>edit e d''. apply_edit ops euid edit d' = (Inl e, d'') \<longrightarrow> d'' = d')
    \<and> (case set_capabilities ops euid cs d' of
         (Inr _, d'') \<Rightarrow> grant_ok euid \<lparr>rg_uid = euid, rg_capabilities = cs\<rparr> \<and> draft_capabilities d'' = cs
       | (Inl _, _) \<Rightarrow> \<not> grant_ok euid \<lparr>rg_uid = euid, rg_capabilities = cs\<rparr>)"
proof -
  have ok: "policy_ok euid (draft_raw d')"
    unfolding assms(2) using assms(1) by (rule draft.run_acceptable)
  let ?raw = "(draft_raw d')\<lparr>raw_grant := Some \<lparr>rg_uid = euid, rg_capabilities = cs\<rparr>\<rparr>"
  let ?g = "grant_ok euid \<lparr>rg_uid = euid, rg_capabilities = cs\<rparr>"
  have raw: "is_ok (RawConfig_validate euid ?raw) \<longleftrightarrow> ?g"
    using ok by (auto simp: is_ok_iff RawConfig_validate_iff policy_ok_def limits_ok_def)
  have fits: "?g \<Longrightarrow> length cs \<le> MAX_POLICY_CAPABILITIES"
    using capabilities_fit [of cs] by (auto simp: grant_ok_def)
  have "case set_capabilities ops euid cs d' of (Inr _, d'') \<Rightarrow> ?g \<and> draft_capabilities d'' = cs | (Inl _, _) \<Rightarrow> \<not> ?g"
    using raw fits by (auto simp: draft_setter_defs BoundedList_new_def draft_capabilities_def is_ok_iff split: sum.splits)
  with ok show ?thesis using draft.refused_unchanged by blast
qed

definition demo_ops :: "toml_value list document_ops" where
  "demo_ops = \<lparr>doc_assign = (\<lambda>_ v d. v # d), doc_remove = (\<lambda>_ d. d), doc_ensure_table = (\<lambda>_ d. d),
     doc_to_string = (\<lambda>_. [])\<rparr>"

text \<open>A refused capability list after three edits of which one is refused, and an accepted one.\<close>

theorem draft_edits_stay_valid_witness:
  "let d' = run_edits (apply_edit demo_ops 1000) [Edit_Enabled False, Edit_Limits 0 1 50, Edit_ClearGrant]
       \<lparr>draft_raw = demo_policy, draft_document = []\<rparr> in
    policy_ok 1000 (draft_raw d') \<and> snd (set_capabilities demo_ops 1000 [Cap_LaunchExecute] d') = d'
    \<and> draft_capabilities (snd (set_capabilities demo_ops 1000 [Cap_LaunchList, Cap_LaunchExecute] d'))
      = [Cap_LaunchList, Cap_LaunchExecute]"
proof -
  define d' where "d' = run_edits (apply_edit demo_ops 1000) [Edit_Enabled False, Edit_Limits 0 1 50, Edit_ClearGrant]
       \<lparr>draft_raw = demo_policy, draft_document = []\<rparr>"
  have ok: "policy_ok 1000 (draft_raw \<lparr>draft_raw = demo_policy, draft_document = []\<rparr>)" by (simp add: demo_policy_ok)
  note holds = draft_edits_stay_valid [OF ok d'_def]
  have bad: "\<not> grant_ok 1000 \<lparr>rg_uid = 1000, rg_capabilities = [Cap_LaunchExecute]\<rparr>"
    and good: "grant_ok 1000 \<lparr>rg_uid = 1000, rg_capabilities = [Cap_LaunchList, Cap_LaunchExecute]\<rparr>"
    by (simp_all add: grant_ok_def)
  obtain r x where r: "set_capabilities demo_ops 1000 [Cap_LaunchExecute] d' = (r, x)" by fastforce
  then have edit: "apply_edit demo_ops 1000 (Edit_Capabilities [Cap_LaunchExecute]) d' = (r, x)" by simp
  obtain e where "r = Inl e" using holds [of "[Cap_LaunchExecute]"] bad r by (cases r) auto
  then have "x = d'" using holds [of "[]"] edit by blast
  moreover have "draft_capabilities (snd (set_capabilities demo_ops 1000 [Cap_LaunchList, Cap_LaunchExecute] d')) = [Cap_LaunchList, Cap_LaunchExecute]"
    using holds [of "[Cap_LaunchList, Cap_LaunchExecute]"] good by (auto split: prod.splits sum.splits)
  ultimately show ?thesis using holds [of "[]"] r unfolding d'_def [symmetric] Let_def by simp
qed

end
