(* ===== verification/Observer_Scan.thy ===== *)
theory Observer_Scan
  imports Wire_Reply Provider_Config
begin

text \<open>
  Reading the desktop from the X server (\<^verbatim>\<open>agent-seat-x11/src/observer.rs\<close>, the functions below
  \<^verbatim>\<open>scan\<close>): window-manager check, workspaces, the client list, and what is shown of each client.

  The X server and the \<^verbatim>\<open>x11rb\<close> connection are a parameter: \<open>x_server\<close> gives the reply to each
  request of one scan. A scan asks each (window, property) question once, so a reply function is
  as general as a sequence of replies read from a changing server.
\<close>

section \<open>Failures\<close>

record Failure =
  f_code :: ErrorCode
  f_retry :: Retry
  f_message :: string
  f_current_generation :: "Generation option"
  f_current_sequence :: "Sequence option"

definition failure :: "ErrorCode \<Rightarrow> Retry \<Rightarrow> string \<Rightarrow> Failure" where
  "failure code retry message = \<lparr>f_code = code, f_retry = retry, f_message = message,
    f_current_generation = None, f_current_sequence = None\<rparr>"

definition Failure_unavailable :: "string \<Rightarrow> Failure" where
  "Failure_unavailable = failure Err_Unavailable Retry_Reconnect"

definition Failure_unsupported :: "string \<Rightarrow> Failure" where
  "Failure_unsupported = failure Err_Unsupported Retry_Never"

definition Failure_invalid :: "string \<Rightarrow> Failure" where
  "Failure_invalid = failure Err_InvalidArgument Retry_Never"

definition Failure_malformed :: "string \<Rightarrow> Failure" where
  "Failure_malformed = failure Err_Malformed Retry_Reobserve"

definition Failure_too_large :: "string \<Rightarrow> Failure" where
  "Failure_too_large = failure Err_TooLarge Retry_Never"

definition Failure_internal :: "string \<Rightarrow> Failure" where
  "Failure_internal = failure Err_Internal Retry_Never"

definition Failure_resync :: "u64 \<Rightarrow> Failure" where
  "Failure_resync sequence =
    (failure Err_ResyncRequired Retry_Reobserve
      ''event cursor is outside the retained observation history'')
    \<lparr>f_current_sequence := Some sequence\<rparr>"

section \<open>The X server, as asked by one scan\<close>

datatype 'a x_reply = RequestFailed | ReplyFailed | Replied 'a

definition x_ask :: "string \<Rightarrow> string \<Rightarrow> 'a x_reply \<Rightarrow> Failure + 'a" where
  "x_ask request reply r = (case r of
      RequestFailed \<Rightarrow> Inl (Failure_unavailable request)
    | ReplyFailed \<Rightarrow> Inl (Failure_unavailable reply)
    | Replied a \<Rightarrow> Inr a)"

definition x_ok :: "'a x_reply \<Rightarrow> 'a option" where
  "x_ok r = (case r of Replied a \<Rightarrow> Some a | _ \<Rightarrow> None)"

text \<open>A \<^verbatim>\<open>GetProperty\<close> reply; \<open>pr_value32\<close> is what \<^verbatim>\<open>x11rb\<close>'s \<^verbatim>\<open>value32()\<close> yields for it.\<close>

record property_reply =
  pr_type :: u32
  pr_format :: u8
  pr_bytes_after :: u32
  pr_value :: "byte list"
  pr_value32 :: "u32 list option"

record geometry_reply =
  geo_width :: u16
  geo_height :: u16
  geo_depth :: u8

record translate_reply =
  tr_dst_x :: i16
  tr_dst_y :: i16

record x_server =
  x_get_property :: "u32 \<Rightarrow> u32 \<Rightarrow> u32 \<Rightarrow> u32 \<Rightarrow> property_reply x_reply"
  x_get_geometry :: "u32 \<Rightarrow> geometry_reply x_reply"
  x_translate_coordinates :: "u32 \<Rightarrow> u32 \<Rightarrow> translate_reply x_reply"

text \<open>Predefined X atoms (\<^verbatim>\<open>AtomEnum\<close>) and the null resource.\<close>

definition X_NONE :: u32 where "X_NONE = 0"
definition ATOM_ATOM :: u32 where "ATOM_ATOM = 4"
definition ATOM_CARDINAL :: u32 where "ATOM_CARDINAL = 6"
definition ATOM_WINDOW :: u32 where "ATOM_WINDOW = 33"

definition MAX_ROOT_ATOMS :: nat where "MAX_ROOT_ATOMS = 256"
definition MAX_CLIENT_ATOMS :: nat where "MAX_CLIENT_ATOMS = 64"
definition MAX_STARTUP_ID_BYTES :: nat where "MAX_STARTUP_ID_BYTES = 256"

record Atoms =
  at_supported :: u32
  at_client_list :: u32
  at_client_list_stacking :: u32
  at_number_of_desktops :: u32
  at_current_desktop :: u32
  at_desktop_names :: u32
  at_active_window :: u32
  at_workarea :: u32
  at_supporting_wm_check :: u32
  at_wm_visible_name :: u32
  at_wm_name :: u32
  at_wm_desktop :: u32
  at_wm_state :: u32
  at_wm_allowed_actions :: u32
  at_frame_extents :: u32
  at_moveresize_window :: u32
  at_close_window :: u32
  at_wm_protocols :: u32
  at_wm_delete_window :: u32
  at_client_leader :: u32
  at_startup_id :: u32
  at_utf8 :: u32
  at_clipboard :: u32
  at_targets :: u32
  at_text_plain_utf8 :: u32
  at_text_plain :: u32
  at_state_above :: u32
  at_state_below :: u32
  at_state_fullscreen :: u32
  at_state_hidden :: u32
  at_state_maximized_horz :: u32
  at_state_maximized_vert :: u32
  at_state_demands_attention :: u32
  at_state_sticky :: u32
  at_state_shaded :: u32
  at_action_above :: u32
  at_action_below :: u32
  at_action_fullscreen :: u32
  at_action_maximize_horz :: u32
  at_action_maximize_vert :: u32
  at_action_shade :: u32
  at_action_stick :: u32
  at_action_close :: u32
  at_action_change_desktop :: u32
  at_action_move :: u32
  at_action_resize :: u32

definition Atoms_intern :: "(string \<Rightarrow> Failure + u32) \<Rightarrow> Failure + Atoms" where
  "Atoms_intern atom =
    res_bind (atom ''_NET_SUPPORTED'') (\<lambda>a_supported.
    res_bind (atom ''_NET_CLIENT_LIST'') (\<lambda>a_client_list.
    res_bind (atom ''_NET_CLIENT_LIST_STACKING'') (\<lambda>a_client_list_stacking.
    res_bind (atom ''_NET_NUMBER_OF_DESKTOPS'') (\<lambda>a_number_of_desktops.
    res_bind (atom ''_NET_CURRENT_DESKTOP'') (\<lambda>a_current_desktop.
    res_bind (atom ''_NET_DESKTOP_NAMES'') (\<lambda>a_desktop_names.
    res_bind (atom ''_NET_ACTIVE_WINDOW'') (\<lambda>a_active_window.
    res_bind (atom ''_NET_WORKAREA'') (\<lambda>a_workarea.
    res_bind (atom ''_NET_SUPPORTING_WM_CHECK'') (\<lambda>a_supporting_wm_check.
    res_bind (atom ''_NET_WM_VISIBLE_NAME'') (\<lambda>a_wm_visible_name.
    res_bind (atom ''_NET_WM_NAME'') (\<lambda>a_wm_name.
    res_bind (atom ''_NET_WM_DESKTOP'') (\<lambda>a_wm_desktop.
    res_bind (atom ''_NET_WM_STATE'') (\<lambda>a_wm_state.
    res_bind (atom ''_NET_WM_ALLOWED_ACTIONS'') (\<lambda>a_wm_allowed_actions.
    res_bind (atom ''_NET_FRAME_EXTENTS'') (\<lambda>a_frame_extents.
    res_bind (atom ''_NET_MOVERESIZE_WINDOW'') (\<lambda>a_moveresize_window.
    res_bind (atom ''_NET_CLOSE_WINDOW'') (\<lambda>a_close_window.
    res_bind (atom ''WM_PROTOCOLS'') (\<lambda>a_wm_protocols.
    res_bind (atom ''WM_DELETE_WINDOW'') (\<lambda>a_wm_delete_window.
    res_bind (atom ''WM_CLIENT_LEADER'') (\<lambda>a_client_leader.
    res_bind (atom ''_NET_STARTUP_ID'') (\<lambda>a_startup_id.
    res_bind (atom ''UTF8_STRING'') (\<lambda>a_utf8.
    res_bind (atom ''CLIPBOARD'') (\<lambda>a_clipboard.
    res_bind (atom ''TARGETS'') (\<lambda>a_targets.
    res_bind (atom ''text/plain;charset=utf-8'') (\<lambda>a_text_plain_utf8.
    res_bind (atom ''text/plain'') (\<lambda>a_text_plain.
    res_bind (atom ''_NET_WM_STATE_ABOVE'') (\<lambda>a_state_above.
    res_bind (atom ''_NET_WM_STATE_BELOW'') (\<lambda>a_state_below.
    res_bind (atom ''_NET_WM_STATE_FULLSCREEN'') (\<lambda>a_state_fullscreen.
    res_bind (atom ''_NET_WM_STATE_HIDDEN'') (\<lambda>a_state_hidden.
    res_bind (atom ''_NET_WM_STATE_MAXIMIZED_HORZ'') (\<lambda>a_state_maximized_horz.
    res_bind (atom ''_NET_WM_STATE_MAXIMIZED_VERT'') (\<lambda>a_state_maximized_vert.
    res_bind (atom ''_NET_WM_STATE_DEMANDS_ATTENTION'') (\<lambda>a_state_demands_attention.
    res_bind (atom ''_NET_WM_STATE_STICKY'') (\<lambda>a_state_sticky.
    res_bind (atom ''_NET_WM_STATE_SHADED'') (\<lambda>a_state_shaded.
    res_bind (atom ''_NET_WM_ACTION_ABOVE'') (\<lambda>a_action_above.
    res_bind (atom ''_NET_WM_ACTION_BELOW'') (\<lambda>a_action_below.
    res_bind (atom ''_NET_WM_ACTION_FULLSCREEN'') (\<lambda>a_action_fullscreen.
    res_bind (atom ''_NET_WM_ACTION_MAXIMIZE_HORZ'') (\<lambda>a_action_maximize_horz.
    res_bind (atom ''_NET_WM_ACTION_MAXIMIZE_VERT'') (\<lambda>a_action_maximize_vert.
    res_bind (atom ''_NET_WM_ACTION_SHADE'') (\<lambda>a_action_shade.
    res_bind (atom ''_NET_WM_ACTION_STICK'') (\<lambda>a_action_stick.
    res_bind (atom ''_NET_WM_ACTION_CLOSE'') (\<lambda>a_action_close.
    res_bind (atom ''_NET_WM_ACTION_CHANGE_DESKTOP'') (\<lambda>a_action_change_desktop.
    res_bind (atom ''_NET_WM_ACTION_MOVE'') (\<lambda>a_action_move.
    res_bind (atom ''_NET_WM_ACTION_RESIZE'') (\<lambda>a_action_resize.
    Inr \<lparr>at_supported = a_supported, at_client_list = a_client_list, at_client_list_stacking =
      a_client_list_stacking, at_number_of_desktops = a_number_of_desktops, at_current_desktop =
      a_current_desktop, at_desktop_names = a_desktop_names, at_active_window = a_active_window,
      at_workarea = a_workarea, at_supporting_wm_check = a_supporting_wm_check, at_wm_visible_name
      = a_wm_visible_name, at_wm_name = a_wm_name, at_wm_desktop = a_wm_desktop, at_wm_state =
      a_wm_state, at_wm_allowed_actions = a_wm_allowed_actions, at_frame_extents =
      a_frame_extents, at_moveresize_window = a_moveresize_window, at_close_window =
      a_close_window, at_wm_protocols = a_wm_protocols, at_wm_delete_window = a_wm_delete_window,
      at_client_leader = a_client_leader, at_startup_id = a_startup_id, at_utf8 = a_utf8,
      at_clipboard = a_clipboard, at_targets = a_targets, at_text_plain_utf8 = a_text_plain_utf8,
      at_text_plain = a_text_plain, at_state_above = a_state_above, at_state_below =
      a_state_below, at_state_fullscreen = a_state_fullscreen, at_state_hidden = a_state_hidden,
      at_state_maximized_horz = a_state_maximized_horz, at_state_maximized_vert =
      a_state_maximized_vert, at_state_demands_attention = a_state_demands_attention,
      at_state_sticky = a_state_sticky, at_state_shaded = a_state_shaded, at_action_above =
      a_action_above, at_action_below = a_action_below, at_action_fullscreen =
      a_action_fullscreen, at_action_maximize_horz = a_action_maximize_horz,
      at_action_maximize_vert = a_action_maximize_vert, at_action_shade = a_action_shade,
      at_action_stick = a_action_stick, at_action_close = a_action_close, at_action_change_desktop
      = a_action_change_desktop, at_action_move = a_action_move, at_action_resize =
      a_action_resize\<rparr>))))))))))))))))))))))))))))))))))))))))))))))"

section \<open>Bounded property reads\<close>

definition u32_try_from :: "nat \<Rightarrow> u32 option" where
  "u32_try_from n = (if n < 2 ^ 32 then Some (of_nat n) else None)"

definition property32 :: "x_server \<Rightarrow> u32 \<Rightarrow> u32 \<Rightarrow> u32 \<Rightarrow> nat \<Rightarrow> Failure + u32 list option" where
  "property32 x window property expected_type max_items =
    res_bind (ok_or (u32_try_from max_items)
      (Failure_internal ''property item bound cannot be represented'')) (\<lambda>long_length.
    res_bind (x_ask ''cannot request an X11 property'' ''cannot read an X11 property''
      (x_get_property x window property expected_type long_length)) (\<lambda>reply.
    if pr_type reply = X_NONE then Inr None
    else if pr_type reply \<noteq> expected_type \<or> pr_format reply \<noteq> 32
    then Inl (Failure_malformed ''an EWMH property has the wrong type or format'')
    else if pr_bytes_after reply \<noteq> 0
    then Inl (Failure_too_large ''an EWMH property exceeds its public bound'')
    else
      res_bind (ok_or (pr_value32 reply) (Failure_malformed ''an EWMH property is not 32-bit''))
      (\<lambda>values.
        if length values > max_items
        then Inl (Failure_too_large ''an EWMH property exceeds its public bound'')
        else Inr (Some values))))"

definition property_bytes :: "x_server \<Rightarrow> u32 \<Rightarrow> u32 \<Rightarrow> u32 \<Rightarrow> nat \<Rightarrow> Failure + byte list option" where
  "property_bytes x window property expected_type max_bytes =
    res_bind (ok_or (if max_bytes + 3 \<le> usize_MAX then u32_try_from ((max_bytes + 3) div 4) else None)
      (Failure_internal ''property byte bound cannot be represented'')) (\<lambda>longs.
    res_bind (x_ask ''cannot request an X11 text property'' ''cannot read an X11 text property''
      (x_get_property x window property expected_type longs)) (\<lambda>reply.
    if pr_type reply = X_NONE then Inr None
    else if pr_type reply \<noteq> expected_type \<or> pr_format reply \<noteq> 8
    then Inl (Failure_malformed ''an EWMH text property has the wrong type or format'')
    else if pr_bytes_after reply \<noteq> 0 \<or> length (pr_value reply) > max_bytes
    then Inl (Failure_too_large ''an EWMH text property exceeds its public bound'')
    else Inr (Some (pr_value reply))))"

text \<open>\<^verbatim>\<open>.ok().flatten()\<close>\<close>

definition ok_flatten :: "'e + 'a option \<Rightarrow> 'a option" where
  "ok_flatten r = (case r of Inl _ \<Rightarrow> None | Inr v \<Rightarrow> v)"

definition unwrap_or :: "'a \<Rightarrow> 'a option \<Rightarrow> 'a" where
  "unwrap_or d v = (case v of None \<Rightarrow> d | Some a \<Rightarrow> a)"

definition optional_cardinal :: "x_server \<Rightarrow> u32 \<Rightarrow> u32 \<Rightarrow> u32 option" where
  "optional_cardinal x window property =
    (case ok_flatten (property32 x window property ATOM_CARDINAL 1) of
       Some [v] \<Rightarrow> Some v
     | _ \<Rightarrow> None)"

definition optional_window :: "x_server \<Rightarrow> u32 \<Rightarrow> u32 \<Rightarrow> u32 option" where
  "optional_window x window property =
    (case ok_flatten (property32 x window property ATOM_WINDOW 1) of
       Some [v] \<Rightarrow> if v \<noteq> X_NONE then Some v else None
     | _ \<Rightarrow> None)"

definition required_cardinal :: "x_server \<Rightarrow> u32 \<Rightarrow> u32 \<Rightarrow> Failure + u32" where
  "required_cardinal x window property =
    ok_or (optional_cardinal x window property)
      (Failure_unsupported ''required EWMH workspace property is unavailable'')"

definition i32_try_from :: "u32 \<Rightarrow> i32 option" where
  "i32_try_from v = (if unat v < 2 ^ 31 then Some v else None)"

fun rect_from_cardinals :: "u32 list \<Rightarrow> Rect option" where
  "rect_from_cardinals (a # b # c # d # _) =
    (case (i32_try_from a, i32_try_from b) of
       (Some x, Some y) \<Rightarrow>
         if c \<noteq> 0 \<and> d \<noteq> 0
         then Some \<lparr>rect_x = x, rect_y = y, rect_width = c, rect_height = d\<rparr> else None
     | _ \<Rightarrow> None)"
| "rect_from_cardinals _ = None"

section \<open>Workspaces\<close>

definition validate_wm :: "x_server \<Rightarrow> u32 \<Rightarrow> Atoms \<Rightarrow> Failure + unit" where
  "validate_wm x root atoms =
    (case optional_window x root (at_supporting_wm_check atoms) of
       None \<Rightarrow> Inl (Failure_unsupported ''no conforming EWMH window manager is active'')
     | Some check \<Rightarrow>
         if optional_window x check (at_supporting_wm_check atoms) \<noteq> Some check
         then Inl (Failure_unsupported ''the EWMH window-manager check is stale'')
         else Inr ())"

text \<open>
  \<^verbatim>\<open>std::str::from_utf8\<close>: the well-formed byte sequences of the Unicode standard. A \<^verbatim>\<open>str\<close> is modelled
  by its bytes.
\<close>

definition cont_byte :: "nat \<Rightarrow> bool" where
  "cont_byte b \<longleftrightarrow> 0x80 \<le> b \<and> b \<le> 0xBF"

fun utf8_wellformed :: "nat list \<Rightarrow> bool" where
  "utf8_wellformed [] = True"
| "utf8_wellformed (a # bs) =
    (if a < 0x80 then utf8_wellformed bs
     else if 0xC2 \<le> a \<and> a \<le> 0xDF then
       (case bs of b # cs \<Rightarrow> cont_byte b \<and> utf8_wellformed cs | _ \<Rightarrow> False)
     else if 0xE0 \<le> a \<and> a \<le> 0xEF then
       (case bs of b # c # cs \<Rightarrow> cont_byte b \<and> cont_byte c \<and> (a = 0xE0 \<longrightarrow> 0xA0 \<le> b)
          \<and> (a = 0xED \<longrightarrow> b \<le> 0x9F) \<and> utf8_wellformed cs | _ \<Rightarrow> False)
     else if 0xF0 \<le> a \<and> a \<le> 0xF4 then
       (case bs of b # c # d # cs \<Rightarrow> cont_byte b \<and> cont_byte c \<and> cont_byte d
          \<and> (a = 0xF0 \<longrightarrow> 0x90 \<le> b) \<and> (a = 0xF4 \<longrightarrow> b \<le> 0x8F) \<and> utf8_wellformed cs | _ \<Rightarrow> False)
     else False)"

definition from_utf8 :: "byte list \<Rightarrow> string option" where
  "from_utf8 bs = (if utf8_wellformed (map unat bs) then Some (map (\<lambda>b. char_of (unat b)) bs) else None)"

text \<open>Non-empty UTF-8 within a bound; the shape shared by titles and workspace names.\<close>

definition bounded_name :: "nat \<Rightarrow> byte list \<Rightarrow> string option" where
  "bounded_name limit bytes =
    Option.bind (from_utf8 bytes) (\<lambda>name.
      if name = [] then None
      else (case BoundedText_new limit name of Inl _ \<Rightarrow> None | Inr n \<Rightarrow> Some n))"

definition parse_workspace_names :: "byte list \<Rightarrow> nat \<Rightarrow> string option list" where
  "parse_workspace_names bytes count =
    (let names = map (bounded_name MAX_WORKSPACE_NAME_BYTES) (take count (split_on 0 bytes)) in
     take count names @ replicate (count - length names) None)"

definition read_workspaces ::
    "x_server \<Rightarrow> u32 \<Rightarrow> Atoms \<Rightarrow> u32 \<Rightarrow> Failure + WorkspaceDescriptor list" where
  "read_workspaces x root atoms count =
    (let n = unat count;
       names = (case ok_flatten (property_bytes x root (at_desktop_names atoms) (at_utf8 atoms)
           (MAX_WORKSPACES * (MAX_WORKSPACE_NAME_BYTES + 1))) of
         Some bytes \<Rightarrow> parse_workspace_names bytes n
       | None \<Rightarrow> replicate n None);
       work_areas = unwrap_or [] (ok_flatten (property32 x root (at_workarea atoms) ATOM_CARDINAL
         (MAX_WORKSPACES * 4)))
     in
     if n > 65536 then Inl (Failure_internal ''workspace index exceeded its bound'')
     else Inr (map (\<lambda>index.
       \<lparr>wd_id = of_nat index,
        wd_name = (if index < length names then names ! index else None),
        wd_work_area =
          (if index * 4 + 4 \<le> length work_areas
           then rect_from_cardinals (take 4 (drop (index * 4) work_areas)) else None)\<rparr>) [0..<n]))"


section \<open>Clients\<close>

text \<open>The \<^verbatim>\<open>filter\<close> with a growing \<^verbatim>\<open>seen\<close> set: first occurrences of the non-null windows.\<close>

fun first_windows :: "u32 list \<Rightarrow> u32 list \<Rightarrow> u32 list" where
  "first_windows seen [] = []"
| "first_windows seen (xid # xids) =
    (if xid \<noteq> X_NONE \<and> xid \<notin> set seen then xid # first_windows (xid # seen) xids
     else first_windows seen xids)"

definition client_list :: "x_server \<Rightarrow> u32 \<Rightarrow> Atoms \<Rightarrow> Failure + u32 list" where
  "client_list x root atoms =
    res_bind (property32 x root (at_client_list_stacking atoms) ATOM_WINDOW MAX_CLIENTS) (\<lambda>stacking.
    res_bind (case stacking of
        Some clients \<Rightarrow> Inr clients
      | None \<Rightarrow> map_ok (unwrap_or [])
          (property32 x root (at_client_list atoms) ATOM_WINDOW MAX_CLIENTS)) (\<lambda>clients.
    Inr (first_windows [] clients)))"

definition atom_list :: "x_server \<Rightarrow> u32 \<Rightarrow> u32 \<Rightarrow> u32 list" where
  "atom_list x xid property =
    unwrap_or [] (ok_flatten (property32 x xid property ATOM_ATOM MAX_CLIENT_ATOMS))"

definition client_states :: "x_server \<Rightarrow> u32 \<Rightarrow> Atoms \<Rightarrow> ClientState list" where
  "client_states x xid atoms =
    (let values = atom_list x xid (at_wm_state atoms) in
     map snd (filter (\<lambda>(atom, state). atom \<in> set values)
       [(at_state_above atoms, State_Above),
        (at_state_below atoms, State_Below),
        (at_state_fullscreen atoms, State_Fullscreen),
        (at_state_hidden atoms, State_Hidden),
        (at_state_maximized_horz atoms, State_MaximizedHorizontal),
        (at_state_maximized_vert atoms, State_MaximizedVertical),
        (at_state_demands_attention atoms, State_DemandsAttention),
        (at_state_sticky atoms, State_Sticky),
        (at_state_shaded atoms, State_Shaded)]))"

datatype Placement = Place_Workspace WorkspaceId | Place_Sticky | Place_Unknown

definition client_placement :: "x_server \<Rightarrow> u32 \<Rightarrow> Atoms \<Rightarrow> ClientState list \<Rightarrow> u32 \<Rightarrow> Placement" where
  "client_placement x xid atoms states workspace_count =
    (if State_Sticky \<in> set states then Place_Sticky
     else (case optional_cardinal x xid (at_wm_desktop atoms) of
         Some workspace \<Rightarrow>
           if workspace = - 1 then Place_Sticky
           else if workspace < workspace_count \<and> unat workspace \<le> 65535
           then Place_Workspace (ucast workspace)
           else Place_Unknown
       | None \<Rightarrow> Place_Unknown))"

fun first_title :: "x_server \<Rightarrow> u32 \<Rightarrow> Atoms \<Rightarrow> u32 list \<Rightarrow> string option" where
  "first_title x xid atoms [] = None"
| "first_title x xid atoms (property # rest) =
    (case Option.bind (ok_flatten (property_bytes x xid property (at_utf8 atoms) MAX_TITLE_BYTES))
        (bounded_name MAX_TITLE_BYTES) of
       Some title \<Rightarrow> Some title
     | None \<Rightarrow> first_title x xid atoms rest)"

definition client_title :: "x_server \<Rightarrow> u32 \<Rightarrow> Atoms \<Rightarrow> string option" where
  "client_title x xid atoms = first_title x xid atoms [at_wm_visible_name atoms, at_wm_name atoms]"

definition client_startup_id_matches :: "x_server \<Rightarrow> u32 \<Rightarrow> Atoms \<Rightarrow> byte list \<Rightarrow> bool" where
  "client_startup_id_matches x xid atoms expected =
    list_ex (\<lambda>window.
        ok_flatten (property_bytes x window (at_startup_id atoms) (at_utf8 atoms)
          MAX_STARTUP_ID_BYTES) = Some expected)
      (case optional_window x xid (at_client_leader atoms) of
         None \<Rightarrow> [xid] | Some leader \<Rightarrow> [xid, leader])"

definition client_actions :: "x_server \<Rightarrow> u32 \<Rightarrow> Atoms \<Rightarrow> u32 list \<Rightarrow> ClientAction list" where
  "client_actions x xid atoms supported =
    (let allowed = set (atom_list x xid (at_wm_allowed_actions atoms));
       protocols = set (atom_list x xid (at_wm_protocols atoms));
       supports = (\<lambda>a. a \<in> set supported)
     in
     (if supports (at_active_window atoms) then [Act_Activate] else [])
     @ (if supports (at_close_window atoms) \<and> at_action_close atoms \<in> allowed
          \<and> at_wm_delete_window atoms \<in> protocols then [Act_Close] else [])
     @ (if supports (at_wm_desktop atoms) \<and> at_action_change_desktop atoms \<in> allowed
        then [Act_ChangeWorkspace] else [])
     @ (if supports (at_wm_state atoms)
          \<and> (supports (at_state_demands_attention atoms)
             \<or> list_ex (\<lambda>(action, state). action \<in> allowed \<and> supports state)
                 [(at_action_above atoms, at_state_above atoms),
                  (at_action_below atoms, at_state_below atoms),
                  (at_action_fullscreen atoms, at_state_fullscreen atoms),
                  (at_action_maximize_horz atoms, at_state_maximized_horz atoms),
                  (at_action_maximize_vert atoms, at_state_maximized_vert atoms),
                  (at_action_shade atoms, at_state_shaded atoms),
                  (at_action_stick atoms, at_state_sticky atoms)])
        then [Act_ChangeState] else [])
     @ (if supports (at_moveresize_window atoms)
          \<and> (at_action_move atoms \<in> allowed \<or> at_action_resize atoms \<in> allowed)
        then [Act_ChangeGeometry] else []))"

definition client_frame_extents :: "x_server \<Rightarrow> u32 \<Rightarrow> Atoms \<Rightarrow> u32 \<times> u32 \<times> u32 \<times> u32" where
  "client_frame_extents x xid atoms =
    (case ok_flatten (property32 x xid (at_frame_extents atoms) ATOM_CARDINAL 4) of
       Some [a, b, c, d] \<Rightarrow> (a, b, c, d)
     | _ \<Rightarrow> (0, 0, 0, 0))"

text \<open>\<^verbatim>\<open>i32::checked_sub\<close>, on signed readings.\<close>

definition checked_sub_i32 :: "i32 \<Rightarrow> i32 \<Rightarrow> i32 option" where
  "checked_sub_i32 a b =
    (if - (2 ^ 31) \<le> sint a - sint b \<and> sint a - sint b < 2 ^ 31 then Some (a - b) else None)"

definition client_frame :: "x_server \<Rightarrow> u32 \<Rightarrow> u32 \<Rightarrow> Atoms \<Rightarrow> Rect option" where
  "client_frame x root xid atoms =
    Option.bind (x_ok (x_get_geometry x xid)) (\<lambda>geometry.
    Option.bind (x_ok (x_translate_coordinates x xid root)) (\<lambda>translated.
    let (left_extent, right, top_extent, bottom) = client_frame_extents x xid atoms in
    Option.bind (i32_try_from left_extent) (\<lambda>left.
    Option.bind (i32_try_from top_extent) (\<lambda>top.
    Option.bind (checked_sub_i32 (scast (tr_dst_x translated)) left) (\<lambda>rx.
    Option.bind (checked_sub_i32 (scast (tr_dst_y translated)) top) (\<lambda>ry.
    Option.bind (Option.bind (checked_add (ucast (geo_width geometry)) left_extent)
      (\<lambda>w. checked_add w right)) (\<lambda>width.
    Option.bind (Option.bind (checked_add (ucast (geo_height geometry)) top_extent)
      (\<lambda>h. checked_add h bottom)) (\<lambda>height.
    Some \<lparr>rect_x = rx, rect_y = ry, rect_width = width, rect_height = height\<rparr>))))))))"

record RawClient =
  rc_xid :: u32
  rc_title :: "string option"
  rc_workspace :: "WorkspaceId option"
  rc_frame :: "Rect option"
  rc_states :: "ClientState list"
  rc_actions :: "ClientAction list"

record RawDesktop =
  rd_current_workspace :: WorkspaceId
  rd_workspaces :: "WorkspaceDescriptor list"
  rd_clients :: "RawClient list"
  rd_active :: "u32 option"

definition read_client :: "x_server \<Rightarrow> u32 \<Rightarrow> Atoms \<Rightarrow> u32 list \<Rightarrow> u32 \<Rightarrow> WorkspaceId \<Rightarrow> u32
    \<Rightarrow> ClientScope \<Rightarrow> bool \<Rightarrow> RawClient option" where
  "read_client x root atoms supported xid current_workspace workspace_count scope show_titles =
    (let states = client_states x xid atoms;
       placement = client_placement x xid atoms states workspace_count;
       in_scope = (case scope of
           Scope_None \<Rightarrow> False
         | Scope_AllWorkspaces \<Rightarrow> True
         | Scope_CurrentWorkspace \<Rightarrow> (case placement of
               Place_Sticky \<Rightarrow> True
             | Place_Workspace workspace \<Rightarrow> workspace = current_workspace
             | Place_Unknown \<Rightarrow> False))
     in
     if \<not> in_scope then None
     else Some
       \<lparr>rc_xid = xid,
        rc_title = (if show_titles then client_title x xid atoms else None),
        rc_workspace = (case placement of
            Place_Workspace workspace \<Rightarrow> Some workspace
          | Place_Sticky \<Rightarrow> None
          | Place_Unknown \<Rightarrow> None),
        rc_frame = client_frame x root xid atoms,
        rc_states = states,
        rc_actions = client_actions x xid atoms supported\<rparr>)"

definition scan :: "x_server \<Rightarrow> u32 \<Rightarrow> Atoms \<Rightarrow> ClientScope \<Rightarrow> bool \<Rightarrow> Failure + RawDesktop" where
  "scan x root atoms scope show_titles =
    res_bind (validate_wm x root atoms) (\<lambda>_.
    res_bind (required_cardinal x root (at_number_of_desktops atoms)) (\<lambda>workspace_count.
    if workspace_count = 0 \<or> unat workspace_count > MAX_WORKSPACES
    then Inl (Failure_too_large ''workspace count is outside the public bound'')
    else
      res_bind (required_cardinal x root (at_current_desktop atoms)) (\<lambda>current.
      if current \<ge> workspace_count \<or> unat current > 65535
      then Inl (Failure_malformed ''current workspace is outside the advertised range'')
      else
        let current_workspace = ucast current in
        res_bind (read_workspaces x root atoms workspace_count) (\<lambda>workspaces.
        res_bind (map_ok (unwrap_or [])
          (property32 x root (at_supported atoms) ATOM_ATOM MAX_ROOT_ATOMS)) (\<lambda>supported.
        res_bind (case scope of
            Scope_None \<Rightarrow> Inr []
          | _ \<Rightarrow> map_ok (List.map_filter (\<lambda>xid. read_client x root atoms supported xid
              current_workspace workspace_count scope show_titles)) (client_list x root atoms))
        (\<lambda>clients.
        Inr \<lparr>rd_current_workspace = current_workspace,
          rd_workspaces = workspaces,
          rd_clients = clients,
          rd_active = (case optional_window x root (at_active_window atoms) of
              Some xid \<Rightarrow> if xid \<in> set (map rc_xid clients) then Some xid else None
            | None \<Rightarrow> None)\<rparr>))))))"


section \<open>What a scan guarantees\<close>

lemma ok_flatten_Some [simp]: "ok_flatten r = Some v \<longleftrightarrow> r = Inr (Some v)"
  by (cases r) (auto simp: ok_flatten_def)

lemma property32_bound: "property32 x w p t n = Inr (Some vs) \<Longrightarrow> length vs \<le> n"
  by (auto simp: property32_def res_simps split: if_splits)

lemma first_windows_fresh:
  "distinct (first_windows seen xs) \<and> set (first_windows seen xs) = set xs - {X_NONE} - set seen"
  by (induction seen xs rule: first_windows.induct) auto

lemma first_windows_length: "length (first_windows seen xs) \<le> length xs"
  by (induction seen xs rule: first_windows.induct) auto

lemma client_list_ok:
  assumes "client_list x root atoms = Inr xids"
  shows "distinct xids" and "X_NONE \<notin> set xids" and "length xids \<le> MAX_CLIENTS"
proof -
  have bounded: "length (unwrap_or [] vs) \<le> n" if "property32 x w p t n = Inr vs" for w p t n vs
    using that property32_bound by (cases vs) (auto simp: unwrap_or_def)
  obtain stacking where stacking:
      "property32 x root (at_client_list_stacking atoms) ATOM_WINDOW MAX_CLIENTS = Inr stacking"
    using assms by (auto simp: client_list_def res_simps)
  then obtain clients where clients: "xids = first_windows [] clients" "length clients \<le> MAX_CLIENTS"
    using assms property32_bound bounded
    by (cases stacking) (auto simp: client_list_def res_simps)
  show "distinct xids" and "X_NONE \<notin> set xids"
    using first_windows_fresh [of "[]" clients] clients(1) by simp_all
  show "length xids \<le> MAX_CLIENTS"
    using first_windows_length [of "[]" clients] clients by simp
qed

lemma client_states_ordered: "strictly_ordered (client_states x xid atoms)"
proof -
  have "strictly_ordered (map snd (filter P
      [(a1, State_Above), (a2, State_Below), (a3, State_Fullscreen), (a4, State_Hidden),
       (a5, State_MaximizedHorizontal), (a6, State_MaximizedVertical),
       (a7, State_DemandsAttention), (a8, State_Sticky), (a9, State_Shaded)]))"
    for P and a1 a2 a3 a4 a5 a6 a7 a8 a9 :: u32
    unfolding strictly_ordered_sorted_wrt sorted_wrt_map
    by (rule sorted_wrt_filter) (simp add: less_ClientState_def)
  then show ?thesis
    by (simp only: client_states_def Let_def)
qed

lemma client_actions_ordered: "strictly_ordered (client_actions x xid atoms supported)"
proof -
  have "strictly_ordered ((if a then [Act_Activate] else []) @ (if b then [Act_Close] else [])
      @ (if c then [Act_ChangeWorkspace] else []) @ (if d then [Act_ChangeState] else [])
      @ (if e then [Act_ChangeGeometry] else []))" for a b c d e
    by (cases a; cases b; cases c; cases d; cases e) (simp_all add: less_ClientAction_def)
  then show ?thesis
    by (simp only: client_actions_def Let_def)
qed

lemma client_states_length: "length (client_states x xid atoms) \<le> 9"
  unfolding client_states_def Let_def length_map by (rule order_trans [OF length_filter_le]) simp

lemma client_actions_length: "length (client_actions x xid atoms supported) \<le> 5"
  by (simp add: client_actions_def Let_def)

lemma bounded_name_nonempty: "bounded_name limit bytes = Some n \<Longrightarrow> n \<noteq> [] \<and> length n \<le> limit"
  by (auto simp: bounded_name_def BoundedText_new_def split: bind_splits if_splits)

lemma client_title_nonempty: "client_title x xid atoms \<noteq> Some []"
  by (auto simp: client_title_def dest: bounded_name_nonempty split: option.splits bind_splits)

text \<open>The X protocol gives every window a non-zero width and height.\<close>

definition nonzero_geometry :: "x_server \<Rightarrow> bool" where
  "nonzero_geometry x \<longleftrightarrow>
    (\<forall>w g. x_get_geometry x w = Replied g \<longrightarrow> geo_width g \<noteq> 0 \<and> geo_height g \<noteq> 0)"

lemma checked_add_nonzero: "checked_add a b = Some c \<Longrightarrow> a \<noteq> 0 \<Longrightarrow> c \<noteq> (0 :: 'a::len word)"
  unfolding checked_add_Some_iff by (metis add_is_0 unsigned_0 unsigned_eq_0_iff)

lemma ucast_u16_nonzero: "w \<noteq> 0 \<Longrightarrow> (ucast (w :: u16) :: u32) \<noteq> 0"
  using unat_bound [of w]
  by (auto simp: word_unat_eq_iff unsigned_ucast_eq take_bit_nat_eq_self simp del: unsigned_less)

lemma client_frame_valid:
  assumes "nonzero_geometry x"
  shows "validate_optional validate_Rect (client_frame x root xid atoms) = Inr ()"
proof (cases "client_frame x root xid atoms")
  case None
  then show ?thesis by (simp add: validate_optional_def)
next
  case (Some r)
  then obtain g a b c d w h where g: "x_get_geometry x xid = Replied g"
    and w: "checked_add (ucast (geo_width g)) a = Some w" "checked_add w b = Some (rect_width r)"
    and h: "checked_add (ucast (geo_height g)) c = Some h" "checked_add h d = Some (rect_height r)"
    by (auto simp: client_frame_def x_ok_def split: bind_splits x_reply.splits prod.splits)
  have "geo_width g \<noteq> 0" and "geo_height g \<noteq> 0"
    using assms g by (auto simp: nonzero_geometry_def)
  then have "rect_width r \<noteq> 0" and "rect_height r \<noteq> 0"
    using checked_add_nonzero ucast_u16_nonzero w h by metis+
  with Some show ?thesis
    by (simp add: validate_optional_def validate_Rect_def)
qed


text \<open>What the model below relies on in a scanned desktop.\<close>

definition raw_desktop_ok :: "RawDesktop \<Rightarrow> bool" where
  "raw_desktop_ok raw \<longleftrightarrow>
    length (rd_workspaces raw) \<le> MAX_WORKSPACES
    \<and> distinct (map wd_id (rd_workspaces raw))
    \<and> rd_current_workspace raw \<in> set (map wd_id (rd_workspaces raw))
    \<and> list_all (\<lambda>w. validate_WorkspaceDescriptor w = Inr ()) (rd_workspaces raw)
    \<and> length (rd_clients raw) \<le> MAX_CLIENTS
    \<and> distinct (map rc_xid (rd_clients raw))
    \<and> list_all (\<lambda>c. length (rc_states c) \<le> 16 \<and> length (rc_actions c) \<le> 8
        \<and> strictly_ordered (rc_states c) \<and> strictly_ordered (rc_actions c)
        \<and> rc_title c \<noteq> Some [] \<and> validate_optional validate_Rect (rc_frame c) = Inr ())
        (rd_clients raw)"

lemma rect_from_cardinals_valid: "rect_from_cardinals vs = Some r \<Longrightarrow> validate_Rect r = Inr ()"
  by (cases vs rule: rect_from_cardinals.cases)
    (auto simp: validate_Rect_def split: option.splits if_splits)

lemma parse_workspace_names_nonempty: "Some [] \<notin> set (parse_workspace_names bytes count)"
  by (auto simp: parse_workspace_names_def Let_def dest!: in_set_takeD)
    (metis bounded_name_nonempty)

lemma read_workspaces_ok:
  assumes "read_workspaces x root atoms count = Inr ws"
  shows "map wd_id ws = map of_nat [0..<unat count]"
    and "list_all (\<lambda>w. validate_WorkspaceDescriptor w = Inr ()) ws"
proof -
  define names where "names = (case ok_flatten (property_bytes x root (at_desktop_names atoms)
      (at_utf8 atoms) (MAX_WORKSPACES * (MAX_WORKSPACE_NAME_BYTES + 1))) of
      Some bytes \<Rightarrow> parse_workspace_names bytes (unat count) | None \<Rightarrow> replicate (unat count) None)"
  define areas where "areas = unwrap_or [] (ok_flatten (property32 x root (at_workarea atoms)
      ATOM_CARDINAL (MAX_WORKSPACES * 4)))"
  have ws: "ws = map (\<lambda>index. \<lparr>wd_id = of_nat index,
      wd_name = (if index < length names then names ! index else None),
      wd_work_area = (if index * 4 + 4 \<le> length areas
        then rect_from_cardinals (take 4 (drop (index * 4) areas)) else None)\<rparr>) [0..<unat count]"
    using assms unfolding read_workspaces_def names_def areas_def Let_def
    by (metis (no_types, lifting) sum.distinct(1) sum.inject(2))
  have names: "Some [] \<notin> set names"
    using parse_workspace_names_nonempty by (auto simp: names_def split: option.splits)
  show "map wd_id ws = map of_nat [0..<unat count]"
    by (simp add: ws)
  show "list_all (\<lambda>w. validate_WorkspaceDescriptor w = Inr ()) ws"
  proof -
    have "names ! i \<noteq> Some []" if "i < length names" for i
      using names nth_mem [OF that] by metis
    moreover have "validate_optional validate_Rect None = Inr ()"
      by (simp add: validate_optional_def)
    ultimately show ?thesis
      by (auto simp: ws list_all_iff validate_WorkspaceDescriptor_def
          dest: rect_from_cardinals_valid)
  qed
qed

lemma workspace_ids_distinct: "n \<le> 65536 \<Longrightarrow> distinct (map (of_nat :: nat \<Rightarrow> u16) [0..<n])"
  by (auto simp: distinct_map inj_on_def of_nat_eq_iff word_of_nat_eq_iff take_bit_nat_eq_self)

lemma read_client_ok:
  assumes "read_client x root atoms supported xid cur count scope titles = Some c"
  shows "rc_xid c = xid" and "rc_states c = client_states x xid atoms"
    and "rc_actions c = client_actions x xid atoms supported"
    and "rc_frame c = client_frame x root xid atoms" and "rc_title c \<noteq> Some []"
  using assms client_title_nonempty [of x xid atoms]
  by (auto simp: read_client_def Let_def split: if_splits)

lemma map_filter_clients:
  "map rc_xid (List.map_filter (\<lambda>xid. read_client x root atoms supp xid cur n sc ti) xids)
    = filter (\<lambda>xid. read_client x root atoms supp xid cur n sc ti \<noteq> None) xids"
  by (induction xids) (auto simp: List.map_filter_def dest: read_client_ok(1))

lemma scan_cases:
  assumes "scan x root atoms scope titles = Inr raw"
  obtains count current supported xids where
    "unat count \<le> MAX_WORKSPACES" "current < count"
    "rd_current_workspace raw = ucast current"
    "read_workspaces x root atoms count = Inr (rd_workspaces raw)"
    "rd_clients raw = List.map_filter (\<lambda>xid. read_client x root atoms supported xid
      (ucast current) count scope titles) xids"
    "distinct xids" "length xids \<le> MAX_CLIENTS"
    "\<forall>w. rd_active raw = Some w \<longrightarrow> w \<in> set (map rc_xid (rd_clients raw))"
proof (cases scope)
  case Scope_None
  with assms show ?thesis
    using that [of _ _ "[]" "[]"] by (auto simp: scan_def res_simps Let_def List.map_filter_def
        not_less not_le split: if_splits option.splits)
next
  case Scope_CurrentWorkspace
  with assms show ?thesis
    using that by (auto simp: scan_def res_simps Let_def client_list_ok not_less not_le
        split: if_splits option.splits)
next
  case Scope_AllWorkspaces
  with assms show ?thesis
    using that by (auto simp: scan_def res_simps Let_def client_list_ok not_less not_le
        split: if_splits option.splits)
qed


lemma scan_raw_ok:
  assumes "scan x root atoms scope titles = Inr raw" and "nonzero_geometry x"
  shows "raw_desktop_ok raw"
proof -
  from assms(1) obtain count current supported xids where
    count: "unat count \<le> MAX_WORKSPACES" and current: "current < count"
    and cur: "rd_current_workspace raw = ucast current"
    and ws: "read_workspaces x root atoms count = Inr (rd_workspaces raw)"
    and clients: "rd_clients raw = List.map_filter (\<lambda>xid. read_client x root atoms supported xid
        (ucast current) count scope titles) xids"
    and xids: "distinct xids" "length xids \<le> MAX_CLIENTS"
    by (rule scan_cases)
  have ids: "map wd_id (rd_workspaces raw) = map of_nat [0..<unat count]"
    using read_workspaces_ok(1) [OF ws] .
  have len: "length (rd_workspaces raw) = unat count"
    using arg_cong [OF ids, of length] by simp
  have "unat count \<le> 65536"
    using count by (simp add: MAX_WORKSPACES_def)
  then have distinct_ids: "distinct (map wd_id (rd_workspaces raw))"
    unfolding ids by (rule workspace_ids_distinct)
  have "(ucast current :: u16) = of_nat (unat current)"
    by (simp add: of_nat_unat)
  then have current_listed: "rd_current_workspace raw \<in> set (map wd_id (rd_workspaces raw))"
    using current unfolding ids cur
    by (auto simp: word_less_nat_alt intro!: image_eqI [of _ _ "unat current"])
  have "map rc_xid (rd_clients raw)
      = filter (\<lambda>xid. read_client x root atoms supported xid (ucast current) count scope titles \<noteq> None) xids"
    unfolding clients by (rule map_filter_clients)
  then have xs: "distinct (map rc_xid (rd_clients raw))" "length (rd_clients raw) \<le> MAX_CLIENTS"
    using xids length_filter_le [of _ xids]
    by (simp, metis (no_types, lifting) le_trans length_map)
  have "list_all (\<lambda>c. length (rc_states c) \<le> 16 \<and> length (rc_actions c) \<le> 8
        \<and> strictly_ordered (rc_states c) \<and> strictly_ordered (rc_actions c)
        \<and> rc_title c \<noteq> Some [] \<and> validate_optional validate_Rect (rc_frame c) = Inr ())
        (rd_clients raw)"
    unfolding list_all_iff clients
  proof
    fix c
    assume "c \<in> set (List.map_filter (\<lambda>xid. read_client x root atoms supported xid (ucast current)
        count scope titles) xids)"
    then obtain xid where
      "read_client x root atoms supported xid (ucast current) count scope titles = Some c"
      by (auto simp: List.map_filter_def)
    from read_client_ok [OF this]
    show "length (rc_states c) \<le> 16 \<and> length (rc_actions c) \<le> 8
        \<and> strictly_ordered (rc_states c) \<and> strictly_ordered (rc_actions c)
        \<and> rc_title c \<noteq> Some [] \<and> validate_optional validate_Rect (rc_frame c) = Inr ()"
      using client_states_length [of x xid atoms] client_actions_length [of x xid atoms supported]
      by (simp add: client_states_ordered client_actions_ordered client_frame_valid [OF assms(2)])
  qed
  with count len distinct_ids current_listed xs read_workspaces_ok(2) [OF ws] show ?thesis
    by (simp add: raw_desktop_ok_def)
qed

text \<open>
  C29. The observation policy bounds what a scan reveals: with scope \<open>none\<close> no client appears; with
  the current-workspace scope every client shown is on the current workspace or sticky; titles
  appear only when the policy shows them; and the active window is revealed only if it is itself
  one of the clients shown.
\<close>

theorem scan_respects_scope:
  assumes "scan x root atoms scope titles = Inr raw"
  shows "(scope = Scope_None \<longrightarrow> rd_clients raw = [])
    \<and> (\<forall>c\<in>set (rd_clients raw). scope = Scope_CurrentWorkspace \<longrightarrow>
        rc_workspace c = Some (rd_current_workspace raw)
        \<or> State_Sticky \<in> set (rc_states c)
        \<or> optional_cardinal x (rc_xid c) (at_wm_desktop atoms) = Some (- 1))
    \<and> (\<forall>c\<in>set (rd_clients raw). \<not> titles \<longrightarrow> rc_title c = None)
    \<and> (\<forall>w. rd_active raw = Some w \<longrightarrow> w \<in> set (map rc_xid (rd_clients raw)))"
proof -
  from assms obtain count current supported xids where
    "unat count \<le> MAX_WORKSPACES" "current < count"
    and cur: "rd_current_workspace raw = ucast current"
    and "read_workspaces x root atoms count = Inr (rd_workspaces raw)"
    and clients: "rd_clients raw = List.map_filter (\<lambda>xid. read_client x root atoms supported xid
        (ucast current) count scope titles) xids"
    and "distinct xids" "length xids \<le> MAX_CLIENTS"
    and active: "\<forall>w. rd_active raw = Some w \<longrightarrow> w \<in> set (map rc_xid (rd_clients raw))"
    by (rule scan_cases)
  have shown: "\<exists>xid. read_client x root atoms supported xid (ucast current) count scope titles = Some c"
    if "c \<in> set (rd_clients raw)" for c
    using that by (auto simp: clients List.map_filter_def)
  have "scope \<noteq> Scope_None
    \<and> (scope = Scope_CurrentWorkspace \<longrightarrow> rc_workspace c = Some (rd_current_workspace raw)
        \<or> State_Sticky \<in> set (rc_states c)
        \<or> optional_cardinal x (rc_xid c) (at_wm_desktop atoms) = Some (- 1))
    \<and> (\<not> titles \<longrightarrow> rc_title c = None)" if "c \<in> set (rd_clients raw)" for c
    using shown [OF that]
    by (cases scope) (auto simp: read_client_def client_placement_def cur Let_def
        split: if_splits option.splits)
  with active show ?thesis
    by (cases "rd_clients raw") auto
qed


text \<open>A desktop of one workspace with one active client, window 50.\<close>

definition demo_atoms :: Atoms where
  "demo_atoms = \<lparr>at_supported = 100, at_client_list = 101, at_client_list_stacking = 102,
    at_number_of_desktops = 103, at_current_desktop = 104, at_desktop_names = 105,
    at_active_window = 106, at_workarea = 107, at_supporting_wm_check = 108,
    at_wm_visible_name = 109, at_wm_name = 110, at_wm_desktop = 111, at_wm_state = 112,
    at_wm_allowed_actions = 113, at_frame_extents = 114, at_moveresize_window = 115,
    at_close_window = 116, at_wm_protocols = 117, at_wm_delete_window = 118, at_client_leader
    = 119, at_startup_id = 120, at_utf8 = 121, at_clipboard = 122, at_targets = 123,
    at_text_plain_utf8 = 124, at_text_plain = 125, at_state_above = 126, at_state_below = 127,
    at_state_fullscreen = 128, at_state_hidden = 129, at_state_maximized_horz = 130,
    at_state_maximized_vert = 131, at_state_demands_attention = 132, at_state_sticky = 133,
    at_state_shaded = 134, at_action_above = 135, at_action_below = 136, at_action_fullscreen
    = 137, at_action_maximize_horz = 138, at_action_maximize_vert = 139, at_action_shade =
    140, at_action_stick = 141, at_action_close = 142, at_action_change_desktop = 143,
    at_action_move = 144, at_action_resize = 145\<rparr>"

definition demo_reply :: "u32 \<Rightarrow> u32 list \<Rightarrow> property_reply x_reply" where
  "demo_reply t vs = Replied \<lparr>pr_type = t, pr_format = 32, pr_bytes_after = 0, pr_value = [],
    pr_value32 = Some vs\<rparr>"

definition demo_x :: x_server where
  "demo_x = \<lparr>
    x_get_property = (\<lambda>w p t n.
      if p = 108 then demo_reply ATOM_WINDOW [9]
      else if w \<noteq> 1 then demo_reply X_NONE []
      else if p = 103 then demo_reply ATOM_CARDINAL [1]
      else if p = 104 then demo_reply ATOM_CARDINAL [0]
      else if p = 102 \<or> p = 106 then demo_reply ATOM_WINDOW [50]
      else demo_reply X_NONE []),
    x_get_geometry = (\<lambda>_. ReplyFailed),
    x_translate_coordinates = (\<lambda>_ _. ReplyFailed)\<rparr>"

definition demo_raw :: RawDesktop where
  "demo_raw = \<lparr>rd_current_workspace = 0,
    rd_workspaces = [\<lparr>wd_id = 0, wd_name = None, wd_work_area = None\<rparr>],
    rd_clients = [\<lparr>rc_xid = 50, rc_title = None, rc_workspace = None, rc_frame = None,
      rc_states = [], rc_actions = []\<rparr>],
    rd_active = Some 50\<rparr>"

lemma demo_scan: "scan demo_x 1 demo_atoms Scope_AllWorkspaces False = Inr demo_raw"
  by (simp add: scan_def validate_wm_def optional_window_def property32_def u32_try_from_def
      x_ask_def demo_x_def demo_reply_def demo_atoms_def required_cardinal_def optional_cardinal_def
      read_workspaces_def property_bytes_def client_list_def read_client_def client_states_def
      client_placement_def client_frame_def client_actions_def atom_list_def unwrap_or_def x_ok_def
      ok_flatten_def ok_or_def X_NONE_def ATOM_ATOM_def ATOM_CARDINAL_def ATOM_WINDOW_def
      MAX_ROOT_ATOMS_def MAX_CLIENT_ATOMS_def MAX_CLIENTS_def MAX_WORKSPACES_def
      MAX_WORKSPACE_NAME_BYTES_def usize_MAX_def map_filter_simps Let_def demo_raw_def)

theorem scan_respects_scope_witness:
  "rd_active demo_raw = Some 50 \<and> (50 :: u32) \<in> set (map rc_xid (rd_clients demo_raw))"
  using scan_respects_scope [OF demo_scan] by (simp add: demo_raw_def)

section \<open>Bytes and UTF-8\<close>

lemma unat_of_char: "unat (of_char c :: byte) = of_char c"
  by (simp add: of_char_def)

lemma of_char_char_of_unat: "of_char (char_of (unat (b :: byte))) = b"
proof -
  have "unat b < 256" using unsigned_less [of b] by simp
  then have "unat (of_char (char_of (unat b)) :: byte) = unat b" by (simp add: unat_of_char)
  then show ?thesis by (rule word_unat_eq_iff [THEN iffD2])
qed

lemma as_bytes_inj: "as_bytes s = as_bytes t \<longleftrightarrow> s = t"
proof
  have "map (\<lambda>b. char_of (unat b)) (as_bytes u) = u" for u
    by (simp add: as_bytes_def comp_def unat_of_char)
  then show "as_bytes s = as_bytes t \<Longrightarrow> s = t" by metis
qed simp

lemma from_utf8_bytes: "from_utf8 b = Some s \<Longrightarrow> b = as_bytes s"
  by (auto simp: from_utf8_def as_bytes_def comp_def of_char_char_of_unat split: if_splits)

lemma utf8_wellformed_ascii: "list_all (\<lambda>b. b < 128) bs \<Longrightarrow> utf8_wellformed bs"
  by (induction bs) auto

lemma from_utf8_ascii:
  assumes "list_all (\<lambda>c. code_of c < 128) s"
  shows "from_utf8 (as_bytes s) = Some s"
proof -
  have byte: "unat (of_char c :: byte) = code_of c" for c
    by (simp add: of_char_def)
  show ?thesis
    using assms by (simp add: from_utf8_def as_bytes_def comp_def byte utf8_wellformed_ascii list_all_iff)
qed

lemma utf8_wellformed_append: "utf8_wellformed xs \<Longrightarrow> utf8_wellformed (xs @ ys) \<longleftrightarrow> utf8_wellformed ys"
proof (induction xs rule: utf8_wellformed.induct)
  case (2 a bs)
  consider (one) "a < 0x80" | (two) "\<not> a < 0x80" "0xC2 \<le> a \<and> a \<le> 0xDF"
    | (three) "\<not> a < 0x80" "\<not> (0xC2 \<le> a \<and> a \<le> 0xDF)" "0xE0 \<le> a \<and> a \<le> 0xEF"
    | (four) "\<not> a < 0x80" "\<not> (0xC2 \<le> a \<and> a \<le> 0xDF)" "\<not> (0xE0 \<le> a \<and> a \<le> 0xEF)" "0xF0 \<le> a \<and> a \<le> 0xF4"
    using "2.prems" by (auto split: if_splits)
  then show ?case
  proof cases
    case one
    with 2 show ?thesis by simp
  next
    case two
    then obtain b cs where bs: "bs = b # cs" "cont_byte b" "utf8_wellformed cs"
      using "2.prems" by (cases bs) auto
    with "2.IH"(2) [OF two bs(1)] two show ?thesis by simp
  next
    case three
    then obtain b c cs where bs: "bs = b # c # cs" and w: "utf8_wellformed cs" "cont_byte b \<and> cont_byte c \<and> (a = 0xE0 \<longrightarrow> 0xA0 \<le> b) \<and> (a = 0xED \<longrightarrow> b \<le> 0x9F)"
      using "2.prems" by (cases bs; cases "tl bs") auto
    with "2.IH"(3) [OF three bs refl] three show ?thesis by simp
  next
    case four
    then obtain b c d cs where bs: "bs = b # c # d # cs" and w: "utf8_wellformed cs"
      "cont_byte b \<and> cont_byte c \<and> cont_byte d \<and> (a = 0xF0 \<longrightarrow> 0x90 \<le> b) \<and> (a = 0xF4 \<longrightarrow> b \<le> 0x8F)"
      using "2.prems" by (cases bs; cases "tl bs"; cases "tl (tl bs)") auto
    with "2.IH"(4) [OF four bs refl refl] four show ?thesis by simp
  qed
qed simp

lemma from_utf8_as_bytes: "from_utf8 (as_bytes s) = (if utf8_wellformed (map code_of s) then Some s else None)"
  by (simp add: from_utf8_def as_bytes_def comp_def unat_of_char)

end
