(* ===== verification/Observer_Model.thy ===== *)
theory Observer_Model
  imports Observer_Scan
begin

text \<open>
  The observer's model of the desktop (\<^verbatim>\<open>agent-seat-x11/src/observer.rs\<close>, \<^verbatim>\<open>impl Observer\<close>, and
  \<^verbatim>\<open>reconcile_capture_targets\<close> of \<^verbatim>\<open>observer/capture.rs\<close>): session-scoped client identities,
  generations, the event log with its bounded retention, snapshots, subscriptions and polling.

  Methods pass the observer's state explicitly and keep it on errors. One refresh consumes one
  \<open>sample\<close> of the X server; a polling loop consumes a list of samples, each with the answer to
  \<^verbatim>\<open>Instant::now() >= deadline\<close> after it. A list that runs out before the loop ends means the call
  has not returned yet (\<open>None\<close>).
\<close>

section \<open>State\<close>

record ClientRecord =
  cr_xid :: u32
  cr_descriptor :: ClientDescriptor

record Model =
  m_current_workspace :: WorkspaceId
  m_workspaces :: "WorkspaceDescriptor list"
  m_clients :: "ClientRecord list"
  m_active :: "ClientId option"

record Observer =
  ob_root :: u32
  ob_atoms :: Atoms
  ob_scope :: ClientScope
  ob_show_titles :: bool
  ob_model :: "Model option"
  ob_next_client :: u64
  ob_sequence :: u64
  ob_subscribed :: bool
  ob_subscribed_kinds :: "EventKind list"
  ob_events :: "EventEnvelope list"
  ob_retained_after :: u64
  ob_resync_required :: bool
  ob_capture_enabled :: bool
  ob_capture_extension_checked :: bool
  ob_redirected_clients :: "u32 set"

type_synonym 'a obs = "(Observer, Failure, 'a) st"

definition Observer_connect :: "u32 \<Rightarrow> Atoms \<Rightarrow> ClientScope \<Rightarrow> bool \<Rightarrow> bool \<Rightarrow> Observer" where
  "Observer_connect root atoms scope show_titles capture_enabled =
    \<lparr>ob_root = root, ob_atoms = atoms, ob_scope = scope, ob_show_titles = show_titles,
     ob_model = None, ob_next_client = 1, ob_sequence = 0, ob_subscribed = False,
     ob_subscribed_kinds = [], ob_events = [], ob_retained_after = 0, ob_resync_required = False,
     ob_capture_enabled = capture_enabled, ob_capture_extension_checked = False,
     ob_redirected_clients = {}\<rparr>"

section \<open>Composite redirection\<close>

text \<open>
  The replies the Composite extension and \<^verbatim>\<open>GetWindowAttributes\<close> give during one reconciliation, and
  the order in which the hash sets are iterated, which the standard library leaves open.
\<close>

datatype attributes_reply = Attr_RequestFailed | Attr_Ok | Attr_NoWindow | Attr_OtherError

record composite_server =
  co_version :: "(u32 \<times> u32) x_reply"
  co_attributes :: "u32 \<Rightarrow> attributes_reply"
  co_unredirect :: "u32 \<Rightarrow> unit x_reply"
  co_redirect :: "u32 \<Rightarrow> unit x_reply"
  co_order :: "u32 set \<Rightarrow> u32 list"

definition require_composite_capture :: "composite_server \<Rightarrow> unit obs" where
  "require_composite_capture co =
    st_bind (st_get ob_capture_extension_checked) (\<lambda>checked.
    if checked then st_return ()
    else (case co_version co of
        RequestFailed \<Rightarrow> st_fail (Failure_unsupported ''X Composite cannot be queried'')
      | ReplyFailed \<Rightarrow> st_fail (Failure_unsupported ''X Composite is unavailable'')
      | Replied (major, minor) \<Rightarrow>
          if major \<noteq> 0 \<or> minor < 2
          then st_fail (Failure_unsupported
            ''X Composite 0.2 or newer is required for obscured capture'')
          else st_modify (ob_capture_extension_checked_update (\<lambda>_. True))))"

fun unredirect_departed :: "composite_server \<Rightarrow> u32 list \<Rightarrow> unit obs" where
  "unredirect_departed co [] = st_return ()"
| "unredirect_departed co (window # ws) =
    st_bind (case co_attributes co window of
        Attr_RequestFailed \<Rightarrow>
          st_fail (Failure_unavailable ''cannot inspect a departing capture target'')
      | Attr_Ok \<Rightarrow> st_try (x_ask ''cannot request target unredirection''
          ''cannot unredirect a departing target'' (co_unredirect co window))
      | Attr_NoWindow \<Rightarrow> st_return ()
      | Attr_OtherError \<Rightarrow>
          st_fail (Failure_unavailable ''cannot classify a departing capture target'')) (\<lambda>_.
    st_bind (st_modify (ob_redirected_clients_update (\<lambda>r. r - {window}))) (\<lambda>_.
    unredirect_departed co ws))"

fun redirect_arrived :: "composite_server \<Rightarrow> u32 list \<Rightarrow> unit obs" where
  "redirect_arrived co [] = st_return ()"
| "redirect_arrived co (window # ws) =
    st_bind (st_try (x_ask ''cannot request target redirection''
      ''cannot redirect a scoped capture target'' (co_redirect co window))) (\<lambda>_.
    st_bind (st_modify (ob_redirected_clients_update (insert window))) (\<lambda>_.
    redirect_arrived co ws))"

definition reconcile_capture_targets :: "composite_server \<Rightarrow> u32 list \<Rightarrow> unit obs" where
  "reconcile_capture_targets co clients =
    st_bind (require_composite_capture co) (\<lambda>_.
    st_bind (st_get ob_redirected_clients) (\<lambda>redirected.
    st_bind (unredirect_departed co (co_order co (redirected - set clients))) (\<lambda>_.
    st_bind (st_get ob_redirected_clients) (\<lambda>redirected.
    redirect_arrived co (co_order co (set clients - redirected))))))"

section \<open>Events and identities\<close>

fun event_kind :: "Event \<Rightarrow> EventKind" where
  "event_kind (Ev_ClientAdded _) = Kind_ClientAdded"
| "event_kind (Ev_ClientChanged _) = Kind_ClientChanged"
| "event_kind (Ev_ClientRemoved _) = Kind_ClientRemoved"
| "event_kind (Ev_ActiveChanged _) = Kind_ActiveChanged"
| "event_kind (Ev_WorkspaceChanged _) = Kind_WorkspaceChanged"
| "event_kind Ev_ApplicationsChanged = Kind_ApplicationsChanged"

definition allocate_client :: "ClientId obs" where
  "allocate_client =
    st_bind (st_get ob_next_client) (\<lambda>next.
    if next = 0 then st_fail (Failure_internal ''client identity space is exhausted'')
    else (case checked_add next 1 of
        None \<Rightarrow> st_fail (Failure_internal ''client identity space is exhausted'')
      | Some n \<Rightarrow> st_bind (st_modify (ob_next_client_update (\<lambda>_. n))) (\<lambda>_. st_return next)))"

definition push_event :: "Event \<Rightarrow> unit obs" where
  "push_event event =
    st_bind (st_get (\<lambda>ob. checked_add (ob_sequence ob) 1)) (\<lambda>next.
    case next of
      None \<Rightarrow> st_fail (Failure_internal ''observation sequence space is exhausted'')
    | Some sequence \<Rightarrow>
        st_bind (st_modify (ob_sequence_update (\<lambda>_. sequence))) (\<lambda>_.
        st_modify (\<lambda>ob.
          if \<not> ob_subscribed ob \<or> ob_resync_required ob
            \<or> (ob_subscribed_kinds ob \<noteq> [] \<and> event_kind event \<notin> set (ob_subscribed_kinds ob))
          then ob
          else if length (ob_events ob) = MAX_EVENTS
          then ob\<lparr>ob_events := [], ob_resync_required := True\<rparr>
          else ob\<lparr>ob_events := ob_events ob @ [\<lparr>env_sequence = sequence, env_event = event\<rparr>]\<rparr>)))"

definition RawClient_descriptor :: "RawClient \<Rightarrow> ClientId \<Rightarrow> Generation \<Rightarrow> Failure + ClientDescriptor" where
  "RawClient_descriptor c i generation =
    res_bind (map_err (\<lambda>_. Failure_internal ''client state list exceeded its public bound'')
      (BoundedList_new 16 (rc_states c))) (\<lambda>states.
    res_bind (map_err (\<lambda>_. Failure_internal ''client action list exceeded its public bound'')
      (BoundedList_new 8 (rc_actions c))) (\<lambda>actions.
    Inr \<lparr>cd_id = i, cd_generation = generation, cd_title = rc_title c,
      cd_workspace = rc_workspace c, cd_frame = rc_frame c, cd_states = states,
      cd_actions = actions\<rparr>))"

text \<open>\<^verbatim>\<open>raw.active.and_then(|xid| clients.iter().find(..)).map(..)\<close>\<close>

definition active_client :: "u32 option \<Rightarrow> ClientRecord list \<Rightarrow> ClientId option" where
  "active_client active clients =
    Option.bind active (\<lambda>xid. map_option (\<lambda>c. cd_id (cr_descriptor c))
      (find (\<lambda>c. cr_xid c = xid) clients))"

definition build_model :: "RawDesktop \<Rightarrow> ClientRecord list \<Rightarrow> Model" where
  "build_model raw clients = \<lparr>m_current_workspace = rd_current_workspace raw,
    m_workspaces = rd_workspaces raw, m_clients = clients,
    m_active = active_client (rd_active raw) clients\<rparr>"

fun initial_clients :: "RawClient list \<Rightarrow> ClientRecord list obs" where
  "initial_clients [] = st_return []"
| "initial_clients (c # cs) =
    st_bind allocate_client (\<lambda>i.
    st_bind (st_try (RawClient_descriptor c i 0)) (\<lambda>descriptor.
    st_bind (initial_clients cs) (\<lambda>rs.
    st_return (\<lparr>cr_xid = rc_xid c, cr_descriptor = descriptor\<rparr> # rs))))"

definition initial_model :: "RawDesktop \<Rightarrow> Model obs" where
  "initial_model raw =
    st_bind (initial_clients (rd_clients raw)) (\<lambda>clients. st_return (build_model raw clients))"

fun push_removed :: "u32 set \<Rightarrow> ClientRecord list \<Rightarrow> unit obs" where
  "push_removed current [] = st_return ()"
| "push_removed current (c # cs) =
    st_bind (if cr_xid c \<notin> current then push_event (Ev_ClientRemoved (cd_id (cr_descriptor c)))
      else st_return ()) (\<lambda>_.
    push_removed current cs)"

definition diff_client :: "ClientRecord option \<Rightarrow> RawClient \<Rightarrow> ClientRecord obs" where
  "diff_client prior c =
    (case prior of
       Some p \<Rightarrow>
         (let old = cr_descriptor p in
          st_bind (st_try (RawClient_descriptor c (cd_id old) (cd_generation old))) (\<lambda>unchanged.
          if unchanged = old then st_return \<lparr>cr_xid = rc_xid c, cr_descriptor = unchanged\<rparr>
          else
            st_bind (st_try (ok_or (checked_add (cd_generation old) 1)
              (Failure_internal ''client generation space is exhausted''))) (\<lambda>generation.
            st_bind (st_try (RawClient_descriptor c (cd_id old) generation)) (\<lambda>descriptor.
            st_bind (push_event (Ev_ClientChanged descriptor)) (\<lambda>_.
            st_return \<lparr>cr_xid = rc_xid c, cr_descriptor = descriptor\<rparr>)))))
     | None \<Rightarrow>
         st_bind allocate_client (\<lambda>i.
         st_bind (st_try (RawClient_descriptor c i 0)) (\<lambda>descriptor.
         st_bind (push_event (Ev_ClientAdded descriptor)) (\<lambda>_.
         st_return \<lparr>cr_xid = rc_xid c, cr_descriptor = descriptor\<rparr>))))"

fun diff_clients :: "(u32 \<rightharpoonup> ClientRecord) \<Rightarrow> RawClient list \<Rightarrow> ClientRecord list obs" where
  "diff_clients previous [] = st_return []"
| "diff_clients previous (c # cs) =
    st_bind (diff_client (previous (rc_xid c)) c) (\<lambda>r.
    st_bind (diff_clients previous cs) (\<lambda>rs.
    st_return (r # rs)))"

text \<open>Collecting into a \<^verbatim>\<open>HashMap\<close> keeps the last entry of a key.\<close>

definition by_xid :: "ClientRecord list \<Rightarrow> u32 \<rightharpoonup> ClientRecord" where
  "by_xid cs = map_of (rev (map (\<lambda>c. (cr_xid c, c)) cs))"

definition diff_model :: "Model \<Rightarrow> RawDesktop \<Rightarrow> Model obs" where
  "diff_model previous raw =
    st_bind (push_removed (set (map rc_xid (rd_clients raw))) (m_clients previous)) (\<lambda>_.
    st_bind (diff_clients (by_xid (m_clients previous)) (rd_clients raw)) (\<lambda>clients.
    st_bind (if m_current_workspace previous \<noteq> rd_current_workspace raw
        \<or> m_workspaces previous \<noteq> rd_workspaces raw
      then push_event (Ev_WorkspaceChanged (rd_current_workspace raw)) else st_return ()) (\<lambda>_.
    let active = active_client (rd_active raw) clients in
    st_bind (if m_active previous \<noteq> active then push_event (Ev_ActiveChanged active)
      else st_return ()) (\<lambda>_.
    st_return (build_model raw clients)))))"

section \<open>Refreshing, snapshots, subscriptions and polling\<close>

record sample =
  sam_x :: x_server
  sam_composite :: composite_server

definition refresh :: "sample \<Rightarrow> unit obs" where
  "refresh sam =
    st_bind (st_get (\<lambda>ob. scan (sam_x sam) (ob_root ob) (ob_atoms ob) (ob_scope ob)
      (ob_show_titles ob))) (\<lambda>scanned.
    st_bind (st_try scanned) (\<lambda>raw.
    st_bind (st_get ob_capture_enabled) (\<lambda>capture.
    st_bind (if capture
      then reconcile_capture_targets (sam_composite sam) (map rc_xid (rd_clients raw))
      else st_return ()) (\<lambda>_.
    st_bind (st_get ob_model) (\<lambda>previous.
    st_bind (st_modify (ob_model_update (\<lambda>_. None))) (\<lambda>_.
    st_bind (case previous of None \<Rightarrow> initial_model raw | Some p \<Rightarrow> diff_model p raw) (\<lambda>model.
    st_modify (ob_model_update (\<lambda>_. Some model)))))))))"

definition current_snapshot :: "DesktopSnapshot obs" where
  "current_snapshot =
    st_bind (st_get ob_model) (\<lambda>m.
    st_bind (st_try (ok_or m (Failure_internal ''observer has no current model''))) (\<lambda>model.
    st_bind (st_get ob_sequence) (\<lambda>sequence.
    st_bind (st_try (map_err (\<lambda>_. Failure_internal ''workspace model exceeded its public bound'')
      (BoundedList_new MAX_WORKSPACES (m_workspaces model)))) (\<lambda>workspaces.
    st_bind (st_try (map_err (\<lambda>_. Failure_internal ''client model exceeded its public bound'')
      (BoundedList_new MAX_CLIENTS (map cr_descriptor (m_clients model))))) (\<lambda>clients.
    st_return \<lparr>snap_sequence = sequence, snap_current_workspace = m_current_workspace model,
      snap_workspaces = workspaces, snap_clients = clients, snap_active = m_active model\<rparr>)))))"

definition snapshot :: "sample \<Rightarrow> DesktopSnapshot obs" where
  "snapshot sam =
    st_bind (refresh sam) (\<lambda>_.
    st_bind (st_modify (\<lambda>ob.
      if ob_resync_required ob
      then ob\<lparr>ob_events := [], ob_retained_after := ob_sequence ob, ob_resync_required := False\<rparr>
      else ob)) (\<lambda>_.
    current_snapshot))"

definition subscribe :: "sample \<Rightarrow> EventKind list \<Rightarrow> Subscription obs" where
  "subscribe sam kinds =
    st_bind (refresh sam) (\<lambda>_.
    st_bind (st_modify (\<lambda>ob. ob\<lparr>ob_subscribed := True, ob_subscribed_kinds := kinds,
      ob_events := [], ob_retained_after := ob_sequence ob, ob_resync_required := False\<rparr>)) (\<lambda>_.
    st_bind (st_get ob_sequence) (\<lambda>sequence.
    st_return \<lparr>subscription_cursor = sequence\<rparr>)))"

text \<open>The loop that discards acknowledged events from the front of the queue.\<close>

fun drop_acknowledged :: "u64 \<Rightarrow> u64 \<Rightarrow> EventEnvelope list \<Rightarrow> u64 \<times> EventEnvelope list" where
  "drop_acknowledged after retained [] = (retained, [])"
| "drop_acknowledged after retained (e # es) =
    (if env_sequence e \<le> after then drop_acknowledged after (env_sequence e) es
     else (retained, e # es))"

text \<open>
  The sampling loop of \<^verbatim>\<open>poll\<close> and \<^verbatim>\<open>correlate_launch\<close>: try, stop with a result, stop with \<open>late\<close> when
  the deadline has passed, otherwise sleep and take the next sample.
\<close>

fun sample_loop :: "(sample \<Rightarrow> 'r option obs) \<Rightarrow> 'r \<Rightarrow> (sample \<times> bool) list \<Rightarrow> 'r option obs" where
  "sample_loop attempt late [] = st_return None"
| "sample_loop attempt late ((sam, expired) # sams) =
    st_bind (attempt sam) (\<lambda>r.
    case r of
      Some v \<Rightarrow> st_return (Some v)
    | None \<Rightarrow> if expired then st_return (Some late) else sample_loop attempt late sams)"

definition poll_attempt :: "u64 \<Rightarrow> sample \<Rightarrow> unit option obs" where
  "poll_attempt after sam =
    st_bind (refresh sam) (\<lambda>_.
    st_bind (st_get (\<lambda>ob. ob)) (\<lambda>ob.
    if ob_resync_required ob then st_fail (Failure_resync (ob_sequence ob))
    else st_return (case ob_events ob of
        [] \<Rightarrow> None
      | e # _ \<Rightarrow> if env_sequence e > after then Some () else None)))"

definition poll :: "(sample \<times> bool) list \<Rightarrow> u64 \<Rightarrow> u16 \<Rightarrow> EventBatch option obs" where
  "poll sams after limit =
    st_bind (st_get (\<lambda>ob. ob)) (\<lambda>ob.
    if \<not> ob_subscribed ob
    then st_fail (Failure_invalid ''events.subscribe is required before polling'')
    else if after < ob_retained_after ob \<or> after > ob_sequence ob
    then st_fail (Failure_resync (ob_sequence ob))
    else
      st_bind (st_modify (\<lambda>ob.
        let (retained, events) = drop_acknowledged after (ob_retained_after ob) (ob_events ob) in
        ob\<lparr>ob_retained_after := retained, ob_events := events\<rparr>)) (\<lambda>_.
      st_bind (sample_loop (poll_attempt after) () sams) (\<lambda>ended.
      case ended of
        None \<Rightarrow> st_return None
      | Some _ \<Rightarrow>
          st_bind (st_get (\<lambda>ob. ob)) (\<lambda>ob.
          let events = take (unat limit) (filter (\<lambda>e. env_sequence e > after) (ob_events ob));
            cursor = (case last_option events of
              None \<Rightarrow> ob_sequence ob | Some e \<Rightarrow> env_sequence e) in
          st_bind (st_try (map_err (\<lambda>_. Failure_internal ''event page exceeded its public bound'')
            (BoundedList_new MAX_EVENTS events))) (\<lambda>events.
          st_return (Some \<lparr>batch_events = events, batch_cursor = cursor\<rparr>))))))"

definition launch_baseline :: "sample \<Rightarrow> u32 set obs" where
  "launch_baseline sam =
    st_bind (refresh sam) (\<lambda>_.
    st_get (\<lambda>ob. case ob_model ob of None \<Rightarrow> {} | Some m \<Rightarrow> set (map cr_xid (m_clients m))))"

definition correlate_attempt :: "u32 set \<Rightarrow> string \<Rightarrow> sample \<Rightarrow> ClientId option option obs" where
  "correlate_attempt baseline startup_id sam =
    st_bind (refresh sam) (\<lambda>_.
    st_get (\<lambda>ob. case ob_model ob of None \<Rightarrow> None
      | Some m \<Rightarrow> map_option (\<lambda>c. Some (cd_id (cr_descriptor c)))
          (find (\<lambda>c. cr_xid c \<notin> baseline
             \<and> client_startup_id_matches (sam_x sam) (cr_xid c) (ob_atoms ob) (as_bytes startup_id))
           (m_clients m))))"

definition correlate_launch ::
    "(sample \<times> bool) list \<Rightarrow> u32 set \<Rightarrow> string \<Rightarrow> ClientId option option obs" where
  "correlate_launch sams baseline startup_id =
    sample_loop (correlate_attempt baseline startup_id) None sams"


section \<open>The event log\<close>

text \<open>
  \<open>log_ext a evs b\<close>: from state \<open>a\<close> to state \<open>b\<close> exactly the events \<open>evs\<close> were pushed. The
  sequence advances once per event, subscribed or not; unless the log overflowed, the wanted
  events were appended under their sequence numbers.
\<close>

fun number_from :: "u64 \<Rightarrow> Event list \<Rightarrow> EventEnvelope list" where
  "number_from s [] = []"
| "number_from s (e # es) = \<lparr>env_sequence = s + 1, env_event = e\<rparr> # number_from (s + 1) es"

definition wants :: "Observer \<Rightarrow> EventEnvelope \<Rightarrow> bool" where
  "wants ob x \<longleftrightarrow> ob_subscribed ob
    \<and> (ob_subscribed_kinds ob = [] \<or> event_kind (env_event x) \<in> set (ob_subscribed_kinds ob))"

definition same_setup :: "Observer \<Rightarrow> Observer \<Rightarrow> bool" where
  "same_setup a b \<longleftrightarrow> ob_root b = ob_root a \<and> ob_atoms b = ob_atoms a \<and> ob_scope b = ob_scope a
    \<and> ob_show_titles b = ob_show_titles a \<and> ob_subscribed b = ob_subscribed a
    \<and> ob_subscribed_kinds b = ob_subscribed_kinds a \<and> ob_retained_after b = ob_retained_after a
    \<and> ob_capture_enabled b = ob_capture_enabled a"

definition log_ext :: "Observer \<Rightarrow> Event list \<Rightarrow> Observer \<Rightarrow> bool" where
  "log_ext a evs b \<longleftrightarrow> same_setup a b
    \<and> unat (ob_sequence b) = unat (ob_sequence a) + length evs
    \<and> (ob_resync_required a \<longrightarrow> ob_resync_required b)
    \<and> (\<not> ob_resync_required b \<longrightarrow>
        ob_events b = ob_events a @ filter (wants a) (number_from (ob_sequence a) evs))"

lemma same_setup_refl [simp]: "same_setup a a"
  by (simp add: same_setup_def)

lemma same_setup_trans: "same_setup a b \<Longrightarrow> same_setup b c \<Longrightarrow> same_setup a c"
  by (simp add: same_setup_def)

lemma wants_cong: "same_setup a b \<Longrightarrow> wants b = wants a"
  by (auto simp: same_setup_def wants_def)

lemma number_from_append:
  "number_from s (xs @ ys) = number_from s xs @ number_from (s + of_nat (length xs)) ys"
  by (induction xs arbitrary: s) (simp_all add: algebra_simps)

lemma log_ext_refl [simp]: "log_ext a [] a"
  by (simp add: log_ext_def)

lemma log_ext_trans:
  assumes "log_ext a xs b" and "log_ext b ys c"
  shows "log_ext a (xs @ ys) c"
proof -
  have "unat (ob_sequence b) = unat (ob_sequence a) + length xs"
    using assms(1) by (simp add: log_ext_def)
  then have "ob_sequence b = ob_sequence a + of_nat (length xs)"
    by (rule unat_add_of_nat)
  with assms show ?thesis
    by (auto simp: log_ext_def number_from_append wants_cong intro: same_setup_trans)
qed

lemma push_event_cases:
  assumes "push_event e ob = (r, ob')"
  obtains (exhausted) "\<exists>x. r = Inl x" "ob' = ob"
    | (pushed) n where "r = Inr ()" "unat n = Suc (unat (ob_sequence ob))"
      "ob' = (if \<not> wants ob \<lparr>env_sequence = n, env_event = e\<rparr> \<or> ob_resync_required ob
        then ob\<lparr>ob_sequence := n\<rparr>
        else if length (ob_events ob) = MAX_EVENTS
        then ob\<lparr>ob_sequence := n, ob_events := [], ob_resync_required := True\<rparr>
        else ob\<lparr>ob_sequence := n, ob_events := ob_events ob @ [\<lparr>env_sequence = n, env_event = e\<rparr>]\<rparr>)"
proof (cases "checked_add (ob_sequence ob) 1")
  case None
  with assms exhausted show ?thesis
    by (auto simp: push_event_def st_bind_def st_run)
next
  case (Some n)
  with assms have "unat n = Suc (unat (ob_sequence ob))"
    by (simp add: checked_add_Some_iff)
  moreover have "r = Inr ()" "ob' = (if \<not> wants ob \<lparr>env_sequence = n, env_event = e\<rparr>
        \<or> ob_resync_required ob
        then ob\<lparr>ob_sequence := n\<rparr>
        else if length (ob_events ob) = MAX_EVENTS
        then ob\<lparr>ob_sequence := n, ob_events := [], ob_resync_required := True\<rparr>
        else ob\<lparr>ob_sequence := n, ob_events := ob_events ob @ [\<lparr>env_sequence = n, env_event = e\<rparr>]\<rparr>)"
    using assms Some by (auto simp: push_event_def st_bind_def st_run wants_def)
  ultimately show ?thesis
    by (intro pushed)
qed

lemma push_event_logs:
  assumes "push_event e ob = (Inr u, ob')"
  shows "log_ext ob [e] ob'" and "ob_next_client ob' = ob_next_client ob" and "ob_model ob' = ob_model ob"
proof -
  obtain n where n: "unat n = Suc (unat (ob_sequence ob))"
      "ob' = (if \<not> wants ob \<lparr>env_sequence = n, env_event = e\<rparr> \<or> ob_resync_required ob
        then ob\<lparr>ob_sequence := n\<rparr>
        else if length (ob_events ob) = MAX_EVENTS
        then ob\<lparr>ob_sequence := n, ob_events := [], ob_resync_required := True\<rparr>
        else ob\<lparr>ob_sequence := n, ob_events := ob_events ob @ [\<lparr>env_sequence = n, env_event = e\<rparr>]\<rparr>)"
    using assms by (cases rule: push_event_cases) auto
  have "n = ob_sequence ob + 1"
    using unat_add_of_nat [of n "ob_sequence ob" 1] n(1) by simp
  with n show "log_ext ob [e] ob'" and "ob_next_client ob' = ob_next_client ob"
    and "ob_model ob' = ob_model ob"
    by (auto simp: log_ext_def same_setup_def)
qed

lemma allocate_client_cases:
  assumes "allocate_client ob = (r, ob')"
  obtains (exhausted) "\<exists>x. r = Inl x" "ob' = ob"
    | (fresh) n where "r = Inr (ob_next_client ob)" "ob_next_client ob \<noteq> 0"
      "unat n = Suc (unat (ob_next_client ob))" "ob' = ob\<lparr>ob_next_client := n\<rparr>"
proof (cases "ob_next_client ob = 0 \<or> checked_add (ob_next_client ob) 1 = None")
  case True
  with assms exhausted show ?thesis
    by (auto simp: allocate_client_def st_bind_def st_run split: if_splits)
next
  case False
  then obtain n where n: "checked_add (ob_next_client ob) 1 = Some n" "ob_next_client ob \<noteq> 0"
    by auto
  with assms have "r = Inr (ob_next_client ob)" "ob' = ob\<lparr>ob_next_client := n\<rparr>"
    by (simp_all add: allocate_client_def st_bind_def st_run)
  moreover have "unat n = Suc (unat (ob_next_client ob))"
    using n(1) unfolding checked_add_Some_iff by simp
  ultimately show ?thesis
    using n(2) by (intro fresh)
qed

text \<open>Client identities are never reused within an observer.\<close>

interpretation client_ids: fresh_ids
    "\<lambda>ob. case allocate_client ob of (Inl e, _) \<Rightarrow> Inl e | (Inr i, t) \<Rightarrow> Inr (i, t)"
    "\<lambda>ob. {i. i < ob_next_client ob}"
proof
  fix s :: Observer and i t
  assume "(case allocate_client s of (Inl e, _) \<Rightarrow> Inl e | (Inr i, t) \<Rightarrow> Inr (i, t)) = Inr (i, t)"
  then have "allocate_client s = (Inr i, t)"
    by (auto split: prod.splits sum.splits)
  then show "i \<notin> {i. i < ob_next_client s}"
    and "insert i {i. i < ob_next_client s} \<subseteq> {i. i < ob_next_client t}"
    by (cases rule: allocate_client_cases; auto simp: word_less_nat_alt)+
qed


section \<open>Replaying events\<close>

text \<open>
  What a peer reconstructs: the clients by identity, the active client and the current workspace.
  \<open>apply_event\<close> is the meaning of an event to the peer.
\<close>

record view =
  v_clients :: "ClientId \<rightharpoonup> ClientDescriptor"
  v_active :: "ClientId option"
  v_workspace :: WorkspaceId

fun apply_event :: "Event \<Rightarrow> view \<Rightarrow> view" where
  "apply_event (Ev_ClientAdded d) v = v\<lparr>v_clients := (v_clients v)(cd_id d \<mapsto> d)\<rparr>"
| "apply_event (Ev_ClientChanged d) v = v\<lparr>v_clients := (v_clients v)(cd_id d \<mapsto> d)\<rparr>"
| "apply_event (Ev_ClientRemoved i) v = v\<lparr>v_clients := (v_clients v)(i := None)\<rparr>"
| "apply_event (Ev_ActiveChanged a) v = v\<lparr>v_active := a\<rparr>"
| "apply_event (Ev_WorkspaceChanged w) v = v\<lparr>v_workspace := w\<rparr>"
| "apply_event Ev_ApplicationsChanged v = v"

abbreviation cr_id :: "ClientRecord \<Rightarrow> ClientId" where
  "cr_id r \<equiv> cd_id (cr_descriptor r)"

definition entries :: "ClientRecord list \<Rightarrow> (ClientId \<times> ClientDescriptor) list" where
  "entries rs = map (\<lambda>r. (cr_id r, cr_descriptor r)) rs"

definition view_of :: "Model \<Rightarrow> view" where
  "view_of m = \<lparr>v_clients = map_of (entries (m_clients m)), v_active = m_active m,
    v_workspace = m_current_workspace m\<rparr>"

lemma entries_simps [simp]: "entries [] = []" "entries (r # rs) = (cr_id r, cr_descriptor r) # entries rs"
  "map fst (entries rs) = map cr_id rs" "dom (map_of (entries rs)) = cr_id ` set rs"
  by (simp_all add: entries_def dom_map_of_conv_image_fst image_image o_def)

lemma entries_lookup:
  "distinct (map cr_id rs) \<Longrightarrow> map_of (entries rs) i = Some d \<longleftrightarrow>
    (\<exists>r\<in>set rs. cr_id r = i \<and> cr_descriptor r = d)"
  by (simp add: map_of_eq_Some_iff) (auto simp: entries_def)

lemma by_xid_lookup:
  "distinct (map cr_xid rs) \<Longrightarrow> by_xid rs x = Some r \<longleftrightarrow> r \<in> set rs \<and> cr_xid r = x"
  by (auto simp: by_xid_def map_of_eq_Some_iff rev_map [symmetric] o_def simp del: rev_map)

lemma by_xid_None: "by_xid rs x = None \<longleftrightarrow> x \<notin> cr_xid ` set rs"
  by (simp add: by_xid_def map_of_eq_None_iff image_image)

lemma push_removed_spec:
  assumes "push_removed cur rs ob = (Inr u, ob')"
  shows "\<exists>evs. log_ext ob evs ob' \<and> ob_next_client ob' = ob_next_client ob
    \<and> (\<forall>v. fold apply_event evs v =
        v\<lparr>v_clients := v_clients v |` (- (cr_id ` {r \<in> set rs. cr_xid r \<notin> cur}))\<rparr>)"
  using assms
proof (induction rs arbitrary: ob)
  case Nil
  then show ?case by (auto intro!: exI [of _ "[]"])
next
  case (Cons r rs)
  then obtain ob1 where rest: "push_removed cur rs ob1 = (Inr u, ob')"
    and first: "(if cr_xid r \<notin> cur then push_event (Ev_ClientRemoved (cr_id r)) else st_return ()) ob
      = (Inr (), ob1)"
    by (auto simp: st_bind_eq_Inr)
  from Cons.IH [OF rest] obtain evs where evs: "log_ext ob1 evs ob'"
      "ob_next_client ob' = ob_next_client ob1"
      "\<And>v. fold apply_event evs v =
        v\<lparr>v_clients := v_clients v |` (- (cr_id ` {r \<in> set rs. cr_xid r \<notin> cur}))\<rparr>"
    by blast
  show ?case
  proof (cases "cr_xid r \<in> cur")
    case True
    then have "{x \<in> set (r # rs). cr_xid x \<notin> cur} = {x \<in> set rs. cr_xid x \<notin> cur}" by auto
    with True first evs show ?thesis by (auto intro!: exI [of _ evs])
  next
    case False
    then have push: "push_event (Ev_ClientRemoved (cr_id r)) ob = (Inr (), ob1)"
      using first by simp
    have "{x \<in> set (r # rs). cr_xid x \<notin> cur} = insert r {x \<in> set rs. cr_xid x \<notin> cur}"
      using False by auto
    then show ?thesis
      using log_ext_trans [OF push_event_logs(1) [OF push] evs(1)] push_event_logs(2) [OF push] evs
      by (intro exI [of _ "[Ev_ClientRemoved (cr_id r)] @ evs"])
        (auto simp: restrict_map_def fun_eq_iff)
  qed
qed

lemma RawClient_descriptor_Inr:
  "RawClient_descriptor c i g = Inr d \<Longrightarrow> cd_id d = i \<and> cd_generation d = g
    \<and> cd_title d = rc_title c \<and> cd_workspace d = rc_workspace c \<and> cd_frame d = rc_frame c
    \<and> cd_states d = rc_states c \<and> cd_actions d = rc_actions c"
  by (auto simp: RawClient_descriptor_def res_simps BoundedList_new_def split: if_splits)

text \<open>
  One client: nothing is pushed when its descriptor is unchanged; a change keeps the identity and
  raises the generation by one; a new client gets a fresh identity.
\<close>

lemma diff_client_spec:
  assumes "diff_client prior c ob = (Inr r, ob')"
  shows "\<exists>evs. log_ext ob evs ob' \<and> cr_xid r = rc_xid c
    \<and> (case prior of
         Some p \<Rightarrow> cr_id r = cr_id p \<and> ob_next_client ob' = ob_next_client ob
       | None \<Rightarrow> cr_id r = ob_next_client ob \<and> ob_next_client ob \<noteq> 0
           \<and> unat (ob_next_client ob') = Suc (unat (ob_next_client ob)))
    \<and> (\<forall>v. (\<forall>p. prior = Some p \<longrightarrow> v_clients v (cr_id p) = Some (cr_descriptor p)) \<longrightarrow>
        fold apply_event evs v = v\<lparr>v_clients := (v_clients v)(cr_id r \<mapsto> cr_descriptor r)\<rparr>)"
proof (cases prior)
  case None
  with assms obtain i ob1 d where i: "allocate_client ob = (Inr i, ob1)"
    and d: "RawClient_descriptor c i 0 = Inr d" and push: "push_event (Ev_ClientAdded d) ob1 = (Inr (), ob')"
    and r: "r = \<lparr>cr_xid = rc_xid c, cr_descriptor = d\<rparr>"
    by (auto simp: diff_client_def st_bind_eq_Inr)
  from i have alloc: "i = ob_next_client ob" "ob_next_client ob \<noteq> 0" "log_ext ob [] ob1"
      "unat (ob_next_client ob1) = Suc (unat (ob_next_client ob))"
    by (cases rule: allocate_client_cases; auto simp: log_ext_def same_setup_def)+
  have "log_ext ob [Ev_ClientAdded d] ob'"
    using log_ext_trans [OF alloc(3) push_event_logs(1) [OF push]] by simp
  then show ?thesis
    using None r RawClient_descriptor_Inr [OF d] alloc push_event_logs(2) [OF push]
    by (intro exI [of _ "[Ev_ClientAdded d]"]) auto
next
  case (Some p)
  with assms obtain u where u: "RawClient_descriptor c (cr_id p) (cd_generation (cr_descriptor p)) = Inr u"
    and body: "(if u = cr_descriptor p then st_return \<lparr>cr_xid = rc_xid c, cr_descriptor = u\<rparr>
      else st_bind (st_try (ok_or (checked_add (cd_generation (cr_descriptor p)) 1)
              (Failure_internal ''client generation space is exhausted''))) (\<lambda>generation.
            st_bind (st_try (RawClient_descriptor c (cr_id p) generation)) (\<lambda>descriptor.
            st_bind (push_event (Ev_ClientChanged descriptor)) (\<lambda>_.
            st_return \<lparr>cr_xid = rc_xid c, cr_descriptor = descriptor\<rparr>)))) ob = (Inr r, ob')"
    by (auto simp: diff_client_def st_bind_eq_Inr Let_def)
  show ?thesis
  proof (cases "u = cr_descriptor p")
    case True
    with body Some show ?thesis
      by (intro exI [of _ "[]"]) (auto simp: map_upd_triv)
  next
    case False
    with body obtain g d where d: "RawClient_descriptor c (cr_id p) g = Inr d"
      and push: "push_event (Ev_ClientChanged d) ob = (Inr (), ob')"
      and r: "r = \<lparr>cr_xid = rc_xid c, cr_descriptor = d\<rparr>"
      by (auto simp: st_bind_eq_Inr)
    then show ?thesis
      using Some RawClient_descriptor_Inr [OF d] push_event_logs [OF push]
      by (intro exI [of _ "[Ev_ClientChanged d]"]) auto
  qed
qed


definition known :: "(u32 \<rightharpoonup> ClientRecord) \<Rightarrow> u64 \<Rightarrow> bool" where
  "known prev next \<longleftrightarrow> (\<forall>x p. prev x = Some p \<longrightarrow> cr_id p < next)
    \<and> (\<forall>x y p q. prev x = Some p \<longrightarrow> prev y = Some q \<longrightarrow> cr_id p = cr_id q \<longrightarrow> x = y)"

text \<open>A record's identity is its predecessor's, or freshly allocated in \<open>[lo, hi)\<close>.\<close>

definition assigned :: "(u32 \<rightharpoonup> ClientRecord) \<Rightarrow> u64 \<Rightarrow> u64 \<Rightarrow> ClientRecord \<Rightarrow> bool" where
  "assigned prev lo hi r \<longleftrightarrow> (case prev (cr_xid r) of Some p \<Rightarrow> cr_id r = cr_id p
    | None \<Rightarrow> cr_id r \<noteq> 0 \<and> lo \<le> cr_id r \<and> cr_id r < hi)"

lemma known_mono: "known prev lo \<Longrightarrow> lo \<le> mid \<Longrightarrow> known prev mid"
  unfolding known_def by (meson order_less_le_trans)

lemma assigned_mono: "assigned prev lo hi r \<Longrightarrow> lo' \<le> lo \<Longrightarrow> hi \<le> hi' \<Longrightarrow> assigned prev lo' hi' r"
  by (auto simp: assigned_def split: option.splits)

lemma assigned_below: "known prev lo \<Longrightarrow> lo \<le> hi \<Longrightarrow> assigned prev lo hi r \<Longrightarrow> cr_id r < hi"
  unfolding known_def assigned_def by (auto split: option.splits intro: order_less_le_trans)

lemma assigned_other:
  assumes "known prev lo" and "assigned prev lo mid r" and "prev x = Some p" and "x \<noteq> cr_xid r"
  shows "cr_id p \<noteq> cr_id r"
  using assms unfolding known_def assigned_def
  by (auto split: option.splits) (metis leD)+

lemma assigned_distinct:
  assumes "known prev lo" and "lo \<le> mid" and "assigned prev lo mid r" and "assigned prev mid hi q"
    and "cr_xid q \<noteq> cr_xid r"
  shows "cr_id q \<noteq> cr_id r"
proof (cases "prev (cr_xid q)")
  case None
  then have "mid \<le> cr_id q" using assms(4) by (simp add: assigned_def)
  then show ?thesis using assigned_below [OF assms(1-3)] by auto
next
  case (Some p)
  then show ?thesis
    using assigned_other [OF assms(1,3) Some assms(5)] assms(4) by (simp add: assigned_def)
qed

lemma diff_client_assigned:
  assumes "diff_client (prev (rc_xid c)) c ob = (Inr r, ob')"
  shows "cr_xid r = rc_xid c" and "assigned prev (ob_next_client ob) (ob_next_client ob') r"
    and "ob_next_client ob \<le> ob_next_client ob'"
  using diff_client_spec [OF assms]
  by (auto simp: assigned_def word_le_nat_alt word_less_nat_alt split: option.splits)

text \<open>The records keep the order of the scan and get known or fresh, pairwise distinct identities.\<close>

lemma diff_clients_ids:
  assumes "diff_clients prev cs ob = (Inr rs, ob')" and "distinct (map rc_xid cs)"
    and "known prev (ob_next_client ob)"
  shows "map cr_xid rs = map rc_xid cs \<and> ob_next_client ob \<le> ob_next_client ob'
    \<and> (\<forall>r\<in>set rs. assigned prev (ob_next_client ob) (ob_next_client ob') r) \<and> distinct (map cr_id rs)"
  using assms
proof (induction cs arbitrary: ob rs)
  case Nil
  then show ?case by simp
next
  case (Cons c cs)
  then obtain r ob1 qs where head: "diff_client (prev (rc_xid c)) c ob = (Inr r, ob1)"
    and tail: "diff_clients prev cs ob1 = (Inr qs, ob')" and rs: "rs = r # qs"
    by (auto simp: st_bind_eq_Inr)
  note r = diff_client_assigned [of prev, OF head]
  have IH: "map cr_xid qs = map rc_xid cs" "ob_next_client ob1 \<le> ob_next_client ob'"
      "\<And>q. q \<in> set qs \<Longrightarrow> assigned prev (ob_next_client ob1) (ob_next_client ob') q"
      "distinct (map cr_id qs)"
    using Cons.IH [OF tail] known_mono [OF Cons.prems(3) r(3)] Cons.prems(2) by simp_all
  have "cr_xid q \<noteq> cr_xid r" if "q \<in> set qs" for q
    using Cons.prems(2) r(1) IH(1) that by (metis distinct.simps(2) image_eqI list.simps(9) list.set_map)
  then have "cr_id r \<notin> cr_id ` set qs"
    using assigned_distinct [OF Cons.prems(3) r(3,2) IH(3)] by (metis imageE)
  then show ?case
    using r IH assigned_mono [OF r(2)] assigned_mono [OF IH(3)]
    by (auto simp: rs intro: order_trans)
qed

text \<open>Replaying the pushed events stores exactly the new descriptors.\<close>

lemma diff_clients_replay:
  assumes "diff_clients prev cs ob = (Inr rs, ob')" and "distinct (map rc_xid cs)"
    and "known prev (ob_next_client ob)"
  shows "\<exists>evs. log_ext ob evs ob'
    \<and> (\<forall>v. (\<forall>c\<in>set cs. \<forall>p. prev (rc_xid c) = Some p \<longrightarrow>
            v_clients v (cr_id p) = Some (cr_descriptor p)) \<longrightarrow>
        fold apply_event evs v = v\<lparr>v_clients := v_clients v ++ map_of (entries rs)\<rparr>)"
  using assms
proof (induction cs arbitrary: ob rs)
  case Nil
  then show ?case by (auto intro!: exI [of _ "[]"])
next
  case (Cons c cs)
  then obtain r ob1 qs where head: "diff_client (prev (rc_xid c)) c ob = (Inr r, ob1)"
    and tail: "diff_clients prev cs ob1 = (Inr qs, ob')" and rs: "rs = r # qs"
    by (auto simp: st_bind_eq_Inr)
  note r = diff_client_assigned [of prev, OF head]
  from diff_client_spec [OF head] obtain evs1 where one: "log_ext ob evs1 ob1"
    and replay1: "\<And>v. (\<forall>p. prev (rc_xid c) = Some p \<longrightarrow> v_clients v (cr_id p) = Some (cr_descriptor p))
        \<Longrightarrow> fold apply_event evs1 v = v\<lparr>v_clients := (v_clients v)(cr_id r \<mapsto> cr_descriptor r)\<rparr>"
    by blast
  from Cons.IH [OF tail] known_mono [OF Cons.prems(3) r(3)] Cons.prems(2)
  obtain evs2 where two: "log_ext ob1 evs2 ob'"
    and replay2: "\<And>v. (\<forall>c\<in>set cs. \<forall>p. prev (rc_xid c) = Some p \<longrightarrow>
            v_clients v (cr_id p) = Some (cr_descriptor p)) \<Longrightarrow>
        fold apply_event evs2 v = v\<lparr>v_clients := v_clients v ++ map_of (entries qs)\<rparr>"
    by auto
  have fresh: "cr_id r \<notin> cr_id ` set qs"
    using diff_clients_ids [OF Cons.prems] by (simp add: rs)
  have others: "cr_id p \<noteq> cr_id r" if "d \<in> set cs" "prev (rc_xid d) = Some p" for d p
  proof -
    have "rc_xid d \<noteq> cr_xid r"
      using Cons.prems(2) r(1) that(1) by (auto simp: image_iff)
    then show ?thesis
      by (rule assigned_other [OF Cons.prems(3) r(2) that(2)])
  qed
  have "fold apply_event (evs1 @ evs2) v = v\<lparr>v_clients := v_clients v ++ map_of (entries rs)\<rparr>"
    if v: "\<forall>c\<in>set (c # cs). \<forall>p. prev (rc_xid c) = Some p \<longrightarrow> v_clients v (cr_id p) = Some (cr_descriptor p)"
    for v
  proof -
    have "fold apply_event evs2 (v\<lparr>v_clients := (v_clients v)(cr_id r \<mapsto> cr_descriptor r)\<rparr>)
        = v\<lparr>v_clients := (v_clients v)(cr_id r \<mapsto> cr_descriptor r) ++ map_of (entries qs)\<rparr>"
      using v others by (simp add: replay2)
    with v fresh show ?thesis
      by (simp add: replay1 rs map_add_upd_left)
  qed
  then show ?case
    using log_ext_trans [OF one two] by blast
qed

section \<open>Invariants\<close>

definition log_ok :: "Observer \<Rightarrow> bool" where
  "log_ok ob \<longleftrightarrow> ob_retained_after ob \<le> ob_sequence ob \<and> ob_next_client ob \<noteq> 0
    \<and> length (ob_events ob) \<le> MAX_EVENTS \<and> (ob_resync_required ob \<longrightarrow> ob_events ob = [])
    \<and> sorted_wrt (<) (map env_sequence (ob_events ob))
    \<and> (\<forall>e\<in>set (ob_events ob). ob_retained_after ob < env_sequence e
        \<and> env_sequence e \<le> ob_sequence ob \<and> validate_Event (env_event e) = Inr ())"

definition model_ok :: "u64 \<Rightarrow> Model \<Rightarrow> bool" where
  "model_ok next m \<longleftrightarrow>
    length (m_workspaces m) \<le> MAX_WORKSPACES
    \<and> distinct (map wd_id (m_workspaces m))
    \<and> m_current_workspace m \<in> set (map wd_id (m_workspaces m))
    \<and> (\<forall>w\<in>set (m_workspaces m). validate_WorkspaceDescriptor w = Inr ())
    \<and> length (m_clients m) \<le> MAX_CLIENTS
    \<and> distinct (map cr_xid (m_clients m)) \<and> distinct (map cr_id (m_clients m))
    \<and> (\<forall>r\<in>set (m_clients m). cr_id r \<noteq> 0 \<and> cr_id r < next
        \<and> validate_ClientDescriptor (cr_descriptor r) = Inr ())
    \<and> (\<forall>a. m_active m = Some a \<longrightarrow> a \<in> set (map cr_id (m_clients m)))"

definition observer_ok :: "Observer \<Rightarrow> bool" where
  "observer_ok ob \<longleftrightarrow> log_ok ob \<and> (\<forall>m. ob_model ob = Some m \<longrightarrow> model_ok (ob_next_client ob) m)"

lemma push_event_log_ok: "validate_Event e = Inr () \<Longrightarrow> keeps log_ok (push_event e)"
  unfolding keeps_def
proof (intro allI impI)
  fix ob
  assume e: "validate_Event e = Inr ()" and ok: "log_ok ob"
  obtain r ob' where run: "push_event e ob = (r, ob')" by fastforce
  from run show "log_ok (snd (push_event e ob))"
  proof (cases rule: push_event_cases)
    case exhausted
    with ok run show ?thesis by simp
  next
    case (pushed n)
    then have "ob_sequence ob < n"
      by (simp add: word_less_nat_alt)
    with ok e pushed run show ?thesis
      by (auto simp: log_ok_def sorted_wrt_append intro: order_trans [OF _ less_imp_le]
          order_le_less_trans)
  qed
qed

lemma allocate_client_log_ok: "keeps log_ok allocate_client"
  unfolding keeps_def
proof (intro allI impI)
  fix ob assume ok: "log_ok ob"
  obtain r ob' where run: "allocate_client ob = (r, ob')" by fastforce
  from run show "log_ok (snd (allocate_client ob))"
    by (cases rule: allocate_client_cases)
      (use ok run in \<open>auto simp: log_ok_def\<close>)
qed

lemma keeps_option [keeps_intros]:
  "keeps I a \<Longrightarrow> (\<And>x. keeps I (f x)) \<Longrightarrow> keeps I (case v of None \<Rightarrow> a | Some x \<Rightarrow> f x)"
  by (cases v) simp_all

text \<open>A raw client that passed the scan's checks.\<close>

definition raw_client_ok :: "RawClient \<Rightarrow> bool" where
  "raw_client_ok c \<longleftrightarrow> length (rc_states c) \<le> 16 \<and> length (rc_actions c) \<le> 8
    \<and> strictly_ordered (rc_states c) \<and> strictly_ordered (rc_actions c)
    \<and> rc_title c \<noteq> Some [] \<and> validate_optional validate_Rect (rc_frame c) = Inr ()"

lemma descriptor_valid:
  "raw_client_ok c \<Longrightarrow> RawClient_descriptor c i g = Inr d \<Longrightarrow> validate_ClientDescriptor d = Inr ()"
  by (frule RawClient_descriptor_Inr) (simp add: raw_client_ok_def validate_ClientDescriptor_def)

lemma keeps_bind_try:
  assumes "\<And>a. r = Inr a \<Longrightarrow> keeps I (f a)"
  shows "keeps I (st_bind (st_try r) f)"
  using assms by (cases r) (auto simp: keeps_def st_bind_def st_run)

lemma raw_desktop_clients: "raw_desktop_ok raw \<Longrightarrow> c \<in> set (rd_clients raw) \<Longrightarrow> raw_client_ok c"
  by (auto simp: raw_desktop_ok_def raw_client_ok_def list_all_iff)

text \<open>
  What pushing events and allocating identities keep, every step of building a model keeps.
\<close>

locale observer_invariant =
  fixes I :: "Observer \<Rightarrow> bool"
  assumes push_keeps: "validate_Event e = Inr () \<Longrightarrow> keeps I (push_event e)"
    and allocate_keeps: "keeps I allocate_client"
begin

lemma diff_client_keeps: "raw_client_ok c \<Longrightarrow> keeps I (diff_client prior c)"
  unfolding diff_client_def Let_def
  by (intro keeps_intros keeps_bind_try push_keeps allocate_keeps) (simp_all add: descriptor_valid)

lemma diff_clients_keeps: "\<forall>c\<in>set cs. raw_client_ok c \<Longrightarrow> keeps I (diff_clients prev cs)"
  by (induction cs) (auto intro!: keeps_intros diff_client_keeps)

lemma initial_clients_keeps: "keeps I (initial_clients cs)"
  by (induction cs) (auto intro!: keeps_intros allocate_keeps)

lemma push_removed_keeps: "keeps I (push_removed cur rs)"
  by (induction rs) (auto intro!: keeps_intros push_keeps)

lemma diff_model_keeps: "raw_desktop_ok raw \<Longrightarrow> keeps I (diff_model m raw)"
  unfolding diff_model_def Let_def
  by (intro keeps_intros push_keeps push_removed_keeps diff_clients_keeps)
    (auto simp: raw_desktop_clients)

lemma initial_model_keeps: "keeps I (initial_model raw)"
  unfolding initial_model_def by (intro keeps_intros initial_clients_keeps)

lemma update_model_keeps:
  "raw_desktop_ok raw \<Longrightarrow> keeps I (case p of None \<Rightarrow> initial_model raw | Some m \<Rightarrow> diff_model m raw)"
  by (intro keeps_intros diff_model_keeps initial_model_keeps)

end

lemma push_event_model: "keeps (\<lambda>ob. ob_model ob = x) (push_event e)"
  unfolding keeps_def
proof (intro allI impI)
  fix ob :: Observer assume m: "ob_model ob = x"
  obtain r ob' where run: "push_event e ob = (r, ob')" by fastforce
  from run show "ob_model (snd (push_event e ob)) = x"
    by (cases rule: push_event_cases) (use m run in auto)
qed

lemma allocate_client_model: "keeps (\<lambda>ob. ob_model ob = x) allocate_client"
  unfolding keeps_def
proof (intro allI impI)
  fix ob :: Observer assume m: "ob_model ob = x"
  obtain r ob' where run: "allocate_client ob = (r, ob')" by fastforce
  from run show "ob_model (snd (allocate_client ob)) = x"
    by (cases rule: allocate_client_cases) (use m run in auto)
qed

interpretation log: observer_invariant log_ok
  by unfold_locales (simp_all add: push_event_log_ok allocate_client_log_ok)

interpretation pending: observer_invariant "\<lambda>ob. ob_model ob = x"
  by unfold_locales (simp_all add: push_event_model allocate_client_model)

section \<open>Differences converge\<close>

lemma active_client_listed: "active_client active rs = Some a \<Longrightarrow> a \<in> set (map cr_id rs)"
  by (auto simp: active_client_def find_Some_iff split: bind_splits)

lemma known_by_xid: "model_ok next m \<Longrightarrow> known (by_xid (m_clients m)) next"
  by (auto simp: model_ok_def known_def by_xid_lookup distinct_map inj_on_def)

lemma diff_model_cases:
  assumes "diff_model m raw ob = (Inr m', ob')"
  obtains ob1 rs ob2 ob3 where
    "push_removed (set (map rc_xid (rd_clients raw))) (m_clients m) ob = (Inr (), ob1)"
    "diff_clients (by_xid (m_clients m)) (rd_clients raw) ob1 = (Inr rs, ob2)"
    "(if m_current_workspace m \<noteq> rd_current_workspace raw \<or> m_workspaces m \<noteq> rd_workspaces raw
      then push_event (Ev_WorkspaceChanged (rd_current_workspace raw)) else st_return ()) ob2 = (Inr (), ob3)"
    "(if m_active m \<noteq> active_client (rd_active raw) rs
      then push_event (Ev_ActiveChanged (active_client (rd_active raw) rs)) else st_return ()) ob3
      = (Inr (), ob')"
    "m' = build_model raw rs"
  using assms by (auto simp: diff_model_def st_bind_eq_Inr Let_def)

lemma pushed_if:
  assumes "(if b then push_event e else st_return ()) ob = (Inr u, ob')"
  shows "log_ext ob (if b then [e] else []) ob'" and "ob_next_client ob' = ob_next_client ob"
  using assms push_event_logs [of e ob u ob'] by (auto split: if_splits)

lemma map_add_covered: "dom f \<subseteq> dom g \<Longrightarrow> f ++ g = g"
  by (auto simp: map_add_def fun_eq_iff split: option.splits)

text \<open>
  The kept clients of the previous model, overwritten by the new records, are the new records:
  every kept client has a record under its identity.
\<close>

lemma kept_overwritten:
  assumes "model_ok next m" and "map cr_xid rs = map rc_xid cs"
    and "\<forall>r\<in>set rs. assigned (by_xid (m_clients m)) lo hi r"
  shows "map_of (entries (m_clients m))
      |` (- (cr_id ` {r \<in> set (m_clients m). cr_xid r \<notin> set (map rc_xid cs)}))
      ++ map_of (entries rs) = map_of (entries rs)"
proof (intro map_add_covered subsetI)
  fix i
  assume "i \<in> dom (map_of (entries (m_clients m))
      |` (- (cr_id ` {r \<in> set (m_clients m). cr_xid r \<notin> set (map rc_xid cs)})))"
  then obtain p where p: "p \<in> set (m_clients m)" "cr_id p = i" "cr_xid p \<in> set (map rc_xid cs)"
    by auto blast
  then obtain r where r: "r \<in> set rs" "cr_xid r = cr_xid p"
    by (metis assms(2) image_iff image_set)
  have "by_xid (m_clients m) (cr_xid p) = Some p"
    using assms(1) p(1) by (simp add: model_ok_def by_xid_lookup)
  then have "cr_id r = i"
    using assms(3) r p(2) by (auto simp: assigned_def)
  with r(1) show "i \<in> dom (map_of (entries rs))" by auto
qed

lemma kept_visible:
  assumes "model_ok next m" and "by_xid (m_clients m) x = Some p" and "x \<in> cur"
  shows "(map_of (entries (m_clients m)) |` (- (cr_id ` {r \<in> set (m_clients m). cr_xid r \<notin> cur})))
    (cr_id p) = Some (cr_descriptor p)"
proof -
  have p: "p \<in> set (m_clients m)" "cr_xid p = x"
    using assms by (simp_all add: model_ok_def by_xid_lookup)
  have "map_of (entries (m_clients m)) (cr_id p) = Some (cr_descriptor p)"
    using assms(1) p entries_lookup [of "m_clients m" "cr_id p" "cr_descriptor p"]
    unfolding model_ok_def by blast
  moreover have "r = p" if "r \<in> set (m_clients m)" "cr_id r = cr_id p" for r
    using assms(1) p that by (auto simp: model_ok_def distinct_map inj_on_def)
  ultimately show ?thesis
    using p(2) assms(3) by (auto simp: restrict_map_def)
qed

lemma diff_model_replay:
  assumes "diff_model m raw ob = (Inr m', ob')" and "model_ok (ob_next_client ob) m"
    and "raw_desktop_ok raw"
  shows "\<exists>evs. log_ext ob evs ob' \<and> fold apply_event evs (view_of m) = view_of m'"
proof -
  let ?cur = "set (map rc_xid (rd_clients raw))"
  let ?prev = "by_xid (m_clients m)"
  from assms(1) obtain ob1 rs ob2 ob3 where
    removed: "push_removed ?cur (m_clients m) ob = (Inr (), ob1)"
    and diff: "diff_clients ?prev (rd_clients raw) ob1 = (Inr rs, ob2)"
    and ws: "(if m_current_workspace m \<noteq> rd_current_workspace raw \<or> m_workspaces m \<noteq> rd_workspaces raw
      then push_event (Ev_WorkspaceChanged (rd_current_workspace raw)) else st_return ()) ob2 = (Inr (), ob3)"
    and act: "(if m_active m \<noteq> active_client (rd_active raw) rs
      then push_event (Ev_ActiveChanged (active_client (rd_active raw) rs)) else st_return ()) ob3
      = (Inr (), ob')"
    and m': "m' = build_model raw rs"
    by (rule diff_model_cases)
  obtain evs1 where one: "log_ext ob evs1 ob1" "ob_next_client ob1 = ob_next_client ob"
      "\<And>v. fold apply_event evs1 v = v\<lparr>v_clients := v_clients v
        |` (- (cr_id ` {r \<in> set (m_clients m). cr_xid r \<notin> ?cur}))\<rparr>"
    using push_removed_spec [OF removed] by blast
  have xids: "distinct (map rc_xid (rd_clients raw))"
    using assms(3) by (simp add: raw_desktop_ok_def)
  have known: "known ?prev (ob_next_client ob1)"
    using known_by_xid [OF assms(2)] one(2) by simp
  note ids = diff_clients_ids [OF diff xids known]
  obtain evs2 where two: "log_ext ob1 evs2 ob2"
      "\<And>v. (\<forall>c\<in>set (rd_clients raw). \<forall>p. ?prev (rc_xid c) = Some p \<longrightarrow>
            v_clients v (cr_id p) = Some (cr_descriptor p)) \<Longrightarrow>
        fold apply_event evs2 v = v\<lparr>v_clients := v_clients v ++ map_of (entries rs)\<rparr>"
    using diff_clients_replay [OF diff xids known] by blast
  let ?kept = "view_of m\<lparr>v_clients := map_of (entries (m_clients m))
      |` (- (cr_id ` {r \<in> set (m_clients m). cr_xid r \<notin> ?cur}))\<rparr>"
  have "\<forall>c\<in>set (rd_clients raw). \<forall>p. ?prev (rc_xid c) = Some p \<longrightarrow>
      v_clients ?kept (cr_id p) = Some (cr_descriptor p)"
    using kept_visible [OF assms(2)] by simp
  then have clients: "fold apply_event (evs1 @ evs2) (view_of m)
      = view_of m\<lparr>v_clients := map_of (entries rs)\<rparr>"
    using one(3) two(2) [of ?kept] kept_overwritten [OF assms(2), of rs "rd_clients raw"
        "ob_next_client ob1" "ob_next_client ob2"] ids
    by (simp add: view_of_def)
  show ?thesis
    by (intro exI conjI, rule log_ext_trans [OF log_ext_trans [OF log_ext_trans [OF one(1) two(1)]
        pushed_if(1) [OF ws]] pushed_if(1) [OF act]])
      (unfold fold_append comp_apply clients [unfolded fold_append comp_apply],
        simp add: view_of_def m' build_model_def)
qed


section \<open>The model stays well formed\<close>

lemma diff_client_described:
  "diff_client prior c ob = (Inr r, ob') \<Longrightarrow> \<exists>i g. RawClient_descriptor c i g = Inr (cr_descriptor r)"
  by (cases prior) (auto simp: diff_client_def st_bind_eq_Inr Let_def split: if_splits, blast+)

lemma diff_clients_valid:
  "diff_clients prev cs ob = (Inr rs, ob') \<Longrightarrow> \<forall>c\<in>set cs. raw_client_ok c \<Longrightarrow>
    \<forall>r\<in>set rs. validate_ClientDescriptor (cr_descriptor r) = Inr ()"
proof (induction cs arbitrary: ob rs)
  case (Cons c cs)
  then show ?case
    by (auto simp: st_bind_eq_Inr dest!: diff_client_described intro: descriptor_valid)
qed simp

lemma initial_clients_spec:
  "initial_clients cs ob = (Inr rs, ob') \<Longrightarrow> \<forall>c\<in>set cs. raw_client_ok c \<Longrightarrow>
    map cr_xid rs = map rc_xid cs \<and> ob_next_client ob \<le> ob_next_client ob'
    \<and> (\<forall>r\<in>set rs. assigned Map.empty (ob_next_client ob) (ob_next_client ob') r
        \<and> validate_ClientDescriptor (cr_descriptor r) = Inr ())
    \<and> distinct (map cr_id rs) \<and> log_ext ob [] ob'"
proof (induction cs arbitrary: ob rs)
  case Nil
  then show ?case by simp
next
  case (Cons c cs)
  then obtain i ob1 d qs where i: "allocate_client ob = (Inr i, ob1)"
    and d: "RawClient_descriptor c i 0 = Inr d" and qs: "initial_clients cs ob1 = (Inr qs, ob')"
    and rs: "rs = \<lparr>cr_xid = rc_xid c, cr_descriptor = d\<rparr> # qs"
    by (auto simp: st_bind_eq_Inr)
  from i have alloc: "i = ob_next_client ob" "i \<noteq> 0" "ob_next_client ob < ob_next_client ob1"
      "log_ext ob [] ob1"
    by (cases rule: allocate_client_cases; auto simp: word_less_nat_alt log_ext_def same_setup_def)+
  have IH: "map cr_xid qs = map rc_xid cs" "ob_next_client ob1 \<le> ob_next_client ob'"
      "\<And>q. q \<in> set qs \<Longrightarrow> assigned Map.empty (ob_next_client ob1) (ob_next_client ob') q
        \<and> validate_ClientDescriptor (cr_descriptor q) = Inr ()"
      "distinct (map cr_id qs)" "log_ext ob1 [] ob'"
    using Cons.IH [OF qs] Cons.prems(2) by auto
  have above: "i < cr_id q" if "q \<in> set qs" for q
    using IH(3) [OF that] alloc(1,3) by (auto simp: assigned_def)
  then have "i \<notin> cr_id ` set qs"
    by blast
  moreover have "log_ext ob [] ob'"
    using log_ext_trans [OF alloc(4) IH(5)] by simp
  ultimately show ?case
    using IH alloc RawClient_descriptor_Inr [OF d] descriptor_valid [OF _ d] Cons.prems(2)
      less_imp_le [OF above]
    by (auto simp: rs assigned_def)
qed

lemma build_model_ok:
  assumes "raw_desktop_ok raw" and "map cr_xid rs = map rc_xid (rd_clients raw)"
    and "distinct (map cr_id rs)"
    and "\<forall>r\<in>set rs. cr_id r \<noteq> 0 \<and> cr_id r < next \<and> validate_ClientDescriptor (cr_descriptor r) = Inr ()"
  shows "model_ok next (build_model raw rs)"
proof -
  have "length rs = length (rd_clients raw)"
    using arg_cong [OF assms(2), of length] by simp
  then show ?thesis
    using assms active_client_listed [of "rd_active raw" rs]
    by (simp add: model_ok_def build_model_def raw_desktop_ok_def list_all_iff)
qed

lemma initial_model_ok:
  assumes "initial_model raw ob = (Inr m, ob')" and "raw_desktop_ok raw"
  shows "model_ok (ob_next_client ob') m" and "log_ext ob [] ob'"
proof -
  obtain rs where rs: "initial_clients (rd_clients raw) ob = (Inr rs, ob')" "m = build_model raw rs"
    using assms(1) by (auto simp: initial_model_def st_bind_eq_Inr)
  note spec = initial_clients_spec [OF rs(1)] raw_desktop_clients [OF assms(2)]
  show "log_ext ob [] ob'" using spec by simp
  show "model_ok (ob_next_client ob') m"
    unfolding rs(2) using spec by (intro build_model_ok [OF assms(2)]) (auto simp: assigned_def)
qed

lemma diff_model_ok:
  assumes "diff_model m raw ob = (Inr m', ob')" and "model_ok (ob_next_client ob) m"
    and "raw_desktop_ok raw"
  shows "model_ok (ob_next_client ob') m'"
proof -
  from assms(1) obtain ob1 rs ob2 ob3 where
    removed: "push_removed (set (map rc_xid (rd_clients raw))) (m_clients m) ob = (Inr (), ob1)"
    and diff: "diff_clients (by_xid (m_clients m)) (rd_clients raw) ob1 = (Inr rs, ob2)"
    and ws: "(if m_current_workspace m \<noteq> rd_current_workspace raw \<or> m_workspaces m \<noteq> rd_workspaces raw
      then push_event (Ev_WorkspaceChanged (rd_current_workspace raw)) else st_return ()) ob2 = (Inr (), ob3)"
    and act: "(if m_active m \<noteq> active_client (rd_active raw) rs
      then push_event (Ev_ActiveChanged (active_client (rd_active raw) rs)) else st_return ()) ob3
      = (Inr (), ob')"
    and m': "m' = build_model raw rs"
    by (rule diff_model_cases)
  have next1: "ob_next_client ob1 = ob_next_client ob"
    using push_removed_spec [OF removed] by blast
  have next2: "ob_next_client ob' = ob_next_client ob2"
    using pushed_if(2) [OF ws] pushed_if(2) [OF act] by simp
  have known: "known (by_xid (m_clients m)) (ob_next_client ob1)"
    using known_by_xid [OF assms(2)] next1 by simp
  have ids: "map cr_xid rs = map rc_xid (rd_clients raw)" "ob_next_client ob1 \<le> ob_next_client ob2"
      "\<forall>r\<in>set rs. assigned (by_xid (m_clients m)) (ob_next_client ob1) (ob_next_client ob2) r"
      "distinct (map cr_id rs)"
    using diff_clients_ids [OF diff _ known] assms(3) by (simp_all add: raw_desktop_ok_def)
  have "cr_id r \<noteq> 0 \<and> cr_id r < ob_next_client ob'" if "r \<in> set rs" for r
  proof -
    have "assigned (by_xid (m_clients m)) (ob_next_client ob1) (ob_next_client ob2) r"
      using ids(3) that by blast
    moreover from this have "cr_id r \<noteq> 0"
      using assms(2) by (cases "by_xid (m_clients m) (cr_xid r)")
        (auto simp: assigned_def model_ok_def by_xid_lookup)
    ultimately show ?thesis
      using assigned_below [OF known ids(2)] next2 by simp
  qed
  then show ?thesis
    unfolding m' using ids diff_clients_valid [OF diff] raw_desktop_clients [OF assms(3)]
    by (intro build_model_ok [OF assms(3)]) auto
qed

section \<open>Refreshing\<close>

text \<open>Reconciliation touches nothing but the capture bookkeeping.\<close>

definition without_capture :: "Observer \<Rightarrow> Observer" where
  "without_capture ob = ob\<lparr>ob_capture_extension_checked := False, ob_redirected_clients := {}\<rparr>"

lemma keeps_attributes [keeps_intros]:
  "keeps I a \<Longrightarrow> keeps I b \<Longrightarrow> keeps I c \<Longrightarrow> keeps I d \<Longrightarrow> keeps I (case x of
    Attr_RequestFailed \<Rightarrow> a | Attr_Ok \<Rightarrow> b | Attr_NoWindow \<Rightarrow> c | Attr_OtherError \<Rightarrow> d)"
  by (cases x) simp_all

lemma without_capture_simps [simp]:
  "without_capture (ob_redirected_clients_update f ob) = without_capture ob"
  "without_capture (ob_capture_extension_checked_update g ob) = without_capture ob"
  by (simp_all add: without_capture_def)

lemma without_captureD:
  assumes "without_capture a = without_capture b"
  shows "ob_model a = ob_model b" and "ob_next_client a = ob_next_client b"
    and "ob_sequence a = ob_sequence b" and "ob_events a = ob_events b"
    and "ob_retained_after a = ob_retained_after b" and "ob_resync_required a = ob_resync_required b"
    and "same_setup a b"
  using assms by (cases a; cases b; simp add: without_capture_def same_setup_def)+

lemma log_ok_cong:
  "without_capture a = without_capture b \<Longrightarrow> log_ok a = log_ok b"
  using without_captureD [of a b] by (simp add: log_ok_def)

lemma unredirect_departed_frame: "keeps (\<lambda>ob. without_capture ob = o0) (unredirect_departed co ws)"
proof (induction ws)
  case (Cons w ws)
  then show ?case
    unfolding unredirect_departed.simps by (intro keeps_intros) simp_all
qed (simp add: keeps_intros)

lemma redirect_arrived_frame: "keeps (\<lambda>ob. without_capture ob = o0) (redirect_arrived co ws)"
  by (induction ws) (auto intro!: keeps_intros)

lemma require_composite_capture_frame:
  "keeps (\<lambda>ob. without_capture ob = o0) (require_composite_capture co)"
  unfolding require_composite_capture_def
  by (cases "co_version co") (auto intro!: keeps_intros split: prod.splits)

lemma reconcile_frame:
  "keeps (\<lambda>ob. without_capture ob = o0) (reconcile_capture_targets co cs)"
  unfolding reconcile_capture_targets_def
  by (intro keeps_intros require_composite_capture_frame unredirect_departed_frame
      redirect_arrived_frame)


text \<open>
  A refresh that succeeds: the desktop was scanned, the model is well formed, and it either is the
  first model or was reached from the previous one by the events pushed.
\<close>

lemma refresh_steps:
  assumes "refresh sam ob = (r, ob')"
  obtains (unread) e where "r = Inl e" "without_capture ob' = without_capture ob"
    | (lost) e raw ob1 where "r = Inl e" "without_capture ob1 = without_capture ob"
        "scan (sam_x sam) (ob_root ob) (ob_atoms ob) (ob_scope ob) (ob_show_titles ob) = Inr raw"
        "(case ob_model ob of None \<Rightarrow> initial_model raw | Some p \<Rightarrow> diff_model p raw)
          (ob1\<lparr>ob_model := None\<rparr>) = (Inl e, ob')"
    | (completed) raw m ob1 ob2 where "r = Inr ()" "without_capture ob1 = without_capture ob"
        "scan (sam_x sam) (ob_root ob) (ob_atoms ob) (ob_scope ob) (ob_show_titles ob) = Inr raw"
        "(case ob_model ob of None \<Rightarrow> initial_model raw | Some p \<Rightarrow> diff_model p raw)
          (ob1\<lparr>ob_model := None\<rparr>) = (Inr m, ob2)"
        "ob' = ob2\<lparr>ob_model := Some m\<rparr>"
proof (cases "scan (sam_x sam) (ob_root ob) (ob_atoms ob) (ob_scope ob) (ob_show_titles ob)")
  case (Inl e)
  with assms unread show ?thesis
    by (auto simp: refresh_def st_bind_def st_run)
next
  case (Inr raw)
  define reconcile where "reconcile = (if ob_capture_enabled ob
      then reconcile_capture_targets (sam_composite sam) (map rc_xid (rd_clients raw)) else st_return ())"
  obtain q ob1 where rec: "reconcile ob = (q, ob1)" by fastforce
  have frame: "without_capture ob1 = without_capture ob"
    using keepsD [OF reconcile_frame [of "without_capture ob"], of ob] rec
    by (auto simp: reconcile_def split: if_splits)
  then have "ob_model ob1 = ob_model ob"
    by (rule without_captureD)
  with assms [unfolded refresh_def] Inr rec have run: "(case q of Inl e \<Rightarrow> (Inl e, ob1) | Inr _ \<Rightarrow>
      (case (case ob_model ob of None \<Rightarrow> initial_model raw | Some p \<Rightarrow> diff_model p raw)
          (ob1\<lparr>ob_model := None\<rparr>) of
        (Inl e, ob2) \<Rightarrow> (Inl e, ob2) | (Inr m, ob2) \<Rightarrow> (Inr (), ob2\<lparr>ob_model := Some m\<rparr>))) = (r, ob')"
    by (simp add: st_bind_unfold st_bind_def [of reconcile] flip: reconcile_def)
      (auto simp: st_bind_unfold st_bind_modify st_bind_def split: sum.splits prod.splits)
  show ?thesis
    using run frame Inr unread lost completed
    by (auto split: sum.splits prod.splits)
qed


lemma log_ok_model [simp]: "log_ok (ob\<lparr>ob_model := x\<rparr>) = log_ok ob"
  by (simp add: log_ok_def)

lemma wants_model [simp]: "wants (ob\<lparr>ob_model := x\<rparr>) = wants ob"
  by (simp add: wants_def fun_eq_iff)

lemma log_ext_model [simp]: "log_ext (a\<lparr>ob_model := x\<rparr>) evs b = log_ext a evs b"
  "log_ext a evs (b\<lparr>ob_model := x\<rparr>) = log_ext a evs b"
  by (simp_all add: log_ext_def same_setup_def)

lemma log_ext_without_capture:
  "without_capture a = without_capture b \<Longrightarrow> log_ext a evs c \<Longrightarrow> log_ext b evs c"
  using without_captureD [of a b] wants_cong [of a b] by (simp add: log_ext_def same_setup_def)

text \<open>
  Every refresh, failed or not, keeps the observer well formed: a scan that fails leaves the model
  alone, and a difference that cannot be numbered leaves no model rather than a stale one.
\<close>

lemma refresh_observer_ok:
  assumes "nonzero_geometry (sam_x sam)"
  shows "keeps observer_ok (refresh sam)"
  unfolding keeps_def
proof (intro allI impI)
  fix ob
  assume ok: "observer_ok ob"
  obtain r ob' where run: "refresh sam ob = (r, ob')" by fastforce
  let ?update = "\<lambda>raw. case ob_model ob of None \<Rightarrow> initial_model raw | Some p \<Rightarrow> diff_model p raw"
  have update: "log_ok ob2"
    if "scan (sam_x sam) (ob_root ob) (ob_atoms ob) (ob_scope ob) (ob_show_titles ob) = Inr raw"
      "?update raw (ob1\<lparr>ob_model := None\<rparr>) = (q, ob2)" "without_capture ob1 = without_capture ob"
    for raw ob1 ob2 q
  proof -
    have "keeps log_ok (?update raw)"
      by (intro log.update_model_keeps scan_raw_ok [OF that(1) assms])
    moreover have "log_ok (ob1\<lparr>ob_model := None\<rparr>)"
      using ok log_ok_cong [OF that(3)] by (simp add: observer_ok_def)
    ultimately show ?thesis
      using that(2) by (rule keepsD)
  qed
  from run show "observer_ok (snd (refresh sam ob))"
  proof (cases rule: refresh_steps)
    case (unread e)
    with ok run show ?thesis
      using log_ok_cong [of ob' ob] without_captureD [of ob' ob] by (simp add: observer_ok_def)
  next
    case (lost e raw ob1)
    have "ob_model ob' = None"
      by (rule keepsD [OF pending.update_model_keeps [OF scan_raw_ok [OF lost(3) assms]] _ lost(4)])
        simp
    with update [OF lost(3,4,2)] run show ?thesis by (simp add: observer_ok_def)
  next
    case (completed raw m ob1 ob2)
    have raw: "raw_desktop_ok raw" by (rule scan_raw_ok [OF completed(3) assms])
    have "model_ok (ob_next_client ob2) m"
      using completed(4) ok diff_model_ok [OF _ _ raw] initial_model_ok(1) [OF _ raw]
        without_captureD(2) [OF completed(2)]
      by (cases "ob_model ob") (auto simp: observer_ok_def)
    with update [OF completed(3,4,2)] completed run show ?thesis by (simp add: observer_ok_def)
  qed
qed

end
