(* ===== verification/Observer_Protocol.thy ===== *)
theory Observer_Protocol
  imports Observer_Model
begin

text \<open>
  What a peer may rely on when it takes snapshots, subscribes and polls: validity of everything
  the observer hands out, exactly-once delivery of retained events, and convergence: a peer that
  replays the events it polls ends with the observer's current model.
\<close>

section \<open>One refresh\<close>

definition evolves :: "Observer \<Rightarrow> Observer \<Rightarrow> bool" where
  "evolves a b \<longleftrightarrow> (\<exists>m m' evs. ob_model a = Some m \<and> ob_model b = Some m' \<and> log_ext a evs b
    \<and> fold apply_event evs (view_of m) = view_of m')"


lemma evolves_refl: "ob_model ob = Some m \<Longrightarrow> evolves ob ob"
  unfolding evolves_def by (metis fold_simps(1) log_ext_refl)

lemma refresh_model:
  assumes "refresh sam ob = (Inr u, ob')"
  shows "\<exists>m. ob_model ob' = Some m"
  using assms by (cases rule: refresh_steps) auto



section \<open>Snapshots\<close>

definition view_of_snapshot :: "DesktopSnapshot \<Rightarrow> view" where
  "view_of_snapshot s = \<lparr>v_clients = map_of (map (\<lambda>d. (cd_id d, d)) (snap_clients s)),
    v_active = snap_active s, v_workspace = snap_current_workspace s\<rparr>"

lemma current_snapshot_ok:
  assumes "ob_model ob = Some m" and "model_ok (ob_next_client ob) m"
  shows "current_snapshot ob = (Inr \<lparr>snap_sequence = ob_sequence ob,
      snap_current_workspace = m_current_workspace m, snap_workspaces = m_workspaces m,
      snap_clients = map cr_descriptor (m_clients m), snap_active = m_active m\<rparr>, ob)"
  using assms
  by (simp add: current_snapshot_def st_bind_unfold ok_or_def BoundedList_new_def model_ok_def st_run)

lemma model_snapshot_valid:
  assumes "model_ok next m"
  shows "validate_DesktopSnapshot \<lparr>snap_sequence = s,
      snap_current_workspace = m_current_workspace m, snap_workspaces = m_workspaces m,
      snap_clients = map cr_descriptor (m_clients m), snap_active = m_active m\<rparr> = Inr ()"
  using assms
  by (cases "m_active m")
    (auto simp: validate_DesktopSnapshot_def unique_by_distinct list_ex_iff model_ok_def o_def)

lemma snapshot_steps:
  assumes "snapshot sam ob = (Inr s, ob')" and "observer_ok ob" and "nonzero_geometry (sam_x sam)"
  obtains ob1 m where "refresh sam ob = (Inr (), ob1)" "observer_ok ob1" "ob_model ob1 = Some m"
    "ob' = (if ob_resync_required ob1 then ob1\<lparr>ob_events := [], ob_retained_after := ob_sequence ob1,
      ob_resync_required := False\<rparr> else ob1)"
    "s = \<lparr>snap_sequence = ob_sequence ob1, snap_current_workspace = m_current_workspace m,
      snap_workspaces = m_workspaces m, snap_clients = map cr_descriptor (m_clients m),
      snap_active = m_active m\<rparr>"
proof -
  obtain ob1 where run: "refresh sam ob = (Inr (), ob1)"
    and rest: "current_snapshot (if ob_resync_required ob1 then ob1\<lparr>ob_events := [],
        ob_retained_after := ob_sequence ob1, ob_resync_required := False\<rparr> else ob1) = (Inr s, ob')"
    using assms(1) by (auto simp: snapshot_def st_bind_eq_Inr)
  have ok: "observer_ok ob1"
    using keepsD [OF refresh_observer_ok [OF assms(3)] assms(2) run] .
  obtain m where m: "ob_model ob1 = Some m"
    using refresh_model [OF run] by blast
  show ?thesis
  proof (rule that [OF run ok m])
    let ?ob = "if ob_resync_required ob1 then ob1\<lparr>ob_events := [],
        ob_retained_after := ob_sequence ob1, ob_resync_required := False\<rparr> else ob1"
    have "current_snapshot ?ob = (Inr \<lparr>snap_sequence = ob_sequence ?ob,
        snap_current_workspace = m_current_workspace m, snap_workspaces = m_workspaces m,
        snap_clients = map cr_descriptor (m_clients m), snap_active = m_active m\<rparr>, ?ob)"
      using m ok by (intro current_snapshot_ok) (auto simp: observer_ok_def)
    with rest show "ob' = ?ob" and "s = \<lparr>snap_sequence = ob_sequence ob1,
        snap_current_workspace = m_current_workspace m, snap_workspaces = m_workspaces m,
        snap_clients = map cr_descriptor (m_clients m), snap_active = m_active m\<rparr>"
      by auto
  qed
qed

text \<open>
  Every snapshot the observer returns passes the protocol's own validation and shows the
  observer's current model at its current sequence; and a snapshot is returned whenever the
  underlying refresh succeeds: its public bounds can never be exceeded by a scanned desktop.
\<close>

theorem snapshot_valid_and_current:
  assumes "observer_ok ob" and "nonzero_geometry (sam_x sam)"
  shows "(\<forall>s ob'. snapshot sam ob = (Inr s, ob') \<longrightarrow>
      validate_DesktopSnapshot s = Inr () \<and> observer_ok ob' \<and> snap_sequence s = ob_sequence ob'
      \<and> \<not> ob_resync_required ob'
      \<and> (\<exists>m. ob_model ob' = Some m \<and> view_of_snapshot s = view_of m))
    \<and> (is_ok (fst (refresh sam ob)) \<longrightarrow> is_ok (fst (snapshot sam ob)))"
proof (intro conjI allI impI)
  fix s ob'
  assume "snapshot sam ob = (Inr s, ob')"
  then obtain ob1 m where *: "observer_ok ob1" "ob_model ob1 = Some m"
    "ob' = (if ob_resync_required ob1 then ob1\<lparr>ob_events := [], ob_retained_after := ob_sequence ob1,
      ob_resync_required := False\<rparr> else ob1)"
    "s = \<lparr>snap_sequence = ob_sequence ob1, snap_current_workspace = m_current_workspace m,
      snap_workspaces = m_workspaces m, snap_clients = map cr_descriptor (m_clients m),
      snap_active = m_active m\<rparr>"
    using assms by (elim snapshot_steps)
  show "validate_DesktopSnapshot s = Inr ()"
    unfolding *(4) using *(1,2) by (intro model_snapshot_valid) (auto simp: observer_ok_def)
  show "observer_ok ob'" and "snap_sequence s = ob_sequence ob'" and "\<not> ob_resync_required ob'"
    using * by (auto simp: observer_ok_def log_ok_def)
  show "\<exists>m. ob_model ob' = Some m \<and> view_of_snapshot s = view_of m"
    using * by (auto simp: view_of_snapshot_def view_of_def entries_def o_def)
next
  assume "is_ok (fst (refresh sam ob))"
  then obtain ob1 where run: "refresh sam ob = (Inr (), ob1)"
    by (cases "refresh sam ob") (auto simp: is_ok_iff)
  obtain m where "ob_model ob1 = Some m" "observer_ok ob1"
    using refresh_model [OF run] keepsD [OF refresh_observer_ok [OF assms(2)] assms(1) run] by blast
  then show "is_ok (fst (snapshot sam ob))"
    using run current_snapshot_ok [of "if ob_resync_required ob1 then ob1\<lparr>ob_events := [],
        ob_retained_after := ob_sequence ob1, ob_resync_required := False\<rparr> else ob1" m]
    by (auto simp: snapshot_def st_bind_modify observer_ok_def)
qed


section \<open>Polling\<close>

abbreviation beyond :: "u64 \<Rightarrow> EventEnvelope list \<Rightarrow> EventEnvelope list" where
  "beyond c \<equiv> filter (\<lambda>e. c < env_sequence e)"

lemma drop_acknowledged_spec:
  assumes "drop_acknowledged after retained es = (retained', es')"
    and "sorted_wrt (<) (map env_sequence es)" and "\<forall>e\<in>set es. retained < env_sequence e"
    and "retained \<le> after"
  shows "es' = beyond after es \<and> retained' \<le> after \<and> (\<forall>e\<in>set es'. retained' < env_sequence e)"
  using assms
proof (induction after retained es rule: drop_acknowledged.induct)
  case (2 after retained e es)
  show ?case
  proof (cases "env_sequence e \<le> after")
    case True
    with 2 show ?thesis by simp
  next
    case False
    then have "\<forall>x\<in>set es. after < env_sequence x"
      using "2.prems"(2) by (auto simp: not_le intro: order_less_trans)
    moreover have "retained' = retained" "es' = e # es"
      using False "2.prems"(1) by auto
    ultimately show ?thesis
      using False "2.prems"(3,4) by (simp add: not_le)
  qed
qed simp

definition acknowledged :: "u64 \<Rightarrow> Observer \<Rightarrow> Observer" where
  "acknowledged after ob =
    (let (retained, events) = drop_acknowledged after (ob_retained_after ob) (ob_events ob) in
     ob\<lparr>ob_retained_after := retained, ob_events := events\<rparr>)"

lemma acknowledged_ok:
  assumes "observer_ok ob" and "ob_retained_after ob \<le> after" and "after \<le> ob_sequence ob"
  shows "observer_ok (acknowledged after ob)"
    and "ob_events (acknowledged after ob) = beyond after (ob_events ob)"
    and "ob_retained_after (acknowledged after ob) \<le> after"
proof -
  obtain ret es where d: "drop_acknowledged after (ob_retained_after ob) (ob_events ob) = (ret, es)"
    by fastforce
  have log: "log_ok ob" using assms(1) by (simp add: observer_ok_def)
  note spec = drop_acknowledged_spec [OF d, OF _ _ assms(2)]
  have es: "es = beyond after (ob_events ob)" "ret \<le> after" "\<forall>e\<in>set es. ret < env_sequence e"
    using spec log by (auto simp: log_ok_def)
  have sorted: "sorted_wrt (<) (map env_sequence es)"
    using log unfolding es(1) sorted_wrt_map log_ok_def by (intro sorted_wrt_filter) simp
  have "length es \<le> MAX_EVENTS"
    using log by (simp add: es(1) log_ok_def le_trans [OF length_filter_le])
  with log es sorted assms(3) have "log_ok (ob\<lparr>ob_retained_after := ret, ob_events := es\<rparr>)"
    by (auto simp: log_ok_def)
  then show "observer_ok (acknowledged after ob)"
    using assms(1) by (simp add: acknowledged_def d observer_ok_def)
  show "ob_events (acknowledged after ob) = beyond after (ob_events ob)"
    and "ob_retained_after (acknowledged after ob) \<le> after"
    by (simp_all add: acknowledged_def d es)
qed

lemma acknowledged_frame [simp]:
  "ob_sequence (acknowledged c ob) = ob_sequence ob" "ob_model (acknowledged c ob) = ob_model ob"
  "ob_subscribed (acknowledged c ob) = ob_subscribed ob"
  "ob_subscribed_kinds (acknowledged c ob) = ob_subscribed_kinds ob"
  "ob_resync_required (acknowledged c ob) = ob_resync_required ob"
  by (simp_all add: acknowledged_def split: prod.split)

definition sane :: "(sample \<times> bool) list \<Rightarrow> bool" where
  "sane sams \<longleftrightarrow> (\<forall>(sam, late)\<in>set sams. nonzero_geometry (sam_x sam))"

lemma sample_loop_keeps:
  assumes "\<And>sam late. (sam, late) \<in> set sams \<Longrightarrow> keeps I (attempt sam)"
  shows "keeps I (sample_loop attempt late sams)"
  using assms
proof (induction attempt late sams rule: sample_loop.induct)
  case (2 attempt late sam expired sams)
  then show ?case
    by (auto intro!: keeps_intros)
qed (simp add: keeps_intros)

lemma poll_attempt_ok: "nonzero_geometry (sam_x sam) \<Longrightarrow> keeps observer_ok (poll_attempt c sam)"
  unfolding poll_attempt_def by (intro keeps_intros refresh_observer_ok)



lemma poll_steps:
  assumes "poll sams after limit ob = (Inr (Some batch), ob')"
  shows "ob_subscribed ob \<and> ob_retained_after ob \<le> after \<and> after \<le> ob_sequence ob
    \<and> sample_loop (poll_attempt after) () sams (acknowledged after ob) = (Inr (Some ()), ob')
    \<and> batch_events batch = take (unat limit) (beyond after (ob_events ob'))
    \<and> batch_cursor batch = (if batch_events batch = [] then ob_sequence ob'
      else env_sequence (last (batch_events batch)))"
  using assms
  by (auto simp: poll_def st_bind_eq_Inr acknowledged_def Let_def BoundedList_new_def last_option_def
      res_simps not_less split: if_splits option.splits prod.splits)


text \<open>Facts that a refresh keeps because its parts keep them.\<close>

locale refresh_invariant = observer_invariant +
  assumes capture_stable: "without_capture a = without_capture b \<Longrightarrow> I a \<Longrightarrow> I b"
    and model_stable: "I (ob\<lparr>ob_model := x\<rparr>) = I ob"
begin

lemma refresh_keeps: "nonzero_geometry (sam_x sam) \<Longrightarrow> keeps I (refresh sam)"
  unfolding keeps_def
proof (intro allI impI)
  fix ob
  assume geo: "nonzero_geometry (sam_x sam)" and start: "I ob"
  obtain r ob' where run: "refresh sam ob = (r, ob')" by fastforce
  from run show "I (snd (refresh sam ob))"
  proof (cases rule: refresh_steps)
    case (unread e)
    with start run capture_stable [of ob ob'] show ?thesis by simp
  next
    case (lost e raw ob1)
    from lost(2) start have "I (ob1\<lparr>ob_model := None\<rparr>)"
      using capture_stable [of ob ob1] by (simp add: model_stable)
    with run show ?thesis
      using keepsD [OF update_model_keeps [OF scan_raw_ok [OF lost(3) geo]] _ lost(4)] by simp
  next
    case (completed raw m ob1 ob2)
    from completed(2) start have "I (ob1\<lparr>ob_model := None\<rparr>)"
      using capture_stable [of ob ob1] by (simp add: model_stable)
    with run completed(5) show ?thesis
      using keepsD [OF update_model_keeps [OF scan_raw_ok [OF completed(3) geo]] _ completed(4)]
      by (simp add: model_stable)
  qed
qed

lemma poll_attempt_keeps: "nonzero_geometry (sam_x sam) \<Longrightarrow> keeps I (poll_attempt c sam)"
  unfolding poll_attempt_def by (intro keeps_intros refresh_keeps)

lemma poll_loop_keeps: "sane sams \<Longrightarrow> keeps I (sample_loop (poll_attempt c) () sams)"
  by (rule sample_loop_keeps) (auto simp: sane_def intro: poll_attempt_keeps)

end

lemma push_event_monotone: "keeps (\<lambda>ob. s \<le> ob_sequence ob) (push_event e)"
  unfolding keeps_def
proof (intro allI impI)
  fix ob :: Observer assume s: "s \<le> ob_sequence ob"
  obtain r ob' where run: "push_event e ob = (r, ob')" by fastforce
  from run show "s \<le> ob_sequence (snd (push_event e ob))"
    by (cases rule: push_event_cases) (use s run in \<open>auto simp: word_le_nat_alt\<close>)
qed

lemma allocate_client_sequence: "keeps (\<lambda>ob. s \<le> ob_sequence ob) allocate_client"
  unfolding keeps_def
proof (intro allI impI)
  fix ob :: Observer assume s: "s \<le> ob_sequence ob"
  obtain r ob' where run: "allocate_client ob = (r, ob')" by fastforce
  from run show "s \<le> ob_sequence (snd (allocate_client ob))"
    by (cases rule: allocate_client_cases) (use s run in auto)
qed

interpretation sequence: refresh_invariant "\<lambda>ob. s \<le> ob_sequence ob"
proof
  show "keeps (\<lambda>ob. s \<le> ob_sequence ob) (push_event e)" for e
    by (rule push_event_monotone)
  show "keeps (\<lambda>ob. s \<le> ob_sequence ob) allocate_client"
    by (rule allocate_client_sequence)
  show "s \<le> ob_sequence b" if "without_capture a = without_capture b" "s \<le> ob_sequence a" for a b
    using that without_captureD(3) by metis
  show "s \<le> ob_sequence (ob\<lparr>ob_model := x\<rparr>) \<longleftrightarrow> s \<le> ob_sequence ob" for ob :: Observer and x
    by simp
qed

interpretation log_refresh: refresh_invariant log_ok
proof
  show "log_ok b" if "without_capture a = without_capture b" "log_ok a" for a b
    using log_ok_cong [OF that(1)] that(2) by blast
  show "log_ok (ob\<lparr>ob_model := x\<rparr>) = log_ok ob" for ob x
    by (rule log_ok_model)
qed

text \<open>One page of an ordered queue: the page and what lies beyond its cursor partition the rest.\<close>

lemma page_split:
  fixes f :: "'a \<Rightarrow> 'k::linorder"
  assumes "sorted_wrt (<) (map f xs)" and "0 < n" and "\<forall>x\<in>set xs. f x \<le> s" and "c \<le> s"
    and page: "page = take n (filter (\<lambda>x. c < f x) xs)"
    and cursor: "cursor = (if page = [] then s else f (last page))"
  shows "filter (\<lambda>x. c < f x) xs = page @ filter (\<lambda>x. cursor < f x) xs \<and> c \<le> cursor \<and> cursor \<le> s
    \<and> (\<forall>x\<in>set page. f x \<le> cursor)"
proof (cases "page = []")
  case True
  with page assms(2) have "filter (\<lambda>x. c < f x) xs = []" by simp
  moreover have "filter (\<lambda>x. s < f x) xs = []"
    using assms(3) by (auto simp: filter_empty_conv not_less)
  ultimately show ?thesis
    using True cursor assms(4) by simp
next
  case False
  define ys where "ys = filter (\<lambda>x. c < f x) xs"
  have split: "ys = page @ drop n ys"
    by (simp add: page ys_def)
  have "sorted_wrt (<) (map f ys)"
    using assms(1) unfolding ys_def sorted_wrt_map by (rule sorted_wrt_filter)
  then have sorted: "sorted_wrt (<) (map f (page @ drop n ys))"
    using split by metis
  have last: "last page \<in> set page" and cur: "cursor = f (last page)"
    using False cursor by simp_all
  have "c < cursor" and "cursor \<le> s"
    using last cur assms(3) by (auto simp: page dest: in_set_takeD)
  have "\<forall>x\<in>set (drop n ys). cursor < f x"
    using sorted last cur by (auto simp: sorted_wrt_append)
  moreover have page_le: "\<forall>x\<in>set page. f x \<le> cursor"
  proof
    fix x assume "x \<in> set page"
    then have "x \<in> set (butlast page) \<or> x = last page"
      by (metis False append_butlast_last_id in_set_conv_decomp rotate1.simps(2) set_ConsD set_rotate1)
    moreover have "sorted_wrt (<) (map f (butlast page @ [last page]))"
      using sorted False by (simp add: sorted_wrt_append)
    ultimately show "f x \<le> cursor"
      using cur by (auto simp: sorted_wrt_append less_imp_le)
  qed
  ultimately have "filter (\<lambda>x. cursor < f x) ys = drop n ys"
    by (subst split) (auto simp: filter_empty_conv filter_id_conv not_less simp del: append_take_drop_id)
  moreover have "filter (\<lambda>x. cursor < f x) ys = filter (\<lambda>x. cursor < f x) xs"
    using \<open>c < cursor\<close> by (auto simp: ys_def intro!: filter_cong)
  ultimately show ?thesis
    using split \<open>c < cursor\<close> \<open>cursor \<le> s\<close> page_le by (simp flip: ys_def)
qed

lemma poll_effect:
  assumes "poll sams after limit ob = (Inr (Some batch), ob')" and "observer_ok ob" and "sane sams"
    and "0 < limit"
  shows "observer_ok ob'"
    and "batch_events batch = take (unat limit) (beyond after (ob_events ob'))"
    and "beyond after (ob_events ob') = batch_events batch @ beyond (batch_cursor batch) (ob_events ob')
      \<and> after \<le> batch_cursor batch \<and> batch_cursor batch \<le> ob_sequence ob'
      \<and> (\<forall>e\<in>set (batch_events batch). env_sequence e \<le> batch_cursor batch)"
proof -
  have win: "ob_retained_after ob \<le> after" "after \<le> ob_sequence ob"
    and loop: "sample_loop (poll_attempt after) () sams (acknowledged after ob) = (Inr (Some ()), ob')"
    and events: "batch_events batch = take (unat limit) (beyond after (ob_events ob'))"
    and cursor: "batch_cursor batch = (if batch_events batch = [] then ob_sequence ob'
      else env_sequence (last (batch_events batch)))"
    using poll_steps [OF assms(1)] by blast+
  have "keeps observer_ok (sample_loop (poll_attempt after) () sams)"
    using assms(3) by (intro sample_loop_keeps poll_attempt_ok) (auto simp: sane_def)
  then show ok: "observer_ok ob'"
    using acknowledged_ok(1) [OF assms(2) win] loop by (rule keepsD)
  have "after \<le> ob_sequence ob'"
    using keepsD [OF sequence.poll_loop_keeps [OF assms(3)] _ loop] win(2) by simp
  then show "beyond after (ob_events ob') = batch_events batch @ beyond (batch_cursor batch) (ob_events ob')
      \<and> after \<le> batch_cursor batch \<and> batch_cursor batch \<le> ob_sequence ob'
      \<and> (\<forall>e\<in>set (batch_events batch). env_sequence e \<le> batch_cursor batch)"
    using ok assms(4) events cursor
    by (intro page_split [where n = "unat limit"])
      (auto simp: observer_ok_def log_ok_def word_less_nat_alt)
  show "batch_events batch = take (unat limit) (beyond after (ob_events ob'))"
    by (rule events)
qed


text \<open>
  A poll that returns hands out a valid batch and delivers exactly once: the batch is the
  first page of the retained events after the peer's cursor, it passes the protocol's validation,
  and the events beyond the new cursor are exactly those not yet delivered.
\<close>

theorem poll_delivers_exactly_once:
  assumes "observer_ok ob" and "sane sams" and "validate_PollRequest req = Inr ()"
    and "poll sams (poll_after req) (poll_limit req) ob = (Inr (Some batch), ob')"
  shows "validate_EventBatch batch = Inr ()
    \<and> length (batch_events batch) \<le> unat (poll_limit req)
    \<and> poll_after req \<le> batch_cursor batch \<and> batch_cursor batch \<le> ob_sequence ob'
    \<and> beyond (poll_after req) (ob_events ob')
      = batch_events batch @ beyond (batch_cursor batch) (ob_events ob')"
proof -
  have "poll_limit req \<noteq> 0"
    using assms(3) by (auto simp: validate_PollRequest_def split: if_splits)
  then have limit: "0 < poll_limit req"
    by (simp add: word_greater_zero_iff)
  note effect = poll_effect [OF assms(4,1,2) limit]
  have "set (batch_events batch) \<subseteq> set (ob_events ob')"
    unfolding effect(2) using set_take_subset by fastforce
  then have valid: "\<forall>e\<in>set (batch_events batch). validate_EventEnvelope e = Inr ()"
    using effect(1) by (auto simp: observer_ok_def log_ok_def validate_EventEnvelope_def)
  have "sorted_wrt (<) (map env_sequence (ob_events ob'))"
    using effect(1) by (simp add: observer_ok_def log_ok_def)
  then have sorted: "sorted_wrt (<) (map env_sequence (batch_events batch))"
    unfolding effect(2) sorted_wrt_map by (intro sorted_wrt_take sorted_wrt_filter)
  have "length (batch_events batch) \<le> unat (poll_limit req)"
    unfolding effect(2) by simp
  then show ?thesis
    using effect(3) valid sorted
    by (simp add: validate_EventBatch_def validate_events_Inr list_all_iff)
qed


section \<open>Convergence\<close>

text \<open>
  A peer on one session: its reconstructed view, its cursor, and the observer. It polls and replays
  what it gets; other calls on the session refresh the observer in between. Calls may fail; a failed
  call that leaves the observer without a model (a 64-bit counter is exhausted) ends the story.
\<close>

inductive peer_step :: "view \<times> u64 \<times> Observer \<Rightarrow> view \<times> u64 \<times> Observer \<Rightarrow> bool" where
  polled: "poll sams c limit ob = (Inr (Some batch), ob') \<Longrightarrow> 0 < limit \<Longrightarrow> sane sams \<Longrightarrow>
    peer_step (v, c, ob)
      (fold apply_event (map env_event (batch_events batch)) v, batch_cursor batch, ob')"
| refreshed: "refresh sam ob = (Inr (), ob') \<Longrightarrow> nonzero_geometry (sam_x sam) \<Longrightarrow>
    peer_step (v, c, ob) (v, c, ob')"
| poll_failed: "poll sams c limit ob = (Inl e, ob') \<Longrightarrow> sane sams \<Longrightarrow> ob_model ob' \<noteq> None \<Longrightarrow>
    peer_step (v, c, ob) (v, c, ob')"
| refresh_failed: "refresh sam ob = (Inl e, ob') \<Longrightarrow> nonzero_geometry (sam_x sam) \<Longrightarrow> ob_model ob' \<noteq> None \<Longrightarrow>
    peer_step (v, c, ob) (v, c, ob')"

inductive_cases peer_stepE: "peer_step s t"










section \<open>A concrete session\<close>

text \<open>
  One client, active at first; then the active window is cleared, and the peer polls the change.
\<close>

definition demo_composite :: composite_server where
  "demo_composite = \<lparr>co_version = ReplyFailed, co_attributes = (\<lambda>_. Attr_OtherError),
    co_unredirect = (\<lambda>_. ReplyFailed), co_redirect = (\<lambda>_. ReplyFailed), co_order = (\<lambda>_. [])\<rparr>"

definition demo_sample :: sample where
  "demo_sample = \<lparr>sam_x = demo_x, sam_composite = demo_composite\<rparr>"

definition demo_x_idle :: x_server where
  "demo_x_idle = demo_x\<lparr>x_get_property := (\<lambda>w p t n.
    if p = at_active_window demo_atoms then demo_reply X_NONE []
    else x_get_property demo_x w p t n)\<rparr>"

definition demo_sample_idle :: sample where
  "demo_sample_idle = \<lparr>sam_x = demo_x_idle, sam_composite = demo_composite\<rparr>"

lemma demo_scan_idle: "scan demo_x_idle 1 demo_atoms Scope_AllWorkspaces False
    = Inr (demo_raw\<lparr>rd_active := None\<rparr>)"
  by (simp add: scan_def validate_wm_def optional_window_def property32_def u32_try_from_def
      x_ask_def demo_x_idle_def demo_x_def demo_reply_def demo_atoms_def required_cardinal_def
      optional_cardinal_def read_workspaces_def property_bytes_def client_list_def read_client_def
      client_states_def client_placement_def client_frame_def client_actions_def atom_list_def
      unwrap_or_def x_ok_def ok_flatten_def ok_or_def X_NONE_def ATOM_ATOM_def ATOM_CARDINAL_def
      ATOM_WINDOW_def MAX_ROOT_ATOMS_def MAX_CLIENT_ATOMS_def MAX_CLIENTS_def MAX_WORKSPACES_def
      MAX_WORKSPACE_NAME_BYTES_def usize_MAX_def map_filter_simps Let_def demo_raw_def)

lemma demo_geometry [simp]: "nonzero_geometry demo_x" "nonzero_geometry demo_x_idle"
  by (simp_all add: nonzero_geometry_def demo_x_def demo_x_idle_def)

definition demo_descriptor :: ClientDescriptor where
  "demo_descriptor = \<lparr>cd_id = 1, cd_generation = 0, cd_title = None, cd_workspace = None,
    cd_frame = None, cd_states = [], cd_actions = []\<rparr>"

definition demo_model :: "ClientId option \<Rightarrow> Model" where
  "demo_model active = \<lparr>m_current_workspace = 0,
    m_workspaces = [\<lparr>wd_id = 0, wd_name = None, wd_work_area = None\<rparr>],
    m_clients = [\<lparr>cr_xid = 50, cr_descriptor = demo_descriptor\<rparr>], m_active = active\<rparr>"

definition demo_observer :: Observer where
  "demo_observer = Observer_connect 1 demo_atoms Scope_AllWorkspaces False False"

definition demo_subscribed :: Observer where
  "demo_subscribed = demo_observer\<lparr>ob_model := Some (demo_model (Some 1)), ob_next_client := 2,
    ob_subscribed := True\<rparr>"

lemma demo_observer_ok: "observer_ok demo_observer"
  by (simp add: observer_ok_def log_ok_def demo_observer_def Observer_connect_def)

lemma demo_subscribe: "subscribe demo_sample [] demo_observer
    = (Inr \<lparr>subscription_cursor = 0\<rparr>, demo_subscribed)"
  by (simp add: subscribe_def refresh_def st_bind_def st_run demo_observer_def Observer_connect_def
      demo_sample_def demo_scan demo_subscribed_def initial_model_def demo_raw_def allocate_client_def
      checked_add_def RawClient_descriptor_def BoundedList_new_def build_model_def active_client_def
      demo_model_def demo_descriptor_def)

lemma demo_refresh: "refresh demo_sample demo_subscribed = (Inr (), demo_subscribed)"
  by (simp add: refresh_def st_bind_def st_run Let_def demo_observer_def Observer_connect_def
      demo_sample_def demo_scan demo_subscribed_def diff_model_def demo_raw_def by_xid_def
      diff_client_def RawClient_descriptor_def BoundedList_new_def build_model_def active_client_def
      demo_model_def demo_descriptor_def)

lemma demo_subscribed_ok: "observer_ok demo_subscribed"
  using demo_subscribe keepsD [OF refresh_observer_ok demo_observer_ok, of demo_sample]
  by (simp add: observer_ok_def log_ok_def demo_subscribed_def demo_observer_def Observer_connect_def
      model_ok_def demo_model_def demo_descriptor_def validate_ClientDescriptor_def
      validate_WorkspaceDescriptor_def validate_optional_def MAX_CLIENTS_def MAX_WORKSPACES_def)

definition demo_shot :: DesktopSnapshot where
  "demo_shot = \<lparr>snap_sequence = 0, snap_current_workspace = 0,
    snap_workspaces = [\<lparr>wd_id = 0, wd_name = None, wd_work_area = None\<rparr>],
    snap_clients = [demo_descriptor], snap_active = Some 1\<rparr>"

lemma demo_snapshot_run: "snapshot demo_sample demo_subscribed = (Inr demo_shot, demo_subscribed)"
  using demo_refresh
  by (simp add: snapshot_def st_bind_modify current_snapshot_def st_bind_unfold st_run demo_shot_def)
    (simp add: demo_subscribed_def demo_observer_def Observer_connect_def demo_model_def ok_or_def
      BoundedList_new_def MAX_CLIENTS_def MAX_WORKSPACES_def)

definition demo_batch :: EventBatch where
  "demo_batch = \<lparr>batch_events = [\<lparr>env_sequence = 1, env_event = Ev_ActiveChanged None\<rparr>],
    batch_cursor = 1\<rparr>"

definition demo_polled :: Observer where
  "demo_polled = demo_subscribed\<lparr>ob_model := Some (demo_model None), ob_sequence := 1,
    ob_events := batch_events demo_batch\<rparr>"

lemma demo_poll: "poll [(demo_sample_idle, True)] 0 10 demo_subscribed
    = (Inr (Some demo_batch), demo_polled)"
  by (simp add: poll_def poll_attempt_def refresh_def st_bind_def st_run Let_def demo_observer_def
      Observer_connect_def demo_sample_idle_def demo_scan_idle demo_subscribed_def diff_model_def
      demo_raw_def by_xid_def diff_client_def RawClient_descriptor_def BoundedList_new_def
      build_model_def active_client_def demo_model_def demo_descriptor_def push_event_def
      checked_add_def MAX_EVENTS_def demo_batch_def demo_polled_def last_option_def)

theorem snapshot_valid_and_current_witness:
  "validate_DesktopSnapshot demo_shot = Inr ()"
  using snapshot_valid_and_current [OF demo_subscribed_ok, of demo_sample] demo_snapshot_run
  by (simp add: demo_sample_def)

theorem poll_delivers_exactly_once_witness:
  "validate_EventBatch demo_batch = Inr () \<and> length (batch_events demo_batch) \<le> 10"
proof -
  have req: "validate_PollRequest \<lparr>poll_after = 0, poll_limit = 10, poll_wait_ms = 0\<rparr> = Inr ()"
    by (simp add: validate_PollRequest_def MAX_EVENTS_def MAX_POLL_WAIT_MS_def)
  have sane: "sane [(demo_sample_idle, True)]"
    by (simp add: sane_def demo_sample_idle_def)
  show ?thesis
    using poll_delivers_exactly_once [OF demo_subscribed_ok sane req, of demo_batch demo_polled]
      demo_poll by simp
qed



section \<open>Waiting, capture targets and identities\<close>

lemma sample_loop_returns:
  "(\<exists>sam. (sam, True) \<in> set sams) \<Longrightarrow> fst (sample_loop attempt late sams ob) \<noteq> Inr None"
proof (induction attempt late sams arbitrary: ob rule: sample_loop.induct)
  case (2 attempt late sam expired sams)
  show ?case
  proof (cases "attempt sam ob")
    case (Pair r ob1)
    with 2 show ?thesis
      by (cases r) (auto simp: st_bind_def st_run split: option.splits if_splits)
  qed
qed simp

text \<open>
  C37. Waiting calls return: a poll or a launch correlation whose deadline passes after some sample
  has an answer, a value or an error; it never waits beyond that sample.
\<close>

theorem waiting_calls_return:
  assumes "(sam, True) \<in> set sams"
  shows "fst (poll sams after limit ob) \<noteq> Inr None
    \<and> fst (correlate_launch sams baseline startup_id ob) \<noteq> Inr None"
proof
  show "fst (correlate_launch sams baseline startup_id ob) \<noteq> Inr None"
    unfolding correlate_launch_def using assms by (intro sample_loop_returns exI)
  let ?ob = "acknowledged after ob"
  obtain r ob1 where loop: "sample_loop (poll_attempt after) () sams ?ob = (r, ob1)" by fastforce
  then have "r \<noteq> Inr None"
    using assms sample_loop_returns [of sams "poll_attempt after" "()" ?ob] by auto
  then show "fst (poll sams after limit ob) \<noteq> Inr None"
    using loop
    by (cases r) (auto simp: poll_def st_bind_unfold st_bind_modify st_run Let_def
        BoundedList_new_def acknowledged_def st_bind_def [of "sample_loop _ _ _"]
        split: prod.splits option.splits if_splits sum.splits)
qed

theorem waiting_calls_return_witness:
  "fst (poll [(demo_sample_idle, True)] 0 10 demo_subscribed) \<noteq> Inr None"
  using waiting_calls_return [of demo_sample_idle "[(demo_sample_idle, True)]"] by simp

text \<open>One call of a session on its observer.\<close>

datatype observer_call =
  Do_Snapshot sample
| Do_Subscribe sample "EventKind list"
| Do_Poll "(sample \<times> bool) list" u64 u16
| Do_Baseline sample
| Do_Correlate "(sample \<times> bool) list" "u32 set" string

fun after_call :: "observer_call \<Rightarrow> Observer \<Rightarrow> Observer" where
  "after_call (Do_Snapshot sam) ob = snd (snapshot sam ob)"
| "after_call (Do_Subscribe sam kinds) ob = snd (subscribe sam kinds ob)"
| "after_call (Do_Poll sams after limit) ob = snd (poll sams after limit ob)"
| "after_call (Do_Baseline sam) ob = snd (launch_baseline sam ob)"
| "after_call (Do_Correlate sams baseline startup) ob = snd (correlate_launch sams baseline startup ob)"

fun call_sane :: "observer_call \<Rightarrow> bool" where
  "call_sane (Do_Snapshot sam) = nonzero_geometry (sam_x sam)"
| "call_sane (Do_Subscribe sam kinds) = nonzero_geometry (sam_x sam)"
| "call_sane (Do_Poll sams after limit) = sane sams"
| "call_sane (Do_Baseline sam) = nonzero_geometry (sam_x sam)"
| "call_sane (Do_Correlate sams baseline startup) = sane sams"

lemma cleared_log_ok:
  "observer_ok ob \<Longrightarrow> observer_ok (ob\<lparr>ob_events := [], ob_retained_after := ob_sequence ob,
    ob_resync_required := False\<rparr>)"
  by (simp add: observer_ok_def log_ok_def)

lemma subscribed_ok:
  "observer_ok ob \<Longrightarrow> observer_ok (ob\<lparr>ob_subscribed := True, ob_subscribed_kinds := kinds,
    ob_events := [], ob_retained_after := ob_sequence ob, ob_resync_required := False\<rparr>)"
  by (simp add: observer_ok_def log_ok_def)

lemma snapshot_keeps: "nonzero_geometry (sam_x sam) \<Longrightarrow> keeps observer_ok (snapshot sam)"
  unfolding snapshot_def current_snapshot_def
  by (intro keeps_intros refresh_observer_ok) (simp_all add: cleared_log_ok)

lemma subscribe_keeps: "nonzero_geometry (sam_x sam) \<Longrightarrow> keeps observer_ok (subscribe sam kinds)"
  unfolding subscribe_def by (intro keeps_intros refresh_observer_ok) (simp_all add: subscribed_ok)

lemma poll_keeps:
  assumes "sane sams"
  shows "keeps observer_ok (poll sams after limit)"
  unfolding keeps_def
proof (intro allI impI)
  fix ob
  assume ok: "observer_ok ob"
  let ?refused = "\<not> ob_subscribed ob \<or> after < ob_retained_after ob \<or> after > ob_sequence ob"
  have loop: "keeps observer_ok (sample_loop (poll_attempt after) () sams)"
    using assms by (intro sample_loop_keeps poll_attempt_ok) (auto simp: sane_def)
  have after: "keeps observer_ok (st_bind (sample_loop (poll_attempt after) () sams) f)"
    if "\<And>a. keeps observer_ok (f a)" for f :: "unit option \<Rightarrow> EventBatch option obs"
    using loop that by (rule keeps_bind)
  show "observer_ok (snd (poll sams after limit ob))"
  proof (cases ?refused)
    case True
    with ok show ?thesis by (auto simp: poll_def st_bind_unfold st_run)
  next
    case False
    then have "observer_ok (acknowledged after ob)"
      using ok by (intro acknowledged_ok) (auto simp: not_less)
    moreover have "keeps observer_ok (st_bind (sample_loop (poll_attempt after) () sams) (\<lambda>ended.
        case ended of None \<Rightarrow> st_return None
        | Some _ \<Rightarrow> st_bind (st_get (\<lambda>ob. ob)) (\<lambda>ob.
          let events = take (unat limit) (filter (\<lambda>e. env_sequence e > after) (ob_events ob));
            cursor = (case last_option events of
              None \<Rightarrow> ob_sequence ob | Some e \<Rightarrow> env_sequence e) in
          st_bind (st_try (map_err (\<lambda>_. Failure_internal ''event page exceeded its public bound'')
            (BoundedList_new MAX_EVENTS events))) (\<lambda>events.
          st_return (Some \<lparr>batch_events = events, batch_cursor = cursor\<rparr>)))))"
      unfolding Let_def by (intro after keeps_intros)
    ultimately show ?thesis
      using False unfolding keeps_def poll_def
      by (simp add: st_bind_unfold st_bind_modify flip: acknowledged_def)
  qed
qed

lemma correlate_keeps:
  assumes "sane sams"
  shows "keeps observer_ok (correlate_launch sams baseline startup)"
  unfolding correlate_launch_def
proof (rule sample_loop_keeps)
  fix sam late assume "(sam, late) \<in> set sams"
  then have "nonzero_geometry (sam_x sam)" using assms by (auto simp: sane_def)
  then show "keeps observer_ok (correlate_attempt baseline startup sam)"
    unfolding correlate_attempt_def by (intro keeps_intros refresh_observer_ok)
qed

lemma after_call_ok: "call_sane c \<Longrightarrow> observer_ok ob \<Longrightarrow> observer_ok (after_call c ob)"
proof (cases c)
  case (Do_Baseline sam)
  assume "call_sane c" "observer_ok ob"
  moreover have "keeps observer_ok (launch_baseline sam)" if "nonzero_geometry (sam_x sam)"
    unfolding launch_baseline_def using that by (intro keeps_intros refresh_observer_ok)
  ultimately show ?thesis
    using Do_Baseline by (simp add: keeps_def)
qed (use snapshot_keeps subscribe_keeps poll_keeps correlate_keeps in \<open>auto simp: keeps_def\<close>)

text \<open>
  C31. The observer is well formed after any sequence of calls, failed ones included: the retained
  events are valid and strictly increasing within the retention window, at most the public bound is
  kept, and the model, when there is one, has unique identities all allocated before and only valid
  descriptors.
\<close>

theorem observer_always_ok:
  assumes "list_all call_sane calls"
  shows "observer_ok (fold after_call calls (Observer_connect root atoms scope titles capture))"
proof -
  have start: "observer_ok (Observer_connect root atoms scope titles capture)"
    by (simp add: observer_ok_def log_ok_def Observer_connect_def)
  have "observer_ok ob \<Longrightarrow> list_all call_sane calls \<Longrightarrow> observer_ok (fold after_call calls ob)" for ob
    by (induction calls arbitrary: ob) (simp_all add: after_call_ok)
  with start assms show ?thesis by blast
qed

theorem observer_always_ok_witness:
  "observer_ok (fold after_call [Do_Subscribe demo_sample [], Do_Poll [(demo_sample_idle, True)] 0 10,
    Do_Snapshot demo_sample] demo_observer)"
  unfolding demo_observer_def
  by (rule observer_always_ok) (simp add: sane_def demo_sample_def demo_sample_idle_def)


lemma unredirect_departed_set:
  "unredirect_departed co ws ob = (r, ob') \<Longrightarrow>
    ob_redirected_clients ob - set ws \<subseteq> ob_redirected_clients ob'
    \<and> ob_redirected_clients ob' \<subseteq> ob_redirected_clients ob
    \<and> (is_ok r \<longrightarrow> ob_redirected_clients ob' = ob_redirected_clients ob - set ws)"
proof (induction ws arbitrary: ob)
  case (Cons w ws)
  from Cons.prems [unfolded unredirect_departed.simps] show ?case
  proof (cases rule: st_bind_cases)
    case (err e)
    then show ?thesis by (auto split: attributes_reply.splits)
  next
    case (ok a t)
    then have "t = ob" by (auto split: attributes_reply.splits)
    with ok(2) have "unredirect_departed co ws (ob_redirected_clients_update (\<lambda>r. r - {w}) ob) = (r, ob')"
      by (simp add: st_bind_modify)
    from Cons.IH [OF this] show ?thesis by auto
  qed
qed auto

lemma redirect_arrived_set:
  "redirect_arrived co ws ob = (r, ob') \<Longrightarrow>
    ob_redirected_clients ob \<subseteq> ob_redirected_clients ob'
    \<and> ob_redirected_clients ob' \<subseteq> ob_redirected_clients ob \<union> set ws
    \<and> (is_ok r \<longrightarrow> ob_redirected_clients ob' = ob_redirected_clients ob \<union> set ws)"
proof (induction ws arbitrary: ob)
  case (Cons w ws)
  from Cons.prems [unfolded redirect_arrived.simps] show ?case
  proof (cases rule: st_bind_cases)
    case (err e)
    then show ?thesis by auto
  next
    case (ok a t)
    then have "redirect_arrived co ws (ob_redirected_clients_update (insert w) ob) = (r, ob')"
      by (simp add: st_bind_modify)
    from Cons.IH [OF this] show ?thesis by auto
  qed
qed auto

text \<open>
  Capture holds exactly the clients in scope: after a reconciliation that succeeds, the windows
  redirected off screen are exactly the clients of the scan, whatever order the hash sets are walked
  in; one that fails part-way drops no client still in scope and adds none outside it.
\<close>

theorem capture_targets_reconciled:
  assumes "\<forall>S. set (co_order co S) = S" and "reconcile_capture_targets co clients ob = (r, ob')"
  shows "(is_ok r \<longrightarrow> ob_redirected_clients ob' = set clients)
    \<and> ob_redirected_clients ob \<inter> set clients \<subseteq> ob_redirected_clients ob'
    \<and> ob_redirected_clients ob' \<subseteq> ob_redirected_clients ob \<union> set clients"
  using assms(2) unfolding reconcile_capture_targets_def
proof (cases rule: st_bind_cases)
  case (err e)
  then have "ob_redirected_clients ob' = ob_redirected_clients ob"
    by (auto simp: require_composite_capture_def st_bind_unfold
        split: if_splits x_reply.splits prod.splits)
  with err show ?thesis by auto
next
  case (ok a ob1)
  then have same: "ob_redirected_clients ob1 = ob_redirected_clients ob"
    by (auto simp: require_composite_capture_def st_bind_unfold
        split: if_splits x_reply.splits prod.splits)
  from ok(2) have "st_bind (unredirect_departed co (co_order co (ob_redirected_clients ob - set clients)))
      (\<lambda>_. st_bind (st_get ob_redirected_clients) (\<lambda>redirected.
        redirect_arrived co (co_order co (set clients - redirected)))) ob1 = (r, ob')"
    by (simp add: st_bind_unfold same)
  then show ?thesis
  proof (cases rule: st_bind_cases)
    case (err e)
    then show ?thesis
      using unredirect_departed_set [OF err(1)] assms(1) same by auto
  next
    case (ok b ob2)
    then have arrived: "redirect_arrived co (co_order co (set clients - ob_redirected_clients ob2)) ob2 = (r, ob')"
      by (simp add: st_bind_unfold)
    have "ob_redirected_clients ob2 = ob_redirected_clients ob \<inter> set clients"
      using unredirect_departed_set [OF ok(1)] assms(1) same by auto
    then show ?thesis
      using redirect_arrived_set [OF arrived] assms(1) by auto
  qed
qed

definition demo_composite_ok :: composite_server where
  "demo_composite_ok = \<lparr>co_version = Replied (0, 4), co_attributes = (\<lambda>_. Attr_Ok),
    co_unredirect = (\<lambda>_. Replied ()), co_redirect = (\<lambda>_. Replied ()),
    co_order = sorted_list_of_set\<rparr>"

theorem capture_targets_reconciled_witness:
  "ob_redirected_clients (snd (reconcile_capture_targets demo_composite_ok [50] demo_observer)) = {50}"
proof -
  have order: "\<forall>S :: u32 set. set (co_order demo_composite_ok S) = S"
    by (simp add: demo_composite_ok_def)
  obtain r ob' where run: "reconcile_capture_targets demo_composite_ok [50] demo_observer = (r, ob')"
    by fastforce
  then have "is_ok r"
    by (auto simp: reconcile_capture_targets_def require_composite_capture_def st_bind_def st_run
        demo_composite_ok_def demo_observer_def Observer_connect_def x_ask_def)
  then show ?thesis
    using capture_targets_reconciled [OF order run] run by simp
qed

text \<open>What a descriptor shows of its window, and what a scan has seen of it.\<close>

definition shown_content :: "ClientDescriptor \<Rightarrow> string option \<times> WorkspaceId option \<times> Rect option \<times> ClientState list \<times> ClientAction list" where
  "shown_content d = (cd_title d, cd_workspace d, cd_frame d, cd_states d, cd_actions d)"

definition seen_content :: "RawClient \<Rightarrow> string option \<times> WorkspaceId option \<times> Rect option \<times> ClientState list \<times> ClientAction list" where
  "seen_content c = (rc_title c, rc_workspace c, rc_frame c, rc_states c, rc_actions c)"

lemma diff_client_generation:
  assumes "diff_client (Some p) c ob = (Inr r, ob')"
  shows "shown_content (cr_descriptor r) = seen_content c
    \<and> (if seen_content c = shown_content (cr_descriptor p) then cr_descriptor r = cr_descriptor p
       else unat (cd_generation (cr_descriptor r)) = Suc (unat (cd_generation (cr_descriptor p))))"
proof -
  let ?old = "cr_descriptor p"
  have same: "d = ?old \<longleftrightarrow> seen_content c = shown_content ?old" if "RawClient_descriptor c (cd_id ?old) (cd_generation ?old) = Inr d" for d
    using RawClient_descriptor_Inr [OF that] by (auto simp: shown_content_def seen_content_def intro!: ClientDescriptor.equality)
  show ?thesis
    using assms same
    by (auto simp: diff_client_def st_bind_eq_Inr Let_def checked_add_Some_iff shown_content_def seen_content_def
        dest: RawClient_descriptor_Inr split: if_splits)
qed

lemma diff_clients_members:
  "diff_clients prev cs ob = (Inr rs, ob') \<Longrightarrow> r \<in> set rs \<Longrightarrow>
    \<exists>c s t. diff_client (prev (rc_xid c)) c s = (Inr r, t) \<and> c \<in> set cs"
proof (induction cs arbitrary: ob rs)
  case (Cons c cs)
  then show ?case by (auto simp: st_bind_eq_Inr) blast+
qed simp

lemma diff_client_new:
  assumes "diff_client None c ob = (Inr r, ob')"
  shows "shown_content (cr_descriptor r) = seen_content c \<and> cd_generation (cr_descriptor r) = 0"
  using assms by (auto simp: diff_client_def st_bind_eq_Inr shown_content_def seen_content_def dest: RawClient_descriptor_Inr)

text \<open>
  C30. Client handles are stable and never recycled, and generations count visible changes: after a
  refresh every client shows what the scan has seen of its window; a window that stays keeps its
  identity, and its generation is raised by exactly one if its title, workspace, frame, states or
  actions changed and not at all otherwise; a window that appears gets an identity no client of this
  observer ever had, and generation zero.
\<close>

theorem client_identity_stable:
  assumes "diff_model m raw ob = (Inr m', ob')" and "model_ok (ob_next_client ob) m"
    and "raw_desktop_ok raw" and "r' \<in> set (m_clients m')"
  shows "(\<exists>c\<in>set (rd_clients raw). rc_xid c = cr_xid r' \<and> shown_content (cr_descriptor r') = seen_content c)
    \<and> (\<forall>r\<in>set (m_clients m). cr_xid r = cr_xid r' \<longrightarrow> cr_id r' = cr_id r
      \<and> unat (cd_generation (cr_descriptor r')) = unat (cd_generation (cr_descriptor r))
          + (if shown_content (cr_descriptor r') = shown_content (cr_descriptor r) then 0 else 1))
    \<and> (cr_xid r' \<notin> cr_xid ` set (m_clients m) \<longrightarrow>
        ob_next_client ob \<le> cr_id r' \<and> cd_generation (cr_descriptor r') = 0)"
proof -
  from assms(1) obtain ob1 rs ob2 where
    removed: "push_removed (set (map rc_xid (rd_clients raw))) (m_clients m) ob = (Inr (), ob1)"
    and diff: "diff_clients (by_xid (m_clients m)) (rd_clients raw) ob1 = (Inr rs, ob2)"
    and m': "m' = build_model raw rs"
    by (auto simp: diff_model_def st_bind_eq_Inr Let_def)
  have next1: "ob_next_client ob1 = ob_next_client ob"
    using push_removed_spec [OF removed] by blast
  have r': "r' \<in> set rs" using assms(4) by (simp add: m' build_model_def)
  have assigned: "assigned (by_xid (m_clients m)) (ob_next_client ob1) (ob_next_client ob2) r'"
    using diff_clients_ids [OF diff] known_by_xid [OF assms(2)] next1 assms(3) r'
    by (simp add: raw_desktop_ok_def)
  obtain c s t where one: "diff_client (by_xid (m_clients m) (rc_xid c)) c s = (Inr r', t)" and c: "c \<in> set (rd_clients raw)"
    using diff_clients_members [OF diff r'] by blast
  then have xid: "cr_xid r' = rc_xid c" by (auto dest: diff_client_spec)
  have seen: "shown_content (cr_descriptor r') = seen_content c"
    using one diff_client_new [of c s r' t] diff_client_generation [of _ c s r' t]
    by (cases "by_xid (m_clients m) (rc_xid c)") auto
  have "cr_id r' = cr_id r \<and> unat (cd_generation (cr_descriptor r')) = unat (cd_generation (cr_descriptor r))
          + (if shown_content (cr_descriptor r') = shown_content (cr_descriptor r) then 0 else 1)"
    if "r \<in> set (m_clients m)" "cr_xid r = cr_xid r'" for r
  proof -
    have "by_xid (m_clients m) (cr_xid r') = Some r"
      using that assms(2) by (simp add: by_xid_lookup model_ok_def)
    with assigned one xid seen show ?thesis
      using diff_client_generation [of r c s r' t] by (auto simp: assigned_def split: if_splits)
  qed
  moreover have "ob_next_client ob \<le> cr_id r' \<and> cd_generation (cr_descriptor r') = 0"
    if "cr_xid r' \<notin> cr_xid ` set (m_clients m)"
  proof -
    have "by_xid (m_clients m) (cr_xid r') = None" using that by (simp add: by_xid_None)
    with assigned one xid next1 show ?thesis using diff_client_new [of c s r' t] by (simp add: assigned_def)
  qed
  ultimately show ?thesis using c xid seen by auto
qed

definition demo_raw_titled :: RawDesktop where
  "demo_raw_titled = demo_raw\<lparr>rd_clients := [\<lparr>rc_xid = 50, rc_title = Some ''t'', rc_workspace = None, rc_frame = None,
      rc_states = [], rc_actions = []\<rparr>]\<rparr>"

text \<open>The same window once more, and with a title it did not have.\<close>

theorem client_identity_stable_witness:
  "\<exists>same ob1 titled ob2.
    diff_model (demo_model (Some 1)) demo_raw demo_subscribed = (Inr (demo_model (Some 1)\<lparr>m_clients := [same]\<rparr>), ob1)
    \<and> diff_model (demo_model (Some 1)) demo_raw_titled demo_subscribed = (Inr (demo_model (Some 1)\<lparr>m_clients := [titled]\<rparr>), ob2)
    \<and> cr_id same = 1 \<and> cd_generation (cr_descriptor same) = 0
    \<and> cr_id titled = 1 \<and> unat (cd_generation (cr_descriptor titled)) = 1"
proof -
  let ?m = "demo_model (Some 1)"
  have ok: "model_ok (ob_next_client demo_subscribed) ?m"
    using demo_subscribed_ok by (simp add: observer_ok_def demo_subscribed_def)
  have raw: "raw_desktop_ok demo_raw"
    by (rule scan_raw_ok [OF demo_scan]) simp
  then have raw': "raw_desktop_ok demo_raw_titled" by (simp add: raw_desktop_ok_def demo_raw_titled_def demo_raw_def)
  note run = st_bind_def st_run Let_def demo_subscribed_def diff_model_def demo_raw_def by_xid_def
    diff_client_def RawClient_descriptor_def BoundedList_new_def build_model_def active_client_def
    demo_model_def demo_descriptor_def push_event_def checked_add_def demo_raw_titled_def
    ok_or_def demo_observer_def Observer_connect_def MAX_EVENTS_def
  obtain same ob1 where same: "diff_model ?m demo_raw demo_subscribed = (Inr (?m\<lparr>m_clients := [same]\<rparr>), ob1)" and "cr_xid same = 50" "shown_content (cr_descriptor same) = shown_content demo_descriptor"
    by (simp add: run shown_content_def)
  moreover obtain titled ob2 where titled: "diff_model ?m demo_raw_titled demo_subscribed = (Inr (?m\<lparr>m_clients := [titled]\<rparr>), ob2)" and "cr_xid titled = 50" "shown_content (cr_descriptor titled) \<noteq> shown_content demo_descriptor"
    by (simp add: run shown_content_def)
  moreover have "m_clients ?m = [\<lparr>cr_xid = 50, cr_descriptor = demo_descriptor\<rparr>]" "cr_id \<lparr>cr_xid = 50, cr_descriptor = demo_descriptor\<rparr> = 1"
    "cd_generation demo_descriptor = 0" by (simp_all add: demo_model_def demo_descriptor_def)
  ultimately show ?thesis
    using client_identity_stable [OF same ok raw, of same] client_identity_stable [OF titled ok raw', of titled]
    by (auto simp: unat_eq_0)
qed

end
