(* ===== verification/Observer_Manager.thy ===== *)
theory Observer_Manager
  imports Observer_Protocol
begin

text \<open>
  EWMH management (\<^verbatim>\<open>agent-seat-x11/src/observer/manager.rs\<close>): under a server grab the observer is
  refreshed, the request is checked against the fresh model and turned into one client message, and
  after the grab the observer waits for the requested effect. The replies of the X server are
  parameters of the call (\<open>manage_env\<close>); the messages actually sent are part of the result.
\<close>

unbundle bit_operations_syntax

section \<open>Requests and messages\<close>

datatype Operation =
  Op_Activate TargetRequest
| Op_Close TargetRequest
| Op_WorkspaceSwitch WorkspaceRequest
| Op_ClientWorkspace ClientWorkspaceRequest
| Op_State ClientStateRequest
| Op_Geometry ClientGeometryRequest

record ClientMessageEvent =
  cme_format :: u8
  cme_window :: u32
  cme_type :: u32
  cme_data :: "u32 list"

definition ClientMessageEvent_new :: "u32 \<Rightarrow> u32 \<Rightarrow> u32 list \<Rightarrow> ClientMessageEvent" where
  "ClientMessageEvent_new window atom data =
    \<lparr>cme_format = 32, cme_window = window, cme_type = atom, cme_data = data\<rparr>"

datatype Desired =
  Want_Active ClientId
| Want_Closed ClientId
| Want_Workspace WorkspaceId
| Want_ClientWorkspace ClientId WorkspaceId
| Want_State ClientId ClientState bool
| Want_Geometry ClientId Rect

record Prepared =
  prep_event :: ClientMessageEvent
  prep_desired :: Desired

record Target =
  tg_id :: ClientId
  tg_xid :: u32
  tg_frame :: "Rect option"
  tg_states :: "ClientState list"
  tg_actions :: "ClientAction list"

definition PAGER_SOURCE :: u32 where "PAGER_SOURCE = 2"
definition STATIC_GRAVITY :: u32 where "STATIC_GRAVITY = 10"

section \<open>Checks\<close>

definition obs_model :: "Observer \<Rightarrow> Failure + Model" where
  "obs_model ob = ok_or (ob_model ob) (Failure_internal ''observer has no current model'')"

definition obs_record :: "Observer \<Rightarrow> ClientId \<Rightarrow> ClientRecord option" where
  "obs_record ob i = Option.bind (ob_model ob) (\<lambda>m. find (\<lambda>r. cr_id r = i) (m_clients m))"

definition target :: "Observer \<Rightarrow> TargetRequest \<Rightarrow> Failure + Target" where
  "target ob request =
    (case obs_record ob (tgt_client request) of
       None \<Rightarrow> Inl ((failure Err_NoSuchClient Retry_Reobserve
         ''the target is missing or outside the configured scope'')
           \<lparr>f_current_sequence := Some (ob_sequence ob)\<rparr>)
     | Some r \<Rightarrow>
         if cd_generation (cr_descriptor r) \<noteq> tgt_generation request
         then Inl ((failure Err_Stale Retry_Reobserve
           ''the target generation changed before send'')
             \<lparr>f_current_generation := Some (cd_generation (cr_descriptor r)),
              f_current_sequence := Some (ob_sequence ob)\<rparr>)
         else Inr \<lparr>tg_id = cr_id r, tg_xid = cr_xid r, tg_frame = cd_frame (cr_descriptor r),
           tg_states = cd_states (cr_descriptor r), tg_actions = cd_actions (cr_descriptor r)\<rparr>)"

definition require_workspace :: "Observer \<Rightarrow> WorkspaceId \<Rightarrow> Failure + unit" where
  "require_workspace ob workspace =
    res_bind (obs_model ob) (\<lambda>m.
    if list_ex (\<lambda>w. wd_id w = workspace) (m_workspaces m) then Inr ()
    else Inl ((failure Err_InvalidArgument Retry_Never
      ''the workspace is outside the advertised range'')
        \<lparr>f_current_sequence := Some (ob_sequence ob)\<rparr>))"

definition allowed_actions :: "x_server \<Rightarrow> Observer \<Rightarrow> u32 \<Rightarrow> Failure + u32 list" where
  "allowed_actions x ob xid = map_ok (unwrap_or [])
    (property32 x xid (at_wm_allowed_actions (ob_atoms ob)) ATOM_ATOM MAX_CLIENT_ATOMS)"

definition require_action :: "Target \<Rightarrow> ClientAction \<Rightarrow> Failure + unit" where
  "require_action t action = ensure (action \<in> set (tg_actions t))
    (Failure_unsupported ''the target does not advertise the requested operation'')"

definition require_supported :: "u32 list \<Rightarrow> u32 \<Rightarrow> Failure + unit" where
  "require_supported supported atom = ensure (atom \<in> set supported)
    (Failure_unsupported ''the window manager does not advertise the requested operation'')"

definition stale_sequence :: "Sequence \<Rightarrow> Failure" where
  "stale_sequence sequence = (failure Err_Stale Retry_Reobserve
    ''the desktop sequence changed before send'')\<lparr>f_current_sequence := Some sequence\<rparr>"

definition invalid_geometry :: Failure where
  "invalid_geometry = failure Err_InvalidArgument Retry_Never
    ''frame geometry cannot contain the target's decoration extents''"

section \<open>Preparing one message\<close>

fun state_atoms :: "Atoms \<Rightarrow> ClientState \<Rightarrow> Failure + u32 \<times> u32 option" where
  "state_atoms a State_Above = Inr (at_state_above a, Some (at_action_above a))"
| "state_atoms a State_Below = Inr (at_state_below a, Some (at_action_below a))"
| "state_atoms a State_Fullscreen = Inr (at_state_fullscreen a, Some (at_action_fullscreen a))"
| "state_atoms a State_Hidden = Inl (Failure_unsupported
    ''EWMH defines hidden as window-manager state, not a client request'')"
| "state_atoms a State_MaximizedHorizontal =
    Inr (at_state_maximized_horz a, Some (at_action_maximize_horz a))"
| "state_atoms a State_MaximizedVertical =
    Inr (at_state_maximized_vert a, Some (at_action_maximize_vert a))"
| "state_atoms a State_DemandsAttention = Inr (at_state_demands_attention a, None)"
| "state_atoms a State_Sticky = Inr (at_state_sticky a, Some (at_action_stick a))"
| "state_atoms a State_Shaded = Inr (at_state_shaded a, Some (at_action_shade a))"

definition prepare_state ::
    "x_server \<Rightarrow> Observer \<Rightarrow> ClientStateRequest \<Rightarrow> u32 list \<Rightarrow> Failure + Prepared" where
  "prepare_state x ob request supported =
    res_bind (target ob (csr_target request)) (\<lambda>t.
    res_bind (state_atoms (ob_atoms ob) (csr_state request)) (\<lambda>(state_atom, action_atom).
    res_bind (require_supported supported (at_wm_state (ob_atoms ob))) (\<lambda>_.
    res_bind (require_supported supported state_atom) (\<lambda>_.
    res_bind (case action_atom of
        None \<Rightarrow> Inr ()
      | Some a \<Rightarrow> res_bind (allowed_actions x ob (tg_xid t)) (\<lambda>allowed.
          ensure (a \<in> set allowed)
            (Failure_unsupported ''the target does not advertise the requested state action''))) (\<lambda>_.
    let present = csr_state request \<in> set (tg_states t);
      desired_present = (case csr_action request of
        Sa_Add \<Rightarrow> True | Sa_Remove \<Rightarrow> False | Sa_Toggle \<Rightarrow> \<not> present);
      action = (case csr_action request of Sa_Remove \<Rightarrow> 0 | Sa_Add \<Rightarrow> 1 | Sa_Toggle \<Rightarrow> 2) in
    Inr \<lparr>prep_event = ClientMessageEvent_new (tg_xid t) (at_wm_state (ob_atoms ob))
        [action, state_atom, 0, PAGER_SOURCE, 0],
      prep_desired = Want_State (tg_id t) (csr_state request) desired_present\<rparr>)))))"

definition checked_add_i32 :: "i32 \<Rightarrow> i32 \<Rightarrow> i32 option" where
  "checked_add_i32 a b =
    (if - (2 ^ 31) \<le> sint a + sint b \<and> sint a + sint b < 2 ^ 31 then Some (a + b) else None)"

definition checked_sub :: "'a::len word \<Rightarrow> 'a word \<Rightarrow> 'a word option" where
  "checked_sub a b = (if unat b \<le> unat a then Some (a - b) else None)"

definition nonzero :: "u32 option \<Rightarrow> u32 option" where
  "nonzero w = Option.bind w (\<lambda>v. if v \<noteq> 0 then Some v else None)"

definition moveresize_flags :: "bool \<Rightarrow> bool \<Rightarrow> bool \<Rightarrow> bool \<Rightarrow> u32" where
  "moveresize_flags move_x move_y resize_width resize_height =
    ((((STATIC_GRAVITY OR push_bit 12 PAGER_SOURCE) OR push_bit 8 (of_bool move_x))
      OR push_bit 9 (of_bool move_y)) OR push_bit 10 (of_bool resize_width))
      OR push_bit 11 (of_bool resize_height)"

text \<open>The window geometry inside a requested frame, given the decoration extents.\<close>

definition frame_interior ::
    "Rect \<Rightarrow> u32 \<times> u32 \<times> u32 \<times> u32 \<Rightarrow> Failure + i32 \<times> i32 \<times> u32 \<times> u32" where
  "frame_interior frame = (\<lambda>(left, right, top, bottom).
    res_bind (ok_or (Option.bind (i32_try_from left) (checked_add_i32 (rect_x frame)))
      invalid_geometry) (\<lambda>client_x.
    res_bind (ok_or (Option.bind (i32_try_from top) (checked_add_i32 (rect_y frame)))
      invalid_geometry) (\<lambda>client_y.
    res_bind (ok_or (checked_add left right) invalid_geometry) (\<lambda>horizontal_extents.
    res_bind (ok_or (checked_add top bottom) invalid_geometry) (\<lambda>vertical_extents.
    res_bind (ok_or (nonzero (checked_sub (rect_width frame) horizontal_extents))
      invalid_geometry) (\<lambda>client_width.
    res_bind (ok_or (nonzero (checked_sub (rect_height frame) vertical_extents))
      invalid_geometry) (\<lambda>client_height.
    Inr (client_x, client_y, client_width, client_height))))))))"

definition prepare_geometry ::
    "x_server \<Rightarrow> Observer \<Rightarrow> ClientGeometryRequest \<Rightarrow> u32 list \<Rightarrow> Failure + Prepared" where
  "prepare_geometry x ob request supported =
    res_bind (target ob (cgr_target request)) (\<lambda>t.
    res_bind (require_supported supported (at_moveresize_window (ob_atoms ob))) (\<lambda>_.
    res_bind (ok_or (tg_frame t)
      (Failure_unsupported ''the target has no observable frame geometry'')) (\<lambda>current.
    let frame = cgr_frame request;
      move_x = rect_x frame \<noteq> rect_x current;
      move_y = rect_y frame \<noteq> rect_y current;
      resize_width = rect_width frame \<noteq> rect_width current;
      resize_height = rect_height frame \<noteq> rect_height current in
    res_bind (allowed_actions x ob (tg_xid t)) (\<lambda>allowed.
    if (move_x \<or> move_y) \<and> at_action_move (ob_atoms ob) \<notin> set allowed
    then Inl (Failure_unsupported ''the target does not advertise movement'')
    else if (resize_width \<or> resize_height) \<and> at_action_resize (ob_atoms ob) \<notin> set allowed
    then Inl (Failure_unsupported ''the target does not advertise resizing'')
    else if \<not> (move_x \<or> move_y \<or> resize_width \<or> resize_height
      \<or> Act_ChangeGeometry \<in> set (tg_actions t))
    then Inl (Failure_unsupported ''the target does not advertise geometry changes'')
    else
      res_bind (frame_interior frame (client_frame_extents x (tg_xid t) (ob_atoms ob)))
      (\<lambda>(client_x, client_y, client_width, client_height).
      Inr \<lparr>prep_event = ClientMessageEvent_new (tg_xid t) (at_moveresize_window (ob_atoms ob))
          [moveresize_flags move_x move_y resize_width resize_height,
           client_x, client_y, client_width, client_height],
        prep_desired = Want_Geometry (tg_id t) frame\<rparr>)))))"

definition prepare :: "x_server \<Rightarrow> Observer \<Rightarrow> Operation \<Rightarrow> Failure + Prepared" where
  "prepare x ob operation =
    res_bind (map_ok (unwrap_or [])
      (property32 x (ob_root ob) (at_supported (ob_atoms ob)) ATOM_ATOM MAX_ROOT_ATOMS)) (\<lambda>supported.
    case operation of
      Op_Activate request \<Rightarrow>
        res_bind (target ob request) (\<lambda>t.
        res_bind (require_action t Act_Activate) (\<lambda>_.
        res_bind (require_supported supported (at_active_window (ob_atoms ob))) (\<lambda>_.
        res_bind (obs_model ob) (\<lambda>m.
        let active = (case Option.bind (m_active m) (obs_record ob) of None \<Rightarrow> 0 | Some r \<Rightarrow> cr_xid r) in
        Inr \<lparr>prep_event = ClientMessageEvent_new (tg_xid t) (at_active_window (ob_atoms ob))
            [PAGER_SOURCE, 0, active, 0, 0],
          prep_desired = Want_Active (tg_id t)\<rparr>))))
    | Op_Close request \<Rightarrow>
        res_bind (target ob request) (\<lambda>t.
        res_bind (require_action t Act_Close) (\<lambda>_.
        res_bind (require_supported supported (at_close_window (ob_atoms ob))) (\<lambda>_.
        Inr \<lparr>prep_event = ClientMessageEvent_new (tg_xid t) (at_close_window (ob_atoms ob))
            [0, PAGER_SOURCE, 0, 0, 0],
          prep_desired = Want_Closed (tg_id t)\<rparr>)))
    | Op_WorkspaceSwitch request \<Rightarrow>
        if wsr_sequence request \<noteq> ob_sequence ob then Inl (stale_sequence (ob_sequence ob))
        else
          res_bind (require_workspace ob (wsr_workspace request)) (\<lambda>_.
          res_bind (require_supported supported (at_current_desktop (ob_atoms ob))) (\<lambda>_.
          Inr \<lparr>prep_event = ClientMessageEvent_new (ob_root ob) (at_current_desktop (ob_atoms ob))
              [ucast (wsr_workspace request), 0, 0, 0, 0],
            prep_desired = Want_Workspace (wsr_workspace request)\<rparr>))
    | Op_ClientWorkspace request \<Rightarrow>
        res_bind (target ob (cwr_target request)) (\<lambda>t.
        res_bind (require_workspace ob (cwr_workspace request)) (\<lambda>_.
        res_bind (require_action t Act_ChangeWorkspace) (\<lambda>_.
        res_bind (require_supported supported (at_wm_desktop (ob_atoms ob))) (\<lambda>_.
        Inr \<lparr>prep_event = ClientMessageEvent_new (tg_xid t) (at_wm_desktop (ob_atoms ob))
            [ucast (cwr_workspace request), PAGER_SOURCE, 0, 0, 0],
          prep_desired = Want_ClientWorkspace (tg_id t) (cwr_workspace request)\<rparr>))))
    | Op_State request \<Rightarrow> prepare_state x ob request supported
    | Op_Geometry request \<Rightarrow> prepare_geometry x ob request supported)"

section \<open>Waiting for the effect\<close>

fun desired_target :: "Desired \<Rightarrow> ClientId option" where
  "desired_target (Want_Active i) = Some i"
| "desired_target (Want_Closed i) = Some i"
| "desired_target (Want_ClientWorkspace i _) = Some i"
| "desired_target (Want_State i _ _) = Some i"
| "desired_target (Want_Geometry i _) = Some i"
| "desired_target (Want_Workspace _) = None"

fun observed :: "Desired \<Rightarrow> Observer \<Rightarrow> bool" where
  "observed (Want_Active i) ob \<longleftrightarrow> (case ob_model ob of None \<Rightarrow> False | Some m \<Rightarrow> m_active m = Some i)"
| "observed (Want_Closed i) ob \<longleftrightarrow> obs_record ob i = None"
| "observed (Want_Workspace w) ob \<longleftrightarrow>
    (case ob_model ob of None \<Rightarrow> False | Some m \<Rightarrow> m_current_workspace m = w)"
| "observed (Want_ClientWorkspace i w) ob \<longleftrightarrow>
    (case obs_record ob i of None \<Rightarrow> False | Some r \<Rightarrow> cd_workspace (cr_descriptor r) = Some w)"
| "observed (Want_State i s present) ob \<longleftrightarrow>
    (case obs_record ob i of None \<Rightarrow> False
     | Some r \<Rightarrow> (s \<in> set (cd_states (cr_descriptor r))) = present)"
| "observed (Want_Geometry i frame) ob \<longleftrightarrow>
    (case obs_record ob i of None \<Rightarrow> False | Some r \<Rightarrow> cd_frame (cr_descriptor r) = Some frame)"

fun observe_terminal ::
    "Desired \<Rightarrow> (sample \<times> bool) list \<Rightarrow> Observer \<Rightarrow> ManagementReply option \<times> Observer" where
  "observe_terminal desired [] ob = (None, ob)"
| "observe_terminal desired ((sam, late) # sams) ob =
    (let (r, ob') = refresh sam ob in
     if is_ok r \<and> observed desired ob'
     then (Some \<lparr>mr_observation = Obs_Observed, mr_sequence = ob_sequence ob'\<rparr>, ob')
     else if is_ok r \<and> (case desired_target desired of None \<Rightarrow> False | Some i \<Rightarrow> obs_record ob' i = None)
     then (Some \<lparr>mr_observation = (case desired of Want_Closed _ \<Rightarrow> Obs_Observed | _ \<Rightarrow> Obs_TargetGone),
        mr_sequence = ob_sequence ob'\<rparr>, ob')
     else if late
     then (Some \<lparr>mr_observation = Obs_TimedOut, mr_sequence = ob_sequence ob'\<rparr>, ob')
     else observe_terminal desired sams ob')"

record manage_env =
  me_grab :: "unit x_reply"
  me_sample :: sample
  me_x :: x_server
  me_send :: "unit x_reply"
  me_ungrab :: "unit x_reply"
  me_flush :: bool
  me_samples :: "(sample \<times> bool) list"

definition manage :: "manage_env \<Rightarrow> Operation \<Rightarrow> Observer
    \<Rightarrow> (Failure + ManagementReply option) \<times> Observer \<times> ClientMessageEvent list" where
  "manage env operation ob =
    (case x_ask ''cannot request an X11 server grab'' ''cannot acquire an X11 server grab'' (me_grab env) of
       Inl e \<Rightarrow> (Inl e, ob, [])
     | Inr _ \<Rightarrow>
         (let (r, ob1) = refresh (me_sample env) ob;
            prepared = res_bind r (\<lambda>_. prepare (me_x env) ob1 operation);
            attempts = (case prepared of Inl _ \<Rightarrow> [] | Inr p \<Rightarrow> [prep_event p]);
            sent = res_bind prepared (\<lambda>p.
              res_bind (x_ask ''cannot send an EWMH request'' ''the X server refused an EWMH request''
                (me_send env)) (\<lambda>_. Inr (prep_desired p)));
            ungrab = x_ask ''cannot request an X11 server ungrab''
              ''cannot release the X11 server grab'' (me_ungrab env);
            flush = ensure (me_flush env) (Failure_unavailable ''cannot flush an EWMH request'')
          in
          (case res_bind sent (\<lambda>d. res_bind ungrab (\<lambda>_. res_bind flush (\<lambda>_. Inr d))) of
             Inl e \<Rightarrow> (Inl e, ob1, attempts)
           | Inr desired \<Rightarrow>
               (let (reply, ob2) = observe_terminal desired (me_samples env) ob1 in
                (Inr reply, ob2, attempts)))))"


section \<open>Only fresh, visible targets are touched\<close>

fun op_target :: "Operation \<Rightarrow> TargetRequest option" where
  "op_target (Op_Activate t) = Some t"
| "op_target (Op_Close t) = Some t"
| "op_target (Op_WorkspaceSwitch _) = None"
| "op_target (Op_ClientWorkspace r) = Some (cwr_target r)"
| "op_target (Op_State r) = Some (csr_target r)"
| "op_target (Op_Geometry r) = Some (cgr_target r)"

text \<open>The window a fresh target request names in the observer's model.\<close>

definition names_window :: "Observer \<Rightarrow> TargetRequest \<Rightarrow> u32 \<Rightarrow> bool" where
  "names_window ob request xid \<longleftrightarrow> (\<exists>m r. ob_model ob = Some m \<and> r \<in> set (m_clients m)
    \<and> cr_id r = tgt_client request \<and> cd_generation (cr_descriptor r) = tgt_generation request
    \<and> cr_xid r = xid)"

lemma obs_record_Some:
  "obs_record ob i = Some r \<Longrightarrow> \<exists>m. ob_model ob = Some m \<and> r \<in> set (m_clients m) \<and> cr_id r = i"
  by (auto simp: obs_record_def find_Some_iff split: bind_splits)

lemma target_names: "target ob request = Inr t \<Longrightarrow> names_window ob request (tg_xid t)"
  unfolding names_window_def target_def
  by (auto split: option.splits if_splits dest!: obs_record_Some)

lemma prepare_names:
  assumes "prepare x ob operation = Inr p" and "op_target operation = Some request"
  shows "names_window ob request (cme_window (prep_event p))"
  using assms
  by (cases operation)
    (auto simp: prepare_def prepare_state_def prepare_geometry_def ClientMessageEvent_new_def
      Let_def res_simps split: if_splits prod.splits dest: target_names)

lemma prepare_switch:
  assumes "prepare x ob (Op_WorkspaceSwitch w) = Inr p"
  shows "cme_window (prep_event p) = ob_root ob \<and> wsr_sequence w = ob_sequence ob
    \<and> (\<exists>m. ob_model ob = Some m \<and> wsr_workspace w \<in> wd_id ` set (m_workspaces m))"
  using assms
  by (auto simp: prepare_def ClientMessageEvent_new_def require_workspace_def obs_model_def res_simps
      list_ex_iff split: if_splits) (metis image_eqI)

lemma manage_sent:
  assumes "manage env operation ob = (r, ob', sent)" and "e \<in> set sent"
  obtains ob1 p where "refresh (me_sample env) ob = (Inr (), ob1)"
    "prepare (me_x env) ob1 operation = Inr p" "sent = [e]" "e = prep_event p"
  using assms
  by (auto simp: manage_def Let_def split: sum.splits prod.splits)
    (auto simp: res_simps)

text \<open>
  C19. Management acts only on what the peer currently sees: every message sent to the window
  manager follows a successful refresh under the server grab, names the window of a client in that
  fresh model with exactly the identity and generation the peer quoted (or, for a workspace switch,
  the root window at exactly the quoted sequence and a listed workspace), and at most one message is
  sent per call.
\<close>

theorem management_targets_fresh:
  assumes "manage env operation ob = (r, ob', sent)" and "e \<in> set sent"
  shows "sent = [e] \<and> (\<exists>ob1. refresh (me_sample env) ob = (Inr (), ob1)
    \<and> (\<forall>request. op_target operation = Some request \<longrightarrow> names_window ob1 request (cme_window e))
    \<and> (\<forall>w. operation = Op_WorkspaceSwitch w \<longrightarrow> cme_window e = ob_root ob1
        \<and> wsr_sequence w = ob_sequence ob1
        \<and> (\<exists>m. ob_model ob1 = Some m \<and> wsr_workspace w \<in> wd_id ` set (m_workspaces m))))"
  using assms
proof (rule manage_sent)
  fix ob1 p
  assume *: "refresh (me_sample env) ob = (Inr (), ob1)" "prepare (me_x env) ob1 operation = Inr p"
    "sent = [e]" "e = prep_event p"
  then show ?thesis
    using prepare_names [OF *(2)] prepare_switch [of "me_x env" ob1 _ p] by auto
qed

section \<open>Geometry requests\<close>

lemma sint_small:
  assumes "unat (v :: u32) < 2 ^ 31"
  shows "sint v = int (unat v)"
proof -
  have "int (unat v) < 2 ^ 31"
    using assms by (metis of_nat_less_iff of_nat_numeral of_nat_power)
  then have "signed_take_bit 31 (int (unat v)) = int (unat v)"
    by (intro signed_take_bit_int_eq_self) (rule order_trans [of _ 0], simp_all)
  then show ?thesis
    by (simp only: sint_uint uint_nat) simp
qed

lemma i32_try_Some: "i32_try_from w = Some v \<longleftrightarrow> v = w \<and> unat w < 2 ^ 31"
  by (auto simp: i32_try_from_def)

lemma sint_range: "- (2 ^ 31) \<le> sint (a :: i32)" "sint (a :: i32) < 2 ^ 31"
  using sint_ge [of a] sint_lt [of a] by simp_all

lemma sint_add_exact:
  assumes "- (2 ^ 31) \<le> sint (a :: i32) + sint b" and "sint a + sint b < 2 ^ 31"
  shows "sint (a + b) = sint a + sint b"
  using assms by (simp add: sint_word_ariths signed_take_bit_int_eq_self)

lemma checked_add_i32_inverse:
  assumes "checked_add_i32 a b = Some c"
  shows "checked_sub_i32 c b = Some a"
proof -
  from assms have fits: "- (2 ^ 31) \<le> sint a + sint b" "sint a + sint b < 2 ^ 31" and "c = a + b"
    by (auto simp: checked_add_i32_def split: if_splits)
  with sint_add_exact [OF fits] sint_range [of a] show ?thesis
    by (simp add: checked_sub_i32_def)
qed

lemma checked_sub_Some_iff:
  "checked_sub a b = Some (c :: 'a::len word) \<longleftrightarrow> unat a = unat b + unat c"
proof
  show "checked_sub a b = Some c \<Longrightarrow> unat a = unat b + unat c"
    by (auto simp: checked_sub_def unat_sub word_le_nat_alt split: if_splits)
  assume sum: "unat a = unat b + unat c"
  then have "unat (a - b) = unat c"
    by (simp add: unat_sub word_le_nat_alt)
  then have "a - b = c" by (simp only: unsigned_word_eqI)
  with sum show "checked_sub a b = Some c"
    by (simp add: checked_sub_def)
qed

lemma checked_sub_inverse:
  assumes "checked_add l r = Some h" and "checked_sub w h = Some v"
  shows "\<exists>u. checked_add v l = Some u \<and> checked_add u r = Some (w :: u32)"
proof -
  from assms have w: "unat w = unat l + unat r + unat v"
    by (simp add: checked_add_Some_iff checked_sub_Some_iff)
  then have "unat v + unat l < 2 ^ 32"
    using unat_bound [of w] by simp
  then have "checked_add v l = Some (v + l)" by (simp add: checked_add_def)
  moreover from this have "checked_add (v + l) r = Some w"
    using w by (simp add: checked_add_Some_iff)
  ultimately show ?thesis by blast
qed

lemma frame_interior_inverse:
  assumes "frame_interior frame ext = Inr (cx, cy, cw, ch)" and "ext = (left, right, upper, bottom)"
  shows "i32_try_from left = Some left" and "i32_try_from upper = Some upper"
    and "checked_sub_i32 cx left = Some (rect_x frame)"
    and "checked_sub_i32 cy upper = Some (rect_y frame)"
    and "\<exists>u. checked_add cw left = Some u \<and> checked_add u right = Some (rect_width frame)"
    and "\<exists>u. checked_add ch upper = Some u \<and> checked_add u bottom = Some (rect_height frame)"
  using assms
  by (auto simp: frame_interior_def res_simps i32_try_Some nonzero_def
      split: bind_splits if_splits
      intro: checked_add_i32_inverse checked_sub_inverse)

lemma moveresize_flag_bits:
  "bit (moveresize_flags a b c d) 8 = a" "bit (moveresize_flags a b c d) 9 = b"
  "bit (moveresize_flags a b c d) 10 = c" "bit (moveresize_flags a b c d) 11 = d"
  by (cases a; cases b; cases c; cases d;
      simp add: moveresize_flags_def STATIC_GRAVITY_def PAGER_SOURCE_def)+

lemma prepare_geometry_cases:
  assumes "prepare_geometry x ob request supported = Inr p"
  obtains t current cx cy cw ch where
    "target ob (cgr_target request) = Inr t" "tg_frame t = Some current"
    "frame_interior (cgr_frame request) (client_frame_extents x (tg_xid t) (ob_atoms ob))
      = Inr (cx, cy, cw, ch)"
    "cme_window (prep_event p) = tg_xid t"
    "cme_data (prep_event p) = [moveresize_flags (rect_x (cgr_frame request) \<noteq> rect_x current)
       (rect_y (cgr_frame request) \<noteq> rect_y current)
       (rect_width (cgr_frame request) \<noteq> rect_width current)
       (rect_height (cgr_frame request) \<noteq> rect_height current), cx, cy, cw, ch]"
  using assms
  by (auto simp: prepare_geometry_def res_simps Let_def ClientMessageEvent_new_def
      split: if_splits prod.splits)

text \<open>
  A geometry request asks for exactly the frame the peer named: if the window manager gives the
  window the position and size in the prepared message and keeps its decoration, the observer reads
  back the requested frame; and the flag bits name exactly the coordinates that differ from the
  frame last observed.
\<close>

theorem geometry_request_exact:
  assumes "prepare_geometry x ob request supported = Inr p"
    and "cme_data (prep_event p) = [flags, cx, cy, cw, ch]"
    and "x_get_geometry x' (cme_window (prep_event p)) = Replied g"
    and "ucast (geo_width g) = cw" and "ucast (geo_height g) = ch"
    and "x_translate_coordinates x' (cme_window (prep_event p)) (ob_root ob) = Replied q"
    and "scast (tr_dst_x q) = cx" and "scast (tr_dst_y q) = cy"
    and "client_frame_extents x' (cme_window (prep_event p)) (ob_atoms ob)
      = client_frame_extents x (cme_window (prep_event p)) (ob_atoms ob)"
  shows "client_frame x' (ob_root ob) (cme_window (prep_event p)) (ob_atoms ob) = Some (cgr_frame request)
    \<and> (\<exists>t current. target ob (cgr_target request) = Inr t \<and> tg_frame t = Some current
      \<and> bit flags 8 = (rect_x (cgr_frame request) \<noteq> rect_x current)
      \<and> bit flags 9 = (rect_y (cgr_frame request) \<noteq> rect_y current)
      \<and> bit flags 10 = (rect_width (cgr_frame request) \<noteq> rect_width current)
      \<and> bit flags 11 = (rect_height (cgr_frame request) \<noteq> rect_height current))"
proof -
  from assms(1) obtain t current dx dy dw dh where *:
    "target ob (cgr_target request) = Inr t" "tg_frame t = Some current"
    "frame_interior (cgr_frame request) (client_frame_extents x (tg_xid t) (ob_atoms ob))
      = Inr (dx, dy, dw, dh)"
    "cme_window (prep_event p) = tg_xid t"
    "cme_data (prep_event p) = [moveresize_flags (rect_x (cgr_frame request) \<noteq> rect_x current)
       (rect_y (cgr_frame request) \<noteq> rect_y current)
       (rect_width (cgr_frame request) \<noteq> rect_width current)
       (rect_height (cgr_frame request) \<noteq> rect_height current), dx, dy, dw, dh]"
    by (rule prepare_geometry_cases)
  obtain l r tp b where ext: "client_frame_extents x (tg_xid t) (ob_atoms ob) = (l, r, tp, b)"
    by (metis prod_cases4)
  have same: "dx = cx" "dy = cy" "dw = cw" "dh = ch"
    using assms(2) *(5) by simp_all
  note inv = frame_interior_inverse [OF *(3) ext, unfolded same]
  obtain u v where "checked_add cw l = Some u" "checked_add u r = Some (rect_width (cgr_frame request))"
    "checked_add ch tp = Some v" "checked_add v b = Some (rect_height (cgr_frame request))"
    using inv(5,6) by blast
  then have "client_frame x' (ob_root ob) (tg_xid t) (ob_atoms ob) = Some (cgr_frame request)"
    using assms(3-9) inv(1-4) by (simp add: client_frame_def x_ok_def *(4) ext)
  then show ?thesis
    using * assms(2) by (auto simp: moveresize_flag_bits)
qed

section \<open>Honest replies\<close>

lemma observe_terminal_spec:
  assumes "observe_terminal desired sams ob = (Some reply, ob')"
  shows "mr_sequence reply = ob_sequence ob'
    \<and> (mr_observation reply = Obs_Observed \<longrightarrow> observed desired ob')
    \<and> (mr_observation reply = Obs_TargetGone \<longrightarrow>
        (\<exists>i. desired_target desired = Some i \<and> obs_record ob' i = None))"
  using assms
proof (induction desired sams ob rule: observe_terminal.induct)
  case (2 desired sam late sams ob)
  then show ?case
    by (cases desired) (auto simp: Let_def split: prod.splits if_splits option.splits)
qed simp

lemma observe_terminal_returns:
  "(sam, True) \<in> set sams \<Longrightarrow> fst (observe_terminal desired sams ob) \<noteq> None"
  by (induction desired sams ob rule: observe_terminal.induct)
    (auto simp: Let_def split: prod.splits)

text \<open>
  C33. A management reply is honest and always arrives: once the deadline is reached the call
  returns; ``observed'' is reported only if the model of the reply's own sequence shows the requested
  effect, ``target gone'' only if that model has no such client, and the reply's sequence is the one
  the observer ends with.
\<close>

theorem management_reply_honest:
  assumes "manage env operation ob = (Inr reply, ob', sent)" and "(sam, True) \<in> set (me_samples env)"
  shows "\<exists>rep p ob1. reply = Some rep \<and> refresh (me_sample env) ob = (Inr (), ob1)
    \<and> prepare (me_x env) ob1 operation = Inr p \<and> sent = [prep_event p]
    \<and> mr_sequence rep = ob_sequence ob'
    \<and> (mr_observation rep = Obs_Observed \<longrightarrow> observed (prep_desired p) ob')
    \<and> (mr_observation rep = Obs_TargetGone \<longrightarrow>
        (\<exists>i. desired_target (prep_desired p) = Some i \<and> obs_record ob' i = None))"
proof -
  from assms(1) obtain ob1 p where *: "refresh (me_sample env) ob = (Inr (), ob1)"
    "prepare (me_x env) ob1 operation = Inr p" "sent = [prep_event p]"
    and wait: "observe_terminal (prep_desired p) (me_samples env) ob1 = (reply, ob')"
    by (auto simp: manage_def Let_def res_simps split: sum.splits prod.splits)
  obtain rep where "reply = Some rep"
    using observe_terminal_returns [OF assms(2), of "prep_desired p" ob1] wait by auto
  with * wait show ?thesis
    using observe_terminal_spec [of "prep_desired p" "me_samples env" ob1 rep ob'] by auto
qed

section \<open>A concrete request\<close>

text \<open>
  The client of the demonstration desktop is removed from full screen; the window manager advertises
  the state, and the first sample after the request already shows the effect.
\<close>

definition demo_x_manager :: x_server where
  "demo_x_manager = \<lparr>
    x_get_property = (\<lambda>w p t n.
      if p = at_supported demo_atoms then demo_reply ATOM_ATOM [112, 128, 115]
      else if p = at_wm_allowed_actions demo_atoms then demo_reply ATOM_ATOM [137, 144]
      else if p = at_frame_extents demo_atoms then demo_reply ATOM_CARDINAL [2, 2, 20, 2]
      else demo_reply X_NONE []),
    x_get_geometry = (\<lambda>_. Replied \<lparr>geo_width = 96, geo_height = 78, geo_depth = 24\<rparr>),
    x_translate_coordinates = (\<lambda>_ _. Replied \<lparr>tr_dst_x = 12, tr_dst_y = 30\<rparr>)\<rparr>"

definition demo_manage :: manage_env where
  "demo_manage = \<lparr>me_grab = Replied (), me_sample = demo_sample, me_x = demo_x_manager,
    me_send = Replied (), me_ungrab = Replied (), me_flush = True,
    me_samples = [(demo_sample, True)]\<rparr>"

definition demo_request :: Operation where
  "demo_request = Op_State \<lparr>csr_target = \<lparr>tgt_client = 1, tgt_generation = 0\<rparr>,
    csr_state = State_Fullscreen, csr_action = Sa_Remove\<rparr>"

definition demo_message :: ClientMessageEvent where
  "demo_message = ClientMessageEvent_new 50 112 [0, 128, 0, 2, 0]"

lemma demo_prepare: "prepare demo_x_manager demo_subscribed demo_request
    = Inr \<lparr>prep_event = demo_message, prep_desired = Want_State 1 State_Fullscreen False\<rparr>"
  by (simp add: prepare_def prepare_state_def demo_request_def demo_x_manager_def property32_def
      u32_try_from_def x_ask_def demo_reply_def demo_atoms_def target_def obs_record_def
      demo_subscribed_def demo_observer_def Observer_connect_def demo_model_def demo_descriptor_def
      require_supported_def allowed_actions_def unwrap_or_def PAGER_SOURCE_def demo_message_def
      ok_or_def ensure_def ATOM_ATOM_def X_NONE_def MAX_ROOT_ATOMS_def MAX_CLIENT_ATOMS_def usize_MAX_def)

lemma demo_manage_run: "manage demo_manage demo_request demo_subscribed
    = (Inr (Some \<lparr>mr_observation = Obs_Observed, mr_sequence = 0\<rparr>), demo_subscribed, [demo_message])"
  by (simp add: manage_def demo_manage_def demo_refresh demo_prepare x_ask_def ensure_def Let_def)
    (simp add: obs_record_def demo_subscribed_def demo_observer_def Observer_connect_def
      demo_model_def demo_descriptor_def)

theorem management_targets_fresh_witness:
  "names_window demo_subscribed \<lparr>tgt_client = 1, tgt_generation = 0\<rparr> (cme_window demo_message)"
  using management_targets_fresh [OF demo_manage_run, of demo_message]
  by (auto simp: demo_refresh demo_manage_def demo_request_def)

theorem management_reply_honest_witness:
  "observed (Want_State 1 State_Fullscreen False) demo_subscribed"
  using management_reply_honest [OF demo_manage_run, of demo_sample]
  by (simp add: demo_manage_def demo_refresh demo_prepare)

definition demo_framed :: Observer where
  "demo_framed = demo_subscribed\<lparr>ob_model := Some ((demo_model None)
    \<lparr>m_clients := [\<lparr>cr_xid = 50, cr_descriptor = demo_descriptor
      \<lparr>cd_frame := Some \<lparr>rect_x = 0, rect_y = 10, rect_width = 100, rect_height = 100\<rparr>\<rparr>\<rparr>]\<rparr>)\<rparr>"

definition demo_geometry_request :: ClientGeometryRequest where
  "demo_geometry_request = \<lparr>cgr_target = \<lparr>tgt_client = 1, tgt_generation = 0\<rparr>,
    cgr_frame = \<lparr>rect_x = 10, rect_y = 10, rect_width = 100, rect_height = 100\<rparr>\<rparr>"

lemma demo_extents: "client_frame_extents demo_x_manager 50 demo_atoms = (2, 2, 20, 2)"
  by (simp add: client_frame_extents_def ok_flatten_def property32_def demo_x_manager_def u32_try_from_def
      x_ask_def demo_reply_def demo_atoms_def ok_or_def ATOM_CARDINAL_def X_NONE_def usize_MAX_def)

lemma demo_framed_fields:
  "ob_root demo_framed = 1" "ob_atoms demo_framed = demo_atoms"
  "at_moveresize_window demo_atoms = 115" "at_action_move demo_atoms = 144"
  by (simp_all add: demo_framed_def demo_subscribed_def demo_observer_def Observer_connect_def
      demo_atoms_def)

lemma demo_framed_target: "target demo_framed (cgr_target demo_geometry_request) = Inr
    \<lparr>tg_id = 1, tg_xid = 50,
     tg_frame = Some \<lparr>rect_x = 0, rect_y = 10, rect_width = 100, rect_height = 100\<rparr>,
     tg_states = [], tg_actions = []\<rparr>"
  by (simp add: target_def obs_record_def demo_framed_def demo_geometry_request_def demo_model_def
      demo_descriptor_def)

lemma demo_allowed: "allowed_actions demo_x_manager demo_framed 50 = Inr [137, 144]"
  unfolding allowed_actions_def demo_framed_fields
  by (simp add: property32_def demo_x_manager_def u32_try_from_def x_ask_def demo_reply_def
      demo_atoms_def ok_or_def unwrap_or_def ATOM_ATOM_def X_NONE_def MAX_CLIENT_ATOMS_def
      usize_MAX_def)

lemma demo_interior: "frame_interior (cgr_frame demo_geometry_request) (2, 2, 20, 2) = Inr (12, 30, 96, 78)"
  by (simp add: frame_interior_def demo_geometry_request_def checked_add_i32_def checked_add_def
      checked_sub_def i32_try_from_def nonzero_def ok_or_def)

lemma demo_prepare_geometry:
  "prepare_geometry demo_x_manager demo_framed demo_geometry_request [112, 128, 115]
    = Inr \<lparr>prep_event = ClientMessageEvent_new 50 115
        [moveresize_flags True False False False, 12, 30, 96, 78],
      prep_desired = Want_Geometry 1 (cgr_frame demo_geometry_request)\<rparr>"
  by (simp add: prepare_geometry_def demo_framed_target demo_framed_fields demo_allowed demo_extents
      demo_interior require_supported_def ok_or_def ensure_def Let_def)
    (simp add: demo_geometry_request_def)

theorem geometry_request_exact_witness:
  "client_frame demo_x_manager 1 50 demo_atoms = Some (cgr_frame demo_geometry_request)"
proof -
  have "client_frame demo_x_manager (ob_root demo_framed) 50 (ob_atoms demo_framed)
      = Some (cgr_frame demo_geometry_request)"
    using geometry_request_exact [OF demo_prepare_geometry, of _ _ _ _ _ demo_x_manager]
    by (simp add: ClientMessageEvent_new_def demo_x_manager_def)
  then show ?thesis by (simp add: demo_framed_fields)
qed

end
