(* ===== verification/Input_Keyboard.thy ===== *)
theory Input_Keyboard
  imports Observer_Scan "HOL-Library.Product_Lexorder"
begin

text \<open>
  Resolution of characters and named keys to physical key strokes
  (\<^verbatim>\<open>agent-seat-x11/src/observer/keyboard.rs\<close>). The XKB replies are parameters (\<open>xkb_server\<close>); the
  records \<open>KeyType\<close>, \<open>KeySymMap\<close>, \<open>KeyModMap\<close>, \<open>GetStateReply\<close> and \<open>GetMapReply\<close> carry the fields of
  \<^verbatim>\<open>x11rb\<close>'s reply types that the code reads. The main result compares the search with the XKB
  lookup rule itself: holding the stroke's modifiers, the stroke's key yields the wanted symbol.
\<close>

unbundle bit_operations_syntax

section \<open>XKB replies\<close>

record KTMapEntry =
  kte_active :: bool
  kte_mods_mask :: u16
  kte_level :: u8

record KeyType =
  kt_mods_mask :: u16
  kt_num_levels :: u8
  kt_map :: "KTMapEntry list"

record KeySymMap =
  ks_kt_index :: "u8 list"
  ks_group_info :: u8
  ks_width :: u8
  ks_syms :: "u32 list"

record KeyModMap =
  km_keycode :: u8
  km_mods :: u16

record GetStateReply =
  xst_mods :: u16
  xst_base_mods :: u16
  xst_latched_mods :: u16
  xst_locked_mods :: u16
  xst_group :: u8
  xst_base_group :: i16
  xst_latched_group :: i16

record GetMapReply =
  gm_min_key_code :: u8
  gm_max_key_code :: u8
  gm_first_type :: u8
  gm_n_types :: u8
  gm_total_types :: u8
  gm_first_key_sym :: u8
  gm_n_key_syms :: u8
  gm_types_rtrn :: "KeyType list option"
  gm_syms_rtrn :: "KeySymMap list option"
  gm_modmap_rtrn :: "KeyModMap list option"

record xkb_server =
  xk_supported :: "bool x_reply"
  xk_state :: "GetStateReply x_reply"
  xk_map :: "GetMapReply x_reply"

section \<open>Constants\<close>

definition XK_TAB :: u32 where "XK_TAB = 0xff09"
definition XK_RETURN :: u32 where "XK_RETURN = 0xff0d"
definition XK_BACKSPACE :: u32 where "XK_BACKSPACE = 0xff08"
definition XK_ESCAPE :: u32 where "XK_ESCAPE = 0xff1b"
definition XK_DELETE :: u32 where "XK_DELETE = 0xffff"
definition XK_HOME :: u32 where "XK_HOME = 0xff50"
definition XK_LEFT :: u32 where "XK_LEFT = 0xff51"
definition XK_UP :: u32 where "XK_UP = 0xff52"
definition XK_RIGHT :: u32 where "XK_RIGHT = 0xff53"
definition XK_DOWN :: u32 where "XK_DOWN = 0xff54"
definition XK_PRIOR :: u32 where "XK_PRIOR = 0xff55"
definition XK_NEXT :: u32 where "XK_NEXT = 0xff56"
definition XK_END :: u32 where "XK_END = 0xff57"
definition XK_INSERT :: u32 where "XK_INSERT = 0xff63"
definition XK_F1 :: u32 where "XK_F1 = 0xffbe"
definition XK_SHIFT_L :: u32 where "XK_SHIFT_L = 0xffe1"
definition XK_SHIFT_R :: u32 where "XK_SHIFT_R = 0xffe2"
definition XK_CONTROL_L :: u32 where "XK_CONTROL_L = 0xffe3"
definition XK_CONTROL_R :: u32 where "XK_CONTROL_R = 0xffe4"
definition XK_CAPS_LOCK :: u32 where "XK_CAPS_LOCK = 0xffe5"
definition XK_SHIFT_LOCK :: u32 where "XK_SHIFT_LOCK = 0xffe6"
definition XK_NUM_LOCK :: u32 where "XK_NUM_LOCK = 0xff7f"
definition XK_ALT_L :: u32 where "XK_ALT_L = 0xffe9"
definition XK_ALT_R :: u32 where "XK_ALT_R = 0xffea"
definition XK_SUPER_L :: u32 where "XK_SUPER_L = 0xffeb"
definition XK_SUPER_R :: u32 where "XK_SUPER_R = 0xffec"
definition XK_ISO_LEVEL3_SHIFT :: u32 where "XK_ISO_LEVEL3_SHIFT = 0xfe03"
definition XK_ISO_LEVEL5_SHIFT :: u32 where "XK_ISO_LEVEL5_SHIFT = 0xfe11"
definition MAX_MOMENTARY_MODIFIERS :: nat where "MAX_MOMENTARY_MODIFIERS = 8"
definition SYMBOL_UNAVAILABLE :: string where
  "SYMBOL_UNAVAILABLE = ''keyboard symbol is unavailable in the current XKB layout and group''"

section \<open>Library functions\<close>

text \<open>Slice access, \<^verbatim>\<open>Iterator::min_by_key\<close> (the first of several minima) and \<^verbatim>\<open>count_ones\<close>.\<close>

definition list_get :: "'a list \<Rightarrow> nat \<Rightarrow> 'a option" where
  "list_get xs i = (if i < length xs then Some (xs ! i) else None)"

definition slice_get :: "'a list \<Rightarrow> nat \<Rightarrow> nat \<Rightarrow> 'a list option" where
  "slice_get xs a b = (if a \<le> b \<and> b \<le> length xs then Some (take (b - a) (drop a xs)) else None)"

fun min_by_key :: "('a \<Rightarrow> 'k::linorder) \<Rightarrow> 'a list \<Rightarrow> 'a option" where
  "min_by_key f [] = None"
| "min_by_key f (x # xs) = (case min_by_key f xs of None \<Rightarrow> Some x
    | Some y \<Rightarrow> if f x \<le> f y then Some x else Some y)"

definition count_ones :: "'a::len word \<Rightarrow> nat" where
  "count_ones w = length (filter (bit w) [0..<LENGTH('a)])"

definition hex_digit :: "nat \<Rightarrow> char" where
  "hex_digit n = (if n < 10 then char_of (48 + n) else char_of (55 + n))"

function hex_digits :: "nat \<Rightarrow> string" where
  "hex_digits n = (if n < 16 then [hex_digit n] else hex_digits (n div 16) @ [hex_digit (n mod 16)])"
  by pat_completeness auto
termination by (relation "measure id") auto

text \<open>The format \<^verbatim>\<open>{:04X}\<close>.\<close>

definition hex4 :: "nat \<Rightarrow> string" where
  "hex4 n = (let d = hex_digits n in replicate (4 - length d) (CHR ''0'') @ d)"

section \<open>The keyboard map\<close>

record KeyStroke =
  stroke_keycode :: u8
  stroke_modifiers :: "u8 list"

record KeyboardMap =
  kb_minimum :: u8
  kb_types :: "KeyType list"
  kb_symbols :: "KeySymMap list"
  kb_modifier_map :: "KeyModMap list"
  kb_state :: GetStateReply

record ModifierKey =
  mk_keycode :: u8
  mk_modifiers :: u8

definition from_reply :: "GetMapReply \<Rightarrow> GetStateReply \<Rightarrow> Failure + KeyboardMap" where
  "from_reply reply state =
    res_bind (ok_or (gm_types_rtrn reply) (Failure_unavailable ''XKB returned no key types'')) (\<lambda>types.
    res_bind (ok_or (gm_syms_rtrn reply) (Failure_unavailable ''XKB returned no key symbols'')) (\<lambda>symbols.
    res_bind (ok_or (gm_modmap_rtrn reply) (Failure_unavailable ''XKB returned no modifier map''))
    (\<lambda>modifier_map.
    let expected_symbols = map_option unat
      (Option.bind (if gm_min_key_code reply \<le> gm_max_key_code reply
          then Some (gm_max_key_code reply - gm_min_key_code reply) else None)
        (\<lambda>difference. checked_add difference 1)) in
    if gm_first_type reply \<noteq> 0
      \<or> gm_n_types reply \<noteq> gm_total_types reply
      \<or> length types \<noteq> unat (gm_n_types reply)
      \<or> gm_first_key_sym reply \<noteq> gm_min_key_code reply
      \<or> expected_symbols \<noteq> Some (length symbols)
      \<or> length symbols \<noteq> unat (gm_n_key_syms reply)
    then Inl (Failure_unavailable ''XKB keyboard map is incomplete'')
    else Inr \<lparr>kb_minimum = gm_first_key_sym reply, kb_types = types, kb_symbols = symbols,
      kb_modifier_map = modifier_map, kb_state = state\<rparr>)))"

definition KeyboardMap_read :: "xkb_server \<Rightarrow> Failure + KeyboardMap" where
  "KeyboardMap_read xk =
    res_bind (x_ask ''cannot negotiate the XKB extension'' ''cannot negotiate the XKB extension''
      (xk_supported xk)) (\<lambda>supported.
    if \<not> supported
    then Inl (Failure_unavailable ''the X server does not support the required XKB extension'')
    else
      res_bind (x_ask ''cannot inspect the XKB keyboard state'' ''cannot inspect the XKB keyboard state''
        (xk_state xk)) (\<lambda>state.
      res_bind (x_ask ''cannot inspect the XKB keyboard map'' ''cannot inspect the XKB keyboard map''
        (xk_map xk)) (\<lambda>reply.
      from_reply reply state)))"

definition modifier_bits :: "u16 \<Rightarrow> Failure + u8" where
  "modifier_bits mods = (if unat mods < 256 then Inr (ucast mods)
    else Inl (Failure_unavailable ''XKB returned an invalid modifier mask''))"

definition normalized_group :: "u8 \<Rightarrow> nat \<Rightarrow> nat option" where
  "normalized_group group_info effective =
    (let count = unat (group_info AND 0x0f) in
     if count = 0 then None
     else if effective < count then Some effective
     else if group_info AND 0xc0 = 0 then Some (effective mod count)
     else if group_info AND 0xc0 = 0x40 then Some (count - 1)
     else if group_info AND 0xc0 = 0x80 then
       (let redirected = unat (drop_bit 4 (group_info AND 0x30)) in
        if redirected < count then Some redirected else None)
     else None)"

definition level_for_modifiers :: "KeyType \<Rightarrow> u8 \<Rightarrow> u8" where
  "level_for_modifiers key_type modifiers =
    (let relevant = modifiers AND
       (if unat (kt_mods_mask key_type) < 256 then ucast (kt_mods_mask key_type) else - 1) in
     case find (\<lambda>entry. kte_active entry
         \<and> (unat (kte_mods_mask entry) < 256 \<and> relevant = ucast (kte_mods_mask entry))) (kt_map key_type)
     of None \<Rightarrow> 0 | Some entry \<Rightarrow> kte_level entry)"

definition key_row :: "KeyboardMap \<Rightarrow> u8 \<Rightarrow> KeySymMap option" where
  "key_row m keycode = (if kb_minimum m \<le> keycode
    then list_get (kb_symbols m) (unat (keycode - kb_minimum m)) else None)"

definition key_has_any_symbol :: "KeyboardMap \<Rightarrow> u8 \<Rightarrow> u32 list \<Rightarrow> bool" where
  "key_has_any_symbol m keycode wanted = (case key_row m keycode of None \<Rightarrow> False
    | Some key \<Rightarrow> list_ex (\<lambda>symbol. symbol \<in> set wanted) (ks_syms key))"

definition key_has_momentary_modifier_symbol :: "KeyboardMap \<Rightarrow> u8 \<Rightarrow> bool" where
  "key_has_momentary_modifier_symbol m keycode = (case key_row m keycode of None \<Rightarrow> False
    | Some key \<Rightarrow> list_ex (\<lambda>symbol. symbol = XK_SHIFT_L \<or> symbol = XK_SHIFT_R
        \<or> symbol = XK_ISO_LEVEL3_SHIFT \<or> symbol = XK_ISO_LEVEL5_SHIFT) (ks_syms key))"

fun modifier_symbols :: "KeyboardModifier \<Rightarrow> u32 list" where
  "modifier_symbols Mod_Control = [XK_CONTROL_L, XK_CONTROL_R]"
| "modifier_symbols Mod_Alt = [XK_ALT_L, XK_ALT_R]"
| "modifier_symbols Mod_Shift = [XK_SHIFT_L, XK_SHIFT_R]"
| "modifier_symbols Mod_Super = [XK_SUPER_L, XK_SUPER_R]"

definition modifier_candidate :: "KeyboardMap \<Rightarrow> (u8 \<Rightarrow> bool) \<Rightarrow> KeyModMap \<Rightarrow> ModifierKey option" where
  "modifier_candidate m has entry = (case modifier_bits (km_mods entry) of
      Inl _ \<Rightarrow> None
    | Inr bits \<Rightarrow> if count_ones bits = 1 \<and> has (km_keycode entry)
        then Some \<lparr>mk_keycode = km_keycode entry, mk_modifiers = bits\<rparr> else None)"

fun find_map :: "('a \<Rightarrow> 'b option) \<Rightarrow> 'a list \<Rightarrow> 'b option" where
  "find_map f [] = None"
| "find_map f (x # xs) = (case f x of None \<Rightarrow> find_map f xs | Some y \<Rightarrow> Some y)"

definition modifier_key :: "KeyboardMap \<Rightarrow> KeyboardModifier \<Rightarrow> Failure + ModifierKey" where
  "modifier_key m modifier =
    ok_or (find_map (modifier_candidate m (\<lambda>k. key_has_any_symbol m k (modifier_symbols modifier)))
        (kb_modifier_map m))
      (Failure_invalid ''keyboard modifier is unavailable in the current XKB layout and group'')"

fun momentary_loop :: "KeyboardMap \<Rightarrow> ModifierKey list \<Rightarrow> KeyModMap list \<Rightarrow> ModifierKey list" where
  "momentary_loop m keys [] = keys"
| "momentary_loop m keys (entry # entries) =
    (case modifier_candidate m (key_has_momentary_modifier_symbol m) entry of
       None \<Rightarrow> momentary_loop m keys entries
     | Some key \<Rightarrow>
         if list_ex (\<lambda>candidate. mk_modifiers candidate = mk_modifiers key) keys
         then momentary_loop m keys entries
         else if length keys = MAX_MOMENTARY_MODIFIERS then keys
         else momentary_loop m (keys @ [key]) entries)"

definition momentary_modifier_keys :: "KeyboardMap \<Rightarrow> ModifierKey list" where
  "momentary_modifier_keys m = momentary_loop m [] (kb_modifier_map m)"

fun safe_loop :: "KeyboardMap \<Rightarrow> u8 \<Rightarrow> KeyModMap list \<Rightarrow> Failure + u8" where
  "safe_loop m safe [] = Inr safe"
| "safe_loop m safe (entry # entries) =
    res_bind (modifier_bits (km_mods entry)) (\<lambda>modifiers.
    safe_loop m (if key_has_any_symbol m (km_keycode entry) [XK_CAPS_LOCK, XK_SHIFT_LOCK, XK_NUM_LOCK]
      then safe OR modifiers else safe) entries)"

definition safe_locked_modifiers :: "KeyboardMap \<Rightarrow> Failure + u8" where
  "safe_locked_modifiers m =
    res_bind (modifier_bits (xst_locked_mods (kb_state m))) (\<lambda>locked.
    map_ok (\<lambda>safe. locked AND safe) (safe_loop m 0 (kb_modifier_map m)))"

definition apply_combination :: "u16 \<Rightarrow> u8 \<Rightarrow> ModifierKey list \<Rightarrow> u8 list \<times> u8" where
  "apply_combination combination current keys =
    fold (\<lambda>(index, key) (keycodes, effective).
      if combination AND push_bit index 1 \<noteq> 0
      then (keycodes @ [mk_keycode key], effective OR mk_modifiers key) else (keycodes, effective))
    (enumerate 0 keys) ([], current)"

definition modifiers_for_level :: "KeyType \<Rightarrow> u8 \<Rightarrow> u8 \<Rightarrow> ModifierKey list \<Rightarrow> u8 list option" where
  "modifiers_for_level key_type wanted_level current keys =
    (if length keys < 16
     then map_option fst (min_by_key (\<lambda>(keycodes, effective). (length keycodes, count_ones effective))
       (filter (\<lambda>(keycodes, effective). level_for_modifiers key_type effective = wanted_level)
         (map (\<lambda>combination. apply_combination (of_nat combination) current keys) [0..<2 ^ length keys])))
     else None)"

section \<open>Resolution\<close>

fun requested_loop ::
    "KeyboardMap \<Rightarrow> u8 \<Rightarrow> u8 list \<Rightarrow> KeyboardModifier list \<Rightarrow> Failure + u8 \<times> u8 list" where
  "requested_loop m bits keys [] = Inr (bits, keys)"
| "requested_loop m bits keys (modifier # modifiers) =
    res_bind (modifier_key m modifier) (\<lambda>key.
    if bits AND mk_modifiers key \<noteq> 0
    then Inl (Failure_invalid ''requested keyboard modifiers share an XKB modifier bit'')
    else requested_loop m (bits OR mk_modifiers key) (keys @ [mk_keycode key]) modifiers)"

definition add_missing :: "u8 list \<Rightarrow> u8 list \<Rightarrow> u8 list" where
  "add_missing keys extra = fold (\<lambda>k all. if k \<in> set all then all else all @ [k]) extra keys"

text \<open>The best stroke on one key, as the closure of the search yields it for each row.\<close>

definition resolve_row :: "KeyboardMap \<Rightarrow> u32 \<Rightarrow> nat \<Rightarrow> u8 \<Rightarrow> u8 \<Rightarrow> u8 \<Rightarrow> u8 list \<Rightarrow> ModifierKey list
    \<Rightarrow> nat \<times> KeySymMap \<Rightarrow> KeyStroke option" where
  "resolve_row m wanted effective_group requested_bits current_modifiers safe_locked requested_keys
      modifier_keys = (\<lambda>(row, key).
    Option.bind (if row < 256 then checked_add (kb_minimum m) (of_nat row) else None) (\<lambda>keycode.
    Option.bind (normalized_group (ks_group_info key) effective_group) (\<lambda>group.
    Option.bind (Option.bind (list_get (ks_kt_index key) group) (\<lambda>i. list_get (kb_types m) (unat i)))
    (\<lambda>key_type.
    Option.bind (case modifier_bits (kt_mods_mask key_type) of Inl _ \<Rightarrow> None | Inr b \<Rightarrow> Some b)
    (\<lambda>type_modifiers.
    if current_modifiers AND NOT ((type_modifiers OR safe_locked) OR requested_bits) \<noteq> 0 then None
    else
      (let width = unat (ks_width key); start = group * width in
       Option.bind (slice_get (ks_syms key) start (start + width)) (\<lambda>symbols.
       min_by_key (\<lambda>stroke. length (stroke_modifiers stroke))
         (List.map_filter (\<lambda>(level, _).
             if level < 256
             then map_option (\<lambda>modifiers. \<lparr>stroke_keycode = keycode,
                 stroke_modifiers = add_missing requested_keys modifiers\<rparr>)
               (modifiers_for_level key_type (of_nat level) current_modifiers modifier_keys)
             else None)
           (filter (\<lambda>(_, symbol). symbol = wanted)
             (take (unat (kt_num_levels key_type)) (enumerate 0 symbols)))))))))))"

definition resolve_with_modifiers ::
    "KeyboardMap \<Rightarrow> u32 \<Rightarrow> KeyboardModifier list \<Rightarrow> Failure + KeyStroke" where
  "resolve_with_modifiers m wanted requested =
    (let state = kb_state m in
     if xst_base_mods state \<noteq> 0 \<or> xst_latched_mods state \<noteq> 0
       \<or> xst_base_group state \<noteq> 0 \<or> xst_latched_group state \<noteq> 0
     then Inl (Failure_unavailable
       ''keyboard input is unavailable while a depressed or latched modifier is active'')
     else
       res_bind (requested_loop m 0 [] requested) (\<lambda>(requested_bits, requested_keys).
       res_bind (map_ok (\<lambda>b. b OR requested_bits) (modifier_bits (xst_mods state)))
       (\<lambda>current_modifiers.
       res_bind (safe_locked_modifiers m) (\<lambda>safe_locked.
       ok_or (min_by_key (\<lambda>stroke. length (stroke_modifiers stroke))
           (List.map_filter (resolve_row m wanted (unat (xst_group state)) requested_bits
               current_modifiers safe_locked requested_keys (momentary_modifier_keys m))
             (enumerate 0 (kb_symbols m))))
         (Failure_invalid SYMBOL_UNAVAILABLE)))))"

definition kb_resolve :: "KeyboardMap \<Rightarrow> u32 \<Rightarrow> Failure + KeyStroke" where
  "kb_resolve m wanted = resolve_with_modifiers m wanted []"

definition keysym_for_character :: "nat \<Rightarrow> u32" where
  "keysym_for_character c =
    (if c = 9 then XK_TAB else if c = 10 then XK_RETURN
     else if c \<le> 0xff then of_nat c else 0x01000000 OR of_nat c)"

fun keysym_for_key :: "KeyboardKey \<Rightarrow> u32" where
  "keysym_for_key Key_Backspace = XK_BACKSPACE"
| "keysym_for_key Key_Delete = XK_DELETE"
| "keysym_for_key Key_Enter = XK_RETURN"
| "keysym_for_key Key_Escape = XK_ESCAPE"
| "keysym_for_key Key_Tab = XK_TAB"
| "keysym_for_key Key_Space = 32"
| "keysym_for_key Key_Insert = XK_INSERT"
| "keysym_for_key Key_Home = XK_HOME"
| "keysym_for_key Key_End = XK_END"
| "keysym_for_key Key_PageUp = XK_PRIOR"
| "keysym_for_key Key_PageDown = XK_NEXT"
| "keysym_for_key Key_ArrowLeft = XK_LEFT"
| "keysym_for_key Key_ArrowRight = XK_RIGHT"
| "keysym_for_key Key_ArrowUp = XK_UP"
| "keysym_for_key Key_ArrowDown = XK_DOWN"
| "keysym_for_key Key_A = 97"
| "keysym_for_key Key_B = 98"
| "keysym_for_key Key_C = 99"
| "keysym_for_key Key_D = 100"
| "keysym_for_key Key_E = 101"
| "keysym_for_key Key_F = 102"
| "keysym_for_key Key_G = 103"
| "keysym_for_key Key_H = 104"
| "keysym_for_key Key_I = 105"
| "keysym_for_key Key_J = 106"
| "keysym_for_key Key_K = 107"
| "keysym_for_key Key_L = 108"
| "keysym_for_key Key_M = 109"
| "keysym_for_key Key_N = 110"
| "keysym_for_key Key_O = 111"
| "keysym_for_key Key_P = 112"
| "keysym_for_key Key_Q = 113"
| "keysym_for_key Key_R = 114"
| "keysym_for_key Key_S = 115"
| "keysym_for_key Key_T = 116"
| "keysym_for_key Key_U = 117"
| "keysym_for_key Key_V = 118"
| "keysym_for_key Key_W = 119"
| "keysym_for_key Key_X = 120"
| "keysym_for_key Key_Y = 121"
| "keysym_for_key Key_Z = 122"
| "keysym_for_key Key_Digit0 = 48"
| "keysym_for_key Key_Digit1 = 49"
| "keysym_for_key Key_Digit2 = 50"
| "keysym_for_key Key_Digit3 = 51"
| "keysym_for_key Key_Digit4 = 52"
| "keysym_for_key Key_Digit5 = 53"
| "keysym_for_key Key_Digit6 = 54"
| "keysym_for_key Key_Digit7 = 55"
| "keysym_for_key Key_Digit8 = 56"
| "keysym_for_key Key_Digit9 = 57"
| "keysym_for_key Key_F1 = XK_F1"
| "keysym_for_key Key_F2 = XK_F1 + 1"
| "keysym_for_key Key_F3 = XK_F1 + 2"
| "keysym_for_key Key_F4 = XK_F1 + 3"
| "keysym_for_key Key_F5 = XK_F1 + 4"
| "keysym_for_key Key_F6 = XK_F1 + 5"
| "keysym_for_key Key_F7 = XK_F1 + 6"
| "keysym_for_key Key_F8 = XK_F1 + 7"
| "keysym_for_key Key_F9 = XK_F1 + 8"
| "keysym_for_key Key_F10 = XK_F1 + 9"
| "keysym_for_key Key_F11 = XK_F1 + 10"
| "keysym_for_key Key_F12 = XK_F1 + 11"

definition character_failure :: "Failure \<Rightarrow> nat \<Rightarrow> nat \<Rightarrow> Failure" where
  "character_failure error character position =
    (if f_message error = SYMBOL_UNAVAILABLE
     then Failure_invalid (''keyboard character '' @ decimal position @ '' (U+'' @ hex4 character
       @ '') is unavailable in the current XKB layout and group; do not change the user's XKB layout or mapping as a workaround'')
     else error)"

fun resolve_all :: "KeyboardMap \<Rightarrow> nat \<Rightarrow> nat list \<Rightarrow> Failure + KeyStroke list" where
  "resolve_all m index [] = Inr []"
| "resolve_all m index (c # cs) =
    res_bind (map_err (\<lambda>e. character_failure e c (index + 1)) (kb_resolve m (keysym_for_character c)))
    (\<lambda>stroke. map_ok (\<lambda>strokes. stroke # strokes) (resolve_all m (index + 1) cs))"

definition resolve_text :: "xkb_server \<Rightarrow> string \<Rightarrow> Failure + KeyStroke list" where
  "resolve_text xk text = res_bind (KeyboardMap_read xk) (\<lambda>m. resolve_all m 0 (chars_str text))"

definition resolve_character :: "xkb_server \<Rightarrow> nat \<Rightarrow> u16 \<Rightarrow> Failure + KeyStroke" where
  "resolve_character xk character position =
    res_bind (KeyboardMap_read xk) (\<lambda>m.
    map_err (\<lambda>e. character_failure e character (unat position))
      (kb_resolve m (keysym_for_character character)))"

definition resolve_key :: "xkb_server \<Rightarrow> KeyboardKey \<Rightarrow> KeyboardModifier list \<Rightarrow> Failure + KeyStroke" where
  "resolve_key xk key modifiers =
    res_bind (KeyboardMap_read xk) (\<lambda>m. resolve_with_modifiers m (keysym_for_key key) modifiers)"

section \<open>The XKB lookup rule\<close>

text \<open>
  What the X server makes of a key press: the symbol of key \<open>keycode\<close> under the effective modifiers,
  and the modifier bits contributed by the keys held down.
\<close>

definition symbol_under :: "KeyboardMap \<Rightarrow> u8 \<Rightarrow> u8 \<Rightarrow> u32 option" where
  "symbol_under m effective keycode =
    Option.bind (key_row m keycode) (\<lambda>key.
    Option.bind (normalized_group (ks_group_info key) (unat (xst_group (kb_state m)))) (\<lambda>group.
    Option.bind (Option.bind (list_get (ks_kt_index key) group) (\<lambda>i. list_get (kb_types m) (unat i)))
    (\<lambda>key_type.
    let level = unat (level_for_modifiers key_type effective) in
    if level < unat (ks_width key) \<and> level < unat (kt_num_levels key_type)
    then list_get (ks_syms key) (group * unat (ks_width key) + level) else None)))"

definition held_bits :: "KeyboardMap \<Rightarrow> u8 list \<Rightarrow> u8" where
  "held_bits m keycodes = fold (\<lambda>entry bits. bits OR ucast (km_mods entry))
    (filter (\<lambda>entry. km_keycode entry \<in> set keycodes) (kb_modifier_map m)) 0"

section \<open>Resolved strokes produce the wanted symbol\<close>

lemma min_by_key_in: "min_by_key f xs = Some x \<Longrightarrow> x \<in> set xs"
  by (induction xs arbitrary: x) (auto split: option.splits if_splits)

lemma find_map_Some: "find_map f xs = Some y \<Longrightarrow> \<exists>x\<in>set xs. f x = Some y"
  by (induction xs) (auto split: option.splits)

lemma bit_fold_or:
  "bit (fold (\<lambda>x acc. acc OR g x) xs a :: 'a::len word) n \<longleftrightarrow> bit a n \<or> (\<exists>x\<in>set xs. bit (g x) n)"
  by (induction xs arbitrary: a) (auto simp: bit_or_iff)

lemma set_add_missing: "set (add_missing keys extra) = set keys \<union> set extra"
  unfolding add_missing_def by (induction extra arbitrary: keys) auto

text \<open>A modifier key of the search is an entry of the modifier map.\<close>

definition from_entry :: "KeyboardMap \<Rightarrow> ModifierKey \<Rightarrow> bool" where
  "from_entry m k \<longleftrightarrow> (\<exists>e\<in>set (kb_modifier_map m).
    km_keycode e = mk_keycode k \<and> ucast (km_mods e) = mk_modifiers k)"

lemma modifier_candidate_entry:
  "modifier_candidate m has e = Some k \<Longrightarrow> e \<in> set (kb_modifier_map m) \<Longrightarrow>
    from_entry m k \<and> has (mk_keycode k)"
  by (auto simp: modifier_candidate_def modifier_bits_def from_entry_def split: sum.splits if_splits)

lemma modifier_key_entry:
  "modifier_key m r = Inr k \<Longrightarrow> from_entry m k \<and> key_has_any_symbol m (mk_keycode k) (modifier_symbols r)"
  by (auto simp: modifier_key_def ok_or_def split: option.splits
      dest!: find_map_Some modifier_candidate_entry)

lemma momentary_loop_entries:
  "set es \<subseteq> set (kb_modifier_map m) \<Longrightarrow> \<forall>k\<in>set keys. from_entry m k \<Longrightarrow>
    \<forall>k\<in>set (momentary_loop m keys es). from_entry m k"
proof (induction es arbitrary: keys)
  case (Cons e es)
  show ?case
  proof (cases "modifier_candidate m (key_has_momentary_modifier_symbol m) e")
    case None
    with Cons show ?thesis by simp
  next
    case (Some key)
    then have "from_entry m key"
      using modifier_candidate_entry [OF Some] Cons.prems(1) by simp
    with Cons.prems(2) have more: "\<forall>k\<in>set (keys @ [key]). from_entry m k" by simp
    have rest: "set es \<subseteq> set (kb_modifier_map m)" using Cons.prems(1) by simp
    show ?thesis
      using Cons.IH [OF rest Cons.prems(2)] Cons.IH [OF rest more] Cons.prems(2) Some by simp
  qed
qed simp

lemma momentary_entries: "k \<in> set (momentary_modifier_keys m) \<Longrightarrow> from_entry m k"
  using momentary_loop_entries [of "kb_modifier_map m" m "[]"]
  by (simp add: momentary_modifier_keys_def)

text \<open>One step of the loop over the modifier keys, for any choice of indices.\<close>

definition press :: "(nat \<Rightarrow> bool) \<Rightarrow> nat \<times> ModifierKey \<Rightarrow> u8 list \<times> u8 \<Rightarrow> u8 list \<times> u8" where
  "press chosen = (\<lambda>(index, key) (keycodes, effective). if chosen index
    then (keycodes @ [mk_keycode key], effective OR mk_modifiers key) else (keycodes, effective))"

lemma press_fold:
  "fold (press chosen) (enumerate i keys) (kcs, cur) = (kcs', eff) \<Longrightarrow>
    \<exists>S. set S \<subseteq> set keys \<and> kcs' = kcs @ map mk_keycode S
      \<and> (\<forall>n. bit eff n \<longleftrightarrow> bit cur n \<or> (\<exists>k\<in>set S. bit (mk_modifiers k) n))"
proof (induction keys arbitrary: i kcs cur)
  case Nil
  then show ?case by (intro exI [of _ "[]"]) simp
next
  case (Cons k keys)
  show ?case
  proof (cases "chosen i")
    case True
    then have run: "fold (press chosen) (enumerate (Suc i) keys) (kcs @ [mk_keycode k], cur OR mk_modifiers k)
        = (kcs', eff)"
      using Cons.prems by (simp add: press_def)
    from Cons.IH [OF run] obtain S where S: "set S \<subseteq> set keys"
      "kcs' = (kcs @ [mk_keycode k]) @ map mk_keycode S"
      "\<forall>n. bit eff n \<longleftrightarrow> bit (cur OR mk_modifiers k) n \<or> (\<exists>k\<in>set S. bit (mk_modifiers k) n)"
      by blast
    show ?thesis
    proof (intro exI [of _ "k # S"] conjI allI)
      fix n
      show "bit eff n \<longleftrightarrow> bit cur n \<or> (\<exists>k\<in>set (k # S). bit (mk_modifiers k) n)"
        using S(3) [rule_format, of n] by (auto simp: bit_or_iff)
    qed (use S in auto)
  next
    case False
    then have run: "fold (press chosen) (enumerate (Suc i) keys) (kcs, cur) = (kcs', eff)"
      using Cons.prems by (simp add: press_def)
    from Cons.IH [OF run] obtain S where S: "set S \<subseteq> set keys" "kcs' = kcs @ map mk_keycode S"
      "\<forall>n. bit eff n \<longleftrightarrow> bit cur n \<or> (\<exists>k\<in>set S. bit (mk_modifiers k) n)"
      by blast
    then show ?thesis by (intro exI [of _ S]) auto
  qed
qed

lemma modifiers_for_level_sound:
  assumes "modifiers_for_level kt level cur keys = Some kcs"
  obtains S eff where "set S \<subseteq> set keys" "kcs = map mk_keycode S" "level_for_modifiers kt eff = level"
    "\<forall>n. bit eff n \<longleftrightarrow> bit cur n \<or> (\<exists>k\<in>set S. bit (mk_modifiers k) n)"
proof -
  from assms obtain eff where "(kcs, eff) \<in> set (filter
      (\<lambda>(keycodes, effective). level_for_modifiers kt effective = level)
      (map (\<lambda>c. apply_combination (of_nat c) cur keys) [0..<2 ^ length keys]))"
    by (auto simp: modifiers_for_level_def simp del: filter_map split: if_splits dest!: min_by_key_in)
  then obtain c where run: "apply_combination (of_nat c) cur keys = (kcs, eff)"
    and level: "level_for_modifiers kt eff = level"
    by (auto intro: sym)
  from run have "fold (press (\<lambda>index. (of_nat c :: u16) AND push_bit index 1 \<noteq> 0))
      (enumerate 0 keys) ([], cur) = (kcs, eff)"
    by (simp only: apply_combination_def press_def)
  from press_fold [OF this] level show ?thesis
    by (metis append_Nil that)
qed

lemma requested_loop_sound:
  assumes "requested_loop m bits keys rs = Inr (bits', keys')"
  shows "\<exists>R. (\<forall>k\<in>set R. from_entry m k) \<and> keys' = keys @ map mk_keycode R
    \<and> (\<forall>n. bit bits' n \<longleftrightarrow> bit bits n \<or> (\<exists>k\<in>set R. bit (mk_modifiers k) n))
    \<and> (\<forall>r\<in>set rs. \<exists>k\<in>set R. key_has_any_symbol m (mk_keycode k) (modifier_symbols r))"
  using assms
proof (induction rs arbitrary: bits keys)
  case Nil
  then show ?case by (intro exI [of _ "[]"]) simp
next
  case (Cons r rs)
  then obtain k where k: "modifier_key m r = Inr k"
    and rest: "requested_loop m (bits OR mk_modifiers k) (keys @ [mk_keycode k]) rs = Inr (bits', keys')"
    by (auto simp: res_simps split: if_splits)
  from Cons.IH [OF rest] obtain R where
    "\<forall>k\<in>set R. from_entry m k" "keys' = keys @ mk_keycode k # map mk_keycode R"
    "\<forall>n. bit bits' n \<longleftrightarrow> bit (bits OR mk_modifiers k) n \<or> (\<exists>k\<in>set R. bit (mk_modifiers k) n)"
    "\<forall>r\<in>set rs. \<exists>k\<in>set R. key_has_any_symbol m (mk_keycode k) (modifier_symbols r)"
    by auto
  with modifier_key_entry [OF k] show ?case
    by (intro exI [of _ "k # R"]) (auto simp: bit_or_iff)
qed

lemma held_bits_entries:
  assumes "distinct (map km_keycode (kb_modifier_map m))" and "\<forall>k\<in>set K. from_entry m k"
    and "set keycodes = mk_keycode ` set K"
  shows "bit (held_bits m keycodes) n \<longleftrightarrow> (\<exists>k\<in>set K. bit (mk_modifiers k) n)"
proof -
  have same: "ucast (km_mods e) = mk_modifiers k"
    if "e \<in> set (kb_modifier_map m)" "k \<in> set K" "km_keycode e = mk_keycode k" for e k
  proof -
    note entry = that
    obtain e' where "e' \<in> set (kb_modifier_map m)" "km_keycode e' = mk_keycode k"
      "ucast (km_mods e') = mk_modifiers k"
      using assms(2) entry(2) by (auto simp: from_entry_def)
    with entry assms(1) show ?thesis
      by (metis (no_types, lifting) distinct_map inj_onD)
  qed
  have "bit (held_bits m keycodes) n \<longleftrightarrow> (\<exists>e\<in>set (kb_modifier_map m).
      km_keycode e \<in> mk_keycode ` set K \<and> bit (ucast (km_mods e) :: u8) n)"
    unfolding held_bits_def bit_fold_or assms(3) [symmetric] by auto
  also have "\<dots> \<longleftrightarrow> (\<exists>k\<in>set K. bit (mk_modifiers k) n)"
  proof
    assume "\<exists>e\<in>set (kb_modifier_map m). km_keycode e \<in> mk_keycode ` set K \<and> bit (ucast (km_mods e) :: u8) n"
    then show "\<exists>k\<in>set K. bit (mk_modifiers k) n" using same by fastforce
  next
    assume "\<exists>k\<in>set K. bit (mk_modifiers k) n"
    then show "\<exists>e\<in>set (kb_modifier_map m). km_keycode e \<in> mk_keycode ` set K \<and> bit (ucast (km_mods e) :: u8) n"
      using assms(2) by (force simp: from_entry_def)
  qed
  finally show ?thesis .
qed

lemma unat_of_nat_u8: "n < 256 \<Longrightarrow> unat (of_nat n :: u8) = n"
  by (simp add: unsigned_of_nat take_bit_nat_eq_self)

lemma enumerate_member: "(i, x) \<in> set (enumerate 0 xs) \<longleftrightarrow> i < length xs \<and> xs ! i = x"
  by (auto simp: in_set_enumerate_eq)

lemma resolve_row_sound:
  assumes "resolve_row m wanted g rb cur safe rks mks (row, key) = Some stroke"
    and "row < length (kb_symbols m)" and "kb_symbols m ! row = key"
  obtains kt group level kcs where "key_row m (stroke_keycode stroke) = Some key"
    "normalized_group (ks_group_info key) g = Some group"
    "Option.bind (list_get (ks_kt_index key) group) (\<lambda>i. list_get (kb_types m) (unat i)) = Some kt"
    "level < unat (ks_width key)" "level < unat (kt_num_levels kt)" "level < 256"
    "list_get (ks_syms key) (group * unat (ks_width key) + level) = Some wanted"
    "modifiers_for_level kt (of_nat level) cur mks = Some kcs"
    "stroke_modifiers stroke = add_missing rks kcs"
proof -
  from assms(1) obtain keycode group kt syms where
    keycode: "row < 256" "checked_add (kb_minimum m) (of_nat row) = Some keycode"
    and group: "normalized_group (ks_group_info key) g = Some group"
    and kt: "Option.bind (list_get (ks_kt_index key) group) (\<lambda>i. list_get (kb_types m) (unat i)) = Some kt"
    and syms: "slice_get (ks_syms key) (group * unat (ks_width key))
      (group * unat (ks_width key) + unat (ks_width key)) = Some syms"
    and best: "min_by_key (\<lambda>stroke. length (stroke_modifiers stroke))
         (List.map_filter (\<lambda>(level, _).
             if level < 256
             then map_option (\<lambda>modifiers. \<lparr>stroke_keycode = keycode,
                 stroke_modifiers = add_missing rks modifiers\<rparr>)
               (modifiers_for_level kt (of_nat level) cur mks)
             else None)
           (filter (\<lambda>(_, symbol). symbol = wanted)
             (take (unat (kt_num_levels kt)) (enumerate 0 syms)))) = Some stroke"
    by (auto simp: resolve_row_def Let_def split: if_splits bind_splits)
  from min_by_key_in [OF best] obtain level kcs where
    level: "(level, wanted) \<in> set (take (unat (kt_num_levels kt)) (enumerate 0 syms))" "level < 256"
    and kcs: "modifiers_for_level kt (of_nat level) cur mks = Some kcs"
    and stroke: "stroke = \<lparr>stroke_keycode = keycode, stroke_modifiers = add_missing rks kcs\<rparr>"
    by (auto simp: List.map_filter_def split: if_splits)
  have bounds: "level < length syms" "level < unat (kt_num_levels kt)" "syms ! level = wanted"
    using level(1) by (auto simp: in_set_conv_nth nth_enumerate_eq)
  have slice: "length syms = unat (ks_width key)"
    "list_get (ks_syms key) (group * unat (ks_width key) + level) = Some wanted"
    using syms bounds by (auto simp: slice_get_def list_get_def split: if_splits)
  have "unat keycode = unat (kb_minimum m) + row"
    using keycode by (simp add: checked_add_Some_iff unat_of_nat_u8)
  then have "kb_minimum m \<le> keycode" "unat (keycode - kb_minimum m) = row"
    by (simp_all add: word_le_nat_alt unat_sub)
  then have "key_row m keycode = Some key"
    using assms(2,3) by (simp add: key_row_def list_get_def)
  with group kt bounds slice level(2) kcs stroke show ?thesis
    by (intro that [of group kt level kcs]) simp_all
qed

text \<open>
  C24. Typing a resolved stroke yields the wanted symbol: with the stroke's modifiers held on top of
  the keyboard's current modifier state, the XKB lookup of the stroke's key gives exactly the symbol
  asked for, and every modifier the caller requested is among the keys held.
\<close>

theorem resolved_stroke_yields_symbol:
  assumes "resolve_with_modifiers m wanted requested = Inr stroke"
    and "distinct (map km_keycode (kb_modifier_map m))"
  shows "symbol_under m (ucast (xst_mods (kb_state m)) OR held_bits m (stroke_modifiers stroke))
      (stroke_keycode stroke) = Some wanted
    \<and> (\<forall>r\<in>set requested. \<exists>k\<in>set (stroke_modifiers stroke). key_has_any_symbol m k (modifier_symbols r))"
proof -
  from assms(1) obtain rb rks safe where
    req: "requested_loop m 0 [] requested = Inr (rb, rks)"
    and best: "min_by_key (\<lambda>stroke. length (stroke_modifiers stroke))
       (List.map_filter (resolve_row m wanted (unat (xst_group (kb_state m))) rb
           (ucast (xst_mods (kb_state m)) OR rb) safe rks (momentary_modifier_keys m))
         (enumerate 0 (kb_symbols m))) = Some stroke"
    by (auto simp: resolve_with_modifiers_def res_simps Let_def ok_or_def modifier_bits_def
        split: if_splits option.splits)
  from min_by_key_in [OF best] obtain row key where
    row: "resolve_row m wanted (unat (xst_group (kb_state m))) rb (ucast (xst_mods (kb_state m)) OR rb)
        safe rks (momentary_modifier_keys m) (row, key) = Some stroke"
    "row < length (kb_symbols m)" "kb_symbols m ! row = key"
    by (auto simp: List.map_filter_def enumerate_member)
  from row obtain kt group level kcs where
    key: "key_row m (stroke_keycode stroke) = Some key"
      "normalized_group (ks_group_info key) (unat (xst_group (kb_state m))) = Some group"
      "Option.bind (list_get (ks_kt_index key) group) (\<lambda>i. list_get (kb_types m) (unat i)) = Some kt"
    and level: "level < unat (ks_width key)" "level < unat (kt_num_levels kt)" "level < 256"
      "list_get (ks_syms key) (group * unat (ks_width key) + level) = Some wanted"
    and kcs: "modifiers_for_level kt (of_nat level) (ucast (xst_mods (kb_state m)) OR rb)
        (momentary_modifier_keys m) = Some kcs"
    and all: "stroke_modifiers stroke = add_missing rks kcs"
    by (rule resolve_row_sound)
  from kcs obtain S eff where S: "set S \<subseteq> set (momentary_modifier_keys m)" "kcs = map mk_keycode S"
    and eff: "level_for_modifiers kt eff = of_nat level"
      "\<forall>n. bit eff n \<longleftrightarrow> bit (ucast (xst_mods (kb_state m)) OR rb) n \<or> (\<exists>k\<in>set S. bit (mk_modifiers k) n)"
    by (rule modifiers_for_level_sound)
  from requested_loop_sound [OF req] obtain R where R: "\<forall>k\<in>set R. from_entry m k" "rks = map mk_keycode R"
    "\<forall>n. bit rb n \<longleftrightarrow> (\<exists>k\<in>set R. bit (mk_modifiers k) n)"
    "\<forall>r\<in>set requested. \<exists>k\<in>set R. key_has_any_symbol m (mk_keycode k) (modifier_symbols r)"
    by auto
  have held: "bit (held_bits m (stroke_modifiers stroke)) n \<longleftrightarrow> (\<exists>k\<in>set (R @ S). bit (mk_modifiers k) n)" for n
    using S R(1,2) momentary_entries
    by (intro held_bits_entries [OF assms(2)]) (auto simp: all set_add_missing)
  have "eff = ucast (xst_mods (kb_state m)) OR held_bits m (stroke_modifiers stroke)"
    by (rule bit_word_eqI) (use eff(2) R(3) held in \<open>auto simp: bit_or_iff\<close>)
  then have "symbol_under m (ucast (xst_mods (kb_state m)) OR held_bits m (stroke_modifiers stroke))
      (stroke_keycode stroke) = Some wanted"
    using key level eff(1) by (simp add: symbol_under_def unat_of_nat_u8 Let_def del: Option.bind_assoc)
  with R(2,4) show ?thesis
    by (simp add: all set_add_missing bex_Un)
qed

text \<open>A two-key map: key 8 is Control, key 9 gives x, or l with Control held.\<close>

definition demo_keyboard :: KeyboardMap where
  "demo_keyboard = \<lparr>kb_minimum = 8,
    kb_types = [\<lparr>kt_mods_mask = 4, kt_num_levels = 2,
      kt_map = [\<lparr>kte_active = True, kte_mods_mask = 4, kte_level = 1\<rparr>]\<rparr>],
    kb_symbols = [
      \<lparr>ks_kt_index = [0, 0, 0, 0], ks_group_info = 1, ks_width = 1, ks_syms = [XK_CONTROL_L]\<rparr>,
      \<lparr>ks_kt_index = [0, 0, 0, 0], ks_group_info = 1, ks_width = 2, ks_syms = [120, 108]\<rparr>],
    kb_modifier_map = [\<lparr>km_keycode = 8, km_mods = 4\<rparr>],
    kb_state = \<lparr>xst_mods = 0, xst_base_mods = 0, xst_latched_mods = 0, xst_locked_mods = 0,
      xst_group = 0, xst_base_group = 0, xst_latched_group = 0\<rparr>\<rparr>"

lemma demo_resolve: "resolve_with_modifiers demo_keyboard 108 [Mod_Control]
    = Inr \<lparr>stroke_keycode = 9, stroke_modifiers = [8]\<rparr>"
  by code_simp

theorem resolved_stroke_yields_symbol_witness:
  "symbol_under demo_keyboard (0 OR held_bits demo_keyboard [8]) 9 = Some 108"
  using resolved_stroke_yields_symbol [OF demo_resolve]
  by (simp add: demo_keyboard_def)

end
