(* ===== verification/Observer_Grab.thy ===== *)
theory Observer_Grab
  imports Seat_Gate Observer_Manager Input_Keyboard
begin

text \<open>
  What one X server grab sees and does (\<^verbatim>\<open>Observer::under_server_grab\<close> in
  \<^verbatim>\<open>agent-seat-x11/src/observer.rs\<close>, and the seat check and XTEST requests of
  \<^verbatim>\<open>observer/input.rs\<close>). While the server is grabbed no other client acts, so the answers of the
  server are fixed by a record \<open>grab_env\<close>; only the seat gate, which other threads change, and the
  outcome of each XTEST request depend on when they are asked. The state of a grabbed section is
  the observer together with the trace of gate readings and XTEST requests made so far, and the
  length of that trace is the time.
\<close>

section \<open>The server during one grab\<close>

record window_attributes =
  wa_viewable :: bool
  wa_visual :: u32

record Rectangle =
  rg_x :: i16
  rg_y :: i16
  rg_width :: u16
  rg_height :: u16

datatype fake_reply = Fake_Unsent | Fake_Refused | Fake_Unsynced | Fake_Done

record grab_env =
  ge_grab :: "unit x_reply"
  ge_ungrab :: "unit x_reply"
  ge_sample :: sample
  ge_x :: x_server
  ge_focus :: "u32 x_reply"
  ge_parent :: "u32 \<Rightarrow> u32 x_reply"
  ge_children :: "u32 list x_reply"
  ge_attributes :: "u32 \<Rightarrow> window_attributes x_reply"
  ge_translate :: "u32 \<Rightarrow> i16 \<Rightarrow> i16 \<Rightarrow> translate_reply x_reply"
  ge_shape :: "u32 \<Rightarrow> Rectangle list x_reply"
  ge_xkb :: xkb_server
  ge_gate :: "nat \<Rightarrow> SeatGate"
  ge_fake :: "nat \<Rightarrow> fake_reply"

text \<open>
  What a section does to other clients besides XTEST input: claiming the clipboard, writing a
  property of a requestor, and notifying it. A reading of the gate or an XTEST request carries its
  outcome.
\<close>

datatype x_send =
  Own_Selection u32
| Put_Atoms u32 u32 "u32 list"
| Put_Text u32 u32 u32 string
| Notify u32 u32

datatype seat_effect =
  Gate_Read SeatGate
| Fake u8 u8 i16 i16 fake_reply
| Sent x_send

record grabbed =
  gr_observer :: Observer
  gr_trace :: "seat_effect list"

type_synonym 'a grabbed_op = "(grabbed, Failure, 'a) st"

definition lift_obs :: "(Observer, Failure, 'a) st \<Rightarrow> 'a grabbed_op" where
  "lift_obs m s = (let (r, ob) = m (gr_observer s) in (r, s\<lparr>gr_observer := ob\<rparr>))"

definition under_server_grab :: "grab_env \<Rightarrow> 'a grabbed_op \<Rightarrow> 'a grabbed_op" where
  "under_server_grab env action =
    st_bind (st_try (x_ask ''cannot request an X11 server grab'' ''cannot acquire an X11 server grab''
      (ge_grab env))) (\<lambda>_ s.
    let (result, t) = action s;
      released = x_ask ''cannot request an X11 server ungrab'' ''cannot release the X11 server grab''
        (ge_ungrab env) in
    (case (result, released) of
       (Inr value, Inr _) \<Rightarrow> Inr value
     | (Inl error, _) \<Rightarrow> Inl error
     | (Inr _, Inl error) \<Rightarrow> Inl error, t))"

text \<open>\<^verbatim>\<open>seat.accepts(seat_permit)\<close>, read at the current time.\<close>

definition check_seat :: "grab_env \<Rightarrow> SeatPermit \<Rightarrow> bool grabbed_op" where
  "check_seat env p =
    st_bind (st_get (\<lambda>s. ge_gate env (length (gr_trace s)))) (\<lambda>gate.
    st_bind (st_modify (gr_trace_update (\<lambda>tr. tr @ [Gate_Read gate]))) (\<lambda>_.
    st_return (accepts gate p)))"

definition KEY_PRESS_EVENT :: u8 where "KEY_PRESS_EVENT = 2"
definition KEY_RELEASE_EVENT :: u8 where "KEY_RELEASE_EVENT = 3"
definition BUTTON_PRESS_EVENT :: u8 where "BUTTON_PRESS_EVENT = 4"
definition BUTTON_RELEASE_EVENT :: u8 where "BUTTON_RELEASE_EVENT = 5"
definition MOTION_NOTIFY_EVENT :: u8 where "MOTION_NOTIFY_EVENT = 6"

definition x_sent :: "x_send \<Rightarrow> unit grabbed_op" where
  "x_sent e = st_modify (gr_trace_update (\<lambda>tr. tr @ [Sent e]))"

definition xtest_fake_input :: "grab_env \<Rightarrow> u8 \<Rightarrow> u8 \<Rightarrow> i16 \<Rightarrow> i16 \<Rightarrow> fake_reply grabbed_op" where
  "xtest_fake_input env event_type detail x y =
    st_bind (st_get (\<lambda>s. ge_fake env (length (gr_trace s)))) (\<lambda>reply.
    st_bind (st_modify (gr_trace_update (\<lambda>tr. tr @ [Fake event_type detail x y reply]))) (\<lambda>_.
    st_return reply))"

definition fake_input :: "grab_env \<Rightarrow> u8 \<Rightarrow> u8 \<Rightarrow> i16 \<Rightarrow> i16 \<Rightarrow> unit grabbed_op" where
  "fake_input env event_type detail root_x root_y =
    st_bind (xtest_fake_input env event_type detail root_x root_y) (\<lambda>reply.
    case reply of
      Fake_Unsent \<Rightarrow> st_fail (Failure_unavailable ''cannot queue XTEST input'')
    | Fake_Refused \<Rightarrow> st_fail (Failure_unavailable ''the X server refused XTEST input'')
    | Fake_Unsynced \<Rightarrow> st_fail (Failure_unavailable ''cannot synchronize XTEST input'')
    | Fake_Done \<Rightarrow> st_return ())"

definition best_effort_release :: "grab_env \<Rightarrow> u8 \<Rightarrow> u8 \<Rightarrow> unit grabbed_op" where
  "best_effort_release env event_type detail =
    st_bind (xtest_fake_input env event_type detail 0 0) (\<lambda>_. st_return ())"

text \<open>\<^verbatim>\<open>if let Err(error) = m { cleanup; return Err(error); }\<close>\<close>

definition on_error :: "('s, 'e, 'a) st \<Rightarrow> ('s, 'e, unit) st \<Rightarrow> ('s, 'e, 'a) st" where
  "on_error m cleanup s = (case m s of
      (Inl e, t) \<Rightarrow> (Inl e, snd (cleanup t))
    | (Inr a, t) \<Rightarrow> (Inr a, t))"

text \<open>The release of a list of keys, last pressed first.\<close>

fun release_keys_loop :: "grab_env \<Rightarrow> u8 list \<Rightarrow> unit grabbed_op" where
  "release_keys_loop env [] = st_return ()"
| "release_keys_loop env (k # ks) =
    st_bind (best_effort_release env KEY_RELEASE_EVENT k) (\<lambda>_. release_keys_loop env ks)"

definition release_keys :: "grab_env \<Rightarrow> u8 list \<Rightarrow> unit grabbed_op" where
  "release_keys env keycodes = release_keys_loop env (rev keycodes)"

fun press_modifiers :: "grab_env \<Rightarrow> u8 list \<Rightarrow> u8 list \<Rightarrow> u8 list grabbed_op" where
  "press_modifiers env pressed [] = st_return pressed"
| "press_modifiers env pressed (m # ms) =
    st_bind (on_error (fake_input env KEY_PRESS_EVENT m 0 0) (release_keys env pressed)) (\<lambda>_.
    press_modifiers env (pressed @ [m]) ms)"

text \<open>\<^verbatim>\<open>while let Some(modifier) = pressed_modifiers.pop()\<close>, on the reversed list.\<close>

fun pop_modifiers :: "grab_env \<Rightarrow> u8 list \<Rightarrow> unit grabbed_op" where
  "pop_modifiers env [] = st_return ()"
| "pop_modifiers env (m # rest) =
    st_bind (on_error (fake_input env KEY_RELEASE_EVENT m 0 0)
      (st_bind (best_effort_release env KEY_RELEASE_EVENT m) (\<lambda>_. release_keys env (rev rest)))) (\<lambda>_.
    pop_modifiers env rest)"

definition type_key :: "grab_env \<Rightarrow> KeyStroke \<Rightarrow> unit grabbed_op" where
  "type_key env stroke =
    st_bind (press_modifiers env [] (stroke_modifiers stroke)) (\<lambda>pressed.
    st_bind (on_error (fake_input env KEY_PRESS_EVENT (stroke_keycode stroke) 0 0)
      (release_keys env pressed)) (\<lambda>_.
    st_bind (on_error (fake_input env KEY_RELEASE_EVENT (stroke_keycode stroke) 0 0)
      (st_bind (best_effort_release env KEY_RELEASE_EVENT (stroke_keycode stroke)) (\<lambda>_.
        release_keys env pressed))) (\<lambda>_.
    pop_modifiers env (rev pressed))))"

section \<open>A fresh, focused target\<close>

definition MAX_WINDOW_ANCESTORS :: nat where "MAX_WINDOW_ANCESTORS = 64"
definition POINTER_ROOT_FOCUS :: u32 where "POINTER_ROOT_FOCUS = 1"
definition FOCUS_RECOVERY :: string where
  "FOCUS_RECOVERY = ''keyboard focus is not owned by the target client; inspect this result and take a fresh desktop snapshot to handle the active client''"

fun focus_walk :: "grab_env \<Rightarrow> u32 \<Rightarrow> u32 \<Rightarrow> nat \<Rightarrow> u32 \<Rightarrow> Failure + unit" where
  "focus_walk env root target_xid 0 window = Inl (Failure_invalid FOCUS_RECOVERY)"
| "focus_walk env root target_xid (Suc n) window =
    (if window = target_xid then Inr ()
     else
       res_bind (x_ask ''cannot inspect keyboard focus ancestry'' ''cannot inspect keyboard focus ancestry''
         (ge_parent env window)) (\<lambda>parent.
       if parent = X_NONE \<or> parent = root then Inl (Failure_invalid FOCUS_RECOVERY)
       else focus_walk env root target_xid n parent))"

definition require_focus_owned_by :: "grab_env \<Rightarrow> u32 \<Rightarrow> u32 \<Rightarrow> Failure + unit" where
  "require_focus_owned_by env root target_xid =
    res_bind (x_ask ''cannot inspect X11 input focus'' ''cannot inspect X11 input focus'' (ge_focus env))
    (\<lambda>focus.
    if focus = X_NONE \<or> focus = POINTER_ROOT_FOCUS then Inl (Failure_invalid FOCUS_RECOVERY)
    else focus_walk env root target_xid MAX_WINDOW_ANCESTORS focus)"

definition fresh_target :: "grab_env \<Rightarrow> TargetRequest \<Rightarrow> Target grabbed_op" where
  "fresh_target env request =
    st_bind (lift_obs (refresh (ge_sample env))) (\<lambda>_ s. (target (gr_observer s) request, s))"

definition focused_target :: "grab_env \<Rightarrow> TargetRequest \<Rightarrow> Target grabbed_op" where
  "focused_target env request =
    st_bind (fresh_target env request) (\<lambda>t s.
    (map_ok (\<lambda>_. t) (require_focus_owned_by env (ob_root (gr_observer s)) (tg_xid t)), s))"

section \<open>Every input follows an accepted seat check\<close>

text \<open>
  \<open>guarded p b tr\<close>: each XTEST request and each message of \<open>tr\<close> was made when the latest reading of the gate accepted
  the permit \<open>p\<close>; \<open>b\<close> says whether the latest reading before \<open>tr\<close> did.
\<close>

fun arm :: "SeatPermit \<Rightarrow> seat_effect \<Rightarrow> bool \<Rightarrow> bool" where
  "arm p (Gate_Read gate) b = accepts gate p"
| "arm p (Fake _ _ _ _ _) b = b"
| "arm p (Sent _) b = b"

fun guarded :: "SeatPermit \<Rightarrow> bool \<Rightarrow> seat_effect list \<Rightarrow> bool" where
  "guarded p b [] = True"
| "guarded p b (Gate_Read gate # es) = guarded p (accepts gate p) es"
| "guarded p b (Fake _ _ _ _ _ # es) = (b \<and> guarded p b es)"
| "guarded p b (Sent _ # es) = (b \<and> guarded p b es)"

lemma guarded_append: "guarded p b (xs @ ys) \<longleftrightarrow> guarded p b xs \<and> guarded p (fold (arm p) xs b) ys"
  by (induction p b xs rule: guarded.induct) auto

definition safe :: "SeatPermit \<Rightarrow> grabbed \<Rightarrow> bool" where
  "safe p s \<longleftrightarrow> guarded p False (gr_trace s)"

definition armed :: "SeatPermit \<Rightarrow> grabbed \<Rightarrow> bool" where
  "armed p s \<longleftrightarrow> safe p s \<and> fold (arm p) (gr_trace s) False"

lemma armed_safe: "armed p s \<Longrightarrow> safe p s"
  by (simp add: armed_def)

lemma keeps_on_error [keeps_intros]: "keeps I m \<Longrightarrow> keeps I c \<Longrightarrow> keeps I (on_error m c)"
  by (force simp: keeps_def on_error_def split: prod.splits sum.splits)

lemma keeps_lift_obs: "keeps (\<lambda>s. P (gr_trace s)) (lift_obs m)"
  by (auto simp: keeps_def lift_obs_def split: prod.splits)

lemma keeps_safe_lift [keeps_intros]: "keeps (safe p) (lift_obs m)"
  using keeps_lift_obs [of "guarded p False"] by (simp add: safe_def [abs_def])

lemma keeps_under_server_grab [keeps_intros]: "keeps I m \<Longrightarrow> keeps I (under_server_grab env m)"
  by (force simp: keeps_def under_server_grab_def st_bind_def st_run Let_def
      split: prod.splits sum.splits)

lemma keeps_reading: "keeps I (\<lambda>s. (g s, s))"
  by (simp add: keeps_def)

lemma keeps_armed_xtest [keeps_intros]: "keeps (armed p) (xtest_fake_input env ev d x y)"
  by (simp add: keeps_def xtest_fake_input_def st_bind_def st_run armed_def safe_def guarded_append)

lemma keeps_armed_fake [keeps_intros]: "keeps (armed p) (fake_input env ev d x y)"
  unfolding fake_input_def
  by (rule keeps_bind, rule keeps_armed_xtest) (auto split: fake_reply.split intro: keeps_intros)

lemma keeps_armed_sent [keeps_intros]: "keeps (armed p) (x_sent e)"
  by (simp add: keeps_def x_sent_def st_run armed_def safe_def guarded_append)

lemma keeps_armed_release [keeps_intros]: "keeps (armed p) (best_effort_release env ev d)"
  unfolding best_effort_release_def by (intro keeps_intros)

lemma keeps_armed_loops [keeps_intros]:
  "keeps (armed p) (release_keys env ks)" "keeps (armed p) (press_modifiers env pressed ks)"
  "keeps (armed p) (pop_modifiers env ks)"
proof -
  have loop: "keeps (armed p) (release_keys_loop env ks)" for ks
    by (induction ks) (simp_all add: keeps_intros)
  then show release: "keeps (armed p) (release_keys env ks)" for ks
    by (simp add: release_keys_def)
  show "keeps (armed p) (press_modifiers env pressed ks)"
    by (induction ks arbitrary: pressed) (simp_all add: keeps_intros release)
  show "keeps (armed p) (pop_modifiers env ks)"
    by (induction ks) (simp_all add: keeps_intros release)
qed

lemma keeps_armed_type_key [keeps_intros]: "keeps (armed p) (type_key env stroke)"
  unfolding type_key_def by (intro keeps_intros)

lemma check_seat_run:
  "check_seat env p s = (Inr (accepts (ge_gate env (length (gr_trace s))) p),
    s\<lparr>gr_trace := gr_trace s @ [Gate_Read (ge_gate env (length (gr_trace s)))]\<rparr>)"
  by (simp add: check_seat_def st_bind_def st_run)

lemma keeps_gated_part:
  assumes "\<And>s. armed p s \<Longrightarrow> safe p (snd (m s))" and "keeps (safe p) n"
  shows "keeps (safe p) (st_bind (check_seat env p) (\<lambda>ok. if \<not> ok then n else m))"
  unfolding keeps_def
proof (intro allI impI)
  fix s
  assume "safe p s"
  define t where "t = s\<lparr>gr_trace := gr_trace s @ [Gate_Read (ge_gate env (length (gr_trace s)))]\<rparr>"
  have "safe p t" "accepts (ge_gate env (length (gr_trace s))) p \<Longrightarrow> armed p t"
    using \<open>safe p s\<close> by (simp_all add: t_def safe_def armed_def guarded_append)
  with assms show "safe p (snd (st_bind (check_seat env p) (\<lambda>ok. if \<not> ok then n else m) s))"
    by (auto simp: st_bind_Inr [OF check_seat_run] keeps_def t_def)
qed

lemma keeps_gated [keeps_intros]:
  "keeps (armed p) m \<Longrightarrow> keeps (safe p) n \<Longrightarrow>
    keeps (safe p) (st_bind (check_seat env p) (\<lambda>ok. if \<not> ok then n else m))"
  by (rule keeps_gated_part) (simp_all add: keeps_def armed_safe)

text \<open>A part that checks the seat again after something done under the first check.\<close>

lemma armed_then_safe:
  assumes "keeps (armed p) m" and "\<And>a. keeps (safe p) (f a)" and "armed p s"
  shows "safe p (snd (st_bind m f s))"
proof -
  obtain r t where run: "m s = (r, t)" by fastforce
  then have "armed p t" using keepsD [OF assms(1,3)] by simp
  with run assms(2) show ?thesis
    by (cases r) (auto simp: keeps_def armed_safe)
qed

lemma keeps_safe_target [keeps_intros]:
  "keeps (safe p) (fresh_target env request)" "keeps (safe p) (focused_target env request)"
  unfolding focused_target_def fresh_target_def by (intro keeps_intros keeps_reading)+

section \<open>No key is left pressed\<close>

text \<open>
  The keys and buttons whose press the server confirmed and whose release has not been requested
  since.
\<close>

fun down_step :: "seat_effect \<Rightarrow> (u8 \<times> u8) set \<Rightarrow> (u8 \<times> u8) set" where
  "down_step (Gate_Read _) D = D"
| "down_step (Sent _) D = D"
| "down_step (Fake ev d _ _ reply) D =
    (if ev = KEY_PRESS_EVENT \<or> ev = BUTTON_PRESS_EVENT
     then (if reply = Fake_Done then insert (ev, d) D else D)
     else if ev = KEY_RELEASE_EVENT then D - {(KEY_PRESS_EVENT, d)}
     else if ev = BUTTON_RELEASE_EVENT then D - {(BUTTON_PRESS_EVENT, d)}
     else D)"

definition held_down :: "seat_effect list \<Rightarrow> (u8 \<times> u8) set" where
  "held_down tr = fold down_step tr {}"

lemma held_down_append: "held_down (tr @ [e]) = down_step e (held_down tr)"
  by (simp add: held_down_def)

lemmas event_codes = KEY_PRESS_EVENT_def KEY_RELEASE_EVENT_def BUTTON_PRESS_EVENT_def
  BUTTON_RELEASE_EVENT_def MOTION_NOTIFY_EVENT_def

lemma down_step_codes [simp]:
  "down_step (Fake KEY_PRESS_EVENT k x y reply) D =
    (if reply = Fake_Done then insert (KEY_PRESS_EVENT, k) D else D)"
  "down_step (Fake BUTTON_PRESS_EVENT k x y reply) D =
    (if reply = Fake_Done then insert (BUTTON_PRESS_EVENT, k) D else D)"
  "down_step (Fake KEY_RELEASE_EVENT k x y reply) D = D - {(KEY_PRESS_EVENT, k)}"
  "down_step (Fake BUTTON_RELEASE_EVENT k x y reply) D = D - {(BUTTON_PRESS_EVENT, k)}"
  "down_step (Fake MOTION_NOTIFY_EVENT k x y reply) D = D"
  by (simp_all add: event_codes)

declare down_step.simps(3) [simp del]

abbreviation down :: "grabbed \<Rightarrow> (u8 \<times> u8) set" where
  "down s \<equiv> held_down (gr_trace s)"

abbreviation keys :: "u8 list \<Rightarrow> (u8 \<times> u8) set" where
  "keys ks \<equiv> Pair KEY_PRESS_EVENT ` set ks"

lemma release_run:
  "best_effort_release env ev k s =
    (Inr (), s\<lparr>gr_trace := gr_trace s @ [Fake ev k 0 0 (ge_fake env (length (gr_trace s)))]\<rparr>)"
  by (simp add: best_effort_release_def xtest_fake_input_def st_bind_def st_run)

lemma fake_input_down:
  assumes "fake_input env ev d x y s = (r, t)"
  obtains reply where "down t = down_step (Fake ev d x y reply) (down s)" "is_ok r \<longleftrightarrow> reply = Fake_Done"
  using assms that [of "ge_fake env (length (gr_trace s))"]
  by (cases "ge_fake env (length (gr_trace s))")
    (auto simp: fake_input_def xtest_fake_input_def st_bind_def st_run held_down_append)

lemma release_keys_down: "down (snd (release_keys env ks s)) = down s - keys ks"
proof -
  have "down (snd (release_keys_loop env ks s)) = down s - keys ks" for ks s
    by (induction ks arbitrary: s)
      (auto simp: st_bind_Inr [OF release_run] held_down_append st_run)
  then show ?thesis by (simp add: release_keys_def)
qed

text \<open>A press that fails releases what was pressed before; one that succeeds is added.\<close>

lemma press_down:
  assumes "on_error (fake_input env KEY_PRESS_EVENT k 0 0) (release_keys env pressed) s = (r, t)"
    and "down s \<subseteq> keys pressed"
  shows "(is_ok r \<longrightarrow> down t \<subseteq> keys (pressed @ [k])) \<and> (\<not> is_ok r \<longrightarrow> down t = {})"
proof -
  obtain q u where run: "fake_input env KEY_PRESS_EVENT k 0 0 s = (q, u)" by fastforce
  then obtain reply where "down u = down_step (Fake KEY_PRESS_EVENT k 0 0 reply) (down s)"
    "is_ok q \<longleftrightarrow> reply = Fake_Done" by (rule fake_input_down)
  with assms run show ?thesis
    by (cases q) (auto simp: on_error_def release_keys_down)
qed

lemma release_down:
  assumes "on_error (fake_input env KEY_RELEASE_EVENT k 0 0)
      (st_bind (best_effort_release env KEY_RELEASE_EVENT k) (\<lambda>_. release_keys env rest)) s = (r, t)"
    and "down s \<subseteq> keys (k # rest)"
  shows "(is_ok r \<longrightarrow> down t \<subseteq> keys rest) \<and> (\<not> is_ok r \<longrightarrow> down t = {})"
proof -
  obtain q u where run: "fake_input env KEY_RELEASE_EVENT k 0 0 s = (q, u)" by fastforce
  then obtain reply where "down u = down_step (Fake KEY_RELEASE_EVENT k 0 0 reply) (down s)"
    "is_ok q \<longleftrightarrow> reply = Fake_Done" by (rule fake_input_down)
  with assms run show ?thesis
    by (cases q)
      (auto simp: on_error_def st_bind_Inr [OF release_run] release_keys_down held_down_append)
qed

lemma press_modifiers_down:
  "press_modifiers env pressed ms s = (r, t) \<Longrightarrow> down s \<subseteq> keys pressed \<Longrightarrow>
    (case r of Inl _ \<Rightarrow> down t = {} | Inr pressed' \<Rightarrow> down t \<subseteq> keys pressed')"
proof (induction ms arbitrary: pressed s)
  case (Cons m ms)
  from Cons.prems(1) [unfolded press_modifiers.simps] show ?case
  proof (cases rule: st_bind_cases)
    case (err e)
    then show ?thesis using press_down [OF err(1) Cons.prems(2)] by simp
  next
    case (ok a u)
    then show ?thesis using press_down [OF ok(1) Cons.prems(2)] Cons.IH [OF ok(2)] by simp
  qed
qed simp

lemma pop_modifiers_down:
  "pop_modifiers env rest s = (r, t) \<Longrightarrow> down s \<subseteq> keys rest \<Longrightarrow> down t = {}"
proof (induction rest arbitrary: s)
  case (Cons m rest)
  from Cons.prems(1) [unfolded pop_modifiers.simps] show ?case
  proof (cases rule: st_bind_cases)
    case (err e)
    then show ?thesis using release_down [OF err(1)] Cons.prems(2) by simp
  next
    case (ok a u)
    then show ?thesis using release_down [OF ok(1)] Cons.prems(2) Cons.IH [OF ok(2)] by simp
  qed
qed (simp add: st_run)

lemma type_key_down:
  assumes "type_key env stroke s = (r, t)" and "down s = {}"
  shows "down t = {}"
  using assms(1) unfolding type_key_def
proof (cases rule: st_bind_cases)
  case (err e)
  then show ?thesis using press_modifiers_down [OF err(1)] assms(2) by simp
next
  case (ok pressed u)
  note pressed = press_modifiers_down [OF ok(1)]
  have u: "down u \<subseteq> keys pressed" using pressed assms(2) by simp
  from ok(2) show ?thesis
  proof (cases rule: st_bind_cases)
    case (err e)
    then show ?thesis using press_down [OF err(1) u] by simp
  next
    case (ok a v)
    have v: "down v \<subseteq> keys (stroke_keycode stroke # pressed)"
      using press_down [OF ok(1) u] by auto
    from ok(2) show ?thesis
    proof (cases rule: st_bind_cases)
      case (err e)
      then show ?thesis using release_down [OF err(1) v] by simp
    next
      case (ok b w)
      then show ?thesis using release_down [OF ok(1) v] pop_modifiers_down [OF ok(2)] by simp
    qed
  qed
qed

section \<open>The focused window belongs to the target\<close>

abbreviation parent_of :: "grab_env \<Rightarrow> u32 \<Rightarrow> u32 \<Rightarrow> bool" where
  "parent_of env window parent \<equiv> ge_parent env window = Replied parent"

lemma x_ask_Inr [simp]: "x_ask m n r = Inr a \<longleftrightarrow> r = Replied a"
  by (auto simp: x_ask_def split: x_reply.split)

lemma focus_walk_sound: "focus_walk env root target_xid n window = Inr () \<Longrightarrow>
    (parent_of env)\<^sup>*\<^sup>* window target_xid"
  by (induction env root target_xid n window rule: focus_walk.induct)
    (auto simp: res_simps split: if_splits intro: converse_rtranclp_into_rtranclp)

lemma require_focus_sound:
  assumes "require_focus_owned_by env root target_xid = Inr ()"
  obtains focus where "ge_focus env = Replied focus" "(parent_of env)\<^sup>*\<^sup>* focus target_xid"
  using assms
  by (auto simp: require_focus_owned_by_def res_simps split: if_splits dest: focus_walk_sound)

lemma fresh_target_sound:
  assumes "fresh_target env request s = (Inr t, u)"
  shows "refresh (ge_sample env) (gr_observer s) = (Inr (), gr_observer u)
    \<and> names_window (gr_observer u) request (tg_xid t) \<and> gr_trace u = gr_trace s"
  using assms
  by (auto simp: fresh_target_def st_bind_eq_Inr lift_obs_def split: prod.splits dest: target_names)

lemma focused_target_sound:
  assumes "focused_target env request s = (Inr t, u)"
  obtains focus where "refresh (ge_sample env) (gr_observer s) = (Inr (), gr_observer u)"
    "names_window (gr_observer u) request (tg_xid t)" "gr_trace u = gr_trace s"
    "ge_focus env = Replied focus" "(parent_of env)\<^sup>*\<^sup>* focus (tg_xid t)"
proof -
  from assms have fresh: "fresh_target env request s = (Inr t, u)"
    and focus: "require_focus_owned_by env (ob_root (gr_observer u)) (tg_xid t) = Inr ()"
    by (auto simp: focused_target_def st_bind_eq_Inr res_simps)
  from focus obtain f where "ge_focus env = Replied f" "(parent_of env)\<^sup>*\<^sup>* f (tg_xid t)"
    by (rule require_focus_sound)
  with fresh_target_sound [OF fresh] that show ?thesis by blast
qed

end
