(* ===== verification/Observer_Input.thy ===== *)
theory Observer_Input
  imports Observer_Grab
begin

text \<open>
  Pointer and keyboard input (\<^verbatim>\<open>agent-seat-x11/src/observer/input.rs\<close>). Each call runs one or more
  grabbed sections; its result holds the reply, the observer, and the trace of every section. The
  gate is also read outside the grabs: those readings are arguments.
\<close>

section \<open>Where a pointer event lands\<close>

definition MAX_HIT_TEST_CHILDREN :: nat where "MAX_HIT_TEST_CHILDREN = 256"
definition MAX_HIT_TEST_RECTANGLES :: nat where "MAX_HIT_TEST_RECTANGLES = 256"
definition COVER_RECOVERY :: string where
  "COVER_RECOVERY = ''pointer destination is not visibly owned by the target; inspect this result and take a fresh desktop snapshot to handle the covering client''"

definition rectangle_contains :: "Rectangle \<Rightarrow> i16 \<Rightarrow> i16 \<Rightarrow> bool" where
  "rectangle_contains r x y \<longleftrightarrow>
    sint x \<ge> sint (rg_x r) \<and> sint y \<ge> sint (rg_y r)
    \<and> sint x < sint (rg_x r) + int (unat (rg_width r))
    \<and> sint y < sint (rg_y r) + int (unat (rg_height r))"

definition checked_root_coordinate :: "i16 \<Rightarrow> u32 \<Rightarrow> Failure + i16" where
  "checked_root_coordinate origin offset =
    res_bind (ok_or (i32_try_from offset)
      (Failure_invalid ''pointer destination exceeds X11 coordinate range'')) (\<lambda>off.
    ok_or (Option.bind (checked_add_i32 (scast origin) off)
        (\<lambda>value. if - (2 ^ 15) \<le> sint value \<and> sint value < 2 ^ 15 then Some (scast value) else None))
      (Failure_invalid ''pointer destination exceeds X11 coordinate range''))"

fun frame_walk :: "grab_env \<Rightarrow> u32 \<Rightarrow> u32 \<Rightarrow> nat \<Rightarrow> u32 \<Rightarrow> Failure + bool" where
  "frame_walk env root candidate 0 window =
    Inl (Failure_unavailable ''target ancestry exceeds the window bound'')"
| "frame_walk env root candidate (Suc n) window =
    (if window = candidate then Inr True
     else
       res_bind (x_ask ''cannot inspect target ancestry'' ''cannot inspect target ancestry''
         (ge_parent env window)) (\<lambda>parent.
       if parent = X_NONE \<or> parent = root then Inr (parent = candidate)
       else frame_walk env root candidate n parent))"

definition is_target_or_reparenting_frame :: "grab_env \<Rightarrow> u32 \<Rightarrow> u32 \<Rightarrow> u32 \<Rightarrow> Failure + bool" where
  "is_target_or_reparenting_frame env root candidate target_xid =
    frame_walk env root candidate MAX_WINDOW_ANCESTORS target_xid"

text \<open>The loop over the children of the root, topmost first.\<close>

fun hit_test :: "grab_env \<Rightarrow> i16 \<Rightarrow> i16 \<Rightarrow> u32 list \<Rightarrow> Failure + u32 option" where
  "hit_test env x y [] = Inr None"
| "hit_test env x y (child # rest) =
    res_bind (x_ask ''cannot hit-test pointer destination'' ''cannot hit-test pointer destination''
      (ge_attributes env child)) (\<lambda>attributes.
    if \<not> wa_viewable attributes then hit_test env x y rest
    else
      res_bind (x_ask ''cannot hit-test pointer destination'' ''cannot hit-test pointer destination''
        (ge_translate env child x y)) (\<lambda>translated.
      res_bind (x_ask ''cannot inspect pointer input shape'' ''cannot inspect pointer input shape''
        (ge_shape env child)) (\<lambda>rectangles.
      if length rectangles > MAX_HIT_TEST_RECTANGLES
      then Inl (Failure_unavailable ''pointer hit-test exceeds the shape bound'')
      else if list_ex (\<lambda>r. rectangle_contains r (tr_dst_x translated) (tr_dst_y translated)) rectangles
      then Inr (Some child)
      else hit_test env x y rest)))"

definition require_point_owned_by ::
    "grab_env \<Rightarrow> u32 \<Rightarrow> u32 \<Rightarrow> i16 \<Rightarrow> i16 \<Rightarrow> Failure + unit" where
  "require_point_owned_by env root target_xid root_x root_y =
    res_bind (x_ask ''cannot hit-test pointer destination'' ''cannot hit-test pointer destination''
      (ge_children env)) (\<lambda>children.
    if length children > MAX_HIT_TEST_CHILDREN
    then Inl (Failure_unavailable ''pointer hit-test exceeds the window bound'')
    else
      res_bind (hit_test env root_x root_y (rev children)) (\<lambda>destination.
      case destination of
        None \<Rightarrow> Inl (Failure_invalid COVER_RECOVERY)
      | Some d \<Rightarrow>
          res_bind (is_target_or_reparenting_frame env root d target_xid) (\<lambda>owned.
          if owned then Inr () else Inl (Failure_invalid COVER_RECOVERY))))"

definition pointer_destination ::
    "grab_env \<Rightarrow> TargetRequest \<Rightarrow> u32 \<Rightarrow> u32 \<Rightarrow> (u32 \<times> i16 \<times> i16) grabbed_op" where
  "pointer_destination env request x y =
    st_bind (fresh_target env request) (\<lambda>t s.
    (res_bind (x_ask ''cannot inspect target geometry'' ''cannot inspect target geometry''
       (x_get_geometry (ge_x env) (tg_xid t))) (\<lambda>geometry.
     if x \<ge> ucast (geo_width geometry) \<or> y \<ge> ucast (geo_height geometry)
     then Inl (Failure_invalid ''pointer destination is outside the target client'')
     else
       res_bind (x_ask ''cannot translate target coordinates'' ''cannot translate target coordinates''
         (x_translate_coordinates (ge_x env) (tg_xid t) (ob_root (gr_observer s)))) (\<lambda>origin.
       res_bind (checked_root_coordinate (tr_dst_x origin) x) (\<lambda>root_x.
       res_bind (checked_root_coordinate (tr_dst_y origin) y) (\<lambda>root_y.
       res_bind (require_point_owned_by env (ob_root (gr_observer s)) (tg_xid t) root_x root_y) (\<lambda>_.
       Inr (tg_xid t, root_x, root_y)))))), s))"

section \<open>Pointer calls\<close>

definition action_reply :: "bool \<Rightarrow> bool \<Rightarrow> InputReply" where
  "action_reply sent seat_still_enabled = \<lparr>inp_completed = of_bool sent, inp_requested = 1,
    inp_terminal = (if sent \<and> seat_still_enabled then In_Queued else In_Interrupted)\<rparr>"

fun button_detail :: "PointerButton \<Rightarrow> u8" where
  "button_detail Btn_Primary = 1"
| "button_detail Btn_Middle = 2"
| "button_detail Btn_Secondary = 3"

definition click_button :: "grab_env \<Rightarrow> PointerButton \<Rightarrow> i16 \<Rightarrow> i16 \<Rightarrow> unit grabbed_op" where
  "click_button env button root_x root_y =
    (let detail = button_detail button in
     st_bind (fake_input env BUTTON_PRESS_EVENT detail root_x root_y) (\<lambda>_.
     on_error (fake_input env BUTTON_RELEASE_EVENT detail root_x root_y)
       (best_effort_release env BUTTON_RELEASE_EVENT detail)))"

definition pointer_move_section ::
    "grab_env \<Rightarrow> PointerMoveRequest \<Rightarrow> SeatPermit \<Rightarrow> bool grabbed_op" where
  "pointer_move_section env request p = under_server_grab env
    (st_bind (pointer_destination env (pmr_target request) (pmr_x request) (pmr_y request))
    (\<lambda>(_, root_x, root_y).
    st_bind (check_seat env p) (\<lambda>ok.
    if \<not> ok then st_return False
    else st_bind (fake_input env MOTION_NOTIFY_EVENT 0 root_x root_y) (\<lambda>_. st_return True))))"

definition pointer_click_section ::
    "grab_env \<Rightarrow> PointerClickRequest \<Rightarrow> SeatPermit \<Rightarrow> bool grabbed_op" where
  "pointer_click_section env request p = under_server_grab env
    (st_bind (pointer_destination env (pcr_target request) (pcr_x request) (pcr_y request))
    (\<lambda>(_, root_x, root_y).
    st_bind (check_seat env p) (\<lambda>ok.
    if \<not> ok then st_return False
    else
      st_bind (fake_input env MOTION_NOTIFY_EVENT 0 root_x root_y) (\<lambda>_.
      st_bind (click_button env (pcr_button request) root_x root_y) (\<lambda>_. st_return True)))))"

text \<open>A section run on its own trace.\<close>

definition in_section :: "'a grabbed_op \<Rightarrow> Observer \<Rightarrow> (Failure + 'a) \<times> Observer \<times> seat_effect list" where
  "in_section m ob = (let (r, s) = m \<lparr>gr_observer = ob, gr_trace = []\<rparr> in (r, gr_observer s, gr_trace s))"

definition pointer_move :: "grab_env \<Rightarrow> SeatGate \<Rightarrow> PointerMoveRequest \<Rightarrow> SeatPermit \<Rightarrow> Observer
    \<Rightarrow> (Failure + InputReply) \<times> Observer \<times> seat_effect list" where
  "pointer_move env after request p ob =
    (let (sent, ob', tr) = in_section (pointer_move_section env request p) ob in
     (map_ok (\<lambda>sent. action_reply sent (accepts after p)) sent, ob', tr))"

definition pointer_click :: "grab_env \<Rightarrow> SeatGate \<Rightarrow> PointerClickRequest \<Rightarrow> SeatPermit \<Rightarrow> Observer
    \<Rightarrow> (Failure + InputReply) \<times> Observer \<times> seat_effect list" where
  "pointer_click env after request p ob =
    (let (sent, ob', tr) = in_section (pointer_click_section env request p) ob in
     (map_ok (\<lambda>sent. action_reply sent (accepts after p)) sent, ob', tr))"

section \<open>Keyboard calls\<close>

definition keyboard_key_section ::
    "grab_env \<Rightarrow> KeyboardKeyRequest \<Rightarrow> SeatPermit \<Rightarrow> bool grabbed_op" where
  "keyboard_key_section env request p = under_server_grab env
    (st_bind (focused_target env (kkr_target request)) (\<lambda>_.
    st_bind (st_try (resolve_key (ge_xkb env) (kkr_key request) (kkr_modifiers request))) (\<lambda>stroke.
    st_bind (check_seat env p) (\<lambda>ok.
    if \<not> ok then st_return False
    else st_bind (type_key env stroke) (\<lambda>_. st_return True)))))"

definition keyboard_key :: "grab_env \<Rightarrow> SeatGate \<Rightarrow> KeyboardKeyRequest \<Rightarrow> SeatPermit \<Rightarrow> Observer
    \<Rightarrow> (Failure + InputReply) \<times> Observer \<times> seat_effect list" where
  "keyboard_key env after request p ob =
    (let (sent, ob', tr) = in_section (keyboard_key_section env request p) ob in
     (map_ok (\<lambda>sent. action_reply sent (accepts after p)) sent, ob', tr))"

definition text_preflight :: "grab_env \<Rightarrow> TargetRequest \<Rightarrow> string \<Rightarrow> unit grabbed_op" where
  "text_preflight env request text = under_server_grab env
    (st_bind (focused_target env request) (\<lambda>_.
    st_bind (st_try (resolve_text (ge_xkb env) text)) (\<lambda>_. st_return ())))"

definition character_section ::
    "grab_env \<Rightarrow> TargetRequest \<Rightarrow> nat \<Rightarrow> u16 \<Rightarrow> SeatPermit \<Rightarrow> bool grabbed_op" where
  "character_section env request character position p = under_server_grab env
    (st_bind (focused_target env request) (\<lambda>_.
    st_bind (check_seat env p) (\<lambda>ok.
    if \<not> ok then st_return False
    else
      st_bind (st_try (resolve_character (ge_xkb env) character position)) (\<lambda>stroke.
      st_bind (type_key env stroke) (\<lambda>_. st_return True)))))"

text \<open>
  The loop over the characters: \<open>steps n\<close> gives the server during the section of the character after
  \<open>n\<close> completed ones, and the gate as read after that section.
\<close>

fun type_characters :: "(nat \<Rightarrow> grab_env \<times> SeatGate) \<Rightarrow> TargetRequest \<Rightarrow> SeatPermit \<Rightarrow> u16 \<Rightarrow> nat list
    \<Rightarrow> Observer \<Rightarrow> (Failure + u16) \<times> Observer \<times> seat_effect list list" where
  "type_characters steps request p completed [] ob = (Inr completed, ob, [])"
| "type_characters steps request p completed (c # cs) ob =
    (case checked_add completed 1 of
       None \<Rightarrow> (Inl (Failure_internal ''keyboard action count overflowed''), ob, [])
     | Some position \<Rightarrow>
         (let (env, after) = steps (unat completed);
            (r, ob', tr) = in_section (character_section env request c position p) ob in
          case r of
            Inr True \<Rightarrow>
              if \<not> accepts after p then (Inr position, ob', [tr])
              else
                (let (r', ob'', trs) = type_characters steps request p position cs ob' in
                 (r', ob'', tr # trs))
          | Inr False \<Rightarrow> (Inr completed, ob', [tr])
          | Inl e \<Rightarrow> if completed = 0 then (Inl e, ob', [tr]) else (Inr completed, ob', [tr])))"

definition keyboard_text :: "grab_env \<Rightarrow> (nat \<Rightarrow> grab_env \<times> SeatGate) \<Rightarrow> SeatGate \<Rightarrow> TargetRequest
    \<Rightarrow> string \<Rightarrow> SeatPermit \<Rightarrow> Observer \<Rightarrow> (Failure + InputReply) \<times> Observer \<times> seat_effect list list" where
  "keyboard_text pre steps final request text p ob =
    (if length (chars_str text) < 2 ^ 16
     then
       (let requested = of_nat (length (chars_str text));
          (checked, ob1, tr0) = in_section (text_preflight pre request text) ob in
        case checked of
          Inl e \<Rightarrow> (Inl e, ob1, [tr0])
        | Inr _ \<Rightarrow>
            (let (r, ob2, trs) = type_characters steps request p 0 (chars_str text) ob1 in
             (map_ok (\<lambda>completed. \<lparr>inp_completed = completed, inp_requested = requested,
                inp_terminal = (if completed = requested \<and> accepts final p then In_Queued
                  else In_Interrupted)\<rparr>) r, ob2, tr0 # trs)))
     else (Inl (Failure_invalid ''keyboard text exceeds the action bound''), ob, []))"

definition keyboard_type :: "grab_env \<Rightarrow> (nat \<Rightarrow> grab_env \<times> SeatGate) \<Rightarrow> SeatGate \<Rightarrow> KeyboardTypeRequest
    \<Rightarrow> SeatPermit \<Rightarrow> Observer \<Rightarrow> (Failure + InputReply) \<times> Observer \<times> seat_effect list list" where
  "keyboard_type pre steps final request =
    keyboard_text pre steps final (ktr_target request) (ktr_text request)"

definition keyboard_write :: "grab_env \<Rightarrow> (nat \<Rightarrow> grab_env \<times> SeatGate) \<Rightarrow> SeatGate \<Rightarrow> KeyboardWriteRequest
    \<Rightarrow> SeatPermit \<Rightarrow> Observer \<Rightarrow> (Failure + InputReply) \<times> Observer \<times> seat_effect list list" where
  "keyboard_write pre steps final request =
    keyboard_text pre steps final (kwr_target request) (kwr_text request)"

section \<open>Seat permit\<close>

lemma in_section_keeps:
  assumes "keeps I m" and "I \<lparr>gr_observer = ob, gr_trace = []\<rparr>"
    and "in_section m ob = (r, ob', tr)"
  shows "I \<lparr>gr_observer = ob', gr_trace = tr\<rparr>"
proof -
  obtain s where s: "m \<lparr>gr_observer = ob, gr_trace = []\<rparr> = (r, s)" "gr_observer s = ob'" "gr_trace s = tr"
    using assms(3) by (auto simp: in_section_def Let_def split: prod.splits)
  then have "s = \<lparr>gr_observer = ob', gr_trace = tr\<rparr>" by simp
  with keepsD [OF assms(1,2) s(1)] show ?thesis by simp
qed

lemma in_section_guarded:
  "keeps (safe p) m \<Longrightarrow> in_section m ob = (r, ob', tr) \<Longrightarrow> guarded p False tr"
  using in_section_keeps [of "safe p" m ob r ob' tr] by (simp add: safe_def)

lemma keeps_safe_destination [keeps_intros]: "keeps (safe p) (pointer_destination env request x y)"
  unfolding pointer_destination_def by (intro keeps_intros keeps_reading)

lemma keeps_armed_click [keeps_intros]: "keeps (armed p) (click_button env button x y)"
  unfolding click_button_def Let_def by (intro keeps_intros)

lemma keeps_prod [keeps_intros]: "(\<And>a b c. keeps I (f a b c)) \<Longrightarrow> keeps I (case t of (a, b, c) \<Rightarrow> f a b c)"
  by (cases t) simp

lemma sections_safe:
  "keeps (safe p) (pointer_move_section env move p)" "keeps (safe p) (pointer_click_section env click p)"
  "keeps (safe p) (keyboard_key_section env key p)" "keeps (safe p) (text_preflight env request text)"
  "keeps (safe p) (character_section env request c n p)"
  unfolding pointer_move_section_def pointer_click_section_def keyboard_key_section_def
    text_preflight_def character_section_def
  by (intro keeps_intros)+

section \<open>Releases\<close>

abbreviation all_up :: "grabbed \<Rightarrow> bool" where
  "all_up s \<equiv> down s = {}"

lemma keeps_up_lift [keeps_intros]: "keeps all_up (lift_obs m)"
  by (rule keeps_lift_obs)

lemma keeps_up_check [keeps_intros]: "keeps all_up (check_seat env p)"
  by (simp add: keeps_def check_seat_def st_bind_def st_run held_down_append)

lemma keeps_up_type_key [keeps_intros]: "keeps all_up (type_key env stroke)"
  unfolding keeps_def by (metis type_key_down prod.collapse)

lemma keeps_up_targets [keeps_intros]:
  "keeps all_up (fresh_target env request)" "keeps all_up (focused_target env request)"
  "keeps all_up (pointer_destination env request x y)"
  unfolding focused_target_def fresh_target_def pointer_destination_def
  by (intro keeps_intros keeps_reading)+

lemma keeps_up_motion [keeps_intros]: "keeps all_up (fake_input env MOTION_NOTIFY_EVENT 0 x y)"
  unfolding keeps_def
proof (intro allI impI)
  fix s assume "all_up s"
  obtain r t where run: "fake_input env MOTION_NOTIFY_EVENT 0 x y s = (r, t)" by fastforce
  then obtain reply where "down t = down_step (Fake MOTION_NOTIFY_EVENT 0 x y reply) (down s)"
    by (rule fake_input_down)
  with \<open>all_up s\<close> run show "all_up (snd (fake_input env MOTION_NOTIFY_EVENT 0 x y s))"
    by simp
qed

lemma keeps_up_click [keeps_intros]: "keeps all_up (click_button env button x y)"
  unfolding keeps_def
proof (intro allI impI)
  fix s assume up: "all_up s"
  let ?d = "button_detail button"
  obtain r t where press: "fake_input env BUTTON_PRESS_EVENT ?d x y s = (r, t)" by fastforce
  obtain q u where release: "fake_input env BUTTON_RELEASE_EVENT ?d x y t = (q, u)" by fastforce
  from press obtain reply where "down t = down_step (Fake BUTTON_PRESS_EVENT ?d x y reply) (down s)"
    "is_ok r \<longleftrightarrow> reply = Fake_Done" by (rule fake_input_down)
  with up have t: "down t \<subseteq> {(BUTTON_PRESS_EVENT, ?d)}" "\<not> is_ok r \<Longrightarrow> down t = {}"
    by simp_all
  from release obtain reply' where "down u = down_step (Fake BUTTON_RELEASE_EVENT ?d x y reply') (down t)"
    by (rule fake_input_down)
  with t(1) have u: "down u = {}" by auto
  show "all_up (snd (click_button env button x y s))"
  proof (cases r)
    case (Inl e)
    with t(2) have "down t = {}" by simp
    moreover have "click_button env button x y s = (Inl e, t)"
      using Inl press by (simp add: click_button_def Let_def)
    ultimately show ?thesis by simp
  next
    case (Inr a)
    then have "click_button env button x y s = on_error (fake_input env BUTTON_RELEASE_EVENT ?d x y)
        (best_effort_release env BUTTON_RELEASE_EVENT ?d) t"
      using press by (simp add: click_button_def Let_def)
    with u show ?thesis
      by (cases q) (simp_all add: on_error_def release release_run held_down_append)
  qed
qed

lemma sections_up:
  "keeps all_up (pointer_move_section env move p)" "keeps all_up (pointer_click_section env click p)"
  "keeps all_up (keyboard_key_section env key p)" "keeps all_up (text_preflight env request text)"
  "keeps all_up (character_section env request c n p)"
  unfolding pointer_move_section_def pointer_click_section_def keyboard_key_section_def
    text_preflight_def character_section_def
  by (intro keeps_intros)+

lemma in_section_up: "keeps all_up m \<Longrightarrow> in_section m ob = (r, ob', tr) \<Longrightarrow> held_down tr = {}"
  using in_section_keeps [of all_up m ob r ob' tr] by (simp add: held_down_def)

text \<open>A property of every section is one of every trace of a text call.\<close>

lemma type_characters_traces:
  assumes "type_characters steps request p completed cs ob = (r, ob', trs)"
    and "\<And>env c n ob r ob' tr. in_section (character_section env request c n p) ob = (r, ob', tr) \<Longrightarrow> P tr"
  shows "list_all P trs"
  using assms(1)
proof (induction cs arbitrary: completed ob trs)
  case (Cons c cs)
  then show ?case
    using assms(2)
    by (auto simp: Let_def split: option.splits prod.splits sum.splits bool.splits if_splits)
qed simp

lemma keyboard_text_traces:
  assumes "\<And>env c n ob r ob' tr. in_section (character_section env request c n p) ob = (r, ob', tr) \<Longrightarrow> P tr"
    and "\<And>ob r ob' tr. in_section (text_preflight pre request text) ob = (r, ob', tr) \<Longrightarrow> P tr"
  shows "list_all P (snd (snd (keyboard_text pre steps final request text p ob)))"
  using assms type_characters_traces [OF _ assms(1)]
  by (auto simp: keyboard_text_def Let_def split: prod.splits sum.splits)

text \<open>
  C4. No input without a live seat permit: in every grabbed section of every pointer and keyboard
  call, whatever the server answers, however the gate changes meanwhile and wherever the call fails,
  each XTEST request is made only while the most recent reading of the seat gate in that same
  section accepted the session's permit.
\<close>

theorem input_requires_live_permit:
  "guarded p False (snd (snd (pointer_move env after move p ob)))
    \<and> guarded p False (snd (snd (pointer_click env after click p ob)))
    \<and> guarded p False (snd (snd (keyboard_key env after key p ob)))
    \<and> list_all (guarded p False) (snd (snd (keyboard_type pre steps final type p ob)))
    \<and> list_all (guarded p False) (snd (snd (keyboard_write pre steps final write p ob)))"
  unfolding pointer_move_def pointer_click_def keyboard_key_def keyboard_type_def keyboard_write_def
  by (intro conjI keyboard_text_traces)
    (auto simp: Let_def split: prod.splits intro: in_section_guarded sections_safe)

text \<open>
  C18. Input leaves nothing pressed: at the end of every grabbed section, failed ones included, a
  release has been requested for every key and every button whose press the server confirmed.
\<close>

theorem input_leaves_nothing_pressed:
  "held_down (snd (snd (pointer_move env after move p ob))) = {}
    \<and> held_down (snd (snd (pointer_click env after click p ob))) = {}
    \<and> held_down (snd (snd (keyboard_key env after key p ob))) = {}
    \<and> list_all (\<lambda>tr. held_down tr = {}) (snd (snd (keyboard_type pre steps final type p ob)))
    \<and> list_all (\<lambda>tr. held_down tr = {}) (snd (snd (keyboard_write pre steps final write p ob)))"
  unfolding pointer_move_def pointer_click_def keyboard_key_def keyboard_type_def keyboard_write_def
  by (intro conjI keyboard_text_traces)
    (auto simp: Let_def split: prod.splits dest: in_section_up [OF sections_up(1)]
      in_section_up [OF sections_up(2)] in_section_up [OF sections_up(3)]
      in_section_up [OF sections_up(4)] in_section_up [OF sections_up(5)])

section \<open>Input reaches only the target\<close>

text \<open>
  The window that receives a pointer event at a root position: the topmost viewable child of the
  root whose input shape contains the position.
\<close>

definition covers :: "grab_env \<Rightarrow> i16 \<Rightarrow> i16 \<Rightarrow> u32 \<Rightarrow> bool" where
  "covers env x y child \<longleftrightarrow> (\<exists>a q rs. ge_attributes env child = Replied a \<and> wa_viewable a
    \<and> ge_translate env child x y = Replied q \<and> ge_shape env child = Replied rs
    \<and> list_ex (\<lambda>r. rectangle_contains r (tr_dst_x q) (tr_dst_y q)) rs)"

definition lands_on :: "grab_env \<Rightarrow> i16 \<Rightarrow> i16 \<Rightarrow> u32 \<Rightarrow> bool" where
  "lands_on env x y xid \<longleftrightarrow> (\<exists>children below d above. ge_children env = Replied children
    \<and> children = below @ d # above \<and> covers env x y d \<and> (\<forall>c\<in>set above. \<not> covers env x y c)
    \<and> (parent_of env)\<^sup>*\<^sup>* xid d)"

lemma hit_test_sound:
  "hit_test env x y cs = Inr (Some d) \<Longrightarrow>
    \<exists>above below. cs = above @ d # below \<and> covers env x y d \<and> (\<forall>c\<in>set above. \<not> covers env x y c)"
proof (induction cs)
  case (Cons c cs)
  show ?case
  proof (cases "covers env x y c")
    case True
    with Cons.prems have "c = d"
      by (auto simp: covers_def res_simps split: if_splits)
    with True show ?thesis by (intro exI [of _ "[]"] exI [of _ cs]) simp
  next
    case False
    with Cons.prems have "hit_test env x y cs = Inr (Some d)"
      by (auto simp: covers_def res_simps split: if_splits)
    with Cons.IH obtain above below where "cs = above @ d # below" "covers env x y d"
      "\<forall>c\<in>set above. \<not> covers env x y c" by blast
    with False show ?thesis by (intro exI [of _ "c # above"] exI [of _ below]) simp
  qed
qed simp

lemma frame_walk_sound: "frame_walk env root candidate n window = Inr True \<Longrightarrow>
    (parent_of env)\<^sup>*\<^sup>* window candidate"
  by (induction env root candidate n window rule: frame_walk.induct)
    (auto simp: res_simps split: if_splits intro: converse_rtranclp_into_rtranclp)

lemma require_point_sound:
  assumes "require_point_owned_by env root xid x y = Inr ()"
  shows "lands_on env x y xid"
proof -
  from assms obtain children d where children: "ge_children env = Replied children"
    and hit: "hit_test env x y (rev children) = Inr (Some d)"
    and frame: "frame_walk env root d MAX_WINDOW_ANCESTORS xid = Inr True"
    by (auto simp: require_point_owned_by_def is_target_or_reparenting_frame_def res_simps
        split: if_splits option.splits)
  from hit_test_sound [OF hit] obtain above below where "rev children = above @ d # below"
    "covers env x y d" "\<forall>c\<in>set above. \<not> covers env x y c" by blast
  moreover from this have "children = rev (above @ d # below)"
    by (metis rev_rev_ident)
  ultimately show ?thesis
    using children frame_walk_sound [OF frame] unfolding lands_on_def
    by (intro exI [of _ children] exI [of _ "rev below"] exI [of _ d] exI [of _ "rev above"]) simp
qed

lemma sint_i16_widen: "sint (scast (w :: i16) :: i32) = sint w"
proof -
  have "- (2 ^ 31) \<le> sint w" "sint w < 2 ^ 31"
    using sint_ge [of w] sint_lt [of w] by simp_all
  then show ?thesis
    by (simp add: signed_scast_eq signed_take_bit_int_eq_self)
qed

lemma sint_i32_narrow:
  assumes "- (2 ^ 15) \<le> sint (w :: i32)" and "sint w < 2 ^ 15"
  shows "sint (scast w :: i16) = sint w"
  using assms by (simp add: signed_scast_eq signed_take_bit_int_eq_self)

lemma checked_root_coordinate_exact:
  assumes "checked_root_coordinate origin offset = Inr c"
  shows "sint c = sint origin + int (unat offset)"
proof -
  from assms obtain v where fits: "unat offset < 2 ^ 31"
    and v: "checked_add_i32 (scast origin) offset = Some v" "- (2 ^ 15) \<le> sint v" "sint v < 2 ^ 15"
    and c: "c = scast v"
    by (auto simp: checked_root_coordinate_def res_simps i32_try_Some split: bind_splits if_splits)
  have "sint v = sint origin + int (unat offset)"
    using v(1) sint_add_exact [of "scast origin" offset]
    by (auto simp: checked_add_i32_def sint_i16_widen sint_small [OF fits] split: if_splits)
  with c sint_i32_narrow [OF v(2,3)] show ?thesis by simp
qed

lemma less_ucast_u16: "v < ucast (w :: u16) \<Longrightarrow> unat (v :: u32) < unat w"
  using unat_bound [of w]
  by (simp add: word_less_nat_alt unsigned_ucast_eq take_bit_nat_eq_self del: unsigned_less)

lemma pointer_destination_sound:
  assumes "pointer_destination env request x y s = (Inr (xid, rx, ry), u)"
  shows "refresh (ge_sample env) (gr_observer s) = (Inr (), gr_observer u)
    \<and> names_window (gr_observer u) request xid \<and> gr_trace u = gr_trace s \<and> lands_on env rx ry xid
    \<and> (\<exists>g q. x_get_geometry (ge_x env) xid = Replied g \<and> unat x < unat (geo_width g)
      \<and> unat y < unat (geo_height g)
      \<and> x_translate_coordinates (ge_x env) xid (ob_root (gr_observer u)) = Replied q
      \<and> sint rx = sint (tr_dst_x q) + int (unat x) \<and> sint ry = sint (tr_dst_y q) + int (unat y))"
proof -
  from assms obtain t where fresh: "fresh_target env request s = (Inr t, u)" and xid: "xid = tg_xid t"
    and rest: "require_point_owned_by env (ob_root (gr_observer u)) xid rx ry = Inr ()"
      "\<exists>g q. x_get_geometry (ge_x env) xid = Replied g \<and> \<not> (x \<ge> ucast (geo_width g) \<or> y \<ge> ucast (geo_height g))
        \<and> x_translate_coordinates (ge_x env) xid (ob_root (gr_observer u)) = Replied q
        \<and> checked_root_coordinate (tr_dst_x q) x = Inr rx \<and> checked_root_coordinate (tr_dst_y q) y = Inr ry"
    by (auto simp: pointer_destination_def st_bind_eq_Inr res_simps split: if_splits)
  from rest(2) fresh_target_sound [OF fresh] require_point_sound [OF rest(1)] show ?thesis
    by (auto simp: xid not_le dest!: checked_root_coordinate_exact less_ucast_u16)
qed

lemma under_server_grab_run:
  assumes "under_server_grab env m s = (r, t)" and "gr_trace t \<noteq> gr_trace s"
  shows "\<exists>q. m s = (q, t)"
  using assms by (auto simp: under_server_grab_def st_bind_unfold Let_def split: sum.splits prod.splits)

lemma under_server_grab_ok:
  "under_server_grab env m s = (Inr a, t) \<Longrightarrow> m s = (Inr a, t)"
  by (auto simp: under_server_grab_def st_bind_unfold Let_def split: sum.splits prod.splits)

text \<open>Operations that only add to the trace, and only XTEST requests of a given kind.\<close>

definition emits :: "(seat_effect \<Rightarrow> bool) \<Rightarrow> 'a grabbed_op \<Rightarrow> bool" where
  "emits E m \<longleftrightarrow> (\<forall>s. \<exists>tr. gr_trace (snd (m s)) = gr_trace s @ tr \<and> list_all E tr
    \<and> gr_observer (snd (m s)) = gr_observer s)"

named_theorems emits_intros

lemma emits_bind [emits_intros]:
  assumes "emits E m" and "\<And>a. emits E (f a)"
  shows "emits E (st_bind m f)"
  unfolding emits_def
proof
  fix s
  obtain r t where run: "m s = (r, t)" by fastforce
  obtain tr where tr: "gr_trace t = gr_trace s @ tr" "list_all E tr" "gr_observer t = gr_observer s"
    using assms(1) run by (auto simp: emits_def dest: spec [of _ s])
  show "\<exists>tr. gr_trace (snd (st_bind m f s)) = gr_trace s @ tr \<and> list_all E tr
    \<and> gr_observer (snd (st_bind m f s)) = gr_observer s"
  proof (cases r)
    case (Inl e)
    with run tr show ?thesis by auto
  next
    case (Inr a)
    obtain tr' where "gr_trace (snd (f a t)) = gr_trace t @ tr'" "list_all E tr'"
      "gr_observer (snd (f a t)) = gr_observer t"
      using assms(2) [of a] by (auto simp: emits_def)
    with run tr Inr show ?thesis by (intro exI [of _ "tr @ tr'"]) simp
  qed
qed

lemma emits_return [emits_intros]: "emits E (st_return a)" "emits E (st_fail e)"
  by (simp_all add: emits_def st_run)

lemma emits_on_error [emits_intros]:
  assumes "emits E m" and "emits E c"
  shows "emits E (on_error m c)"
  unfolding emits_def
proof
  fix s
  obtain r t where run: "m s = (r, t)" by fastforce
  obtain tr where tr: "gr_trace t = gr_trace s @ tr" "list_all E tr" "gr_observer t = gr_observer s"
    using assms(1) run by (auto simp: emits_def dest: spec [of _ s])
  obtain tr' where "gr_trace (snd (c t)) = gr_trace t @ tr'" "list_all E tr'"
    "gr_observer (snd (c t)) = gr_observer t"
    using assms(2) by (auto simp: emits_def)
  with run tr show "\<exists>tr. gr_trace (snd (on_error m c s)) = gr_trace s @ tr \<and> list_all E tr
    \<and> gr_observer (snd (on_error m c s)) = gr_observer s"
    by (cases r) (auto simp: on_error_def intro: exI [of _ "tr @ tr'"])
qed

lemma emits_fake [emits_intros]: "(\<And>reply. E (Fake ev d x y reply)) \<Longrightarrow> emits E (fake_input env ev d x y)"
  by (simp add: emits_def fake_input_def xtest_fake_input_def st_bind_def st_run split: fake_reply.split)

lemma emits_best_effort [emits_intros]:
  "(\<And>reply. E (Fake ev d 0 0 reply)) \<Longrightarrow> emits E (best_effort_release env ev d)"
  by (simp add: emits_def release_run)

text \<open>The requests of a click at one position; the last-resort release names no position.\<close>

fun click_at :: "i16 \<Rightarrow> i16 \<Rightarrow> seat_effect \<Rightarrow> bool" where
  "click_at rx ry (Fake ev d x y _) \<longleftrightarrow> ev = BUTTON_RELEASE_EVENT \<or> x = rx \<and> y = ry"
| "click_at rx ry (Gate_Read _) \<longleftrightarrow> True"
| "click_at rx ry (Sent _) \<longleftrightarrow> False"

lemma emits_click: "emits (click_at rx ry) (st_bind (fake_input env MOTION_NOTIFY_EVENT 0 rx ry) (\<lambda>_.
    st_bind (click_button env button rx ry) (\<lambda>_. st_return True)))"
  unfolding click_button_def Let_def by (intro emits_intros) simp_all

text \<open>
  C7. A click lands on the target alone: if a pointer click sends anything to the server, the
  observer was refreshed in that grab, the request names a client of the fresh model by identity and
  generation, and every positioned request is at one root position that is the target's own origin
  plus the requested offset (without wrap-around), inside the target's geometry, where the topmost
  window taking input is the target or one of its frames.
\<close>

theorem click_lands_on_target:
  assumes "pointer_click env after request p ob = (r, ob', tr)" and "Fake ev d x y reply \<in> set tr"
  shows "\<exists>xid rx ry g q. refresh (ge_sample env) ob = (Inr (), ob')
    \<and> names_window ob' (pcr_target request) xid \<and> lands_on env rx ry xid \<and> list_all (click_at rx ry) tr
    \<and> x_get_geometry (ge_x env) xid = Replied g \<and> unat (pcr_x request) < unat (geo_width g)
    \<and> unat (pcr_y request) < unat (geo_height g)
    \<and> x_translate_coordinates (ge_x env) xid (ob_root ob') = Replied q
    \<and> sint rx = sint (tr_dst_x q) + int (unat (pcr_x request))
    \<and> sint ry = sint (tr_dst_y q) + int (unat (pcr_y request))"
proof -
  define s where "s = \<lparr>gr_observer = ob, gr_trace = []\<rparr>"
  from assms(1) obtain q t where grab: "pointer_click_section env request p s = (q, t)"
    and t: "gr_observer t = ob'" "gr_trace t = tr"
    by (auto simp: pointer_click_def in_section_def s_def Let_def split: prod.splits)
  have "gr_trace t \<noteq> gr_trace s" using assms(2) t by (auto simp: s_def)
  from under_server_grab_run [OF grab [unfolded pointer_click_section_def] this] obtain q' where
    "st_bind (pointer_destination env (pcr_target request) (pcr_x request) (pcr_y request))
    (\<lambda>(_, rx, ry). st_bind (check_seat env p) (\<lambda>ok. if \<not> ok then st_return False
      else st_bind (fake_input env MOTION_NOTIFY_EVENT 0 rx ry) (\<lambda>_.
        st_bind (click_button env (pcr_button request) rx ry) (\<lambda>_. st_return True)))) s = (q', t)"
    by blast
  then show ?thesis
  proof (cases rule: st_bind_cases)
    case (err e)
    have "keeps (\<lambda>s. gr_trace s = []) (pointer_destination env (pcr_target request) (pcr_x request) (pcr_y request))"
      unfolding pointer_destination_def fresh_target_def
      by (intro keeps_bind keeps_reading keeps_lift_obs)
    from keepsD [OF this _ err(1)] t(2) assms(2) show ?thesis by (simp add: s_def)
  next
    case (ok a u)
    obtain xid rx ry where a: "a = (xid, rx, ry)" by (cases a) auto
    define v where "v = u\<lparr>gr_trace := gr_trace u @ [Gate_Read (ge_gate env (length (gr_trace u)))]\<rparr>"
    have check: "check_seat env p u = (Inr (accepts (ge_gate env (length (gr_trace u))) p), v)"
      by (simp add: check_seat_def st_bind_def st_run v_def)
    note dest = pointer_destination_sound [OF ok(1) [unfolded a]]
    have "gr_trace v = [Gate_Read (ge_gate env 0)]" "gr_observer v = gr_observer u"
      using dest by (simp_all add: v_def s_def)
    moreover have "t = v \<or> t = snd (st_bind (fake_input env MOTION_NOTIFY_EVENT 0 rx ry) (\<lambda>_.
        st_bind (click_button env (pcr_button request) rx ry) (\<lambda>_. st_return True)) v)"
      using ok(2) by (auto simp: a check split: if_splits)
    ultimately have "list_all (click_at rx ry) tr" "gr_observer u = ob'"
      using emits_click [of rx ry env "pcr_button request", unfolded emits_def, THEN spec, of v] t by auto
    with dest show ?thesis by (auto simp: s_def) blast
  qed
qed

section \<open>Honest typing counts\<close>

text \<open>
  What typing a character means on the wire: its modifiers are pressed, then its key, then all are
  released in reverse order, and the server confirms every request.
\<close>

definition stroke_requests :: "KeyStroke \<Rightarrow> (u8 \<times> u8) list" where
  "stroke_requests stroke =
    map (Pair KEY_PRESS_EVENT) (stroke_modifiers stroke @ [stroke_keycode stroke])
    @ map (Pair KEY_RELEASE_EVENT) (stroke_keycode stroke # rev (stroke_modifiers stroke))"

abbreviation done_requests :: "(u8 \<times> u8) list \<Rightarrow> seat_effect list" where
  "done_requests \<equiv> map (\<lambda>(ev, k). Fake ev k 0 0 Fake_Done)"

definition stroke_confirmed :: "grab_env \<Rightarrow> nat \<Rightarrow> u16 \<Rightarrow> seat_effect list \<Rightarrow> bool" where
  "stroke_confirmed env c position tr \<longleftrightarrow> (\<exists>g stroke. resolve_character (ge_xkb env) c position = Inr stroke
    \<and> tr = Gate_Read g # done_requests (stroke_requests stroke))"

fun unconfirmed :: "seat_effect \<Rightarrow> bool" where
  "unconfirmed (Fake _ _ _ _ reply) = (reply \<noteq> Fake_Done)"
| "unconfirmed _ = False"

text \<open>
  An operation that makes exactly the given requests and has them confirmed when it succeeds, with a
  result of the given kind, and that made one which was not when it fails.
\<close>

definition makes :: "(u8 \<times> u8) list \<Rightarrow> ('a \<Rightarrow> bool) \<Rightarrow> 'a grabbed_op \<Rightarrow> bool" where
  "makes xs \<phi> m \<longleftrightarrow> (\<forall>s r t. m s = (r, t) \<longrightarrow> (\<exists>tr. gr_trace t = gr_trace s @ tr
    \<and> (case r of Inr a \<Rightarrow> \<phi> a \<and> tr = done_requests xs | Inl _ \<Rightarrow> list_ex unconfirmed tr)))"

lemma makesD:
  "makes xs \<phi> m \<Longrightarrow> m s = (r, t) \<Longrightarrow> \<exists>tr. gr_trace t = gr_trace s @ tr
    \<and> (case r of Inr a \<Rightarrow> \<phi> a \<and> tr = done_requests xs | Inl _ \<Rightarrow> list_ex unconfirmed tr)"
  by (simp add: makes_def)

lemma makes_bind:
  assumes "makes xs \<phi> m" and "\<And>a. \<phi> a \<Longrightarrow> makes ys \<psi> (f a)"
  shows "makes (xs @ ys) \<psi> (st_bind m f)"
  unfolding makes_def
proof (intro allI impI)
  fix s r t
  assume "st_bind m f s = (r, t)"
  then show "\<exists>tr. gr_trace t = gr_trace s @ tr
    \<and> (case r of Inr a \<Rightarrow> \<psi> a \<and> tr = done_requests (xs @ ys) | Inl _ \<Rightarrow> list_ex unconfirmed tr)"
  proof (cases rule: st_bind_cases)
    case (err e)
    then show ?thesis using assms(1) by (fastforce simp: makes_def)
  next
    case (ok a u)
    then obtain tr1 where "gr_trace u = gr_trace s @ tr1" "\<phi> a" "tr1 = done_requests xs"
      using assms(1) by (fastforce simp: makes_def)
    moreover from this(2) ok(2) obtain tr2 where "gr_trace t = gr_trace u @ tr2"
      "case r of Inr a \<Rightarrow> \<psi> a \<and> tr2 = done_requests ys | Inl _ \<Rightarrow> list_ex unconfirmed tr2"
      using assms(2) by (fastforce simp: makes_def)
    ultimately show ?thesis by (auto split: sum.splits)
  qed
qed

lemma makes_then: "makes xs (\<lambda>_. True) m \<Longrightarrow> (\<And>a. makes ys \<psi> (f a)) \<Longrightarrow> makes (xs @ ys) \<psi> (st_bind m f)"
  by (rule makes_bind)

lemma makes_return: "\<phi> a \<Longrightarrow> makes [] \<phi> (st_return a)"
  by (simp add: makes_def)

lemma emits_release: "emits (\<lambda>_. True) (release_keys env ks)"
proof -
  have "emits (\<lambda>_. True) (release_keys_loop env ks)" for ks
    by (induction ks) (simp_all add: emits_intros)
  then show ?thesis by (simp add: release_keys_def)
qed

lemma makes_request:
  assumes "emits (\<lambda>_. True) c"
  shows "makes [(ev, k)] (\<lambda>_. True) (on_error (fake_input env ev k 0 0) c)"
  unfolding makes_def
proof (intro allI impI)
  fix s r t
  assume run: "on_error (fake_input env ev k 0 0) c s = (r, t)"
  define reply where "reply = ge_fake env (length (gr_trace s))"
  define u where "u = s\<lparr>gr_trace := gr_trace s @ [Fake ev k 0 0 reply]\<rparr>"
  have sent: "\<exists>q. fake_input env ev k 0 0 s = (q, u) \<and> (is_ok q \<longleftrightarrow> reply = Fake_Done)"
    by (cases reply) (auto simp: fake_input_def xtest_fake_input_def st_bind_def st_run u_def reply_def)
  obtain tr where "gr_trace (snd (c u)) = gr_trace u @ tr" using assms by (auto simp: emits_def)
  then show "\<exists>tr. gr_trace t = gr_trace s @ tr
      \<and> (case r of Inr a \<Rightarrow> True \<and> tr = done_requests [(ev, k)] | Inl _ \<Rightarrow> list_ex unconfirmed tr)"
    using run sent by (auto simp: on_error_def u_def is_ok_iff split: sum.splits)
qed

lemma makes_press_modifiers:
  "makes (map (Pair KEY_PRESS_EVENT) ms) (\<lambda>pressed'. pressed' = pressed @ ms) (press_modifiers env pressed ms)"
proof (induction ms arbitrary: pressed)
  case (Cons m ms)
  have "makes ([(KEY_PRESS_EVENT, m)] @ map (Pair KEY_PRESS_EVENT) ms) (\<lambda>pressed'. pressed' = (pressed @ [m]) @ ms)
      (press_modifiers env pressed (m # ms))"
    unfolding press_modifiers.simps by (intro makes_then makes_request emits_release Cons.IH)
  then show ?case by simp
qed (simp add: makes_return)

lemma makes_pop_modifiers: "makes (map (Pair KEY_RELEASE_EVENT) rest) (\<lambda>_. True) (pop_modifiers env rest)"
proof (induction rest)
  case (Cons m rest)
  have "makes ([(KEY_RELEASE_EVENT, m)] @ map (Pair KEY_RELEASE_EVENT) rest) (\<lambda>_. True) (pop_modifiers env (m # rest))"
    unfolding pop_modifiers.simps
    by (intro makes_then makes_request emits_bind emits_best_effort emits_release TrueI Cons.IH)
  then show ?case by simp
qed (simp add: makes_return)

lemma makes_type_key: "makes (stroke_requests stroke) (\<lambda>_. True) (type_key env stroke)"
proof -
  let ?ms = "stroke_modifiers stroke" and ?k = "stroke_keycode stroke"
  have "makes (map (Pair KEY_PRESS_EVENT) ?ms @ [(KEY_PRESS_EVENT, ?k)] @ [(KEY_RELEASE_EVENT, ?k)]
      @ map (Pair KEY_RELEASE_EVENT) (rev ?ms)) (\<lambda>_. True) (type_key env stroke)"
    unfolding type_key_def
  proof (rule makes_bind [OF makes_press_modifiers])
    fix pressed assume "pressed = [] @ ?ms"
    then show "makes ([(KEY_PRESS_EVENT, ?k)] @ [(KEY_RELEASE_EVENT, ?k)] @ map (Pair KEY_RELEASE_EVENT) (rev ?ms)) (\<lambda>_. True)
        (st_bind (on_error (fake_input env KEY_PRESS_EVENT ?k 0 0) (release_keys env pressed)) (\<lambda>_.
         st_bind (on_error (fake_input env KEY_RELEASE_EVENT ?k 0 0)
           (st_bind (best_effort_release env KEY_RELEASE_EVENT ?k) (\<lambda>_. release_keys env pressed))) (\<lambda>_.
         pop_modifiers env (rev pressed))))"
      by (simp only: append_Nil)
        (intro makes_then makes_request emits_bind emits_best_effort emits_release TrueI makes_pop_modifiers)
  qed
  then show ?thesis by (simp add: stroke_requests_def)
qed

lemma focused_target_silent: "focused_target env request s = (r, u) \<Longrightarrow> gr_trace u = gr_trace s"
  by (auto simp: focused_target_def fresh_target_def lift_obs_def st_bind_def split: prod.splits sum.splits)

text \<open>
  The section of one character reports success exactly when its stroke was confirmed and the server
  grab was released.
\<close>

lemma requests_confirmed: "\<not> list_ex unconfirmed (done_requests xs)"
  by (induction xs) auto

lemma character_section_exact:
  assumes "in_section (character_section env request c n p) ob = (r, ob', tr)"
  shows "r = Inr True \<longleftrightarrow> stroke_confirmed env c n tr \<and> ge_ungrab env = Replied ()"
proof -
  define s where "s = \<lparr>gr_observer = ob, gr_trace = []\<rparr>"
  define act where "act = st_bind (focused_target env request) (\<lambda>_. st_bind (check_seat env p) (\<lambda>ok.
    if \<not> ok then st_return False
    else st_bind (st_try (resolve_character (ge_xkb env) c n)) (\<lambda>stroke.
      st_bind (type_key env stroke) (\<lambda>_. st_return True))))"
  obtain q t where q: "act s = (q, t)" by fastforce
  have act: "q = Inr True \<longleftrightarrow> stroke_confirmed env c n (gr_trace t)"
  proof -
    obtain f u where f: "focused_target env request s = (f, u)" by fastforce
    have u: "gr_trace u = []" using focused_target_silent [OF f] by (simp add: s_def)
    define g where "g = ge_gate env (length (gr_trace u))"
    define v where "v = u\<lparr>gr_trace := [Gate_Read g]\<rparr>"
    have check: "check_seat env p u = (Inr (accepts g p), v)" using u by (simp add: check_seat_run g_def v_def)
    have short: "\<not> stroke_confirmed env c n []" "\<not> stroke_confirmed env c n [Gate_Read g]"
      by (auto simp: stroke_confirmed_def stroke_requests_def)
    have steps: "act s = (case f of Inl e \<Rightarrow> (Inl e, u)
      | Inr _ \<Rightarrow> if \<not> accepts g p then (Inr False, v) else (case resolve_character (ge_xkb env) c n of
          Inl e \<Rightarrow> (Inl e, v)
        | Inr stroke \<Rightarrow> (case type_key env stroke v of (k, t') \<Rightarrow> (map_ok (\<lambda>_. True) k, t'))))"
    proof (cases f)
      case (Inl e)
      show ?thesis using f by (simp add: act_def Inl)
    next
      case (Inr a)
      show ?thesis
        using f check by (simp add: act_def Inr st_bind_unfold st_run)
          (auto simp: st_bind_def st_run split: sum.split prod.split)
    qed
    show ?thesis
    proof (cases "is_ok f \<and> accepts g p \<and> is_ok (resolve_character (ge_xkb env) c n)")
      case False
      then have "q \<noteq> Inr True \<and> (gr_trace t = [] \<or> gr_trace t = [Gate_Read g])"
        using q [unfolded steps] u by (auto simp: v_def is_ok_iff split: sum.splits if_splits)
      with short show ?thesis by auto
    next
      case True
      then obtain a stroke where stroke: "f = Inr a" "accepts g p" "resolve_character (ge_xkb env) c n = Inr stroke"
        by (auto simp: is_ok_iff)
      obtain k t' where type: "type_key env stroke v = (k, t')" by fastforce
      then have "gr_trace t = gr_trace t'" "q = map_ok (\<lambda>_. True) k"
        using q [unfolded steps] stroke by simp_all
      moreover obtain tr where "gr_trace t' = Gate_Read g # tr"
        "case k of Inr _ \<Rightarrow> tr = done_requests (stroke_requests stroke) | Inl _ \<Rightarrow> list_ex unconfirmed tr"
        using makesD [OF makes_type_key type] by (cases k) (auto simp: v_def)
      ultimately show ?thesis
        using stroke(3) by (cases k) (auto simp: stroke_confirmed_def res_simps requests_confirmed)
    qed
  qed
  have none: "\<not> stroke_confirmed env c n []" by (simp add: stroke_confirmed_def)
  show ?thesis
  proof (cases "ge_grab env")
    case (Replied w)
    have "tr = gr_trace t \<and> (r = Inr True \<longleftrightarrow> q = Inr True \<and> ge_ungrab env = Replied ())"
      using assms Replied q
      unfolding in_section_def character_section_def act_def [symmetric] s_def [symmetric] under_server_grab_def
      by (cases "ge_ungrab env"; cases q) (auto simp: st_bind_unfold x_ask_def)
    with act show ?thesis by simp
  qed (use assms none in \<open>auto simp: in_section_def character_section_def under_server_grab_def st_bind_def st_run x_ask_def\<close>)
qed

text \<open>
  Where the loop stops: \<open>n\<close> characters are done and the sections \<open>rest\<close> follow them. Either the text
  is finished, or the seat refused the permit after the last stroke, or one more section was begun
  whose stroke was not confirmed or whose server grab could not be released.
\<close>

definition stops_at :: "(nat \<Rightarrow> grab_env \<times> SeatGate) \<Rightarrow> SeatPermit \<Rightarrow> nat list \<Rightarrow> nat \<Rightarrow> seat_effect list list \<Rightarrow> bool" where
  "stops_at steps p cs n rest \<longleftrightarrow>
    rest = [] \<and> (n = length cs \<or> n > 0 \<and> \<not> accepts (snd (steps (n - 1))) p)
    \<or> (\<exists>tr. rest = [tr] \<and> n < length cs
        \<and> (stroke_confirmed (fst (steps n)) (cs ! n) (of_nat (Suc n)) tr \<longrightarrow> ge_ungrab (fst (steps n)) \<noteq> Replied ()))"

lemma unat_u16: "n < 2 ^ 16 \<Longrightarrow> unat (of_nat n :: u16) = n"
  by (simp add: unsigned_of_nat take_bit_nat_eq_self)

lemma type_characters_honest:
  assumes "type_characters steps request p (of_nat (length before)) cs ob = (Inr reached, ob', trs)"
    and "length before + length cs < 2 ^ 16" and "length before = 0 \<or> accepts (snd (steps (length before - 1))) p"
  shows "\<exists>typed rest. trs = typed @ rest \<and> unat reached = length before + length typed
    \<and> length typed \<le> length cs
    \<and> (\<forall>k < length typed. stroke_confirmed (fst (steps (length before + k))) (cs ! k) (of_nat (Suc (length before + k))) (typed ! k))
    \<and> stops_at steps p (before @ cs) (unat reached) rest"
  using assms
proof (induction cs arbitrary: before ob trs)
  case Nil
  then have "unat reached = length before" "trs = []" using unat_u16 [of "length before"] by auto
  then show ?case by (intro exI [of _ "[]"]) (simp add: stops_at_def)
next
  case (Cons c cs)
  let ?n = "length before"
  have n: "unat (of_nat ?n :: u16) = ?n" and next1: "unat (of_nat (Suc ?n) :: u16) = Suc ?n"
    by (rule unat_u16, use Cons.prems(2) in simp)+
  have "checked_add (of_nat ?n) 1 = Some (of_nat ?n + 1 :: u16)"
    using Cons.prems(2) n by (simp add: checked_add_def)
  then have position: "checked_add (of_nat ?n) 1 = Some (of_nat (Suc ?n) :: u16)"
    by (simp only: of_nat_Suc add.commute)
  obtain env after where step: "steps ?n = (env, after)" by fastforce
  obtain r ob1 tr where run: "in_section (character_section env request c (of_nat (Suc ?n)) p) ob = (r, ob1, tr)"
    by (metis prod_cases3)
  note exact = character_section_exact [OF run]
  have unfold: "type_characters steps request p (of_nat ?n) (c # cs) ob =
      (case r of
         Inr True \<Rightarrow> if \<not> accepts after p then (Inr (of_nat (Suc ?n)), ob1, [tr])
           else (case type_characters steps request p (of_nat (Suc ?n)) cs ob1 of (r', ob'', trs) \<Rightarrow> (r', ob'', tr # trs))
       | Inr False \<Rightarrow> (Inr (of_nat ?n), ob1, [tr])
       | Inl e \<Rightarrow> if (of_nat ?n :: u16) = 0 then (Inl e, ob1, [tr]) else (Inr (of_nat ?n), ob1, [tr]))"
    unfolding type_characters.simps position option.case n step Let_def prod.case run ..
  show ?case
  proof (cases "r = Inr True")
    case False
    then have "reached = of_nat ?n" "trs = [tr]"
      using Cons.prems(1) [unfolded unfold] by (cases r; auto split: bool.splits if_splits)+
    then show ?thesis using False exact step n
      by (intro exI [of _ "[]"] exI [of _ "[tr]"]) (simp add: stops_at_def del: of_nat_Suc)
  next
    case True
    then have typed: "stroke_confirmed env c (of_nat (Suc ?n)) tr" using exact by simp
    show ?thesis
    proof (cases "accepts after p")
      case False
      with True Cons.prems(1) [unfolded unfold] have "reached = of_nat (Suc ?n)" "trs = [tr]"
        by (simp_all del: of_nat_Suc)
      with typed next1 False step show ?thesis
        by (intro exI [of _ "[tr]"] exI [of _ "[]"]) (simp add: stops_at_def del: of_nat_Suc)
    next
      case accepted: True
      obtain trs' where more: "type_characters steps request p (of_nat (Suc ?n)) cs ob1 = (Inr reached, ob', trs')"
        and trs: "trs = tr # trs'"
        using True accepted Cons.prems(1) [unfolded unfold] by (auto simp del: of_nat_Suc split: prod.splits)
      have len: "length (before @ [c]) = Suc ?n" by simp
      have seat: "Suc ?n = 0 \<or> accepts (snd (steps (Suc ?n - 1))) p" using accepted step by simp
      have room: "Suc ?n + length cs < 2 ^ 16" using Cons.prems(2) by simp
      from Cons.IH [of "before @ [c]" ob1 trs', unfolded len append_assoc append_Cons append_Nil, OF more room seat]
      obtain ty rest where
        ty: "trs' = ty @ rest" "unat reached = Suc ?n + length ty" "length ty \<le> length cs"
        "\<forall>k < length ty. stroke_confirmed (fst (steps (Suc ?n + k))) (cs ! k) (of_nat (Suc (Suc ?n + k))) (ty ! k)"
        "stops_at steps p (before @ c # cs) (unat reached) rest" by blast
      have "stroke_confirmed (fst (steps (?n + k))) ((c # cs) ! k) (of_nat (Suc (?n + k))) ((tr # ty) ! k)"
        if "k < length (tr # ty)" for k
        using that typed step ty(4) by (cases k) (simp_all del: of_nat_Suc)
      with trs ty show ?thesis
        by (intro exI [of _ "tr # ty"] exI [of _ rest]) (simp del: of_nat_Suc)
    qed
  qed
qed

text \<open>
  C25. Typing counts are honest. A reply validates on the wire and its total is the number of
  characters of the text. Its count \<open>n\<close> says that for each of the first \<open>n\<close> characters, in order, one
  grabbed section made exactly the XTEST requests of that character's stroke and the server confirmed
  every one; and it is not too small: typing stopped there because the text was finished, because the
  seat refused the permit after the last stroke, or because in the one further section the stroke was
  not confirmed (or it was, but the server grab could not be released, the one case in which a typed
  character is not counted). ``Queued'' is said only for the whole text, with the permit still
  accepted at the end.
\<close>

theorem typing_counts_honest:
  assumes "keyboard_text pre steps final request text p ob = (Inr reply, ob', trs)"
    and "chars_str text \<noteq> []"
  shows "validate_InputReply reply = Inr () \<and> unat (inp_requested reply) = length (chars_str text)
    \<and> (inp_terminal reply = In_Queued \<longleftrightarrow> inp_completed reply = inp_requested reply \<and> accepts final p)
    \<and> (\<exists>checked typed rest. trs = checked # typed @ rest \<and> length typed = unat (inp_completed reply)
      \<and> (\<forall>k < length typed. stroke_confirmed (fst (steps k)) (chars_str text ! k) (of_nat (Suc k)) (typed ! k))
      \<and> stops_at steps p (chars_str text) (length typed) rest)"
proof -
  let ?n = "length (chars_str text)"
  from assms(1) obtain ob1 checked reached trs' where fits: "?n < 2 ^ 16"
    and loop: "type_characters steps request p 0 (chars_str text) ob1 = (Inr reached, ob', trs')"
    and trs: "trs = checked # trs'"
    and reply: "reply = \<lparr>inp_completed = reached, inp_requested = of_nat ?n,
      inp_terminal = (if reached = of_nat ?n \<and> accepts final p then In_Queued else In_Interrupted)\<rparr>"
    by (auto simp: keyboard_text_def Let_def res_simps split: if_splits prod.splits sum.splits)
  have n: "unat (of_nat ?n :: u16) = ?n"
    using fits by (rule unat_u16)
  from type_characters_honest [where before = "[]", of steps request p "chars_str text" ob1 reached ob' trs'] loop fits
  obtain typed rest where typed: "trs' = typed @ rest" "unat reached = length typed" "length typed \<le> ?n"
    "\<forall>k < length typed. stroke_confirmed (fst (steps k)) (chars_str text ! k) (of_nat (Suc k)) (typed ! k)"
    "stops_at steps p (chars_str text) (unat reached) rest" by (auto simp del: of_nat_Suc)
  have "of_nat ?n \<noteq> (0 :: u16)"
    using n assms(2) by (metis length_0_conv unsigned_0)
  moreover have "reached \<le> of_nat ?n"
    using typed(2,3) n by (simp add: word_le_nat_alt)
  ultimately have "validate_InputReply reply = Inr ()"
    by (auto simp: reply validate_InputReply_def)
  with typed trs n show ?thesis by (auto simp: reply simp del: of_nat_Suc)
qed

section \<open>A concrete click and a typed character\<close>

text \<open>
  The demonstration client covers the root at (10, 20); a keyboard of two keys, the seat enabled
  throughout.
\<close>

definition demo_xkb :: xkb_server where
  "demo_xkb = \<lparr>xk_supported = Replied True, xk_state = Replied (kb_state demo_keyboard),
    xk_map = Replied \<lparr>gm_min_key_code = 8, gm_max_key_code = 9, gm_first_type = 0, gm_n_types = 1,
      gm_total_types = 1, gm_first_key_sym = 8, gm_n_key_syms = 2,
      gm_types_rtrn = Some (kb_types demo_keyboard), gm_syms_rtrn = Some (kb_symbols demo_keyboard),
      gm_modmap_rtrn = Some (kb_modifier_map demo_keyboard)\<rparr>\<rparr>"

definition demo_grab :: grab_env where
  "demo_grab = \<lparr>ge_grab = Replied (), ge_ungrab = Replied (), ge_sample = demo_sample,
    ge_x = demo_x\<lparr>x_get_geometry := (\<lambda>_. Replied \<lparr>geo_width = 100, geo_height = 100, geo_depth = 24\<rparr>),
      x_translate_coordinates := (\<lambda>_ _. Replied \<lparr>tr_dst_x = 10, tr_dst_y = 20\<rparr>)\<rparr>,
    ge_focus = Replied 50, ge_parent = (\<lambda>_. Replied 1), ge_children = Replied [50],
    ge_attributes = (\<lambda>_. Replied \<lparr>wa_viewable = True, wa_visual = 0\<rparr>),
    ge_translate = (\<lambda>_ x y. Replied \<lparr>tr_dst_x = x - 10, tr_dst_y = y - 20\<rparr>),
    ge_shape = (\<lambda>_. Replied [\<lparr>rg_x = 0, rg_y = 0, rg_width = 100, rg_height = 100\<rparr>]),
    ge_xkb = demo_xkb, ge_gate = (\<lambda>_. 1), ge_fake = (\<lambda>_. Fake_Done)\<rparr>"

definition demo_click :: PointerClickRequest where
  "demo_click = \<lparr>pcr_target = \<lparr>tgt_client = 1, tgt_generation = 0\<rparr>, pcr_x = 5, pcr_y = 7,
    pcr_button = Btn_Primary\<rparr>"

lemma demo_fresh_target: "fresh_target demo_grab \<lparr>tgt_client = 1, tgt_generation = 0\<rparr>
      \<lparr>gr_observer = demo_subscribed, gr_trace = tr\<rparr>
    = (Inr \<lparr>tg_id = 1, tg_xid = 50, tg_frame = None, tg_states = [], tg_actions = []\<rparr>,
       \<lparr>gr_observer = demo_subscribed, gr_trace = tr\<rparr>)"
  by (simp add: fresh_target_def st_bind_def lift_obs_def demo_grab_def demo_refresh)
    (simp add: target_def obs_record_def demo_subscribed_def demo_model_def demo_descriptor_def)

lemma demo_accepts: "accepts 1 1"
  by (simp add: accepts_def is_enabled_def DISABLED_TERMINAL_def)

lemma demo_subscribed_root [simp]: "ob_root demo_subscribed = 1"
  by (simp add: demo_subscribed_def demo_observer_def Observer_connect_def)

lemma walk_self: "n \<noteq> 0 \<Longrightarrow> frame_walk env root w n w = Inr True" "n \<noteq> 0 \<Longrightarrow> focus_walk env root w n w = Inr ()"
  by (cases n; simp)+

lemma demo_destination: "pointer_destination demo_grab \<lparr>tgt_client = 1, tgt_generation = 0\<rparr> 5 7
      \<lparr>gr_observer = demo_subscribed, gr_trace = []\<rparr>
    = (Inr (50, 15, 27), \<lparr>gr_observer = demo_subscribed, gr_trace = []\<rparr>)"
  by (simp add: pointer_destination_def st_bind_def demo_fresh_target)
    (simp add: demo_grab_def x_ask_def checked_root_coordinate_def i32_try_from_def checked_add_i32_def
      ok_or_def require_point_owned_by_def is_target_or_reparenting_frame_def MAX_WINDOW_ANCESTORS_def
      rectangle_contains_def MAX_HIT_TEST_CHILDREN_def MAX_HIT_TEST_RECTANGLES_def walk_self)

lemma demo_click_run: "pointer_click demo_grab 1 demo_click 1 demo_subscribed
    = (Inr \<lparr>inp_completed = 1, inp_requested = 1, inp_terminal = In_Queued\<rparr>, demo_subscribed,
       [Gate_Read 1, Fake MOTION_NOTIFY_EVENT 0 15 27 Fake_Done,
        Fake BUTTON_PRESS_EVENT 1 15 27 Fake_Done, Fake BUTTON_RELEASE_EVENT 1 15 27 Fake_Done])"
proof -
  have env: "ge_grab demo_grab = Replied ()" "ge_ungrab demo_grab = Replied ()"
    "ge_gate demo_grab = (\<lambda>_. 1)" "ge_fake demo_grab = (\<lambda>_. Fake_Done)"
    by (simp_all add: demo_grab_def)
  show ?thesis
    by (simp add: pointer_click_def in_section_def pointer_click_section_def under_server_grab_def
        st_bind_def st_run demo_click_def demo_destination check_seat_def fake_input_def
        xtest_fake_input_def click_button_def on_error_def env x_ask_def demo_accepts action_reply_def)
qed

theorem click_lands_on_target_witness:
  "\<exists>rx ry. lands_on demo_grab rx ry 50 \<and> sint rx = 15 \<and> sint ry = 27"
proof -
  obtain xid rx ry g q where *: "names_window demo_subscribed (pcr_target demo_click) xid"
    "lands_on demo_grab rx ry xid" "x_translate_coordinates (ge_x demo_grab) xid (ob_root demo_subscribed) = Replied q"
    "sint rx = sint (tr_dst_x q) + int (unat (pcr_x demo_click))"
    "sint ry = sint (tr_dst_y q) + int (unat (pcr_y demo_click))"
    using click_lands_on_target [OF demo_click_run, of MOTION_NOTIFY_EVENT 0 15 27 Fake_Done] by auto
  moreover from *(1) have "xid = 50"
    by (auto simp: names_window_def demo_subscribed_def demo_model_def)
  moreover from *(3) have "q = \<lparr>tr_dst_x = 10, tr_dst_y = 20\<rparr>"
    by (simp add: demo_grab_def)
  ultimately have "lands_on demo_grab rx ry 50 \<and> sint rx = 15 \<and> sint ry = 27"
    by (simp add: demo_click_def)
  then show ?thesis by blast
qed

lemma demo_focused_target: "focused_target demo_grab \<lparr>tgt_client = 1, tgt_generation = 0\<rparr>
      \<lparr>gr_observer = demo_subscribed, gr_trace = tr\<rparr>
    = (Inr \<lparr>tg_id = 1, tg_xid = 50, tg_frame = None, tg_states = [], tg_actions = []\<rparr>,
       \<lparr>gr_observer = demo_subscribed, gr_trace = tr\<rparr>)"
  by (simp add: focused_target_def st_bind_def demo_fresh_target)
    (simp add: demo_grab_def require_focus_owned_by_def x_ask_def X_NONE_def POINTER_ROOT_FOCUS_def
      MAX_WINDOW_ANCESTORS_def walk_self)

lemma demo_keyboard_read: "KeyboardMap_read demo_xkb = Inr demo_keyboard"
  by code_simp

lemma demo_resolve_x: "kb_resolve demo_keyboard 120 = Inr \<lparr>stroke_keycode = 9, stroke_modifiers = []\<rparr>"
  by code_simp

lemma demo_chars: "chars_str ''x'' = [120]"
  by code_simp

lemma demo_typed: "keyboard_text demo_grab (\<lambda>_. (demo_grab, 1)) 1 \<lparr>tgt_client = 1, tgt_generation = 0\<rparr>
      ''x'' 1 demo_subscribed
    = (Inr \<lparr>inp_completed = 1, inp_requested = 1, inp_terminal = In_Queued\<rparr>, demo_subscribed,
       [[], [Gate_Read 1, Fake KEY_PRESS_EVENT 9 0 0 Fake_Done, Fake KEY_RELEASE_EVENT 9 0 0 Fake_Done]])"
proof -
  have env: "ge_grab demo_grab = Replied ()" "ge_ungrab demo_grab = Replied ()"
    "ge_gate demo_grab = (\<lambda>_. 1)" "ge_fake demo_grab = (\<lambda>_. Fake_Done)" "ge_xkb demo_grab = demo_xkb"
    by (simp_all add: demo_grab_def)
  note chars = demo_chars
  have typed: "resolve_text demo_xkb ''x'' = Inr [\<lparr>stroke_keycode = 9, stroke_modifiers = []\<rparr>]"
    "resolve_character demo_xkb 120 1 = Inr \<lparr>stroke_keycode = 9, stroke_modifiers = []\<rparr>"
    by (simp_all add: resolve_text_def resolve_character_def demo_keyboard_read chars demo_resolve_x
        keysym_for_character_def)
  show ?thesis
    by (simp add: keyboard_text_def chars in_section_def text_preflight_def character_section_def
        under_server_grab_def st_bind_def st_run demo_focused_target typed check_seat_def type_key_def
        fake_input_def xtest_fake_input_def on_error_def env x_ask_def demo_accepts checked_add_def)
qed

theorem typing_counts_honest_witness:
  "validate_InputReply \<lparr>inp_completed = 1, inp_requested = 1, inp_terminal = In_Queued\<rparr> = Inr ()
    \<and> stroke_confirmed demo_grab 120 1
      [Gate_Read 1, Fake KEY_PRESS_EVENT 9 0 0 Fake_Done, Fake KEY_RELEASE_EVENT 9 0 0 Fake_Done]"
proof -
  have nonempty: "chars_str ''x'' \<noteq> []" by (simp add: demo_chars)
  note honest = typing_counts_honest [OF demo_typed nonempty]
  then obtain checked typed rest where
    "[[], [Gate_Read 1, Fake KEY_PRESS_EVENT 9 0 0 Fake_Done, Fake KEY_RELEASE_EVENT 9 0 0 Fake_Done]] = checked # typed @ rest"
    "length typed = 1" "\<forall>k < length typed. stroke_confirmed demo_grab (chars_str ''x'' ! k) (of_nat (Suc k)) (typed ! k)"
    by auto
  then show ?thesis using honest by (cases typed) (auto simp: demo_chars)
qed

end
