(* ===== verification/Text_Transfer.thy ===== *)
theory Text_Transfer
  imports Observer_Input
begin

text \<open>
  Text insertion through the clipboard selection
  (\<^verbatim>\<open>agent-seat-x11/src/observer/text_transfer.rs\<close>): a temporary window owns the selection, Control-V
  is typed at the focused target, and selection requests are served until the text was delivered and
  the transfer settled, the deadline passed, or the evidence for the transfer is gone. Time is in
  milliseconds; the events, clock readings and server answers of each round are parameters.
\<close>

section \<open>Server answers\<close>

text \<open>An entry of the X-Resource reply: whether its mask is the client XID alone, whether it carries
  no value, and the client it names.\<close>

record client_id_value =
  civ_xid_mask :: bool
  civ_empty :: bool
  civ_client :: u32

record transfer_env =
  te_grab :: grab_env
  te_claim :: "unit x_reply"
  te_selection_owner :: "u32 x_reply"
  te_res_version :: "(u16 \<times> u16) x_reply"
  te_client_ids :: "u32 \<Rightarrow> client_id_value list x_reply"
  te_change_property :: "unit x_reply"
  te_notify :: "unit x_reply"
  te_sync :: bool

record SelectionRequestEvent =
  sre_owner :: u32
  sre_requestor :: u32
  sre_selection :: u32
  sre_target :: u32
  sre_property :: u32

datatype transfer_event =
  Xev_SelectionClear u32 u32
| Xev_SelectionRequest SelectionRequestEvent
| Xev_Other

text \<open>
  One answer of \<^verbatim>\<open>poll_for_event\<close> with what the server answers while it is handled and the time
  afterwards; a round of the outer loop is the events until none is pending, the evidence check, the
  clock, and whether \<^verbatim>\<open>poll\<close> succeeds.
\<close>

datatype poll_item = Poll_Failed | Poll_Event transfer_event transfer_env nat

record transfer_round =
  tro_events :: "poll_item list"
  tro_evidence :: transfer_env
  tro_now :: nat
  tro_poll :: bool

definition TRANSFER_WAIT :: nat where "TRANSFER_WAIT = 2000"
definition TRANSFER_SETTLE_WAIT :: nat where "TRANSFER_SETTLE_WAIT = 250"
definition MAX_TRANSFER_EVENTS :: nat where "MAX_TRANSFER_EVENTS = 256"
definition MAX_SELECTION_REQUESTS :: nat where "MAX_SELECTION_REQUESTS = 32"

definition transfer_reply :: "TargetRequest \<Rightarrow> u32 \<Rightarrow> TextTransferTerminal \<Rightarrow> TextTransferReply" where
  "transfer_reply request requested_bytes terminal = \<lparr>ttr_target = request,
    ttr_requested_bytes = requested_bytes, ttr_delivered_bytes = 0, ttr_terminal = terminal\<rparr>"

section \<open>Identity and ownership\<close>

definition require_xres_client_identity :: "transfer_env \<Rightarrow> u32 \<Rightarrow> Failure + u32" where
  "require_xres_client_identity env window =
    res_bind (x_ask ''X-Resource client identity is unavailable''
      ''X-Resource client identity is unavailable'' (te_res_version env)) (\<lambda>(major, minor).
    if major < 1 \<or> (major = 1 \<and> minor < 2)
    then Inl (Failure_unavailable ''X-Resource 1.2 client identity is unavailable'')
    else
      res_bind (x_ask ''cannot inspect X11 client identity'' ''cannot inspect X11 client identity''
        (te_client_ids env window)) (\<lambda>ids.
      ok_or (map_option civ_client (find (\<lambda>value. civ_xid_mask value \<and> civ_empty value) ids))
        (Failure_unavailable ''X11 client identity evidence is incomplete'')))"

definition same_x_client :: "transfer_env \<Rightarrow> u32 \<Rightarrow> u32 \<Rightarrow> Failure + bool" where
  "same_x_client env target_xid requestor =
    res_bind (require_xres_client_identity env target_xid) (\<lambda>target_client.
    res_bind (require_xres_client_identity env requestor) (\<lambda>requestor_client.
    Inr (target_client = requestor_client)))"

definition current_owner :: "transfer_env \<Rightarrow> Failure + u32" where
  "current_owner env = x_ask ''cannot verify X11 clipboard ownership''
    ''cannot verify X11 clipboard ownership'' (te_selection_owner env)"

definition claim_transfer_selection :: "transfer_env \<Rightarrow> u32 \<Rightarrow> unit grabbed_op" where
  "claim_transfer_selection env owner =
    st_bind (x_sent (Own_Selection owner)) (\<lambda>_.
    st_bind (st_try (x_ask ''cannot claim the X11 clipboard selection''
      ''cannot claim the X11 clipboard selection'' (te_claim env))) (\<lambda>_.
    st_bind (st_try (current_owner env)) (\<lambda>current.
    if current \<noteq> owner
    then st_fail (Failure_unavailable ''X11 clipboard ownership changed before text transfer'')
    else st_return ())))"

definition notify_selection :: "transfer_env \<Rightarrow> SelectionRequestEvent \<Rightarrow> u32 \<Rightarrow> unit grabbed_op" where
  "notify_selection env request property =
    st_bind (x_sent (Notify (sre_requestor request) property)) (\<lambda>_.
    st_try (x_ask ''cannot send X11 selection notification'' ''cannot send X11 selection notification''
      (te_notify env)))"

definition x_sync :: "transfer_env \<Rightarrow> string \<Rightarrow> unit grabbed_op" where
  "x_sync env message = st_try (ensure (te_sync env) (Failure_unavailable message))"

section \<open>Serving one selection request\<close>

definition serve_request ::
    "transfer_env \<Rightarrow> SelectionRequestEvent \<Rightarrow> u32 \<Rightarrow> Target \<Rightarrow> string \<Rightarrow> bool grabbed_op" where
  "serve_request env request owner t text =
    st_bind (st_try (same_x_client env (tg_xid t) (sre_requestor request))) (\<lambda>same.
    if \<not> same then
      st_bind (notify_selection env request X_NONE) (\<lambda>_.
      st_bind (x_sync env ''cannot refuse an out-of-scope selection requestor'') (\<lambda>_. st_return False))
    else
      st_bind (st_try (current_owner env)) (\<lambda>current.
      if current \<noteq> owner then st_return False
      else
        st_bind (st_get (\<lambda>s. ob_atoms (gr_observer s))) (\<lambda>atoms.
        let property = (if sre_property request = X_NONE then sre_target request else sre_property request) in
        if sre_target request = at_targets atoms then
          st_bind (x_sent (Put_Atoms (sre_requestor request) property
            [at_targets atoms, at_utf8 atoms, at_text_plain_utf8 atoms, at_text_plain atoms])) (\<lambda>_.
          st_bind (st_try (x_ask ''cannot publish text-transfer targets''
            ''cannot publish text-transfer targets'' (te_change_property env))) (\<lambda>_.
          st_bind (notify_selection env request property) (\<lambda>_.
          st_bind (x_sync env ''cannot synchronize text-transfer targets'') (\<lambda>_. st_return False))))
        else if \<not> (sre_target request = at_utf8 atoms \<or> sre_target request = at_text_plain_utf8 atoms
          \<or> sre_target request = at_text_plain atoms) then
          st_bind (notify_selection env request X_NONE) (\<lambda>_.
          st_bind (x_sync env ''cannot refuse an unsupported text target'') (\<lambda>_. st_return False))
        else
          st_bind (x_sent (Put_Text (sre_requestor request) property (sre_target request) text)) (\<lambda>_.
          st_bind (st_try (x_ask ''cannot deliver UTF-8 transfer text''
            ''cannot deliver UTF-8 transfer text'' (te_change_property env))) (\<lambda>_.
          st_bind (notify_selection env request property) (\<lambda>_.
          st_bind (x_sync env ''cannot synchronize UTF-8 text delivery'') (\<lambda>_. st_return True)))))))"

definition handle_selection_request :: "transfer_env \<Rightarrow> SelectionRequestEvent \<Rightarrow> u32 \<Rightarrow> TargetRequest
    \<Rightarrow> string \<Rightarrow> SeatPermit \<Rightarrow> bool grabbed_op" where
  "handle_selection_request env request owner target_request text p = under_server_grab (te_grab env)
    (st_bind (focused_target (te_grab env) target_request) (\<lambda>t.
    st_bind (check_seat (te_grab env) p) (\<lambda>ok.
    if \<not> ok then st_return False else serve_request env request owner t text)))"

definition evidence_section :: "transfer_env \<Rightarrow> u32 \<Rightarrow> TargetRequest \<Rightarrow> SeatPermit \<Rightarrow> bool grabbed_op" where
  "evidence_section env owner target_request p = under_server_grab (te_grab env)
    (st_bind (focused_target (te_grab env) target_request) (\<lambda>_.
    st_bind (check_seat (te_grab env) p) (\<lambda>ok.
    if \<not> ok then st_return False
    else st_bind (st_try (current_owner env)) (\<lambda>current. st_return (current = owner)))))"

definition offer_section :: "transfer_env \<Rightarrow> u32 \<Rightarrow> TargetRequest \<Rightarrow> SeatPermit \<Rightarrow> bool grabbed_op" where
  "offer_section env owner target_request p = under_server_grab (te_grab env)
    (st_bind (focused_target (te_grab env) target_request) (\<lambda>t.
    st_bind (st_try (require_xres_client_identity env (tg_xid t))) (\<lambda>_.
    st_bind (check_seat (te_grab env) p) (\<lambda>ok.
    if \<not> ok then st_return False
    else
      st_bind (claim_transfer_selection env owner) (\<lambda>_.
      st_bind (st_try (resolve_key (ge_xkb (te_grab env)) Key_V [Mod_Control])) (\<lambda>stroke.
      st_bind (check_seat (te_grab env) p) (\<lambda>ok.
      if \<not> ok then st_return False
      else st_bind (type_key (te_grab env) stroke) (\<lambda>_. st_return True))))))))"

section \<open>Waiting for the transfer\<close>

record counters =
  ct_events :: nat
  ct_requests :: nat
  ct_last_delivery :: "nat option"

datatype drained = Drain_Return "Failure + TextTransferReply" | Drain_Done counters

text \<open>The inner loop, until no event is pending.\<close>

fun drain_events :: "u32 \<Rightarrow> u32 \<Rightarrow> TargetRequest \<Rightarrow> string \<Rightarrow> u32 \<Rightarrow> SeatPermit \<Rightarrow> poll_item list \<Rightarrow> counters
    \<Rightarrow> Observer \<Rightarrow> drained \<times> Observer \<times> seat_effect list list" where
  "drain_events clipboard owner request text bytes p [] c ob = (Drain_Done c, ob, [])"
| "drain_events clipboard owner request text bytes p (Poll_Failed # items) c ob =
    (Drain_Return (Inl (Failure_unavailable ''cannot read X11 text-transfer events'')), ob, [])"
| "drain_events clipboard owner request text bytes p (Poll_Event event env now # items) c ob =
    (let c = c\<lparr>ct_events := ct_events c + 1\<rparr>;
       interrupted = Drain_Return (Inr (transfer_reply request bytes Tt_Interrupted)) in
     if ct_events c > MAX_TRANSFER_EVENTS then (interrupted, ob, [])
     else
       case event of
         Xev_SelectionClear o' s \<Rightarrow>
           if o' = owner \<and> s = clipboard then (interrupted, ob, [])
           else drain_events clipboard owner request text bytes p items c ob
       | Xev_SelectionRequest sr \<Rightarrow>
           if sre_owner sr = owner \<and> sre_selection sr = clipboard
           then
             (let c = c\<lparr>ct_requests := ct_requests c + 1\<rparr> in
              if ct_requests c > MAX_SELECTION_REQUESTS then (interrupted, ob, [])
              else
                (let (r, ob1, tr) = in_section (handle_selection_request env sr owner request text p) ob in
                 case r of
                   Inl e \<Rightarrow> (Drain_Return (Inl e), ob1, [tr])
                 | Inr delivered \<Rightarrow>
                     (let (d, ob2, trs) = drain_events clipboard owner request text bytes p items
                        (if delivered then c\<lparr>ct_last_delivery := Some now\<rparr> else c) ob1 in
                      (d, ob2, tr # trs))))
           else drain_events clipboard owner request text bytes p items c ob
       | Xev_Other \<Rightarrow> drain_events clipboard owner request text bytes p items c ob)"

text \<open>The outer loop: not to have returned after the given rounds is \<open>None\<close>.\<close>

fun wait_rounds :: "u32 \<Rightarrow> nat \<Rightarrow> u32 \<Rightarrow> TargetRequest \<Rightarrow> string \<Rightarrow> u32 \<Rightarrow> SeatPermit \<Rightarrow> transfer_round list
    \<Rightarrow> counters \<Rightarrow> Observer \<Rightarrow> (Failure + TextTransferReply) option \<times> Observer \<times> seat_effect list list" where
  "wait_rounds clipboard deadline owner request text bytes p [] c ob = (None, ob, [])"
| "wait_rounds clipboard deadline owner request text bytes p (ro # ros) c ob =
    (let (d, ob1, trs) = drain_events clipboard owner request text bytes p (tro_events ro) c ob in
     case d of
       Drain_Return r \<Rightarrow> (Some r, ob1, trs)
     | Drain_Done c \<Rightarrow>
         (let (evidence, ob2, tr) = in_section (evidence_section (tro_evidence ro) owner request p) ob1;
            now = tro_now ro; trs = trs @ [tr] in
          if evidence \<noteq> Inr True then (Some (Inr (transfer_reply request bytes Tt_Interrupted)), ob2, trs)
          else if (case ct_last_delivery c of None \<Rightarrow> False
              | Some delivery \<Rightarrow> now - delivery \<ge> TRANSFER_SETTLE_WAIT \<or> now \<ge> deadline)
          then (Some (Inr \<lparr>ttr_target = request, ttr_requested_bytes = bytes,
            ttr_delivered_bytes = bytes, ttr_terminal = Tt_Delivered\<rparr>), ob2, trs)
          else if now \<ge> deadline then (Some (Inr (transfer_reply request bytes Tt_Offered)), ob2, trs)
          else if \<not> tro_poll ro
          then (Some (Inl (Failure_unavailable ''cannot wait for X11 text-transfer events'')), ob2, trs)
          else
            (let (r, ob3, more) = wait_rounds clipboard deadline owner request text bytes p ros c ob2 in
             (r, ob3, trs @ more))))"

definition wait_for_transfer :: "nat option \<Rightarrow> transfer_round list \<Rightarrow> u32 \<Rightarrow> TargetRequest \<Rightarrow> string \<Rightarrow> u32
    \<Rightarrow> SeatPermit \<Rightarrow> Observer \<Rightarrow> (Failure + TextTransferReply) option \<times> Observer \<times> seat_effect list list" where
  "wait_for_transfer deadline rounds owner request text bytes p ob =
    (case deadline of
       None \<Rightarrow> (Some (Inl (Failure_internal ''text-transfer deadline overflowed'')), ob, [])
     | Some d \<Rightarrow> wait_rounds (at_clipboard (ob_atoms ob)) d owner request text bytes p rounds
         \<lparr>ct_events = 0, ct_requests = 0, ct_last_delivery = None\<rparr> ob)"

section \<open>The call\<close>

record cleanup_env =
  ce_grab :: "unit x_reply"
  ce_owner :: "u32 x_reply"
  ce_disown :: "unit x_reply"
  ce_destroy :: "unit x_reply"
  ce_ungrab :: "unit x_reply"
  ce_sync :: bool

text \<open>The cleanup; the flag says whether the owner window's destruction was requested.\<close>

definition release_transfer_owner :: "cleanup_env \<Rightarrow> u32 \<Rightarrow> (Failure + unit) \<times> bool" where
  "release_transfer_owner env owner =
    (case x_ask ''cannot acquire text-transfer cleanup grab'' ''cannot acquire text-transfer cleanup grab''
        (ce_grab env) of
       Inl e \<Rightarrow> (Inl e, False)
     | Inr _ \<Rightarrow>
         (let selection =
            res_bind (x_ask ''cannot inspect text-transfer cleanup state''
              ''cannot inspect text-transfer cleanup state'' (ce_owner env)) (\<lambda>current.
            if current = owner
            then x_ask ''cannot release X11 clipboard ownership'' ''cannot release X11 clipboard ownership''
              (ce_disown env)
            else Inr ());
            cleanup = res_bind selection (\<lambda>_. x_ask ''cannot destroy text-transfer owner window''
              ''cannot destroy text-transfer owner window'' (ce_destroy env));
            released = x_ask ''cannot request text-transfer cleanup ungrab''
              ''cannot release text-transfer cleanup grab'' (ce_ungrab env) in
          (case (cleanup, released) of
             (Inr _, Inr _) \<Rightarrow> ensure (ce_sync env)
               (Failure_unavailable ''cannot synchronize text-transfer cleanup'')
           | (Inl e, _) \<Rightarrow> Inl e
           | (Inr _, Inl e) \<Rightarrow> Inl e, is_ok selection)))"

record text_env =
  ti_generate :: "u32 option"
  ti_create :: "unit x_reply"
  ti_offer :: transfer_env
  ti_deadline :: "nat option"
  ti_rounds :: "transfer_round list"
  ti_cleanup :: cleanup_env

definition create_transfer_owner :: "text_env \<Rightarrow> Failure + u32" where
  "create_transfer_owner env =
    res_bind (ok_or (ti_generate env)
      (Failure_unavailable ''cannot allocate a text-transfer owner window'')) (\<lambda>owner.
    res_bind (x_ask ''cannot create a text-transfer owner window''
      ''cannot create a text-transfer owner window'' (ti_create env)) (\<lambda>_. Inr owner))"

definition text_insert :: "text_env \<Rightarrow> TextInsertRequest \<Rightarrow> SeatPermit \<Rightarrow> Observer
    \<Rightarrow> (Failure + TextTransferReply) option \<times> Observer \<times> seat_effect list list \<times> bool" where
  "text_insert env request p ob =
    (let target_request = tir_target request; text = tir_text request in
     if length text < 2 ^ 32
     then
       (let bytes = of_nat (length text) in
        case create_transfer_owner env of
          Inl e \<Rightarrow> (Some (Inl e), ob, [], False)
        | Inr owner \<Rightarrow>
            (let (offered, ob1, tr) = in_section (offer_section (ti_offer env) owner target_request p) ob;
               (result, ob2, trs) = (case offered of
                   Inr True \<Rightarrow> wait_for_transfer (ti_deadline env) (ti_rounds env) owner target_request
                     text bytes p ob1
                 | Inr False \<Rightarrow> (Some (Inr (transfer_reply target_request bytes Tt_Interrupted)), ob1, [])
                 | Inl e \<Rightarrow> (Some (Inl e), ob1, [])) in
             case result of
               None \<Rightarrow> (None, ob2, tr # trs, False)
             | Some result \<Rightarrow>
                 (let (cleanup, destroyed) = release_transfer_owner (ti_cleanup env) owner in
                  (Some (case (result, cleanup) of
                     (Inr reply, Inr _) \<Rightarrow> Inr reply
                   | (Inl e, _) \<Rightarrow> Inl e
                   | (Inr _, Inl e) \<Rightarrow> Inl e), ob2, tr # trs, destroyed))))
     else (Some (Inl (Failure_internal ''text-transfer byte count cannot be represented'')), ob, [], False))"

section \<open>Every section is guarded and releases its keys\<close>

lemma keeps_armed_serve [keeps_intros]: "keeps (armed p) (serve_request env request owner t text)"
  unfolding serve_request_def notify_selection_def x_sync_def Let_def by (intro keeps_intros)

lemma keeps_armed_claim [keeps_intros]: "keeps (armed p) (claim_transfer_selection env owner)"
  unfolding claim_transfer_selection_def by (intro keeps_intros)

lemma handle_safe: "keeps (safe p) (handle_selection_request env request owner target_request text p)"
  unfolding handle_selection_request_def
  by (intro keeps_under_server_grab keeps_bind [OF keeps_safe_target(2)] keeps_gated keeps_armed_serve
      keeps_return)

lemma evidence_safe: "keeps (safe p) (evidence_section env owner target_request p)"
  unfolding evidence_section_def
  by (intro keeps_under_server_grab keeps_bind [OF keeps_safe_target(2)] keeps_gated
      keeps_bind [OF keeps_try] keeps_return)

lemma offer_safe: "keeps (safe p) (offer_section env owner target_request p)"
  unfolding offer_section_def
  by (intro keeps_under_server_grab keeps_bind [OF keeps_safe_target(2)] keeps_bind [OF keeps_try]
      keeps_gated_part armed_then_safe [OF keeps_armed_claim] keeps_gated
      keeps_bind [OF keeps_armed_type_key] keeps_return)

text \<open>The same for the keys held down, and for text placed nowhere.\<close>

lemma keeps_up_sent [keeps_intros]: "keeps all_up (x_sent e)"
  by (simp add: keeps_def x_sent_def st_run held_down_append)

lemma transfer_sections_up:
  "keeps all_up (handle_selection_request env request owner target_request text p)"
  "keeps all_up (evidence_section env owner target_request p)"
  "keeps all_up (offer_section env owner target_request p)"
  unfolding handle_selection_request_def evidence_section_def offer_section_def serve_request_def
    notify_selection_def x_sync_def claim_transfer_selection_def Let_def
  by (intro keeps_intros)+

fun is_text :: "seat_effect \<Rightarrow> bool" where
  "is_text (Sent (Put_Text _ _ _ _)) = True"
| "is_text _ = False"

abbreviation no_text :: "grabbed \<Rightarrow> bool" where
  "no_text s \<equiv> list_all (\<lambda>e. \<not> is_text e) (gr_trace s)"

lemma keeps_no_text [keeps_intros]:
  "keeps no_text (lift_obs m)" "keeps no_text (check_seat env p)"
  "keeps no_text (xtest_fake_input env ev d x y)"
  by (auto simp: keeps_def lift_obs_def check_seat_def xtest_fake_input_def st_bind_def st_run
      split: prod.splits)

lemma keeps_no_text_target [keeps_intros]:
  "keeps no_text (fresh_target env request)" "keeps no_text (focused_target env request)"
  unfolding focused_target_def fresh_target_def by (intro keeps_intros keeps_reading)+

lemma keeps_no_text_fake [keeps_intros]: "keeps no_text (fake_input env ev d x y)"
  unfolding fake_input_def
  by (rule keeps_bind, rule keeps_no_text(3)) (auto split: fake_reply.split intro: keeps_intros)

lemma keeps_no_text_release [keeps_intros]: "keeps no_text (release_keys env ks)"
proof -
  have "keeps no_text (release_keys_loop env ks)" for ks
    by (induction ks) (simp_all add: best_effort_release_def keeps_intros)
  then show ?thesis by (simp add: release_keys_def)
qed

lemma keeps_no_text_type_key [keeps_intros]: "keeps no_text (type_key env stroke)"
proof -
  have press: "keeps no_text (press_modifiers env pressed ks)" for pressed ks
    by (induction ks arbitrary: pressed) (simp_all add: keeps_intros)
  have pop: "keeps no_text (pop_modifiers env ks)" for ks
    by (induction ks) (simp_all add: best_effort_release_def keeps_intros)
  show ?thesis
    unfolding type_key_def best_effort_release_def by (intro keeps_intros press pop)
qed

lemma keeps_no_text_sent [keeps_intros]: "\<not> is_text (Sent e) \<Longrightarrow> keeps no_text (x_sent e)"
  by (simp add: keeps_def x_sent_def st_run)

lemma sections_no_text:
  "keeps no_text (evidence_section env owner target_request p)"
  "keeps no_text (offer_section env owner target_request p)"
  unfolding evidence_section_def offer_section_def claim_transfer_selection_def
  by (intro keeps_intros | simp)+

section \<open>Text goes to the target's client only\<close>

lemma emits_plain [emits_intros]: "emits E (st_try r)" "emits E (st_get f)"
  by (simp_all add: emits_def st_run)

lemma emits_sent [emits_intros]: "E (Sent e) \<Longrightarrow> emits E (x_sent e)"
  by (simp add: emits_def x_sent_def st_run)

lemma emits_if [emits_intros]: "emits E m \<Longrightarrow> emits E n \<Longrightarrow> emits E (if c then m else n)"
  by simp

fun text_for :: "u32 \<Rightarrow> string \<Rightarrow> seat_effect \<Rightarrow> bool" where
  "text_for w text (Sent (Put_Text w' _ _ text')) \<longleftrightarrow> w' = w \<and> text' = text"
| "text_for w text _ \<longleftrightarrow> True"

lemma emits_serve: "emits (text_for (sre_requestor request) text) (serve_request env request owner t text)"
  unfolding serve_request_def notify_selection_def x_sync_def Let_def
  by (intro emits_intros) simp_all

lemma serve_request_text:
  assumes "serve_request env request owner t text s = (r, u)" and "no_text s"
    and "Sent (Put_Text w pr ty b) \<in> set (gr_trace u)"
  shows "w = sre_requestor request \<and> b = text \<and> gr_observer u = gr_observer s
    \<and> same_x_client env (tg_xid t) w = Inr True \<and> te_selection_owner env = Replied owner"
proof -
  obtain tr where "gr_trace u = gr_trace s @ tr" "list_all (text_for (sre_requestor request) text) tr"
    and same_obs: "gr_observer u = gr_observer s"
    using emits_serve [of request "text" env owner t, unfolded emits_def, THEN spec, of s] assms(1) by auto
  with assms(2,3) have w: "w = sre_requestor request" "b = text"
    by (auto simp: list_all_iff)
  have placed: "\<not> no_text u" using assms(3) unfolding list_all_iff by (metis is_text.simps(1))
  have client: "same_x_client env (tg_xid t) w = Inr True"
  proof (rule ccontr)
    assume other: "same_x_client env (tg_xid t) w \<noteq> Inr True"
    have "keeps no_text (st_bind (notify_selection env request X_NONE) (\<lambda>_.
        st_bind (x_sync env ''cannot refuse an out-of-scope selection requestor'') (\<lambda>_. st_return False)))"
      unfolding notify_selection_def x_sync_def by (intro keeps_intros) simp
    with assms(1,2) placed other w(1) show False
      by (cases "same_x_client env (tg_xid t) w")
        (auto simp: serve_request_def st_bind_unfold dest: keepsD)
  qed
  moreover have "te_selection_owner env = Replied owner"
    using assms(1,2) placed client w(1)
    by (auto simp: serve_request_def st_bind_unfold current_owner_def x_ask_def split: x_reply.splits if_splits)
  ultimately show ?thesis using w same_obs by simp
qed

text \<open>
  The evidence a delivery rests on: in that same grab the observer was refreshed and the request
  names a client of the fresh model, the keyboard focus is in that client's window, the requestor
  belongs to the same X client, and the selection is still owned by the transfer.
\<close>

definition delivery_evidence :: "transfer_env \<Rightarrow> TargetRequest \<Rightarrow> u32 \<Rightarrow> u32 \<Rightarrow> bool" where
  "delivery_evidence env request owner requestor \<longleftrightarrow> (\<exists>ob ob' xid focus.
    refresh (ge_sample (te_grab env)) ob = (Inr (), ob') \<and> names_window ob' request xid
    \<and> ge_focus (te_grab env) = Replied focus \<and> (parent_of (te_grab env))\<^sup>*\<^sup>* focus xid
    \<and> same_x_client env xid requestor = Inr True \<and> te_selection_owner env = Replied owner)"

lemma handle_text:
  assumes "in_section (handle_selection_request env sr owner request text p) ob = (r, ob', tr)"
    and "Sent (Put_Text w pr ty b) \<in> set tr"
  shows "w = sre_requestor sr \<and> b = text \<and> delivery_evidence env request owner w"
proof -
  define s where "s = \<lparr>gr_observer = ob, gr_trace = []\<rparr>"
  from assms(1) obtain t where grab: "handle_selection_request env sr owner request text p s = (r, t)"
    and t: "gr_trace t = tr"
    by (auto simp: in_section_def s_def Let_def split: prod.splits)
  have changed: "gr_trace t \<noteq> gr_trace s" using assms(2) t by (auto simp: s_def)
  from under_server_grab_run [OF grab [unfolded handle_selection_request_def] changed] obtain q where
    "st_bind (focused_target (te_grab env) request) (\<lambda>t. st_bind (check_seat (te_grab env) p) (\<lambda>ok.
      if \<not> ok then st_return False else serve_request env sr owner t text)) s = (q, t)" by blast
  then show ?thesis
  proof (cases rule: st_bind_cases)
    case (err e)
    have "keeps no_text (focused_target (te_grab env) request)" by (intro keeps_intros)
    from keepsD [OF this _ err(1)] assms(2) t show ?thesis
      by (auto simp: s_def list_all_iff)
  next
    case (ok a u)
    from ok(1) obtain focus where
      target: "refresh (ge_sample (te_grab env)) (gr_observer s) = (Inr (), gr_observer u)"
      "names_window (gr_observer u) request (tg_xid a)" "gr_trace u = gr_trace s"
      "ge_focus (te_grab env) = Replied focus" "(parent_of (te_grab env))\<^sup>*\<^sup>* focus (tg_xid a)"
      by (rule focused_target_sound)
    define v where "v = u\<lparr>gr_trace := gr_trace u @ [Gate_Read (ge_gate (te_grab env) (length (gr_trace u)))]\<rparr>"
    have "no_text v" using target(3) by (simp add: v_def s_def)
    moreover have "serve_request env sr owner a text v = (q, t) \<or> t = v"
      using ok(2) by (auto simp: st_bind_Inr [OF check_seat_run] v_def split: if_splits)
    ultimately have "serve_request env sr owner a text v = (q, t)" "no_text v"
      using assms(2) t by (auto simp: list_all_iff)
    from serve_request_text [OF this assms(2) [folded t]] target show ?thesis
      by (auto simp: delivery_evidence_def v_def)
  qed
qed

section \<open>All traces of a call\<close>

text \<open>One step of the inner loop: what it runs, and with which counters it goes on.\<close>

lemma drain_step:
  assumes "drain_events clipboard owner request txt bytes p (item # items) c ob = (d, ob', trs)"
  obtains (stop) "trs = []" "ob' = ob" "case d of Drain_Return (Inr reply) \<Rightarrow>
      reply = transfer_reply request bytes Tt_Interrupted | Drain_Return (Inl _) \<Rightarrow> True | Drain_Done _ \<Rightarrow> False"
  | (skip) c' where "drain_events clipboard owner request txt bytes p items c' ob = (d, ob', trs)"
      "ct_last_delivery c' = ct_last_delivery c"
  | (fail) sr env now tr e where "item = Poll_Event (Xev_SelectionRequest sr) env now"
      "in_section (handle_selection_request env sr owner request txt p) ob = (Inl e, ob', tr)"
      "trs = [tr]" "d = Drain_Return (Inl e)"
  | (serve) sr env now tr ob1 delivered c' trs' where "item = Poll_Event (Xev_SelectionRequest sr) env now"
      "in_section (handle_selection_request env sr owner request txt p) ob = (Inr delivered, ob1, tr)"
      "drain_events clipboard owner request txt bytes p items c' ob1 = (d, ob', trs')" "trs = tr # trs'"
      "ct_last_delivery c' = (if delivered then Some now else ct_last_delivery c)"
proof (cases item)
  case Poll_Failed
  with assms stop show ?thesis by auto
next
  case (Poll_Event event env now)
  define c1 where "c1 = c\<lparr>ct_events := ct_events c + 1\<rparr>"
  show ?thesis
  proof (cases "\<exists>sr. event = Xev_SelectionRequest sr \<and> sre_owner sr = owner \<and> sre_selection sr = clipboard
      \<and> ct_events c1 \<le> MAX_TRANSFER_EVENTS \<and> ct_requests c1 + 1 \<le> MAX_SELECTION_REQUESTS")
    case False
    then have "trs = [] \<and> ob' = ob \<and> d = Drain_Return (Inr (transfer_reply request bytes Tt_Interrupted))
      \<or> drain_events clipboard owner request txt bytes p items c1 ob = (d, ob', trs)"
      using assms Poll_Event by (cases event) (auto simp: Let_def c1_def split: if_splits)
    with stop skip show ?thesis by (auto simp: c1_def)
  next
    case True
    then obtain sr where sr: "event = Xev_SelectionRequest sr" "sre_owner sr = owner"
      "sre_selection sr = clipboard" "\<not> ct_events c1 > MAX_TRANSFER_EVENTS"
      "\<not> ct_requests c1 + 1 > MAX_SELECTION_REQUESTS" by auto
    obtain r ob1 tr where run: "in_section (handle_selection_request env sr owner request txt p) ob = (r, ob1, tr)"
      by (metis prod_cases3)
    show ?thesis
    proof (cases r)
      case (Inl e)
      with assms Poll_Event sr run have "d = Drain_Return (Inl e)" "ob' = ob1" "trs = [tr]"
        by (auto simp: c1_def)
      with fail Poll_Event sr run Inl show ?thesis by blast
    next
      case (Inr delivered)
      define c2 where "c2 = (if delivered then c1\<lparr>ct_requests := ct_requests c1 + 1, ct_last_delivery := Some now\<rparr>
        else c1\<lparr>ct_requests := ct_requests c1 + 1\<rparr>)"
      obtain trs' where "drain_events clipboard owner request txt bytes p items c2 ob1 = (d, ob', trs')"
        "trs = tr # trs'"
        using assms Poll_Event sr run Inr by (cases delivered) (auto simp: c1_def c2_def split: prod.splits)
      with serve Poll_Event sr run Inr show ?thesis by (auto simp: c1_def c2_def)
    qed
  qed
qed

lemma drain_traces:
  "drain_events clipboard owner request txt bytes p items c ob = (d, ob', trs) \<Longrightarrow> tr \<in> set trs \<Longrightarrow>
    \<exists>sr env now ob0 r ob1. Poll_Event (Xev_SelectionRequest sr) env now \<in> set items
      \<and> in_section (handle_selection_request env sr owner request txt p) ob0 = (r, ob1, tr)"
proof (induction items arbitrary: c ob trs)
  case (Cons item items)
  from Cons.prems(1) show ?case
  proof (cases rule: drain_step)
    case stop
    with Cons.prems(2) show ?thesis by simp
  next
    case (skip c')
    from Cons.IH [OF skip(1) Cons.prems(2)] show ?thesis by (meson list.set_intros(2))
  next
    case (fail sr env now tr' e)
    with Cons.prems(2) show ?thesis by (metis list.set_intros(1) set_ConsD empty_iff empty_set)
  next
    case (serve sr env now tr' ob1 delivered c' trs')
    with Cons.prems(2) Cons.IH [OF serve(3)] show ?thesis
      by (metis list.set_intros(1,2) set_ConsD)
  qed
qed simp

lemma handle_delivered:
  assumes "in_section (handle_selection_request env sr owner request txt p) ob = (Inr True, ob', tr)"
  shows "\<exists>w pr ty. Sent (Put_Text w pr ty txt) \<in> set tr"
proof -
  define s where "s = \<lparr>gr_observer = ob, gr_trace = []\<rparr>"
  from assms obtain t where grab: "handle_selection_request env sr owner request txt p s = (Inr True, t)"
    and t: "gr_trace t = tr"
    by (auto simp: in_section_def s_def Let_def split: prod.splits)
  from under_server_grab_ok [OF grab [unfolded handle_selection_request_def]] obtain a v where
    "serve_request env sr owner a txt v = (Inr True, t)"
    by (auto simp: st_bind_eq_Inr split: if_splits)
  then have "\<exists>w pr ty. Sent (Put_Text w pr ty txt) \<in> set (gr_trace t)"
    by (auto simp: serve_request_def st_bind_eq_Inr Let_def notify_selection_def x_sync_def x_sent_def
        split: if_splits)
  with t show ?thesis by simp
qed

lemma drain_result:
  "drain_events clipboard owner request txt bytes p items c ob = (d, ob', trs) \<Longrightarrow>
    (case d of Drain_Return (Inl _) \<Rightarrow> True
     | Drain_Return (Inr reply) \<Rightarrow> reply = transfer_reply request bytes Tt_Interrupted
     | Drain_Done c' \<Rightarrow> ct_last_delivery c' \<noteq> None \<longrightarrow> ct_last_delivery c \<noteq> None
         \<or> (\<exists>tr\<in>set trs. \<exists>w pr ty. Sent (Put_Text w pr ty txt) \<in> set tr))"
proof (induction items arbitrary: c ob trs)
  case Nil
  then show ?case by auto
next
  case (Cons item items)
  from Cons.prems show ?case
  proof (cases rule: drain_step)
    case stop
    then show ?thesis by (auto split: drained.splits sum.splits)
  next
    case (skip c')
    with Cons.IH [OF skip(1)] show ?thesis by (simp split: drained.splits sum.splits)
  next
    case (fail sr env now tr' e)
    then show ?thesis by simp
  next
    case (serve sr env now tr' ob1 delivered c' trs')
    with Cons.IH [OF serve(3)] handle_delivered [of env sr owner request "txt" p ob ob1 tr'] show ?thesis
      by (cases delivered) (auto split: drained.splits sum.splits)
  qed
qed

text \<open>A round that does not return goes on with the counters of its inner loop.\<close>

lemma wait_step:
  assumes "wait_rounds clipboard deadline owner request txt bytes p (ro # ros) c ob = (r, ob', trs)"
  obtains d ob1 trs1 where
    "drain_events clipboard owner request txt bytes p (tro_events ro) c ob = (d, ob1, trs1)"
    "(\<exists>q. d = Drain_Return q \<and> r = Some q \<and> trs = trs1 \<and> ob' = ob1)
     \<or> (\<exists>c' ev ob2 tr. d = Drain_Done c'
        \<and> in_section (evidence_section (tro_evidence ro) owner request p) ob1 = (ev, ob2, tr)
        \<and> (trs = trs1 @ [tr] \<and> (\<exists>e. r = Some (Inl e))
         \<or> trs = trs1 @ [tr] \<and> r = Some (Inr (transfer_reply request bytes Tt_Interrupted))
         \<or> trs = trs1 @ [tr] \<and> r = Some (Inr (transfer_reply request bytes Tt_Offered))
         \<or> trs = trs1 @ [tr] \<and> ct_last_delivery c' \<noteq> None \<and> r = Some (Inr \<lparr>ttr_target = request,
             ttr_requested_bytes = bytes, ttr_delivered_bytes = bytes, ttr_terminal = Tt_Delivered\<rparr>)
         \<or> tro_now ro < deadline \<and> (\<exists>more. trs = (trs1 @ [tr]) @ more
             \<and> wait_rounds clipboard deadline owner request txt bytes p ros c' ob2 = (r, ob', more))))"
proof -
  obtain d ob1 trs1 where drain:
    "drain_events clipboard owner request txt bytes p (tro_events ro) c ob = (d, ob1, trs1)"
    by (metis prod_cases3)
  show ?thesis
  proof (cases d)
    case (Drain_Return q)
    with assms drain that show ?thesis by auto
  next
    case (Drain_Done c')
    obtain ev ob2 tr where ev: "in_section (evidence_section (tro_evidence ro) owner request p) ob1 = (ev, ob2, tr)"
      by (metis prod_cases3)
    show ?thesis
      by (rule that [OF drain]) (use assms drain Drain_Done ev in
        \<open>auto simp: Let_def split: if_splits prod.splits option.splits\<close>)
  qed
qed

lemma wait_traces:
  "wait_rounds clipboard deadline owner request txt bytes p ros c ob = (r, ob', trs) \<Longrightarrow> tr \<in> set trs \<Longrightarrow>
    (\<exists>ro\<in>set ros. \<exists>sr env now ob0 q ob1. Poll_Event (Xev_SelectionRequest sr) env now \<in> set (tro_events ro)
      \<and> in_section (handle_selection_request env sr owner request txt p) ob0 = (q, ob1, tr))
    \<or> (\<exists>env ob0 q ob1. in_section (evidence_section env owner request p) ob0 = (q, ob1, tr))"
proof (induction ros arbitrary: c ob trs)
  case (Cons ro ros)
  from Cons.prems(1) obtain d ob1 trs1 where
    drain: "drain_events clipboard owner request txt bytes p (tro_events ro) c ob = (d, ob1, trs1)"
    and rest: "trs = trs1 \<or> (\<exists>c' ev ob2 tr0 more.
      in_section (evidence_section (tro_evidence ro) owner request p) ob1 = (ev, ob2, tr0)
      \<and> trs = (trs1 @ [tr0]) @ more
      \<and> (more = [] \<or> wait_rounds clipboard deadline owner request txt bytes p ros c' ob2 = (r, ob', more)))"
    by (elim wait_step) blast+
  from rest Cons.prems(2) consider "tr \<in> set trs1"
    | env ob0 q ob1 where "in_section (evidence_section env owner request p) ob0 = (q, ob1, tr)"
    | c' ob2 more where "wait_rounds clipboard deadline owner request txt bytes p ros c' ob2 = (r, ob', more)"
      "tr \<in> set more"
    by (auto split: if_splits)
  then show ?case
  proof cases
    case 1
    from drain_traces [OF drain this] show ?thesis by auto
  next
    case 2
    then show ?thesis by blast
  next
    case 3
    from Cons.IH [OF 3] show ?thesis by auto
  qed
qed simp

lemma wait_returns:
  "\<exists>ro\<in>set ros. deadline \<le> tro_now ro \<Longrightarrow>
    fst (wait_rounds clipboard deadline owner request txt bytes p ros c ob) \<noteq> None"
proof (induction ros arbitrary: c ob)
  case (Cons ro ros)
  obtain r ob' trs where run: "wait_rounds clipboard deadline owner request txt bytes p (ro # ros) c ob = (r, ob', trs)"
    by (metis prod_cases3)
  then have "r \<noteq> None \<or> tro_now ro < deadline \<and> (\<exists>c' ob2 more.
      wait_rounds clipboard deadline owner request txt bytes p ros c' ob2 = (r, ob', more))"
    by (elim wait_step) blast
  with Cons run show ?case by (metis fst_conv linorder_not_le set_ConsD)
qed simp

lemma wait_honest:
  "wait_rounds clipboard deadline owner request txt bytes p ros c ob = (Some (Inr reply), ob', trs) \<Longrightarrow>
    ct_last_delivery c = None \<or> (\<exists>w pr ty. Sent (Put_Text w pr ty txt) \<in> earlier) \<Longrightarrow>
    reply = transfer_reply request bytes Tt_Interrupted \<or> reply = transfer_reply request bytes Tt_Offered
    \<or> reply = \<lparr>ttr_target = request, ttr_requested_bytes = bytes, ttr_delivered_bytes = bytes,
        ttr_terminal = Tt_Delivered\<rparr>
      \<and> (\<exists>w pr ty. Sent (Put_Text w pr ty txt) \<in> earlier \<union> \<Union> (set ` set trs))"
proof (induction ros arbitrary: c ob trs earlier)
  case (Cons ro ros)
  from Cons.prems(1) obtain d ob1 trs1 where
    drain: "drain_events clipboard owner request txt bytes p (tro_events ro) c ob = (d, ob1, trs1)"
    and step: "(d = Drain_Return (Inr reply))
     \<or> (\<exists>c'. d = Drain_Done c' \<and> (reply = transfer_reply request bytes Tt_Interrupted
         \<or> reply = transfer_reply request bytes Tt_Offered
         \<or> (set trs1 \<subseteq> set trs \<and> ct_last_delivery c' \<noteq> None \<and> reply = \<lparr>ttr_target = request,
             ttr_requested_bytes = bytes, ttr_delivered_bytes = bytes, ttr_terminal = Tt_Delivered\<rparr>)
         \<or> (\<exists>tr ob2 more. trs = (trs1 @ [tr]) @ more
             \<and> wait_rounds clipboard deadline owner request txt bytes p ros c' ob2 = (Some (Inr reply), ob', more))))"
    by (elim wait_step; elim disjE exE conjE; fastforce)
  let ?text = "\<lambda>E. \<exists>w pr ty. Sent (Put_Text w pr ty txt) \<in> E"
  have inner: "ct_last_delivery c' = None \<or> ?text (earlier \<union> \<Union> (set ` set trs1))" if "d = Drain_Done c'" for c'
    using drain_result [OF drain] Cons.prems(2) that by (auto split: option.splits)
  from step consider (ret) "d = Drain_Return (Inr reply)"
    | (plain) "reply = transfer_reply request bytes Tt_Interrupted \<or> reply = transfer_reply request bytes Tt_Offered"
    | (sent) c' where "d = Drain_Done c'" "set trs1 \<subseteq> set trs" "ct_last_delivery c' \<noteq> None"
        "reply = \<lparr>ttr_target = request, ttr_requested_bytes = bytes, ttr_delivered_bytes = bytes,
          ttr_terminal = Tt_Delivered\<rparr>"
    | (more) c' tr ob2 more where "d = Drain_Done c'" "trs = (trs1 @ [tr]) @ more"
        "wait_rounds clipboard deadline owner request txt bytes p ros c' ob2 = (Some (Inr reply), ob', more)"
    by blast
  then show ?case
  proof cases
    case ret
    with drain_result [OF drain] show ?thesis by simp
  next
    case plain
    then show ?thesis by blast
  next
    case sent
    with inner [OF sent(1)] show ?thesis by blast
  next
    case more
    have sub: "(earlier \<union> \<Union> (set ` set trs1)) \<union> \<Union> (set ` set more) \<subseteq> earlier \<union> \<Union> (set ` set trs)"
      using more(2) by auto
    have mono: "?text E \<Longrightarrow> E \<subseteq> F \<Longrightarrow> ?text F" for E F by blast
    from Cons.IH [OF more(3) inner [OF more(1)]] show ?thesis
      using mono [OF _ sub] by (elim disjE conjE) simp_all
  qed
qed simp

lemma text_insert_cases:
  assumes "text_insert env request p ob = (r, ob', trs, d)"
  obtains (early) e where "r = Some (Inl e)" "trs = []"
      "\<forall>owner. length (tir_text request) < 2 ^ 32 \<longrightarrow> create_transfer_owner env \<noteq> Inr owner"
    | (ran) owner offered ob1 tr result ob2 more where "create_transfer_owner env = Inr owner"
      "in_section (offer_section (ti_offer env) owner (tir_target request) p) ob = (offered, ob1, tr)"
      "trs = tr # more"
      "(result, ob2, more) = (case offered of
           Inr True \<Rightarrow> wait_for_transfer (ti_deadline env) (ti_rounds env) owner (tir_target request)
             (tir_text request) (of_nat (length (tir_text request))) p ob1
         | Inr False \<Rightarrow> (Some (Inr (transfer_reply (tir_target request)
             (of_nat (length (tir_text request))) Tt_Interrupted)), ob1, [])
         | Inl e \<Rightarrow> (Some (Inl e), ob1, []))"
      "result = None \<longrightarrow> r = None"
      "\<forall>q. result = Some q \<longrightarrow> d = snd (release_transfer_owner (ti_cleanup env) owner)
        \<and> (\<exists>res. r = Some res \<and> (\<forall>reply. res = Inr reply \<longrightarrow> q = Inr reply))"
proof (cases "create_transfer_owner env")
  case (Inl e)
  with assms early show ?thesis
    by (auto simp: text_insert_def Let_def split: if_splits)
next
  case (Inr owner)
  show ?thesis
  proof (cases "length (tir_text request) < 2 ^ 32")
    case False
    with assms early show ?thesis by (auto simp: text_insert_def Let_def)
  next
    case True
    obtain offered ob1 tr where offer:
      "in_section (offer_section (ti_offer env) owner (tir_target request) p) ob = (offered, ob1, tr)"
      by (metis prod_cases3)
    obtain result ob2 more where wait: "(result, ob2, more) = (case offered of
           Inr True \<Rightarrow> wait_for_transfer (ti_deadline env) (ti_rounds env) owner (tir_target request)
             (tir_text request) (of_nat (length (tir_text request))) p ob1
         | Inr False \<Rightarrow> (Some (Inr (transfer_reply (tir_target request)
             (of_nat (length (tir_text request))) Tt_Interrupted)), ob1, [])
         | Inl e \<Rightarrow> (Some (Inl e), ob1, []))"
      by (metis prod_cases3)
    have run: "text_insert env request p ob = (case result of
               None \<Rightarrow> (None, ob2, tr # more, False)
             | Some result \<Rightarrow>
                 (let (cleanup, destroyed) = release_transfer_owner (ti_cleanup env) owner in
                  (Some (case (result, cleanup) of
                     (Inr reply, Inr _) \<Rightarrow> Inr reply
                   | (Inl e, _) \<Rightarrow> Inl e
                   | (Inr _, Inl e) \<Rightarrow> Inl e), ob2, tr # more, destroyed)))"
      unfolding text_insert_def Let_def using True Inr offer wait [symmetric] by simp
    show ?thesis
      by (rule ran [OF Inr offer _ wait])
        (use assms run in \<open>auto split: option.splits prod.splits sum.splits\<close>)
  qed
qed

text \<open>
  C5. Inserted text reaches only the target: every grabbed section of a text insertion acts on other
  clients only while its latest reading of the gate accepted the permit and leaves no key pressed;
  and wherever text is written, it is the requested text, written in answer to a selection request
  served in a grab in which the target was fresh and focused, the requestor belonged to the target's
  own X client, and the selection was owned by this transfer.
\<close>

theorem text_reaches_only_target:
  assumes "text_insert env request p ob = (r, ob', trs, d)" and "tr \<in> set trs"
  shows "guarded p False tr \<and> held_down tr = {}
    \<and> (\<forall>w pr ty b. Sent (Put_Text w pr ty b) \<in> set tr \<longrightarrow> b = tir_text request
      \<and> (\<exists>ro\<in>set (ti_rounds env). \<exists>sr tenv now owner.
          Poll_Event (Xev_SelectionRequest sr) tenv now \<in> set (tro_events ro) \<and> ti_generate env = Some owner
          \<and> delivery_evidence tenv (tir_target request) owner w))"
  using assms(1)
proof (cases rule: text_insert_cases)
  case early
  with assms(2) show ?thesis by simp
next
  case (ran owner offered ob1 tr0 result ob2 more)
  have owner: "ti_generate env = Some owner"
    using ran(1) by (auto simp: create_transfer_owner_def res_simps)
  have handled: ?thesis if "in_section (handle_selection_request tenv sr owner (tir_target request)
      (tir_text request) p) ob0 = (q, obq, tr)" "ro \<in> set (ti_rounds env)"
      "Poll_Event (Xev_SelectionRequest sr) tenv now \<in> set (tro_events ro)" for tenv sr ob0 q obq ro now
    using in_section_guarded [OF handle_safe that(1)] in_section_up [OF transfer_sections_up(1) that(1)]
      handle_text [OF that(1)] that(2,3) owner by blast
  have silent: ?thesis if "keeps (safe p) m" "keeps all_up m" "keeps no_text m"
      "in_section m ob0 = (q, obq, tr)" for m :: "bool grabbed_op" and ob0 q obq
  proof -
    have "no_text \<lparr>gr_observer = obq, gr_trace = tr\<rparr>"
      using in_section_keeps [OF that(3) _ that(4)] by simp
    then have "\<forall>w pr ty b. Sent (Put_Text w pr ty b) \<notin> set tr"
      by (force simp: list_all_iff)
    with in_section_guarded [OF that(1,4)] in_section_up [OF that(2,4)] show ?thesis by blast
  qed
  from assms(2) ran(3) consider "tr = tr0" | "tr \<in> set more" by auto
  then show ?thesis
  proof cases
    case 1
    from silent [OF offer_safe transfer_sections_up(3) sections_no_text(2) ran(2) [folded 1]] show ?thesis .
  next
    case 2
    with ran(4) obtain deadline where
      "wait_rounds (at_clipboard (ob_atoms ob1)) deadline owner (tir_target request) (tir_text request)
        (of_nat (length (tir_text request))) p (ti_rounds env)
        \<lparr>ct_events = 0, ct_requests = 0, ct_last_delivery = None\<rparr> ob1 = (result, ob2, more)"
      by (auto simp: wait_for_transfer_def split: sum.splits bool.splits option.splits)
    from wait_traces [OF this 2] show ?thesis
      by (elim disjE bexE exE conjE)
        (rule handled, assumption+, rule silent [OF evidence_safe transfer_sections_up(2) sections_no_text(1)], assumption)
  qed
qed

text \<open>
  C26. A text insertion always ends and reports the truth: once a round of waiting is past the
  deadline the call has returned and the cleanup of its owner window has run; a reply validates on
  the wire and names the requested target; and it says ``delivered'' only if the whole requested text
  was written to a requestor.
\<close>

theorem text_insertion_ends_honestly:
  assumes "\<forall>deadline. ti_deadline env = Some deadline \<longrightarrow> (\<exists>ro\<in>set (ti_rounds env). deadline \<le> tro_now ro)"
    and "tir_text request \<noteq> []" and "length (tir_text request) \<le> MAX_TEXT_TRANSFER_BYTES"
  shows "\<exists>res ob' trs d. text_insert env request p ob = (Some res, ob', trs, d)
    \<and> (\<forall>owner. create_transfer_owner env = Inr owner \<longrightarrow>
        d = snd (release_transfer_owner (ti_cleanup env) owner))
    \<and> (\<forall>reply. res = Inr reply \<longrightarrow> validate_TextTransferReply reply = Inr ()
        \<and> ttr_target reply = tir_target request
        \<and> (ttr_terminal reply = Tt_Delivered \<longrightarrow>
            (\<exists>tr\<in>set trs. \<exists>w pr ty. Sent (Put_Text w pr ty (tir_text request)) \<in> set tr)))"
proof -
  let ?n = "of_nat (length (tir_text request)) :: u32"
  have n: "unat ?n = length (tir_text request)"
    using assms(3) by (simp add: MAX_TEXT_TRANSFER_BYTES_def unsigned_of_nat take_bit_nat_eq_self)
  have small: "length (tir_text request) < 2 ^ 32"
    using assms(3) by (simp add: MAX_TEXT_TRANSFER_BYTES_def)
  have nonzero: "?n \<noteq> 0"
    using n assms(2) by (metis length_0_conv unsigned_0)
  have valid: "validate_TextTransferReply reply = Inr ()"
    if "reply = transfer_reply (tir_target request) ?n Tt_Interrupted
      \<or> reply = transfer_reply (tir_target request) ?n Tt_Offered
      \<or> reply = \<lparr>ttr_target = tir_target request, ttr_requested_bytes = ?n, ttr_delivered_bytes = ?n,
          ttr_terminal = Tt_Delivered\<rparr>" for reply
    using that nonzero n assms(3)
    by (auto simp: validate_TextTransferReply_def transfer_reply_def validate_TargetRequest_def seq_v_def
        ensure_def)
  obtain r ob' trs d where run: "text_insert env request p ob = (r, ob', trs, d)"
    by (metis prod_cases4)
  then show ?thesis
  proof (cases rule: text_insert_cases)
    case (early e)
    with run small show ?thesis by auto
  next
    case (ran owner offered ob1 tr0 result ob2 more)
    have returned: "result \<noteq> None"
      using ran(4) assms(1) wait_returns
      by (auto simp: wait_for_transfer_def split: sum.splits bool.splits option.splits)
        (metis fst_conv)
    have honest: "reply = transfer_reply (tir_target request) ?n Tt_Interrupted
      \<or> reply = transfer_reply (tir_target request) ?n Tt_Offered
      \<or> reply = \<lparr>ttr_target = tir_target request, ttr_requested_bytes = ?n, ttr_delivered_bytes = ?n,
          ttr_terminal = Tt_Delivered\<rparr>
        \<and> (\<exists>tr\<in>set more. \<exists>w pr ty. Sent (Put_Text w pr ty (tir_text request)) \<in> set tr)"
      if "result = Some (Inr reply)" for reply
    proof (cases "offered = Inr True")
      case False
      with ran(4) that show ?thesis by (auto split: sum.splits bool.splits)
    next
      case True
      with ran(4) that obtain deadline where
        "wait_rounds (at_clipboard (ob_atoms ob1)) deadline owner (tir_target request) (tir_text request)
          ?n p (ti_rounds env) \<lparr>ct_events = 0, ct_requests = 0, ct_last_delivery = None\<rparr> ob1
          = (Some (Inr reply), ob2, more)"
        by (auto simp: wait_for_transfer_def split: option.splits)
      from wait_honest [OF this, of "{}"] show ?thesis by auto
    qed
    obtain q where q: "result = Some q" using returned by blast
    with ran(6) obtain res where res: "r = Some res" "\<forall>reply. res = Inr reply \<longrightarrow> q = Inr reply"
      "d = snd (release_transfer_owner (ti_cleanup env) owner)" by blast
    have "validate_TextTransferReply reply = Inr () \<and> ttr_target reply = tir_target request
        \<and> (ttr_terminal reply = Tt_Delivered \<longrightarrow>
            (\<exists>tr\<in>set trs. \<exists>w pr ty. Sent (Put_Text w pr ty (tir_text request)) \<in> set tr))"
      if "res = Inr reply" for reply
      using honest [of reply] valid [of reply] res(2) that q ran(3)
      by (auto simp: transfer_reply_def)
    with run res ran(1) show ?thesis by auto
  qed
qed

section \<open>A concrete insertion\<close>

text \<open>Two bytes are pasted into the demonstration client, whose own window 60 asks for them.\<close>

definition demo_xkb_paste :: xkb_server where
  "demo_xkb_paste = demo_xkb\<lparr>xk_map := Replied \<lparr>gm_min_key_code = 8, gm_max_key_code = 9,
      gm_first_type = 0, gm_n_types = 1, gm_total_types = 1, gm_first_key_sym = 8, gm_n_key_syms = 2,
      gm_types_rtrn = Some (kb_types demo_keyboard),
      gm_syms_rtrn = Some [
        \<lparr>ks_kt_index = [0, 0, 0, 0], ks_group_info = 1, ks_width = 1, ks_syms = [XK_CONTROL_L]\<rparr>,
        \<lparr>ks_kt_index = [0, 0, 0, 0], ks_group_info = 1, ks_width = 2, ks_syms = [120, 118]\<rparr>],
      gm_modmap_rtrn = Some (kb_modifier_map demo_keyboard)\<rparr>\<rparr>"

definition demo_transfer :: transfer_env where
  "demo_transfer = \<lparr>te_grab = demo_grab\<lparr>ge_xkb := demo_xkb_paste\<rparr>, te_claim = Replied (),
    te_selection_owner = Replied 77, te_res_version = Replied (1, 2),
    te_client_ids = (\<lambda>_. Replied [\<lparr>civ_xid_mask = True, civ_empty = True, civ_client = 5\<rparr>]),
    te_change_property = Replied (), te_notify = Replied (), te_sync = True\<rparr>"

definition demo_selection :: SelectionRequestEvent where
  "demo_selection = \<lparr>sre_owner = 77, sre_requestor = 60, sre_selection = 122, sre_target = 121,
    sre_property = 200\<rparr>"

definition demo_text_env :: text_env where
  "demo_text_env = \<lparr>ti_generate = Some 77, ti_create = Replied (), ti_offer = demo_transfer,
    ti_deadline = Some 2000,
    ti_rounds = [\<lparr>tro_events = [Poll_Event (Xev_SelectionRequest demo_selection) demo_transfer 100],
      tro_evidence = demo_transfer, tro_now = 2100, tro_poll = True\<rparr>],
    ti_cleanup = \<lparr>ce_grab = Replied (), ce_owner = Replied 77, ce_disown = Replied (),
      ce_destroy = Replied (), ce_ungrab = Replied (), ce_sync = True\<rparr>\<rparr>"

definition demo_text_request :: TextInsertRequest where
  "demo_text_request = \<lparr>tir_target = \<lparr>tgt_client = 1, tgt_generation = 0\<rparr>, tir_text = ''hi''\<rparr>"

theorem text_insertion_ends_honestly_witness:
  "\<exists>res ob' trs d. text_insert demo_text_env demo_text_request 1 demo_subscribed = (Some res, ob', trs, d)"
  using text_insertion_ends_honestly [of demo_text_env demo_text_request 1 demo_subscribed]
  by (auto simp: demo_text_env_def demo_text_request_def MAX_TEXT_TRANSFER_BYTES_def)

lemma demo_paste: "resolve_key demo_xkb_paste Key_V [Mod_Control]
    = Inr \<lparr>stroke_keycode = 9, stroke_modifiers = [8]\<rparr>"
  by code_simp

lemma demo_transfer_fields:
  "ge_grab (te_grab demo_transfer) = Replied ()" "ge_ungrab (te_grab demo_transfer) = Replied ()"
  "ge_gate (te_grab demo_transfer) = (\<lambda>_. 1)" "ge_fake (te_grab demo_transfer) = (\<lambda>_. Fake_Done)"
  "ge_xkb (te_grab demo_transfer) = demo_xkb_paste" "te_selection_owner demo_transfer = Replied 77"
  "te_claim demo_transfer = Replied ()" "te_change_property demo_transfer = Replied ()"
  "te_notify demo_transfer = Replied ()" "te_sync demo_transfer = True"
  by (simp_all add: demo_transfer_def demo_grab_def)

lemma demo_identity: "require_xres_client_identity demo_transfer w = Inr 5"
  by (simp add: require_xres_client_identity_def demo_transfer_def x_ask_def ok_or_def)

lemma demo_transfer_target: "focused_target (te_grab demo_transfer) \<lparr>tgt_client = 1, tgt_generation = 0\<rparr>
      \<lparr>gr_observer = demo_subscribed, gr_trace = tr\<rparr>
    = (Inr \<lparr>tg_id = 1, tg_xid = 50, tg_frame = None, tg_states = [], tg_actions = []\<rparr>,
       \<lparr>gr_observer = demo_subscribed, gr_trace = tr\<rparr>)"
proof -
  have fresh: "fresh_target (te_grab demo_transfer) = fresh_target demo_grab"
    by (simp add: fresh_target_def demo_transfer_def fun_eq_iff)
  show ?thesis
    by (simp add: focused_target_def st_bind_def fresh demo_fresh_target)
      (simp add: demo_transfer_def demo_grab_def require_focus_owned_by_def x_ask_def X_NONE_def
        POINTER_ROOT_FOCUS_def MAX_WINDOW_ANCESTORS_def walk_self)
qed

lemma demo_subscribed_atoms [simp]: "ob_atoms demo_subscribed = demo_atoms"
  by (simp add: demo_subscribed_def demo_observer_def Observer_connect_def)

lemma demo_served: "in_section (handle_selection_request demo_transfer demo_selection 77
      \<lparr>tgt_client = 1, tgt_generation = 0\<rparr> ''hi'' 1) demo_subscribed
    = (Inr True, demo_subscribed, [Gate_Read 1, Sent (Put_Text 60 200 121 ''hi''), Sent (Notify 60 200)])"
  by (simp add: in_section_def handle_selection_request_def under_server_grab_def st_bind_def st_run
      demo_transfer_target demo_transfer_fields check_seat_run x_ask_def demo_accepts serve_request_def
      same_x_client_def demo_identity current_owner_def demo_selection_def demo_atoms_def X_NONE_def
      x_sent_def notify_selection_def x_sync_def ensure_def)

lemma demo_evidence: "in_section (evidence_section demo_transfer 77 \<lparr>tgt_client = 1, tgt_generation = 0\<rparr> 1)
      demo_subscribed = (Inr True, demo_subscribed, [Gate_Read 1])"
  by (simp add: in_section_def evidence_section_def under_server_grab_def st_bind_def st_run
      demo_transfer_target demo_transfer_fields check_seat_run x_ask_def demo_accepts current_owner_def)

lemma demo_offer: "\<exists>tr. in_section (offer_section demo_transfer 77 \<lparr>tgt_client = 1, tgt_generation = 0\<rparr> 1)
      demo_subscribed = (Inr True, demo_subscribed, tr)"
  by (simp add: in_section_def offer_section_def under_server_grab_def st_bind_def st_run
      demo_transfer_target demo_transfer_fields check_seat_run x_ask_def demo_accepts demo_identity
      claim_transfer_selection_def x_sent_def current_owner_def demo_paste type_key_def fake_input_def
      xtest_fake_input_def on_error_def)

lemma demo_text_run: "\<exists>tr r d. text_insert demo_text_env demo_text_request 1 demo_subscribed
    = (r, demo_subscribed, [tr, [Gate_Read 1, Sent (Put_Text 60 200 121 ''hi''), Sent (Notify 60 200)],
        [Gate_Read 1]], d)"
proof -
  have clipboard: "at_clipboard demo_atoms = 122" by (simp add: demo_atoms_def)
  have selection: "sre_owner demo_selection = 77" "sre_selection demo_selection = 122"
    by (simp_all add: demo_selection_def)
  obtain tr where "in_section (offer_section demo_transfer 77 \<lparr>tgt_client = 1, tgt_generation = 0\<rparr> 1)
      demo_subscribed = (Inr True, demo_subscribed, tr)"
    using demo_offer by blast
  then show ?thesis
    by (simp add: text_insert_def demo_text_env_def demo_text_request_def create_transfer_owner_def
        ok_or_def x_ask_def wait_for_transfer_def clipboard selection demo_served demo_evidence
        MAX_TRANSFER_EVENTS_def MAX_SELECTION_REQUESTS_def Let_def TRANSFER_SETTLE_WAIT_def
        release_transfer_owner_def ensure_def)
      (rule exI, rule TrueI)
qed

theorem text_reaches_only_target_witness:
  "delivery_evidence demo_transfer \<lparr>tgt_client = 1, tgt_generation = 0\<rparr> 77 60"
proof -
  obtain tr r d where run: "text_insert demo_text_env demo_text_request 1 demo_subscribed
    = (r, demo_subscribed, [tr, [Gate_Read 1, Sent (Put_Text 60 200 121 ''hi''), Sent (Notify 60 200)],
        [Gate_Read 1]], d)"
    using demo_text_run by blast
  show ?thesis
    using text_reaches_only_target [OF run,
        of "[Gate_Read 1, Sent (Put_Text 60 200 121 ''hi''), Sent (Notify 60 200)]"]
    by (simp add: demo_text_env_def demo_text_request_def)
qed

end
