(* ===== verification/Pixel_Capture.thy ===== *)
theory Pixel_Capture
  imports Observer_Input
begin

text \<open>
  Capture of a client's off-screen pixels (\<^verbatim>\<open>agent-seat-x11/src/observer/capture.rs\<close>): under a grab the
  target is checked and its named pixmap read; the Z-pixmap image is then converted to RGB and
  encoded. Two operations of the conversion panic on bad arguments in Rust (dividing by a zero pad,
  splitting by a zero stride, slicing out of range); the conversion returns \<open>None\<close> there, and the
  theorems show that no capture reaches such a call. The PNG encoder and the base64 engine are
  parameters.
\<close>

unbundle bit_operations_syntax

section \<open>Pixel components\<close>

definition trailing_zeros :: "u32 \<Rightarrow> nat" where
  "trailing_zeros w = length (takeWhile (\<lambda>i. \<not> bit w i) [0..<32])"

definition is_power_of_two :: "u32 \<Rightarrow> bool" where
  "is_power_of_two w \<longleftrightarrow> count_ones w = 1"

definition component :: "u32 \<Rightarrow> u32 \<Rightarrow> Failure + u8" where
  "component pixel cmask =
    (if cmask = 0 then Inl (Failure_unsupported ''capture visual has an empty color mask'')
     else
       (let shift = trailing_zeros cmask; maximum = drop_bit shift cmask in
        if \<not> (case checked_add maximum 1 of None \<Rightarrow> False | Some n \<Rightarrow> is_power_of_two n)
        then Inl (Failure_unsupported ''capture visual has a noncontiguous color mask'')
        else
          (let value = drop_bit shift (pixel AND cmask);
             scaled = (ucast value * 255 + ucast (maximum div 2)) div (ucast maximum :: u64) in
           if unat scaled < 256 then Inr (ucast scaled)
           else Inl (Failure_unsupported ''capture color conversion overflowed''))))"

definition pixel_value :: "byte list \<Rightarrow> bool \<Rightarrow> u32" where
  "pixel_value bytes lsb_first =
    (if lsb_first
     then fold (\<lambda>(index, byte) value. value OR push_bit (index * 8) (ucast byte)) (enumerate 0 bytes) 0
     else fold (\<lambda>byte value. push_bit 8 value OR ucast byte) bytes 0)"

definition validate_dimensions :: "u16 \<Rightarrow> u16 \<Rightarrow> Failure + unit" where
  "validate_dimensions width height =
    (let pixels = unat width * unat height in
     if pixels > usize_MAX then Inl (Failure_too_large ''capture dimensions overflowed'')
     else if width = 0 \<or> height = 0 \<or> width > MAX_CAPTURE_WIDTH \<or> height > MAX_CAPTURE_HEIGHT
       \<or> pixels > MAX_CAPTURE_PIXELS
     then Inl (Failure_too_large ''capture target exceeds the published image bounds'')
     else Inr ())"

section \<open>Conversion to RGB\<close>

record Visualtype =
  vt_id :: u32
  vt_true_color :: bool
  vt_red_mask :: u32
  vt_green_mask :: u32
  vt_blue_mask :: u32

record RawCapture =
  raw_width :: u16
  raw_height :: u16
  raw_depth :: u8
  raw_visual :: Visualtype
  raw_bits_per_pixel :: u8
  raw_scanline_pad :: u8
  raw_lsb_first :: bool
  raw_data :: "byte list"

function chunks_exact :: "nat \<Rightarrow> 'a list \<Rightarrow> 'a list list" where
  "chunks_exact n xs = (if n = 0 \<or> length xs < n then [] else take n xs # chunks_exact n (drop n xs))"
  by pat_completeness auto
termination by (relation "measure (\<lambda>(n, xs). length xs)") auto

declare chunks_exact.simps [simp del]

fun map_results :: "('a \<Rightarrow> 'e + 'b) \<Rightarrow> 'a list \<Rightarrow> 'e + 'b list" where
  "map_results f [] = Inr []"
| "map_results f (x # xs) = res_bind (f x) (\<lambda>y. map_ok (\<lambda>ys. y # ys) (map_results f xs))"

definition rgb_pixel :: "RawCapture \<Rightarrow> byte list \<Rightarrow> Failure + byte list" where
  "rgb_pixel raw pixel =
    (let value = pixel_value pixel (raw_lsb_first raw); v = raw_visual raw in
     res_bind (component value (vt_red_mask v)) (\<lambda>r.
     res_bind (component value (vt_green_mask v)) (\<lambda>g.
     res_bind (component value (vt_blue_mask v)) (\<lambda>b. Inr [r, g, b]))))"

definition rgb_row :: "RawCapture \<Rightarrow> nat \<Rightarrow> byte list \<Rightarrow> Failure + byte list" where
  "rgb_row raw pixel_bytes row = map_ok concat
    (map_results (rgb_pixel raw) (chunks_exact pixel_bytes (take (unat (raw_width raw) * pixel_bytes) row)))"

definition div_ceil :: "nat \<Rightarrow> nat \<Rightarrow> nat" where
  "div_ceil a b = (if a mod b > 0 then a div b + 1 else a div b)"

text \<open>
  The sizes are products of at most 16 and 8 bits, so the checked multiplications of the code on a
  64-bit \<^verbatim>\<open>usize\<close> never fail; \<open>None\<close> is a panic.
\<close>

definition to_rgb :: "RawCapture \<Rightarrow> (Failure + byte list) option" where
  "to_rgb raw =
    (if raw_depth raw = 0 then Some (Inl (Failure_unsupported ''capture pixmap has no color depth''))
     else
       (let pixel_bytes = unat (raw_bits_per_pixel raw) div 8;
          row_bits = unat (raw_width raw) * unat (raw_bits_per_pixel raw);
          pad = unat (raw_scanline_pad raw) in
        if pad = 0 then None
        else
          (let stride = div_ceil row_bits pad * pad div 8;
             required = stride * unat (raw_height raw) in
           if length (raw_data raw) < required \<or> length (raw_data raw) > required + 3
           then Some (Inl (Failure_unavailable ''capture pixel storage has an unexpected length''))
           else if stride = 0 \<or> pixel_bytes = 0 \<or> stride < unat (raw_width raw) * pixel_bytes then None
           else Some (map_ok concat (map_results (rgb_row raw pixel_bytes)
             (chunks_exact stride (take required (raw_data raw))))))))"

section \<open>Reading the pixels\<close>

record pixmap_format =
  pf_depth :: u8
  pf_bits_per_pixel :: u8
  pf_scanline_pad :: u8

record capture_env =
  cx_grab :: grab_env
  cx_visuals :: "Visualtype list"
  cx_formats :: "pixmap_format list"
  cx_lsb_first :: bool
  cx_generate :: "u32 option"
  cx_name :: "unit x_reply"
  cx_geometry :: "geometry_reply x_reply"
  cx_image :: "i16 \<Rightarrow> i16 \<Rightarrow> u16 \<Rightarrow> u16 \<Rightarrow> (u8 \<times> byte list) x_reply"
  cx_free :: "unit x_reply"

definition i16_try_from :: "u16 \<Rightarrow> i16 option" where
  "i16_try_from v = (if unat v < 2 ^ 15 then Some v else None)"

definition capture_extent ::
    "geometry_reply \<Rightarrow> CaptureRegion option \<Rightarrow> Failure + i16 \<times> i16 \<times> u16 \<times> u16" where
  "capture_extent geometry region = (case region of
      Some reg \<Rightarrow>
        res_bind (ok_or (checked_add (reg_x reg) (reg_width reg))
          (Failure_invalid ''capture region horizontal extent overflowed'')) (\<lambda>right.
        res_bind (ok_or (checked_add (reg_y reg) (reg_height reg))
          (Failure_invalid ''capture region vertical extent overflowed'')) (\<lambda>bottom.
        if right > geo_width geometry \<or> bottom > geo_height geometry
        then Inl (Failure_invalid ''capture region extends outside the current target'')
        else
          res_bind (ok_or (i16_try_from (reg_x reg)) (Failure_invalid ''capture region x is unsupported'')) (\<lambda>x.
          res_bind (ok_or (i16_try_from (reg_y reg)) (Failure_invalid ''capture region y is unsupported'')) (\<lambda>y.
          Inr (x, y, reg_width reg, reg_height reg)))))
    | None \<Rightarrow>
        res_bind (validate_dimensions (geo_width geometry) (geo_height geometry)) (\<lambda>_.
        Inr (0, 0, geo_width geometry, geo_height geometry)))"

definition read_named_pixmap ::
    "capture_env \<Rightarrow> Visualtype \<Rightarrow> CaptureRegion option \<Rightarrow> Failure + RawCapture" where
  "read_named_pixmap env visual region =
    res_bind (x_ask ''cannot inspect the target pixmap'' ''cannot inspect the target pixmap''
      (cx_geometry env)) (\<lambda>geometry.
    res_bind (capture_extent geometry region) (\<lambda>(x, y, width, height).
    res_bind (ok_or (find (\<lambda>f. pf_depth f = geo_depth geometry) (cx_formats env))
      (Failure_unsupported ''capture pixmap format is unavailable'')) (\<lambda>format.
    if \<not> (pf_bits_per_pixel format = 16 \<or> pf_bits_per_pixel format = 24 \<or> pf_bits_per_pixel format = 32)
      \<or> pf_scanline_pad format = 0 \<or> unat (pf_scanline_pad format) mod 8 \<noteq> 0
    then Inl (Failure_unsupported ''capture pixmap storage format is unsupported'')
    else
      res_bind (x_ask ''cannot request capture pixels'' ''cannot read capture pixels''
        (cx_image env x y width height)) (\<lambda>(depth, data).
      if depth \<noteq> geo_depth geometry then Inl (Failure_unavailable ''capture pixel depth changed'')
      else Inr \<lparr>raw_width = width, raw_height = height, raw_depth = depth, raw_visual = visual,
        raw_bits_per_pixel = pf_bits_per_pixel format, raw_scanline_pad = pf_scanline_pad format,
        raw_lsb_first = cx_lsb_first env, raw_data = data\<rparr>))))"

definition read_redirected_pixmap ::
    "capture_env \<Rightarrow> Visualtype \<Rightarrow> CaptureRegion option \<Rightarrow> Failure + RawCapture" where
  "read_redirected_pixmap env visual region =
    res_bind (ok_or (cx_generate env)
      (Failure_unavailable ''cannot allocate a capture pixmap identity'')) (\<lambda>_.
    res_bind (x_ask ''cannot request the target pixmap'' ''cannot name the target pixmap'' (cx_name env)) (\<lambda>_.
    case (read_named_pixmap env visual region,
        x_ask ''cannot request capture pixmap cleanup'' ''cannot clean up capture pixmap'' (cx_free env)) of
      (Inr raw, Inr _) \<Rightarrow> Inr raw
    | (Inl e, _) \<Rightarrow> Inl e
    | (Inr _, Inl e) \<Rightarrow> Inl e))"

definition capture_visual :: "capture_env \<Rightarrow> Observer \<Rightarrow> u32 \<Rightarrow> Failure + Visualtype" where
  "capture_visual env ob xid =
    (if xid \<notin> ob_redirected_clients ob
     then Inl (Failure_unavailable ''capture target is not held in provider-owned off-screen storage'')
     else
       res_bind (x_ask ''cannot inspect capture target'' ''cannot inspect capture target''
         (ge_attributes (cx_grab env) xid)) (\<lambda>attributes.
       if \<not> wa_viewable attributes then Inl (Failure_unavailable ''capture target is not viewable'')
       else
         res_bind (ok_or (find (\<lambda>v. vt_id v = wa_visual attributes) (cx_visuals env))
           (Failure_unsupported ''capture target visual is unavailable'')) (\<lambda>visual.
         if \<not> vt_true_color visual
         then Inl (Failure_unsupported ''capture requires a TrueColor X11 visual'')
         else Inr visual)))"

definition read_target_pixels ::
    "capture_env \<Rightarrow> TargetRequest \<Rightarrow> CaptureRegion option \<Rightarrow> RawCapture grabbed_op" where
  "read_target_pixels env request region =
    st_bind (fresh_target (cx_grab env) request) (\<lambda>t s.
    (res_bind (capture_visual env (gr_observer s) (tg_xid t)) (\<lambda>visual.
     read_redirected_pixmap env visual region), s))"

section \<open>Encoding and the calls\<close>

datatype png_result = Png_NoHeader | Png_NoData | Png_Done "byte list"

definition MAX_CAPTURE_PNG_BYTES :: nat where "MAX_CAPTURE_PNG_BYTES = 7 * 1024 * 1024"
definition MAX_CAPTURE_DATA_BYTES :: nat where
  "MAX_CAPTURE_DATA_BYTES = div_ceil MAX_CAPTURE_PNG_BYTES 3 * 4"

definition encode_png :: "(u16 \<Rightarrow> u16 \<Rightarrow> byte list \<Rightarrow> png_result) \<Rightarrow> (byte list \<Rightarrow> string)
    \<Rightarrow> u16 \<Rightarrow> u16 \<Rightarrow> byte list \<Rightarrow> Failure + string" where
  "encode_png png base64 width height rgb = (case png width height rgb of
      Png_NoHeader \<Rightarrow> Inl (Failure_internal ''cannot initialize PNG capture encoding'')
    | Png_NoData \<Rightarrow> Inl (Failure_internal ''cannot encode PNG capture data'')
    | Png_Done bytes \<Rightarrow>
        if length bytes > MAX_CAPTURE_PNG_BYTES
        then Inl (Failure_too_large ''encoded capture exceeds the published image bound'')
        else map_err (\<lambda>_. Failure_internal ''base64 capture exceeded its derived bound'')
          (BoundedText_new MAX_CAPTURE_DATA_BYTES (base64 bytes)))"

definition capture_data :: "(u16 \<Rightarrow> u16 \<Rightarrow> byte list \<Rightarrow> png_result) \<Rightarrow> (byte list \<Rightarrow> string)
    \<Rightarrow> RawCapture \<Rightarrow> (Failure + string) option" where
  "capture_data png base64 raw = map_option
    (\<lambda>rgb. res_bind rgb (encode_png png base64 (raw_width raw) (raw_height raw))) (to_rgb raw)"

definition capture_obscured :: "(u16 \<Rightarrow> u16 \<Rightarrow> byte list \<Rightarrow> png_result) \<Rightarrow> (byte list \<Rightarrow> string)
    \<Rightarrow> capture_env \<Rightarrow> TargetRequest \<Rightarrow> Observer \<Rightarrow> (Failure + CaptureReply) option \<times> Observer" where
  "capture_obscured png base64 env request ob =
    (let (r, ob', _) = in_section (under_server_grab (cx_grab env) (read_target_pixels env request None)) ob in
     (case r of
        Inl e \<Rightarrow> Some (Inl e)
      | Inr raw \<Rightarrow> map_option (map_ok (\<lambda>data. \<lparr>cap_target = request, cap_width = raw_width raw,
          cap_height = raw_height raw, cap_format = Png, cap_data = data\<rparr>)) (capture_data png base64 raw),
      ob'))"

definition capture_region :: "(u16 \<Rightarrow> u16 \<Rightarrow> byte list \<Rightarrow> png_result) \<Rightarrow> (byte list \<Rightarrow> string)
    \<Rightarrow> capture_env \<Rightarrow> CaptureRegionRequest \<Rightarrow> Observer \<Rightarrow> (Failure + CaptureRegionReply) option \<times> Observer" where
  "capture_region png base64 env request ob =
    (let (r, ob', _) = in_section (under_server_grab (cx_grab env)
       (read_target_pixels env (crr_target request) (Some (crr_region request)))) ob in
     (case r of
        Inl e \<Rightarrow> Some (Inl e)
      | Inr raw \<Rightarrow> map_option (map_ok (\<lambda>data. \<lparr>cpr_target = crr_target request,
          cpr_region = crr_region request, cpr_format = Png, cpr_data = data\<rparr>))
          (capture_data png base64 raw),
      ob'))"

section \<open>Components are scaled exactly\<close>

lemma count_ones_one:
  assumes "count_ones (w :: u32) = 1"
  obtains k where "k < 32" "w = 2 ^ k"
proof -
  from assms obtain k where k: "filter (bit w) [0..<32] = [k]"
    by (auto simp: count_ones_def length_Suc_conv)
  then have only: "{i. i < 32 \<and> bit w i} = {k}"
    by (metis (mono_tags, lifting) Collect_cong atLeastLessThan_iff list.set(1,2) set_filter set_upt zero_le)
  have "w = 2 ^ k"
  proof (rule bit_word_eqI)
    fix n
    assume "n < LENGTH(32)"
    with only show "bit w n \<longleftrightarrow> bit (2 ^ k :: u32) n"
      by (auto simp: bit_exp_iff)
  qed
  with only that show ?thesis by blast
qed

lemma unat_exp: "k < 32 \<Longrightarrow> unat (2 ^ k :: u32) = 2 ^ k"
proof -
  assume "k < 32"
  then have "(2 :: nat) ^ k < 2 ^ 32" by (rule power_strict_increasing) simp
  then have "take_bit 32 (2 ^ k :: nat) = 2 ^ k" by (rule take_bit_nat_eq_self)
  moreover have "(2 ^ k :: u32) = of_nat (2 ^ k)" by simp
  ultimately show ?thesis by (simp only: unsigned_of_nat) simp
qed

lemma filter_eq_one: "k < n \<Longrightarrow> filter (\<lambda>i. i = k) [0..<n] = [k]"
  by (induction n) (auto simp: less_Suc_eq filter_empty_conv)

lemma count_ones_exp: "k < 32 \<Longrightarrow> count_ones (2 ^ k :: u32) = 1"
proof -
  assume "k < 32"
  have "filter (bit (2 ^ k :: u32)) [0..<32] = filter (\<lambda>i. i = k) [0..<32]"
    by (rule filter_cong) (auto simp: bit_exp_iff)
  also have "\<dots> = [k]"
    using \<open>k < 32\<close> by (simp add: filter_eq_one)
  finally show ?thesis by (simp add: count_ones_def)
qed

lemma power_of_two_successor:
  "(case checked_add (m :: u32) 1 of None \<Rightarrow> False | Some n \<Rightarrow> is_power_of_two n) \<longleftrightarrow> (\<exists>k<32. unat m + 1 = 2 ^ k)"
proof
  assume "case checked_add m 1 of None \<Rightarrow> False | Some n \<Rightarrow> is_power_of_two n"
  then obtain n where "checked_add m 1 = Some n" "is_power_of_two n" by (auto split: option.splits)
  then have n: "unat n = unat m + 1" "count_ones n = 1"
    by (simp_all add: checked_add_Some_iff is_power_of_two_def)
  from n(2) obtain k where "k < 32" "n = 2 ^ k" by (rule count_ones_one)
  moreover from this have "unat n = 2 ^ k" by (simp add: unat_exp)
  ultimately show "\<exists>k<32. unat m + 1 = 2 ^ k" using n(1) by auto
next
  assume "\<exists>k<32. unat m + 1 = 2 ^ k"
  then obtain k where k: "k < 32" "unat m + 1 = 2 ^ k" by blast
  have "unat (2 ^ k :: u32) = 2 ^ k" using k(1) by (simp add: unat_exp)
  with k have "checked_add m 1 = Some (2 ^ k)" by (simp add: checked_add_Some_iff)
  with count_ones_exp [OF k(1)] show "case checked_add m 1 of None \<Rightarrow> False | Some n \<Rightarrow> is_power_of_two n"
    by (simp add: is_power_of_two_def)
qed

lemma trailing_zeros_bit:
  assumes "w \<noteq> (0 :: u32)"
  shows "trailing_zeros w < 32 \<and> bit w (trailing_zeros w)"
proof -
  obtain i where i: "i < 32" "bit w i"
    using assms by (auto simp: bit_eq_iff possible_bit_word dest: bit_imp_le_length)
  let ?n = "trailing_zeros w"
  have "?n < 32"
  proof (rule ccontr)
    assume "\<not> ?n < 32"
    then have "length (takeWhile (\<lambda>i. \<not> bit w i) [0..<32]) = length [0..<32]"
      using length_takeWhile_le [of "\<lambda>i. \<not> bit w i" "[0..<32]"] by (simp add: trailing_zeros_def)
    then have "\<forall>i\<in>set [0..<32]. \<not> bit w i"
      by (metis takeWhile_eq_all_conv takeWhile_eq_take take_all order_refl)
    with i show False by auto
  qed
  moreover from this have "\<not> \<not> bit w ([0..<32] ! ?n)"
    unfolding trailing_zeros_def by (intro nth_length_takeWhile) simp
  ultimately show ?thesis by simp
qed

lemma unat_drop_bit_div: "unat (drop_bit n w) = unat (w :: 'a::len word) div 2 ^ n"
  unfolding unsigned_drop_bit_eq using unat_bound [of w]
  by (simp add: drop_bit_eq_div take_bit_nat_eq_self del: unsigned_less)

lemma drop_bit_and_le: "unat (drop_bit n (a AND b)) \<le> unat (drop_bit n (b :: 'a::len word))"
  unfolding unat_drop_bit_div by (rule div_le_mono) (metis word_and_le1 word_le_nat_alt)

lemma unat_u32_widen: "unat (ucast (w :: u32) :: u64) = unat w"
  using unat_bound [of w] by (simp add: unsigned_ucast_eq take_bit_nat_eq_self del: unsigned_less)

lemma scaled_exact:
  assumes "unat (v :: u32) \<le> unat (m :: u32)"
  shows "unat ((ucast v * 255 + ucast (m div 2)) div (ucast m :: u64))
    = (unat v * 255 + unat m div 2) div unat m"
proof -
  have "unat v < 2 ^ 32" "unat m < 2 ^ 32" using unat_bound [of v] unat_bound [of m] by (simp_all del: unsigned_less)
  then have small: "unat v * 255 + unat m div 2 < 2 ^ 64" by simp
  have "unat (ucast v * 255 :: u64) = unat v * 255"
    using small by (simp add: unat_word_ariths unat_u32_widen)
  moreover have "unat (ucast (m div 2) :: u64) = unat m div 2"
    by (simp add: unat_u32_widen unat_div_distrib)
  ultimately have "unat (ucast v * 255 + ucast (m div 2) :: u64) = unat v * 255 + unat m div 2"
    using small by (simp add: unat_word_ariths)
  then show ?thesis by (simp add: unat_div_distrib unat_u32_widen)
qed

lemma scaled_bound: "v \<le> (m :: nat) \<Longrightarrow> 0 < m \<Longrightarrow> (v * 255 + m div 2) div m < 256"
proof -
  assume "v \<le> m" "0 < m"
  then have "v * 255 + m div 2 < 256 * m" by linarith
  then show ?thesis by (simp add: less_mult_imp_div_less)
qed

text \<open>A field: the bits of the pixel under the mask, shifted down, and the greatest value it can have.\<close>

definition field_value :: "u32 \<Rightarrow> u32 \<Rightarrow> nat" where
  "field_value pixel cmask = unat (pixel AND cmask) div 2 ^ trailing_zeros cmask"

definition field_max :: "u32 \<Rightarrow> nat" where
  "field_max cmask = unat cmask div 2 ^ trailing_zeros cmask"

lemma field_max_pos: "cmask \<noteq> 0 \<Longrightarrow> 0 < field_max cmask"
proof -
  assume "cmask \<noteq> 0"
  then have "bit (drop_bit (trailing_zeros cmask) cmask) 0"
    using trailing_zeros_bit [of cmask] by (simp add: bit_drop_bit_eq)
  then have "unat (drop_bit (trailing_zeros cmask) cmask) \<noteq> 0"
    by (metis bit_0_eq bot_apply bot_bool_def unsigned_eq_0_iff)
  then show ?thesis by (simp add: field_max_def unat_drop_bit_div)
qed

text \<open>
  The colour of a component: accepted exactly for a contiguous mask (narrower than the whole word),
  and then the field rescaled to 0..255, rounded to nearest; the conversion never overflows.
\<close>

lemma component_exact:
  "component pixel cmask = Inr c \<longleftrightarrow> cmask \<noteq> 0 \<and> (\<exists>k<32. field_max cmask + 1 = 2 ^ k)
    \<and> unat c = (field_value pixel cmask * 255 + field_max cmask div 2) div field_max cmask"
proof (cases "cmask = 0")
  case True
  then show ?thesis by (simp add: component_def)
next
  case False
  let ?s = "trailing_zeros cmask"
  let ?m = "drop_bit ?s cmask"
  let ?v = "drop_bit ?s (pixel AND cmask)"
  let ?q = "(ucast ?v * 255 + ucast (?m div 2)) div (ucast ?m :: u64)"
  have m: "unat ?m = field_max cmask" and v: "unat ?v = field_value pixel cmask"
    by (simp_all only: field_max_def field_value_def unat_drop_bit_div)
  have q: "unat ?q = (field_value pixel cmask * 255 + field_max cmask div 2) div field_max cmask"
    using scaled_exact [OF drop_bit_and_le [of ?s pixel cmask]] by (simp only: m v)
  have bound: "unat ?q < 256"
    using scaled_bound [OF drop_bit_and_le [of ?s pixel cmask, unfolded m v] field_max_pos [OF False]]
    by (simp only: q)
  have pow: "(case checked_add ?m 1 of None \<Rightarrow> False | Some n \<Rightarrow> is_power_of_two n)
      \<longleftrightarrow> (\<exists>k<32. field_max cmask + 1 = 2 ^ k)"
    by (simp only: power_of_two_successor m)
  define q where "q = ?q"
  have "component pixel cmask = (if \<exists>k<32. field_max cmask + 1 = 2 ^ k then Inr (ucast q)
      else Inl (Failure_unsupported ''capture visual has a noncontiguous color mask''))"
    unfolding q_def using False bound
    by (simp only: component_def Let_def pow if_False if_True not_not simp_thms) (simp split: if_split)
  moreover have "unat c = unat q \<longleftrightarrow> c = ucast q"
    using bound unfolding q_def [symmetric]
    by (auto simp: word_unat_eq_iff unsigned_ucast_eq take_bit_nat_eq_self)
  ultimately show ?thesis using False q unfolding q_def [symmetric] by auto
qed

section \<open>Every pixel is read once, in place\<close>

lemma chunks_exact_map:
  "0 < n \<Longrightarrow> chunks_exact n xs = map (\<lambda>i. take n (drop (i * n) xs)) [0..<length xs div n]"
proof (induction n xs rule: chunks_exact.induct)
  case (1 n xs)
  show ?case
  proof (cases "length xs < n")
    case True
    with 1 show ?thesis by (simp add: chunks_exact.simps)
  next
    case False
    then have count: "length xs div n = Suc (length (drop n xs) div n)"
      using 1 by (simp add: le_div_geq)
    have "chunks_exact n xs = take n xs # chunks_exact n (drop n xs)"
      using 1 False by (simp add: chunks_exact.simps [of n xs])
    also have "\<dots> = take n (drop (0 * n) xs)
        # map (\<lambda>i. take n (drop (Suc i * n) xs)) [0..<length (drop n xs) div n]"
      using 1 False by (simp add: add.commute)
    also have "\<dots> = map (\<lambda>i. take n (drop (i * n) xs)) (0 # map Suc [0..<length (drop n xs) div n])"
      by simp
    finally show ?thesis by (simp only: count upt_conv_Cons map_Suc_upt zero_less_Suc)
  qed
qed

lemma map_results_Inr:
  "map_results f xs = Inr ys \<longleftrightarrow> length ys = length xs \<and> (\<forall>i<length xs. f (xs ! i) = Inr (ys ! i))"
proof (induction xs arbitrary: ys)
  case (Cons x xs)
  have "map_results f (x # xs) = Inr ys \<longleftrightarrow> (\<exists>z zs. ys = z # zs \<and> f x = Inr z \<and> map_results f xs = Inr zs)"
    by (auto simp: res_simps)
  then show ?case
    by (auto simp: Cons.IH less_Suc_eq_0_disj length_Suc_conv nth_Cons split: nat.splits)
qed auto

text \<open>Where the reference definition finds a pixel: row and column, the row stride, the bytes of a pixel.\<close>

definition pixel_bytes_of :: "RawCapture \<Rightarrow> nat" where
  "pixel_bytes_of raw = unat (raw_bits_per_pixel raw) div 8"

definition stride_of :: "RawCapture \<Rightarrow> nat" where
  "stride_of raw = div_ceil (unat (raw_width raw) * unat (raw_bits_per_pixel raw))
    (unat (raw_scanline_pad raw)) * unat (raw_scanline_pad raw) div 8"

definition pixel_at :: "RawCapture \<Rightarrow> nat \<Rightarrow> nat \<Rightarrow> byte list" where
  "pixel_at raw r c = take (pixel_bytes_of raw)
    (drop (r * stride_of raw + c * pixel_bytes_of raw) (raw_data raw))"

lemma rgb_pixel_length: "rgb_pixel raw px = Inr bs \<Longrightarrow> length bs = 3"
  by (auto simp: rgb_pixel_def res_simps Let_def)

lemma take_drop_within: "i + k \<le> n \<Longrightarrow> take k (drop i (take n xs)) = take k (drop i xs)"
  by (simp add: drop_take min_def)

lemma rgb_row_pixels:
  assumes "rgb_row raw pb row = Inr bs" and "0 < pb" and "unat (raw_width raw) * pb \<le> length row"
  shows "\<exists>px. (\<forall>c<unat (raw_width raw). rgb_pixel raw (take pb (drop (c * pb) row)) = Inr (px c))
    \<and> bs = concat (map px [0..<unat (raw_width raw)])"
proof -
  let ?w = "unat (raw_width raw)"
  from assms(1) obtain ps where ps: "map_results (rgb_pixel raw) (chunks_exact pb (take (?w * pb) row)) = Inr ps"
    and bs: "bs = concat ps"
    by (auto simp: rgb_row_def res_simps)
  have chunks: "chunks_exact pb (take (?w * pb) row) = map (\<lambda>i. take pb (drop (i * pb) (take (?w * pb) row))) [0..<?w]"
    using assms(2,3) by (simp add: chunks_exact_map min_def)
  have len: "length ps = ?w" and each: "\<forall>i<?w. rgb_pixel raw (take pb (drop (i * pb) (take (?w * pb) row))) = Inr (ps ! i)"
    using ps by (auto simp: map_results_Inr chunks)
  have "\<forall>c<?w. rgb_pixel raw (take pb (drop (c * pb) row)) = Inr (ps ! c)"
  proof (intro allI impI)
    fix c
    assume "c < ?w"
    then have "Suc c * pb \<le> ?w * pb" by (intro mult_le_mono1) simp
    then have "c * pb + pb \<le> ?w * pb" by simp
    then have "take pb (drop (c * pb) (take (?w * pb) row)) = take pb (drop (c * pb) row)"
      by (rule take_drop_within)
    with each \<open>c < ?w\<close> show "rgb_pixel raw (take pb (drop (c * pb) row)) = Inr (ps ! c)"
      by metis
  qed
  moreover have "ps = map ((!) ps) [0..<?w]"
    by (metis len map_nth)
  ultimately show ?thesis using bs by (intro exI [of _ "(!) ps"]) simp
qed

lemma div_ceil_mult: "0 < b \<Longrightarrow> a \<le> div_ceil a b * b"
proof -
  assume "0 < b"
  then have "a mod b \<le> b" by simp
  then have "a \<le> b + a div b * b" using div_mult_mod_eq [of a b] by linarith
  moreover have "a mod b = 0 \<Longrightarrow> a = a div b * b" using div_mult_mod_eq [of a b] by simp
  ultimately show ?thesis by (auto simp: div_ceil_def)
qed

lemma stride_holds_row:
  assumes "raw_scanline_pad raw \<noteq> 0" and "unat (raw_scanline_pad raw) mod 8 = 0"
    and "unat (raw_bits_per_pixel raw) mod 8 = 0"
  shows "unat (raw_width raw) * pixel_bytes_of raw \<le> stride_of raw"
proof -
  have "0 < unat (raw_scanline_pad raw)"
    using assms(1) by (simp add: unat_gt_0)
  from div_ceil_mult [OF this, of "unat (raw_width raw) * unat (raw_bits_per_pixel raw)"]
  have "unat (raw_width raw) * unat (raw_bits_per_pixel raw) div 8 \<le> stride_of raw"
    unfolding stride_of_def by (rule div_le_mono)
  moreover have "unat (raw_width raw) * unat (raw_bits_per_pixel raw) div 8 = unat (raw_width raw) * pixel_bytes_of raw"
    using assms(3) unfolding pixel_bytes_of_def by (metis div_mult_swap mod_0_imp_dvd)
  ultimately show ?thesis by simp
qed

lemma concat_uniform_length: "\<forall>x\<in>set xss. length x = n \<Longrightarrow> length (concat xss) = length xss * n"
  by (induction xss) auto

lemma concat_uniform_nth:
  "\<forall>x\<in>set xss. length x = n \<Longrightarrow> i < length xss \<Longrightarrow> take n (drop (i * n) (concat xss)) = xss ! i"
proof (induction xss arbitrary: i)
  case (Cons x xss)
  then show ?case by (cases i) auto
qed simp

text \<open>Rows whose pixels are uniform give an image whose pixel in row r and column c is at 3 (r w + c).\<close>

lemma image_pixel:
  assumes "\<forall>r<h. \<forall>c<w. length (px r c) = 3" and "r < h" and "c < w"
  shows "take 3 (drop (3 * (r * w + c)) (concat (map (\<lambda>r. concat (map (px r) [0..<w])) [0..<h]))) = px r c"
    (is "take 3 (drop _ ?image) = _")
proof -
  let ?row = "\<lambda>r. concat (map (px r) [0..<w])"
  have lengths: "\<forall>x\<in>set (map ?row [0..<h]). length x = w * 3"
    using assms(1) by (auto simp: concat_uniform_length [where n = 3])
  have row: "take (w * 3) (drop (r * (w * 3)) ?image) = ?row r"
    using concat_uniform_nth [OF lengths, of r] assms(2) by simp
  have "Suc c * 3 \<le> w * 3" using assms(3) by (intro mult_le_mono1) simp
  then have "c * 3 + 3 \<le> w * 3" by simp
  from take_drop_within [OF this, of "drop (r * (w * 3)) ?image"]
  have "take 3 (drop (c * 3) (?row r)) = take 3 (drop (c * 3 + r * (w * 3)) ?image)"
    unfolding row by (simp only: drop_drop)
  moreover have "take 3 (drop (c * 3) (?row r)) = px r c"
    using concat_uniform_nth [of "map (px r) [0..<w]" 3 c] assms by simp
  moreover have "c * 3 + r * (w * 3) = 3 * (r * w + c)" by simp
  ultimately show ?thesis by simp
qed

lemma to_rgb_exact:
  assumes pad: "raw_scanline_pad raw \<noteq> 0" "unat (raw_scanline_pad raw) mod 8 = 0"
    and bpp: "unat (raw_bits_per_pixel raw) mod 8 = 0" "0 < pixel_bytes_of raw"
    and "raw_width raw \<noteq> 0"
  shows "to_rgb raw \<noteq> None"
    and "to_rgb raw = Some (Inr rgb) \<Longrightarrow>
      length rgb = 3 * (unat (raw_height raw) * unat (raw_width raw))
      \<and> (\<forall>r<unat (raw_height raw). \<forall>c<unat (raw_width raw).
          rgb_pixel raw (pixel_at raw r c) = Inr (take 3 (drop (3 * (r * unat (raw_width raw) + c)) rgb)))"
proof -
  let ?w = "unat (raw_width raw)" and ?h = "unat (raw_height raw)"
  let ?pb = "pixel_bytes_of raw" and ?s = "stride_of raw"
  let ?rows = "chunks_exact ?s (take (?s * ?h) (raw_data raw))"
  have fits: "?w * ?pb \<le> ?s" by (rule stride_holds_row [OF pad bpp(1)])
  moreover have "0 < ?w * ?pb" using assms(4,5) by (simp add: unat_gt_0)
  ultimately have "0 < ?s" by linarith
  have run: "to_rgb raw = (if raw_depth raw = 0 then Some (Inl (Failure_unsupported ''capture pixmap has no color depth''))
      else if length (raw_data raw) < ?s * ?h \<or> length (raw_data raw) > ?s * ?h + 3
      then Some (Inl (Failure_unavailable ''capture pixel storage has an unexpected length''))
      else Some (map_ok concat (map_results (rgb_row raw ?pb) ?rows)))"
    using pad(1) fits \<open>0 < ?s\<close> bpp(2)
    unfolding to_rgb_def Let_def stride_of_def [symmetric] pixel_bytes_of_def [symmetric]
    by (simp add: unat_eq_0)
  then show "to_rgb raw \<noteq> None" by simp
  assume "to_rgb raw = Some (Inr rgb)"
  then obtain rows where len: "?s * ?h \<le> length (raw_data raw)"
    and rows: "map_results (rgb_row raw ?pb) ?rows = Inr rows" and rgb: "rgb = concat rows"
    unfolding run by (auto simp: res_simps split: if_splits)
  have chunks: "?rows = map (\<lambda>r. take ?s (drop (r * ?s) (take (?s * ?h) (raw_data raw)))) [0..<?h]"
    using len \<open>0 < ?s\<close> by (simp add: chunks_exact_map min_def)
  have count: "length rows = ?h"
    and each: "\<And>r. r < ?h \<Longrightarrow> rgb_row raw ?pb (take ?s (drop (r * ?s) (take (?s * ?h) (raw_data raw)))) = Inr (rows ! r)"
    using rows by (auto simp: map_results_Inr chunks)
  have "\<exists>px. (\<forall>c<?w. rgb_pixel raw (pixel_at raw r c) = Inr (px c)) \<and> rows ! r = concat (map px [0..<?w])"
    if "r < ?h" for r
  proof -
    have "Suc r * ?s \<le> ?h * ?s" using that by (intro mult_le_mono1) simp
    then have within: "r * ?s + ?s \<le> ?s * ?h" by (simp add: mult.commute)
    then have row: "take ?s (drop (r * ?s) (take (?s * ?h) (raw_data raw))) = take ?s (drop (r * ?s) (raw_data raw))"
      by (rule take_drop_within)
    have "?w * ?pb \<le> length (take ?s (drop (r * ?s) (raw_data raw)))"
      using fits within len by simp
    from rgb_row_pixels [OF each [OF that, unfolded row] bpp(2) this] obtain px where
      px: "\<forall>c<?w. rgb_pixel raw (take ?pb (drop (c * ?pb) (take ?s (drop (r * ?s) (raw_data raw))))) = Inr (px c)"
      and "rows ! r = concat (map px [0..<?w])" by blast
    moreover have "take ?pb (drop (c * ?pb) (take ?s (drop (r * ?s) (raw_data raw)))) = pixel_at raw r c"
      if "c < ?w" for c
    proof -
      have "Suc c * ?pb \<le> ?w * ?pb" using that by (intro mult_le_mono1) simp
      then have "c * ?pb + ?pb \<le> ?s" using fits by simp
      then show ?thesis unfolding pixel_at_def by (simp add: take_drop_within add.commute)
    qed
    ultimately show ?thesis by metis
  qed
  then obtain px where px: "\<And>r. r < ?h \<Longrightarrow> \<forall>c<?w. rgb_pixel raw (pixel_at raw r c) = Inr (px r c)"
    and row: "\<And>r. r < ?h \<Longrightarrow> rows ! r = concat (map (px r) [0..<?w])" by metis
  have three: "\<forall>r<?h. \<forall>c<?w. length (px r c) = 3" using px rgb_pixel_length by blast
  have "rows = map (\<lambda>r. concat (map (px r) [0..<?w])) [0..<?h]"
    using count row by (intro nth_equalityI) auto
  then have image: "rgb = concat (map (\<lambda>r. concat (map (px r) [0..<?w])) [0..<?h])" using rgb by simp
  have "length rgb = ?h * (?w * 3)"
    unfolding image using three by (subst concat_uniform_length [where n = "?w * 3"])
      (auto simp: concat_uniform_length [where n = 3])
  moreover have "rgb_pixel raw (pixel_at raw r c) = Inr (take 3 (drop (3 * (r * ?w + c)) rgb))"
    if "r < ?h" "c < ?w" for r c
    using px [OF that(1)] that(2) image_pixel [OF three that] image by simp
  ultimately show "length rgb = 3 * (?h * ?w) \<and> (\<forall>r<?h. \<forall>c<?w.
      rgb_pixel raw (pixel_at raw r c) = Inr (take 3 (drop (3 * (r * ?w + c)) rgb)))" by simp
qed

lemma capture_extent_bounds:
  assumes "capture_extent geometry region = Inr (x, y, width, height)"
    and "\<forall>reg. region = Some reg \<longrightarrow> validate_CaptureRegion reg = Inr ()"
  shows "width \<noteq> 0 \<and> height \<noteq> 0 \<and> unat width * unat height \<le> MAX_CAPTURE_PIXELS
    \<and> unat x + unat width \<le> unat (geo_width geometry) \<and> unat y + unat height \<le> unat (geo_height geometry)"
proof (cases region)
  case None
  then show ?thesis
    using assms(1) by (auto simp: capture_extent_def res_simps validate_dimensions_def Let_def split: if_splits)
next
  case (Some reg)
  then have "width = reg_width reg" "height = reg_height reg" "x = reg_x reg" "y = reg_y reg"
    and "\<not> reg_x reg + width > geo_width geometry" "\<not> reg_y reg + height > geo_height geometry"
    and "checked_add (reg_x reg) width = Some (reg_x reg + width)"
      "checked_add (reg_y reg) height = Some (reg_y reg + height)"
    using assms(1) by (auto simp: capture_extent_def res_simps i16_try_from_def checked_add_def split: if_splits)
  moreover from Some assms(2) have "width \<noteq> 0" "height \<noteq> 0" "unat width * unat height \<le> MAX_CAPTURE_REGION_PIXELS"
    using calculation(1,2)
    by (auto simp: validate_CaptureRegion_def Let_def split: if_splits option.splits)
  ultimately show ?thesis
    by (auto simp: checked_add_Some_iff not_less word_le_nat_alt MAX_CAPTURE_REGION_PIXELS_def MAX_CAPTURE_PIXELS_def)
qed

lemma read_named_pixmap_storage:
  assumes "read_named_pixmap env visual region = Inr raw"
    and "\<forall>reg. region = Some reg \<longrightarrow> validate_CaptureRegion reg = Inr ()"
  shows "raw_scanline_pad raw \<noteq> 0" "unat (raw_scanline_pad raw) mod 8 = 0"
    "unat (raw_bits_per_pixel raw) mod 8 = 0" "0 < pixel_bytes_of raw"
    "raw_width raw \<noteq> 0" "unat (raw_width raw) * unat (raw_height raw) \<le> MAX_CAPTURE_PIXELS"
proof -
  from assms(1) obtain geometry x y where
    extent: "capture_extent geometry region = Inr (x, y, raw_width raw, raw_height raw)"
    and bpp: "raw_bits_per_pixel raw = 16 \<or> raw_bits_per_pixel raw = 24 \<or> raw_bits_per_pixel raw = 32"
    and "raw_scanline_pad raw \<noteq> 0" "unat (raw_scanline_pad raw) mod 8 = 0"
    by (auto simp: read_named_pixmap_def res_simps split: if_splits)
  with capture_extent_bounds [OF extent assms(2)]
  show "raw_scanline_pad raw \<noteq> 0" "unat (raw_scanline_pad raw) mod 8 = 0"
    "raw_width raw \<noteq> 0" "unat (raw_width raw) * unat (raw_height raw) \<le> MAX_CAPTURE_PIXELS"
    by blast+
  from bpp show "unat (raw_bits_per_pixel raw) mod 8 = 0" "0 < pixel_bytes_of raw"
    unfolding pixel_bytes_of_def by (elim disjE; simp)+
qed

text \<open>
  C27. A successful read of a target's pixels, whole or a validated region, is within the published
  image bound, and its conversion never panics: no zero pad, no zero stride, no slice out of range.
  When the conversion succeeds the image has three bytes per pixel, and the bytes of row r and column
  c are the colour of the pixel that the server stored for that row and column, whatever the row
  padding.
\<close>

theorem capture_pixels_exact:
  assumes "read_named_pixmap env visual region = Inr raw"
    and "\<forall>reg. region = Some reg \<longrightarrow> validate_CaptureRegion reg = Inr ()"
  shows "unat (raw_width raw) * unat (raw_height raw) \<le> MAX_CAPTURE_PIXELS
    \<and> to_rgb raw \<noteq> None
    \<and> (\<forall>rgb. to_rgb raw = Some (Inr rgb) \<longrightarrow>
        length rgb = 3 * (unat (raw_height raw) * unat (raw_width raw))
        \<and> (\<forall>r<unat (raw_height raw). \<forall>c<unat (raw_width raw).
            rgb_pixel raw (pixel_at raw r c) = Inr (take 3 (drop (3 * (r * unat (raw_width raw) + c)) rgb))))"
  using read_named_pixmap_storage(6) [OF assms] to_rgb_exact [OF read_named_pixmap_storage(1-5) [OF assms]]
  by blast

definition demo_visual :: Visualtype where
  "demo_visual = \<lparr>vt_id = 33, vt_true_color = True, vt_red_mask = 0xF800, vt_green_mask = 0x07E0,
    vt_blue_mask = 0x001F\<rparr>"

definition demo_capture :: capture_env where
  "demo_capture = \<lparr>cx_grab = demo_grab, cx_visuals = [demo_visual],
    cx_formats = [\<lparr>pf_depth = 16, pf_bits_per_pixel = 16, pf_scanline_pad = 32\<rparr>], cx_lsb_first = True,
    cx_generate = Some 77, cx_name = Replied (), cx_geometry = Replied \<lparr>geo_width = 1,
      geo_height = 2, geo_depth = 16\<rparr>,
    cx_image = (\<lambda>x y w h. Replied (16, [0x00, 0xF8, 0, 0, 0x1F, 0x00, 0, 0])), cx_free = Replied ()\<rparr>"

theorem capture_pixels_exact_witness:
  "\<exists>raw. read_named_pixmap demo_capture demo_visual None = Inr raw \<and> to_rgb raw \<noteq> None
    \<and> raw_width raw = 1 \<and> raw_height raw = 2 \<and> pixel_at raw 1 0 = [0x1F, 0x00]"
proof -
  let ?raw = "\<lparr>raw_width = 1, raw_height = 2, raw_depth = 16, raw_visual = demo_visual,
    raw_bits_per_pixel = 16, raw_scanline_pad = 32, raw_lsb_first = True,
    raw_data = [0x00, 0xF8, 0, 0, 0x1F, 0x00, 0, 0]\<rparr>"
  have read: "read_named_pixmap demo_capture demo_visual None = Inr ?raw"
    by (simp add: read_named_pixmap_def demo_capture_def x_ask_def ok_or_def capture_extent_def
      validate_dimensions_def usize_MAX_def MAX_CAPTURE_WIDTH_def MAX_CAPTURE_HEIGHT_def MAX_CAPTURE_PIXELS_def)
  have "pixel_at ?raw 1 0 = [0x1F, 0x00]"
    by (simp add: pixel_at_def stride_of_def pixel_bytes_of_def div_ceil_def)
  with read capture_pixels_exact [OF read] show ?thesis by auto
qed

end
