(* ===== verification/Desktop_Entry.thy ===== *)
theory Desktop_Entry
  imports Observer_Scan
begin

text \<open>
  Strict parsing of desktop entries and their \<^verbatim>\<open>Exec\<close> lines (\<^verbatim>\<open>agent-seat-x11/src/launch.rs\<close>, from
  \<^verbatim>\<open>parse_desktop\<close> to \<^verbatim>\<open>resolve_program\<close>). Text is modelled by its bytes; the code looks for ASCII
  characters only, except where it trims and where it looks for control characters, which go through
  the decoded scalars. The process environment and the executable test of the file system are
  parameters.
\<close>

section \<open>Strings\<close>

text \<open>\<^verbatim>\<open>str::trim\<close>: the Unicode property White_Space.\<close>

definition is_whitespace :: "nat \<Rightarrow> bool" where
  "is_whitespace c \<longleftrightarrow> 9 \<le> c \<and> c \<le> 13 \<or> c = 32 \<or> c = 0x85 \<or> c = 0xA0 \<or> c = 0x1680
    \<or> 0x2000 \<le> c \<and> c \<le> 0x200A \<or> c = 0x2028 \<or> c = 0x2029 \<or> c = 0x202F \<or> c = 0x205F \<or> c = 0x3000"

definition trim_scalars :: "nat list \<Rightarrow> nat list" where
  "trim_scalars cs = rev (dropWhile is_whitespace (rev (dropWhile is_whitespace cs)))"

definition trim :: "string \<Rightarrow> string" where
  "trim s = utf8_of (trim_scalars (chars_str s))"

fun split_once :: "char \<Rightarrow> string \<Rightarrow> (string \<times> string) option" where
  "split_once c [] = None"
| "split_once c (x # xs) =
    (if x = c then Some ([], xs) else map_option (\<lambda>(a, b). (x # a, b)) (split_once c xs))"

definition split_terminator :: "char \<Rightarrow> string \<Rightarrow> string list" where
  "split_terminator c s = (let parts = split_on c s in if last parts = [] then butlast parts else parts)"

definition strip_cr :: "string \<Rightarrow> string" where
  "strip_cr s = (if s \<noteq> [] \<and> last s = CHR 0x0D then butlast s else s)"

text \<open>\<^verbatim>\<open>str::lines\<close>: a final newline opens no line, and a carriage return goes with its newline.\<close>

definition str_lines :: "string \<Rightarrow> string list" where
  "str_lines s = (let parts = split_on CHR 0x0A s in
    map strip_cr (butlast parts) @ (if last parts = [] then [] else [last parts]))"

definition is_ascii_whitespace :: "char \<Rightarrow> bool" where
  "is_ascii_whitespace c \<longleftrightarrow> c \<in> {CHR 0x20, CHR 0x09, CHR 0x0A, CHR 0x0C, CHR 0x0D}"

text \<open>Environment variables by name; \<^verbatim>\<open>env::var\<close> refuses a value that is not Unicode.\<close>

type_synonym environment = "string \<Rightarrow> string option"

definition env_var :: "environment \<Rightarrow> string \<Rightarrow> string option" where
  "env_var env key = (case env key of
      Some v \<Rightarrow> if utf8_wellformed (map code_of v) then Some v else None
    | None \<Rightarrow> None)"

section \<open>Desktop entries\<close>

definition MAX_ENTRY_KEYS :: nat where "MAX_ENTRY_KEYS = 256"

type_synonym entry_values = "(string \<times> string) list"

definition valid_key :: "string \<Rightarrow> bool" where
  "valid_key key =
    (let base = (case split_once CHR ''['' key of Some (b, _) \<Rightarrow> b | None \<Rightarrow> key) in
     base \<noteq> [] \<and> list_all (\<lambda>c. is_ascii_alphanumeric c \<or> c = CHR ''-'') base
     \<and> (key = base
        \<or> take (length base) key = base
          \<and> (let suffix = drop (length base) key in
             suffix \<noteq> [] \<and> hd suffix = CHR ''['' \<and> last suffix = CHR '']'')))"

fun parse_lines :: "string list \<Rightarrow> entry_values \<Rightarrow> bool \<Rightarrow> bool \<Rightarrow> entry_values option" where
  "parse_lines [] kvs in_desktop_entry found_desktop_entry =
    (if found_desktop_entry then Some kvs else None)"
| "parse_lines (raw_line # rest) kvs in_desktop_entry found_desktop_entry =
    (let line = strip_cr raw_line in
     if line = [] \<or> hd line = CHR ''#'' then parse_lines rest kvs in_desktop_entry found_desktop_entry
     else if hd line = CHR ''['' then
       (if last line \<noteq> CHR '']''
          \<or> CHR ''['' \<in> set (butlast (tl line)) \<or> CHR '']'' \<in> set (butlast (tl line)) then None
        else if line = ''[Desktop Entry]'' then
          (if found_desktop_entry then None else parse_lines rest kvs True True)
        else parse_lines rest kvs False found_desktop_entry)
     else if \<not> found_desktop_entry then None
     else if \<not> in_desktop_entry then parse_lines rest kvs in_desktop_entry found_desktop_entry
     else (case split_once CHR ''='' line of
         None \<Rightarrow> None
       | Some (k, v) \<Rightarrow>
           (let key = trim k in
            if \<not> valid_key key \<or> length kvs = MAX_ENTRY_KEYS \<or> key \<in> fst ` set kvs then None
            else parse_lines rest (kvs @ [(key, trim v)]) in_desktop_entry found_desktop_entry)))"

definition parse_desktop :: "string \<Rightarrow> entry_values option" where
  "parse_desktop source =
    (if list_ex (\<lambda>c. is_control c \<and> c \<noteq> 10 \<and> c \<noteq> 13) (chars_str source) then None
     else parse_lines (str_lines source) [] False False)"

definition entry_boolean :: "entry_values \<Rightarrow> string \<Rightarrow> bool option" where
  "entry_boolean kvs key = (case map_of kvs key of
      None \<Rightarrow> Some False
    | Some v \<Rightarrow> if v = ''false'' then Some False else if v = ''true'' then Some True else None)"

definition unescape :: "char \<Rightarrow> char option" where
  "unescape c = (if c = CHR ''s'' then Some CHR 0x20
     else if c = CHR ''n'' then Some CHR 0x0A
     else if c = CHR ''t'' then Some CHR 0x09
     else if c = CHR ''r'' then Some CHR 0x0D
     else if c = CHR 0x5C then Some CHR 0x5C
     else None)"

fun decode_string :: "string \<Rightarrow> string option" where
  "decode_string [] = Some []"
| "decode_string (c # cs) =
    (if c \<noteq> CHR 0x5C then map_option ((#) c) (decode_string cs)
     else (case cs of
         [] \<Rightarrow> None
       | e # rest \<Rightarrow> (case unescape e of
           None \<Rightarrow> None
         | Some d \<Rightarrow> map_option ((#) d) (decode_string rest))))"

definition parse_list :: "string \<Rightarrow> string list option" where
  "parse_list value = those (map decode_string (split_terminator CHR '';'' value))"

definition visible_on_desktop :: "entry_values \<Rightarrow> string list \<Rightarrow> bool" where
  "visible_on_desktop kvs current =
    (let shown = map_of kvs ''OnlyShowIn''; hidden = map_of kvs ''NotShowIn'';
       only = Option.bind shown parse_list; never = Option.bind hidden parse_list in
     if shown \<noteq> None \<and> only = None \<or> hidden \<noteq> None \<and> never = None then False
     else if (case only of None \<Rightarrow> False | Some entries \<Rightarrow> list_all (\<lambda>d. d \<notin> set entries) current) then False
     else \<not> (case never of None \<Rightarrow> False | Some entries \<Rightarrow> list_ex (\<lambda>d. d \<in> set entries) current))"

definition locale_candidates :: "environment \<Rightarrow> string list" where
  "locale_candidates env =
    (let nonempty = (\<lambda>key. case env_var env key of Some v \<Rightarrow> if v = [] then None else Some v | None \<Rightarrow> None);
       full = (case nonempty ''LC_ALL'' of Some v \<Rightarrow> v | None \<Rightarrow>
         (case nonempty ''LC_MESSAGES'' of Some v \<Rightarrow> v | None \<Rightarrow>
           (case nonempty ''LANG'' of Some v \<Rightarrow> v | None \<Rightarrow> [])));
       locale_name = hd (split_on CHR ''.'' full) in
     if locale_name = [] \<or> locale_name = ''C'' \<or> locale_name = ''POSIX'' then []
     else remdups_adj ([locale_name]
       @ (case split_once CHR ''@'' locale_name of Some (w, _) \<Rightarrow> [w] | None \<Rightarrow> [])
       @ (case split_once CHR ''_'' locale_name of
            None \<Rightarrow> []
          | Some (language, _) \<Rightarrow>
              (case split_once CHR ''@'' locale_name of
                 Some (_, modifier) \<Rightarrow> [language @ ''@'' @ modifier]
               | None \<Rightarrow> []) @ [language])))"

fun first_localized :: "entry_values \<Rightarrow> string list \<Rightarrow> string option option" where
  "first_localized kvs [] = Some None"
| "first_localized kvs (l # ls) = (case map_of kvs (''Name['' @ l @ '']'') of
      None \<Rightarrow> first_localized kvs ls
    | Some value \<Rightarrow> (case decode_string value of
        None \<Rightarrow> None
      | Some v \<Rightarrow> if v \<noteq> [] then Some (Some v) else first_localized kvs ls))"

definition localized_name :: "environment \<Rightarrow> entry_values \<Rightarrow> string option" where
  "localized_name env kvs = (case first_localized kvs (locale_candidates env) of
      None \<Rightarrow> None
    | Some (Some v) \<Rightarrow> Some v
    | Some None \<Rightarrow> Option.bind (map_of kvs ''Name'') (\<lambda>n.
        Option.bind (decode_string n) (\<lambda>name. if name = [] then None else Some name)))"

section \<open>Exec lines\<close>

record ExecWord =
  ew_text :: string
  ew_quoted :: bool

record exec_state =
  es_words :: "ExecWord list"
  es_text :: string
  es_quoted :: bool
  es_word_quoted :: bool
  es_present :: bool
  es_closed_quote :: bool

definition is_exec_reserved :: "char \<Rightarrow> bool" where
  "is_exec_reserved c \<longleftrightarrow> c \<in> {CHR 0x27, CHR ''>'', CHR ''<'', CHR ''~'', CHR ''|'', CHR ''&'', CHR '';'',
    CHR ''$'', CHR ''*'', CHR ''?'', CHR ''#'', CHR ''('', CHR '')'', CHR 0x60}"

definition is_exec_escape :: "char \<Rightarrow> bool" where
  "is_exec_escape c \<longleftrightarrow> c \<in> {CHR 0x22, CHR 0x60, CHR ''$'', CHR 0x5C}"

definition close_word :: "exec_state \<Rightarrow> exec_state" where
  "close_word s = (if es_present s
     then s\<lparr>es_words := es_words s @ [\<lparr>ew_text = es_text s, ew_quoted = es_word_quoted s\<rparr>], es_text := [],
       es_word_quoted := False, es_present := False, es_closed_quote := False\<rparr>
     else s)"

definition push_char :: "char \<Rightarrow> exec_state \<Rightarrow> exec_state" where
  "push_char c s = s\<lparr>es_text := es_text s @ [c], es_present := True\<rparr>"

fun exec_loop :: "string \<Rightarrow> exec_state \<Rightarrow> exec_state option" where
  "exec_loop [] s = Some s"
| "exec_loop (c # cs) s =
    (if es_closed_quote s \<and> \<not> is_ascii_whitespace c then None
     else if c = CHR 0x22 then
       (if es_quoted s then exec_loop cs (s\<lparr>es_quoted := False, es_closed_quote := True\<rparr>)
        else if es_present s then None
        else exec_loop cs (s\<lparr>es_quoted := True, es_word_quoted := True, es_present := True\<rparr>))
     else if c = CHR 0x5C then
       (if \<not> es_quoted s then None
        else (case cs of
            [] \<Rightarrow> None
          | e # rest \<Rightarrow> if \<not> is_exec_escape e then None else exec_loop rest (push_char e s)))
     else if is_ascii_whitespace c \<and> \<not> es_quoted s then exec_loop cs (close_word s)
     else if \<not> es_quoted s \<and> is_exec_reserved c then None
     else exec_loop cs (push_char c s))"

definition exec_start :: exec_state where
  "exec_start = \<lparr>es_words = [], es_text = [], es_quoted = False, es_word_quoted = False,
    es_present = False, es_closed_quote = False\<rparr>"

definition exec_words :: "string \<Rightarrow> ExecWord list option" where
  "exec_words value = (case exec_loop value exec_start of
      None \<Rightarrow> None
    | Some s \<Rightarrow>
        if es_quoted s then None
        else
          (let ws = es_words s
             @ (if es_present s then [\<lparr>ew_text = es_text s, ew_quoted = es_word_quoted s\<rparr>] else []) in
           if ws = [] then None else Some ws))"

fun expand_literal :: "string \<Rightarrow> string option" where
  "expand_literal [] = Some []"
| "expand_literal (c # cs) =
    (if c \<noteq> CHR ''%'' then map_option ((#) c) (expand_literal cs)
     else (case cs of
         [] \<Rightarrow> None
       | d # rest \<Rightarrow> if d = CHR ''%'' then map_option ((#) CHR ''%'') (expand_literal rest) else None))"

definition dropped_fields :: "string list" where
  "dropped_fields = [''%f'', ''%F'', ''%u'', ''%U'', ''%d'', ''%D'', ''%n'', ''%N'', ''%v'', ''%m'']"

text \<open>The words one word expands to; \<^verbatim>\<open>to_str\<close> of the entry's path is \<open>None\<close> if it is not Unicode.\<close>

definition expand_word :: "ExecWord \<Rightarrow> string \<Rightarrow> string \<Rightarrow> string option \<Rightarrow> string list option" where
  "expand_word word name desktop_path icon =
    (if ew_quoted word \<and> CHR ''%'' \<in> set (ew_text word) then None
     else if ew_text word \<in> set dropped_fields then Some []
     else if ew_text word = ''%i'' then
       (case icon of
          None \<Rightarrow> Some []
        | Some i \<Rightarrow> map_option (\<lambda>icon. if icon = [] then [] else [''--icon'', icon]) (decode_string i))
     else if ew_text word = ''%c'' then Some [name]
     else if ew_text word = ''%k'' then
       (if utf8_wellformed (map code_of desktop_path) then Some [desktop_path] else None)
     else map_option (\<lambda>literal. [literal]) (expand_literal (ew_text word)))"

definition MAX_EXEC_ARGUMENTS :: nat where "MAX_EXEC_ARGUMENTS = 128"

fun expand_words :: "ExecWord list \<Rightarrow> string \<Rightarrow> string \<Rightarrow> string option \<Rightarrow> string list \<Rightarrow> string list option" where
  "expand_words [] name desktop_path icon expanded = Some expanded"
| "expand_words (w # ws) name desktop_path icon expanded =
    (case expand_word w name desktop_path icon of
       None \<Rightarrow> None
     | Some output \<Rightarrow>
         if length (expanded @ output) > MAX_EXEC_ARGUMENTS then None
         else expand_words ws name desktop_path icon (expanded @ output))"

text \<open>Paths: \<^verbatim>\<open>is_absolute\<close>, \<^verbatim>\<open>join\<close> and \<^verbatim>\<open>components\<close> on Unix.\<close>

definition is_absolute :: "string \<Rightarrow> bool" where
  "is_absolute p \<longleftrightarrow> p \<noteq> [] \<and> hd p = CHR ''/''"

definition path_join :: "string \<Rightarrow> string \<Rightarrow> string" where
  "path_join p q = (if is_absolute q then q
     else if p = [] \<or> last p = CHR ''/'' then p @ q
     else p @ ''/'' @ q)"

definition path_components :: "string \<Rightarrow> string list" where
  "path_components p = (let parts = split_on CHR ''/'' p in
    (if is_absolute p then [''/''] else if hd parts = ''.'' then [''.''] else [])
    @ filter (\<lambda>c. c \<noteq> [] \<and> c \<noteq> ''.'') parts)"

definition resolve_program :: "environment \<Rightarrow> (string \<Rightarrow> bool) \<Rightarrow> string \<Rightarrow> string option" where
  "resolve_program env executable_file value =
    (if is_absolute value then (if executable_file value then Some value else None)
     else if length (path_components value) \<noteq> 1 then None
     else Option.bind (env ''PATH'') (\<lambda>path.
       find executable_file (map (\<lambda>directory. path_join directory value)
         (filter is_absolute (take 64 (split_on CHR '':'' path))))))"

definition parse_exec :: "environment \<Rightarrow> (string \<Rightarrow> bool) \<Rightarrow> string \<Rightarrow> string \<Rightarrow> string \<Rightarrow> string option
    \<Rightarrow> (string \<times> string list) option" where
  "parse_exec env executable_file value name desktop_path icon =
    (if value = [] \<or> \<not> list_all (\<lambda>c. code_of c < 128) value then None
     else
       Option.bind (decode_string value) (\<lambda>value.
       Option.bind (exec_words value) (\<lambda>ws.
       Option.bind (expand_words ws name desktop_path icon []) (\<lambda>expanded.
       case expanded of
         [] \<Rightarrow> None
       | program # arguments \<Rightarrow>
           if program = [] \<or> CHR ''='' \<in> set program then None
           else map_option (\<lambda>p. (p, arguments)) (resolve_program env executable_file program)))))"

section \<open>Arguments reach the program verbatim\<close>

text \<open>The quoting an entry's author writes: every word in double quotes, backslashes doubled throughout.\<close>

definition quote_char :: "char \<Rightarrow> string" where
  "quote_char c = (if is_exec_escape c then [CHR 0x5C, c] else [c])"

definition quote_word :: "string \<Rightarrow> string" where
  "quote_word w = CHR 0x22 # concat (map quote_char w) @ [CHR 0x22]"

fun exec_line :: "string list \<Rightarrow> string" where
  "exec_line [] = []"
| "exec_line [w] = quote_word w"
| "exec_line (w # ws) = quote_word w @ CHR 0x20 # exec_line ws"

definition escape_backslashes :: "string \<Rightarrow> string" where
  "escape_backslashes s = concat (map (\<lambda>c. if c = CHR 0x5C then [c, c] else [c]) s)"

lemma decode_escape: "decode_string (escape_backslashes s) = Some s"
  by (induction s) (simp_all add: escape_backslashes_def unescape_def)

lemma exec_loop_quoted:
  "es_quoted s \<Longrightarrow> \<not> es_closed_quote s \<Longrightarrow> es_present s \<Longrightarrow>
    exec_loop (concat (map quote_char w) @ rest) s = exec_loop rest (s\<lparr>es_text := es_text s @ w\<rparr>)"
proof (induction w arbitrary: s)
  case (Cons c w)
  have "exec_loop (quote_char c @ concat (map quote_char w) @ rest) s
      = exec_loop (concat (map quote_char w) @ rest) (push_char c s)"
    using Cons.prems by (auto simp: quote_char_def is_exec_escape_def)
  also have "\<dots> = exec_loop rest ((push_char c s)\<lparr>es_text := es_text (push_char c s) @ w\<rparr>)"
    using Cons.prems by (intro Cons.IH) (simp_all add: push_char_def)
  also have "(push_char c s)\<lparr>es_text := es_text (push_char c s) @ w\<rparr> = s\<lparr>es_text := es_text s @ c # w\<rparr>"
    using Cons.prems by (simp add: push_char_def)
  finally show ?case by simp
qed simp

definition fresh_word :: "ExecWord list \<Rightarrow> exec_state" where
  "fresh_word ws = exec_start\<lparr>es_words := ws\<rparr>"

lemma exec_loop_word:
  "exec_loop (quote_word w @ rest) (fresh_word ws) = exec_loop rest
    \<lparr>es_words = ws, es_text = w, es_quoted = False, es_word_quoted = True, es_present = True, es_closed_quote = True\<rparr>"
  by (simp add: quote_word_def fresh_word_def exec_start_def exec_loop_quoted)

lemma exec_loop_line:
  "ws \<noteq> [] \<Longrightarrow> exec_loop (exec_line ws) (fresh_word acc) = Some
    \<lparr>es_words = acc @ map (\<lambda>w. \<lparr>ew_text = w, ew_quoted = True\<rparr>) (butlast ws), es_text = last ws,
     es_quoted = False, es_word_quoted = True, es_present = True, es_closed_quote = True\<rparr>"
proof (induction ws arbitrary: acc rule: exec_line.induct)
  case (2 w)
  then show ?case using exec_loop_word [of w "[]" acc] by simp
next
  case (3 w v ws)
  have "exec_loop (exec_line (w # v # ws)) (fresh_word acc)
      = exec_loop (exec_line (v # ws)) (fresh_word (acc @ [\<lparr>ew_text = w, ew_quoted = True\<rparr>]))"
    unfolding exec_line.simps append_Cons append_assoc exec_loop_word
    by (simp add: is_ascii_whitespace_def close_word_def fresh_word_def exec_start_def)
  with 3 show ?case by simp
qed simp

lemma exec_words_line:
  assumes "ws \<noteq> []"
  shows "exec_words (exec_line ws) = Some (map (\<lambda>w. \<lparr>ew_text = w, ew_quoted = True\<rparr>) ws)"
proof -
  have start: "exec_start = fresh_word []" by (simp add: fresh_word_def exec_start_def)
  have "map f ws = map f (butlast ws) @ [f (last ws)]" for f :: "string \<Rightarrow> ExecWord"
    using assms by (metis append_butlast_last_id list.simps(8,9) map_append)
  then show ?thesis
    unfolding exec_words_def start exec_loop_line [OF assms] by simp
qed

lemma expand_literal_plain: "CHR ''%'' \<notin> set w \<Longrightarrow> expand_literal w = Some w"
  by (induction w) auto

lemma expand_word_plain:
  "CHR ''%'' \<notin> set w \<Longrightarrow> expand_word \<lparr>ew_text = w, ew_quoted = q\<rparr> name path icon = Some [w]"
proof -
  assume plain: "CHR ''%'' \<notin> set w"
  have "list_all (\<lambda>f. CHR ''%'' \<in> set f) (''%i'' # ''%c'' # ''%k'' # dropped_fields)"
    by (simp add: dropped_fields_def)
  with plain have "w \<notin> set (''%i'' # ''%c'' # ''%k'' # dropped_fields)"
    by (metis list_all_iff)
  then show ?thesis
    using plain by (simp add: expand_word_def expand_literal_plain)
qed

lemma expand_words_plain:
  "\<forall>w\<in>set ws. CHR ''%'' \<notin> set w \<Longrightarrow> length acc + length ws \<le> MAX_EXEC_ARGUMENTS \<Longrightarrow>
    expand_words (map (\<lambda>w. \<lparr>ew_text = w, ew_quoted = True\<rparr>) ws) name path icon acc = Some (acc @ ws)"
  by (induction ws arbitrary: acc) (simp_all add: expand_word_plain)

lemma ascii_quoting:
  "list_all (list_all (\<lambda>c. code_of c < 128)) ws \<Longrightarrow> list_all (\<lambda>c. code_of c < 128) (escape_backslashes (exec_line ws))"
proof -
  assume "list_all (list_all (\<lambda>c. code_of c < 128)) ws"
  then have "list_all (\<lambda>c. code_of c < 128) (exec_line ws)"
    by (induction ws rule: exec_line.induct) (auto simp: quote_word_def quote_char_def list_all_iff)
  then show ?thesis by (auto simp: escape_backslashes_def list_all_iff)
qed

text \<open>
  C39. Launch arguments reach the program verbatim: an \<^verbatim>\<open>Exec\<close> line that quotes a program and its
  arguments is parsed back to exactly those strings, whatever spaces, quotes, dollar signs or shell
  operators they hold, so nothing between the entry and the process interprets them. The words are
  ASCII, without percent signs (field codes), and at most \<^verbatim>\<open>MAX_EXEC_ARGUMENTS\<close> many.
\<close>

theorem exec_arguments_verbatim:
  assumes "resolve_program env executable_file program = Some path"
    and "program \<noteq> []" and "CHR ''='' \<notin> set program"
    and "list_all (list_all (\<lambda>c. code_of c < 128 \<and> c \<noteq> CHR ''%'')) (program # arguments)"
    and "length (program # arguments) \<le> MAX_EXEC_ARGUMENTS"
  shows "parse_exec env executable_file (escape_backslashes (exec_line (program # arguments))) name desktop_path icon
    = Some (path, arguments)"
proof -
  let ?line = "escape_backslashes (exec_line (program # arguments))"
  have "?line \<noteq> []"
    using decode_escape [of "exec_line (program # arguments)"] exec_words_line [of "program # arguments"]
    by (auto simp: exec_words_def exec_start_def)
  moreover have "list_all (\<lambda>c. code_of c < 128) ?line"
    using assms(4) by (intro ascii_quoting) (auto simp: list_all_iff)
  moreover have "expand_words (map (\<lambda>w. \<lparr>ew_text = w, ew_quoted = True\<rparr>) (program # arguments)) name desktop_path icon []
      = Some (program # arguments)"
    using assms(4,5) expand_words_plain [of "program # arguments" "[]" name desktop_path icon] by (auto simp: list_all_iff)
  ultimately show ?thesis
    using assms(1-3) unfolding parse_exec_def
    by (simp add: decode_escape exec_words_line del: exec_line.simps)
qed

theorem exec_arguments_verbatim_witness:
  "parse_exec (\<lambda>_. None) (\<lambda>p. p = ''/bin/echo'')
      (escape_backslashes (exec_line [''/bin/echo'', ''two words'', ''$HOME; (rm)''])) ''Echo'' ''/e.desktop'' None
    = Some (''/bin/echo'', [''two words'', ''$HOME; (rm)''])"
  by (rule exec_arguments_verbatim) (simp_all add: resolve_program_def is_absolute_def MAX_EXEC_ARGUMENTS_def)

section \<open>Unquoted words are inert\<close>

definition inert :: "char \<Rightarrow> bool" where
  "inert c \<longleftrightarrow> \<not> is_exec_reserved c \<and> \<not> is_ascii_whitespace c \<and> c \<noteq> CHR 0x22 \<and> c \<noteq> CHR 0x5C"

definition exec_inv :: "exec_state \<Rightarrow> bool" where
  "exec_inv s \<longleftrightarrow> (\<forall>w\<in>set (es_words s). \<not> ew_quoted w \<longrightarrow> ew_text w \<noteq> [] \<and> list_all inert (ew_text w))
    \<and> (es_quoted s \<longrightarrow> es_word_quoted s) \<and> (es_word_quoted s \<longrightarrow> es_present s)
    \<and> (es_present s \<longrightarrow> \<not> es_word_quoted s \<longrightarrow> es_text s \<noteq> [] \<and> list_all inert (es_text s))
    \<and> (\<not> es_present s \<longrightarrow> es_text s = [])"

lemma exec_inv_push:
  "exec_inv s \<Longrightarrow> es_word_quoted s \<or> inert c \<Longrightarrow> exec_inv (push_char c s)"
  by (cases "es_present s") (auto simp: exec_inv_def push_char_def)

lemma exec_inv_close: "exec_inv s \<Longrightarrow> \<not> es_quoted s \<Longrightarrow> exec_inv (close_word s)"
  by (auto simp: exec_inv_def close_word_def)

lemma exec_loop_step:
  assumes run: "exec_loop (c # cs) s = Some s'" and inv: "exec_inv s"
  obtains ys t where "length ys \<le> length cs" "exec_loop ys t = Some s'" "exec_inv t"
proof -
  have word: "es_quoted s \<Longrightarrow> es_word_quoted s" using inv by (simp add: exec_inv_def)
  have open_ok: "\<not> (es_closed_quote s \<and> \<not> is_ascii_whitespace c)" using run by (auto split: if_splits)
  consider "c = CHR 0x22" | "c = CHR 0x5C" | "c \<noteq> CHR 0x22" "c \<noteq> CHR 0x5C" "is_ascii_whitespace c \<and> \<not> es_quoted s"
    | "c \<noteq> CHR 0x22" "c \<noteq> CHR 0x5C" "\<not> (is_ascii_whitespace c \<and> \<not> es_quoted s)" by blast
  then show thesis
  proof cases
    case 1
    have "exec_inv (s\<lparr>es_quoted := False, es_closed_quote := True\<rparr>)"
      "\<not> es_present s \<Longrightarrow> exec_inv (s\<lparr>es_quoted := True, es_word_quoted := True, es_present := True\<rparr>)"
      using inv by (auto simp: exec_inv_def)
    then show thesis
      using run open_ok 1 that by (simp split: if_splits) (metis order_refl)+
  next
    case 2
    with run open_ok obtain e rest where "cs = e # rest" "es_quoted s" "exec_loop rest (push_char e s) = Some s'"
      by (simp split: if_splits list.splits)
    with that [of rest "push_char e s"] show thesis using inv word exec_inv_push by simp
  next
    case 3
    with run open_ok have "exec_loop cs (close_word s) = Some s'" by simp
    with that [of cs "close_word s"] show thesis using inv 3 exec_inv_close by simp
  next
    case 4
    with run open_ok have next_run: "exec_loop cs (push_char c s) = Some s'" and "es_quoted s \<or> \<not> is_exec_reserved c"
      by (simp_all split: if_splits)
    then have "es_word_quoted s \<or> inert c" using 4 word by (auto simp: inert_def)
    with that [of cs "push_char c s"] show thesis using inv next_run exec_inv_push by simp
  qed
qed

lemma exec_loop_inv: "exec_loop cs s = Some s' \<Longrightarrow> exec_inv s \<Longrightarrow> exec_inv s'"
proof (induction "length cs" arbitrary: cs s rule: less_induct)
  case less
  show ?case
  proof (cases cs)
    case (Cons c rest)
    from less.prems [unfolded Cons] obtain ys t where
      "length ys \<le> length rest" "exec_loop ys t = Some s'" "exec_inv t" by (rule exec_loop_step)
    with less.hyps [of ys t] Cons show ?thesis by simp
  qed (use less.prems in simp)
qed

text \<open>
  An unquoted word of an accepted \<^verbatim>\<open>Exec\<close> line is nonempty and holds no shell operator, quote,
  backslash or blank.
\<close>

lemma exec_unquoted_inert:
  assumes "exec_words value = Some ws"
  shows "ws \<noteq> [] \<and> (\<forall>w\<in>set ws. \<not> ew_quoted w \<longrightarrow> ew_text w \<noteq> [] \<and> list_all inert (ew_text w))"
proof -
  from assms obtain s where run: "exec_loop value exec_start = Some s"
    and ws: "ws = es_words s @ (if es_present s then [\<lparr>ew_text = es_text s, ew_quoted = es_word_quoted s\<rparr>] else [])"
    and "ws \<noteq> []"
    by (auto simp: exec_words_def Let_def split: option.splits if_splits)
  have "exec_inv s" by (rule exec_loop_inv [OF run]) (simp add: exec_inv_def exec_start_def)
  with ws \<open>ws \<noteq> []\<close> show ?thesis by (auto simp: exec_inv_def)
qed

section \<open>Parsing inverts printing\<close>

text \<open>An entry as scalars: keys and values as the author writes them.\<close>

definition entry_key_ok :: "nat list \<Rightarrow> bool" where
  "entry_key_ok k \<longleftrightarrow> list_all (\<lambda>c. is_scalar c \<and> \<not> is_control c \<and> c \<noteq> code_of CHR ''='') k
    \<and> trim_scalars k = k \<and> valid_key (utf8_of k)"

definition entry_value_ok :: "nat list \<Rightarrow> bool" where
  "entry_value_ok v \<longleftrightarrow> list_all (\<lambda>c. is_scalar c \<and> \<not> is_control c) v \<and> trim_scalars v = v"

definition print_line :: "nat list \<times> nat list \<Rightarrow> string" where
  "print_line kv = utf8_of (fst kv) @ CHR ''='' # utf8_of (snd kv)"

definition print_desktop :: "(nat list \<times> nat list) list \<Rightarrow> string" where
  "print_desktop kvs = ''[Desktop Entry]'' @ CHR 0x0A # concat (map (\<lambda>kv. print_line kv @ [CHR 0x0A]) kvs)"

lemma utf8_of_simps [simp]: "utf8_of [] = []" "utf8_of (c # cs) = utf8_encode c @ utf8_of cs"
  "utf8_of (cs @ ds) = utf8_of cs @ utf8_of ds"
  by (simp_all add: utf8_of_def)

lemma utf8_encode_ascii: "c < 128 \<Longrightarrow> utf8_encode c = [char_of c]"
  by (simp add: utf8_encode_def)

lemma utf8_encode_high:
  assumes "is_scalar c" "\<not> c < 128" "x \<in> set (utf8_encode c)"
  shows "128 \<le> code_of x"
proof -
  have "c < 1114112" using assms(1) by (auto simp: is_scalar_def)
  then have "c div 262144 < 16" "c < 65536 \<Longrightarrow> c div 4096 < 32" "c < 2048 \<Longrightarrow> c div 64 < 64"
    by (auto simp: less_mult_imp_div_less)
  then show ?thesis using assms(2,3) by (auto simp: utf8_encode_def split: if_splits)
qed

lemma utf8_of_ascii_member:
  assumes "list_all is_scalar cs" "x \<in> set (utf8_of cs)" "code_of x < 128"
  shows "code_of x \<in> set cs"
proof -
  from assms obtain c where c: "c \<in> set cs" "x \<in> set (utf8_encode c)" by (auto simp: utf8_of_def)
  then have "is_scalar c" using assms(1) by (simp add: list_all_iff)
  with c(2) assms(3) have "c < 128" using utf8_encode_high not_less by blast
  with c show ?thesis by (simp add: utf8_encode_ascii)
qed

lemma utf8_of_code: "list_all (\<lambda>c. code_of c < 128) s \<Longrightarrow> utf8_of (map code_of s) = s"
  by (induction s) (simp_all add: utf8_encode_ascii)

lemma utf8_of_concat: "utf8_of (concat css) = concat (map utf8_of css)"
  by (induction css) simp_all

definition entry_scalars :: "(nat list \<times> nat list) list \<Rightarrow> nat list" where
  "entry_scalars kvs = map code_of ''[Desktop Entry]'' @ 10 # concat (map (\<lambda>(k, v). k @ 61 # v @ [10]) kvs)"

lemma print_desktop_scalars: "print_desktop kvs = utf8_of (entry_scalars kvs)"
proof -
  have "(\<lambda>kv. print_line kv @ [CHR 0x0A]) = utf8_of \<circ> (\<lambda>(k, v). k @ 61 # v @ [10])"
    by (auto simp: print_line_def utf8_encode_ascii char_of_def bit_0 fun_eq_iff)
  moreover have "utf8_of (map code_of ''[Desktop Entry]'') = ''[Desktop Entry]''"
    by (rule utf8_of_code) simp
  moreover have "utf8_encode 10 = [CHR 0x0A]" by (simp add: utf8_encode_ascii char_of_def bit_0)
  ultimately show ?thesis
    by (simp only: print_desktop_def entry_scalars_def utf8_of_simps utf8_of_concat map_map append_Cons append_Nil)
qed

lemma entry_scalars_ok:
  assumes "\<forall>(k, v)\<in>set kvs. entry_key_ok k \<and> entry_value_ok v"
  shows "list_all (\<lambda>c. is_scalar c \<and> (is_control c \<longrightarrow> c = 10)) (entry_scalars kvs)"
proof -
  have "list_all (\<lambda>c. is_scalar c \<and> (is_control c \<longrightarrow> c = 10)) (map code_of ''[Desktop Entry]'')"
    by (simp add: is_scalar_def is_control_def)
  moreover have "is_scalar 10" "is_scalar 61" "\<not> is_control 61" by (simp_all add: is_scalar_def is_control_def)
  ultimately show ?thesis
    using assms unfolding entry_scalars_def
    by (fastforce simp: list_all_iff entry_key_ok_def entry_value_ok_def)
qed

lemma split_on_lines:
  "\<forall>l\<in>set ls. c \<notin> set l \<Longrightarrow> split_on c (concat (map (\<lambda>l. l @ [c]) ls)) = ls @ [[]]"
  by (induction ls) (simp_all add: split_on_append_sep)

lemma split_once_free: "c \<notin> set k \<Longrightarrow> split_once c (k @ c # v) = Some (k, v)"
  by (induction k) auto

lemma strip_cr_id: "CHR 0x0D \<notin> set l \<Longrightarrow> strip_cr l = l"
  by (metis last_in_set strip_cr_def)

lemma valid_key_hd:
  assumes "valid_key k"
  shows "k \<noteq> [] \<and> hd k \<noteq> CHR ''['' \<and> hd k \<noteq> CHR ''#''"
proof (cases k)
  case (Cons x xs)
  with assms have "is_ascii_alphanumeric x \<or> x = CHR ''-''"
    by (auto simp: valid_key_def Let_def split: option.splits if_splits)
  then show ?thesis using Cons by (auto simp: is_ascii_alphanumeric_def)
qed (use assms in \<open>simp add: valid_key_def\<close>)

lemma printed_line:
  assumes "entry_key_ok k" "entry_value_ok v"
  shows "CHR 0x0A \<notin> set (print_line (k, v))" "CHR 0x0D \<notin> set (print_line (k, v))"
    "split_once CHR ''='' (print_line (k, v)) = Some (utf8_of k, utf8_of v)"
    "trim (utf8_of k) = utf8_of k" "trim (utf8_of v) = utf8_of v"
    "print_line (k, v) \<noteq> []" "hd (print_line (k, v)) \<noteq> CHR ''#''" "hd (print_line (k, v)) \<noteq> CHR ''[''"
proof -
  have scalars: "list_all is_scalar k" "list_all is_scalar v"
    using assms by (auto simp: entry_key_ok_def entry_value_ok_def list_all_iff)
  have free: "code_of x \<notin> set k" "code_of x \<notin> set v" if "is_control (code_of x)" for x
    using assms that by (auto simp: entry_key_ok_def entry_value_ok_def list_all_iff)
  have "x \<notin> set (utf8_of k) \<and> x \<notin> set (utf8_of v)" if "is_control (code_of x)" "code_of x < 128" for x
    using utf8_of_ascii_member [OF scalars(1)] utf8_of_ascii_member [OF scalars(2)] free that by blast
  from this [of "CHR 0x0A"] this [of "CHR 0x0D"]
  show "CHR 0x0A \<notin> set (print_line (k, v))" "CHR 0x0D \<notin> set (print_line (k, v))"
    by (simp_all add: print_line_def is_control_def)
  have "code_of CHR ''='' \<notin> set k" using assms(1) by (auto simp: entry_key_ok_def list_all_iff)
  then have "CHR ''='' \<notin> set (utf8_of k)" using utf8_of_ascii_member [OF scalars(1), of "CHR ''=''"] by auto
  then show "split_once CHR ''='' (print_line (k, v)) = Some (utf8_of k, utf8_of v)"
    by (simp add: print_line_def split_once_free)
  show "trim (utf8_of k) = utf8_of k" "trim (utf8_of v) = utf8_of v"
    using assms scalars by (simp_all add: trim_def chars_str_utf8_of entry_key_ok_def entry_value_ok_def)
  have "valid_key (utf8_of k)" using assms(1) by (simp add: entry_key_ok_def)
  with valid_key_hd [of "utf8_of k"]
  show "print_line (k, v) \<noteq> []" "hd (print_line (k, v)) \<noteq> CHR ''#''" "hd (print_line (k, v)) \<noteq> CHR ''[''"
    by (simp_all add: print_line_def)
qed

definition entry_bytes :: "(nat list \<times> nat list) list \<Rightarrow> entry_values" where
  "entry_bytes kvs = map (\<lambda>(k, v). (utf8_of k, utf8_of v)) kvs"

lemma parse_printed_lines:
  "\<forall>(k, v)\<in>set kvs. entry_key_ok k \<and> entry_value_ok v \<Longrightarrow> distinct (map fst (acc @ entry_bytes kvs)) \<Longrightarrow>
    length acc + length kvs \<le> MAX_ENTRY_KEYS \<Longrightarrow>
    parse_lines (map print_line kvs) acc True True = Some (acc @ entry_bytes kvs)"
proof (induction kvs arbitrary: acc)
  case (Cons kv kvs)
  obtain k v where kv: "kv = (k, v)" by (cases kv)
  with Cons.prems(1) have ok: "entry_key_ok k" "entry_value_ok v" by auto
  note line = printed_line [OF ok]
  have "valid_key (utf8_of k)" using ok(1) by (simp add: entry_key_ok_def)
  moreover have "utf8_of k \<notin> fst ` set acc" using Cons.prems(2) kv by (auto simp: entry_bytes_def)
  ultimately have "parse_lines (map print_line (kv # kvs)) acc True True
      = parse_lines (map print_line kvs) (acc @ [(utf8_of k, utf8_of v)]) True True"
    using Cons.prems(3) by (simp add: kv line strip_cr_id)
  also have "\<dots> = Some ((acc @ [(utf8_of k, utf8_of v)]) @ entry_bytes kvs)"
    using Cons.prems kv by (intro Cons.IH) (auto simp: entry_bytes_def)
  finally show ?case by (simp add: entry_bytes_def kv)
qed (simp add: entry_bytes_def)

text \<open>
  Parsing inverts printing: a desktop entry of at most 256 distinct valid keys, whose keys and
  values are trimmed and free of control characters (and keys of the equals sign), is read back from
  its text exactly, for every Unicode value.
\<close>

theorem desktop_entry_round_trip:
  assumes "\<forall>(k, v)\<in>set kvs. entry_key_ok k \<and> entry_value_ok v"
    and "distinct (map fst kvs)" and "length kvs \<le> MAX_ENTRY_KEYS"
  shows "parse_desktop (print_desktop kvs) = Some (entry_bytes kvs)"
proof -
  let ?header = "''[Desktop Entry]''"
  have "list_all is_scalar (entry_scalars kvs)"
    using entry_scalars_ok [OF assms(1)] by (auto simp: list_all_iff)
  then have "chars_str (print_desktop kvs) = entry_scalars kvs"
    by (simp add: print_desktop_scalars chars_str_utf8_of)
  then have clean: "\<not> list_ex (\<lambda>c. is_control c \<and> c \<noteq> 10 \<and> c \<noteq> 13) (chars_str (print_desktop kvs))"
    using entry_scalars_ok [OF assms(1)] by (auto simp: list_all_iff list_ex_iff)
  have free: "\<forall>l\<in>set (?header # map print_line kvs). CHR 0x0A \<notin> set l \<and> CHR 0x0D \<notin> set l"
    using assms(1) by (auto simp: printed_line(1,2))
  have source: "print_desktop kvs = concat (map (\<lambda>l. l @ [CHR 0x0A]) (?header # map print_line kvs))"
    by (simp add: print_desktop_def comp_def)
  have "split_on CHR 0x0A (print_desktop kvs) = (?header # map print_line kvs) @ [[]]"
    unfolding source using free by (intro split_on_lines) blast
  then have lines: "str_lines (print_desktop kvs) = ?header # map print_line kvs"
    using free by (simp add: str_lines_def strip_cr_id map_idI butlast_append)
  have "\<forall>k\<in>fst ` set kvs. chars_str (utf8_of k) = k"
    using assms(1) by (auto simp: entry_key_ok_def list_all_iff intro!: chars_str_utf8_of)
  then have "inj_on utf8_of (fst ` set kvs)" by (metis inj_on_inverseI)
  then have "distinct (map utf8_of (map fst kvs))"
    using assms(2) by (simp only: distinct_map list.set_map simp_thms)
  then have "distinct (map fst ([] @ entry_bytes kvs))"
    by (simp add: entry_bytes_def comp_def case_prod_unfold)
  from parse_printed_lines [OF assms(1) this] assms(3)
  have "parse_lines (map print_line kvs) [] True True = Some (entry_bytes kvs)" by simp
  moreover have "parse_lines (?header # map print_line kvs) [] False False = parse_lines (map print_line kvs) [] True True"
    by (simp add: strip_cr_def)
  ultimately show ?thesis by (simp only: parse_desktop_def clean lines if_False)
qed

theorem desktop_entry_round_trip_witness:
  "parse_desktop (print_desktop [(map code_of ''Type'', map code_of ''Application''), (map code_of ''Name'', [233])])
    = Some (entry_bytes [(map code_of ''Type'', map code_of ''Application''), (map code_of ''Name'', [233])])"
  by (rule desktop_entry_round_trip) (simp_all add: entry_key_ok_def entry_value_ok_def is_scalar_def is_control_def
    trim_scalars_def is_whitespace_def utf8_of_code valid_key_def is_ascii_alphanumeric_def MAX_ENTRY_KEYS_def
    utf8_encode_ascii char_of_def bit_0)

end
