(* ===== verification/Launch_Catalog.thy ===== *)
theory Launch_Catalog
  imports Desktop_Entry Provider_Config "HOL-Library.Multiset"
begin

text \<open>
  Discovery of launchable desktop entries, the session catalog and the launch supervisor
  (\<^verbatim>\<open>agent-seat-x11/src/launch.rs\<close>). The file system and the process environment are a record of what
  each system call answers during one discovery; a relative path is the list of its file names, which
  is how the code builds it. Starting a process is a parameter: what it is given, a program with its
  arguments, is a value of the model.
\<close>

section \<open>Failures and environment\<close>

record LaunchFailure =
  lf_code :: ErrorCode
  lf_retry :: Retry
  lf_message :: string

definition Launch_refused :: "string \<Rightarrow> LaunchFailure" where
  "Launch_refused m = \<lparr>lf_code = Err_Refused, lf_retry = Retry_Never, lf_message = m\<rparr>"
definition Launch_unavailable :: "string \<Rightarrow> LaunchFailure" where
  "Launch_unavailable m = \<lparr>lf_code = Err_Unavailable, lf_retry = Retry_Never, lf_message = m\<rparr>"
definition Launch_invalid :: "string \<Rightarrow> LaunchFailure" where
  "Launch_invalid m = \<lparr>lf_code = Err_InvalidArgument, lf_retry = Retry_Never, lf_message = m\<rparr>"
definition Launch_too_large :: "string \<Rightarrow> LaunchFailure" where
  "Launch_too_large m = \<lparr>lf_code = Err_TooLarge, lf_retry = Retry_Never, lf_message = m\<rparr>"
definition Launch_internal :: "string \<Rightarrow> LaunchFailure" where
  "Launch_internal m = \<lparr>lf_code = Err_Internal, lf_retry = Retry_Never, lf_message = m\<rparr>"

datatype file_kind = Kind_File | Kind_Dir | Kind_Symlink | Kind_Other

record file_meta =
  fm_kind :: file_kind
  fm_dev :: nat
  fm_ino :: nat
  fm_len :: nat
  fm_mode :: u32

record launch_fs =
  fs_env :: environment
  fs_symlink_metadata :: "string \<Rightarrow> file_meta option"
  fs_metadata :: "string \<Rightarrow> file_meta option"
  fs_read_dir :: "string \<Rightarrow> string option list option"
  fs_open :: "string \<Rightarrow> (file_meta option \<times> byte list option) option"

definition MAX_INSTALLED_APPLICATIONS :: nat where "MAX_INSTALLED_APPLICATIONS = 4096"
definition MAX_SCANNED_PATHS :: nat where "MAX_SCANNED_PATHS = 16384"
definition MAX_DIRECTORY_DEPTH :: nat where "MAX_DIRECTORY_DEPTH = 16"
definition MAX_DESKTOP_BYTES :: nat where "MAX_DESKTOP_BYTES = 64 * 1024"
definition MAX_DATA_ROOTS :: nat where "MAX_DATA_ROOTS = 32"
definition MAX_ACTIVE_CHILDREN :: nat where "MAX_ACTIVE_CHILDREN = 64"
definition MAX_DELEGATED_ENVIRONMENT_BYTES :: nat where "MAX_DELEGATED_ENVIRONMENT_BYTES = 4096"

section \<open>Roots\<close>

record DataRoot =
  dr_applications :: string
  dr_user_entry :: bool

definition absolute_path :: "string \<Rightarrow> string \<Rightarrow> LaunchFailure + string" where
  "absolute_path value variable =
    (if is_absolute value then Inr value
     else if variable = ''HOME'' then Inl (Launch_unavailable ''HOME is not absolute'')
     else Inl (Launch_unavailable ''XDG_DATA_HOME is not absolute''))"

fun add_roots :: "string list \<Rightarrow> DataRoot list \<Rightarrow> LaunchFailure + DataRoot list" where
  "add_roots [] roots = Inr roots"
| "add_roots (value # rest) roots =
    (if length roots = MAX_DATA_ROOTS then Inl (Launch_too_large ''XDG data root count exceeds its bound'')
     else if \<not> is_absolute value then Inl (Launch_unavailable ''XDG_DATA_DIRS contains a relative path'')
     else
       (let applications = path_join value ''applications'' in
        if list_ex (\<lambda>root. path_components (dr_applications root) = path_components applications) roots
        then add_roots rest roots
        else add_roots rest (roots @ [\<lparr>dr_applications = applications, dr_user_entry = False\<rparr>])))"

definition data_roots :: "environment \<Rightarrow> LaunchFailure + DataRoot list" where
  "data_roots env =
    res_bind (case env ''XDG_DATA_HOME'' of
        Some value \<Rightarrow> if value \<noteq> [] then absolute_path value ''XDG_DATA_HOME''
          else res_bind (ok_or (env ''HOME'') (Launch_unavailable ''HOME is unavailable for XDG discovery'')) (\<lambda>home.
            map_ok (\<lambda>h. path_join h ''.local/share'') (absolute_path home ''HOME''))
      | None \<Rightarrow> res_bind (ok_or (env ''HOME'') (Launch_unavailable ''HOME is unavailable for XDG discovery'')) (\<lambda>home.
          map_ok (\<lambda>h. path_join h ''.local/share'') (absolute_path home ''HOME''))) (\<lambda>user.
    (let system = (case env ''XDG_DATA_DIRS'' of
         Some value \<Rightarrow> if value \<noteq> [] then value else ''/usr/local/share:/usr/share''
       | None \<Rightarrow> ''/usr/local/share:/usr/share'') in
     add_roots (split_on CHR '':'' system)
       [\<lparr>dr_applications = path_join user ''applications'', dr_user_entry = True\<rparr>]))"

definition current_desktops :: "environment \<Rightarrow> LaunchFailure + string list" where
  "current_desktops env =
    (let value = (case env_var env ''XDG_CURRENT_DESKTOP'' of Some v \<Rightarrow> v | None \<Rightarrow> []) in
     if length value > 4096 then Inl (Launch_too_large ''XDG_CURRENT_DESKTOP exceeds its bound'')
     else
       (let desktops = filter (\<lambda>d. d \<noteq> []) (split_on CHR '':'' value) in
        if length desktops > MAX_DATA_ROOTS
        then Inl (Launch_too_large ''XDG_CURRENT_DESKTOP exceeds its item bound'')
        else Inr desktops))"

section \<open>Scanning for entries\<close>

type_synonym relative_path = "string list"

definition is_entry_file :: "launch_fs \<Rightarrow> string \<Rightarrow> file_meta \<Rightarrow> bool" where
  "is_entry_file fs path meta \<longleftrightarrow> fm_kind meta = Kind_File
    \<or> fm_kind meta = Kind_Symlink
      \<and> (case fs_metadata fs path of Some t \<Rightarrow> fm_kind t = Kind_File | None \<Rightarrow> False)"

fun scan_entries :: "launch_fs \<Rightarrow> string \<Rightarrow> relative_path \<Rightarrow> nat \<Rightarrow> string list
    \<Rightarrow> (string \<times> relative_path \<times> nat) list \<Rightarrow> nat \<Rightarrow> (string \<times> relative_path) list
    \<Rightarrow> LaunchFailure + (string \<times> relative_path \<times> nat) list \<times> nat \<times> (string \<times> relative_path) list" where
  "scan_entries fs directory relative depth [] pending scanned result = Inr (pending, scanned, result)"
| "scan_entries fs directory relative depth (name # names) pending scanned result =
    (if Suc scanned > MAX_SCANNED_PATHS then Inl (Launch_too_large ''XDG scan exceeds its path bound'')
     else
       (let skip = scan_entries fs directory relative depth names pending (Suc scanned) result;
          path = path_join directory name; child = relative @ [name] in
        if \<not> utf8_wellformed (map code_of name) \<or> name = [] \<or> name = ''.'' \<or> name = ''..'' then skip
        else (case fs_symlink_metadata fs path of
            None \<Rightarrow> skip
          | Some meta \<Rightarrow>
              if fm_kind meta = Kind_Dir \<and> depth < MAX_DIRECTORY_DEPTH
              then scan_entries fs directory relative depth names ((path, child, depth + 1) # pending) (Suc scanned) result
              else if is_entry_file fs path meta \<and> ends_with name ''.desktop''
              then scan_entries fs directory relative depth names pending (Suc scanned) (result @ [(path, child)])
              else skip)))"

lemma scan_entries_work:
  "scan_entries fs directory relative depth names pending scanned result = Inr (pending', scanned', result') \<Longrightarrow>
    length pending' + scanned \<le> length pending + scanned' \<and> (scanned' = scanned \<or> scanned' \<le> MAX_SCANNED_PATHS)
    \<and> scanned \<le> scanned'"
proof (induction names arbitrary: pending scanned result)
  case (Cons name names)
  have "\<exists>p r. scan_entries fs directory relative depth names p (Suc scanned) r = Inr (pending', scanned', result')
      \<and> length p \<le> Suc (length pending)" and "Suc scanned \<le> MAX_SCANNED_PATHS"
    using Cons.prems by (auto simp: Let_def split: if_splits option.splits)
  then obtain p r where
    "scan_entries fs directory relative depth names p (Suc scanned) r = Inr (pending', scanned', result')"
    "length p \<le> Suc (length pending)" "Suc scanned \<le> MAX_SCANNED_PATHS" by blast
  with Cons.IH [of p "Suc scanned" r] show ?case by auto
qed simp

function scan_pending :: "launch_fs \<Rightarrow> (string \<times> relative_path \<times> nat) list \<Rightarrow> nat \<Rightarrow> (string \<times> relative_path) list
    \<Rightarrow> LaunchFailure + (string \<times> relative_path) list" where
  "scan_pending fs [] scanned result = Inr result"
| "scan_pending fs ((directory, relative, depth) # pending) scanned result =
    (case fs_read_dir fs directory of
       None \<Rightarrow> scan_pending fs pending scanned result
     | Some entries \<Rightarrow>
         (case scan_entries fs directory relative depth (List.map_filter id entries) pending scanned result of
            Inl e \<Rightarrow> Inl e
          | Inr (pending', scanned', result') \<Rightarrow> scan_pending fs pending' scanned' result'))"
  by pat_completeness auto
termination
proof (relation "measure (\<lambda>(fs, pending, scanned, result). Suc MAX_SCANNED_PATHS - scanned + length pending)", goal_cases)
  case 3
  then show ?case by (auto dest!: scan_entries_work)
qed auto

definition desktop_paths :: "launch_fs \<Rightarrow> string \<Rightarrow> LaunchFailure + (string \<times> relative_path) list" where
  "desktop_paths fs root = (case fs_symlink_metadata fs root of
      None \<Rightarrow> Inr []
    | Some meta \<Rightarrow> if fm_kind meta \<noteq> Kind_Dir then Inr [] else scan_pending fs [(root, [], 0)] 0 [])"

definition desktop_id :: "relative_path \<Rightarrow> string option" where
  "desktop_id relative =
    (let name = foldl (\<lambda>i c. if i = [] then c else i @ ''-'' @ c) [] relative in
     if name = [] \<or> \<not> ends_with name ''.desktop'' then None
     else (case BoundedText_new MAX_APPLICATION_ID_BYTES name of Inl _ \<Rightarrow> None | Inr i \<Rightarrow> Some i))"

section \<open>Entries\<close>

record CatalogEntry =
  ce_descriptor :: ApplicationDescriptor
  ce_program :: string
  ce_arguments :: "string list"
  ce_working_directory :: "string option"

unbundle bit_operations_syntax

definition executable_file :: "launch_fs \<Rightarrow> string \<Rightarrow> bool" where
  "executable_file fs path = (case fs_metadata fs path of
      Some m \<Rightarrow> fm_kind m = Kind_File \<and> fm_mode m AND 0x49 \<noteq> 0
    | None \<Rightarrow> False)"

definition read_source :: "launch_fs \<Rightarrow> string \<Rightarrow> string option" where
  "read_source fs path =
    Option.bind (fs_symlink_metadata fs path) (\<lambda>path_metadata.
    if \<not> (fm_kind path_metadata = Kind_File \<or> fm_kind path_metadata = Kind_Symlink) then None
    else
      Option.bind (fs_open fs path) (\<lambda>(opened, content).
      Option.bind opened (\<lambda>meta.
      if fm_kind meta \<noteq> Kind_File \<or> fm_len meta > MAX_DESKTOP_BYTES then None
      else if fm_kind path_metadata = Kind_File
        \<and> (fm_dev meta \<noteq> fm_dev path_metadata \<or> fm_ino meta \<noteq> fm_ino path_metadata) then None
      else
        Option.bind content (\<lambda>all.
        (let bytes = take (MAX_DESKTOP_BYTES + 1) all in
         if length bytes > MAX_DESKTOP_BYTES then None else from_utf8 bytes)))))"

definition launchable :: "entry_values \<Rightarrow> string list \<Rightarrow> bool" where
  "launchable kvs desktops \<longleftrightarrow> map_of kvs ''Type'' = Some ''Application''
    \<and> entry_boolean kvs ''Hidden'' = Some False \<and> entry_boolean kvs ''NoDisplay'' = Some False
    \<and> entry_boolean kvs ''Terminal'' = Some False \<and> visible_on_desktop kvs desktops"

definition working_directory :: "launch_fs \<Rightarrow> entry_values \<Rightarrow> string option option" where
  "working_directory fs kvs = (case map_of kvs ''Path'' of
      None \<Rightarrow> Some None
    | Some value \<Rightarrow> Option.bind (decode_string value) (\<lambda>directory.
        if directory = [] then Some None
        else if is_absolute directory
          \<and> (case fs_metadata fs directory of Some m \<Rightarrow> fm_kind m = Kind_Dir | None \<Rightarrow> False)
        then Some (Some directory) else None))"

definition read_entry :: "launch_fs \<Rightarrow> string \<Rightarrow> string \<Rightarrow> bool \<Rightarrow> string list \<Rightarrow> CatalogEntry option" where
  "read_entry fs path ident user_entry desktops =
    Option.bind (read_source fs path) (\<lambda>source.
    Option.bind (parse_desktop source) (\<lambda>kvs.
    if \<not> launchable kvs desktops then None
    else
      Option.bind (localized_name (fs_env fs) kvs) (\<lambda>name.
      Option.bind (map_of kvs ''Exec'') (\<lambda>exec.
      Option.bind (parse_exec (fs_env fs) (executable_file fs) exec name path (map_of kvs ''Icon'')) (\<lambda>(program, arguments).
      Option.bind (case map_of kvs ''TryExec'' of
          None \<Rightarrow> Some ()
        | Some v \<Rightarrow> Option.bind (decode_string v) (\<lambda>t.
            map_option (\<lambda>_. ()) (resolve_program (fs_env fs) (executable_file fs) t))) (\<lambda>_.
      Option.bind (working_directory fs kvs) (\<lambda>directory.
      case BoundedText_new MAX_NAME_BYTES name of
        Inl _ \<Rightarrow> None
      | Inr name \<Rightarrow> Some \<lparr>ce_descriptor = \<lparr>ad_id = ident, ad_name = name, ad_user_entry = user_entry\<rparr>,
          ce_program = program, ce_arguments = arguments, ce_working_directory = directory\<rparr>)))))))"

section \<open>Discovery\<close>

fun discover_paths :: "launch_fs \<Rightarrow> bool \<Rightarrow> string list \<Rightarrow> (string \<times> relative_path) list \<Rightarrow> string list \<Rightarrow> CatalogEntry list
    \<Rightarrow> LaunchFailure + string list \<times> CatalogEntry list" where
  "discover_paths fs user desktops [] seen catalog = Inr (seen, catalog)"
| "discover_paths fs user desktops ((path, relative) # paths) seen catalog = (case desktop_id relative of
      None \<Rightarrow> discover_paths fs user desktops paths seen catalog
    | Some ident \<Rightarrow>
        if ident \<in> set seen then discover_paths fs user desktops paths seen catalog
        else if length catalog = MAX_INSTALLED_APPLICATIONS
        then Inl (Launch_too_large ''application catalog exceeds its bound'')
        else discover_paths fs user desktops paths (ident # seen)
          (case read_entry fs path ident user desktops of Some entry \<Rightarrow> catalog @ [entry] | None \<Rightarrow> catalog))"

fun discover_roots :: "launch_fs \<Rightarrow> string list \<Rightarrow> DataRoot list \<Rightarrow> string list \<Rightarrow> CatalogEntry list
    \<Rightarrow> LaunchFailure + CatalogEntry list" where
  "discover_roots fs desktops [] seen catalog = Inr catalog"
| "discover_roots fs desktops (root # roots) seen catalog =
    res_bind (desktop_paths fs (dr_applications root)) (\<lambda>paths.
    res_bind (discover_paths fs (dr_user_entry root) desktops (sort_key snd paths) seen catalog) (\<lambda>(seen', catalog').
    discover_roots fs desktops roots seen' catalog'))"

definition discover_all :: "launch_fs \<Rightarrow> LaunchFailure + CatalogEntry list" where
  "discover_all fs =
    res_bind (current_desktops (fs_env fs)) (\<lambda>desktops.
    res_bind (data_roots (fs_env fs)) (\<lambda>roots.
    map_ok (sort_key (\<lambda>e. ad_id (ce_descriptor e))) (discover_roots fs desktops roots [] [])))"

definition installed_applications :: "launch_fs \<Rightarrow> string + ApplicationDescriptor list" where
  "installed_applications fs = map_err lf_message (map_ok (map ce_descriptor) (discover_all fs))"

definition discover :: "launch_fs \<Rightarrow> LaunchPolicy \<Rightarrow> LaunchFailure + CatalogEntry list" where
  "discover fs policy =
    (if \<not> allows_any policy then Inr []
     else map_ok (filter (\<lambda>e. permits policy (ad_id (ce_descriptor e)) (ad_user_entry (ce_descriptor e))))
       (discover_all fs))"

section \<open>The session catalog\<close>

record SessionCatalog =
  sc_cached :: "ApplicationDescriptor list option"

definition SessionCatalog_new :: SessionCatalog where
  "SessionCatalog_new = \<lparr>sc_cached = None\<rparr>"

definition catalog_page :: "ApplicationDescriptor list \<Rightarrow> ApplicationListRequest \<Rightarrow> LaunchFailure + ApplicationPage" where
  "catalog_page catalog request =
    (let start = unat (alr_cursor request) in
     if start > length catalog then Inl (Launch_invalid ''application cursor is outside the catalog'')
     else
       (let finish = min (start + unat (alr_limit request)) (length catalog) in
        res_bind (if finish < length catalog
            then map_ok Some (ok_or (if finish < 2 ^ 32 then Some (of_nat finish) else None)
              (Launch_internal ''application cursor space is exhausted''))
            else Inr None) (\<lambda>next_cursor.
        res_bind (map_err (\<lambda>_. Launch_internal ''application page exceeded its public bound'')
          (BoundedList_new MAX_APPLICATIONS (take (finish - start) (drop start catalog)))) (\<lambda>applications.
        Inr \<lparr>page_applications = applications, page_next_cursor = next_cursor\<rparr>))))"

definition SessionCatalog_list :: "launch_fs \<Rightarrow> ApplicationListRequest \<Rightarrow> LaunchPolicy
    \<Rightarrow> (SessionCatalog, LaunchFailure, ApplicationPage) st" where
  "SessionCatalog_list fs request policy =
    st_bind (\<lambda>s. if alr_cursor request = 0 then
        (case discover fs policy of
           Inl e \<Rightarrow> (Inl e, s)
         | Inr entries \<Rightarrow> (Inr (), s\<lparr>sc_cached := Some (map ce_descriptor entries)\<rparr>))
      else (Inr (), s)) (\<lambda>_ s.
    (res_bind (ok_or (sc_cached s) (Launch_invalid ''application cursor has no session catalog''))
       (\<lambda>catalog. catalog_page catalog request), s))"

section \<open>Commands\<close>

record Command =
  cmd_program :: string
  cmd_args :: "string list"
  cmd_env :: "(string \<times> string) list"
  cmd_current_dir :: "string option"
  cmd_null_stdio :: bool

definition configure_stdio :: "Command \<Rightarrow> Command" where
  "configure_stdio c = c\<lparr>cmd_null_stdio := True\<rparr>"

definition direct_command :: "CatalogEntry \<Rightarrow> string \<Rightarrow> Command" where
  "direct_command entry startup_id = configure_stdio
    \<lparr>cmd_program = ce_program entry, cmd_args = ce_arguments entry,
     cmd_env = [(''DESKTOP_STARTUP_ID'', startup_id)],
     cmd_current_dir = ce_working_directory entry, cmd_null_stdio = False\<rparr>"

definition SYSTEMD_RUN :: string where "SYSTEMD_RUN = ''/usr/bin/systemd-run''"

definition delegated_names :: "string list" where
  "delegated_names = [''DISPLAY'', ''XAUTHORITY'', ''WAYLAND_DISPLAY'', ''XDG_RUNTIME_DIR'',
    ''XDG_CURRENT_DESKTOP'', ''XDG_SESSION_DESKTOP'', ''DBUS_SESSION_BUS_ADDRESS'', ''HOME'', ''USER'',
    ''LOGNAME'', ''LANG'', ''LC_ALL'', ''LC_MESSAGES'']"

text \<open>
  The environment bytes are at most 4096 before each addition and a value is at most as long as memory,
  so the checked additions on a 64-bit \<^verbatim>\<open>usize\<close> do not fail.
\<close>

fun delegated_environment :: "environment \<Rightarrow> string list \<Rightarrow> nat \<Rightarrow> LaunchFailure + string list" where
  "delegated_environment env [] environment_bytes = Inr []"
| "delegated_environment env (name # names) environment_bytes = (case env name of
      None \<Rightarrow> delegated_environment env names environment_bytes
    | Some value \<Rightarrow>
        (let bytes = environment_bytes + length name + length value in
         if bytes > MAX_DELEGATED_ENVIRONMENT_BYTES
         then Inl (Launch_too_large ''delegated application environment exceeds its bound'')
         else map_ok ((#) (''--setenv='' @ name @ ''='' @ value)) (delegated_environment env names bytes)))"

definition delegated_command :: "launch_fs \<Rightarrow> CatalogEntry \<Rightarrow> string \<Rightarrow> string \<Rightarrow> u64 \<Rightarrow> LaunchFailure + Command" where
  "delegated_command fs entry startup_id unit_stem numeric =
    (if \<not> executable_file fs SYSTEMD_RUN
     then Inl (Launch_unavailable ''systemd launch delegation is unavailable'')
     else
       res_bind (delegated_environment (fs_env fs) delegated_names (length startup_id)) (\<lambda>assignments.
       Inr (configure_stdio
         \<lparr>cmd_program = SYSTEMD_RUN,
          cmd_args = [''--user'', ''--wait'', ''--collect'', ''--quiet'', ''--service-type=exec'',
              ''--unit='' @ unit_stem @ ''-'' @ decimal (unat numeric) @ ''.service'',
              ''--setenv=DESKTOP_STARTUP_ID='' @ startup_id]
            @ assignments
            @ (case ce_working_directory entry of Some d \<Rightarrow> [''--working-directory='' @ d] | None \<Rightarrow> [])
            @ ''--'' # ce_program entry # ce_arguments entry,
          cmd_env = [], cmd_current_dir = None, cmd_null_stdio = False\<rparr>)))"

section \<open>The supervisor\<close>

record LaunchSupervisor =
  ls_next_token :: u64
  ls_children :: "nat list"
  ls_delegate_via_systemd :: bool
  ls_delegated_unit_stem :: string

text \<open>
  The kernel's random source as a script of answers; an answer gives at most the bytes asked for, and
  a source without further answers returns no bytes.
\<close>

fun random_bytes :: "(string + byte list) list \<Rightarrow> byte list \<Rightarrow> string + byte list" where
  "random_bytes answers bytes =
    (if length bytes \<ge> 8 then Inr bytes
     else (case answers of
         [] \<Rightarrow> Inl ''random source returned no launch instance bytes''
       | Inl e # _ \<Rightarrow> Inl (''cannot create launch instance identifier: '' @ e)
       | Inr chunk # rest \<Rightarrow>
           (let chunk = take (8 - length bytes) chunk in
            if chunk = [] then Inl ''random source returned no launch instance bytes''
            else random_bytes rest (bytes @ chunk))))"

declare random_bytes.simps [simp del]

definition random_instance :: "(string + byte list) list \<Rightarrow> string + u64" where
  "random_instance answers =
    res_bind (random_bytes answers []) (\<lambda>bytes.
    (let inst = u64_from_le_bytes bytes in
     if inst = 0 then Inl ''random launch instance identifier was zero'' else Inr inst))"

definition lower_hex :: "nat \<Rightarrow> char" where
  "lower_hex n = (if n < 10 then char_of (48 + n) else char_of (87 + n))"

definition hex16 :: "u64 \<Rightarrow> string" where
  "hex16 w = map (\<lambda>i. lower_hex (unat w div 16 ^ (15 - i) mod 16)) [0..<16]"

definition LaunchSupervisor_new :: "nat \<Rightarrow> (string + byte list) list \<Rightarrow> bool \<Rightarrow> string + LaunchSupervisor" where
  "LaunchSupervisor_new pid answers delegate_via_systemd =
    res_bind (if delegate_via_systemd
      then map_ok (\<lambda>inst. ''agent-seat-launched-'' @ decimal pid @ ''-'' @ hex16 inst) (random_instance answers)
      else Inr []) (\<lambda>stem.
    Inr \<lparr>ls_next_token = 1, ls_children = [], ls_delegate_via_systemd = delegate_via_systemd,
      ls_delegated_unit_stem = stem\<rparr>)"

text \<open>\<open>exited\<close> says of which children \<^verbatim>\<open>try_wait\<close> reports an exit status.\<close>

function reap_loop :: "(nat \<Rightarrow> bool) \<Rightarrow> nat \<Rightarrow> nat list \<Rightarrow> nat list" where
  "reap_loop exited index children =
    (if index < length children then
       (if exited (children ! index)
        then reap_loop exited index (butlast (children[index := last children]))
        else reap_loop exited (index + 1) children)
     else children)"
  by pat_completeness auto
termination by (relation "measure (\<lambda>(e, index, children). length children - index)") auto

declare reap_loop.simps [simp del]

definition reap_children :: "(nat \<Rightarrow> bool) \<Rightarrow> nat list \<Rightarrow> nat list" where
  "reap_children exited children = reap_loop exited 0 children"

definition LaunchSupervisor_reap :: "(nat \<Rightarrow> bool) \<Rightarrow> LaunchSupervisor \<Rightarrow> LaunchSupervisor" where
  "LaunchSupervisor_reap exited s = s\<lparr>ls_children := reap_children exited (ls_children s)\<rparr>"

record Started =
  st_token :: LaunchToken
  st_startup_id :: string

record launch_env =
  la_fs :: launch_fs
  la_pid :: nat
  la_exited :: "nat \<Rightarrow> bool"
  la_spawn :: "Command \<Rightarrow> nat option"

definition next_token :: "LaunchSupervisor \<Rightarrow> LaunchFailure + (u64 \<times> LaunchSupervisor)" where
  "next_token s = (case checked_add (ls_next_token s) 1 of
      None \<Rightarrow> Inl (Launch_internal ''launch token space is exhausted'')
    | Some n \<Rightarrow> Inr (ls_next_token s, s\<lparr>ls_next_token := n\<rparr>))"

text \<open>The last component is the command handed to \<^verbatim>\<open>spawn\<close>, if the call came that far.\<close>

definition launch :: "launch_env \<Rightarrow> string \<Rightarrow> LaunchPolicy \<Rightarrow> LaunchSupervisor
    \<Rightarrow> (LaunchFailure + Started) \<times> LaunchSupervisor \<times> Command option" where
  "launch env application policy s =
    (case res_bind (discover (la_fs env) policy) (\<lambda>entries.
        ok_or (find (\<lambda>e. ad_id (ce_descriptor e) = application) entries)
          (Launch_refused ''application is not allowed by current policy'')) of
       Inl e \<Rightarrow> (Inl e, s, None)
     | Inr entry \<Rightarrow> (case next_token s of
         Inl e \<Rightarrow> (Inl e, s, None)
       | Inr (numeric, s) \<Rightarrow>
           if numeric = 0 then (Inl (Launch_internal ''launch token space is exhausted''), s, None)
           else
             (let startup_id = ''agent-seat-x11-'' @ decimal (la_pid env) @ ''-'' @ decimal (unat numeric);
                s = LaunchSupervisor_reap (la_exited env) s in
              if length (ls_children s) = MAX_ACTIVE_CHILDREN
              then (Inl (Launch_unavailable ''active application launch bound is reached''), s, None)
              else (case if ls_delegate_via_systemd s
                  then delegated_command (la_fs env) entry startup_id (ls_delegated_unit_stem s) numeric
                  else Inr (direct_command entry startup_id) of
                Inl e \<Rightarrow> (Inl e, s, None)
              | Inr command \<Rightarrow> (case la_spawn env command of
                  None \<Rightarrow> (Inl (Launch_unavailable ''desktop application could not be started''), s, Some command)
                | Some child \<Rightarrow>
                    (Inr \<lparr>st_token = numeric, st_startup_id = startup_id\<rparr>,
                     s\<lparr>ls_children := ls_children s @ [child]\<rparr>, Some command))))))"

section \<open>What discovery returns\<close>

abbreviation entry_id :: "CatalogEntry \<Rightarrow> string" where
  "entry_id e \<equiv> ad_id (ce_descriptor e)"

definition catalog_ok :: "CatalogEntry list \<Rightarrow> bool" where
  "catalog_ok es \<longleftrightarrow> distinct (map entry_id es) \<and> length es \<le> MAX_INSTALLED_APPLICATIONS
    \<and> list_all (\<lambda>e. validate_ApplicationDescriptor (ce_descriptor e) = Inr ()) es"

lemma validate_descriptor_iff:
  "validate_ApplicationDescriptor a = Inr () \<longleftrightarrow> ad_id a \<noteq> [] \<and> ends_with (ad_id a) ''.desktop'' \<and> ad_name a \<noteq> []"
  by (auto simp: validate_ApplicationDescriptor_def)

lemma desktop_id_Some:
  "desktop_id relative = Some i \<Longrightarrow> i \<noteq> [] \<and> ends_with i ''.desktop'' \<and> length i \<le> MAX_APPLICATION_ID_BYTES"
  by (auto simp: desktop_id_def Let_def BoundedText_new_def split: if_splits)

lemma first_localized_nonempty: "first_localized kvs ls = Some (Some v) \<Longrightarrow> v \<noteq> []"
  by (induction ls) (auto split: option.splits if_splits)

lemma localized_name_nonempty: "localized_name env kvs = Some name \<Longrightarrow> name \<noteq> []"
  by (auto simp: localized_name_def bind_eq_Some_conv first_localized_nonempty split: option.splits if_splits)

lemma read_entry_Some:
  assumes "read_entry fs path ident user desktops = Some e"
  shows "entry_id e = ident" "ad_user_entry (ce_descriptor e) = user" "ad_name (ce_descriptor e) \<noteq> []"
  using assms
  by (auto simp: read_entry_def bind_eq_Some_conv BoundedText_new_def localized_name_nonempty
      split: if_splits sum.splits)

lemma discover_paths_ok:
  "discover_paths fs user desktops paths seen catalog = Inr (seen', catalog') \<Longrightarrow>
    catalog_ok catalog \<Longrightarrow> entry_id ` set catalog \<subseteq> set seen \<Longrightarrow>
    catalog_ok catalog' \<and> entry_id ` set catalog' \<subseteq> set seen'"
proof (induction paths arbitrary: seen catalog)
  case (Cons p paths)
  obtain path relative where p: "p = (path, relative)" by (cases p)
  show ?case
  proof (cases "\<exists>i. desktop_id relative = Some i \<and> i \<notin> set seen")
    case False
    then have "discover_paths fs user desktops paths seen catalog = Inr (seen', catalog')"
      using Cons.prems(1) by (auto simp: p split: option.splits if_splits)
    then show ?thesis using Cons by blast
  next
    case True
    then obtain i where i: "desktop_id relative = Some i" "i \<notin> set seen" by blast
    let ?next = "case read_entry fs path i user desktops of Some e \<Rightarrow> catalog @ [e] | None \<Rightarrow> catalog"
    have run: "discover_paths fs user desktops paths (i # seen) ?next = Inr (seen', catalog')"
      and room: "length catalog < MAX_INSTALLED_APPLICATIONS"
      using Cons.prems(1,2) i by (auto simp: p catalog_ok_def split: if_splits)
    have "catalog_ok ?next \<and> entry_id ` set ?next \<subseteq> set (i # seen)"
      using Cons.prems(2,3) i room desktop_id_Some [OF i(1)]
      by (auto simp: catalog_ok_def validate_descriptor_iff split: option.splits dest: read_entry_Some)
    then show ?thesis using Cons.IH [OF run] by blast
  qed
qed simp

lemma discover_roots_ok:
  "discover_roots fs desktops roots seen catalog = Inr catalog' \<Longrightarrow>
    catalog_ok catalog \<Longrightarrow> entry_id ` set catalog \<subseteq> set seen \<Longrightarrow> catalog_ok catalog'"
proof (induction roots arbitrary: seen catalog)
  case (Cons root roots)
  then show ?case by (auto simp: res_simps dest!: discover_paths_ok)
qed simp

lemma strictly_ordered_sort:
  assumes "distinct (map f xs)"
  shows "strictly_ordered (map f (sort_key f xs))"
proof -
  have "sorted (map f (sort_key f xs))" by (rule sorted_sort_key)
  moreover have "distinct (map f (sort_key f xs))"
    using assms by (simp add: distinct_map)
  ultimately show ?thesis by (simp add: strictly_ordered_sorted_wrt strict_sorted_iff)
qed

lemma catalog_ok_sort: "catalog_ok es \<Longrightarrow> catalog_ok (sort_key entry_id es)"
  by (simp add: catalog_ok_def distinct_map list_all_iff)

lemma discover_all_ok:
  assumes "discover_all fs = Inr es"
  shows "catalog_ok es" "strictly_ordered (map entry_id es)"
proof -
  from assms obtain raw desktops roots where "discover_roots fs desktops roots [] [] = Inr raw"
    and es: "es = sort_key entry_id raw"
    by (auto simp: discover_all_def res_simps)
  then have ok: "catalog_ok raw" by (auto simp: catalog_ok_def dest: discover_roots_ok)
  then show "catalog_ok es" unfolding es by (rule catalog_ok_sort)
  from ok show "strictly_ordered (map entry_id es)"
    unfolding es catalog_ok_def by (blast intro: strictly_ordered_sort)
qed

lemma discover_sound:
  assumes "discover fs policy = Inr es"
  shows "strictly_ordered (map entry_id es)"
    "list_all (\<lambda>e. validate_ApplicationDescriptor (ce_descriptor e) = Inr ()) es"
    "length es \<le> MAX_INSTALLED_APPLICATIONS"
    "\<And>e. e \<in> set es \<Longrightarrow> permits policy (entry_id e) (ad_user_entry (ce_descriptor e))
      \<and> (\<exists>all. discover_all fs = Inr all \<and> e \<in> set all)"
proof -
  consider "es = []" | all where "discover_all fs = Inr all"
      "es = filter (\<lambda>e. permits policy (entry_id e) (ad_user_entry (ce_descriptor e))) all"
    using assms by (auto simp: discover_def res_simps split: if_splits)
  then have "strictly_ordered (map entry_id es)
    \<and> list_all (\<lambda>e. validate_ApplicationDescriptor (ce_descriptor e) = Inr ()) es
    \<and> length es \<le> MAX_INSTALLED_APPLICATIONS
    \<and> (\<forall>e\<in>set es. permits policy (entry_id e) (ad_user_entry (ce_descriptor e))
      \<and> (\<exists>all. discover_all fs = Inr all \<and> e \<in> set all))"
  proof cases
    case 2
    note ok = discover_all_ok [OF 2(1)]
    have "strictly_ordered (map entry_id es)"
      using ok(2) unfolding 2(2) strictly_ordered_sorted_wrt sorted_wrt_map by (rule sorted_wrt_filter)
    moreover have "length es \<le> MAX_INSTALLED_APPLICATIONS"
      using ok(1) length_filter_le [of _ all] unfolding 2(2) catalog_ok_def by (blast intro: order_trans)
    ultimately show ?thesis
      using ok(1) 2 by (simp add: catalog_ok_def list_all_iff)
  qed simp
  then show "strictly_ordered (map entry_id es)"
    "list_all (\<lambda>e. validate_ApplicationDescriptor (ce_descriptor e) = Inr ()) es"
    "length es \<le> MAX_INSTALLED_APPLICATIONS"
    "\<And>e. e \<in> set es \<Longrightarrow> permits policy (entry_id e) (ad_user_entry (ce_descriptor e))
      \<and> (\<exists>all. discover_all fs = Inr all \<and> e \<in> set all)" by blast+
qed

section \<open>Pages\<close>

definition session_catalog_ok :: "SessionCatalog \<Rightarrow> bool" where
  "session_catalog_ok s \<longleftrightarrow> (case sc_cached s of None \<Rightarrow> True
    | Some ds \<Rightarrow> strictly_ordered (map ad_id ds) \<and> list_all (\<lambda>d. validate_ApplicationDescriptor d = Inr ()) ds
        \<and> length ds \<le> MAX_INSTALLED_APPLICATIONS)"

text \<open>A client that follows the cursors, one page per step of fuel.\<close>

fun read_catalog :: "nat \<Rightarrow> launch_fs \<Rightarrow> LaunchPolicy \<Rightarrow> u16 \<Rightarrow> u32 \<Rightarrow> SessionCatalog
    \<Rightarrow> (LaunchFailure + ApplicationDescriptor list) option" where
  "read_catalog 0 fs policy limit cursor s = None"
| "read_catalog (Suc n) fs policy limit cursor s =
    (case SessionCatalog_list fs \<lparr>alr_cursor = cursor, alr_limit = limit\<rparr> policy s of
       (Inl e, _) \<Rightarrow> Some (Inl e)
     | (Inr page, s') \<Rightarrow> (case page_next_cursor page of
         None \<Rightarrow> Some (Inr (page_applications page))
       | Some next \<Rightarrow> map_option (map_ok ((@) (page_applications page))) (read_catalog n fs policy limit next s')))"

lemma strictly_ordered_slice:
  "strictly_ordered (map f xs) \<Longrightarrow> strictly_ordered (map f (take m (drop n xs)))"
  unfolding strictly_ordered_sorted_wrt sorted_wrt_map by (intro sorted_wrt_take sorted_wrt_drop)

lemma catalog_page_valid:
  assumes "catalog_page ds request = Inr page" and "strictly_ordered (map ad_id ds)"
    and "list_all (\<lambda>d. validate_ApplicationDescriptor d = Inr ()) ds"
  shows "validate_ApplicationPage page = Inr ()"
proof -
  let ?start = "unat (alr_cursor request)"
  let ?finish = "min (?start + unat (alr_limit request)) (length ds)"
  obtain m n where page: "page_applications page = take m (drop n ds)"
  proof (rule that)
    show "page_applications page = take (?finish - ?start) (drop ?start ds)"
      using assms(1) by (auto simp: catalog_page_def Let_def res_simps BoundedList_new_def split: if_splits)
  qed
  have "list_all (\<lambda>d. validate_ApplicationDescriptor d = Inr ()) (take m (drop n ds))"
    using assms(3) by (auto simp: list_all_iff dest: in_set_takeD in_set_dropD)
  with strictly_ordered_slice [OF assms(2), of m n] show ?thesis
    by (simp add: validate_ApplicationPage_def page list_all_iff)
qed

lemma list_keeps_ok:
  assumes "SessionCatalog_list fs request policy s = (r, s')" and "session_catalog_ok s"
  shows "session_catalog_ok s'" "r = Inr page \<Longrightarrow> validate_ApplicationPage page = Inr ()"
proof -
  have "session_catalog_ok s' \<and> (\<exists>ds. r = Inr page \<longrightarrow> sc_cached s' = Some ds \<and> catalog_page ds request = Inr page)"
  proof (cases "alr_cursor request = 0")
    case True
    show ?thesis
    proof (cases "discover fs policy")
      case (Inl e)
      then show ?thesis using True assms by (auto simp: SessionCatalog_list_def st_bind_unfold)
    next
      case (Inr es)
      have "strictly_ordered (map ad_id (map ce_descriptor es))"
        "list_all (\<lambda>d. validate_ApplicationDescriptor d = Inr ()) (map ce_descriptor es)"
        "length (map ce_descriptor es) \<le> MAX_INSTALLED_APPLICATIONS"
        using discover_sound(1,2,3) [OF Inr] by (simp_all add: comp_def list_all_iff)
      then show ?thesis
        using True assms Inr
        by (auto simp: SessionCatalog_list_def st_bind_unfold session_catalog_ok_def ok_or_def)
    qed
  next
    case False
    then show ?thesis
      using assms by (auto simp: SessionCatalog_list_def st_bind_unfold res_simps)
  qed
  then show "session_catalog_ok s'" "r = Inr page \<Longrightarrow> validate_ApplicationPage page = Inr ()"
    by (auto simp: session_catalog_ok_def dest: catalog_page_valid)
qed

lemma unat_u32_of_nat: "n < 2 ^ 32 \<Longrightarrow> unat (of_nat n :: u32) = n"
  by (simp add: unsigned_of_nat take_bit_nat_eq_self)

lemma catalog_page_from:
  assumes "n \<le> length ds" "length ds \<le> MAX_INSTALLED_APPLICATIONS" "0 < unat limit" "unat limit \<le> MAX_APPLICATIONS"
  shows "catalog_page ds \<lparr>alr_cursor = of_nat n, alr_limit = limit\<rparr> = Inr
    \<lparr>page_applications = take (unat limit) (drop n ds),
     page_next_cursor = (if n + unat limit < length ds then Some (of_nat (n + unat limit)) else None)\<rparr>"
proof -
  have small: "n < 2 ^ 32" using assms(1,2) by (simp add: MAX_INSTALLED_APPLICATIONS_def)
  then have start: "unat (of_nat n :: u32) = n" by (rule unat_u32_of_nat)
  show ?thesis
  proof (cases "n + unat limit < length ds")
    case True
    then have "n + unat limit < 2 ^ 32" using assms(2) by (simp add: MAX_INSTALLED_APPLICATIONS_def)
    then show ?thesis
      using True assms by (simp add: catalog_page_def Let_def start BoundedList_new_def ok_or_def)
  next
    case False
    then have "min (n + unat limit) (length ds) = length ds" by simp
    moreover have "take (length ds - n) (drop n ds) = take (unat limit) (drop n ds)" using False by simp
    ultimately show ?thesis
      using False assms by (simp add: catalog_page_def Let_def start BoundedList_new_def)
  qed
qed

lemma read_catalog_from:
  assumes "length ds \<le> MAX_INSTALLED_APPLICATIONS" "0 < unat limit" "unat limit \<le> MAX_APPLICATIONS"
    and "sc_cached s = Some ds" "0 < n"
  shows "n \<le> length ds \<Longrightarrow> length ds - n < fuel \<Longrightarrow>
    read_catalog fuel fs policy limit (of_nat n) s = Some (Inr (drop n ds))"
  using assms(5)
proof (induction fuel arbitrary: n)
  case (Suc fuel)
  have "n < 2 ^ 32" using Suc.prems(1) assms(1) by (simp add: MAX_INSTALLED_APPLICATIONS_def)
  then have "(of_nat n :: u32) \<noteq> 0" using Suc.prems(3) unat_u32_of_nat [of n] by auto
  then have page: "SessionCatalog_list fs \<lparr>alr_cursor = of_nat n, alr_limit = limit\<rparr> policy s
      = (catalog_page ds \<lparr>alr_cursor = of_nat n, alr_limit = limit\<rparr>, s)"
    by (simp add: SessionCatalog_list_def st_bind_unfold assms(4) ok_or_def)
  show ?case
  proof (cases "n + unat limit < length ds")
    case True
    then have "read_catalog fuel fs policy limit (of_nat (n + unat limit)) s = Some (Inr (drop (n + unat limit) ds))"
      using Suc.prems assms(2) by (intro Suc.IH) auto
    moreover have "take (unat limit) (drop n ds) @ drop (n + unat limit) ds = drop n ds"
      by (metis append_take_drop_id drop_drop add.commute)
    ultimately show ?thesis
      using True by (simp add: page catalog_page_from [OF Suc.prems(1) assms(1-3)])
  next
    case False
    then show ?thesis by (simp add: page catalog_page_from [OF Suc.prems(1) assms(1-3)])
  qed
qed simp

text \<open>
  The application catalog is complete and paged exactly: a client that starts at cursor zero and
  follows the cursors, with any page limit the protocol admits, reads every entry that discovery
  found and the policy permits, each once and in strictly increasing order of identifier, in at most
  one request more than there are entries; and every page sent in a session validates on the wire.
\<close>

theorem catalog_pages_complete:
  assumes "discover fs policy = Inr es" and "0 < unat limit" and "unat limit \<le> MAX_APPLICATIONS"
    and "length es < fuel" and "session_catalog_ok s"
    and "SessionCatalog_list fs request policy s = (Inr page, s')"
  shows "read_catalog fuel fs policy limit 0 s = Some (Inr (map ce_descriptor es))
    \<and> strictly_ordered (map entry_id es)
    \<and> (\<forall>e\<in>set es. permits policy (entry_id e) (ad_user_entry (ce_descriptor e)))
    \<and> validate_ApplicationPage page = Inr () \<and> session_catalog_ok s'"
proof -
  let ?ds = "map ce_descriptor es"
  let ?s = "s\<lparr>sc_cached := Some ?ds\<rparr>"
  note bound = discover_sound(3) [OF assms(1)]
  obtain n where fuel: "fuel = Suc n" using assms(4) by (cases fuel) auto
  have first: "SessionCatalog_list fs \<lparr>alr_cursor = 0, alr_limit = limit\<rparr> policy s
      = (Inr \<lparr>page_applications = take (unat limit) ?ds,
           page_next_cursor = (if unat limit < length ?ds then Some (of_nat (unat limit)) else None)\<rparr>, ?s)"
    using catalog_page_from [of 0 ?ds limit] bound assms(1-3)
    by (simp add: SessionCatalog_list_def st_bind_unfold ok_or_def)
  have "read_catalog fuel fs policy limit 0 s = Some (Inr ?ds)"
  proof (cases "unat limit < length ?ds")
    case True
    then have "read_catalog n fs policy limit (of_nat (unat limit)) ?s = Some (Inr (drop (unat limit) ?ds))"
      using bound assms(2-4) fuel by (intro read_catalog_from) auto
    with True first show ?thesis by (simp add: fuel)
  qed (use first in \<open>simp add: fuel\<close>)
  then show ?thesis
    using discover_sound(1,4) [OF assms(1)] list_keeps_ok [OF assms(6,5)] by blast
qed

section \<open>The supervisor\<close>

lemma swap_remove:
  assumes "i < length xs"
  shows "take i (butlast (xs[i := last xs])) = take i xs"
    "mset (drop i (butlast (xs[i := last xs]))) = mset (drop (Suc i) xs)"
proof -
  obtain rest where rest: "xs = take i xs @ xs ! i # rest" "rest = drop (Suc i) xs"
    using assms id_take_nth_drop by blast
  have new: "xs[i := last xs] = take i xs @ last xs # rest"
    using assms by (simp add: upd_conv_take_nth_drop rest(2))
  have "take i (butlast (xs[i := last xs])) = take i xs
      \<and> mset (drop i (butlast (xs[i := last xs]))) = mset rest"
  proof (cases rest rule: rev_cases)
    case Nil
    then show ?thesis using assms by (simp add: new butlast_append)
  next
    case (snoc r l)
    then have "last xs = l" by (metis rest(1) last_ConsR last_appendR last_snoc list.distinct(1) snoc_eq_iff_butlast)
    with snoc new have "xs[i := last xs] = (take i xs @ l # r) @ [l]" by simp
    then show ?thesis using assms snoc by (simp only: butlast_snoc) simp
  qed
  then show "take i (butlast (xs[i := last xs])) = take i xs"
    "mset (drop i (butlast (xs[i := last xs]))) = mset (drop (Suc i) xs)"
    using rest(2) by simp_all
qed

lemma reap_loop_mset:
  "mset (reap_loop exited i cs) = mset (take i cs) + filter_mset (\<lambda>c. \<not> exited c) (mset (drop i cs))"
proof (induction exited i cs rule: reap_loop.induct)
  case (1 exited i cs)
  show ?case
  proof (cases "i < length cs")
    case True
    have split: "drop i cs = cs ! i # drop (Suc i) cs" using True by (simp add: Cons_nth_drop_Suc)
    show ?thesis
    proof (cases "exited (cs ! i)")
      case gone: True
      have "mset (reap_loop exited i cs) = mset (reap_loop exited i (butlast (cs[i := last cs])))"
        using True gone by (simp add: reap_loop.simps [of exited i cs])
      also have "\<dots> = mset (take i cs) + filter_mset (\<lambda>c. \<not> exited c) (mset (drop (Suc i) cs))"
        using 1(1) [OF True gone] by (simp only: swap_remove [OF True])
      finally show ?thesis using gone by (simp add: split)
    next
      case False
      have "mset (reap_loop exited i cs) = mset (reap_loop exited (i + 1) cs)"
        using True False by (simp add: reap_loop.simps [of exited i cs])
      also have "\<dots> = mset (take (Suc i) cs) + filter_mset (\<lambda>c. \<not> exited c) (mset (drop (Suc i) cs))"
        using 1(2) [OF True False] by simp
      finally show ?thesis using True False by (simp add: split take_Suc_conv_app_nth)
    qed
  qed (simp add: reap_loop.simps [of exited i cs])
qed

lemma reap_children_mset: "mset (reap_children exited cs) = filter_mset (\<lambda>c. \<not> exited c) (mset cs)"
  unfolding reap_children_def reap_loop_mset by simp

lemma reap_children_length: "length (reap_children exited cs) \<le> length cs"
  by (metis reap_children_mset size_filter_mset_lesseq size_mset)

interpretation launch_tokens: fresh_ids next_token "\<lambda>s. {i. i < ls_next_token s}"
proof
  fix s i t
  assume "next_token s = Inr (i, t)"
  then have i: "i = ls_next_token s" and t: "checked_add (ls_next_token s) 1 = Some (ls_next_token t)"
    by (auto simp: next_token_def split: option.splits)
  then show "i \<notin> {i. i < ls_next_token s}" by simp
  have "ls_next_token s < ls_next_token t"
    using t by (simp add: checked_add_Some_iff word_less_nat_alt)
  then show "insert i {i. i < ls_next_token s} \<subseteq> {i. i < ls_next_token t}" using i by auto
qed

text \<open>One call of the supervisor from any session, in the order the lock and the counter serialise them.\<close>

fun run_launches :: "(launch_env \<times> string \<times> LaunchPolicy) list \<Rightarrow> LaunchSupervisor \<Rightarrow> LaunchToken list \<times> LaunchSupervisor" where
  "run_launches [] s = ([], s)"
| "run_launches ((env, application, policy) # calls) s =
    (case launch env application policy s of (r, s', _) \<Rightarrow>
      (case run_launches calls s' of (tokens, s'') \<Rightarrow>
        ((case r of Inl _ \<Rightarrow> tokens | Inr started \<Rightarrow> st_token started # tokens), s'')))"

lemma launch_cases:
  assumes "launch env application policy s = (r, s', c)"
  obtains (refused) e where "r = Inl e" "s' = s" "c = None"
  | (numbered) es entry numeric s1 where "discover (la_fs env) policy = Inr es" "entry \<in> set es"
      "entry_id entry = application" "next_token s = Inr (numeric, s1)"
      "ls_next_token s' = ls_next_token s1"
      "length (ls_children s) \<le> MAX_ACTIVE_CHILDREN \<Longrightarrow> length (ls_children s') \<le> MAX_ACTIVE_CHILDREN"
      "\<And>started. r = Inr started \<Longrightarrow> st_token started = numeric \<and> numeric \<noteq> 0 \<and> c \<noteq> None"
      "\<And>command. c = Some command \<Longrightarrow> \<exists>startup_id.
         (if ls_delegate_via_systemd s
          then delegated_command (la_fs env) entry startup_id (ls_delegated_unit_stem s) numeric = Inr command
          else command = direct_command entry startup_id)"
proof (cases "res_bind (discover (la_fs env) policy) (\<lambda>entries.
    ok_or (find (\<lambda>e. entry_id e = application) entries) (Launch_refused ''application is not allowed by current policy''))")
  case (Inl e)
  with assms have "r = Inl e" "s' = s" "c = None" by (simp_all add: launch_def)
  then show thesis by (rule refused)
next
  case (Inr entry)
  then obtain es where es: "discover (la_fs env) policy = Inr es" "entry \<in> set es" "entry_id entry = application"
    by (auto simp: res_simps find_Some_iff)
  show thesis
  proof (cases "next_token s")
    case (Inl e)
    with Inr assms have "r = Inl e" "s' = s" "c = None" by (simp_all add: launch_def)
    then show thesis by (rule refused)
  next
    case tok: (Inr p)
    obtain numeric s1 where p: "p = (numeric, s1)" by (cases p)
    define s2 where "s2 = LaunchSupervisor_reap (la_exited env) s1"
    have s1: "ls_children s1 = ls_children s" "ls_delegate_via_systemd s1 = ls_delegate_via_systemd s"
      "ls_delegated_unit_stem s1 = ls_delegated_unit_stem s"
      using tok p by (auto simp: next_token_def split: option.splits)
    then have s2: "ls_next_token s2 = ls_next_token s1" "length (ls_children s2) \<le> length (ls_children s)"
      "ls_delegate_via_systemd s2 = ls_delegate_via_systemd s" "ls_delegated_unit_stem s2 = ls_delegated_unit_stem s"
      using reap_children_length by (simp_all add: s2_def LaunchSupervisor_reap_def)
    note run = assms [unfolded launch_def Inr sum.case tok p prod.case, folded s2_def, unfolded Let_def]
    show thesis
      by (rule numbered [OF es tok [unfolded p]])
        (use run s2 s1 in \<open>auto simp: LaunchSupervisor_reap_def split: if_splits sum.splits option.splits\<close>)
  qed
qed

definition option_word :: "string \<Rightarrow> bool" where
  "option_word w \<longleftrightarrow> take 2 w = ''--'' \<and> 2 < length w"

lemma delegated_environment_options:
  "delegated_environment env names n = Inr ws \<Longrightarrow> list_all option_word ws"
  by (induction env names n arbitrary: ws rule: delegated_environment.induct)
    (auto simp: Let_def res_simps option_word_def split: option.splits if_splits)

lemma delegated_command_shape:
  assumes "delegated_command fs entry startup_id stem numeric = Inr command"
  shows "cmd_program command = SYSTEMD_RUN \<and> cmd_null_stdio command
    \<and> (\<exists>options. list_all option_word options \<and> cmd_args command = options @ ''--'' # ce_program entry # ce_arguments entry)"
proof -
  from assms obtain ws where ws: "list_all option_word ws" and command: "cmd_program command = SYSTEMD_RUN" "cmd_null_stdio command"
    "cmd_args command = ([''--user'', ''--wait'', ''--collect'', ''--quiet'', ''--service-type=exec'',
        ''--unit='' @ stem @ ''-'' @ decimal (unat numeric) @ ''.service'', ''--setenv=DESKTOP_STARTUP_ID='' @ startup_id]
      @ ws @ (case ce_working_directory entry of Some d \<Rightarrow> [''--working-directory='' @ d] | None \<Rightarrow> []))
      @ ''--'' # ce_program entry # ce_arguments entry"
    by (auto simp: delegated_command_def configure_stdio_def res_simps dest: delegated_environment_options split: if_splits)
  then show ?thesis
    by (intro conjI exI, simp, simp, rule_tac [2] command(3)) (simp add: option_word_def split: option.splits)
qed

text \<open>
  C38. A launch runs a permitted entry and nothing else: whenever a launch hands a command to the
  operating system, some installed entry has the requested identifier, the current policy permits it,
  and the command is that entry's program with its arguments, detached from the provider's standard
  streams; under delegation they follow the first bare double dash of \<^verbatim>\<open>systemd-run\<close>, so no word of the
  entry is taken as an option of it.
\<close>

theorem launch_runs_permitted_entry:
  assumes "launch env application policy s = (r, s', Some command)"
  shows "\<exists>all entry. discover_all (la_fs env) = Inr all \<and> entry \<in> set all \<and> entry_id entry = application
    \<and> permits policy application (ad_user_entry (ce_descriptor entry)) \<and> cmd_null_stdio command
    \<and> (if ls_delegate_via_systemd s
       then cmd_program command = SYSTEMD_RUN \<and> (\<exists>options. list_all option_word options
         \<and> cmd_args command = options @ ''--'' # ce_program entry # ce_arguments entry)
       else cmd_program command = ce_program entry \<and> cmd_args command = ce_arguments entry)"
  using assms
proof (cases rule: launch_cases)
  case (numbered es entry numeric s1)
  from discover_sound(4) [OF numbered(1,2)] numbered(3) obtain all where
    entry: "discover_all (la_fs env) = Inr all" "entry \<in> set all"
    "permits policy application (ad_user_entry (ce_descriptor entry))" by auto
  from numbered(8) [OF refl] obtain startup_id where made:
    "if ls_delegate_via_systemd s
     then delegated_command (la_fs env) entry startup_id (ls_delegated_unit_stem s) numeric = Inr command
     else command = direct_command entry startup_id" by blast
  show ?thesis
  proof (cases "ls_delegate_via_systemd s")
    case True
    with made delegated_command_shape entry numbered(3) show ?thesis by auto
  next
    case False
    with made entry numbered(3) show ?thesis by (auto simp: direct_command_def configure_stdio_def)
  qed
qed simp

lemma launch_token_step:
  assumes "launch env application policy s = (r, s', c)"
  shows "ls_next_token s \<le> ls_next_token s'"
    "r = Inr started \<Longrightarrow> st_token started = ls_next_token s \<and> st_token started < ls_next_token s' \<and> st_token started \<noteq> 0"
    "length (ls_children s) \<le> MAX_ACTIVE_CHILDREN \<Longrightarrow> length (ls_children s') \<le> MAX_ACTIVE_CHILDREN"
proof -
  have "ls_next_token s \<le> ls_next_token s'
    \<and> (r = Inr started \<longrightarrow> st_token started = ls_next_token s \<and> st_token started < ls_next_token s' \<and> st_token started \<noteq> 0)
    \<and> (length (ls_children s) \<le> MAX_ACTIVE_CHILDREN \<longrightarrow> length (ls_children s') \<le> MAX_ACTIVE_CHILDREN)"
    using assms
  proof (cases rule: launch_cases)
    case (numbered es entry numeric s1)
    have "numeric = ls_next_token s" using numbered(4) by (auto simp: next_token_def split: option.splits)
    moreover have "numeric < ls_next_token s'"
      using launch_tokens.alloc_used [OF numbered(4)] numbered(5) by auto
    ultimately show ?thesis using numbered(6,7) by auto
  qed simp
  then show "ls_next_token s \<le> ls_next_token s'"
    "r = Inr started \<Longrightarrow> st_token started = ls_next_token s \<and> st_token started < ls_next_token s' \<and> st_token started \<noteq> 0"
    "length (ls_children s) \<le> MAX_ACTIVE_CHILDREN \<Longrightarrow> length (ls_children s') \<le> MAX_ACTIVE_CHILDREN" by blast+
qed

lemma run_launches_tokens:
  "run_launches calls s = (tokens, s') \<Longrightarrow> length (ls_children s) \<le> MAX_ACTIVE_CHILDREN \<Longrightarrow>
    strictly_ordered tokens \<and> (\<forall>t\<in>set tokens. ls_next_token s \<le> t \<and> t < ls_next_token s' \<and> t \<noteq> 0)
    \<and> ls_next_token s \<le> ls_next_token s' \<and> length (ls_children s') \<le> MAX_ACTIVE_CHILDREN"
proof (induction calls s arbitrary: tokens rule: run_launches.induct)
  case (2 env application policy calls s)
  obtain r s1 c where run: "launch env application policy s = (r, s1, c)" by (cases "launch env application policy s")
  obtain ts s2 where rest: "run_launches calls s1 = (ts, s2)" by (cases "run_launches calls s1")
  note step = launch_token_step [OF run]
  have s2: "s' = s2" and tokens: "tokens = (case r of Inl _ \<Rightarrow> ts | Inr started \<Rightarrow> st_token started # ts)"
    using 2(2) by (simp_all add: run rest)
  have IH: "strictly_ordered ts" "\<forall>t\<in>set ts. ls_next_token s1 \<le> t \<and> t < ls_next_token s2 \<and> t \<noteq> 0"
    "ls_next_token s1 \<le> ls_next_token s2" "length (ls_children s2) \<le> MAX_ACTIVE_CHILDREN"
    using 2(1) [OF run [symmetric] refl, of ts] rest s2 step(3) [OF 2(3)] by auto
  show ?case
  proof (cases r)
    case (Inl e)
    then show ?thesis using IH step(1) by (auto simp: s2 tokens)
  next
    case (Inr started)
    note new = step(2) [OF Inr]
    have "strictly_ordered (st_token started # ts)"
      using IH(1,2) new by (auto simp: strictly_ordered_sorted_wrt)
    then show ?thesis using Inr IH new step(1) by (auto simp: s2 tokens)
  qed
qed simp

text \<open>
  C40. The supervisor keeps its bounds and never repeats a token: over any sequence of launches, in any
  outcome, the tokens handed out are nonzero and strictly increasing, at most 64 children are held,
  and reaping drops exactly the children that have exited.
\<close>

theorem supervisor_bounds:
  assumes "run_launches calls s = (tokens, s')" and "length (ls_children s) \<le> MAX_ACTIVE_CHILDREN"
  shows "strictly_ordered tokens \<and> 0 \<notin> set tokens \<and> length (ls_children s') \<le> MAX_ACTIVE_CHILDREN
    \<and> mset (ls_children (LaunchSupervisor_reap exited s')) = filter_mset (\<lambda>c. \<not> exited c) (mset (ls_children s'))"
  using run_launches_tokens [OF assms] by (auto simp: LaunchSupervisor_reap_def reap_children_mset)

section \<open>A concrete catalog\<close>

definition demo_source :: string where
  "demo_source = ''[Desktop Entry]'' @ [CHR 0x0A] @ ''Type=Application'' @ [CHR 0x0A] @ ''Name=A'' @ [CHR 0x0A] @ ''Exec=/a x'' @ [CHR 0x0A]"

definition demo_fs :: launch_fs where
  "demo_fs = \<lparr>fs_env = (\<lambda>v. if v = ''HOME'' then Some ''/h'' else if v = ''XDG_DATA_DIRS'' then Some ''/u'' else None),
    fs_symlink_metadata = (\<lambda>p. if p = ''/u/applications'' then Some \<lparr>fm_kind = Kind_Dir, fm_dev = 1, fm_ino = 2, fm_len = 0, fm_mode = 0\<rparr>
      else if p = ''/u/applications/a.desktop'' then Some \<lparr>fm_kind = Kind_File, fm_dev = 1, fm_ino = 3, fm_len = 60, fm_mode = 0\<rparr> else None),
    fs_metadata = (\<lambda>p. if p = ''/a'' then Some \<lparr>fm_kind = Kind_File, fm_dev = 1, fm_ino = 4, fm_len = 9, fm_mode = 0x49\<rparr> else None),
    fs_read_dir = (\<lambda>p. if p = ''/u/applications'' then Some [Some ''a.desktop''] else None),
    fs_open = (\<lambda>p. if p = ''/u/applications/a.desktop''
      then Some (Some \<lparr>fm_kind = Kind_File, fm_dev = 1, fm_ino = 3, fm_len = 60, fm_mode = 0\<rparr>, Some (as_bytes demo_source)) else None)\<rparr>"

definition demo_entry :: CatalogEntry where
  "demo_entry = \<lparr>ce_descriptor = \<lparr>ad_id = ''a.desktop'', ad_name = ''A'', ad_user_entry = False\<rparr>,
    ce_program = ''/a'', ce_arguments = [''x''], ce_working_directory = None\<rparr>"

lemma chars_str_ascii: "list_all (\<lambda>c. code_of c < 128) s \<Longrightarrow> chars_str s = map code_of s"
  by (induction s) auto

lemma demo_lines: "str_lines demo_source = [''[Desktop Entry]'', ''Type=Application'', ''Name=A'', ''Exec=/a x'']"
proof -
  have source: "demo_source = concat (map (\<lambda>l. l @ [CHR 0x0A]) [''[Desktop Entry]'', ''Type=Application'', ''Name=A'', ''Exec=/a x''])"
    by (simp add: demo_source_def)
  have "split_on CHR 0x0A demo_source = [''[Desktop Entry]'', ''Type=Application'', ''Name=A'', ''Exec=/a x''] @ [[]]"
    unfolding source by (rule split_on_lines) simp
  then show ?thesis by (simp add: str_lines_def strip_cr_def)
qed

lemma demo_ascii: "list_all (\<lambda>c. code_of c < 128) demo_source"
  by (simp add: demo_source_def)

lemma demo_parse: "parse_desktop demo_source = Some [(''Type'', ''Application''), (''Name'', ''A''), (''Exec'', ''/a x'')]"
proof -
  have "\<not> list_ex (\<lambda>c. is_control c \<and> c \<noteq> 10 \<and> c \<noteq> 13) (chars_str demo_source)"
    unfolding chars_str_ascii [OF demo_ascii] by (simp add: demo_source_def is_control_def)
  then show ?thesis
    by (simp add: parse_desktop_def demo_lines strip_cr_def trim_def trim_scalars_def is_whitespace_def
      utf8_encode_ascii char_of_def bit_0 valid_key_def is_ascii_alphanumeric_def MAX_ENTRY_KEYS_def)
qed

lemma demo_exec: "parse_exec (fs_env demo_fs) (executable_file demo_fs) ''/a x'' ''A'' p i = Some (''/a'', [''x''])"
  by (simp add: parse_exec_def exec_words_def exec_start_def is_exec_reserved_def is_ascii_whitespace_def close_word_def
    push_char_def expand_word_def dropped_fields_def MAX_EXEC_ARGUMENTS_def resolve_program_def is_absolute_def
    executable_file_def demo_fs_def)

lemma demo_source_read: "read_source demo_fs ''/u/applications/a.desktop'' = Some demo_source"
proof -
  have "length demo_source = 50" by (simp add: demo_source_def)
  then show ?thesis
    using from_utf8_ascii [OF demo_ascii] by (simp add: read_source_def demo_fs_def MAX_DESKTOP_BYTES_def)
qed

lemma split_on_eval:
  "split_on c (x # xs) = (case split_on c xs of [] \<Rightarrow> [] | w # ws \<Rightarrow> if x = c then [] # w # ws else (x # w) # ws)"
  using split_on_Cons_ex [of c xs] by auto

lemma demo_environment:
  "current_desktops (fs_env demo_fs) = Inr []"
  "data_roots (fs_env demo_fs) = Inr [\<lparr>dr_applications = ''/h/.local/share/applications'', dr_user_entry = True\<rparr>,
     \<lparr>dr_applications = ''/u/applications'', dr_user_entry = False\<rparr>]"
  "locale_candidates (fs_env demo_fs) = []"
  by (simp_all add: demo_fs_def current_desktops_def env_var_def data_roots_def absolute_path_def is_absolute_def
    path_join_def MAX_DATA_ROOTS_def path_components_def locale_candidates_def ok_or_def split_on_eval
    del: split_on.simps(2))

lemma demo_read_entry: "read_entry demo_fs ''/u/applications/a.desktop'' ''a.desktop'' False [] = Some demo_entry"
  by (simp add: read_entry_def demo_source_read demo_parse launchable_def entry_boolean_def visible_on_desktop_def
    localized_name_def demo_environment demo_exec working_directory_def BoundedText_new_def MAX_NAME_BYTES_def
    demo_entry_def)

lemma demo_paths:
  "desktop_paths demo_fs ''/h/.local/share/applications'' = Inr []"
  "desktop_paths demo_fs ''/u/applications'' = Inr [(''/u/applications/a.desktop'', [''a.desktop''])]"
  by (simp_all add: desktop_paths_def demo_fs_def List.map_filter_def MAX_SCANNED_PATHS_def path_join_def is_absolute_def
    is_entry_file_def ends_with_def MAX_DIRECTORY_DEPTH_def)

lemma demo_discover_all: "discover_all demo_fs = Inr [demo_entry]"
  by (simp add: discover_all_def demo_environment demo_paths desktop_id_def ends_with_def BoundedText_new_def
    MAX_APPLICATION_ID_BYTES_def MAX_INSTALLED_APPLICATIONS_def demo_read_entry)

definition demo_launch_policy :: LaunchPolicy where
  "demo_launch_policy = \<lparr>lp_mode = Launch_AllowListed, lp_allow = [''a.desktop''], lp_deny = [], lp_allow_user_entries = False\<rparr>"

lemma demo_discover: "discover demo_fs demo_launch_policy = Inr [demo_entry]"
  by (simp add: discover_def demo_launch_policy_def allows_any_def permits_def demo_discover_all demo_entry_def)

definition demo_page :: ApplicationPage where
  "demo_page = \<lparr>page_applications = [ce_descriptor demo_entry], page_next_cursor = None\<rparr>"

theorem catalog_pages_complete_witness:
  "read_catalog 2 demo_fs demo_launch_policy 16 0 SessionCatalog_new = Some (Inr [ce_descriptor demo_entry])
    \<and> validate_ApplicationPage demo_page = Inr ()"
proof -
  have run: "SessionCatalog_list demo_fs \<lparr>alr_cursor = 0, alr_limit = 16\<rparr> demo_launch_policy SessionCatalog_new
      = (Inr demo_page, \<lparr>sc_cached = Some [ce_descriptor demo_entry]\<rparr>)"
    by (simp add: SessionCatalog_list_def st_bind_unfold demo_discover SessionCatalog_new_def ok_or_def catalog_page_def
      BoundedList_new_def MAX_APPLICATIONS_def demo_page_def)
  have "session_catalog_ok SessionCatalog_new" by (simp add: session_catalog_ok_def SessionCatalog_new_def)
  from catalog_pages_complete [OF demo_discover _ _ _ this run, of 16 2] show ?thesis
    by (simp add: MAX_APPLICATIONS_def)
qed

definition demo_supervisor :: LaunchSupervisor where
  "demo_supervisor = \<lparr>ls_next_token = 1, ls_children = [7, 8], ls_delegate_via_systemd = False, ls_delegated_unit_stem = []\<rparr>"

definition demo_launch_env :: launch_env where
  "demo_launch_env = \<lparr>la_fs = demo_fs, la_pid = 5, la_exited = (\<lambda>c. c = 7), la_spawn = (\<lambda>_. Some 9)\<rparr>"

lemma demo_launch:
  "launch demo_launch_env ''a.desktop'' demo_launch_policy demo_supervisor =
    (Inr \<lparr>st_token = 1, st_startup_id = ''agent-seat-x11-5-1''\<rparr>,
     demo_supervisor\<lparr>ls_next_token := 2, ls_children := [8, 9]\<rparr>,
     Some (direct_command demo_entry ''agent-seat-x11-5-1''))"
proof -
  have "ad_id (ce_descriptor demo_entry) = ''a.desktop''" by (simp add: demo_entry_def)
  then show ?thesis
    by (simp add: launch_def demo_launch_env_def demo_discover ok_or_def next_token_def demo_supervisor_def checked_add_def
      LaunchSupervisor_reap_def reap_children_def reap_loop.simps MAX_ACTIVE_CHILDREN_def Let_def decimal.simps char_of_def bit_0)
qed

theorem launch_runs_permitted_entry_witness:
  "permits demo_launch_policy ''a.desktop'' False \<and> cmd_program (direct_command demo_entry ''agent-seat-x11-5-1'') = ''/a''"
proof -
  obtain all entry where found: "discover_all demo_fs = Inr all" "entry \<in> set all" "permits demo_launch_policy ''a.desktop'' (ad_user_entry (ce_descriptor entry))"
    "cmd_program (direct_command demo_entry ''agent-seat-x11-5-1'') = ce_program entry"
    using launch_runs_permitted_entry [OF demo_launch] by (auto simp: demo_launch_env_def demo_supervisor_def)
  then have "entry = demo_entry" by (auto simp: demo_discover_all)
  with found show ?thesis by (simp add: demo_entry_def)
qed

theorem supervisor_bounds_witness:
  "run_launches [(demo_launch_env, ''a.desktop'', demo_launch_policy)] demo_supervisor
      = ([1], demo_supervisor\<lparr>ls_next_token := 2, ls_children := [8, 9]\<rparr>)
    \<and> strictly_ordered [1 :: LaunchToken]"
proof -
  have run: "run_launches [(demo_launch_env, ''a.desktop'', demo_launch_policy)] demo_supervisor
      = ([1], demo_supervisor\<lparr>ls_next_token := 2, ls_children := [8, 9]\<rparr>)"
    by (simp add: demo_launch)
  moreover have "length (ls_children demo_supervisor) \<le> MAX_ACTIVE_CHILDREN"
    by (simp add: demo_supervisor_def MAX_ACTIVE_CHILDREN_def)
  ultimately show ?thesis using supervisor_bounds [OF run, of "\<lambda>_. False"] by blast
qed

end
