(* ===== verification/Provider_Session.thy ===== *)
theory Provider_Session
  imports Observer_Manager Text_Transfer Pixel_Capture Launch_Catalog Wire_Codec
begin

text \<open>
  One authenticated wire session of the provider (\<^verbatim>\<open>agent-seat-x11/src/session.rs\<close>): the greeting, the
  bounded request loop, the check of each call against the grant and the composition of a call from
  the observer, the input sections, the text transfer, the captures and the launcher. A session reads
  frames through the codec and writes through it; what happens is recorded as a trace of session
  events, in the order the code performs them. What the rest of the world answers during one request
  is a record of environments, one field per component that is called.
\<close>

section \<open>Outcomes\<close>

datatype CallFailure = Cf_Observation Failure | Cf_Launch LaunchFailure

text \<open>\<^verbatim>\<open>Diagnostic::new(..).expect(..)\<close>: \<open>None\<close> is the panic.\<close>

definition diagnostic :: "string \<Rightarrow> string option" where
  "diagnostic value = (case BoundedText_new MAX_DIAGNOSTIC_BYTES value of Inl _ \<Rightarrow> None | Inr v \<Rightarrow> Some v)"

definition protocol_error :: "ErrorCode \<Rightarrow> Retry \<Rightarrow> string \<Rightarrow> Outcome option" where
  "protocol_error code retry message = map_option (\<lambda>d. Out_Error \<lparr>pe_code = code, pe_retry = retry,
    pe_field = None, pe_message = Some d, pe_current_generation = None, pe_current_sequence = None\<rparr>)
    (diagnostic message)"

definition observation_error :: "Failure \<Rightarrow> Outcome option" where
  "observation_error e = map_option (\<lambda>d. Out_Error \<lparr>pe_code = f_code e, pe_retry = f_retry e,
    pe_field = None, pe_message = Some d, pe_current_generation = f_current_generation e,
    pe_current_sequence = f_current_sequence e\<rparr>) (diagnostic (f_message e))"

definition launch_error :: "LaunchFailure \<Rightarrow> Outcome option" where
  "launch_error e = map_option (\<lambda>d. Out_Error \<lparr>pe_code = lf_code e, pe_retry = lf_retry e,
    pe_field = None, pe_message = Some d, pe_current_generation = None, pe_current_sequence = None\<rparr>)
    (diagnostic (lf_message e))"

section \<open>Authority\<close>

fun needs_structure :: "Call \<Rightarrow> bool" where
  "needs_structure (Call_ClientActivate _) = True"
| "needs_structure (Call_ClientClose _) = True"
| "needs_structure (Call_WorkspaceSwitch _) = True"
| "needs_structure (Call_ClientWorkspace _) = True"
| "needs_structure (Call_ClientState _) = True"
| "needs_structure (Call_ClientGeometry _) = True"
| "needs_structure (Call_PointerMove _) = True"
| "needs_structure (Call_PointerClick _) = True"
| "needs_structure (Call_KeyboardType _) = True"
| "needs_structure (Call_KeyboardWrite _) = True"
| "needs_structure (Call_KeyboardKey _) = True"
| "needs_structure (Call_TextInsert _) = True"
| "needs_structure (Call_CaptureObscured _) = True"
| "needs_structure (Call_CaptureRegion _) = True"
| "needs_structure _ = False"

fun is_launch :: "Call \<Rightarrow> bool" where
  "is_launch (Call_ApplicationLaunch _) = True"
| "is_launch _ = False"

definition authorized :: "Call \<Rightarrow> Capability list \<Rightarrow> bool" where
  "authorized call grants \<longleftrightarrow> required_capability call \<in> set grants
    \<and> (\<not> needs_structure call \<or> Cap_ObserveStructure \<in> set grants)
    \<and> (\<not> is_launch call \<or> Cap_LaunchList \<in> set grants)"

section \<open>Calls\<close>

record SessionContext =
  ctx_session :: SessionId
  ctx_granted :: "Capability list"
  ctx_config :: Config
  ctx_seat_permit :: SeatPermit

record session_state =
  ss_observer :: "Observer option"
  ss_catalog :: SessionCatalog

record call_env =
  ca_connect :: "Failure + u32 \<times> Atoms"
  ca_sample :: sample
  ca_samples :: "(sample \<times> bool) list"
  ca_manage :: manage_env
  ca_grab :: grab_env
  ca_after :: SeatGate
  ca_steps :: "nat \<Rightarrow> grab_env \<times> SeatGate"
  ca_text :: text_env
  ca_capture :: capture_env
  ca_png :: "u16 \<Rightarrow> u16 \<Rightarrow> byte list \<Rightarrow> png_result"
  ca_base64 :: "byte list \<Rightarrow> string"
  ca_launch :: launch_env
  ca_launcher :: LaunchSupervisor

text \<open>What a call did to the world outside the provider.\<close>

datatype call_effect =
  Eff_Messages "ClientMessageEvent list"
| Eff_Section "seat_effect list"
| Eff_Command Command

definition observer_for :: "call_env \<Rightarrow> SessionContext \<Rightarrow> Observer option \<Rightarrow> (Failure + Observer) \<times> Observer option" where
  "observer_for env ctx observer = (case observer of
      Some ob \<Rightarrow> (Inr ob, Some ob)
    | None \<Rightarrow>
        (let show_titles = titles_enabled (ctx_config ctx) \<and> Cap_ObserveTitles \<in> set (ctx_granted ctx);
           capture_enabled = Cap_CaptureObscured \<in> set (ctx_granted ctx) in
         case ca_connect env of
           Inl e \<Rightarrow> (Inl e, None)
         | Inr (root, atoms) \<Rightarrow>
             (let ob = Observer_connect root atoms (client_scope (ctx_config ctx)) show_titles capture_enabled in
              (Inr ob, Some ob))))"

text \<open>
  \<open>observer_for(..).and_then(..).map(..).map_err(CallFailure::Observation)\<close>; the result is \<open>None\<close> when the
  call is still waiting at the end of what the environment answers, or panicked.
\<close>

definition observe_call :: "call_env \<Rightarrow> SessionContext \<Rightarrow> session_state
    \<Rightarrow> (Observer \<Rightarrow> (Failure + 'a) option \<times> Observer \<times> call_effect list) \<Rightarrow> ('a \<Rightarrow> Reply)
    \<Rightarrow> (CallFailure + Reply) option \<times> session_state \<times> call_effect list" where
  "observe_call env ctx s f wrap = (case observer_for env ctx (ss_observer s) of
      (Inl e, o') \<Rightarrow> (Some (Inl (Cf_Observation e)), s\<lparr>ss_observer := o'\<rparr>, [])
    | (Inr ob, _) \<Rightarrow>
        (let (r, ob', effects) = f ob in
         (map_option (\<lambda>r. map_err Cf_Observation (map_ok wrap r)) r, s\<lparr>ss_observer := Some ob'\<rparr>, effects)))"

definition total_op :: "'a obs \<Rightarrow> Observer \<Rightarrow> (Failure + 'a) option \<times> Observer \<times> call_effect list" where
  "total_op m ob = (let (r, ob') = m ob in (Some r, ob', []))"

definition waiting_op :: "'a option obs \<Rightarrow> Observer \<Rightarrow> (Failure + 'a) option \<times> Observer \<times> call_effect list" where
  "waiting_op m ob = (let (r, ob') = m ob in
    (case r of Inl e \<Rightarrow> Some (Inl e) | Inr None \<Rightarrow> None | Inr (Some a) \<Rightarrow> Some (Inr a), ob', []))"

definition manage_op :: "call_env \<Rightarrow> Operation \<Rightarrow> Observer \<Rightarrow> (Failure + ManagementReply) option \<times> Observer \<times> call_effect list" where
  "manage_op env operation ob = (let (r, ob', sent) = manage (ca_manage env) operation ob in
    (case r of Inl e \<Rightarrow> Some (Inl e) | Inr None \<Rightarrow> None | Inr (Some a) \<Rightarrow> Some (Inr a), ob', [Eff_Messages sent]))"

definition section_op :: "(Observer \<Rightarrow> (Failure + 'a) \<times> Observer \<times> seat_effect list)
    \<Rightarrow> Observer \<Rightarrow> (Failure + 'a) option \<times> Observer \<times> call_effect list" where
  "section_op m ob = (let (r, ob', tr) = m ob in (Some r, ob', [Eff_Section tr]))"

definition sections_op :: "(Observer \<Rightarrow> (Failure + 'a) \<times> Observer \<times> seat_effect list list)
    \<Rightarrow> Observer \<Rightarrow> (Failure + 'a) option \<times> Observer \<times> call_effect list" where
  "sections_op m ob = (let (r, ob', trs) = m ob in (Some r, ob', map Eff_Section trs))"

definition launch_application :: "call_env \<Rightarrow> SessionContext \<Rightarrow> string \<Rightarrow> session_state
    \<Rightarrow> (CallFailure + Reply) option \<times> session_state \<times> call_effect list" where
  "launch_application env ctx application s =
    (let (baseline, observer) =
       (if client_scope (ctx_config ctx) \<noteq> Scope_None \<and> Cap_ObserveStructure \<in> set (ctx_granted ctx)
        then (case observer_for env ctx (ss_observer s) of
            (Inl _, o') \<Rightarrow> (None, o')
          | (Inr ob, _) \<Rightarrow>
              (let (r, ob') = launch_baseline (ca_sample env) ob in
               (case r of Inl _ \<Rightarrow> None | Inr b \<Rightarrow> Some b, Some ob')))
        else (None, ss_observer s)) in
     case launch (ca_launch env) application (cfg_launch (ctx_config ctx)) (ca_launcher env) of
       (Inl e, _, command) \<Rightarrow>
         (Some (Inl (Cf_Launch e)), s\<lparr>ss_observer := observer\<rparr>, map Eff_Command (case command of None \<Rightarrow> [] | Some c \<Rightarrow> [c]))
     | (Inr started, _, command) \<Rightarrow>
         (let effects = map Eff_Command (case command of None \<Rightarrow> [] | Some c \<Rightarrow> [c]);
            reply = (\<lambda>client. Inr (Reply_Launched \<lparr>lr_token = st_token started, lr_client = client\<rparr>)) in
          case (baseline, observer) of
            (Some b, Some ob) \<Rightarrow>
              (let (r, ob') = correlate_launch (ca_samples env) b (st_startup_id started) ob in
               (case r of
                  Inl _ \<Rightarrow> Some (reply None)
                | Inr None \<Rightarrow> None
                | Inr (Some client) \<Rightarrow> Some (reply client), s\<lparr>ss_observer := Some ob'\<rparr>, effects))
          | _ \<Rightarrow> (Some (reply None), s\<lparr>ss_observer := observer\<rparr>, effects)))"

fun provider_result :: "call_env \<Rightarrow> SessionContext \<Rightarrow> Call \<Rightarrow> session_state
    \<Rightarrow> (CallFailure + Reply) option \<times> session_state \<times> call_effect list" where
  "provider_result env ctx Call_SeatStatus s =
    (Some (Inr (Reply_SeatStatus \<lparr>st_session = ctx_session ctx,
       st_sequence = (case ss_observer s of None \<Rightarrow> 0 | Some ob \<Rightarrow> ob_sequence ob), st_assurance = Tier0\<rparr>)), s, [])"
| "provider_result env ctx Call_DesktopSnapshot s =
    observe_call env ctx s (total_op (snapshot (ca_sample env))) Reply_DesktopSnapshot"
| "provider_result env ctx (Call_EventsSubscribe a) s =
    observe_call env ctx s (total_op (subscribe (ca_sample env) (sub_kinds a))) Reply_Subscribed"
| "provider_result env ctx (Call_EventsPoll a) s =
    observe_call env ctx s (waiting_op (poll (ca_samples env) (poll_after a) (poll_limit a))) Reply_Events"
| "provider_result env ctx (Call_ClientActivate a) s =
    observe_call env ctx s (manage_op env (Op_Activate a)) Reply_Management"
| "provider_result env ctx (Call_ClientClose a) s =
    observe_call env ctx s (manage_op env (Op_Close a)) Reply_Management"
| "provider_result env ctx (Call_WorkspaceSwitch a) s =
    observe_call env ctx s (manage_op env (Op_WorkspaceSwitch a)) Reply_Management"
| "provider_result env ctx (Call_ClientWorkspace a) s =
    observe_call env ctx s (manage_op env (Op_ClientWorkspace a)) Reply_Management"
| "provider_result env ctx (Call_ClientState a) s =
    observe_call env ctx s (manage_op env (Op_State a)) Reply_Management"
| "provider_result env ctx (Call_ClientGeometry a) s =
    observe_call env ctx s (manage_op env (Op_Geometry a)) Reply_Management"
| "provider_result env ctx (Call_ApplicationsList a) s =
    (let (r, c') = SessionCatalog_list (la_fs (ca_launch env)) a (cfg_launch (ctx_config ctx)) (ss_catalog s) in
     (Some (map_err Cf_Launch (map_ok Reply_Applications r)), s\<lparr>ss_catalog := c'\<rparr>, []))"
| "provider_result env ctx (Call_ApplicationLaunch a) s = launch_application env ctx (alr_application a) s"
| "provider_result env ctx (Call_PointerMove a) s =
    observe_call env ctx s (section_op (pointer_move (ca_grab env) (ca_after env) a (ctx_seat_permit ctx))) Reply_Input"
| "provider_result env ctx (Call_PointerClick a) s =
    observe_call env ctx s (section_op (pointer_click (ca_grab env) (ca_after env) a (ctx_seat_permit ctx))) Reply_Input"
| "provider_result env ctx (Call_KeyboardType a) s =
    observe_call env ctx s (sections_op (keyboard_type (ca_grab env) (ca_steps env) (ca_after env) a (ctx_seat_permit ctx)))
      Reply_Input"
| "provider_result env ctx (Call_KeyboardWrite a) s =
    observe_call env ctx s (sections_op (keyboard_write (ca_grab env) (ca_steps env) (ca_after env) a (ctx_seat_permit ctx)))
      Reply_Input"
| "provider_result env ctx (Call_KeyboardKey a) s =
    observe_call env ctx s (section_op (keyboard_key (ca_grab env) (ca_after env) a (ctx_seat_permit ctx))) Reply_Input"
| "provider_result env ctx (Call_TextInsert a) s =
    observe_call env ctx s (\<lambda>ob. let (r, ob', trs, _) = text_insert (ca_text env) a (ctx_seat_permit ctx) ob in
      (r, ob', map Eff_Section trs)) Reply_TextTransfer"
| "provider_result env ctx (Call_CaptureObscured a) s =
    observe_call env ctx s (\<lambda>ob. let (r, ob') = capture_obscured (ca_png env) (ca_base64 env) (ca_capture env) a ob in
      (r, ob', [])) Reply_Capture"
| "provider_result env ctx (Call_CaptureRegion a) s =
    observe_call env ctx s (\<lambda>ob. let (r, ob') = capture_region (ca_png env) (ca_base64 env) (ca_capture env) a ob in
      (r, ob', [])) Reply_CaptureRegion"

definition provider_call :: "call_env \<Rightarrow> SessionContext \<Rightarrow> Call \<Rightarrow> session_state
    \<Rightarrow> Outcome option \<times> session_state \<times> call_effect list" where
  "provider_call env ctx call s = (let (r, s', effects) = provider_result env ctx call s in
    (case r of
       None \<Rightarrow> None
     | Some (Inr reply) \<Rightarrow> Some (Out_Ok reply)
     | Some (Inl (Cf_Observation e)) \<Rightarrow> observation_error e
     | Some (Inl (Cf_Launch e)) \<Rightarrow> launch_error e, s', effects))"

text \<open>The second component is the call that was made on the provider, with its effects.\<close>

definition handle :: "call_env \<Rightarrow> SessionContext \<Rightarrow> Request \<Rightarrow> session_state
    \<Rightarrow> Response option \<times> (Call \<times> call_effect list) option \<times> session_state" where
  "handle env ctx request s =
    (if \<not> authorized (req_call request) (ctx_granted ctx)
     then (map_option (\<lambda>o'. \<lparr>resp_id = req_id request, resp_outcome = o'\<rparr>)
         (protocol_error Err_Refused Retry_Never ''capability was not granted''), None, s)
     else
       (let (o', s', effects) = provider_call env ctx (req_call request) s in
        (map_option (\<lambda>o'. \<lparr>resp_id = req_id request, resp_outcome = o'\<rparr>) o',
         Some (req_call request, effects), s')))"

section \<open>The wire\<close>

datatype session_event =
  Read_Message ClientMessage
| Gate_Seen SeatGate
| Called Call "call_effect list"
| Wrote ServerMessage

text \<open>An error carries the words before the colon of the code's message and what is formatted after it.\<close>

datatype session_error = Session_Os string string | Session_Codec string CodecError | Session_Bound string BoundError

record 'w wire =
  wi_from_slice :: "byte list \<Rightarrow> json_error + ClientMessage"
  wi_to_vec :: "ServerMessage \<Rightarrow> json_error + byte list"
  wi_write_all :: "'w \<Rightarrow> byte list \<Rightarrow> (io_error + unit) \<times> 'w"

record 'w session =
  se_reader :: reader
  se_writer :: 'w
  se_state :: session_state
  se_trace :: "session_event list"

definition note_event :: "session_event \<Rightarrow> 'w session \<Rightarrow> 'w session" where
  "note_event e se = se\<lparr>se_trace := se_trace se @ [e]\<rparr>"

definition receive :: "'w wire \<Rightarrow> string \<Rightarrow> ('w session, session_error, ClientMessage ReadFrame) st" where
  "receive wire what se =
    (case read_frame (wi_from_slice wire) validate_ClientMessage MAX_REQUEST_FRAME_BYTES (se_reader se) of
       (Inl e, rs) \<Rightarrow> (Inl (Session_Codec what e), se\<lparr>se_reader := rs\<rparr>)
     | (Inr CleanEof, rs) \<Rightarrow> (Inr CleanEof, se\<lparr>se_reader := rs\<rparr>)
     | (Inr (Message m), rs) \<Rightarrow> (Inr (Message m), note_event (Read_Message m) (se\<lparr>se_reader := rs\<rparr>)))"

definition send :: "'w wire \<Rightarrow> string \<Rightarrow> ServerMessage \<Rightarrow> ('w session, session_error, unit) st" where
  "send wire what message se =
    (case write_frame (wi_to_vec wire) validate_ServerMessage (wi_write_all wire) MAX_RESPONSE_FRAME_BYTES message (se_writer se) of
       (Inl e, w) \<Rightarrow> (Inl (Session_Codec what e), se\<lparr>se_writer := w\<rparr>)
     | (Inr _, w) \<Rightarrow> (Inr (), note_event (Wrote message) (se\<lparr>se_writer := w\<rparr>)))"

definition close :: "'w wire \<Rightarrow> ErrorCode \<Rightarrow> string \<Rightarrow> 'w session \<Rightarrow> (session_error + unit) option \<times> 'w session" where
  "close wire code message se = (case diagnostic message of
      None \<Rightarrow> (None, se)
    | Some d \<Rightarrow>
        (let (r, se') = send wire ''cannot write terminal session message''
           (SM_Goodbye \<lparr>bye_code = code, bye_message = Some d\<rparr>) se in (Some r, se')))"

definition reject_capacity :: "'w wire \<Rightarrow> 'w session \<Rightarrow> 'w session" where
  "reject_capacity wire se = snd (close wire Err_Unavailable ''provider session limit reached'' se)"

section \<open>The persistent slot\<close>

text \<open>One compare-and-exchange on the shared flag; dropping an active guard clears it.\<close>

definition claim :: "bool \<Rightarrow> bool \<Rightarrow> bool \<times> bool" where
  "claim enabled slot = (if enabled \<and> \<not> slot then (True, True) else (False, slot))"

definition drop_guard :: "bool \<Rightarrow> bool \<Rightarrow> bool" where
  "drop_guard active slot = (if active then False else slot)"

section \<open>The request loop\<close>

record request_env =
  rq_wait :: "(bool \<times> (string + bool)) list"
  rq_stopping :: bool
  rq_gate :: SeatGate
  rq_call :: call_env

text \<open>
  A private companion waits for its next request: each item is the stopping flag and the answer of one
  \<^verbatim>\<open>poll\<close>; \<open>None\<close> is a wait that goes on beyond the script.
\<close>

fun wait_idle :: "(bool \<times> (string + bool)) list \<Rightarrow> (session_error + unit) option" where
  "wait_idle [] = None"
| "wait_idle ((stopping, polled) # rest) =
    (if stopping then Some (Inr ())
     else (case polled of
         Inl e \<Rightarrow> Some (Inl (Session_Os ''cannot wait for private companion request'' e))
       | Inr ready \<Rightarrow> if ready then Some (Inr ()) else wait_idle rest))"

definition revoke :: "'w wire \<Rightarrow> Request \<Rightarrow> 'w session \<Rightarrow> (session_error + unit) option \<times> 'w session" where
  "revoke wire request se =
    (case protocol_error Err_Revoked Retry_Reconnect ''operator seat generation was revoked'' of
       None \<Rightarrow> (None, se)
     | Some o' \<Rightarrow>
         (let (r, se') = send wire ''cannot write revoked session response''
            (SM_Response \<lparr>resp_id = req_id request, resp_outcome = o'\<rparr>) se in (Some r, se')))"

definition answer :: "'w wire \<Rightarrow> call_env \<Rightarrow> SessionContext \<Rightarrow> Request \<Rightarrow> 'w session
    \<Rightarrow> (session_error + unit) option \<times> 'w session" where
  "answer wire env ctx request se = (case handle env ctx request (se_state se) of (response, called, state) \<Rightarrow>
    (let se1 = (case called of None \<Rightarrow> se | Some (call, effects) \<Rightarrow> note_event (Called call effects) se)\<lparr>se_state := state\<rparr> in
     case response of
       None \<Rightarrow> (None, se1)
     | Some r \<Rightarrow> (let (sent, se2) = send wire ''cannot write session response'' (SM_Response r) se1 in (Some sent, se2))))"

fun serve_requests :: "'w wire \<Rightarrow> SessionContext \<Rightarrow> bool \<Rightarrow> (nat \<Rightarrow> request_env) \<Rightarrow> nat \<Rightarrow> 'w session
    \<Rightarrow> (session_error + unit) option \<times> 'w session" where
  "serve_requests wire ctx active envs 0 se = close wire Err_SessionClosed ''session request bound reached'' se"
| "serve_requests wire ctx active envs (Suc n) se =
    (case if active then wait_idle (rq_wait (envs n)) else Some (Inr ()) of
       None \<Rightarrow> (None, se)
     | Some (Inl e) \<Rightarrow> (Some (Inl e), se)
     | Some (Inr _) \<Rightarrow>
         if active \<and> rq_stopping (envs n) then (Some (Inr ()), se)
         else (case receive wire ''cannot read session request'' se of
             (Inl e, se) \<Rightarrow> (Some (Inl e), se)
           | (Inr CleanEof, se) \<Rightarrow> (Some (Inr ()), se)
           | (Inr (Message (CM_Goodbye _)), se) \<Rightarrow> (Some (Inr ()), se)
           | (Inr (Message (CM_Hello _)), se) \<Rightarrow> close wire Err_Malformed ''hello cannot be repeated'' se
           | (Inr (Message (CM_Request request)), se) \<Rightarrow>
               (let se = note_event (Gate_Seen (rq_gate (envs n))) se in
                if \<not> accepts (rq_gate (envs n)) (ctx_seat_permit ctx) then revoke wire request se
                else (case answer wire (rq_call (envs n)) ctx request se of
                    (None, se) \<Rightarrow> (None, se)
                  | (Some (Inl e), se) \<Rightarrow> (Some (Inl e), se)
                  | (Some (Inr _), se) \<Rightarrow> serve_requests wire ctx active envs n se))))"

section \<open>A session\<close>

record session_env =
  sv_timeouts :: "string + unit"
  sv_peer :: "string + u32"
  sv_permit_gate :: SeatGate
  sv_granted_gate :: SeatGate
  sv_slot :: bool
  sv_requests :: "nat \<Rightarrow> request_env"
  sv_session_number :: u64

definition welcome_features :: "Capability list \<Rightarrow> Feature list" where
  "welcome_features grants =
    [Feat_EwmhObservation, Feat_EwmhManagement, Feat_DesktopLaunch]
    @ (if Cap_CaptureObscured \<in> set grants then [Feat_ObscuredCapture] else [])
    @ (if list_ex (\<lambda>c. c = Cap_InputPointer \<or> c = Cap_InputKeyboard \<or> c = Cap_TextTransfer) grants
       then [Feat_InputInjection] else [])
    @ (if Cap_TextTransfer \<in> set grants then [Feat_TextTransfer] else [])"

definition session_text :: "nat \<Rightarrow> string \<Rightarrow> session_error + string" where
  "session_text limit value = map_err (Session_Bound []) (BoundedText_new limit value)"

definition make_welcome :: "SessionId \<Rightarrow> Capability list \<Rightarrow> session_error + Welcome" where
  "make_welcome session grants =
    res_bind (session_text 128 PROTOCOL_NAME) (\<lambda>protocol.
    res_bind (session_text MAX_NAME_BYTES ''agent-seat-x11'') (\<lambda>name.
    res_bind (session_text MAX_VERSION_BYTES ''0.2.1'') (\<lambda>version.
    res_bind (map_err (Session_Bound ''provider feature list exceeded wire bounds'')
      (BoundedList_new MAX_FEATURES (welcome_features grants))) (\<lambda>features.
    Inr \<lparr>wel_protocol = protocol, wel_revision = PROTOCOL_REVISION, wel_session = session,
      wel_provider = \<lparr>provider_name = name, provider_version = version\<rparr>, wel_backend = X11Ewmh,
      wel_assurance = Tier0, wel_features = features, wel_granted = grants,
      wel_limits = \<lparr>lim_request_frame_bytes = of_nat MAX_REQUEST_FRAME_BYTES,
        lim_response_frame_bytes = of_nat MAX_RESPONSE_FRAME_BYTES,
        lim_events_per_poll = of_nat MAX_EVENTS, lim_poll_wait_ms = MAX_POLL_WAIT_MS\<rparr>\<rparr>))))"

definition run_open :: "'w wire \<Rightarrow> Config \<Rightarrow> session_env \<Rightarrow> SeatPermit \<Rightarrow> Capability list \<Rightarrow> 'w session
    \<Rightarrow> (session_error + unit) option \<times> 'w session" where
  "run_open wire config env seat_permit grants se =
    (let active = fst (claim (ip_provider_private_devices (cfg_input config)) (sv_slot env)) in
     case res_bind (map_err (Session_Bound ''configured grant exceeded wire bounds'')
         (BoundedList_new MAX_CAPABILITIES grants)) (\<lambda>grants.
       make_welcome (sv_session_number env) grants) of
       Inl e \<Rightarrow> (Some (Inl e), se)
     | Inr welcome \<Rightarrow> (case send wire ''cannot write session welcome'' (SM_Welcome welcome) se of
         (Inl e, se) \<Rightarrow> (Some (Inl e), se)
       | (Inr _, se) \<Rightarrow>
           serve_requests wire
             \<lparr>ctx_session = sv_session_number env, ctx_granted = grants, ctx_config = config, ctx_seat_permit = seat_permit\<rparr>
             active (sv_requests env) (unat (cfg_max_requests config)) se))"

definition run_greeted :: "'w wire \<Rightarrow> Config \<Rightarrow> session_env \<Rightarrow> u32 \<Rightarrow> Hello \<Rightarrow> 'w session
    \<Rightarrow> (session_error + unit) option \<times> 'w session" where
  "run_greeted wire config env uid hello se =
    (if \<not> is_compatible hello
     then close wire Err_IncompatibleRevision ''exact Agent Seat revision 9 is required'' se
     else
       (let se = note_event (Gate_Seen (sv_permit_gate env)) se in
        case permit (sv_permit_gate env) of
          None \<Rightarrow> close wire Err_Refused ''operator seat is disabled'' se
        | Some seat_permit \<Rightarrow> (case granted config uid (hello_requested hello) of
            None \<Rightarrow> close wire Err_Refused ''verified peer UID has no configured grant'' se
          | Some grants \<Rightarrow>
              (let se = note_event (Gate_Seen (sv_granted_gate env)) se in
               if \<not> accepts (sv_granted_gate env) seat_permit
               then close wire Err_Revoked ''operator seat generation was revoked'' se
               else run_open wire config env seat_permit grants se))))"

definition run :: "'w wire \<Rightarrow> Config \<Rightarrow> session_env \<Rightarrow> 'w session \<Rightarrow> (session_error + unit) option \<times> 'w session" where
  "run wire config env se = (case sv_timeouts env of
      Inl e \<Rightarrow> (Some (Inl (Session_Os ''cannot bound session I/O'' e)), se)
    | Inr _ \<Rightarrow> (case sv_peer env of
        Inl e \<Rightarrow> (Some (Inl (Session_Os ''cannot authenticate local peer credentials'' e)), se)
      | Inr uid \<Rightarrow> (case receive wire ''cannot read session hello'' se of
          (Inl e, se) \<Rightarrow> (Some (Inl e), se)
        | (Inr CleanEof, se) \<Rightarrow> (Some (Inr ()), se)
        | (Inr (Message (CM_Hello hello)), se) \<Rightarrow> run_greeted wire config env uid hello se
        | (Inr (Message _), se) \<Rightarrow> close wire Err_Malformed ''hello must be first'' se)))"

section \<open>The abstract protocol\<close>

text \<open>
  What a session promises, as an automaton over its events: the greeting, one permit taken and
  confirmed, a welcome that announces the grant, then requests, each answered under its own identifier
  and only performed after a fresh reading of the gate accepted the permit and within the grant; a
  bounded number of them, and nothing after the end.
\<close>

datatype phase =
  Ph_Start
| Ph_Greeted Hello
| Ph_Permitted SeatPermit "Capability list"
| Ph_Admitted SeatPermit "Capability list"
| Ph_Ready SeatPermit "Capability list" nat
| Ph_Asked SeatPermit "Capability list" nat Request
| Ph_Cleared SeatPermit "Capability list" nat Request
| Ph_Performed SeatPermit "Capability list" nat Request
| Ph_Revoked Request
| Ph_Refused
| Ph_Closed

definition fails_with :: "ErrorCode \<Rightarrow> Response \<Rightarrow> bool" where
  "fails_with code r \<longleftrightarrow> (case resp_outcome r of Out_Error e \<Rightarrow> pe_code e = code | Out_Ok _ \<Rightarrow> False)"

definition permitted_command :: "Config \<Rightarrow> Command \<Rightarrow> bool" where
  "permitted_command config c \<longleftrightarrow> (\<exists>fs all entry xs. discover_all fs = Inr all \<and> entry \<in> set all
    \<and> permits (cfg_launch config) (entry_id entry) (ad_user_entry (ce_descriptor entry))
    \<and> cmd_program c # cmd_args c = xs @ ce_program entry # ce_arguments entry)"

definition confined :: "Config \<Rightarrow> SeatPermit \<Rightarrow> call_effect \<Rightarrow> bool" where
  "confined config p e = (case e of
      Eff_Messages _ \<Rightarrow> True
    | Eff_Section tr \<Rightarrow> guarded p False tr \<and> held_down tr = {}
    | Eff_Command c \<Rightarrow> permitted_command config c)"

definition next_phase :: "Config \<Rightarrow> u32 \<Rightarrow> phase \<Rightarrow> session_event \<Rightarrow> phase option" where
  "next_phase config uid ph e = (case ph of
      Ph_Start \<Rightarrow> (case e of
          Read_Message m \<Rightarrow> (case m of
              CM_Hello hello \<Rightarrow> if is_compatible hello then Some (Ph_Greeted hello) else Some Ph_Refused
            | _ \<Rightarrow> Some Ph_Refused)
        | _ \<Rightarrow> None)
    | Ph_Greeted hello \<Rightarrow> (case e of
          Gate_Seen g \<Rightarrow> (case permit g of
              None \<Rightarrow> Some Ph_Refused
            | Some p \<Rightarrow> (case granted config uid (hello_requested hello) of
                None \<Rightarrow> Some Ph_Refused
              | Some grants \<Rightarrow> Some (Ph_Permitted p grants)))
        | _ \<Rightarrow> None)
    | Ph_Permitted p grants \<Rightarrow> (case e of
          Gate_Seen g \<Rightarrow> if accepts g p then Some (Ph_Admitted p grants) else Some Ph_Refused
        | _ \<Rightarrow> None)
    | Ph_Admitted p grants \<Rightarrow> (case e of
          Wrote (SM_Welcome w) \<Rightarrow>
            if wel_granted w = grants then Some (Ph_Ready p grants (unat (cfg_max_requests config))) else None
        | _ \<Rightarrow> None)
    | Ph_Ready p grants n \<Rightarrow> (case n of
          0 \<Rightarrow> (case e of
              Wrote (SM_Goodbye g) \<Rightarrow> if bye_code g = Err_SessionClosed then Some Ph_Closed else None
            | _ \<Rightarrow> None)
        | Suc n \<Rightarrow> (case e of
              Read_Message m \<Rightarrow> (case m of
                  CM_Request r \<Rightarrow> Some (Ph_Asked p grants n r)
                | CM_Goodbye _ \<Rightarrow> Some Ph_Closed
                | CM_Hello _ \<Rightarrow> Some Ph_Refused)
            | _ \<Rightarrow> None))
    | Ph_Asked p grants n r \<Rightarrow> (case e of
          Gate_Seen g \<Rightarrow> if accepts g p then Some (Ph_Cleared p grants n r) else Some (Ph_Revoked r)
        | _ \<Rightarrow> None)
    | Ph_Cleared p grants n r \<Rightarrow> (case e of
          Called c effects \<Rightarrow>
            if c = req_call r \<and> authorized c grants \<and> list_all (confined config p) effects
            then Some (Ph_Performed p grants n r) else None
        | Wrote (SM_Response resp) \<Rightarrow>
            if \<not> authorized (req_call r) grants \<and> resp_id resp = req_id r \<and> fails_with Err_Refused resp
            then Some (Ph_Ready p grants n) else None
        | _ \<Rightarrow> None)
    | Ph_Performed p grants n r \<Rightarrow> (case e of
          Wrote (SM_Response resp) \<Rightarrow> if resp_id resp = req_id r then Some (Ph_Ready p grants n) else None
        | _ \<Rightarrow> None)
    | Ph_Revoked r \<Rightarrow> (case e of
          Wrote (SM_Response resp) \<Rightarrow>
            if resp_id resp = req_id r \<and> fails_with Err_Revoked resp then Some Ph_Closed else None
        | _ \<Rightarrow> None)
    | Ph_Refused \<Rightarrow> (case e of Wrote (SM_Goodbye _) \<Rightarrow> Some Ph_Closed | _ \<Rightarrow> None)
    | Ph_Closed \<Rightarrow> None)"

definition protocol_run :: "Config \<Rightarrow> u32 \<Rightarrow> session_event list \<Rightarrow> phase option" where
  "protocol_run config uid events =
    foldl (\<lambda>ph e. Option.bind ph (\<lambda>ph. next_phase config uid ph e)) (Some Ph_Start) events"

lemma protocol_run_snoc:
  "protocol_run config uid (events @ [e]) = Option.bind (protocol_run config uid events) (\<lambda>ph. next_phase config uid ph e)"
  by (simp add: protocol_run_def)

section \<open>Calls are confined\<close>

lemma input_sections:
  "confined config p (Eff_Section (snd (snd (pointer_move env after move p ob))))"
  "confined config p (Eff_Section (snd (snd (pointer_click env after click p ob))))"
  "confined config p (Eff_Section (snd (snd (keyboard_key env after key p ob))))"
  unfolding pointer_move_def pointer_click_def keyboard_key_def confined_def
  by (auto simp: Let_def split: prod.splits intro: in_section_guarded sections_safe
    dest: in_section_up [OF sections_up(1)] in_section_up [OF sections_up(2)] in_section_up [OF sections_up(3)])

lemma text_sections:
  "list_all (\<lambda>tr. confined config p (Eff_Section tr)) (snd (snd (keyboard_text pre steps final request text p ob)))"
  by (rule keyboard_text_traces) (auto simp: confined_def intro: in_section_guarded sections_safe
    dest: in_section_up [OF sections_up(4)] in_section_up [OF sections_up(5)])

lemma transfer_sections:
  assumes "text_insert env request p ob = (r, ob', trs, d)"
  shows "list_all (\<lambda>tr. confined config p (Eff_Section tr)) trs"
  using assms
proof (cases rule: text_insert_cases)
  case (ran owner offered ob1 tr0 result ob2 more)
  have one: "confined config p (Eff_Section tr)"
    if "keeps (safe p) m" "keeps all_up m" "in_section m ob0 = (q, obq, tr)" for m :: "bool grabbed_op" and ob0 q obq tr
    using in_section_guarded [OF that(1,3)] in_section_up [OF that(2,3)] by (simp add: confined_def)
  have "confined config p (Eff_Section tr)" if more: "tr \<in> set more" for tr
  proof -
    from more ran(4) obtain deadline where
      "wait_rounds (at_clipboard (ob_atoms ob1)) deadline owner (tir_target request) (tir_text request)
        (of_nat (length (tir_text request))) p (ti_rounds env)
        \<lparr>ct_events = 0, ct_requests = 0, ct_last_delivery = None\<rparr> ob1 = (result, ob2, more)"
      by (auto simp: wait_for_transfer_def split: sum.splits bool.splits option.splits)
    from wait_traces [OF this more] show ?thesis
      using in_section_guarded [OF handle_safe] in_section_up [OF transfer_sections_up(1)]
      by (elim disjE bexE exE conjE) (simp add: confined_def, rule one [OF evidence_safe transfer_sections_up(2)])
  qed
  with one [OF offer_safe transfer_sections_up(3) ran(2)] ran(3) show ?thesis by (simp add: list_all_iff)
qed simp

lemma launched_command:
  assumes "launch env application (cfg_launch config) s = (r, s', Some command)"
  shows "permitted_command config command"
  using assms
proof (cases rule: launch_cases)
  case (numbered es entry numeric s1)
  from discover_sound(4) [OF numbered(1,2)] obtain all where
    entry: "discover_all (la_fs env) = Inr all" "entry \<in> set all"
    "permits (cfg_launch config) (entry_id entry) (ad_user_entry (ce_descriptor entry))" by auto
  from numbered(8) [OF refl] obtain startup_id where made:
    "if ls_delegate_via_systemd s
     then delegated_command (la_fs env) entry startup_id (ls_delegated_unit_stem s) numeric = Inr command
     else command = direct_command entry startup_id" by blast
  have "\<exists>xs. cmd_program command # cmd_args command = xs @ ce_program entry # ce_arguments entry"
  proof (cases "ls_delegate_via_systemd s")
    case True
    with made delegated_command_shape obtain options where
      "cmd_args command = options @ ''--'' # ce_program entry # ce_arguments entry" by fastforce
    then show ?thesis by (intro exI [of _ "cmd_program command # options @ [''--'']"]) simp
  next
    case False
    with made show ?thesis by (intro exI [of _ "[]"]) (simp add: direct_command_def configure_stdio_def)
  qed
  with entry show ?thesis unfolding permitted_command_def by blast
qed simp

lemma observe_call_effects:
  assumes "observe_call env ctx s f wrap = (r, s', effects)"
    and "\<And>ob r ob' effects. f ob = (r, ob', effects) \<Longrightarrow> list_all P effects"
  shows "list_all P effects"
  using assms by (auto simp: observe_call_def Let_def split: prod.splits sum.splits)

lemma op_effects:
  "total_op m ob = (r, ob', effects) \<Longrightarrow> effects = []"
  "waiting_op n ob = (r', ob', effects) \<Longrightarrow> effects = []"
  "manage_op env operation ob = (r'', ob', effects) \<Longrightarrow> list_all (confined config p) effects"
  "section_op k ob = (r3, ob', effects) \<Longrightarrow> effects = [Eff_Section (snd (snd (k ob)))]"
  "sections_op ks ob = (r4, ob', effects) \<Longrightarrow> effects = map Eff_Section (snd (snd (ks ob)))"
  by (auto simp: total_op_def waiting_op_def manage_op_def section_op_def sections_op_def confined_def Let_def
    split: prod.splits)

lemma launch_application_effects:
  assumes "launch_application env ctx application s = (r, s', effects)"
  shows "list_all (confined (ctx_config ctx) p) effects"
proof -
  obtain q l c where run: "launch (ca_launch env) application (cfg_launch (ctx_config ctx)) (ca_launcher env) = (q, l, c)"
    by (metis prod_cases3)
  have "effects = map Eff_Command (case c of None \<Rightarrow> [] | Some c \<Rightarrow> [c])"
    using assms by (auto simp: launch_application_def run Let_def split: prod.splits sum.splits option.splits)
  then show ?thesis using launched_command [of "ca_launch env" application "ctx_config ctx"] run
    by (auto simp: confined_def split: option.splits)
qed

lemma provider_confined:
  assumes "provider_result env ctx call s = (r, s', effects)"
  shows "list_all (confined (ctx_config ctx) (ctx_seat_permit ctx)) effects"
proof (cases call)
  case (Call_ApplicationLaunch a)
  with assms show ?thesis by (simp add: launch_application_effects)
next
  case (Call_TextInsert a)
  have traces: "list_all (confined (ctx_config ctx) (ctx_seat_permit ctx)) (map Eff_Section trs)"
    if "text_insert (ca_text env) a (ctx_seat_permit ctx) ob = (q, ob', trs, d)" for ob q ob' trs d
    using transfer_sections [OF that] by (simp add: list.pred_map comp_def)
  from Call_TextInsert assms show ?thesis
    by (auto elim!: observe_call_effects simp: Let_def split: prod.splits intro: traces simp del: list.pred_map)
next
  case (Call_KeyboardType a)
  with assms show ?thesis
    by (auto elim!: observe_call_effects dest!: op_effects(5) simp: list.pred_map comp_def keyboard_type_def intro: text_sections)
next
  case (Call_KeyboardWrite a)
  with assms show ?thesis
    by (auto elim!: observe_call_effects dest!: op_effects(5) simp: list.pred_map comp_def keyboard_write_def intro: text_sections)
qed (use assms in \<open>auto elim!: observe_call_effects dest!: op_effects(1,2,4) intro: op_effects(3) input_sections
  simp: Let_def split: prod.splits\<close>)

section \<open>Sessions refine the protocol\<close>

abbreviation phase_of :: "Config \<Rightarrow> u32 \<Rightarrow> 'w session \<Rightarrow> phase option" where
  "phase_of config uid se \<equiv> protocol_run config uid (se_trace se)"

lemma send_cases:
  assumes "send wire what m se = (r, se')"
  obtains (sent) "r = Inr ()" "se_trace se' = se_trace se @ [Wrote m]" "validate_ServerMessage m = Inr ()"
  | (failed) e where "r = Inl e" "se_trace se' = se_trace se"
  using assms
  by (auto simp: send_def note_event_def write_frame_def split: prod.splits sum.splits if_splits)

lemma receive_cases:
  assumes "receive wire what se = (r, se')"
  obtains (message) m where "r = Inr (Message m)" "se_trace se' = se_trace se @ [Read_Message m]"
      "validate_ClientMessage m = Inr ()"
  | (other) "\<forall>m. r \<noteq> Inr (Message m)" "se_trace se' = se_trace se"
  using assms
  by (auto simp: receive_def note_event_def read_frame_def res_simps Let_def
    split: prod.splits sum.splits ReadFrame.splits option.splits exact_error.splits if_splits)

lemma phase_send:
  assumes "send wire what m se = (r, se')" and "phase_of config uid se = Some ph"
    and "next_phase config uid ph (Wrote m) = Some ph'"
  shows "phase_of config uid se' \<noteq> None" "r = Inr () \<Longrightarrow> phase_of config uid se' = Some ph'"
  using assms by (auto elim!: send_cases simp: protocol_run_snoc)

lemma phase_close:
  assumes "close wire code message se = (r, se')" and "phase_of config uid se = Some ph"
    and "\<And>d. next_phase config uid ph (Wrote (SM_Goodbye \<lparr>bye_code = code, bye_message = Some d\<rparr>)) = Some Ph_Closed"
  shows "phase_of config uid se' \<noteq> None"
  using assms phase_send [OF _ assms(2) assms(3)]
  by (auto simp: close_def Let_def split: option.splits prod.splits)

lemma phase_refused:
  "close wire code message se = (r, se') \<Longrightarrow> phase_of config uid se = Some Ph_Refused \<Longrightarrow> phase_of config uid se' \<noteq> None"
  by (erule phase_close [where ph = Ph_Refused]) (simp_all add: next_phase_def)

lemma phase_note:
  "phase_of config uid se = Some ph \<Longrightarrow> phase_of config uid (note_event e se) = next_phase config uid ph e"
  by (simp add: note_event_def protocol_run_snoc)

lemma protocol_error_code: "protocol_error code retry message = Some o' \<Longrightarrow> fails_with code \<lparr>resp_id = i, resp_outcome = o'\<rparr>"
  by (auto simp: protocol_error_def fails_with_def)

lemma phase_revoke:
  assumes "revoke wire request se = (r, se')" and "phase_of config uid se = Some (Ph_Revoked request)"
  shows "phase_of config uid se' \<noteq> None"
proof (cases "protocol_error Err_Revoked Retry_Reconnect ''operator seat generation was revoked''")
  case (Some o')
  let ?m = "SM_Response \<lparr>resp_id = req_id request, resp_outcome = o'\<rparr>"
  obtain q where sent: "send wire ''cannot write revoked session response'' ?m se = (q, se')"
    using assms(1) by (auto simp: revoke_def Some Let_def split: prod.splits)
  have "next_phase config uid (Ph_Revoked request) (Wrote ?m) = Some Ph_Closed"
    using protocol_error_code [OF Some] by (simp add: next_phase_def)
  then show ?thesis by (rule phase_send(1) [OF sent assms(2)])
qed (use assms in \<open>simp add: revoke_def\<close>)

lemma phase_answer:
  assumes run: "answer wire env ctx request se = (r, se')"
    and ph: "phase_of (ctx_config ctx) uid se = Some (Ph_Cleared (ctx_seat_permit ctx) (ctx_granted ctx) n request)"
  shows "phase_of (ctx_config ctx) uid se' \<noteq> None
    \<and> (r = Some (Inr ()) \<longrightarrow> phase_of (ctx_config ctx) uid se' = Some (Ph_Ready (ctx_seat_permit ctx) (ctx_granted ctx) n))"
proof (cases "authorized (req_call request) (ctx_granted ctx)")
  case False
  let ?e = "protocol_error Err_Refused Retry_Never ''capability was not granted''"
  show ?thesis
  proof (cases ?e)
    case None
    with run False ph show ?thesis by (simp add: answer_def handle_def)
  next
    case (Some o')
    let ?m = "SM_Response \<lparr>resp_id = req_id request, resp_outcome = o'\<rparr>"
    obtain q where sent: "send wire ''cannot write session response'' ?m (se\<lparr>se_state := se_state se\<rparr>) = (q, se')" "r = Some q"
      using run False by (auto simp: answer_def handle_def Some Let_def split: prod.splits)
    have "next_phase (ctx_config ctx) uid (Ph_Cleared (ctx_seat_permit ctx) (ctx_granted ctx) n request) (Wrote ?m)
        = Some (Ph_Ready (ctx_seat_permit ctx) (ctx_granted ctx) n)"
      using False protocol_error_code [OF Some] by (simp add: next_phase_def)
    from phase_send [OF sent(1) _ this] ph sent(2) show ?thesis by simp
  qed
next
  case True
  obtain o' s1 effects where call: "provider_call env ctx (req_call request) (se_state se) = (o', s1, effects)"
    by (metis prod_cases3)
  then have "list_all (confined (ctx_config ctx) (ctx_seat_permit ctx)) effects"
    by (auto simp: provider_call_def Let_def split: prod.splits dest: provider_confined)
  then have step: "next_phase (ctx_config ctx) uid (Ph_Cleared (ctx_seat_permit ctx) (ctx_granted ctx) n request)
      (Called (req_call request) effects) = Some (Ph_Performed (ctx_seat_permit ctx) (ctx_granted ctx) n request)"
    using True by (simp add: next_phase_def)
  let ?se = "(note_event (Called (req_call request) effects) se)\<lparr>se_state := s1\<rparr>"
  have performed: "phase_of (ctx_config ctx) uid ?se = Some (Ph_Performed (ctx_seat_permit ctx) (ctx_granted ctx) n request)"
    using phase_note [OF ph, of "Called (req_call request) effects"] step by simp
  show ?thesis
  proof (cases o')
    case None
    with run True call performed show ?thesis by (simp add: answer_def handle_def)
  next
    case (Some out)
    let ?m = "SM_Response \<lparr>resp_id = req_id request, resp_outcome = out\<rparr>"
    obtain q where sent: "send wire ''cannot write session response'' ?m ?se = (q, se')" "r = Some q"
      using run True call by (auto simp: answer_def handle_def Some Let_def split: prod.splits)
    from phase_send [OF sent(1) performed] sent(2) show ?thesis by (simp add: next_phase_def)
  qed
qed

lemma phase_serve:
  assumes "serve_requests wire ctx active envs n se = (r, se')"
    and "phase_of (ctx_config ctx) uid se = Some (Ph_Ready (ctx_seat_permit ctx) (ctx_granted ctx) n)"
  shows "phase_of (ctx_config ctx) uid se' \<noteq> None"
  using assms
proof (induction n arbitrary: se)
  case 0
  have "close wire Err_SessionClosed ''session request bound reached'' se = (r, se')" using 0(1) by simp
  then show ?case
    by (rule phase_close [where ph = "Ph_Ready (ctx_seat_permit ctx) (ctx_granted ctx) 0", OF _ 0(2)])
      (simp add: next_phase_def)
next
  case (Suc n)
  let ?p = "ctx_seat_permit ctx" and ?gs = "ctx_granted ctx" and ?config = "ctx_config ctx"
  obtain q se1 where got: "receive wire ''cannot read session request'' se = (q, se1)" by fastforce
  consider "se' = se" | "\<forall>m. q \<noteq> Inr (Message m)" "se' = se1"
    | g where "q = Inr (Message (CM_Goodbye g))" "se' = se1"
    | h where "q = Inr (Message (CM_Hello h))" "close wire Err_Malformed ''hello cannot be repeated'' se1 = (r, se')"
    | request where "q = Inr (Message (CM_Request request))"
        "(let se = note_event (Gate_Seen (rq_gate (envs n))) se1 in
          if \<not> accepts (rq_gate (envs n)) ?p then revoke wire request se
          else (case answer wire (rq_call (envs n)) ctx request se of
              (None, se) \<Rightarrow> (None, se)
            | (Some (Inl e), se) \<Rightarrow> (Some (Inl e), se)
            | (Some (Inr _), se) \<Rightarrow> serve_requests wire ctx active envs n se)) = (r, se')"
    using Suc.prems(1) got
    by (cases q; cases "case q of Inr (Message m) \<Rightarrow> Some m | _ \<Rightarrow> None")
      (auto split: option.splits sum.splits if_splits ReadFrame.splits ClientMessage.splits)
  then show ?case
  proof cases
    case 1
    with Suc.prems(2) show ?thesis by simp
  next
    case 2
    with got Suc.prems(2) show ?thesis by (auto elim!: receive_cases)
  next
    case (3 g)
    with got Suc.prems(2) show ?thesis by (auto elim!: receive_cases simp: protocol_run_snoc next_phase_def)
  next
    case (4 h)
    then have "phase_of ?config uid se1 = Some Ph_Refused"
      using got Suc.prems(2) by (auto elim!: receive_cases simp: protocol_run_snoc next_phase_def)
    with 4(2) show ?thesis by (rule phase_refused)
  next
    case (5 request)
    let ?se = "note_event (Gate_Seen (rq_gate (envs n))) se1"
    have "phase_of ?config uid se1 = Some (Ph_Asked ?p ?gs n request)"
      using 5(1) got Suc.prems(2) by (auto elim!: receive_cases simp: protocol_run_snoc next_phase_def)
    from phase_note [OF this, of "Gate_Seen (rq_gate (envs n))"]
    have asked: "phase_of ?config uid ?se
        = Some (if accepts (rq_gate (envs n)) ?p then Ph_Cleared ?p ?gs n request else Ph_Revoked request)"
      by (simp add: next_phase_def)
    show ?thesis
    proof (cases "accepts (rq_gate (envs n)) ?p")
      case False
      with 5(2) asked show ?thesis using phase_revoke [of wire request ?se r se'] by (simp add: Let_def)
    next
      case True
      obtain t se2 where ans: "answer wire (rq_call (envs n)) ctx request ?se = (t, se2)" by fastforce
      note after = phase_answer [OF ans, of uid n] asked [unfolded if_P [OF True]]
      show ?thesis
      proof (cases "t = Some (Inr ())")
        case True
        with 5(2) \<open>accepts _ _\<close> ans have "serve_requests wire ctx active envs n se2 = (r, se')" by (simp add: Let_def)
        from Suc.IH [OF this] after True show ?thesis by blast
      next
        case False
        with 5(2) \<open>accepts _ _\<close> ans have "se' = se2"
          by (auto simp: Let_def split: option.splits sum.splits)
        with after show ?thesis by blast
      qed
    qed
  qed
qed

lemma make_welcome_granted: "make_welcome session grants = Inr w \<Longrightarrow> wel_granted w = grants"
  by (auto simp: make_welcome_def res_simps)

lemma phase_open:
  assumes run: "run_open wire config env p grants se = (r, se')"
    and ph: "phase_of config uid se = Some (Ph_Admitted p grants)"
  shows "phase_of config uid se' \<noteq> None"
proof (cases "res_bind (map_err (Session_Bound ''configured grant exceeded wire bounds'')
    (BoundedList_new MAX_CAPABILITIES grants)) (\<lambda>grants. make_welcome (sv_session_number env) grants)")
  case (Inl e)
  with run ph show ?thesis by (simp add: run_open_def)
next
  case (Inr w)
  then have w: "wel_granted w = grants"
    by (auto simp: res_simps BoundedList_new_def dest: make_welcome_granted split: if_splits)
  obtain q se1 where sent: "send wire ''cannot write session welcome'' (SM_Welcome w) se = (q, se1)" by fastforce
  have step: "next_phase config uid (Ph_Admitted p grants) (Wrote (SM_Welcome w))
      = Some (Ph_Ready p grants (unat (cfg_max_requests config)))"
    using w by (simp add: next_phase_def)
  note phase = phase_send [OF sent ph step]
  show ?thesis
  proof (cases q)
    case (Inl e)
    with run phase(1) \<open>_ = Inr w\<close> sent show ?thesis by (simp add: run_open_def Let_def)
  next
    case (Inr u)
    let ?ctx = "\<lparr>ctx_session = sv_session_number env, ctx_granted = grants, ctx_config = config, ctx_seat_permit = p\<rparr>"
    have "serve_requests wire ?ctx (fst (claim (ip_provider_private_devices (cfg_input config)) (sv_slot env)))
        (sv_requests env) (unat (cfg_max_requests config)) se1 = (r, se')"
      using run Inr \<open>_ = Inr w\<close> sent by (simp add: run_open_def Let_def)
    from phase_serve [OF this, of uid] phase(2) Inr show ?thesis by simp
  qed
qed

lemma phase_greeted:
  assumes run: "run_greeted wire config env uid hello se = (r, se')"
    and ph: "phase_of config uid se = Some (if is_compatible hello then Ph_Greeted hello else Ph_Refused)"
  shows "phase_of config uid se' \<noteq> None"
proof (cases "is_compatible hello")
  case False
  then have "close wire Err_IncompatibleRevision ''exact Agent Seat revision 9 is required'' se = (r, se')"
    using run by (simp add: run_greeted_def)
  then show ?thesis by (rule phase_refused) (use False ph in simp)
next
  case True
  let ?se = "note_event (Gate_Seen (sv_permit_gate env)) se"
  have first: "phase_of config uid ?se = (case permit (sv_permit_gate env) of
      None \<Rightarrow> Some Ph_Refused
    | Some p \<Rightarrow> (case granted config uid (hello_requested hello) of
        None \<Rightarrow> Some Ph_Refused | Some grants \<Rightarrow> Some (Ph_Permitted p grants)))"
    using phase_note [of config uid se "Ph_Greeted hello"] ph True by (simp add: next_phase_def)
  show ?thesis
  proof (cases "\<exists>p grants. permit (sv_permit_gate env) = Some p \<and> granted config uid (hello_requested hello) = Some grants")
    case False
    then have "phase_of config uid ?se = Some Ph_Refused" using first by (auto split: option.splits)
    moreover from False run True obtain code m where "close wire code m ?se = (r, se')"
      by (auto simp: run_greeted_def Let_def split: option.splits)
    ultimately show ?thesis using phase_refused by blast
  next
    case True
    then obtain p grants where pg: "permit (sv_permit_gate env) = Some p" "granted config uid (hello_requested hello) = Some grants"
      by blast
    let ?se2 = "note_event (Gate_Seen (sv_granted_gate env)) ?se"
    have second: "phase_of config uid ?se2
        = Some (if accepts (sv_granted_gate env) p then Ph_Admitted p grants else Ph_Refused)"
      using phase_note [of config uid ?se "Ph_Permitted p grants"] first pg by (simp add: next_phase_def)
    have rest: "(if \<not> accepts (sv_granted_gate env) p
        then close wire Err_Revoked ''operator seat generation was revoked'' ?se2
        else run_open wire config env p grants ?se2) = (r, se')"
      using run \<open>is_compatible hello\<close> pg by (simp add: run_greeted_def Let_def)
    show ?thesis
      by (cases "accepts (sv_granted_gate env) p") (use rest second phase_refused phase_open in \<open>fastforce+\<close>)
  qed
qed

lemma run_follows:
  assumes run: "run wire config env se = (r, se')" and "se_trace se = []" and peer: "sv_peer env = Inr uid"
  shows "phase_of config uid se' \<noteq> None"
proof (cases "sv_timeouts env")
  case (Inl e)
  with run assms(2) show ?thesis by (simp add: run_def protocol_run_def)
next
  case (Inr u)
  have start: "phase_of config uid se = Some Ph_Start" using assms(2) by (simp add: protocol_run_def)
  obtain q se1 where got: "receive wire ''cannot read session hello'' se = (q, se1)" by fastforce
  from got show ?thesis
  proof (cases rule: receive_cases)
    case other
    with run Inr peer got have "se' = se1"
      by (auto simp: run_def split: sum.splits ReadFrame.splits)
    with other start show ?thesis by simp
  next
    case (message m)
    show ?thesis
    proof (cases "\<exists>hello. m = CM_Hello hello")
      case True
      then obtain hello where m: "m = CM_Hello hello" by blast
      have "run_greeted wire config env uid hello se1 = (r, se')"
        using run Inr peer got message(1) m by (simp add: run_def)
      moreover have "phase_of config uid se1 = Some (if is_compatible hello then Ph_Greeted hello else Ph_Refused)"
        using start message(2) m by (simp add: protocol_run_snoc next_phase_def)
      ultimately show ?thesis by (rule phase_greeted)
    next
      case False
      have "close wire Err_Malformed ''hello must be first'' se1 = (r, se')"
        using run Inr peer got message(1) False by (cases m) (simp_all add: run_def)
      moreover have "phase_of config uid se1 = Some Ph_Refused"
        using start message(2) False by (cases m) (simp_all add: protocol_run_snoc next_phase_def)
      ultimately show ?thesis by (rule phase_refused)
    qed
  qed
qed

text \<open>
  C2. Every session refines the abstract protocol: whatever the peer sends, whatever the operating
  system, the X server and the gate answer, and wherever the session stops, its events are a run of
  the protocol automaton.
\<close>

theorem session_refines_protocol:
  assumes "run wire config env se = (r, se')" and "se_trace se = []" and "sv_peer env = Inr uid"
  shows "protocol_run config uid (se_trace se') \<noteq> None"
  using assms by (rule run_follows)

section \<open>What the protocol guarantees\<close>

text \<open>The permit and the grant a phase carries.\<close>

fun authority :: "phase \<Rightarrow> (SeatPermit \<times> Capability list) option" where
  "authority (Ph_Permitted p gs) = Some (p, gs)"
| "authority (Ph_Admitted p gs) = Some (p, gs)"
| "authority (Ph_Ready p gs n) = Some (p, gs)"
| "authority (Ph_Asked p gs n r) = Some (p, gs)"
| "authority (Ph_Cleared p gs n r) = Some (p, gs)"
| "authority (Ph_Performed p gs n r) = Some (p, gs)"
| "authority _ = None"

definition opened_by :: "Config \<Rightarrow> u32 \<Rightarrow> session_event list \<Rightarrow> SeatPermit \<Rightarrow> Capability list \<Rightarrow> bool" where
  "opened_by config uid events p gs \<longleftrightarrow> (\<exists>hello g. Read_Message (CM_Hello hello) \<in> set events \<and> is_compatible hello
    \<and> granted config uid (hello_requested hello) = Some gs \<and> Gate_Seen g \<in> set events \<and> permit g = Some p)"

definition announced :: "session_event list \<Rightarrow> Capability list \<Rightarrow> bool" where
  "announced events gs \<longleftrightarrow> (\<exists>w. Wrote (SM_Welcome w) \<in> set events \<and> wel_granted w = gs)"

fun welcomed :: "phase \<Rightarrow> bool" where
  "welcomed (Ph_Ready p gs n) = True"
| "welcomed (Ph_Asked p gs n r) = True"
| "welcomed (Ph_Cleared p gs n r) = True"
| "welcomed (Ph_Performed p gs n r) = True"
| "welcomed _ = False"

definition phase_inv :: "Config \<Rightarrow> u32 \<Rightarrow> session_event list \<Rightarrow> phase \<Rightarrow> bool" where
  "phase_inv config uid events ph \<longleftrightarrow>
    (\<forall>p gs. authority ph = Some (p, gs) \<longrightarrow> opened_by config uid events p gs \<and> (welcomed ph \<longrightarrow> announced events gs))
    \<and> (\<forall>hello. ph = Ph_Greeted hello \<longrightarrow> Read_Message (CM_Hello hello) \<in> set events \<and> is_compatible hello)
    \<and> (\<forall>p gs n r. ph = Ph_Cleared p gs n r \<longrightarrow> (\<exists>events' g. events = events' @ [Gate_Seen g] \<and> accepts g p))"

lemma opened_by_mono: "opened_by config uid events p gs \<Longrightarrow> set events \<subseteq> set events' \<Longrightarrow> opened_by config uid events' p gs"
  unfolding opened_by_def by blast

lemma announced_mono: "announced events gs \<Longrightarrow> set events \<subseteq> set events' \<Longrightarrow> announced events' gs"
  unfolding announced_def by blast

lemma next_phase_authority:
  assumes "next_phase config uid ph e = Some ph'" and "authority ph' = Some (p, gs)"
  obtains (kept) "authority ph = Some (p, gs)" "welcomed ph' \<longrightarrow> welcomed ph \<or> (\<exists>w. e = Wrote (SM_Welcome w) \<and> wel_granted w = gs)"
  | (opened) hello g where "ph = Ph_Greeted hello" "e = Gate_Seen g" "permit g = Some p"
      "granted config uid (hello_requested hello) = Some gs" "\<not> welcomed ph'"
  using assms
  by (cases ph) (auto simp: next_phase_def split: session_event.splits ServerMessage.splits ClientMessage.splits
    option.splits if_splits nat.splits)

lemma next_phase_special:
  "next_phase config uid ph e = Some (Ph_Greeted hello) \<Longrightarrow> e = Read_Message (CM_Hello hello) \<and> is_compatible hello"
  "next_phase config uid ph e = Some (Ph_Cleared p gs n r) \<Longrightarrow> \<exists>g. e = Gate_Seen g \<and> accepts g p"
  by (cases ph; auto simp: next_phase_def split: session_event.splits ServerMessage.splits ClientMessage.splits
    option.splits if_splits nat.splits)+

lemma next_phase_called:
  "next_phase config uid ph (Called c effects) = Some ph' \<Longrightarrow>
    \<exists>p gs n r. ph = Ph_Cleared p gs n r \<and> authorized c gs \<and> list_all (confined config p) effects"
  by (cases ph) (auto simp: next_phase_def split: if_splits nat.splits)

lemma protocol_run_inv: "protocol_run config uid events = Some ph \<Longrightarrow> phase_inv config uid events ph"
proof (induction events arbitrary: ph rule: rev_induct)
  case Nil
  then show ?case by (auto simp: protocol_run_def phase_inv_def)
next
  case (snoc e events)
  from snoc.prems obtain ph0 where ph0: "protocol_run config uid events = Some ph0" and step: "next_phase config uid ph0 e = Some ph"
    by (auto simp: protocol_run_snoc bind_eq_Some_conv)
  note inv = snoc.IH [OF ph0]
  have "opened_by config uid (events @ [e]) p gs \<and> (welcomed ph \<longrightarrow> announced (events @ [e]) gs)"
    if "authority ph = Some (p, gs)" for p gs
    using step that
  proof (cases rule: next_phase_authority)
    case kept
    then have "opened_by config uid events p gs" "welcomed ph0 \<longrightarrow> announced events gs"
      using inv by (auto simp: phase_inv_def)
    then have "opened_by config uid (events @ [e]) p gs" "welcomed ph0 \<longrightarrow> announced (events @ [e]) gs"
      using opened_by_mono announced_mono by (metis set_append Un_upper1)+
    with kept(2) show ?thesis by (auto simp: announced_def)
  next
    case (opened hello g)
    then have "Read_Message (CM_Hello hello) \<in> set events" "is_compatible hello" using inv by (auto simp: phase_inv_def)
    with opened show ?thesis by (auto simp: opened_by_def)
  qed
  with step show ?case
    unfolding phase_inv_def by (auto dest: next_phase_special)
qed

lemma protocol_run_prefix: "protocol_run config uid (events @ later) \<noteq> None \<Longrightarrow> protocol_run config uid events \<noteq> None"
proof (induction later rule: rev_induct)
  case (snoc e later)
  then have "Option.bind (protocol_run config uid (events @ later)) (\<lambda>ph. next_phase config uid ph e) \<noteq> None"
    using protocol_run_snoc [of config uid "events @ later" e] by simp
  then have "protocol_run config uid (events @ later) \<noteq> None" by (metis bind.bind_lzero)
  then show ?case by (rule snoc.IH)
qed simp

text \<open>
  C3. Nothing is done without authority: every call a session performs on the provider is within the
  grant, which is what the peer's compatible greeting requested and the policy configures for the
  peer's verified user, and which the welcome announced; the event just before it is a reading of the
  seat gate that accepted the permit taken at the greeting; and what the call did is confined: input
  only under that permit with nothing left pressed, and commands only of permitted entries.
\<close>

theorem session_calls_authorized:
  assumes "run wire config env se = (r, se')" and "se_trace se = []" and "sv_peer env = Inr uid"
    and "se_trace se' = before @ Called call effects # after"
  shows "\<exists>p gs events g. before = events @ [Gate_Seen g] \<and> accepts g p \<and> opened_by config uid before p gs
    \<and> announced before gs \<and> authorized call gs \<and> list_all (confined config p) effects"
proof -
  have "protocol_run config uid ((before @ [Called call effects]) @ after) \<noteq> None"
    using run_follows [OF assms(1-3)] assms(4) by simp
  then have "protocol_run config uid (before @ [Called call effects]) \<noteq> None"
    by (rule protocol_run_prefix)
  then obtain ph ph' where ph: "protocol_run config uid before = Some ph"
    "next_phase config uid ph (Called call effects) = Some ph'"
    by (auto simp: protocol_run_snoc split: bind_splits)
  from next_phase_called [OF ph(2)] obtain p gs n q where
    cleared: "ph = Ph_Cleared p gs n q" "authorized call gs" "list_all (confined config p) effects" by blast
  with protocol_run_inv [OF ph(1)] show ?thesis unfolding phase_inv_def by fastforce
qed

section \<open>Requests are answered in order\<close>

definition asked :: "session_event list \<Rightarrow> RequestId list" where
  "asked events = List.map_filter (\<lambda>e. case e of Read_Message (CM_Request r) \<Rightarrow> Some (req_id r) | _ \<Rightarrow> None) events"

definition answered :: "session_event list \<Rightarrow> RequestId list" where
  "answered events = List.map_filter (\<lambda>e. case e of Wrote (SM_Response r) \<Rightarrow> Some (resp_id r) | _ \<Rightarrow> None) events"

lemma asked_snoc: "asked (events @ [e]) = asked events @ (case e of Read_Message (CM_Request r) \<Rightarrow> [req_id r] | _ \<Rightarrow> [])"
  by (auto simp: asked_def List.map_filter_def split: session_event.splits ClientMessage.splits)

lemma answered_snoc: "answered (events @ [e]) = answered events @ (case e of Wrote (SM_Response r) \<Rightarrow> [resp_id r] | _ \<Rightarrow> [])"
  by (auto simp: answered_def List.map_filter_def split: session_event.splits ServerMessage.splits)

text \<open>The requests a phase has yet to answer, and how many more it may read.\<close>

fun balance :: "Config \<Rightarrow> phase \<Rightarrow> RequestId list \<Rightarrow> RequestId list \<Rightarrow> bool" where
  "balance config (Ph_Ready p gs n) xs ys \<longleftrightarrow> xs = ys \<and> length xs + n = unat (cfg_max_requests config)"
| "balance config (Ph_Asked p gs n r) xs ys \<longleftrightarrow> xs = ys @ [req_id r] \<and> length xs + n = unat (cfg_max_requests config)"
| "balance config (Ph_Cleared p gs n r) xs ys \<longleftrightarrow> xs = ys @ [req_id r] \<and> length xs + n = unat (cfg_max_requests config)"
| "balance config (Ph_Performed p gs n r) xs ys \<longleftrightarrow> xs = ys @ [req_id r] \<and> length xs + n = unat (cfg_max_requests config)"
| "balance config (Ph_Revoked r) xs ys \<longleftrightarrow> xs = ys @ [req_id r] \<and> length xs \<le> unat (cfg_max_requests config)"
| "balance config Ph_Refused xs ys \<longleftrightarrow> ys = [] \<and> length xs \<le> 1 \<or> xs = ys \<and> length xs \<le> unat (cfg_max_requests config)"
| "balance config Ph_Closed xs ys \<longleftrightarrow> ys = [] \<and> length xs \<le> 1 \<or> xs = ys \<and> length xs \<le> unat (cfg_max_requests config)"
| "balance config _ xs ys \<longleftrightarrow> xs = [] \<and> ys = []"

lemma next_phase_balance:
  "next_phase config uid ph e = Some ph' \<Longrightarrow> balance config ph (asked events) (answered events) \<Longrightarrow>
    balance config ph' (asked (events @ [e])) (answered (events @ [e]))"
  by (cases ph) (auto simp: next_phase_def asked_snoc answered_snoc
    split: session_event.splits ServerMessage.splits ClientMessage.splits option.splits if_splits nat.splits)

lemma protocol_run_balance:
  "protocol_run config uid events = Some ph \<Longrightarrow> balance config ph (asked events) (answered events)"
proof (induction events arbitrary: ph rule: rev_induct)
  case Nil
  then show ?case by (auto simp: protocol_run_def asked_def answered_def List.map_filter_def)
next
  case (snoc e events)
  then show ?case by (auto simp: protocol_run_snoc bind_eq_Some_conv intro: next_phase_balance)
qed

text \<open>
  Requests are answered in order, once each and within the bound: at every point of a session the
  responses written carry, in order, the identifiers of the requests read, at most the last of which
  is still unanswered, and no more responses are written than the configured request bound.
\<close>

theorem session_answers_in_order:
  assumes "run wire config env se = (r, se')" and "se_trace se = []" and "sv_peer env = Inr uid"
    and "se_trace se' = events @ later"
  shows "(asked events = answered events \<or> (\<exists>i. asked events = answered events @ [i]))
    \<and> length (answered events) \<le> unat (cfg_max_requests config)"
proof -
  have "protocol_run config uid events \<noteq> None"
    using run_follows [OF assms(1-3)] assms(4) protocol_run_prefix by metis
  then obtain ph where "protocol_run config uid events = Some ph" by blast
  from protocol_run_balance [OF this] show ?thesis
    by (cases ph) (auto simp: length_Suc_conv le_Suc_eq)
qed

section \<open>The welcome\<close>

lemma welcome_features_ordered: "strictly_ordered (welcome_features grants)"
  by (simp add: welcome_features_def less_Feature_def)

lemma welcome_valid:
  assumes "strictly_ordered grants"
  shows "\<exists>w. make_welcome session grants = Inr w \<and> validate_Welcome w = Inr () \<and> wel_granted w = grants"
proof -
  have "length (welcome_features grants) \<le> MAX_FEATURES"
    by (simp add: welcome_features_def MAX_FEATURES_def)
  then show ?thesis
    using assms welcome_features_ordered [of grants]
    by (simp add: make_welcome_def session_text_def BoundedText_new_def BoundedList_new_def validate_Welcome_def
      PROTOCOL_NAME_def MAX_NAME_BYTES_def MAX_VERSION_BYTES_def validate_ProviderInfo_def validate_Limits_def
      MAX_REQUEST_FRAME_BYTES_def MAX_RESPONSE_FRAME_BYTES_def MAX_EVENTS_def MAX_POLL_WAIT_MS_def)
qed

section \<open>The persistent slot admits one session\<close>

text \<open>Claims and drops of any number of sessions in any order; a state is the flag and who holds it.\<close>

inductive slot_reach :: "bool \<Rightarrow> nat set \<Rightarrow> bool" where
  slot_init: "slot_reach False {}"
| slot_claim: "slot_reach slot holders \<Longrightarrow> i \<notin> holders \<Longrightarrow> claim enabled slot = (active, slot') \<Longrightarrow>
    slot_reach slot' (if active then insert i holders else holders)"
| slot_drop: "slot_reach slot holders \<Longrightarrow>
    slot_reach (drop_guard (i \<in> holders) slot) (holders - {i})"

lemma one_idle_session:
  "slot_reach slot holders \<Longrightarrow> (slot \<longleftrightarrow> holders \<noteq> {}) \<and> (\<forall>i\<in>holders. \<forall>j\<in>holders. i = j)"
proof (induction rule: slot_reach.induct)
  case (slot_claim slot holders i enabled active slot')
  then show ?case by (auto simp: claim_def split: if_splits)
next
  case (slot_drop slot holders i)
  then show ?case by (cases "i \<in> holders") (auto simp: drop_guard_def)
qed simp

section \<open>A concrete session\<close>

definition demo_hello :: Hello where
  "demo_hello = \<lparr>hello_protocol = PROTOCOL_NAME, hello_revision = PROTOCOL_REVISION,
    hello_peer = \<lparr>peer_name = ''peer'', peer_version = ''1'', peer_purpose = ''demo''\<rparr>,
    hello_requested = [Cap_ObserveStructure]\<rparr>"

definition demo_ask :: Request where
  "demo_ask = \<lparr>req_id = 7, req_call = Call_SeatStatus\<rparr>"

definition demo_wire :: "unit wire" where
  "demo_wire = \<lparr>wi_from_slice = (\<lambda>bs. if bs = [1] then Inr (CM_Hello demo_hello) else Inr (CM_Request demo_ask)),
    wi_to_vec = (\<lambda>_. Inr [0]), wi_write_all = (\<lambda>_ _. (Inr (), ()))\<rparr>"

definition demo_config :: Config where
  "demo_config = \<lparr>cfg_max_sessions = 1, cfg_max_requests = 2, cfg_io_timeout = 1000,
    cfg_grant = Some \<lparr>grant_uid = 1000, grant_capabilities = [Cap_ObserveStructure, Cap_ManageClose]\<rparr>,
    cfg_observation = \<lparr>obs_clients = Scope_None, obs_titles = False\<rparr>, cfg_launch = demo_launch_policy,
    cfg_input = \<lparr>ip_provider_private_devices = False\<rparr>\<rparr>"

definition demo_call :: call_env where
  "demo_call = \<lparr>ca_connect = Inr (1, demo_atoms), ca_sample = demo_sample, ca_samples = [(demo_sample, True)],
    ca_manage = demo_manage, ca_grab = demo_grab, ca_after = 1, ca_steps = (\<lambda>_. (demo_grab, 1)), ca_text = demo_text_env,
    ca_capture = demo_capture, ca_png = (\<lambda>_ _ _. Png_NoHeader), ca_base64 = (\<lambda>_. []), ca_launch = demo_launch_env,
    ca_launcher = demo_supervisor\<rparr>"

definition demo_session_env :: session_env where
  "demo_session_env = \<lparr>sv_timeouts = Inr (), sv_peer = Inr 1000, sv_permit_gate = 1, sv_granted_gate = 1, sv_slot = False,
    sv_requests = (\<lambda>_. \<lparr>rq_wait = [], rq_stopping = False, rq_gate = 1, rq_call = demo_call\<rparr>), sv_session_number = 3\<rparr>"

definition demo_session :: "unit session" where
  "demo_session = \<lparr>se_reader = [Chunk [0, 0, 0, 1], Chunk [1], Chunk [0, 0, 0, 1], Chunk [2]], se_writer = (),
    se_state = \<lparr>ss_observer = None, ss_catalog = SessionCatalog_new\<rparr>, se_trace = []\<rparr>"

definition demo_status :: Outcome where
  "demo_status = Out_Ok (Reply_SeatStatus \<lparr>st_session = 3, st_sequence = 0, st_assurance = Tier0\<rparr>)"

lemma demo_frame:
  "read_frame from_slice validate MAX_REQUEST_FRAME_BYTES (Chunk [0, 0, 0, 1] # Chunk [b] # rs) =
    (res_bind (map_err Json (from_slice [b])) (\<lambda>m. res_bind (map_err Invalid (validate m)) (\<lambda>_. Inr (Message m))), rs)"
proof -
  have "unat (u32_from_be_bytes [0, 0, 0, 1]) = 1" by (simp add: unat_u32_from_be be_value_def)
  then show ?thesis
    by (simp add: read_frame_def read_prefix.simps [of "[]"] read_prefix.simps [of "[0, 0, 0, 1]"]
      read_exact.simps [of _ "[]"] read_exact.simps [of _ "[b]"] PREFIX_BYTES_def MAX_REQUEST_FRAME_BYTES_def)
qed

lemma demo_eof: "read_frame from_slice validate limit [] = (Inr CleanEof, [])"
  by (simp add: read_frame_def read_prefix.simps [of "[]"] PREFIX_BYTES_def)

lemma demo_messages: "validate_Hello demo_hello = Inr ()" "validate_Request demo_ask = Inr ()" "is_compatible demo_hello"
  by (simp_all add: demo_hello_def demo_ask_def validate_Hello_def validate_PeerInfo_def validate_Request_def is_compatible_def)

lemma demo_send:
  "validate_ServerMessage m = Inr () \<Longrightarrow> send demo_wire what m se = (Inr (), note_event (Wrote m) (se\<lparr>se_writer := ()\<rparr>))"
  by (simp add: send_def write_frame_def demo_wire_def MAX_RESPONSE_FRAME_BYTES_def unat_u32_MAX)

lemma demo_session_run: "\<exists>w se'. run demo_wire demo_config demo_session_env demo_session = (Some (Inr ()), se')
  \<and> wel_granted w = [Cap_ObserveStructure]
  \<and> se_trace se' = [Read_Message (CM_Hello demo_hello), Gate_Seen 1, Gate_Seen 1, Wrote (SM_Welcome w),
      Read_Message (CM_Request demo_ask), Gate_Seen 1] @ Called Call_SeatStatus []
      # [Wrote (SM_Response \<lparr>resp_id = 7, resp_outcome = demo_status\<rparr>)]"
proof -
  have "strictly_ordered [Cap_ObserveStructure]" by simp
  from welcome_valid [OF this, of 3] obtain w where
    w: "make_welcome 3 [Cap_ObserveStructure] = Inr w" "validate_Welcome w = Inr ()" "wel_granted w = [Cap_ObserveStructure]"
    by blast
  have gate: "permit 1 = Some 1" "accepts 1 1" by (simp_all add: permit_def accepts_def is_enabled_def DISABLED_TERMINAL_def)
  have grant: "granted demo_config 1000 (hello_requested demo_hello) = Some [Cap_ObserveStructure]"
    by (simp add: granted_def demo_config_def demo_hello_def)
  have config: "cfg_input demo_config = \<lparr>ip_provider_private_devices = False\<rparr>" "unat (cfg_max_requests demo_config) = Suc (Suc 0)"
    by (simp_all add: demo_config_def)
  have ask: "authorized Call_SeatStatus [Cap_ObserveStructure]" "req_id demo_ask = 7" "req_call demo_ask = Call_SeatStatus"
    by (simp_all add: authorized_def demo_ask_def)
  show ?thesis
    by (intro exI [of _ w])
      (simp add: run_def demo_session_env_def receive_def demo_session_def demo_wire_def demo_frame demo_eof demo_messages
        run_greeted_def gate grant run_open_def config claim_def BoundedList_new_def MAX_CAPABILITIES_def w
        demo_send [unfolded demo_wire_def] note_event_def answer_def handle_def ask provider_call_def Let_def
        validate_Response_def validate_SeatStatus_def demo_status_def)
qed

lemma demo_start: "se_trace demo_session = []" "sv_peer demo_session_env = Inr 1000"
  by (simp_all add: demo_session_def demo_session_env_def)

theorem session_refines_protocol_witness:
  "\<exists>se'. run demo_wire demo_config demo_session_env demo_session = (Some (Inr ()), se')
    \<and> protocol_run demo_config 1000 (se_trace se') \<noteq> None"
proof -
  obtain se' where "run demo_wire demo_config demo_session_env demo_session = (Some (Inr ()), se')"
    using demo_session_run by blast
  with session_refines_protocol [OF this demo_start] show ?thesis by blast
qed

theorem session_calls_authorized_witness:
  "\<exists>se' before after p gs. run demo_wire demo_config demo_session_env demo_session = (Some (Inr ()), se')
    \<and> se_trace se' = before @ Called Call_SeatStatus [] # after
    \<and> opened_by demo_config 1000 before p gs \<and> authorized Call_SeatStatus gs"
proof -
  obtain se' before after where ran: "run demo_wire demo_config demo_session_env demo_session = (Some (Inr ()), se')"
    "se_trace se' = before @ Called Call_SeatStatus [] # after"
    using demo_session_run by blast
  with session_calls_authorized [OF ran(1) demo_start ran(2)] show ?thesis by blast
qed

theorem session_answers_in_order_witness:
  "\<exists>se'. run demo_wire demo_config demo_session_env demo_session = (Some (Inr ()), se')
    \<and> asked (se_trace se') = [7] \<and> answered (se_trace se') = [7] \<and> length (answered (se_trace se')) \<le> 2"
proof -
  obtain se' where ran: "run demo_wire demo_config demo_session_env demo_session = (Some (Inr ()), se')"
    and ids: "asked (se_trace se') = [7]" "answered (se_trace se') = [7]"
    using demo_session_run by (auto simp: asked_def answered_def List.map_filter_def demo_ask_def)
  have "se_trace se' = se_trace se' @ []" by simp
  from session_answers_in_order [OF ran demo_start this] ran ids show ?thesis by (auto simp: demo_config_def)
qed

end
