(* ===== verification/Policy_File.thy ===== *)
theory Policy_File
  imports Provider_Config Desktop_Entry Observer_Scan
begin

text \<open>
  Reading and replacing the policy file (\<^verbatim>\<open>agent-seat-x11/src/config.rs\<close>): \<^verbatim>\<open>Config::read\<close> and its
  callers, the \<^verbatim>\<open>replace_policy\<close> transaction with its lock, staging file, exchange, recovery copy and
  rollback, the default path and the first-run template.

  The file system is explicit. A \<open>disk\<close> maps names (the components of a path) to inodes and inodes to
  files, and knows which inodes are locked. A \<open>world\<close> is a disk, the serial counter of the process and a
  script with one step for each system call the code makes: what other processes do to the disk
  immediately before the call, and whether the call fails, with the number of bytes a failing write had
  already written. An exhausted script is an undisturbed system. A crash is a script whose steps fail from
  some point on, because a failing call other than a write leaves the disk alone.
\<close>

section \<open>The file system the code runs on\<close>

datatype inode = Inode (in_dev: u64) (in_ino: u64)

datatype inode_kind = Kind_Regular | Kind_Link string | Kind_Directory | Kind_Socket

record disk_file =
  fi_kind :: inode_kind
  fi_uid :: u32
  fi_mode :: u32
  fi_data :: "byte list"

record disk =
  dk_names :: "string list \<rightharpoonup> inode"
  dk_inodes :: "inode \<rightharpoonup> disk_file"
  dk_locks :: "inode set"

datatype errno = NotFound string | AlreadyExists string | AddrInUse string | ConnectionRefused string | Again string
| Errno string

fun errno_text :: "errno \<Rightarrow> string" where
  "errno_text (NotFound t) = t"
| "errno_text (AlreadyExists t) = t"
| "errno_text (AddrInUse t) = t"
| "errno_text (ConnectionRefused t) = t"
| "errno_text (Again t) = t"
| "errno_text (Errno t) = t"

record sys_step =
  ss_race :: "(disk \<Rightarrow> disk) option"
  ss_failure :: "(errno \<times> nat) option"

record world =
  wd_disk :: disk
  wd_script :: "sys_step list"
  wd_serial :: u64

record metadata =
  md_inode :: inode
  md_kind :: inode_kind
  md_uid :: u32
  md_mode :: u32
  md_len :: nat

definition sys :: "(nat \<Rightarrow> disk \<Rightarrow> disk) \<Rightarrow> (disk \<Rightarrow> (errno + 'a) \<times> disk) \<Rightarrow> (world, errno, 'a) st" where
  "sys partial op w = (case wd_script w of
       [] \<Rightarrow> (let (r, d) = op (wd_disk w) in (r, w\<lparr>wd_disk := d\<rparr>))
     | step # rest \<Rightarrow>
         (let d = (case ss_race step of None \<Rightarrow> wd_disk w | Some f \<Rightarrow> f (wd_disk w)) in
          case ss_failure step of
            Some (e, n) \<Rightarrow> (Inl e, w\<lparr>wd_disk := partial n d, wd_script := rest\<rparr>)
          | None \<Rightarrow> (let (r, d') = op d in (r, w\<lparr>wd_disk := d', wd_script := rest\<rparr>))))"

abbreviation syscall :: "(disk \<Rightarrow> (errno + 'a) \<times> disk) \<Rightarrow> (world, errno, 'a) st" where
  "syscall \<equiv> sys (\<lambda>_ d. d)"

definition st_map_err :: "('e \<Rightarrow> 'f) \<Rightarrow> ('s, 'e, 'a) st \<Rightarrow> ('s, 'f, 'a) st" where
  "st_map_err g m s = (case m s of (r, t) \<Rightarrow> (map_err g r, t))"

text \<open>Results turned into values, for the calls whose error the code inspects or ignores.\<close>

definition st_attempt :: "('s, 'e, 'a) st \<Rightarrow> ('s, 'f, 'e + 'a) st" where
  "st_attempt m s = (case m s of (r, t) \<Rightarrow> (Inr r, t))"

definition metadata_of :: "inode \<Rightarrow> disk_file \<Rightarrow> metadata" where
  "metadata_of i f = \<lparr>md_inode = i, md_kind = fi_kind f, md_uid = fi_uid f, md_mode = fi_mode f,
     md_len = length (fi_data f)\<rparr>"

definition file_at :: "disk \<Rightarrow> string \<Rightarrow> (inode \<times> disk_file) option" where
  "file_at d p = Option.bind (dk_names d (path_components p)) (\<lambda>i. map_option (Pair i) (dk_inodes d i))"

text \<open>Links are followed at most forty times, the kernel's own bound.\<close>

fun file_behind :: "nat \<Rightarrow> disk \<Rightarrow> string \<Rightarrow> errno + (inode \<times> disk_file)" where
  "file_behind 0 d p = Inl (Errno ''Too many levels of symbolic links'')"
| "file_behind (Suc n) d p = (case file_at d p of
       None \<Rightarrow> Inl (NotFound ''No such file or directory'')
     | Some (i, f) \<Rightarrow> (case fi_kind f of Kind_Link q \<Rightarrow> file_behind n d q | _ \<Rightarrow> Inr (i, f)))"

definition MAX_LINKS :: nat where "MAX_LINKS = 41"

definition sys_symlink_metadata :: "string \<Rightarrow> (world, errno, metadata) st" where
  "sys_symlink_metadata p = syscall (\<lambda>d. (case file_at d p of
       None \<Rightarrow> Inl (NotFound ''No such file or directory'')
     | Some (i, f) \<Rightarrow> Inr (metadata_of i f), d))"

definition sys_open :: "string \<Rightarrow> (world, errno, inode) st" where
  "sys_open p = syscall (\<lambda>d. (res_bind (file_behind MAX_LINKS d p) (\<lambda>(i, f).
     if fi_kind f = Kind_Socket then Inl (Errno ''No such device or address'') else Inr i), d))"

text \<open>Calls on an open file; its inode exists as long as it is open.\<close>

definition on_inode :: "inode \<Rightarrow> (disk_file \<Rightarrow> 'a \<times> disk_file) \<Rightarrow> disk \<Rightarrow> (errno + 'a) \<times> disk" where
  "on_inode i op d = (case dk_inodes d i of
       None \<Rightarrow> (Inl (Errno ''Bad file descriptor''), d)
     | Some f \<Rightarrow> (let (a, g) = op f in (Inr a, d\<lparr>dk_inodes := (dk_inodes d)(i \<mapsto> g)\<rparr>)))"

definition sys_fstat :: "inode \<Rightarrow> (world, errno, metadata) st" where
  "sys_fstat i = syscall (\<lambda>d. (case dk_inodes d i of
       None \<Rightarrow> Inl (Errno ''Bad file descriptor'')
     | Some f \<Rightarrow> Inr (metadata_of i f), d))"

definition sys_read_to_end :: "inode \<Rightarrow> nat \<Rightarrow> (world, errno, byte list) st" where
  "sys_read_to_end i limit = syscall (\<lambda>d. (case dk_inodes d i of
       None \<Rightarrow> Inl (Errno ''Bad file descriptor'')
     | Some f \<Rightarrow> Inr (take limit (fi_data f)), d))"

definition sys_fchmod :: "inode \<Rightarrow> u32 \<Rightarrow> (world, errno, unit) st" where
  "sys_fchmod i mode = syscall (on_inode i (\<lambda>f. ((), f\<lparr>fi_mode := mode\<rparr>)))"

definition sys_chmod :: "string \<Rightarrow> u32 \<Rightarrow> (world, errno, unit) st" where
  "sys_chmod p mode = syscall (\<lambda>d. case file_behind MAX_LINKS d p of
       Inl e \<Rightarrow> (Inl e, d)
     | Inr (i, _) \<Rightarrow> on_inode i (\<lambda>f. ((), f\<lparr>fi_mode := mode\<rparr>)) d)"

text \<open>A write at the start of a file; a failing one may have written a prefix.\<close>

definition overwrite :: "byte list \<Rightarrow> disk_file \<Rightarrow> disk_file" where
  "overwrite bytes f = f\<lparr>fi_data := bytes @ drop (length bytes) (fi_data f)\<rparr>"

definition sys_write_all :: "inode \<Rightarrow> byte list \<Rightarrow> (world, errno, unit) st" where
  "sys_write_all i bytes = sys (\<lambda>n d. snd (on_inode i (\<lambda>f. ((), overwrite (take n bytes) f)) d))
     (on_inode i (\<lambda>f. ((), overwrite bytes f)))"

definition sys_fsync :: "inode \<Rightarrow> (world, errno, unit) st" where
  "sys_fsync i = syscall (\<lambda>d. (Inr (), d))"

definition sys_exchange :: "string \<Rightarrow> string \<Rightarrow> (world, errno, unit) st" where
  "sys_exchange p q = syscall (\<lambda>d.
    case (dk_names d (path_components p), dk_names d (path_components q)) of
      (Some i, Some j) \<Rightarrow>
        (Inr (), d\<lparr>dk_names := (dk_names d)(path_components p \<mapsto> j, path_components q \<mapsto> i)\<rparr>)
    | _ \<Rightarrow> (Inl (NotFound ''No such file or directory''), d))"

definition sys_rename_noreplace :: "string \<Rightarrow> string \<Rightarrow> (world, errno, unit) st" where
  "sys_rename_noreplace p q = syscall (\<lambda>d.
    case (dk_names d (path_components p), dk_names d (path_components q)) of
      (None, _) \<Rightarrow> (Inl (NotFound ''No such file or directory''), d)
    | (Some i, None) \<Rightarrow>
        (Inr (), d\<lparr>dk_names := (dk_names d)(path_components p := None, path_components q \<mapsto> i)\<rparr>)
    | _ \<Rightarrow> (Inl (AlreadyExists ''File exists''), d))"

definition sys_remove_file :: "string \<Rightarrow> (world, errno, unit) st" where
  "sys_remove_file p = syscall (\<lambda>d. case file_at d p of
      None \<Rightarrow> (Inl (NotFound ''No such file or directory''), d)
    | Some (_, f) \<Rightarrow> if fi_kind f = Kind_Directory then (Inl (Errno ''Is a directory''), d)
        else (Inr (), d\<lparr>dk_names := (dk_names d)(path_components p := None)\<rparr>))"

definition sys_flock :: "inode \<Rightarrow> (world, errno, unit) st" where
  "sys_flock i = syscall (\<lambda>d. if i \<in> dk_locks d
     then (Inl (Again ''Resource temporarily unavailable''), d)
     else (Inr (), d\<lparr>dk_locks := insert i (dk_locks d)\<rparr>))"

definition sys_unlock :: "inode \<Rightarrow> (world, errno, unit) st" where
  "sys_unlock i = syscall (\<lambda>d. (Inr (), d\<lparr>dk_locks := dk_locks d - {i}\<rparr>))"

section \<open>The process\<close>

text \<open>
  \<open>pe_alloc\<close> is the file system's choice of a new inode, \<open>None\<close> when there is no room; \<open>pe_toml\<close> and
  \<open>pe_document\<close> are the two TOML parsers the crate links.
\<close>

record 'd policy_env =
  pe_uid :: u32
  pe_pid :: u32
  pe_umask :: u32
  pe_alloc :: "disk \<Rightarrow> inode option"
  pe_toml :: "string \<Rightarrow> string + RawConfig"
  pe_document :: "string \<Rightarrow> string + 'd"

definition create_at :: "'d policy_env \<Rightarrow> string \<Rightarrow> u32 \<Rightarrow> disk \<Rightarrow> (errno + inode) \<times> disk" where
  "create_at env p mode d = (case pe_alloc env d of
       None \<Rightarrow> (Inl (Errno ''No space left on device''), d)
     | Some i \<Rightarrow> (Inr i, d\<lparr>dk_names := (dk_names d)(path_components p \<mapsto> i),
         dk_inodes := (dk_inodes d)(i \<mapsto> \<lparr>fi_kind = Kind_Regular, fi_uid = pe_uid env,
           fi_mode = and mode (not (pe_umask env)), fi_data = []\<rparr>)\<rparr>))"

definition sys_create_new :: "'d policy_env \<Rightarrow> string \<Rightarrow> (world, errno, inode) st" where
  "sys_create_new env p = syscall (\<lambda>d. if dk_names d (path_components p) \<noteq> None
     then (Inl (AlreadyExists ''File exists''), d) else create_at env p 384 d)"

definition sys_open_or_create :: "'d policy_env \<Rightarrow> string \<Rightarrow> (world, errno, inode) st" where
  "sys_open_or_create env p = syscall (\<lambda>d. case file_at d p of
       None \<Rightarrow> create_at env p 384 d
     | Some (i, f) \<Rightarrow> (case fi_kind f of
           Kind_Regular \<Rightarrow> (Inr i, d)
         | Kind_Link _ \<Rightarrow> (Inl (Errno ''Too many levels of symbolic links''), d)
         | Kind_Directory \<Rightarrow> (Inl (Errno ''Is a directory''), d)
         | Kind_Socket \<Rightarrow> (Inl (Errno ''No such device or address''), d)))"

section \<open>Paths\<close>

text \<open>\<^verbatim>\<open>Path::parent\<close>, on the reversed text: trailing separators and \<open>.\<close> components are dropped.\<close>

fun trim_end :: "string \<Rightarrow> string" where
  "trim_end (c # e # r) =
    (if c = CHR ''/'' then trim_end (e # r)
     else if c = CHR ''.'' \<and> e = CHR ''/'' then trim_end (e # r)
     else c # e # r)"
| "trim_end r = r"

definition path_parent :: "string \<Rightarrow> string option" where
  "path_parent p = (if path_components p = [] \<or> path_components p = [''/''] then None
     else Some (rev (trim_end (dropWhile (\<lambda>c. c \<noteq> CHR ''/'') (trim_end (rev p))))))"

definition suffixed_path :: "string \<Rightarrow> string \<Rightarrow> string" where
  "suffixed_path p suffix = p @ suffix"

definition recovery_policy_path :: "string \<Rightarrow> string" where
  "recovery_policy_path p = suffixed_path p ''.previous''"

definition default_path :: "(string \<Rightarrow> string option) \<Rightarrow> string + string" where
  "default_path var = (case var ''XDG_CONFIG_HOME'' of
       Some base \<Rightarrow>
         if \<not> is_absolute base then Inl ''XDG_CONFIG_HOME must be absolute''
         else Inr (path_join base ''agent-seat/config.toml'')
     | None \<Rightarrow>
         res_bind (ok_or (var ''HOME'')
           ''neither XDG_CONFIG_HOME nor HOME is available for configuration discovery'') (\<lambda>home.
         if \<not> is_absolute home then Inl ''HOME must be absolute''
         else Inr (path_join home ''.config/agent-seat/config.toml'')))"

section \<open>Reading a policy\<close>

record 'd PolicySnapshot =
  ps_path :: string
  ps_source :: string
  ps_enabled :: bool
  ps_device :: u64
  ps_inode :: u64
  ps_draft :: "'d PolicyDraft"

abbreviation io :: "string \<Rightarrow> (world, errno, 'a) st \<Rightarrow> (world, string, 'a) st" where
  "io what m \<equiv> st_map_err (\<lambda>e. what @ '': '' @ errno_text e) m"

definition config_bound_error :: "string \<Rightarrow> string" where
  "config_bound_error p = p @ '' exceeds the '' @ decimal MAX_CONFIG_BYTES @ ''-byte configuration bound''"

definition Config_read :: "'d policy_env \<Rightarrow> string \<Rightarrow> (world, string, 'd PolicySnapshot \<times> Config) st" where
  "Config_read env p =
    (if \<not> is_absolute p then st_fail ''configuration path must be absolute''
     else
       st_bind (io (''cannot inspect '' @ p) (sys_symlink_metadata p)) (\<lambda>path_metadata.
       if md_kind path_metadata \<noteq> Kind_Regular then st_fail (p @ '' is not a regular file'')
       else
         st_bind (io (''cannot open '' @ p) (sys_open p)) (\<lambda>file.
         st_bind (io (''cannot inspect open '' @ p) (sys_fstat file)) (\<lambda>meta.
         if md_inode meta \<noteq> md_inode path_metadata then st_fail (p @ '' changed while it was opened'')
         else if md_uid meta \<noteq> pe_uid env \<or> and (md_mode meta) 18 \<noteq> 0
         then st_fail (p @ '' must be owned by UID '' @ decimal (unat (pe_uid env))
           @ '' and not writable by group or others'')
         else if md_len meta > MAX_CONFIG_BYTES then st_fail (config_bound_error p)
         else
           st_bind (io (''cannot read '' @ p) (sys_read_to_end file (MAX_CONFIG_BYTES + 1))) (\<lambda>bytes.
           if length bytes > MAX_CONFIG_BYTES then st_fail (config_bound_error p)
           else
             st_bind (st_try (ok_or (from_utf8 bytes) (p @ '' is not UTF-8''))) (\<lambda>source.
             st_bind (st_try (map_err (\<lambda>e. ''invalid '' @ p @ '': '' @ e)
               (validate_source (pe_toml env) source (pe_uid env)))) (\<lambda>(enabled, config, raw).
             st_bind (st_try (map_err (\<lambda>e. ''cannot preserve formatting in validated '' @ p @ '': '' @ e)
               (pe_document env source))) (\<lambda>document.
             st_return (\<lparr>ps_path = p, ps_source = source, ps_enabled = enabled,
               ps_device = in_dev (md_inode meta), ps_inode = in_ino (md_inode meta),
               ps_draft = \<lparr>draft_raw = raw, draft_document = document\<rparr>\<rparr>, config)))))))))"

definition Config_load :: "'d policy_env \<Rightarrow> string \<Rightarrow> (world, string, 'd PolicySnapshot \<times> Config) st" where
  "Config_load env p = st_bind (Config_read env p) (\<lambda>(snapshot, config).
     if \<not> ps_enabled snapshot then st_fail ''provider is disabled; set enabled = true explicitly''
     else st_return (snapshot, config))"

definition Config_check :: "'d policy_env \<Rightarrow> string \<Rightarrow> (world, string, bool) st" where
  "Config_check env p = st_bind (Config_read env p) (\<lambda>(snapshot, _). st_return (ps_enabled snapshot))"

definition read_policy :: "'d policy_env \<Rightarrow> string \<Rightarrow> (world, string, 'd PolicySnapshot) st" where
  "read_policy env p = st_bind (Config_read env p) (\<lambda>(snapshot, _). st_return snapshot)"

section \<open>The replacement transaction\<close>

definition TRANSACTION_ATTEMPTS :: nat where "TRANSACTION_ATTEMPTS = 16"

definition same_snapshot :: "'d PolicySnapshot \<Rightarrow> 'd PolicySnapshot \<Rightarrow> bool" where
  "same_snapshot l r \<longleftrightarrow> ps_device l = ps_device r \<and> ps_inode l = ps_inode r \<and> ps_source l = ps_source r"

definition no_parent :: "string \<Rightarrow> string" where
  "no_parent p = ''configuration path '' @ p @ '' has no parent''"

definition lock_policy_directory :: "'d policy_env \<Rightarrow> string \<Rightarrow> (world, string, inode) st" where
  "lock_policy_directory env p =
    st_bind (st_try (ok_or (path_parent p) (no_parent p))) (\<lambda>parent.
    let lock_path = path_join parent ''.agent-seat-config.lock'' in
    st_bind (io (''cannot open settings lock '' @ lock_path) (sys_open_or_create env lock_path)) (\<lambda>file.
    st_bind (io (''cannot inspect settings lock '' @ lock_path) (sys_fstat file)) (\<lambda>meta.
    if md_kind meta \<noteq> Kind_Regular \<or> md_uid meta \<noteq> pe_uid env
    then st_fail (''settings lock '' @ lock_path @ '' must be a private regular file owned by UID ''
      @ decimal (unat (pe_uid env)))
    else
      st_bind (io (''cannot secure settings lock '' @ lock_path) (sys_fchmod file 384)) (\<lambda>_.
      st_bind (io (''another settings writer is active for '' @ p) (sys_flock file)) (\<lambda>_.
      st_return file)))))"

definition check_recovery_target :: "'d policy_env \<Rightarrow> string \<Rightarrow> (world, string, bool) st" where
  "check_recovery_target env p =
    st_bind (st_attempt (sys_symlink_metadata p)) (\<lambda>found. case found of
      Inl (NotFound _) \<Rightarrow> st_return False
    | Inl e \<Rightarrow> st_fail (''cannot inspect recovery policy '' @ p @ '': '' @ errno_text e)
    | Inr meta \<Rightarrow>
        if md_kind meta \<noteq> Kind_Regular \<or> md_uid meta \<noteq> pe_uid env \<or> and (md_mode meta) 63 \<noteq> 0
        then st_fail (''recovery policy '' @ p @ '' must be a private regular file owned by UID ''
          @ decimal (unat (pe_uid env)))
        else st_return True)"

text \<open>
  \<^verbatim>\<open>TemporaryPolicy\<close> is its path, its open file and whether dropping it removes the path. Only the flag
  changes, so the calls that use it return it.
\<close>

record TemporaryPolicy =
  tp_path :: string
  tp_file :: inode
  tp_remove_on_drop :: bool

definition TemporaryPolicy_cleanup :: "TemporaryPolicy \<Rightarrow> (world, 'e, unit) st" where
  "TemporaryPolicy_cleanup t = st_bind (st_attempt (sys_remove_file (tp_path t))) (\<lambda>_. st_return ())"

definition TemporaryPolicy_preserve :: "TemporaryPolicy \<Rightarrow> TemporaryPolicy" where
  "TemporaryPolicy_preserve t = t\<lparr>tp_remove_on_drop := False\<rparr>"

definition TemporaryPolicy_drop :: "TemporaryPolicy \<Rightarrow> (world, 'e, unit) st" where
  "TemporaryPolicy_drop t = (if tp_remove_on_drop t then TemporaryPolicy_cleanup t else st_return ())"

definition next_serial :: "(world, 'e, u64) st" where
  "next_serial w = (Inr (wd_serial w), w\<lparr>wd_serial := wd_serial w + 1\<rparr>)"

definition staging_path :: "'d policy_env \<Rightarrow> string \<Rightarrow> u64 \<Rightarrow> string" where
  "staging_path env parent serial = path_join parent
     (''.agent-seat-config.'' @ decimal (unat (pe_pid env)) @ ''.'' @ decimal (unat serial) @ ''.tmp'')"

definition write_staged :: "string \<Rightarrow> inode \<Rightarrow> string \<Rightarrow> (world, string, TemporaryPolicy) st" where
  "write_staged p file candidate =
    st_bind (io (''cannot secure staged policy '' @ p) (sys_fchmod file 384)) (\<lambda>_.
    st_bind (st_attempt (st_bind (sys_write_all file (as_bytes candidate)) (\<lambda>_. sys_fsync file)))
      (\<lambda>written. case written of
        Inl e \<Rightarrow>
          st_bind (st_attempt (sys_remove_file p)) (\<lambda>_.
          st_fail (''cannot write staged policy '' @ p @ '': '' @ errno_text e))
      | Inr _ \<Rightarrow> st_return \<lparr>tp_path = p, tp_file = file, tp_remove_on_drop = True\<rparr>))"

fun stage_attempts :: "nat \<Rightarrow> 'd policy_env \<Rightarrow> string \<Rightarrow> string \<Rightarrow> (world, string, TemporaryPolicy) st" where
  "stage_attempts 0 env parent candidate = st_fail ''cannot allocate a unique bounded policy staging path''"
| "stage_attempts (Suc n) env parent candidate =
    st_bind next_serial (\<lambda>serial.
    let p = staging_path env parent serial in
    st_bind (st_attempt (sys_create_new env p)) (\<lambda>opened. case opened of
      Inl (AlreadyExists _) \<Rightarrow> stage_attempts n env parent candidate
    | Inl e \<Rightarrow> st_fail (''cannot stage policy '' @ p @ '': '' @ errno_text e)
    | Inr file \<Rightarrow> write_staged p file candidate))"

definition TemporaryPolicy_create :: "'d policy_env \<Rightarrow> string \<Rightarrow> string \<Rightarrow> (world, string, TemporaryPolicy) st" where
  "TemporaryPolicy_create env p candidate =
    st_bind (st_try (ok_or (path_parent p) (no_parent p))) (\<lambda>parent.
    stage_attempts TRANSACTION_ATTEMPTS env parent candidate)"

definition rollback_exchange :: "string \<Rightarrow> string \<Rightarrow> metadata \<Rightarrow> (world, string, unit) st" where
  "rollback_exchange temporary target' candidate_metadata =
    st_bind (io ''cannot inspect replacement during rollback'' (sys_symlink_metadata target')) (\<lambda>meta.
    if md_kind meta \<noteq> Kind_Regular \<or> md_inode meta \<noteq> md_inode candidate_metadata
    then st_fail (''configuration changed again during rollback; inspect '' @ target' @ '' and '' @ temporary)
    else io (''cannot roll back configuration replacement; inspect '' @ target' @ '' and '' @ temporary)
      (sys_exchange temporary target'))"

definition rollback_or_preserve :: "TemporaryPolicy \<Rightarrow> string \<Rightarrow> metadata
    \<Rightarrow> (world, 'e, (string + unit) \<times> TemporaryPolicy) st" where
  "rollback_or_preserve t target' candidate_metadata =
    st_bind (st_attempt (rollback_exchange (tp_path t) target' candidate_metadata)) (\<lambda>r. case r of
      Inl e \<Rightarrow> st_return (Inl e, TemporaryPolicy_preserve t)
    | Inr _ \<Rightarrow> st_return (Inr (), t))"

definition sync_directory :: "string \<Rightarrow> (world, string, unit) st" where
  "sync_directory p =
    st_bind (st_try (ok_or (path_parent p) (no_parent p))) (\<lambda>parent.
    st_bind (io (''cannot open configuration directory '' @ parent) (sys_open parent)) (\<lambda>directory.
    io (''configuration was replaced but cannot synchronize directory '' @ parent) (sys_fsync directory)))"

text \<open>
  The part of \<^verbatim>\<open>replace_policy\<close> after the candidate is staged. It yields the result of the call together
  with the staging file as it stands when the function returns, which the caller then drops.
\<close>

definition fail_after_rollback :: "TemporaryPolicy \<Rightarrow> string \<Rightarrow> metadata \<Rightarrow> string
    \<Rightarrow> (world, 'e, (string + 's) \<times> TemporaryPolicy) st" where
  "fail_after_rollback t target' candidate_metadata message =
    st_bind (rollback_or_preserve t target' candidate_metadata) (\<lambda>(rolled_back, t').
    st_return (case rolled_back of Inl e \<Rightarrow> Inl e | Inr _ \<Rightarrow> Inl message, t'))"

definition finish_replacement :: "'d policy_env \<Rightarrow> 'd PolicySnapshot \<Rightarrow> TemporaryPolicy
    \<Rightarrow> (world, string, 'd PolicySnapshot) st" where
  "finish_replacement env expected t =
    (let backup_path = recovery_policy_path (ps_path expected) in
     st_bind (io (''configuration was replaced but cannot secure recovery policy '' @ backup_path)
       (sys_chmod backup_path 384)) (\<lambda>_.
     st_bind (TemporaryPolicy_cleanup t) (\<lambda>_.
     st_bind (sync_directory (ps_path expected)) (\<lambda>_.
     read_policy env (ps_path expected)))))"

definition retain_recovery :: "'d policy_env \<Rightarrow> 'd PolicySnapshot \<Rightarrow> bool \<Rightarrow> TemporaryPolicy \<Rightarrow> metadata
    \<Rightarrow> (world, string, (string + 'd PolicySnapshot) \<times> TemporaryPolicy) st" where
  "retain_recovery env expected backup_exists t candidate_metadata =
    (let backup_path = recovery_policy_path (ps_path expected) in
     st_bind (st_attempt (if backup_exists then sys_exchange (tp_path t) backup_path
       else sys_rename_noreplace (tp_path t) backup_path)) (\<lambda>backed_up. case backed_up of
       Inl e \<Rightarrow> fail_after_rollback t (ps_path expected) candidate_metadata
         (''cannot retain recovery policy '' @ backup_path @ '': '' @ errno_text e @ ''; no change was saved'')
     | Inr _ \<Rightarrow> st_bind (st_attempt (finish_replacement env expected t)) (\<lambda>r. st_return (r, t))))"

definition confirm_displaced :: "'d policy_env \<Rightarrow> 'd PolicySnapshot \<Rightarrow> bool \<Rightarrow> TemporaryPolicy \<Rightarrow> metadata
    \<Rightarrow> (world, string, (string + 'd PolicySnapshot) \<times> TemporaryPolicy) st" where
  "confirm_displaced env expected backup_exists t candidate_metadata =
    st_bind (st_attempt (read_policy env (tp_path t))) (\<lambda>displaced.
    if \<not> (case displaced of Inr snapshot \<Rightarrow> same_snapshot expected snapshot | Inl _ \<Rightarrow> False)
    then fail_after_rollback t (ps_path expected) candidate_metadata (case displaced of
        Inr _ \<Rightarrow> ''configuration changed during replacement; no change was saved''
      | Inl e \<Rightarrow> ''configuration became unsafe during replacement; no change was saved: '' @ e)
    else retain_recovery env expected backup_exists t candidate_metadata)"

definition install_staged :: "'d policy_env \<Rightarrow> 'd PolicySnapshot \<Rightarrow> bool \<Rightarrow> TemporaryPolicy
    \<Rightarrow> (world, string, (string + 'd PolicySnapshot) \<times> TemporaryPolicy) st" where
  "install_staged env expected backup_exists t =
    st_bind (st_attempt (io ''cannot inspect staged policy'' (sys_fstat (tp_file t)))) (\<lambda>inspected. case inspected of
      Inl e \<Rightarrow> st_return (Inl e, t)
    | Inr candidate_metadata \<Rightarrow>
        st_bind (st_attempt (io (''cannot atomically install '' @ ps_path expected)
          (sys_exchange (tp_path t) (ps_path expected)))) (\<lambda>installed. case installed of
          Inl e \<Rightarrow> st_return (Inl e, t)
        | Inr _ \<Rightarrow> confirm_displaced env expected backup_exists t candidate_metadata))"

definition replace_locked :: "'d policy_env \<Rightarrow> 'd PolicySnapshot \<Rightarrow> string
    \<Rightarrow> (world, string, 'd PolicySnapshot) st" where
  "replace_locked env expected candidate =
    st_bind (read_policy env (ps_path expected)) (\<lambda>current.
    if \<not> same_snapshot expected current
    then st_fail ''configuration changed after it was read; reload before saving''
    else if candidate = ps_source current then st_return current
    else
      st_bind (check_recovery_target env (recovery_policy_path (ps_path expected))) (\<lambda>backup_exists.
      st_bind (TemporaryPolicy_create env (ps_path expected) candidate) (\<lambda>t.
      st_bind (install_staged env expected backup_exists t) (\<lambda>(r, t').
      st_bind (TemporaryPolicy_drop t') (\<lambda>_. st_try r)))))"

definition replace_policy :: "'d policy_env \<Rightarrow> 'd PolicySnapshot \<Rightarrow> string
    \<Rightarrow> (world, string, 'd PolicySnapshot) st" where
  "replace_policy env expected candidate =
    st_bind (st_try (map_err (\<lambda>e. ''invalid candidate: '' @ e)
      (validate_source (pe_toml env) candidate (pe_uid env)))) (\<lambda>_.
    st_bind (lock_policy_directory env (ps_path expected)) (\<lambda>lock.
    st_bind (st_attempt (replace_locked env expected candidate)) (\<lambda>r.
    st_bind (st_attempt (sys_unlock lock)) (\<lambda>_. st_try r))))"

section \<open>The first run\<close>

text \<open>The template of the two constants, by lines.\<close>

fun lines_text :: "string list \<Rightarrow> string" where
  "lines_text [] = []"
| "lines_text [l] = l"
| "lines_text (l # ls) = l @ [CHR 0x0A] @ lines_text ls"

definition FIRST_RUN_TEMPLATE_PREFIX :: string where
  "FIRST_RUN_TEMPLATE_PREFIX = lines_text
    [''# agent-seat-x11 configuration'',
     ''#'',
     ''# This file was created on the first run of agent-seat-x11. The provider did'',
     ''# not start. Review this policy, then change `enabled` to true when ready.'',
     ''# Run `agent-seat-x11 --check-config` after every edit.'',
     ''#'',
     ''# The provider is a local authority: every capability below permits the MCP'',
     ''# companion to observe or affect your X11 session. Keep only permissions you'',
     ''# intend to grant. Unknown fields, duplicate values, and unsafe combinations'',
     ''# are rejected instead of being ignored.'',
     [],
     ''# Required safety switch. The generated policy remains inactive until you'',
     ''# explicitly enable it.'',
     ''enabled = false'',
     [],
     ''# Resource limits. These defaults are suitable for an ordinary single-user'',
     ''# desktop. Accepted ranges are shown next to each setting.'',
     ''max_sessions = 4                 # 1..32 concurrent connections'',
     ''max_requests_per_session = 1024  # 1..4096 requests per connection'',
     ''io_timeout_ms = 2000             # 50..10000 milliseconds'',
     [],
     ''[grant]'',
     ''# Only a local socket peer whose kernel-reported UID equals this value can use'',
     ''# the grant. This value was filled from the UID that created this file.'',
     ''uid = '']"

definition FIRST_RUN_TEMPLATE_SUFFIX :: string where
  "FIRST_RUN_TEMPLATE_SUFFIX = lines_text
    [[],
     [],
     ''# The generated policy grants only basic, title-free structure observation.'',
     ''# Uncomment capabilities deliberately. `observe_titles`, `observe_events`,'',
     ''# and all `manage_*` capabilities require `observe_structure`.'',
     ''# `launch_execute` requires `launch_list`.'',
     ''# Pointer, keyboard, and text transfer require `observe_structure`. They are'',
     ''# additionally denied unless the running provider\\'s volatile seat has been'',
     ''# enabled locally. Text transfer replaces clipboard ownership and a clipboard'',
     ''# manager may retain the transferred text; it never reads the old clipboard.'',
     ''# Obscured capture requires `observe_structure` and can reveal target-owned'',
     ''# pixels even while another window covers the target.'',
     ''capabilities = ['',
     ''  \"observe_structure\",'',
     ''  # \"observe_titles\",     # Read window titles; also set titles = true below.'',
     ''  # \"observe_events\",     # Poll bounded desktop change events.'',
     ''  # \"manage_activate\",    # Ask the window manager to activate a client.'',
     ''  # \"manage_close\",       # Ask a client to close politely.'',
     ''  # \"manage_workspace\",   # Switch workspaces or move a client between them.'',
     ''  # \"manage_state\",       # Change supported EWMH client states.'',
     ''  # \"manage_geometry\",    # Move or resize a client frame.'',
     ''  # \"launch_list\",        # List applications admitted by launch policy.'',
     ''  # \"launch_execute\",     # Start an admitted desktop entry without a shell.'',
     ''  # \"input_pointer\",      # Move or click only inside the unobscured target.'',
     ''  # \"input_keyboard\",     # Type bounded text or send one key action to a focused target.'',
     ''  # \"text_transfer\",      # Offer exact UTF-8 to one focused target; replaces clipboard ownership.'',
     ''  # \"capture_obscured\",   # Capture one scoped client\\'s own pixels.'',
     '']'',
     [],
     ''[observation]'',
     ''# `none` hides every client, `current_workspace` limits visibility to the'',
     ''# active workspace, and `all_workspaces` exposes clients across workspaces.'',
     ''clients = \"current_workspace\"'',
     [],
     ''# Titles are exposed only when this is true AND `observe_titles` is granted.'',
     ''titles = false'',
     [],
     ''[launch]'',
     ''# `deny` exposes and launches nothing.'',
     ''# `allow_listed` admits only desktop IDs listed in `allow`.'',
     ''# `allow_installed` admits every valid discovered desktop entry except `deny`.'',
     ''mode = \"deny\"'',
     [],
     ''# Canonical desktop IDs end in `.desktop`. `allow` is consulted only in'',
     ''# `allow_listed` mode but is retained in other modes so a later mode change can'',
     ''# restore the selection. An ID cannot appear in both lists.'',
     ''allow = []'',
     ''deny = []'',
     [],
     ''# User desktop entries below $XDG_DATA_HOME/applications are separately denied'',
     ''# by default, even in an allowing mode. System entries remain discoverable.'',
     ''allow_user_entries = false'',
     [],
     ''[input]'',
     ''# Optional defense in depth for the separately documented private-device'',
     ''# service. Ordinary Tier 0.5 input does not require this service, root, evdev,'',
     ''# uinput, or membership in the input group.'',
     ''provider_private_devices = false'',
     []]"

definition first_run_source :: "'d policy_env \<Rightarrow> string" where
  "first_run_source env = FIRST_RUN_TEMPLATE_PREFIX @ decimal (unat (pe_uid env)) @ FIRST_RUN_TEMPLATE_SUFFIX"

text \<open>\<^verbatim>\<open>DirBuilder\<close>: the components of the directory from the last to the first.\<close>

fun is_dir_behind :: "nat \<Rightarrow> disk \<Rightarrow> string list \<Rightarrow> bool" where
  "is_dir_behind 0 d k = False"
| "is_dir_behind (Suc n) d k = (case Option.bind (dk_names d k) (dk_inodes d) of
       None \<Rightarrow> False
     | Some f \<Rightarrow> (case fi_kind f of
           Kind_Directory \<Rightarrow> True | Kind_Link q \<Rightarrow> is_dir_behind n d (path_components q) | _ \<Rightarrow> False))"

definition sys_is_dir :: "string list \<Rightarrow> (world, errno, bool) st" where
  "sys_is_dir k = syscall (\<lambda>d. (Inr (is_dir_behind MAX_LINKS d k), d))"

definition sys_mkdir :: "'d policy_env \<Rightarrow> string list \<Rightarrow> (world, errno, unit) st" where
  "sys_mkdir env k = syscall (\<lambda>d.
    if dk_names d k \<noteq> None then (Inl (AlreadyExists ''File exists''), d)
    else if butlast k \<noteq> [] \<and> dk_names d (butlast k) = None then (Inl (NotFound ''No such file or directory''), d)
    else (case pe_alloc env d of
        None \<Rightarrow> (Inl (Errno ''No space left on device''), d)
      | Some i \<Rightarrow> (Inr (), d\<lparr>dk_names := (dk_names d)(k \<mapsto> i),
          dk_inodes := (dk_inodes d)(i \<mapsto> \<lparr>fi_kind = Kind_Directory, fi_uid = pe_uid env,
            fi_mode = and 448 (not (pe_umask env)), fi_data = []\<rparr>)\<rparr>)))"

definition or_existing :: "string list \<Rightarrow> errno \<Rightarrow> (world, errno, unit) st" where
  "or_existing k e = st_bind (st_attempt (sys_is_dir k)) (\<lambda>r. if r = Inr True then st_return () else st_fail e)"

fun create_dir_all :: "'d policy_env \<Rightarrow> string list \<Rightarrow> (world, errno, unit) st" where
  "create_dir_all env [] = st_return ()"
| "create_dir_all env (c # up) =
    st_bind (st_attempt (sys_mkdir env (rev (c # up)))) (\<lambda>r. case r of
      Inr _ \<Rightarrow> st_return ()
    | Inl (NotFound t) \<Rightarrow>
        if up = [] then st_fail (Errno ''failed to create whole tree'')
        else
          st_bind (create_dir_all env up) (\<lambda>_.
          st_bind (st_attempt (sys_mkdir env (rev (c # up)))) (\<lambda>r. case r of
            Inr _ \<Rightarrow> st_return ()
          | Inl e \<Rightarrow> or_existing (rev (c # up)) e))
    | Inl e \<Rightarrow> or_existing (rev (c # up)) e)"

definition create_first_run_config :: "'d policy_env \<Rightarrow> string \<Rightarrow> (world, string, bool) st" where
  "create_first_run_config env p =
    st_bind (st_try (ok_or (path_parent p) (''configuration path '' @ p @ '' has no parent directory''))) (\<lambda>parent.
    st_bind (io (''cannot create configuration directory '' @ parent)
      (create_dir_all env (rev (path_components parent)))) (\<lambda>_.
    st_bind (st_attempt (sys_create_new env p)) (\<lambda>opened. case opened of
      Inl (AlreadyExists _) \<Rightarrow> st_return False
    | Inl e \<Rightarrow> st_fail (''cannot create '' @ p @ '': '' @ errno_text e)
    | Inr file \<Rightarrow>
        st_bind (st_attempt (sys_write_all file (as_bytes (first_run_source env)))) (\<lambda>written. case written of
          Inl e \<Rightarrow> st_bind (st_attempt (sys_remove_file p)) (\<lambda>_. st_fail (''cannot write '' @ p @ '': '' @ errno_text e))
        | Inr _ \<Rightarrow> st_return True))))"

definition ensure_default_policy :: "'d policy_env \<Rightarrow> (string \<Rightarrow> string option) \<Rightarrow> (world, string, string \<times> bool) st" where
  "ensure_default_policy env var =
    st_bind (st_try (default_path var)) (\<lambda>p.
    st_bind (create_first_run_config env p) (\<lambda>created. st_return (p, created)))"

section \<open>Reasoning about undisturbed runs\<close>

text \<open>
  Nobody else writes during the run, while any of its calls may fail. A triple relates the disk before
  and after such a run.
\<close>

definition quiet :: "world \<Rightarrow> bool" where
  "quiet w \<longleftrightarrow> list_all (\<lambda>s. ss_race s = None) (wd_script w)"

definition triple :: "(disk \<Rightarrow> bool) \<Rightarrow> (world, 'e, 'a) st \<Rightarrow> ('e + 'a \<Rightarrow> disk \<Rightarrow> bool) \<Rightarrow> bool" where
  "triple P m Q \<longleftrightarrow> (\<forall>w r w'. quiet w \<longrightarrow> P (wd_disk w) \<longrightarrow> m w = (r, w') \<longrightarrow> quiet w' \<and> Q r (wd_disk w'))"

lemma tripleD: "triple P m Q \<Longrightarrow> quiet w \<Longrightarrow> P (wd_disk w) \<Longrightarrow> m w = (r, w') \<Longrightarrow> quiet w' \<and> Q r (wd_disk w')"
  by (simp add: triple_def)

lemma triple_bind:
  assumes "triple P m (\<lambda>r d. case r of Inl e \<Rightarrow> Q (Inl e) d | Inr a \<Rightarrow> R a d)" and "\<And>a. triple (R a) (f a) Q"
  shows "triple P (st_bind m f) Q"
  unfolding triple_def
proof (intro allI impI)
  fix w r w' assume w: "quiet w" "P (wd_disk w)" and run: "st_bind m f w = (r, w')"
  from run show "quiet w' \<and> Q r (wd_disk w')"
  proof (cases rule: st_bind_cases)
    case (err e)
    with tripleD [OF assms(1) w] show ?thesis by simp
  next
    case (ok a t)
    with tripleD [OF assms(1) w] have "quiet t" "R a (wd_disk t)" by auto
    with tripleD [OF assms(2)] ok(2) show ?thesis by blast
  qed
qed

lemma triple_conseq:
  "triple P m Q \<Longrightarrow> (\<And>d. P' d \<Longrightarrow> P d) \<Longrightarrow> (\<And>r d. Q r d \<Longrightarrow> Q' r d) \<Longrightarrow> triple P' m Q'"
  unfolding triple_def by blast

lemma triple_step:
  assumes "triple P m R" and "\<And>e d. R (Inl e) d \<Longrightarrow> Q (Inl e) d" and "\<And>a. triple (R (Inr a)) (f a) Q"
  shows "triple P (st_bind m f) Q"
  by (rule triple_bind [where R = "\<lambda>a. R (Inr a)"], rule triple_conseq [OF assms(1)]) (auto intro: assms split: sum.split)

lemma triple_then:
  assumes "triple P m (\<lambda>_. R)" and "\<And>e d. R d \<Longrightarrow> Q (Inl e) d" and "\<And>a. triple R (f a) Q"
  shows "triple P (st_bind m f) Q"
  by (rule triple_bind [where R = "\<lambda>_. R"], rule triple_conseq [OF assms(1)]) (auto intro: assms split: sum.split)

lemma triple_conj: "triple P m Q \<Longrightarrow> triple P' m Q' \<Longrightarrow> triple (\<lambda>d. P d \<and> P' d) m (\<lambda>r d. Q r d \<and> Q' r d)"
  unfolding triple_def by blast

lemma triple_all: "(\<And>x. triple (P x) m (Q x)) \<Longrightarrow> triple (\<lambda>d. \<forall>x. P x d) m (\<lambda>r d. \<forall>x. Q x r d)"
  unfolding triple_def by blast

lemma triple_assume: "(\<And>d. P d \<Longrightarrow> triple (\<lambda>d'. d' = d) m Q) \<Longrightarrow> triple P m Q"
  unfolding triple_def by blast

lemma triple_pure: "(\<phi> \<Longrightarrow> triple P m Q) \<Longrightarrow> triple (\<lambda>d. P d \<and> \<phi>) m Q"
  unfolding triple_def by blast

lemma triple_return: "(\<And>d. P d \<Longrightarrow> Q (Inr a) d) \<Longrightarrow> triple P (st_return a) Q"
  by (auto simp: triple_def)

lemma triple_fail: "(\<And>d. P d \<Longrightarrow> Q (Inl e) d) \<Longrightarrow> triple P (st_fail e) Q"
  by (auto simp: triple_def)

lemma triple_try: "(\<And>d. P d \<Longrightarrow> Q x d) \<Longrightarrow> triple P (st_try x) Q"
  by (auto simp: triple_def)

lemma triple_map_err: "triple P m (\<lambda>r. Q (map_err g r)) \<Longrightarrow> triple P (st_map_err g m) Q"
  by (force simp: triple_def st_map_err_def split: prod.splits)

lemma triple_attempt: "triple P m (\<lambda>r. Q (Inr r)) \<Longrightarrow> triple P (st_attempt m) Q"
  by (force simp: triple_def st_attempt_def split: prod.splits)

lemma triple_attempt_bind:
  assumes "triple P m R" and "\<And>r. triple (R r) (f r) Q"
  shows "triple P (st_bind (st_attempt m) f) Q"
  unfolding triple_def
proof (intro allI impI)
  fix w r w' assume w: "quiet w" "P (wd_disk w)" and run: "st_bind (st_attempt m) f w = (r, w')"
  obtain a u where m: "m w = (a, u)" by fastforce
  with run have "f a u = (r, w')" by (simp add: st_bind_def st_attempt_def)
  with tripleD [OF assms(1) w m] tripleD [OF assms(2)] show "quiet w' \<and> Q r (wd_disk w')" by blast
qed

lemma triple_result:
  assumes "triple P m Q" and "\<And>w a w'. m w = (Inr a, w') \<Longrightarrow> \<phi> a"
  shows "triple P m (\<lambda>r d. Q r d \<and> (\<forall>a. r = Inr a \<longrightarrow> \<phi> a))"
  using assms unfolding triple_def by blast

lemma triple_serial: "(\<And>a d. P d \<Longrightarrow> Q (Inr a) d) \<Longrightarrow> triple P next_serial Q"
  by (auto simp: triple_def next_serial_def quiet_def)

lemma triple_sys:
  assumes "\<And>d. P d \<Longrightarrow> (case op d of (r, d') \<Rightarrow> Q r d')" and "\<And>e n d. P d \<Longrightarrow> Q (Inl e) (partial n d)"
  shows "triple P (sys partial op) Q"
  unfolding triple_def
proof (intro allI impI)
  fix w r w' assume w: "quiet w" "P (wd_disk w)" and run: "sys partial op w = (r, w')"
  show "quiet w' \<and> Q r (wd_disk w')"
  proof (cases "wd_script w")
    case Nil
    with run assms(1) [OF w(2)] show ?thesis by (auto simp: sys_def quiet_def split: prod.splits)
  next
    case (Cons step rest)
    with w(1) have "ss_race step = None" "list_all (\<lambda>s. ss_race s = None) rest" by (auto simp: quiet_def)
    with Cons run assms(1) [OF w(2)] assms(2) [OF w(2)] show ?thesis
      by (cases "ss_failure step") (auto simp: sys_def quiet_def Let_def split: prod.splits)
  qed
qed

lemmas triple_syscall = triple_sys [where partial = "\<lambda>_ d. d"]

text \<open>A call that only looks keeps every property of the disk.\<close>

definition looks :: "(world, 'e, 'a) st \<Rightarrow> bool" where
  "looks m \<longleftrightarrow> (\<forall>d. triple (\<lambda>d'. d' = d) m (\<lambda>_ d'. d' = d))"

named_theorems looks_intros

lemma looksD: "looks m \<Longrightarrow> triple P m (\<lambda>_. P)"
  unfolding looks_def triple_def by metis

lemma looks_bind [looks_intros]: "looks m \<Longrightarrow> (\<And>a. looks (f a)) \<Longrightarrow> looks (st_bind m f)"
  unfolding looks_def
proof
  fix d assume m: "\<forall>d. triple (\<lambda>d'. d' = d) m (\<lambda>_ d'. d' = d)" and f: "\<And>a. \<forall>d. triple (\<lambda>d'. d' = d) (f a) (\<lambda>_ d'. d' = d)"
  show "triple (\<lambda>d'. d' = d) (st_bind m f) (\<lambda>_ d'. d' = d)"
  proof (rule triple_bind)
    show "triple (\<lambda>d'. d' = d) m (\<lambda>r d'. case r of Inl e \<Rightarrow> d' = d | Inr a \<Rightarrow> d' = d)"
      by (rule triple_conseq [OF m [rule_format]]) (auto split: sum.splits)
  qed (use f in blast)
qed

lemma looks_return [looks_intros]: "looks (st_return a)"
  by (simp add: looks_def triple_return)

lemma looks_fail [looks_intros]: "looks (st_fail e)"
  by (simp add: looks_def triple_fail)

lemma looks_try [looks_intros]: "looks (st_try x)"
  by (simp add: looks_def triple_try)

lemma looks_map_err [looks_intros]: "looks m \<Longrightarrow> looks (st_map_err g m)"
  by (simp add: looks_def triple_map_err)

lemma looks_attempt [looks_intros]: "looks m \<Longrightarrow> looks (st_attempt m)"
  by (simp add: looks_def triple_attempt)

lemma looks_if [looks_intros]: "looks a \<Longrightarrow> looks b \<Longrightarrow> looks (if c then a else b)"
  by simp

lemma looks_syscalls [looks_intros]:
  "looks (sys_symlink_metadata p)" "looks (sys_open p)" "looks (sys_fstat i)" "looks (sys_read_to_end i n)" "looks (sys_fsync i)"
  by (simp_all add: looks_def sys_symlink_metadata_def sys_open_def sys_fstat_def sys_read_to_end_def sys_fsync_def
      triple_syscall)

lemma looks_read [looks_intros]: "looks (Config_read env p)"
  unfolding Config_read_def by (intro looks_intros) (auto split: prod.splits intro!: looks_intros)

lemma looks_read_policy [looks_intros]: "looks (read_policy env p)"
  unfolding read_policy_def by (intro looks_intros) (auto split: prod.splits intro!: looks_intros)

lemma looks_sync [looks_intros]: "looks (sync_directory p)"
  unfolding sync_directory_def by (intro looks_intros)

lemma looks_recovery [looks_intros]: "looks (check_recovery_target env p)"
  unfolding check_recovery_target_def
  by (intro looks_intros) (auto split: sum.splits errno.splits intro!: looks_intros)

section \<open>What a name holds\<close>

definition holds :: "disk \<Rightarrow> string \<Rightarrow> inode \<Rightarrow> byte list \<Rightarrow> bool" where
  "holds d p i b \<longleftrightarrow> dk_names d (path_components p) = Some i
    \<and> (\<exists>f. dk_inodes d i = Some f \<and> fi_kind f = Kind_Regular \<and> fi_data f = b)"

lemma holds_unique: "holds d p i b \<Longrightarrow> holds d p j c \<Longrightarrow> i = j \<and> b = c"
  by (auto simp: holds_def)

lemma syscall_ok:
  assumes "quiet w" and "syscall op w = (Inr a, w')"
  shows "quiet w'" and "op (wd_disk w) = (Inr a, wd_disk w')"
  using assms by (auto simp: sys_def quiet_def Let_def split: list.splits prod.splits option.splits)

lemma read_policy_sees:
  assumes "quiet w" and "read_policy env p w = (Inr snap, w')"
  shows "ps_path snap = p" and "holds (wd_disk w) p (Inode (ps_device snap) (ps_inode snap)) (as_bytes (ps_source snap))"
proof -
  from assms(2) obtain cfg where run: "Config_read env p w = (Inr (snap, cfg), w')"
    by (auto simp: read_policy_def st_bind_eq_Inr)
  show "ps_path snap = p"
    using run by (auto simp: Config_read_def st_bind_eq_Inr split: if_splits prod.splits)
  from run obtain pm w1 i w2 m w3 b w4 where
    1: "sys_symlink_metadata p w = (Inr pm, w1)" "md_kind pm = Kind_Regular" and
    2: "sys_open p w1 = (Inr i, w2)" and
    3: "sys_fstat i w2 = (Inr m, w3)" "md_inode m = md_inode pm" "\<not> md_len m > MAX_CONFIG_BYTES" and
    4: "sys_read_to_end i (MAX_CONFIG_BYTES + 1) w3 = (Inr b, w4)" "from_utf8 b = Some (ps_source snap)"
      "Inode (ps_device snap) (ps_inode snap) = md_inode m"
    by (auto simp: Config_read_def st_bind_eq_Inr st_map_err_def map_err_def split: if_splits prod.splits sum.splits)
  note look = sys_symlink_metadata_def sys_open_def sys_fstat_def sys_read_to_end_def
  note ok1 = syscall_ok [OF assms(1) 1(1) [unfolded look]]
  note ok2 = syscall_ok [OF ok1(1) 2 [unfolded look]]
  note ok3 = syscall_ok [OF ok2(1) 3(1) [unfolded look]]
  note ok4 = syscall_ok [OF ok3(1) 4(1) [unfolded look]]
  show "holds (wd_disk w) p (Inode (ps_device snap) (ps_inode snap)) (as_bytes (ps_source snap))"
    using ok1(2) ok2(2) ok3(2) ok4(2) 1(2) 3(2,3) 4(2,3) from_utf8_bytes [OF 4(2)]
    by (auto simp: holds_def file_at_def metadata_of_def split: option.splits bind_splits)
qed

text \<open>What each changing call does to the names and their contents.\<close>

lemma triple_exchange:
  assumes "\<And>e d. P d \<Longrightarrow> Q (Inl e) d"
    and "\<And>d i j. P d \<Longrightarrow> dk_names d (path_components p) = Some i \<Longrightarrow> dk_names d (path_components q) = Some j
      \<Longrightarrow> Q (Inr ()) (d\<lparr>dk_names := (dk_names d)(path_components p \<mapsto> j, path_components q \<mapsto> i)\<rparr>)"
  shows "triple P (sys_exchange p q) Q"
  unfolding sys_exchange_def using assms by (intro triple_syscall) (auto split: option.splits)

lemma triple_rename:
  assumes "\<And>e d. P d \<Longrightarrow> Q (Inl e) d"
    and "\<And>d i. P d \<Longrightarrow> dk_names d (path_components p) = Some i \<Longrightarrow> dk_names d (path_components q) = None
      \<Longrightarrow> Q (Inr ()) (d\<lparr>dk_names := (dk_names d)(path_components p := None, path_components q \<mapsto> i)\<rparr>)"
  shows "triple P (sys_rename_noreplace p q) Q"
  unfolding sys_rename_noreplace_def using assms by (intro triple_syscall) (auto split: option.splits)

lemma holds_mode [simp]:
  "dk_inodes d j = Some f \<Longrightarrow> holds (d\<lparr>dk_inodes := (dk_inodes d)(j \<mapsto> f\<lparr>fi_mode := mode\<rparr>)\<rparr>) p i b \<longleftrightarrow> holds d p i b"
  by (auto simp: holds_def)

lemma holds_locks [simp]: "holds (d\<lparr>dk_locks := l\<rparr>) p i b \<longleftrightarrow> holds d p i b"
  by (simp add: holds_def)

text \<open>
  Names that still hold what they held, apart from some excepted ones; and the calls that spare them,
  whether they fail or not.
\<close>

definition kept :: "(string list \<Rightarrow> bool) \<Rightarrow> disk \<Rightarrow> disk \<Rightarrow> bool" where
  "kept except d d' \<longleftrightarrow> (\<forall>p i b. \<not> except (path_components p) \<longrightarrow> holds d p i b \<longrightarrow> holds d' p i b)"

lemma kept_refl [simp]: "kept except d d"
  by (simp add: kept_def)

lemma kept_trans: "kept except d d' \<Longrightarrow> kept except d' d'' \<Longrightarrow> kept except d d''"
  by (auto simp: kept_def)

lemma keptD: "kept except d d' \<Longrightarrow> holds d p i b \<Longrightarrow> \<not> except (path_components p) \<Longrightarrow> holds d' p i b"
  by (auto simp: kept_def)

lemma kept_weaken: "kept except d d' \<Longrightarrow> (\<And>k. except k \<Longrightarrow> except' k) \<Longrightarrow> kept except' d d'"
  by (auto simp: kept_def)

abbreviation nothing :: "string list \<Rightarrow> bool" where
  "nothing \<equiv> (\<lambda>_. False)"

definition spares :: "(string list \<Rightarrow> bool) \<Rightarrow> (world, 'e, 'a) st \<Rightarrow> bool" where
  "spares except m \<longleftrightarrow> (\<forall>d0. triple (kept except d0) m (\<lambda>_. kept except d0))"

named_theorems spares_intros

lemma sparesD: "spares except m \<Longrightarrow> triple (kept except d0) m (\<lambda>_. kept except d0)"
  by (simp add: spares_def)

lemma spares_holds:
  assumes "spares except m" and "\<not> except (path_components p)"
  shows "triple (\<lambda>d. holds d p i b) m (\<lambda>_ d. holds d p i b)"
  using assms unfolding spares_def triple_def by (metis keptD kept_refl)

lemma spares_bind [spares_intros]: "spares x m \<Longrightarrow> (\<And>a. spares x (f a)) \<Longrightarrow> spares x (st_bind m f)"
  unfolding spares_def
  by (rule allI, rule triple_bind [where R = "\<lambda>_. kept x _"]) (auto elim!: triple_conseq split: sum.splits)

lemma spares_looks: "looks m \<Longrightarrow> spares x m"
  by (simp add: spares_def looksD)

lemma spares_basic [spares_intros]: "spares x (st_return a)" "spares x (st_fail e)" "spares x (st_try r)"
  by (simp_all add: spares_def triple_return triple_fail triple_try)

lemma spares_map_err [spares_intros]: "spares x m \<Longrightarrow> spares x (st_map_err g m)"
  by (simp add: spares_def triple_map_err)

lemma spares_attempt [spares_intros]: "spares x m \<Longrightarrow> spares x (st_attempt m)"
  by (simp add: spares_def triple_attempt)

lemma spares_if [spares_intros]: "spares x a \<Longrightarrow> spares x b \<Longrightarrow> spares x (if c then a else b)"
  by simp

lemma spares_syscall:
  assumes "\<And>d. kept x d (snd (op d))"
  shows "spares x (syscall op)"
  unfolding spares_def using assms by (auto intro!: triple_syscall elim: kept_trans split: prod.split)
    (metis kept_trans snd_conv)

lemmas spares_looking [spares_intros] = looks_syscalls [THEN spares_looks]

lemma spares_remove: "spares (\<lambda>k. k = path_components q) (sys_remove_file q)"
  unfolding sys_remove_file_def by (rule spares_syscall) (auto simp: kept_def holds_def split: option.split)

lemma spares_cleanup: "spares (\<lambda>k. k = path_components (tp_path t)) (TemporaryPolicy_cleanup t)"
  unfolding TemporaryPolicy_cleanup_def by (intro spares_intros spares_remove)

lemma spares_drop: "spares (\<lambda>k. k = path_components (tp_path t)) (TemporaryPolicy_drop t)"
  unfolding TemporaryPolicy_drop_def by (intro spares_intros spares_cleanup)

lemma spares_changes [spares_intros]:
  "spares x (sys_fchmod j mode)" "spares x (sys_chmod q mode)" "spares x (sys_flock j)" "spares x (sys_unlock j)"
  unfolding sys_fchmod_def sys_chmod_def sys_flock_def sys_unlock_def
  by (rule spares_syscall; auto simp: kept_def on_inode_def split: option.split sum.split)+

text \<open>The file system gives a new file an inode that is not in use.\<close>

definition allocates_fresh :: "'d policy_env \<Rightarrow> bool" where
  "allocates_fresh env \<longleftrightarrow> (\<forall>d i. pe_alloc env d = Some i \<longrightarrow> dk_inodes d i = None)"

lemma kept_create:
  assumes "allocates_fresh env" and "file_at d q = None"
  shows "kept x d (snd (create_at env q mode d))"
  using assms
  by (auto simp: kept_def create_at_def allocates_fresh_def holds_def file_at_def split: option.splits bind_splits)

lemma spares_open_or_create:
  assumes "allocates_fresh env"
  shows "spares x (sys_open_or_create env q)"
  unfolding sys_open_or_create_def
  by (rule spares_syscall) (auto split: option.split inode_kind.split prod.split intro: kept_create [OF assms])

lemma spares_lock:
  assumes "allocates_fresh env"
  shows "spares x (lock_policy_directory env q)"
  unfolding lock_policy_directory_def Let_def by (intro spares_intros spares_open_or_create assms)

section \<open>Staging\<close>

text \<open>Everything that was there stays, and the candidate is under a new name and a new inode.\<close>

definition apart :: "disk \<Rightarrow> string \<Rightarrow> inode \<Rightarrow> bool" where
  "apart d0 q c \<longleftrightarrow> (\<forall>p i b. holds d0 p i b \<longrightarrow> path_components p \<noteq> path_components q \<and> i \<noteq> c)"

definition staged :: "disk \<Rightarrow> string \<Rightarrow> inode \<Rightarrow> byte list \<Rightarrow> disk \<Rightarrow> bool" where
  "staged d0 q c b d \<longleftrightarrow> kept nothing d0 d \<and> apart d0 q c \<and> holds d q c b"

lemma apartD:
  assumes "apart d0 q c" and "holds d0 p i b"
  shows "path_components p \<noteq> path_components q" and "path_components q \<noteq> path_components p" and "i \<noteq> c"
  using assms unfolding apart_def by metis+

lemma create_new_stages:
  assumes "allocates_fresh env"
  shows "triple (kept nothing d0) (sys_create_new env p) (\<lambda>r d. case r of
    Inl _ \<Rightarrow> kept nothing d0 d | Inr c \<Rightarrow> staged d0 p c [] d)"
proof -
  have "staged d0 p c [] d'" if k: "kept nothing d0 d" "dk_names d (path_components p) = None"
    and c: "create_at env p mode d = (Inr c, d')" for d mode c d'
  proof -
    have "kept nothing d d'"
      using kept_create [OF assms, of d p nothing mode] k(2) c by (simp add: file_at_def)
    with k(1) have "kept nothing d0 d'" by (rule kept_trans)
    moreover have "apart d0 p c"
      using k c assms by (auto simp: apart_def create_at_def allocates_fresh_def holds_def kept_def split: option.splits)
        (metis option.distinct(1))+
    moreover have "holds d' p c []"
      using c by (auto simp: create_at_def holds_def split: option.splits)
    ultimately show ?thesis by (simp add: staged_def)
  qed
  moreover have "kept nothing d0 d'" if "kept nothing d0 d" "create_at env p mode d = (Inl e, d')" for d mode e d'
    using that by (auto simp: create_at_def split: option.splits)
  ultimately show ?thesis
    unfolding sys_create_new_def
    by (intro triple_syscall) (auto split: prod.split sum.split)
qed

lemma holds_write:
  assumes "holds d p i b" and "dk_inodes d c = Some f" and "i \<noteq> c"
  shows "holds (d\<lparr>dk_inodes := (dk_inodes d)(c \<mapsto> g)\<rparr>) p i b"
  using assms by (auto simp: holds_def)

lemma write_stages:
  "triple (staged d0 q c []) (sys_write_all c bytes) (\<lambda>r d. case r of
    Inl _ \<Rightarrow> kept nothing d0 d \<and> apart d0 q c | Inr _ \<Rightarrow> staged d0 q c bytes d)"
proof -
  have *: "kept nothing d0 (d\<lparr>dk_inodes := (dk_inodes d)(c \<mapsto> g)\<rparr>)" if "staged d0 q c [] d" "dk_inodes d c = Some f" for d f g
    using that holds_write [of d _ _ _ c f g] unfolding staged_def kept_def apart_def by blast
  have **: "holds (d\<lparr>dk_inodes := (dk_inodes d)(c \<mapsto> overwrite bytes f)\<rparr>) q c bytes"
    if "staged d0 q c [] d" "dk_inodes d c = Some f" for d f
    using that by (auto simp: staged_def holds_def overwrite_def)
  show ?thesis
    unfolding sys_write_all_def
    by (rule triple_sys) (auto simp: on_inode_def * ** staged_def [of d0 q c bytes] split: option.split
        dest: staged_def [THEN iffD1])
qed

lemma spares_staged:
  assumes "spares nothing m"
  shows "triple (staged d0 q c b) m (\<lambda>_. staged d0 q c b)"
  unfolding triple_def
proof (intro allI impI)
  fix w r w' assume w: "quiet w" "staged d0 q c b (wd_disk w)" and run: "m w = (r, w')"
  from tripleD [OF sparesD [OF assms] w(1) _ run, of d0] tripleD [OF spares_holds [OF assms] w(1) _ run, of q c b] w(2)
  show "quiet w' \<and> staged d0 q c b (wd_disk w')" by (auto simp: staged_def)
qed

lemma kept_away:
  assumes "kept (\<lambda>k. k = path_components q) d d'" and "apart d0 q c" and "kept x d0 d"
  shows "kept x d0 d'"
  using assms unfolding kept_def apart_def by blast

lemma removal_restores:
  assumes "spares (\<lambda>k. k = path_components q) m" and "apart d0 q c"
  shows "triple (kept x d0) m (\<lambda>_. kept x d0)"
  unfolding triple_def
proof (intro allI impI)
  fix w r w' assume w: "quiet w" "kept x d0 (wd_disk w)" and run: "m w = (r, w')"
  with tripleD [OF sparesD [OF assms(1)] w(1) kept_refl run] show "quiet w' \<and> kept x d0 (wd_disk w')"
    using kept_away [OF _ assms(2)] by blast
qed

definition staged_result :: "disk \<Rightarrow> string \<Rightarrow> string + TemporaryPolicy \<Rightarrow> disk \<Rightarrow> bool" where
  "staged_result d0 candidate r d \<longleftrightarrow> (case r of
      Inl _ \<Rightarrow> kept nothing d0 d
    | Inr t \<Rightarrow> staged d0 (tp_path t) (tp_file t) (as_bytes candidate) d \<and> tp_remove_on_drop t)"

lemma write_staged_triple: "triple (staged d0 p c []) (write_staged p c candidate) (staged_result d0 candidate)"
proof -
  let ?W = "\<lambda>r d. kept nothing d0 d \<and> apart d0 p c \<and> (r = Inr () \<longrightarrow> staged d0 p c (as_bytes candidate) d)"
  have wrote: "triple (staged d0 p c []) (st_bind (sys_write_all c (as_bytes candidate)) (\<lambda>_. sys_fsync c)) ?W"
    by (rule triple_bind [where R = "\<lambda>_. staged d0 p c (as_bytes candidate)"])
      (auto intro: triple_conseq [OF write_stages] triple_conseq [OF looksD [OF looks_syscalls(5)]]
        simp: staged_def split: sum.splits)
  have gone: "triple (\<lambda>d. kept nothing d0 d \<and> apart d0 p c)
      (st_bind (st_attempt (sys_remove_file p)) (\<lambda>_. st_fail e)) (staged_result d0 candidate)" for e
    by (rule triple_pure, rule triple_bind [where R = "\<lambda>_. kept nothing d0"],
        rule triple_conseq [OF removal_restores [OF spares_attempt [OF spares_remove]]])
      (auto intro: triple_fail simp: staged_result_def split: sum.splits)
  show ?thesis
    unfolding write_staged_def
    by (rule triple_bind [where R = "\<lambda>_. staged d0 p c []"], rule triple_map_err,
        rule triple_conseq [OF spares_staged [OF spares_changes(1)]], assumption)
      (auto simp: staged_result_def staged_def map_err_def split: sum.splits
        intro!: triple_bind [where R = ?W] triple_attempt triple_conseq [OF wrote] triple_conseq [OF gone] triple_return)
qed

lemma stage_attempts_triple:
  assumes "allocates_fresh env"
  shows "triple (kept nothing d0) (stage_attempts n env parent candidate) (staged_result d0 candidate)"
proof (induction n)
  case 0
  show ?case by (auto intro: triple_fail simp: staged_result_def)
next
  case (Suc n)
  let ?R = "\<lambda>p r d. case r of Inl _ \<Rightarrow> kept nothing d0 d | Inr c \<Rightarrow> staged d0 p c [] d"
  have attempt: "triple (kept nothing d0) (st_bind (st_attempt (sys_create_new env p)) (\<lambda>opened. case opened of
      Inl (AlreadyExists _) \<Rightarrow> stage_attempts n env parent candidate
    | Inl e \<Rightarrow> st_fail (f e)
    | Inr file \<Rightarrow> write_staged p file candidate)) (staged_result d0 candidate)" for p f
    by (rule triple_bind [where R = "?R p"], rule triple_attempt, rule triple_conseq [OF create_new_stages [OF assms]])
      (auto split: sum.split errno.split intro!: triple_fail write_staged_triple Suc.IH simp: staged_result_def)
  show ?case
    unfolding stage_attempts.simps Let_def
    by (rule triple_bind [where R = "\<lambda>_. kept nothing d0"], rule triple_serial, simp, rule attempt)
qed

lemma create_triple:
  assumes "allocates_fresh env"
  shows "triple (kept nothing d0) (TemporaryPolicy_create env p candidate) (staged_result d0 candidate)"
  unfolding TemporaryPolicy_create_def
  by (rule triple_bind [where R = "\<lambda>_. kept nothing d0"])
    (auto intro!: triple_try stage_attempts_triple [OF assms] simp: staged_result_def split: sum.split)

section \<open>The exchange, the recovery copy and the rollback\<close>

lemma split_on_append_free:
  assumes "c \<notin> set ys"
  shows "split_on c (xs @ ys) = butlast (split_on c xs) @ [last (split_on c xs) @ ys]"
proof (induction xs)
  case Nil
  then show ?case using assms by (simp add: split_on_free)
next
  case (Cons x xs)
  then show ?case by (cases "split_on c xs") (auto simp: neq_Nil_conv)
qed

text \<open>The characters of a path without its separators.\<close>

definition body :: "string \<Rightarrow> string" where
  "body p = concat (filter (\<lambda>c. c \<noteq> [] \<and> c \<noteq> ''.'') (split_on CHR ''/'' p))"

lemma components_body:
  "length (body p) \<le> length (concat (path_components p))" "length (concat (path_components p)) \<le> length (body p) + 1"
  by (simp_all add: path_components_def body_def Let_def)

lemma body_suffix: "length (body p) < length (body (p @ ''.previous'')) - 1"
proof -
  let ?parts = "split_on CHR ''/'' p" and ?keep = "filter (\<lambda>c. c \<noteq> [] \<and> c \<noteq> ''.'')"
  have "split_on CHR ''/'' (p @ ''.previous'') = butlast ?parts @ [last ?parts @ ''.previous'']"
    by (rule split_on_append_free) simp
  then have "length (body (p @ ''.previous'')) = length (concat (?keep (butlast ?parts))) + length (last ?parts) + 9"
    by (cases "last ?parts") (simp_all add: body_def)
  moreover have "body p = concat (?keep (butlast ?parts @ [last ?parts]))" by (simp add: body_def)
  then have "length (body p) \<le> length (concat (?keep (butlast ?parts))) + length (last ?parts)"
    by (simp del: append_butlast_last_id)
  ultimately show ?thesis by simp
qed

lemma recovery_path_other: "path_components (recovery_policy_path p) \<noteq> path_components p"
  using components_body(1) [of "p @ ''.previous''"] components_body(2) [of p] body_suffix [of p]
  by (auto simp: recovery_policy_path_def suffixed_path_def)

text \<open>
  The disks a replacement passes through: the candidate at the target and the old policy at the staging
  name, then the old policy at the recovery name. Every other name is untouched.
\<close>

definition swapped :: "disk \<Rightarrow> string \<Rightarrow> inode \<Rightarrow> byte list \<Rightarrow> string \<Rightarrow> inode \<Rightarrow> byte list \<Rightarrow> disk \<Rightarrow> bool" where
  "swapped d0 target' i0 b0 q c b d \<longleftrightarrow>
    kept (\<lambda>k. k = path_components target') d0 d \<and> holds d target' c b \<and> holds d q i0 b0"

definition replaced :: "disk \<Rightarrow> string \<Rightarrow> inode \<Rightarrow> byte list \<Rightarrow> byte list \<Rightarrow> disk \<Rightarrow> bool" where
  "replaced d0 target' i0 b0 b d \<longleftrightarrow>
    kept (\<lambda>k. k = path_components target' \<or> k = path_components (recovery_policy_path target')) d0 d
    \<and> (\<exists>c. holds d target' c b) \<and> holds d (recovery_policy_path target') i0 b0"

lemma exchange_swaps:
  assumes "holds d0 target' i0 b0"
  shows "triple (staged d0 q c b) (sys_exchange q target')
    (\<lambda>r d. case r of Inl _ \<Rightarrow> kept nothing d0 d | Inr _ \<Rightarrow> swapped d0 target' i0 b0 q c b d)"
proof (rule triple_exchange)
  fix d i j
  assume st: "staged d0 q c b d" and "dk_names d (path_components q) = Some i"
    and "dk_names d (path_components target') = Some j"
  moreover have "holds d target' i0 b0" "path_components target' \<noteq> path_components q"
    using st assms apartD(1) [OF _ assms, of q c] by (auto simp: staged_def kept_def)
  ultimately show "case Inr () of Inl _ \<Rightarrow> kept nothing d0 (d\<lparr>dk_names := (dk_names d)(path_components q \<mapsto> j, path_components target' \<mapsto> i)\<rparr>)
    | Inr _ \<Rightarrow> swapped d0 target' i0 b0 q c b (d\<lparr>dk_names := (dk_names d)(path_components q \<mapsto> j, path_components target' \<mapsto> i)\<rparr>)"
    by (auto simp: staged_def swapped_def kept_def holds_def dest: apartD [unfolded holds_def])
qed (simp add: staged_def)

lemma exchange_back:
  assumes "holds d0 target' i0 b0" and "apart d0 q c"
  shows "triple (swapped d0 target' i0 b0 q c b) (sys_exchange q target')
    (\<lambda>r d. case r of Inl _ \<Rightarrow> swapped d0 target' i0 b0 q c b d | Inr _ \<Rightarrow> kept nothing d0 d)"
proof (rule triple_exchange)
  fix d :: disk and i j
  let ?d = "d\<lparr>dk_names := (dk_names d)(path_components q \<mapsto> j, path_components target' \<mapsto> i)\<rparr>"
  assume sw: "swapped d0 target' i0 b0 q c b d" and q: "dk_names d (path_components q) = Some i"
    and t: "dk_names d (path_components target') = Some j"
  have "holds ?d p k e" if p: "holds d0 p k e" for p k e
  proof (cases "path_components p = path_components target'")
    case True
    with p assms(1) have "k = i0" "e = b0" by (auto simp: holds_def)
    with True sw q show ?thesis by (auto simp: swapped_def holds_def)
  next
    case False
    with sw p have "holds d p k e" by (simp add: swapped_def kept_def)
    with False apartD(1) [OF assms(2) p] show ?thesis by (auto simp: holds_def)
  qed
  then show "case Inr () of Inl _ \<Rightarrow> swapped d0 target' i0 b0 q c b ?d | Inr _ \<Rightarrow> kept nothing d0 ?d"
    by (simp add: kept_def)
qed simp

lemma rollback_restores:
  assumes "holds d0 target' i0 b0" and "apart d0 q c"
  shows "triple (swapped d0 target' i0 b0 q c b) (rollback_exchange q target' meta)
    (\<lambda>r d. case r of Inl _ \<Rightarrow> swapped d0 target' i0 b0 q c b d | Inr _ \<Rightarrow> kept nothing d0 d)"
proof -
  let ?S = "swapped d0 target' i0 b0 q c b"
  show ?thesis
    unfolding rollback_exchange_def
    by (rule triple_bind [where R = "\<lambda>_. ?S"], rule triple_map_err,
        rule triple_conseq [OF looksD [OF looks_syscalls(1)]], assumption)
      (auto intro!: triple_fail triple_map_err triple_conseq [OF exchange_back [OF assms]]
        simp: map_err_def split: sum.splits)
qed

lemma recovery_kept:
  assumes "holds d0 target' i0 b0" and "apart d0 q c"
    and "backup_exists \<longrightarrow> (\<exists>j e. holds d0 (recovery_policy_path target') j e)"
  shows "triple (swapped d0 target' i0 b0 q c b)
    (if backup_exists then sys_exchange q (recovery_policy_path target')
     else sys_rename_noreplace q (recovery_policy_path target'))
    (\<lambda>r d. case r of Inl _ \<Rightarrow> swapped d0 target' i0 b0 q c b d
       | Inr _ \<Rightarrow> replaced d0 target' i0 b0 b d \<and> path_components q \<noteq> path_components (recovery_policy_path target'))"
    (is "triple ?S _ ?Q")
proof -
  let ?B = "recovery_policy_path target'"
  have other: "path_components ?B \<noteq> path_components target'" "path_components q \<noteq> path_components target'"
    using recovery_path_other apartD [OF assms(2,1)] by auto
  have moved: "replaced d0 target' i0 b0 b (d\<lparr>dk_names := (dk_names d)(path_components q := x, path_components ?B \<mapsto> i)\<rparr>)"
    if "?S d" "dk_names d (path_components q) = Some i" "path_components q \<noteq> path_components ?B" for d x i
    using that other assms(2) by (auto simp: swapped_def replaced_def kept_def apart_def holds_def)
  have "triple ?S (sys_exchange q ?B) ?Q" if "backup_exists"
    using that assms(2,3) by (intro triple_exchange) (auto intro!: moved dest: apartD)
  moreover have "triple ?S (sys_rename_noreplace q ?B) ?Q"
    by (rule triple_rename) (auto intro!: moved)
  ultimately show ?thesis by simp
qed

lemma read_policy_triple:
  "triple P (read_policy env p) (\<lambda>r d. P d \<and> (\<forall>snap. r = Inr snap
    \<longrightarrow> holds d p (Inode (ps_device snap) (ps_inode snap)) (as_bytes (ps_source snap))))"
  unfolding triple_def
proof (intro allI impI)
  fix w r w' assume w: "quiet w" "P (wd_disk w)" and run: "read_policy env p w = (r, w')"
  have same: "quiet w' \<and> wd_disk w' = wd_disk w"
    using tripleD [OF looksD [OF looks_read_policy] w(1) _ run, of "\<lambda>d. d = wd_disk w"] by simp
  with read_policy_sees(2) [OF w(1)] run w(2)
  show "quiet w' \<and> P (wd_disk w') \<and> (\<forall>snap. r = Inr snap
      \<longrightarrow> holds (wd_disk w') p (Inode (ps_device snap) (ps_inode snap)) (as_bytes (ps_source snap)))"
    by auto
qed

definition private_at :: "string \<Rightarrow> disk \<Rightarrow> bool" where
  "private_at p d \<longleftrightarrow> (\<exists>i f. file_at d p = Some (i, f) \<and> fi_mode f = 384)"

lemma file_behind_holds:
  "holds d p i b \<Longrightarrow> \<exists>f. file_behind MAX_LINKS d p = Inr (i, f) \<and> dk_inodes d i = Some f"
  by (auto simp: holds_def MAX_LINKS_def eval_nat_numeral file_at_def)

lemma chmod_secures:
  "triple (\<lambda>d. holds d p i b) (sys_chmod p 384) (\<lambda>r d. holds d p i b \<and> (r = Inr () \<longrightarrow> private_at p d))"
  unfolding sys_chmod_def
proof (rule triple_syscall)
  fix d assume h: "holds d p i b"
  then obtain f where f: "file_behind MAX_LINKS d p = Inr (i, f)" "dk_inodes d i = Some f"
    using file_behind_holds by blast
  with h show "case (case file_behind MAX_LINKS d p of Inl e \<Rightarrow> (Inl e, d)
      | Inr (i, _) \<Rightarrow> on_inode i (\<lambda>f. ((), f\<lparr>fi_mode := 384\<rparr>)) d) of
    (r, d') \<Rightarrow> holds d' p i b \<and> (r = Inr () \<longrightarrow> private_at p d')"
    by (auto simp: on_inode_def private_at_def file_at_def holds_def)
qed simp

lemma private_cleanup:
  assumes "path_components p \<noteq> path_components (tp_path t)"
  shows "triple (private_at p) (TemporaryPolicy_cleanup t) (\<lambda>_. private_at p)"
proof -
  have "triple (private_at p) (sys_remove_file (tp_path t)) (\<lambda>_. private_at p)"
    unfolding sys_remove_file_def using assms
    by (intro triple_syscall) (auto simp: private_at_def file_at_def split: option.split bind_splits)
  then show ?thesis
    unfolding TemporaryPolicy_cleanup_def
    by (intro triple_bind [where R = "\<lambda>_. private_at p"] triple_attempt triple_return) simp_all
qed

lemma spares_replaced:
  assumes "spares x m" and "\<not> x (path_components target')" and "\<not> x (path_components (recovery_policy_path target'))"
    and "\<And>p i b. holds d0 p i b \<Longrightarrow> \<not> x (path_components p)"
  shows "triple (replaced d0 target' i0 b0 b) m (\<lambda>_. replaced d0 target' i0 b0 b)"
  unfolding triple_def
proof (intro allI impI)
  fix w r w' assume w: "quiet w" "replaced d0 target' i0 b0 b (wd_disk w)" and run: "m w = (r, w')"
  from tripleD [OF sparesD [OF assms(1)] w(1) kept_refl run] have q: "quiet w'" and k: "kept x (wd_disk w) (wd_disk w')"
    by auto
  from w(2) obtain c where "kept (\<lambda>k. k = path_components target' \<or> k = path_components (recovery_policy_path target')) d0 (wd_disk w)"
    "holds (wd_disk w) target' c b" "holds (wd_disk w) (recovery_policy_path target') i0 b0"
    by (auto simp: replaced_def)
  with k assms(2-4) have "replaced d0 target' i0 b0 b (wd_disk w')"
    unfolding replaced_def kept_def by metis
  with q show "quiet w' \<and> replaced d0 target' i0 b0 b (wd_disk w')" ..
qed

lemma finish_triple:
  assumes "holds d0 (ps_path expected) i0 b0" and "apart d0 (tp_path t) c"
    and "path_components (tp_path t) \<noteq> path_components (recovery_policy_path (ps_path expected))"
  shows "triple (replaced d0 (ps_path expected) i0 b0 (as_bytes candidate)) (finish_replacement env expected t)
    (\<lambda>r d. replaced d0 (ps_path expected) i0 b0 (as_bytes candidate) d
      \<and> (\<forall>snap. r = Inr snap \<longrightarrow> ps_source snap = candidate \<and> private_at (recovery_policy_path (ps_path expected)) d))"
    (is "triple ?R _ ?Q")
proof -
  let ?B = "recovery_policy_path (ps_path expected)"
  let ?P = "\<lambda>d. ?R d \<and> private_at ?B d"
  have secured: "triple ?R (sys_chmod ?B 384) (\<lambda>r d. ?R d \<and> (r = Inr () \<longrightarrow> private_at ?B d))"
    using triple_conj [OF spares_replaced [OF spares_changes(2), of nothing] chmod_secures [of ?B i0 b0]]
    by (rule triple_conseq) (auto simp: replaced_def)
  have cleaned: "triple ?P (TemporaryPolicy_cleanup t) (\<lambda>_. ?P)"
    using apartD [OF assms(2,1)] apartD [OF assms(2)] assms(3)
    by (intro triple_conj spares_replaced [OF spares_cleanup] private_cleanup) auto
  have read: "triple ?P (read_policy env (ps_path expected)) ?Q"
    by (rule triple_conseq [OF read_policy_triple [of ?P]])
      (auto simp: replaced_def dest: holds_unique simp: as_bytes_inj)
  have rest: "triple ?P (st_bind (TemporaryPolicy_cleanup t) (\<lambda>_. st_bind (sync_directory (ps_path expected))
      (\<lambda>_. read_policy env (ps_path expected)))) ?Q"
    by (rule triple_then [OF cleaned], simp, rule triple_then [OF looksD [OF looks_sync]], simp, rule read)
  show ?thesis
    unfolding finish_replacement_def Let_def
    by (rule triple_step [where R = "\<lambda>r d. ?R d \<and> (is_ok r \<longrightarrow> private_at ?B d)", OF triple_map_err [OF triple_conseq [OF secured]]])
      (auto simp: map_err_def split: sum.splits intro: triple_conseq [OF rest])
qed

text \<open>How a replacement may end, before the staging file is dropped.\<close>

definition ending :: "disk \<Rightarrow> string \<Rightarrow> inode \<Rightarrow> byte list \<Rightarrow> string \<Rightarrow> inode \<Rightarrow> string
    \<Rightarrow> (string + 'd PolicySnapshot) \<times> TemporaryPolicy \<Rightarrow> disk \<Rightarrow> bool" where
  "ending d0 target' i0 b0 q c candidate res d \<longleftrightarrow> (case res of (r, t) \<Rightarrow> tp_path t = q \<and>
    (kept nothing d0 d \<and> \<not> is_ok r
     \<or> swapped d0 target' i0 b0 q c (as_bytes candidate) d \<and> \<not> tp_remove_on_drop t \<and> \<not> is_ok r
     \<or> replaced d0 target' i0 b0 (as_bytes candidate) d
       \<and> path_components q \<noteq> path_components (recovery_policy_path target')
       \<and> (\<forall>snap. r = Inr snap \<longrightarrow> ps_source snap = candidate \<and> private_at (recovery_policy_path target') d)))"

definition ended :: "disk \<Rightarrow> string \<Rightarrow> inode \<Rightarrow> byte list \<Rightarrow> string \<Rightarrow> inode \<Rightarrow> string
    \<Rightarrow> 'e + (string + 'd PolicySnapshot) \<times> TemporaryPolicy \<Rightarrow> disk \<Rightarrow> bool" where
  "ended d0 target' i0 b0 q c candidate r d \<longleftrightarrow> (\<exists>res. r = Inr res \<and> ending d0 target' i0 b0 q c candidate res d)"

lemma ended_unchanged: "kept nothing d0 d \<Longrightarrow> ended d0 target' i0 b0 (tp_path t) c candidate (Inr (Inl e, t)) d"
  by (simp add: ended_def ending_def)

lemma never_ok [simp]: "\<not> is_ok (case r of Inl e \<Rightarrow> Inl e | Inr _ \<Rightarrow> Inl m)"
  by (cases r) auto

lemma fail_after_rollback_triple:
  assumes "holds d0 target' i0 b0" and "apart d0 (tp_path t) c"
  shows "triple (swapped d0 target' i0 b0 (tp_path t) c (as_bytes candidate)) (fail_after_rollback t target' meta message)
    (ended d0 target' i0 b0 (tp_path t) c candidate)"
proof -
  let ?S = "swapped d0 target' i0 b0 (tp_path t) c (as_bytes candidate)"
  let ?M = "\<lambda>(r, t') d. tp_path t' = tp_path t \<and> (if is_ok r then kept nothing d0 d else ?S d \<and> \<not> tp_remove_on_drop t')"
  have "triple ?S (rollback_or_preserve t target' meta) (\<lambda>r d. case r of Inl _ \<Rightarrow> False | Inr res \<Rightarrow> ?M res d)"
    unfolding rollback_or_preserve_def
    by (rule triple_bind [where R = "\<lambda>r d. case r of Inl _ \<Rightarrow> ?S d | Inr _ \<Rightarrow> kept nothing d0 d"],
        rule triple_attempt, rule triple_conseq [OF rollback_restores [OF assms]], assumption)
      (auto simp: TemporaryPolicy_preserve_def split: sum.split intro!: triple_return)
  then show ?thesis
    unfolding fail_after_rollback_def
    by (rule triple_step) (auto simp: ended_def ending_def split: if_splits intro!: triple_return)
qed

lemma retain_triple:
  assumes "holds d0 (ps_path expected) i0 b0" and "apart d0 (tp_path t) (tp_file t)"
    and "backup_exists \<longrightarrow> (\<exists>j e. holds d0 (recovery_policy_path (ps_path expected)) j e)"
  shows "triple (swapped d0 (ps_path expected) i0 b0 (tp_path t) (tp_file t) (as_bytes candidate))
    (retain_recovery env expected backup_exists t meta)
    (ended d0 (ps_path expected) i0 b0 (tp_path t) (tp_file t) candidate)"
    (is "triple ?S _ ?Q")
proof -
  let ?B = "recovery_policy_path (ps_path expected)"
  let ?R = "\<lambda>d. replaced d0 (ps_path expected) i0 b0 (as_bytes candidate) d \<and> path_components (tp_path t) \<noteq> path_components ?B"
  have finished: "triple ?R (st_bind (st_attempt (finish_replacement env expected t)) (\<lambda>r. st_return (r, t))) ?Q"
    by (rule triple_pure, rule triple_attempt_bind [OF finish_triple [OF assms(1,2)]])
      (auto simp: ended_def ending_def intro!: triple_return)
  show ?thesis
    unfolding retain_recovery_def Let_def
    by (rule triple_attempt_bind [OF recovery_kept [OF assms]])
      (auto split: sum.split intro!: fail_after_rollback_triple [OF assms(1,2)] finished)
qed

lemma install_triple:
  assumes "holds d0 (ps_path expected) i0 b0" and "apart d0 (tp_path t) (tp_file t)"
    and "backup_exists \<longrightarrow> (\<exists>j e. holds d0 (recovery_policy_path (ps_path expected)) j e)"
  shows "triple (staged d0 (tp_path t) (tp_file t) (as_bytes candidate)) (install_staged env expected backup_exists t)
    (ended d0 (ps_path expected) i0 b0 (tp_path t) (tp_file t) candidate)"
    (is "triple ?G _ ?Q")
proof -
  let ?S = "swapped d0 (ps_path expected) i0 b0 (tp_path t) (tp_file t) (as_bytes candidate)"
  have confirmed: "triple ?S (confirm_displaced env expected backup_exists t meta) ?Q" for meta
    unfolding confirm_displaced_def
    by (rule triple_attempt_bind [OF looksD [OF looks_read_policy]])
      (auto intro: fail_after_rollback_triple [OF assms(1,2)] retain_triple [OF assms])
  have exchanged: "triple ?G (st_bind (st_attempt (st_map_err g (sys_exchange (tp_path t) (ps_path expected)))) (\<lambda>installed. case installed of
          Inl e \<Rightarrow> st_return (Inl e, t)
        | Inr _ \<Rightarrow> confirm_displaced env expected backup_exists t meta)) ?Q" for g meta
    by (rule triple_attempt_bind [where R = "\<lambda>r d. case r of Inl _ \<Rightarrow> kept nothing d0 d | Inr _ \<Rightarrow> ?S d"],
        rule triple_map_err, rule triple_conseq [OF exchange_swaps [OF assms(1)]], assumption)
      (auto simp: map_err_def split: sum.splits intro!: confirmed triple_return ended_unchanged)
  show ?thesis
    unfolding install_staged_def
    by (rule triple_attempt_bind [OF looksD [OF looks_map_err [OF looks_syscalls(3)]]])
      (auto simp: staged_def split: sum.split intro!: triple_return exchanged ended_unchanged)
qed

section \<open>A replacement is all or nothing\<close>

lemma recovery_check_sees:
  "triple P (check_recovery_target env p) (\<lambda>r d. P d \<and> (r = Inr True \<longrightarrow> (\<exists>j e. holds d p j e)))"
proof -
  have seen: "triple P (sys_symlink_metadata p) (\<lambda>r d. P d \<and> (\<forall>m. r = Inr m \<longrightarrow> md_kind m = Kind_Regular
      \<longrightarrow> (\<exists>j e. holds d p j e)))"
    unfolding sys_symlink_metadata_def
    by (rule triple_syscall) (auto simp: file_at_def metadata_of_def holds_def split: option.split bind_splits)
  show ?thesis
    unfolding check_recovery_target_def
    by (rule triple_attempt_bind [OF seen]) (auto split: sum.split errno.split intro!: triple_return triple_fail)
qed

text \<open>
  How the call may end. Nothing changed; or the candidate is in place, with the old policy under the
  recovery name; or, when the rollback itself failed, the candidate is in place and the old policy is in
  the staging file. Names other than the policy and its recovery copy keep what they held throughout.
\<close>

definition replacement :: "'d policy_env \<Rightarrow> disk \<Rightarrow> string \<Rightarrow> inode \<Rightarrow> byte list \<Rightarrow> string
    \<Rightarrow> string + 'd PolicySnapshot \<Rightarrow> disk \<Rightarrow> bool" where
  "replacement env d0 target' i0 b0 candidate r d \<longleftrightarrow>
    kept nothing d0 d \<and> (\<forall>snap. r = Inr snap \<longrightarrow> ps_source snap = candidate \<and> as_bytes candidate = b0)
    \<or> replaced d0 target' i0 b0 (as_bytes candidate) d
      \<and> (\<forall>snap. r = Inr snap \<longrightarrow> ps_source snap = candidate \<and> private_at (recovery_policy_path target') d)
    \<or> \<not> is_ok r \<and> (\<exists>parent serial c. path_parent target' = Some parent
      \<and> swapped d0 target' i0 b0 (staging_path env parent serial) c (as_bytes candidate) d)"

lemma write_staged_path:
  assumes "write_staged p c candidate w = (Inr t, w')"
  shows "tp_path t = p"
proof -
  from assms obtain r :: "errno + unit" and u where "(case r of
        Inl e \<Rightarrow> st_bind (st_attempt (sys_remove_file p)) (\<lambda>_.
          st_fail (''cannot write staged policy '' @ p @ '': '' @ errno_text e))
      | Inr _ \<Rightarrow> st_return \<lparr>tp_path = p, tp_file = c, tp_remove_on_drop = True\<rparr>) u = (Inr t, w')"
    unfolding write_staged_def st_bind_eq_Inr by blast
  then show ?thesis by (cases r) (auto simp: st_bind_eq_Inr)
qed

lemma stage_attempts_path:
  "stage_attempts n env parent candidate w = (Inr t, w') \<Longrightarrow> \<exists>serial. tp_path t = staging_path env parent serial"
proof (induction n arbitrary: w)
  case (Suc n)
  from Suc.prems obtain serial r u where "(case r of
      Inl (AlreadyExists _) \<Rightarrow> stage_attempts n env parent candidate
    | Inl e \<Rightarrow> st_fail (''cannot stage policy '' @ staging_path env parent serial @ '': '' @ errno_text e)
    | Inr file \<Rightarrow> write_staged (staging_path env parent serial) file candidate) u = (Inr t, w')"
    unfolding stage_attempts.simps Let_def st_bind_eq_Inr by blast
  then show ?case
    by (cases r) (auto split: errno.split_asm dest: Suc.IH write_staged_path)
qed simp

lemma create_path:
  assumes "TemporaryPolicy_create env p candidate w = (Inr t, w')"
  shows "\<exists>parent serial. path_parent p = Some parent \<and> tp_path t = staging_path env parent serial"
  using assms stage_attempts_path by (fastforce simp: TemporaryPolicy_create_def st_bind_eq_Inr)

lemma kept_further: "kept nothing d0 d1 \<Longrightarrow> kept x d1 d \<Longrightarrow> kept x d0 d"
  by (auto simp: kept_def)

lemma replacement_further:
  assumes "kept nothing d0 d1" and "replacement env d1 target' i0 b0 candidate r d"
  shows "replacement env d0 target' i0 b0 candidate r d"
  using assms(2) kept_further [OF assms(1)] unfolding replacement_def replaced_def swapped_def by blast

lemma drop_ok: "TemporaryPolicy_drop t w = (r, w') \<Longrightarrow> is_ok r"
  by (auto simp: TemporaryPolicy_drop_def TemporaryPolicy_cleanup_def st_bind_def st_attempt_def
      split: if_splits prod.splits)

lemma drop_triple:
  assumes "holds d0 target' i0 b0" and "apart d0 (tp_path t) c"
    and "path_parent target' = Some parent" and "tp_path t = staging_path env parent serial"
  shows "triple (ending d0 target' i0 b0 (tp_path t) c candidate (r, t')) (TemporaryPolicy_drop t')
    (\<lambda>u d. is_ok u \<and> replacement env d0 target' i0 b0 candidate r d)"
proof -
  let ?B = "recovery_policy_path target'"
  let ?K = "kept nothing d0" and ?R = "replaced d0 target' i0 b0 (as_bytes candidate)"
  have drop: "quiet w' \<and> replacement env d0 target' i0 b0 candidate r (wd_disk w')"
    if w: "quiet w" "ending d0 target' i0 b0 (tp_path t) c candidate (r, t') (wd_disk w)"
      and run: "TemporaryPolicy_drop t' w = (u, w')" for w w' u
  proof -
    from w(2) have path: "tp_path t' = tp_path t" by (simp add: ending_def)
    from w(2) consider (unchanged) "?K (wd_disk w)" "\<not> is_ok r"
      | (stuck) "swapped d0 target' i0 b0 (tp_path t) c (as_bytes candidate) (wd_disk w)" "\<not> tp_remove_on_drop t'" "\<not> is_ok r"
      | (saved) "?R (wd_disk w)" "path_components (tp_path t) \<noteq> path_components ?B"
          "\<forall>snap. r = Inr snap \<longrightarrow> ps_source snap = candidate \<and> private_at ?B (wd_disk w)"
      by (auto simp: ending_def)
    then show ?thesis
    proof cases
      case unchanged
      have "triple ?K (TemporaryPolicy_drop t') (\<lambda>_. ?K)"
        by (rule removal_restores [OF spares_drop]) (unfold path, rule assms(2))
      from tripleD [OF this w(1) unchanged(1) run] unchanged(2) show ?thesis
        by (auto simp: replacement_def is_ok_iff)
    next
      case stuck
      with run w(1) assms(3,4) show ?thesis by (auto simp: TemporaryPolicy_drop_def replacement_def)
    next
      case saved
      have kept: "triple ?R (TemporaryPolicy_drop t') (\<lambda>_. ?R)"
        using apartD [OF assms(2)] apartD [OF assms(2,1)] saved(2) path by (intro spares_replaced [OF spares_drop]) auto
      have secure: "triple (private_at ?B) (TemporaryPolicy_drop t') (\<lambda>_. private_at ?B)"
        using private_cleanup [of ?B t'] saved(2) path by (auto simp: TemporaryPolicy_drop_def intro: triple_return)
      show ?thesis
        using tripleD [OF kept w(1) saved(1) run] tripleD [OF secure w(1) _ run] saved(3)
        by (auto simp: replacement_def)
    qed
  qed
  then show ?thesis using drop_ok unfolding triple_def by blast
qed

lemma locked_triple:
  fixes env :: "'d policy_env"
  assumes "allocates_fresh env" and "holds d0 (ps_path expected) i0 b0"
  shows "triple (\<lambda>d. d = d0) (replace_locked env expected candidate) (replacement env d0 (ps_path expected) i0 b0 candidate)"
    (is "triple _ _ ?Q")
proof -
  let ?B = "recovery_policy_path (ps_path expected)"
  let ?placed = "\<lambda>t. \<exists>parent serial. path_parent (ps_path expected) = Some parent \<and> tp_path t = staging_path env parent serial"
  let ?install = "\<lambda>backup_exists t. st_bind (install_staged env expected backup_exists t) (\<lambda>(r, t').
      st_bind (TemporaryPolicy_drop t') (\<lambda>_. st_try r))"
  have install: "triple (staged_result d0 candidate (Inr t)) (?install backup_exists t) ?Q"
    if "backup_exists \<longrightarrow> (\<exists>j e. holds d0 ?B j e)" "?placed t" "apart d0 (tp_path t) (tp_file t)" for t backup_exists
  proof (rule triple_step)
    show "triple (staged_result d0 candidate (Inr t)) (install_staged env expected backup_exists t)
      (ended d0 (ps_path expected) i0 b0 (tp_path t) (tp_file t) candidate)"
      by (rule triple_conseq [OF install_triple [OF assms(2) that(3,1)]]) (simp_all add: staged_result_def)
  next
    fix res :: "(string + 'd PolicySnapshot) \<times> TemporaryPolicy"
    obtain r t' where res: "res = (r, t')" by fastforce
    from that(2) obtain parent serial where "path_parent (ps_path expected) = Some parent" "tp_path t = staging_path env parent serial"
      by blast
    from drop_triple [OF assms(2) that(3) this, of candidate r t']
    have dropped: "triple (ended d0 (ps_path expected) i0 b0 (tp_path t) (tp_file t) candidate (Inr res)) (TemporaryPolicy_drop t')
        (\<lambda>u d. is_ok u \<and> ?Q r d)"
      by (rule triple_conseq) (auto simp: ended_def res)
    show "triple (ended d0 (ps_path expected) i0 b0 (tp_path t) (tp_file t) candidate (Inr res))
        (case res of (r, t') \<Rightarrow> st_bind (TemporaryPolicy_drop t') (\<lambda>_. st_try r)) ?Q"
      using triple_step [OF dropped, of ?Q "\<lambda>_. st_try r"] by (simp add: res triple_try)
  qed (simp add: ended_def)
  have create: "triple (\<lambda>d. d = d0 \<and> \<phi>) (st_bind (TemporaryPolicy_create env (ps_path expected) candidate) (?install backup_exists)) ?Q"
    if "\<phi> \<Longrightarrow> backup_exists \<longrightarrow> (\<exists>j e. holds d0 ?B j e)" for \<phi> backup_exists
  proof (rule triple_pure, rule triple_step)
    show "triple (\<lambda>d. d = d0) (TemporaryPolicy_create env (ps_path expected) candidate)
        (\<lambda>r d. staged_result d0 candidate r d \<and> (\<forall>t. r = Inr t \<longrightarrow> ?placed t))"
      by (rule triple_result [OF triple_conseq [OF create_triple [OF assms(1), of d0]] create_path]) auto
  next
    fix t assume "\<phi>"
    show "triple (\<lambda>d. staged_result d0 candidate (Inr t) d \<and> (\<forall>t'. Inr t = Inr t' \<longrightarrow> ?placed t')) (?install backup_exists t) ?Q"
      using install [OF that [OF \<open>\<phi>\<close>], of t] unfolding triple_def by (auto simp: staged_result_def staged_def)
  qed (simp add: staged_result_def replacement_def)
  show ?thesis
    unfolding replace_locked_def
  proof (rule triple_step [OF read_policy_triple])
    fix current :: "'d PolicySnapshot"
    let ?seen = "\<lambda>d. d = d0 \<and> holds d (ps_path expected) (Inode (ps_device current) (ps_inode current)) (as_bytes (ps_source current))"
    have staging: "triple ?seen (st_bind (check_recovery_target env ?B) (\<lambda>backup_exists.
        st_bind (TemporaryPolicy_create env (ps_path expected) candidate) (?install backup_exists))) ?Q"
    proof (rule triple_step [OF recovery_check_sees])
      fix found
      show "triple (\<lambda>d. ?seen d \<and> (Inr found = Inr True \<longrightarrow> (\<exists>j e. holds d ?B j e)))
          (st_bind (TemporaryPolicy_create env (ps_path expected) candidate) (?install found)) ?Q"
        by (rule triple_conseq [OF create [of "found \<longrightarrow> (\<exists>j e. holds d0 ?B j e)" found]]) auto
    qed (simp add: replacement_def)
    show "triple (\<lambda>d. d = d0 \<and> (\<forall>snap. Inr current = Inr snap \<longrightarrow> holds d (ps_path expected) (Inode (ps_device snap) (ps_inode snap)) (as_bytes (ps_source snap))))
      (if \<not> same_snapshot expected current
       then st_fail ''configuration changed after it was read; reload before saving''
       else if candidate = ps_source current then st_return current
       else st_bind (check_recovery_target env ?B) (\<lambda>backup_exists.
        st_bind (TemporaryPolicy_create env (ps_path expected) candidate) (?install backup_exists))) ?Q"
      using staging holds_unique [OF assms(2)]
      by (auto simp: replacement_def intro!: triple_fail triple_return)
  qed (simp add: replacement_def)
qed

lemma replacement_locks: "replacement env d0 target' i0 b0 candidate r (d\<lparr>dk_locks := l\<rparr>)
    \<longleftrightarrow> replacement env d0 target' i0 b0 candidate r d"
  by (simp add: replacement_def replaced_def swapped_def kept_def private_at_def file_at_def)

lemma replace_policy_triple:
  assumes "allocates_fresh env" and "holds d0 (ps_path expected) i0 b0"
  shows "triple (\<lambda>d. d = d0) (replace_policy env expected candidate) (replacement env d0 (ps_path expected) i0 b0 candidate)"
    (is "triple _ _ ?Q")
proof -
  have locked: "triple (kept nothing d0) (replace_locked env expected candidate) ?Q"
  proof (rule triple_assume)
    fix d assume d: "kept nothing d0 d"
    with assms(2) have "holds d (ps_path expected) i0 b0" by (simp add: kept_def)
    from locked_triple [OF assms(1) this] show "triple (\<lambda>d'. d' = d) (replace_locked env expected candidate) ?Q"
      by (rule triple_conseq) (auto intro: replacement_further [OF d])
  qed
  have unlocked: "triple (?Q r) (st_bind (st_attempt (sys_unlock lock)) (\<lambda>_. st_try r)) ?Q" for r lock
    by (rule triple_attempt_bind [where R = "\<lambda>_. ?Q r"])
      (auto simp: sys_unlock_def replacement_locks intro!: triple_syscall triple_try)
  have session: "triple (\<lambda>d. d = d0) (st_bind (lock_policy_directory env (ps_path expected)) (\<lambda>lock.
      st_bind (st_attempt (replace_locked env expected candidate)) (\<lambda>r.
      st_bind (st_attempt (sys_unlock lock)) (\<lambda>_. st_try r)))) ?Q"
    by (rule triple_then [where R = "kept nothing d0", OF triple_conseq [OF sparesD [OF spares_lock [OF assms(1)], of nothing d0]]])
      (simp, assumption, simp add: replacement_def, rule triple_attempt_bind [OF locked unlocked])
  show ?thesis
    unfolding replace_policy_def
    by (rule triple_then [where R = "\<lambda>d. d = d0"])
      (auto simp: replacement_def intro!: triple_try session)
qed

section \<open>The first run creates, never overwrites\<close>

lemma spares_mkdir:
  assumes "allocates_fresh env"
  shows "spares x (sys_mkdir env k)"
  unfolding sys_mkdir_def
  by (rule spares_syscall) (use assms in \<open>auto simp: kept_def allocates_fresh_def holds_def split: option.split\<close>)

lemma spares_or_existing: "spares x (or_existing k e)"
  unfolding or_existing_def sys_is_dir_def by (intro spares_intros spares_syscall) simp

lemma spares_create_dir_all:
  assumes "allocates_fresh env"
  shows "spares x (create_dir_all env up)"
proof (induction up)
  case Nil
  show ?case by (auto intro: spares_intros)
next
  case (Cons c up)
  then show ?case
    by (auto intro!: spares_intros spares_mkdir [OF assms] spares_or_existing split: sum.split errno.split)
qed

text \<open>
  Nothing that exists is modified; a policy reported as created is the complete template.
\<close>

lemma first_run_triple:
  assumes "allocates_fresh env"
  shows "triple (kept nothing d0) (create_first_run_config env p) (\<lambda>r d. kept nothing d0 d
    \<and> (r = Inr True \<longrightarrow> (\<exists>c. apart d0 p c \<and> holds d p c (as_bytes (first_run_source env)))))"
    (is "triple _ _ ?Q")
proof -
  have gone: "triple (\<lambda>d. kept nothing d0 d \<and> apart d0 p c)
      (st_bind (st_attempt (sys_remove_file p)) (\<lambda>_. st_fail e)) ?Q" for c e
    by (rule triple_pure, rule triple_then [OF removal_restores [OF spares_attempt [OF spares_remove]]])
      (auto intro: triple_fail)
  have wrote: "triple (staged d0 p c []) (st_bind (st_attempt (sys_write_all c (as_bytes (first_run_source env)))) (\<lambda>written. case written of
      Inl e \<Rightarrow> st_bind (st_attempt (sys_remove_file p)) (\<lambda>_. st_fail (f e)) | Inr _ \<Rightarrow> st_return True)) ?Q" for c f
    by (rule triple_attempt_bind [OF write_stages])
      (auto simp: staged_def split: sum.split intro!: triple_return gone)
  have opened: "triple (kept nothing d0) (st_bind (st_attempt (sys_create_new env p)) (\<lambda>opened. case opened of
      Inl (AlreadyExists _) \<Rightarrow> st_return False | Inl e \<Rightarrow> st_fail (g e)
    | Inr c \<Rightarrow> st_bind (st_attempt (sys_write_all c (as_bytes (first_run_source env)))) (\<lambda>written. case written of
        Inl e \<Rightarrow> st_bind (st_attempt (sys_remove_file p)) (\<lambda>_. st_fail (f e)) | Inr _ \<Rightarrow> st_return True))) ?Q" for f g
    by (rule triple_attempt_bind [OF create_new_stages [OF assms]])
      (auto split: sum.split errno.split intro!: triple_return triple_fail wrote)
  show ?thesis
    unfolding create_first_run_config_def
    by (rule triple_then [OF triple_try], assumption, simp,
        rule triple_then [OF sparesD [OF spares_map_err [OF spares_create_dir_all [OF assms]]]], simp, rule opened)
qed

section \<open>A racing writer\<close>

text \<open>Where the inode found at the target by the exchange is afterwards: back at the target or preserved.\<close>

definition survives :: "string \<Rightarrow> string \<Rightarrow> inode \<Rightarrow> (inode \<rightharpoonup> disk_file)
    \<Rightarrow> 'e + (string + 'd PolicySnapshot) \<times> TemporaryPolicy \<Rightarrow> disk \<Rightarrow> bool" where
  "survives target' q j files r d \<longleftrightarrow> (\<exists>e t. r = Inr (Inl e, t) \<and> dk_inodes d = files \<and> tp_path t = q
    \<and> (dk_names d (path_components target') = Some j
       \<or> dk_names d (path_components q) = Some j \<and> \<not> tp_remove_on_drop t))"

lemma rollback_survives:
  assumes "dk_names d (path_components (tp_path t)) = Some j"
  shows "triple (\<lambda>d'. d' = d) (fail_after_rollback t target' meta message) (survives target' (tp_path t) j (dk_inodes d))"
proof -
  let ?kept = "\<lambda>r d'. case r of Inl _ \<Rightarrow> d' = d
    | Inr _ \<Rightarrow> dk_inodes d' = dk_inodes d \<and> dk_names d' (path_components target') = Some j"
  have "triple (\<lambda>d'. d' = d) (sys_exchange (tp_path t) target') ?kept"
    using assms by (intro triple_exchange) auto
  then have undone: "triple (\<lambda>d'. d' = d) (rollback_exchange (tp_path t) target' meta) ?kept"
    unfolding rollback_exchange_def
    by (intro triple_then [OF looksD [OF looks_map_err [OF looks_syscalls(1)]]])
      (auto simp: map_err_def split: sum.splits intro!: triple_fail triple_map_err elim!: triple_conseq)
  let ?M = "\<lambda>r d'. \<exists>o' t'. r = Inr (o', t') \<and> tp_path t' = tp_path t \<and> dk_inodes d' = dk_inodes d
    \<and> (dk_names d' (path_components target') = Some j
       \<or> dk_names d' (path_components (tp_path t)) = Some j \<and> \<not> tp_remove_on_drop t')"
  have "triple (\<lambda>d'. d' = d) (rollback_or_preserve t target' meta) ?M"
    unfolding rollback_or_preserve_def
    by (rule triple_attempt_bind [OF undone])
      (auto simp: TemporaryPolicy_preserve_def assms split: sum.split intro!: triple_return)
  then show ?thesis
    unfolding fail_after_rollback_def
    by (rule triple_step) (auto simp: survives_def split: sum.split intro!: triple_return)
qed

lemma unexpected_survives:
  assumes "dk_names d (path_components (tp_path t)) = Some j"
    and "\<not> holds d (tp_path t) (Inode (ps_device expected) (ps_inode expected)) (as_bytes (ps_source expected))"
  shows "triple (\<lambda>d'. d' = d) (confirm_displaced env expected backup_exists t meta)
    (survives (ps_path expected) (tp_path t) j (dk_inodes d))"
  unfolding confirm_displaced_def
proof (rule triple_attempt_bind [OF read_policy_triple])
  fix r :: "string + 'a PolicySnapshot"
  let ?P = "\<lambda>d'. d' = d \<and> (\<forall>snap. r = Inr snap \<longrightarrow> holds d' (tp_path t) (Inode (ps_device snap) (ps_inode snap)) (as_bytes (ps_source snap)))"
  let ?same = "case r of Inr snapshot \<Rightarrow> same_snapshot expected snapshot | Inl _ \<Rightarrow> False"
  have "\<not> ?same" if "?P d'" for d'
    using that assms(2) by (auto simp: same_snapshot_def split: sum.split)
  then show "triple ?P (if \<not> ?same then fail_after_rollback t (ps_path expected) meta (case r of
        Inr _ \<Rightarrow> ''configuration changed during replacement; no change was saved''
      | Inl e \<Rightarrow> ''configuration became unsafe during replacement; no change was saved: '' @ e)
    else retain_recovery env expected backup_exists t meta) (survives (ps_path expected) (tp_path t) j (dk_inodes d))"
    using rollback_survives [OF assms(1)] by (cases ?same) (auto intro: triple_assume triple_conseq)
qed

text \<open>
  C14. Replacing the policy is all or nothing, whichever system calls fail and wherever the process dies.
  With no other writer at work, at the end either every name still holds what it held, or the policy is
  the complete candidate and the old policy is kept, complete, under the recovery name, or, when the
  rollback itself failed, in the staging file of the policy's directory. Other names are never touched.
  A success returns the candidate and leaves a recovery copy nobody else can read.
\<close>

theorem replacement_all_or_nothing:
  assumes "quiet w" and "allocates_fresh env" and "holds (wd_disk w) (ps_path expected) i0 b0"
    and "replace_policy env expected candidate w = (r, w')"
  shows "replacement env (wd_disk w) (ps_path expected) i0 b0 candidate r (wd_disk w')"
  using tripleD [OF replace_policy_triple [OF assms(2,3)] assms(1) refl assms(4)] ..

text \<open>
  C15. A save that races with another writer never overwrites the other policy. Let another process do
  anything to the disk after the candidate is staged and before the exchange, short of touching the
  staging file itself. When the policy the exchange then displaces is not the one the caller had read, the
  call fails, and the displaced file is unmodified and either back under the policy's name or preserved
  in the staging file, whatever calls fail afterwards.
\<close>

theorem racing_policy_survives:
  assumes "wd_script w = inspect # install # later" and "ss_race inspect = None" and "ss_failure inspect = None"
    and "ss_race install = Some f" and "list_all (\<lambda>s. ss_race s = None) later"
    and "d = f (wd_disk w)" and "dk_inodes (wd_disk w) (tp_file t) \<noteq> None"
    and "dk_names d (path_components (tp_path t)) = Some (tp_file t)"
    and "path_components (tp_path t) \<noteq> path_components (ps_path expected)"
    and "dk_names d (path_components (ps_path expected)) = Some j"
    and "\<not> holds d (ps_path expected) (Inode (ps_device expected) (ps_inode expected)) (as_bytes (ps_source expected))"
    and "install_staged env expected backup_exists t w = (r, w')"
  shows "survives (ps_path expected) (tp_path t) j (dk_inodes d) r (wd_disk w')"
proof -
  let ?T = "path_components (ps_path expected)" and ?q = "path_components (tp_path t)"
  let ?d = "d\<lparr>dk_names := (dk_names d)(?q \<mapsto> j, ?T \<mapsto> tp_file t)\<rparr>"
  let ?u = "w\<lparr>wd_disk := ?d, wd_script := later\<rparr>"
  obtain sf where "dk_inodes (wd_disk w) (tp_file t) = Some sf" using assms(7) by blast
  then have first: "sys_fstat (tp_file t) w = (Inr (metadata_of (tp_file t) sf), w\<lparr>wd_script := install # later\<rparr>)"
    by (simp add: sys_fstat_def sys_def assms(1-3))
  show ?thesis
  proof (cases "ss_failure install")
    case None
    then have "sys_exchange (tp_path t) (ps_path expected) (w\<lparr>wd_script := install # later\<rparr>) = (Inr (), ?u)"
      using assms(4,6,8,10) by (simp add: sys_exchange_def sys_def Let_def)
    with first assms(12) have run: "confirm_displaced env expected backup_exists t (metadata_of (tp_file t) sf) ?u = (r, w')"
      by (simp add: install_staged_def st_bind_def st_attempt_def st_map_err_def map_err_def)
    have "\<not> holds ?d (tp_path t) (Inode (ps_device expected) (ps_inode expected)) (as_bytes (ps_source expected))"
      using assms(9-11) by (auto simp: holds_def)
    from tripleD [OF unexpected_survives [OF _ this] _ _ run, of j] assms(5,9) show ?thesis
      by (simp add: quiet_def)
  next
    case (Some failure)
    then show ?thesis
      using first assms(4,6,10,12)
      by (cases failure) (auto simp: install_staged_def st_bind_def st_attempt_def st_map_err_def map_err_def
          sys_exchange_def sys_def survives_def)
  qed
qed

section \<open>A concrete run\<close>

definition demo_policy_env :: "string policy_env" where
  "demo_policy_env = \<lparr>pe_uid = 1000, pe_pid = 5, pe_umask = 0,
    pe_alloc = (\<lambda>d. List.find (\<lambda>i. dk_inodes d i = None) [Inode 1 3, Inode 1 4]),
    pe_toml = (\<lambda>_. Inr demo_policy), pe_document = Inr\<rparr>"

definition demo_policy_disk :: disk where
  "demo_policy_disk = \<lparr>dk_names = [[''/''] \<mapsto> Inode 1 1, [''/'', ''c''] \<mapsto> Inode 1 2],
    dk_inodes = [Inode 1 1 \<mapsto> \<lparr>fi_kind = Kind_Directory, fi_uid = 0, fi_mode = 493, fi_data = []\<rparr>,
      Inode 1 2 \<mapsto> \<lparr>fi_kind = Kind_Regular, fi_uid = 1000, fi_mode = 384, fi_data = as_bytes ''a''\<rparr>],
    dk_locks = {}\<rparr>"

definition demo_policy_world :: world where
  "demo_policy_world = \<lparr>wd_disk = demo_policy_disk, wd_script = [], wd_serial = 1\<rparr>"

definition demo_expected :: "string PolicySnapshot" where
  "demo_expected = \<lparr>ps_path = ''/c'', ps_source = ''a'', ps_enabled = True, ps_device = 1, ps_inode = 2,
    ps_draft = \<lparr>draft_raw = demo_policy, draft_document = ''a''\<rparr>\<rparr>"

lemma demo_env: "pe_uid demo_policy_env = 1000" "pe_umask demo_policy_env = 0" "pe_toml demo_policy_env s = Inr demo_policy"
  "pe_alloc demo_policy_env d = List.find (\<lambda>i. dk_inodes d i = None) [Inode 1 3, Inode 1 4]"
  by (simp_all add: demo_policy_env_def)

lemma demo_allocates: "allocates_fresh demo_policy_env"
  by (auto simp: allocates_fresh_def demo_policy_env_def split: if_splits)

lemma split_on_sep: "split_on c (c # xs) = [] # split_on c xs"
  by simp

lemma demo_policy_paths:
  "path_components ''/'' = [''/'']" "path_components ''/c'' = [''/'', ''c'']" "path_components ''/c.previous'' = [''/'', ''c.previous'']"
  "path_components ''/.agent-seat-config.lock'' = [''/'', ''.agent-seat-config.lock'']"
  "path_components ''/.agent-seat-config.5.1.tmp'' = [''/'', ''.agent-seat-config.5.1.tmp'']"
  by (simp_all add: path_components_def is_absolute_def split_on_free split_on_sep del: split_on.simps(2))

lemma demo_places:
  "path_parent ''/c'' = Some ''/''" "recovery_policy_path ''/c'' = ''/c.previous''"
  "staging_path demo_policy_env ''/'' 1 = ''/.agent-seat-config.5.1.tmp''"
  "path_join ''/'' ''.agent-seat-config.lock'' = ''/.agent-seat-config.lock''"
proof -
  show "path_parent ''/c'' = Some ''/''" by (simp add: path_parent_def demo_policy_paths)
  show "recovery_policy_path ''/c'' = ''/c.previous''" by (simp add: recovery_policy_path_def suffixed_path_def)
  have "decimal 5 = ''5''" "decimal 1 = ''1''" by (simp_all add: decimal.simps char_of_def bit_0)
  then show "staging_path demo_policy_env ''/'' 1 = ''/.agent-seat-config.5.1.tmp''"
    by (simp add: staging_path_def path_join_def is_absolute_def demo_policy_env_def)
  show "path_join ''/'' ''.agent-seat-config.lock'' = ''/.agent-seat-config.lock''"
    by (simp add: path_join_def is_absolute_def)
qed

lemma demo_holds: "holds (wd_disk demo_policy_world) (ps_path demo_expected) (Inode 1 2) (as_bytes ''a'')"
  by (simp add: holds_def demo_policy_world_def demo_policy_disk_def demo_expected_def demo_policy_paths)

lemma demo_read:
  assumes "wd_script w = []" and "is_absolute p" and "dk_names (wd_disk w) (path_components p) = Some i"
    and "dk_inodes (wd_disk w) i = Some \<lparr>fi_kind = Kind_Regular, fi_uid = 1000, fi_mode = 384, fi_data = as_bytes s\<rparr>"
    and "from_utf8 (as_bytes s) = Some s" and "length s \<le> MAX_CONFIG_BYTES"
  shows "\<exists>snap. read_policy demo_policy_env p w = (Inr snap, w) \<and> ps_source snap = s \<and> ps_device snap = in_dev i
    \<and> ps_inode snap = in_ino i"
proof -
  obtain cfg where "RawConfig_validate 1000 demo_policy = Inr cfg" using demo_policy_config by blast
  then have "validate_source (pe_toml demo_policy_env) s 1000 = Inr (True, cfg, demo_policy)"
    using assms(6) by (simp add: validate_source_def demo_policy_env_def) (simp add: demo_policy_def)
  moreover have "file_behind MAX_LINKS (wd_disk w) p = Inr (i, \<lparr>fi_kind = Kind_Regular, fi_uid = 1000, fi_mode = 384, fi_data = as_bytes s\<rparr>)"
    using assms(3,4) by (simp add: MAX_LINKS_def eval_nat_numeral file_at_def)
  ultimately show ?thesis
    using assms
    by (simp add: read_policy_def Config_read_def st_bind_def st_run st_map_err_def map_err_def sys_symlink_metadata_def
        sys_open_def sys_fstat_def sys_read_to_end_def sys_def file_at_def metadata_of_def map_ok_def ok_or_def
        demo_policy_env_def)
qed

text \<open>The disk after each stage: locked, staged, exchanged, with the recovery copy in place.\<close>

abbreviation demo_file :: "string \<Rightarrow> disk_file" where
  "demo_file s \<equiv> \<lparr>fi_kind = Kind_Regular, fi_uid = 1000, fi_mode = 384, fi_data = as_bytes s\<rparr>"

abbreviation demo_at :: "(string list \<rightharpoonup> inode) \<Rightarrow> (inode \<rightharpoonup> disk_file) \<Rightarrow> inode set \<Rightarrow> u64 \<Rightarrow> world" where
  "demo_at names inodes locks serial \<equiv> \<lparr>wd_disk = \<lparr>dk_names = names, dk_inodes = inodes, dk_locks = locks\<rparr>, wd_script = [], wd_serial = serial\<rparr>"

definition demo_names :: "string list \<rightharpoonup> inode" where
  "demo_names = [[''/''] \<mapsto> Inode 1 1, [''/'', ''c''] \<mapsto> Inode 1 2, [''/'', ''.agent-seat-config.lock''] \<mapsto> Inode 1 3]"

definition demo_inodes :: "inode \<rightharpoonup> disk_file" where
  "demo_inodes = [Inode 1 1 \<mapsto> \<lparr>fi_kind = Kind_Directory, fi_uid = 0, fi_mode = 493, fi_data = []\<rparr>,
      Inode 1 2 \<mapsto> demo_file ''a'', Inode 1 3 \<mapsto> demo_file []]"

lemmas demo_steps = Let_def st_bind_def st_run st_map_err_def map_err_def st_attempt_def sys_def file_at_def metadata_of_def
  ok_or_def on_inode_def create_at_def demo_env

lemma demo_lock: "lock_policy_directory demo_policy_env ''/c'' demo_policy_world
    = (Inr (Inode 1 3), demo_at demo_names demo_inodes {Inode 1 3} 1)"
  by (simp add: lock_policy_directory_def demo_places demo_steps sys_open_or_create_def sys_fstat_def sys_fchmod_def
      sys_flock_def demo_policy_paths demo_policy_world_def demo_policy_disk_def demo_names_def demo_inodes_def as_bytes_def)

lemma demo_create: "TemporaryPolicy_create demo_policy_env ''/c'' ''b'' (demo_at demo_names demo_inodes {Inode 1 3} 1)
    = (Inr \<lparr>tp_path = ''/.agent-seat-config.5.1.tmp'', tp_file = Inode 1 4, tp_remove_on_drop = True\<rparr>,
       demo_at (demo_names([''/'', ''.agent-seat-config.5.1.tmp''] \<mapsto> Inode 1 4)) (demo_inodes(Inode 1 4 \<mapsto> demo_file ''b'')) {Inode 1 3} 2)"
proof -
  have attempts: "TRANSACTION_ATTEMPTS = Suc 15" by (simp add: TRANSACTION_ATTEMPTS_def)
  show ?thesis
    unfolding TemporaryPolicy_create_def attempts stage_attempts.simps(2)
    by (simp add: demo_places next_serial_def
        write_staged_def demo_steps sys_create_new_def sys_fchmod_def sys_write_all_def sys_fsync_def overwrite_def
        demo_policy_paths demo_names_def demo_inodes_def as_bytes_def)
qed

definition demo_staged :: TemporaryPolicy where
  "demo_staged = \<lparr>tp_path = ''/.agent-seat-config.5.1.tmp'', tp_file = Inode 1 4, tp_remove_on_drop = True\<rparr>"

lemma demo_utf8: "from_utf8 (as_bytes ''a'') = Some ''a''" "from_utf8 (as_bytes ''b'') = Some ''b''"
  by (simp_all add: from_utf8_def as_bytes_def char_of_def bit_0)

lemma demo_install: "\<exists>snap w. install_staged demo_policy_env demo_expected False demo_staged
      (demo_at (demo_names([''/'', ''.agent-seat-config.5.1.tmp''] \<mapsto> Inode 1 4)) (demo_inodes(Inode 1 4 \<mapsto> demo_file ''b'')) {Inode 1 3} 2)
    = (Inr (Inr snap, demo_staged), w) \<and> ps_source snap = ''b''"
proof -
  let ?names = "demo_names([''/'', ''.agent-seat-config.5.1.tmp''] \<mapsto> Inode 1 2, [''/'', ''c''] \<mapsto> Inode 1 4)"
  let ?inodes = "demo_inodes(Inode 1 4 \<mapsto> demo_file ''b'')"
  let ?final = "?names([''/'', ''.agent-seat-config.5.1.tmp''] := None, [''/'', ''c.previous''] \<mapsto> Inode 1 2)"
  obtain displaced where displaced: "read_policy demo_policy_env ''/.agent-seat-config.5.1.tmp'' (demo_at ?names ?inodes {Inode 1 3} 2)
      = (Inr displaced, demo_at ?names ?inodes {Inode 1 3} 2)"
    and same: "ps_source displaced = ''a''" "ps_device displaced = 1" "ps_inode displaced = 2"
    using demo_read [of "demo_at ?names ?inodes {Inode 1 3} 2" "''/.agent-seat-config.5.1.tmp''" "Inode 1 2" "''a''"]
    by (auto simp: demo_policy_paths is_absolute_def demo_utf8 MAX_CONFIG_BYTES_def demo_inodes_def)
  obtain snap where snap: "read_policy demo_policy_env ''/c'' (demo_at ?final ?inodes {Inode 1 3} 2)
      = (Inr snap, demo_at ?final ?inodes {Inode 1 3} 2)" "ps_source snap = ''b''"
    using demo_read [of "demo_at ?final ?inodes {Inode 1 3} 2" "''/c''" "Inode 1 4" "''b''"]
    by (auto simp: demo_policy_paths is_absolute_def demo_utf8 MAX_CONFIG_BYTES_def)
  have 1: "install_staged demo_policy_env demo_expected False demo_staged
      (demo_at (demo_names([''/'', ''.agent-seat-config.5.1.tmp''] \<mapsto> Inode 1 4)) ?inodes {Inode 1 3} 2)
    = confirm_displaced demo_policy_env demo_expected False demo_staged (metadata_of (Inode 1 4) (demo_file ''b''))
       (demo_at ?names ?inodes {Inode 1 3} 2)"
    by (simp add: install_staged_def demo_steps sys_fstat_def sys_exchange_def demo_policy_paths demo_staged_def demo_expected_def
        demo_names_def)
  have 2: "\<dots> = retain_recovery demo_policy_env demo_expected False demo_staged (metadata_of (Inode 1 4) (demo_file ''b''))
       (demo_at ?names ?inodes {Inode 1 3} 2)"
    using displaced same by (simp add: confirm_displaced_def st_bind_def st_attempt_def demo_staged_def same_snapshot_def demo_expected_def)
  have chmod: "sys_chmod ''/c.previous'' 384 (demo_at ?final ?inodes {Inode 1 3} 2) = (Inr (), demo_at ?final ?inodes {Inode 1 3} 2)"
    by (simp add: sys_chmod_def sys_def MAX_LINKS_def eval_nat_numeral file_at_def demo_policy_paths on_inode_def demo_inodes_def fun_upd_twist fun_upd_idem)
  have 3: "\<exists>w. finish_replacement demo_policy_env demo_expected demo_staged (demo_at ?final ?inodes {Inode 1 3} 2) = (Inr snap, w)"
    using snap chmod by (simp add: finish_replacement_def demo_steps demo_expected_def demo_places TemporaryPolicy_cleanup_def
        sys_remove_file_def demo_staged_def demo_policy_paths sync_directory_def sys_open_def MAX_LINKS_def eval_nat_numeral demo_names_def
        demo_inodes_def map_ok_def sys_fsync_def)
  show ?thesis
    unfolding 1 2 using 3 snap(2)
    by (auto simp: retain_recovery_def demo_steps sys_rename_noreplace_def demo_places demo_expected_def demo_staged_def demo_policy_paths demo_names_def)
qed

lemma demo_replace: "\<exists>snap w. replace_policy demo_policy_env demo_expected ''b'' demo_policy_world = (Inr snap, w) \<and> ps_source snap = ''b''"
proof -
  let ?locked = "demo_at demo_names demo_inodes {Inode 1 3} 1"
  obtain current where current: "read_policy demo_policy_env ''/c'' ?locked = (Inr current, ?locked)"
    and same: "ps_source current = ''a''" "ps_device current = 1" "ps_inode current = 2"
    using demo_read [of ?locked "''/c''" "Inode 1 2" "''a''"]
    by (auto simp: demo_policy_paths is_absolute_def demo_utf8 MAX_CONFIG_BYTES_def demo_inodes_def demo_names_def)
  have vacant: "check_recovery_target demo_policy_env ''/c.previous'' ?locked = (Inr False, ?locked)"
    by (simp add: check_recovery_target_def demo_steps sys_symlink_metadata_def demo_policy_paths demo_names_def)
  obtain snap w where installed: "install_staged demo_policy_env demo_expected False demo_staged
      (demo_at (demo_names([''/'', ''.agent-seat-config.5.1.tmp''] \<mapsto> Inode 1 4)) (demo_inodes(Inode 1 4 \<mapsto> demo_file ''b'')) {Inode 1 3} 2)
    = (Inr (Inr snap, demo_staged), w)" "ps_source snap = ''b''"
    using demo_install by blast
  obtain u where drop: "TemporaryPolicy_drop demo_staged w = ((Inr () :: string + unit), u)"
    using drop_ok by (metis is_ok_iff old.unit.exhaust surj_pair)
  have locked: "replace_locked demo_policy_env demo_expected ''b'' ?locked = (Inr snap, u)"
    unfolding replace_locked_def
    using current vacant demo_create installed(1) drop same
    by (simp add: demo_expected_def [THEN arg_cong [where f = ps_path]] demo_expected_def [THEN arg_cong [where f = ps_source]]
        demo_expected_def [THEN arg_cong [where f = ps_device]] demo_expected_def [THEN arg_cong [where f = ps_inode]]
        same_snapshot_def demo_places demo_staged_def st_bind_def st_run)
  obtain cfg where "RawConfig_validate 1000 demo_policy = Inr cfg" using demo_policy_config by blast
  then have "\<exists>x. validate_source (pe_toml demo_policy_env) ''b'' 1000 = Inr x"
    by (simp add: validate_source_def demo_env MAX_CONFIG_BYTES_def)
  moreover have "st_bind (st_attempt (sys_unlock lock)) (\<lambda>_. st_try r) w = (r, snd (sys_unlock lock w))"
    for lock and r :: "string + string PolicySnapshot" and w
    by (simp add: st_bind_def st_attempt_def st_run split: prod.split)
  ultimately show ?thesis
    using demo_lock locked installed(2)
    by (auto simp: replace_policy_def demo_expected_def [THEN arg_cong [where f = ps_path]] demo_env st_bind_eq_Inr
        map_err_def) (auto simp: st_bind_def st_attempt_def)
qed

theorem replacement_all_or_nothing_witness:
  "\<exists>snap w. replace_policy demo_policy_env demo_expected ''b'' demo_policy_world = (Inr snap, w)
    \<and> replacement demo_policy_env (wd_disk demo_policy_world) ''/c'' (Inode 1 2) (as_bytes ''a'') ''b'' (Inr snap) (wd_disk w)"
proof -
  obtain snap w where run: "replace_policy demo_policy_env demo_expected ''b'' demo_policy_world = (Inr snap, w)"
    using demo_replace by blast
  have "quiet demo_policy_world" by (simp add: quiet_def demo_policy_world_def)
  from replacement_all_or_nothing [OF this demo_allocates demo_holds run] run show ?thesis
    by (auto simp: demo_expected_def)
qed

text \<open>Another writer installs its own policy, with a new inode, just before the exchange.\<close>

definition demo_race :: "disk \<Rightarrow> disk" where
  "demo_race d = d\<lparr>dk_names := (dk_names d)([''/'', ''c''] \<mapsto> Inode 1 9), dk_inodes := (dk_inodes d)(Inode 1 9 \<mapsto> demo_file ''z'')\<rparr>"

definition demo_raced_world :: world where
  "demo_raced_world = \<lparr>wd_disk = \<lparr>dk_names = demo_names([''/'', ''.agent-seat-config.5.1.tmp''] \<mapsto> Inode 1 4),
      dk_inodes = demo_inodes(Inode 1 4 \<mapsto> demo_file ''b''), dk_locks = {Inode 1 3}\<rparr>,
    wd_script = [\<lparr>ss_race = None, ss_failure = None\<rparr>, \<lparr>ss_race = Some demo_race, ss_failure = None\<rparr>,
      \<lparr>ss_race = None, ss_failure = Some (Errno ''I/O error'', 0)\<rparr>], wd_serial = 2\<rparr>"

theorem racing_policy_survives_witness:
  "\<exists>r w. install_staged demo_policy_env demo_expected False demo_staged demo_raced_world = (r, w)
    \<and> survives ''/c'' (tp_path demo_staged) (Inode 1 9) (dk_inodes (demo_race (wd_disk demo_raced_world))) r (wd_disk w)"
proof -
  obtain r w where run: "install_staged demo_policy_env demo_expected False demo_staged demo_raced_world
      = (r :: string + (string + string PolicySnapshot) \<times> TemporaryPolicy, w)"
    by fastforce
  have script: "wd_script demo_raced_world = \<lparr>ss_race = None, ss_failure = None\<rparr> # \<lparr>ss_race = Some demo_race, ss_failure = None\<rparr>
      # [\<lparr>ss_race = None, ss_failure = Some (Errno ''I/O error'', 0)\<rparr>]"
    by (simp add: demo_raced_world_def)
  have "survives (ps_path demo_expected) (tp_path demo_staged) (Inode 1 9) (dk_inodes (demo_race (wd_disk demo_raced_world))) r (wd_disk w)"
    by (rule racing_policy_survives [where f = demo_race, OF script _ _ _ _ refl _ _ _ _ _ run])
      (simp_all add: demo_raced_world_def demo_race_def demo_staged_def demo_expected_def demo_policy_paths holds_def)
  with run show ?thesis by (auto simp: demo_expected_def)
qed

end
