(* ===== verification/Device_Set.thy ===== *)
theory Device_Set
  imports Desktop_Entry Observer_Scan
begin

text \<open>
  The two private deployment records of the activity broker: the reviewed device set
  (\<^verbatim>\<open>agent-seat-activity-broker/src/device_set.rs\<close>) and the initial input set
  (\<^verbatim>\<open>initial_input_set.rs\<close>), their encoders, strict decoders and validation, with the proofs that
  decoding accepts exactly what encoding produces.
\<close>

section \<open>Parsing of the standard library\<close>

text \<open>\<^verbatim>\<open>str::parse::<u32>\<close>: an optional plus sign and decimal digits within range.\<close>

definition parse_u32 :: "string \<Rightarrow> u32 option" where
  "parse_u32 s = (let digits = (case s of c # r \<Rightarrow> if c = CHR ''+'' then r else s | [] \<Rightarrow> s) in
    if digits = [] \<or> \<not> list_all is_digit digits \<or> decimal_value 0 digits \<ge> 2 ^ 32 then None
    else Some (of_nat (decimal_value 0 digits)))"

fun strip_prefix :: "string \<Rightarrow> string \<Rightarrow> string option" where
  "strip_prefix [] s = Some s"
| "strip_prefix (p # ps) (c # cs) = (if p = c then strip_prefix ps cs else None)"
| "strip_prefix (p # ps) [] = None"

section \<open>Device records\<close>

definition MAX_EVENT_DESCRIPTORS :: nat where "MAX_EVENT_DESCRIPTORS = 32"
definition MAX_DEVICE_SET_BYTES :: nat where "MAX_DEVICE_SET_BYTES = 64 * 1024"
definition MAX_VALUE_BYTES :: nat where "MAX_VALUE_BYTES = 1024"
definition MAX_CAPABILITY_VALUE_BYTES :: nat where "MAX_CAPABILITY_VALUE_BYTES = 4096"

definition DEVICE_SET_HEADER :: string where
  "DEVICE_SET_HEADER = ''agent-seat-device-set'' @ [CHR 0x09] @ ''1'' @ [CHR 0x0A]"

datatype DeviceSetError = DS_Invalid | DS_TooLarge

datatype IdentityStrength = Topology | Serial

record DeviceIdentity =
  di_path :: string
  di_bus :: "string option"
  di_vendor :: "string option"
  di_model :: "string option"
  di_revision :: "string option"
  di_serial :: "string option"

record DeviceCapabilities =
  dc_values :: "string list"

datatype CapabilityKind =
  Kind_Absolute | Kind_Event | Kind_ForceFeedback | Kind_Key | Kind_Led | Kind_Misc | Kind_Relative | Kind_Sound
| Kind_Switch | Kind_Property

record EnrolledDevice =
  ed_event_number :: u32
  ed_sysfs_path :: string
  ed_classes :: "string list"
  ed_identity :: DeviceIdentity
  ed_capabilities :: DeviceCapabilities

definition validate_value :: "string \<Rightarrow> DeviceSetError + unit" where
  "validate_value v =
    (if v = [] \<or> v = ''-'' \<or> length v > MAX_VALUE_BYTES \<or> \<not> list_all (\<lambda>c. 32 \<le> code_of c \<and> code_of c \<le> 126) v
     then Inl DS_Invalid else Inr ())"

definition contains_double_space :: "string \<Rightarrow> bool" where
  "contains_double_space v \<longleftrightarrow> list_ex (\<lambda>i. v ! i = CHR '' '' \<and> v ! Suc i = CHR '' '') [0..<length v - 1]"

definition validate_capability_value :: "string \<Rightarrow> DeviceSetError + unit" where
  "validate_capability_value v =
    (if v = [] \<or> length v > MAX_CAPABILITY_VALUE_BYTES \<or> hd v = CHR '' '' \<or> last v = CHR '' ''
       \<or> contains_double_space v
       \<or> \<not> list_all (\<lambda>c. c = CHR '' '' \<or> is_digit c \<or> (97 \<le> code_of c \<and> code_of c \<le> 102)) v
     then Inl DS_Invalid else Inr ())"

text \<open>A loop of \<^verbatim>\<open>?\<close> checks.\<close>

fun check_all :: "('a \<Rightarrow> 'e + unit) \<Rightarrow> 'a list \<Rightarrow> 'e + unit" where
  "check_all f [] = Inr ()"
| "check_all f (x # xs) = res_bind (f x) (\<lambda>_. check_all f xs)"

definition DeviceIdentity_new :: "string \<Rightarrow> string option \<Rightarrow> string option \<Rightarrow> string option \<Rightarrow> string option
    \<Rightarrow> string option \<Rightarrow> DeviceSetError + DeviceIdentity" where
  "DeviceIdentity_new path bus vendor model revision serial =
    res_bind (validate_value path) (\<lambda>_.
    res_bind (check_all validate_value (List.map_filter id [bus, vendor, model, revision, serial])) (\<lambda>_.
    if (vendor = None) \<noteq> (model = None) then Inl DS_Invalid
    else Inr \<lparr>di_path = path, di_bus = bus, di_vendor = vendor, di_model = model, di_revision = revision,
      di_serial = serial\<rparr>))"

definition strength :: "DeviceIdentity \<Rightarrow> IdentityStrength" where
  "strength d = (if di_serial d \<noteq> None then Serial else Topology)"

definition DeviceCapabilities_new :: "string list \<Rightarrow> DeviceSetError + DeviceCapabilities" where
  "DeviceCapabilities_new vs = res_bind (check_all validate_capability_value vs) (\<lambda>_. Inr \<lparr>dc_values = vs\<rparr>)"

text \<open>The set bits of a kernel bitmap, 64 to a word, the last word first.\<close>

definition hex_value :: "char \<Rightarrow> nat" where
  "hex_value c = (if is_digit c then code_of c - 48 else code_of c - 87)"

definition is_hex :: "char \<Rightarrow> bool" where
  "is_hex c \<longleftrightarrow> is_digit c \<or> (97 \<le> code_of c \<and> code_of c \<le> 102)"

definition parse_hex_word :: "string \<Rightarrow> u64" where
  "parse_hex_word w = (let v = foldl (\<lambda>a c. 16 * a + hex_value c) 0 w in
     if w = [] \<or> \<not> list_all is_hex w \<or> v \<ge> 2 ^ 64 then 0 else of_nat v)"

definition bitmap_codes :: "string \<Rightarrow> nat list" where
  "bitmap_codes v = sort (concat (map (\<lambda>(word_index, word).
     filter (\<lambda>code. code < 2 ^ 16)
       (map (\<lambda>i. word_index * 64 + i) (filter (\<lambda>i. bit (parse_hex_word word) i) [0..<64])))
     (enumerate 0 (rev (split_on CHR '' '' v)))))"

fun capability_index :: "CapabilityKind \<Rightarrow> nat" where
  "capability_index Kind_Absolute = 0"
| "capability_index Kind_Event = 1"
| "capability_index Kind_ForceFeedback = 2"
| "capability_index Kind_Key = 3"
| "capability_index Kind_Led = 4"
| "capability_index Kind_Misc = 5"
| "capability_index Kind_Relative = 6"
| "capability_index Kind_Sound = 7"
| "capability_index Kind_Switch = 8"
| "capability_index Kind_Property = 9"

definition capability_matches :: "DeviceCapabilities \<Rightarrow> CapabilityKind \<Rightarrow> nat list \<Rightarrow> bool" where
  "capability_matches caps k actual \<longleftrightarrow> bitmap_codes (dc_values caps ! capability_index k) = actual"

definition event_name :: "u32 \<Rightarrow> string" where
  "event_name n = ''event'' @ decimal (unat n)"

definition sysfs_components_ok :: "u32 \<Rightarrow> string \<Rightarrow> bool" where
  "sysfs_components_ok n p \<longleftrightarrow> take 3 (path_components p) = [''/'', ''sys'', ''devices'']
    \<and> last (path_components p) = event_name n \<and> ''..'' \<notin> set (path_components p)"

definition validate_sysfs_path :: "u32 \<Rightarrow> string \<Rightarrow> DeviceSetError + unit" where
  "validate_sysfs_path n p = (if \<not> is_absolute p \<or> \<not> sysfs_components_ok n p then Inl DS_Invalid else Inr ())"

definition ALLOWED_CLASSES :: "string list" where
  "ALLOWED_CLASSES = [''key'', ''keyboard'', ''mouse'', ''touchpad'', ''touchscreen'', ''tablet'']"

definition position :: "'a \<Rightarrow> 'a list \<Rightarrow> nat option" where
  "position a xs = List.find (\<lambda>i. xs ! i = a) [0..<length xs]"

fun check_classes :: "nat option \<Rightarrow> string list \<Rightarrow> string list \<Rightarrow> DeviceSetError + unit" where
  "check_classes previous seen [] = Inr ()"
| "check_classes previous seen (c # cs) = (case position c ALLOWED_CLASSES of
       None \<Rightarrow> Inl DS_Invalid
     | Some pos \<Rightarrow>
         if (case previous of Some q \<Rightarrow> q \<ge> pos | None \<Rightarrow> False) \<or> c \<in> set seen then Inl DS_Invalid
         else check_classes (Some pos) (c # seen) cs)"

definition validate_classes :: "string list \<Rightarrow> DeviceSetError + unit" where
  "validate_classes cs = (if cs = [] \<or> length cs > 6 then Inl DS_Invalid else check_classes None [] cs)"

definition EnrolledDevice_new :: "u32 \<Rightarrow> string \<Rightarrow> string list \<Rightarrow> DeviceIdentity \<Rightarrow> DeviceCapabilities
    \<Rightarrow> DeviceSetError + EnrolledDevice" where
  "EnrolledDevice_new n p classes identity capabilities =
    res_bind (validate_sysfs_path n p) (\<lambda>_.
    res_bind (validate_classes classes) (\<lambda>_.
    Inr \<lparr>ed_event_number = n, ed_sysfs_path = p, ed_classes = classes, ed_identity = identity,
      ed_capabilities = capabilities\<rparr>))"

section \<open>The device-set record\<close>

definition optional :: "string option \<Rightarrow> string" where
  "optional v = (case v of None \<Rightarrow> ''-'' | Some s \<Rightarrow> s)"

definition parse_optional :: "string \<Rightarrow> DeviceSetError + string option" where
  "parse_optional v = (if v = ''-'' then Inr None else res_bind (validate_value v) (\<lambda>_. Inr (Some v)))"

definition device_fields :: "EnrolledDevice \<Rightarrow> string list" where
  "device_fields d =
    [event_name (ed_event_number d), ed_sysfs_path d, join_on CHR '','' (ed_classes d), di_path (ed_identity d),
     optional (di_bus (ed_identity d)), optional (di_vendor (ed_identity d)), optional (di_model (ed_identity d)),
     optional (di_revision (ed_identity d)), optional (di_serial (ed_identity d))]
    @ dc_values (ed_capabilities d)"

definition device_line :: "EnrolledDevice \<Rightarrow> string" where
  "device_line d = join_on CHR 0x09 (device_fields d) @ [CHR 0x0A]"

fun encode_devices :: "u32 option \<Rightarrow> string \<Rightarrow> EnrolledDevice list \<Rightarrow> DeviceSetError + string" where
  "encode_devices previous output [] = Inr output"
| "encode_devices previous output (d # ds) =
    (if (case previous of Some n \<Rightarrow> n \<ge> ed_event_number d | None \<Rightarrow> False) then Inl DS_Invalid
     else
       res_bind (validate_sysfs_path (ed_event_number d) (ed_sysfs_path d)) (\<lambda>_.
       res_bind (validate_classes (ed_classes d)) (\<lambda>_.
       let output = output @ device_line d in
       if length output > MAX_DEVICE_SET_BYTES then Inl DS_TooLarge
       else encode_devices (Some (ed_event_number d)) output ds)))"

definition encode_device_set :: "EnrolledDevice list \<Rightarrow> DeviceSetError + byte list" where
  "encode_device_set ds =
    (if ds = [] \<or> length ds > MAX_EVENT_DESCRIPTORS then Inl DS_TooLarge
     else map_ok as_bytes (encode_devices None DEVICE_SET_HEADER ds))"

definition canonical_event_number :: "string \<Rightarrow> DeviceSetError + u32" where
  "canonical_event_number v =
    res_bind (ok_or (strip_prefix ''event'' v) DS_Invalid) (\<lambda>digits.
    res_bind (ok_or (parse_u32 digits) DS_Invalid) (\<lambda>number.
    if decimal (unat number) \<noteq> digits then Inl DS_Invalid else Inr number))"

definition decode_device :: "string \<Rightarrow> DeviceSetError + EnrolledDevice" where
  "decode_device line = (case split_on CHR 0x09 line of
     [event, sysfs, classes, path, bus, vendor, model, revision, serial,
      absolute, ev, ff, key, led, msc, rel, snd', sw, properties] \<Rightarrow>
       res_bind (canonical_event_number event) (\<lambda>number.
       res_bind (parse_optional bus) (\<lambda>bus.
       res_bind (parse_optional vendor) (\<lambda>vendor.
       res_bind (parse_optional model) (\<lambda>model.
       res_bind (parse_optional revision) (\<lambda>revision.
       res_bind (parse_optional serial) (\<lambda>serial.
       res_bind (DeviceIdentity_new path bus vendor model revision serial) (\<lambda>identity.
       res_bind (DeviceCapabilities_new [absolute, ev, ff, key, led, msc, rel, snd', sw, properties]) (\<lambda>capabilities.
       EnrolledDevice_new number sysfs (split_on CHR '','' classes) identity capabilities))))))))
   | _ \<Rightarrow> Inl DS_Invalid)"

fun decode_devices :: "EnrolledDevice list \<Rightarrow> string list \<Rightarrow> DeviceSetError + EnrolledDevice list" where
  "decode_devices devices [] = Inr devices"
| "decode_devices devices (line # ls) =
    (if length devices \<ge> MAX_EVENT_DESCRIPTORS then Inl DS_TooLarge
     else res_bind (decode_device line) (\<lambda>d. decode_devices (devices @ [d]) ls))"

definition decode_device_set :: "byte list \<Rightarrow> DeviceSetError + EnrolledDevice list" where
  "decode_device_set bytes =
    (if length bytes > MAX_DEVICE_SET_BYTES then Inl DS_TooLarge
     else
       res_bind (ok_or (from_utf8 bytes) DS_Invalid) (\<lambda>source.
       res_bind (ok_or (strip_prefix DEVICE_SET_HEADER source) DS_Invalid) (\<lambda>body.
       if body = [] \<or> last body \<noteq> CHR 0x0A then Inl DS_Invalid
       else
         res_bind (decode_devices [] (str_lines body)) (\<lambda>devices.
         res_bind (encode_device_set devices) (\<lambda>canonical.
         if canonical \<noteq> bytes then Inl DS_Invalid else Inr devices)))))"

section \<open>The initial input set\<close>

definition MAX_INPUT_CLASS_MAPPINGS :: nat where "MAX_INPUT_CLASS_MAPPINGS = 256"
definition MAX_INPUT_SET_BYTES :: nat where "MAX_INPUT_SET_BYTES = 64 * 1024"

definition INPUT_SET_HEADER :: string where
  "INPUT_SET_HEADER = ''ASIS'' @ [CHR 0x09] @ ''1'' @ [CHR 0x0A]"

datatype InputSetError = IS_Malformed | IS_BoundExceeded

record InputClassMapping =
  icm_event_number :: u32
  icm_sysfs_path :: string

definition valid_sysfs_path :: "u32 \<Rightarrow> string \<Rightarrow> bool" where
  "valid_sysfs_path n p \<longleftrightarrow> CHR 0x00 \<notin> set p \<and> CHR 0x0A \<notin> set p \<and> CHR 0x0D \<notin> set p \<and> CHR 0x09 \<notin> set p
    \<and> sysfs_components_ok n p"

definition InputClassMapping_new :: "u32 \<Rightarrow> string \<Rightarrow> InputSetError + InputClassMapping" where
  "InputClassMapping_new n p = (if \<not> valid_sysfs_path n p then Inl IS_Malformed
     else Inr \<lparr>icm_event_number = n, icm_sysfs_path = p\<rparr>)"

fun check_order :: "u32 option \<Rightarrow> InputClassMapping list \<Rightarrow> InputSetError + unit" where
  "check_order previous [] = Inr ()"
| "check_order previous (m # ms) =
    (if \<not> valid_sysfs_path (icm_event_number m) (icm_sysfs_path m)
       \<or> (case previous of Some n \<Rightarrow> n \<ge> icm_event_number m | None \<Rightarrow> False) then Inl IS_Malformed
     else check_order (Some (icm_event_number m)) ms)"

definition validate_order :: "InputClassMapping list \<Rightarrow> InputSetError + unit" where
  "validate_order ms =
    (if ms = [] \<or> length ms > MAX_INPUT_CLASS_MAPPINGS
     then Inl (if length ms > MAX_INPUT_CLASS_MAPPINGS then IS_BoundExceeded else IS_Malformed)
     else check_order None ms)"

definition mapping_line :: "InputClassMapping \<Rightarrow> string" where
  "mapping_line m = event_name (icm_event_number m) @ [CHR 0x09] @ icm_sysfs_path m @ [CHR 0x0A]"

fun encode_mappings :: "string \<Rightarrow> InputClassMapping list \<Rightarrow> InputSetError + string" where
  "encode_mappings output [] = Inr output"
| "encode_mappings output (m # ms) =
    (let output = output @ mapping_line m in
     if length output > MAX_INPUT_SET_BYTES then Inl IS_BoundExceeded else encode_mappings output ms)"

definition encode_input_set :: "InputClassMapping list \<Rightarrow> InputSetError + byte list" where
  "encode_input_set ms = res_bind (validate_order ms) (\<lambda>_. map_ok as_bytes (encode_mappings INPUT_SET_HEADER ms))"

definition parse_event_name :: "string \<Rightarrow> u32 option" where
  "parse_event_name v = Option.bind (strip_prefix ''event'' v) (\<lambda>digits.
     if digits = [] \<or> \<not> list_all is_digit digits then None
     else Option.bind (parse_u32 digits) (\<lambda>number. if v = event_name number then Some number else None))"

fun decode_mappings :: "InputClassMapping list \<Rightarrow> string list \<Rightarrow> InputSetError + InputClassMapping list" where
  "decode_mappings ms [] = Inr ms"
| "decode_mappings ms (line # ls) =
    (if length ms \<ge> MAX_INPUT_CLASS_MAPPINGS then Inl IS_BoundExceeded
     else
       res_bind (ok_or (split_once CHR 0x09 line) IS_Malformed) (\<lambda>(event, path).
       if CHR 0x09 \<in> set path then Inl IS_Malformed
       else
         res_bind (ok_or (parse_event_name event) IS_Malformed) (\<lambda>number.
         res_bind (InputClassMapping_new number path) (\<lambda>m. decode_mappings (ms @ [m]) ls))))"

definition decode_input_set :: "byte list \<Rightarrow> InputSetError + InputClassMapping list" where
  "decode_input_set source =
    (if length source > MAX_INPUT_SET_BYTES then Inl IS_BoundExceeded
     else if source = [] \<or> last source \<noteq> 10 then Inl IS_Malformed
     else
       res_bind (ok_or (from_utf8 source) IS_Malformed) (\<lambda>text'.
       case split_terminator CHR 0x0A text' of
         [] \<Rightarrow> Inl IS_Malformed
       | header # ls \<Rightarrow>
           if header \<noteq> ''ASIS'' @ [CHR 0x09] @ ''1'' then Inl IS_Malformed
           else
             res_bind (decode_mappings [] ls) (\<lambda>ms.
             res_bind (validate_order ms) (\<lambda>_. Inr ms))))"

section \<open>Text that survives splitting\<close>

lemma split_on_join_on:
  assumes "ws \<noteq> []" and "\<forall>w\<in>set ws. c \<notin> set w"
  shows "split_on c (join_on c ws) = ws"
  using assms
proof (induction c ws rule: join_on.induct)
  case (3 c w v ws)
  then show ?case by (simp add: split_on_append_sep)
qed (simp_all add: split_on_free)

lemma set_join_on: "set (join_on c ws) \<subseteq> insert c (\<Union> (set ` set ws))"
  by (induction c ws rule: join_on.induct) auto

lemma strip_prefix_append [simp]: "strip_prefix p (p @ s) = Some s"
  by (induction p) auto

lemma strip_prefix_Some: "strip_prefix p s = Some r \<Longrightarrow> s = p @ r"
  by (induction p s rule: strip_prefix.induct) (auto split: if_splits)

lemma decimal_shape: "decimal n \<noteq> [] \<and> list_all is_digit (decimal n)"
proof (induction n rule: decimal.induct)
  case (1 n)
  have "is_digit (char_of (48 + k))" if "k < 10" for k :: nat
    using that by (simp add: is_digit_def)
  then show ?case using 1 by (cases "n < 10") (simp_all add: decimal.simps [of n])
qed

lemma parse_u32_decimal: "parse_u32 (decimal (unat n)) = Some n"
proof -
  obtain c r where cr: "decimal (unat n) = c # r" using decimal_shape [of "unat n"] by (cases "decimal (unat n)") auto
  then have "is_digit c" using decimal_shape [of "unat n"] by simp
  then have "c \<noteq> CHR ''+''" by (auto simp: is_digit_def)
  with cr have "parse_u32 (decimal (unat n)) = (if decimal_value 0 (decimal (unat n)) \<ge> 2 ^ 32 then None
      else Some (of_nat (decimal_value 0 (decimal (unat n)))))"
    using decimal_shape [of "unat n"] by (simp add: parse_u32_def)
  then show ?thesis using unat_bound [of n] by (simp add: decimal_value_decimal)
qed

lemma event_number_round_trip:
  "canonical_event_number (event_name n) = Inr n" "parse_event_name (event_name n) = Some n"
  using decimal_shape [of "unat n"] strip_prefix_append [of "''event''"]
  by (simp_all add: canonical_event_number_def parse_event_name_def event_name_def parse_u32_decimal ok_or_def
      del: strip_prefix_append strip_prefix.simps)

lemma check_all_iff: "check_all f xs = Inr u \<longleftrightarrow> (\<forall>x\<in>set xs. f x = Inr ())"
proof (induction xs)
  case (Cons x xs)
  then show ?case by (cases "f x") auto
qed simp

lemma digit_not: "is_digit c \<Longrightarrow> c \<noteq> CHR 0x09 \<and> c \<noteq> CHR 0x0A \<and> c \<noteq> CHR 0x0D \<and> c \<noteq> CHR 0x2C"
  by (auto simp: is_digit_def)

text \<open>Characters the record uses as structure.\<close>

definition plain :: "string \<Rightarrow> bool" where
  "plain s \<longleftrightarrow> CHR 0x09 \<notin> set s \<and> CHR 0x0A \<notin> set s"

lemma plain_event_name: "plain (event_name n)" "CHR 0x0D \<notin> set (event_name n)"
  using decimal_shape [of "unat n"] digit_not by (auto simp: plain_def event_name_def list_all_iff)

lemma validate_value_plain: "validate_value v = Inr u \<Longrightarrow> plain v \<and> v \<noteq> ''-'' \<and> list_all (\<lambda>c. code_of c < 128) v"
  by (auto simp: validate_value_def plain_def list_all_iff split: if_splits)

lemma optional_round_trip:
  assumes "v \<noteq> None \<longrightarrow> validate_value (the v) = Inr ()"
  shows "parse_optional (optional v) = Inr v" and "plain (optional v)" and "list_all (\<lambda>c. code_of c < 128) (optional v)"
  using assms validate_value_plain [of "the v"]
  by (cases v; auto simp: parse_optional_def optional_def plain_def)+

lemma validate_capability_plain:
  assumes "validate_capability_value v = Inr u"
  shows "plain v" and "v \<noteq> []" and "CHR 0x0D \<notin> set v" and "list_all (\<lambda>c. code_of c < 128) v"
proof -
  have v: "v \<noteq> []" "\<forall>c\<in>set v. c = CHR '' '' \<or> is_digit c \<or> (97 \<le> code_of c \<and> code_of c \<le> 102)"
    using assms by (auto simp: validate_capability_value_def list_all_iff split: if_splits)
  have "code_of c < 128 \<and> c \<noteq> CHR 0x09 \<and> c \<noteq> CHR 0x0A \<and> c \<noteq> CHR 0x0D"
    if "c = CHR '' '' \<or> is_digit c \<or> (97 \<le> code_of c \<and> code_of c \<le> 102)" for c
    using that by (auto simp: is_digit_def)
  with v show "plain v" "v \<noteq> []" "CHR 0x0D \<notin> set v" "list_all (\<lambda>c. code_of c < 128) v"
    by (auto simp: plain_def list_all_iff)
qed

lemma last_join_on: "ws \<noteq> [] \<Longrightarrow> last ws \<noteq> [] \<Longrightarrow> last (join_on c ws) = last (last ws)"
proof (induction c ws rule: join_on.induct)
  case (3 c w v ws)
  then have "join_on c (v # ws) \<noteq> []" by (cases ws) auto
  with 3 show ?case by simp
qed simp_all

lemma utf8_ascii: "list_all (\<lambda>c. code_of c < 128) s \<Longrightarrow> utf8_wellformed (map code_of s)"
  by (rule utf8_wellformed_ascii) (simp add: list_all_iff)

lemma ascii_event_name: "list_all (\<lambda>c. code_of c < 128) (event_name n)"
  using decimal_shape [of "unat n"] by (auto simp: event_name_def list_all_iff is_digit_def)

lemma utf8_join_on:
  assumes "\<forall>w\<in>set ws. utf8_wellformed (map code_of w)" and "code_of c < 128"
  shows "utf8_wellformed (map code_of (join_on c ws))"
  using assms by (induction c ws rule: join_on.induct) (simp_all add: utf8_wellformed_append)

section \<open>Decoding the device set inverts encoding it\<close>

text \<open>What \<^verbatim>\<open>EnrolledDevice::new\<close> and the constructors of its parts guarantee.\<close>

definition device_ok :: "EnrolledDevice \<Rightarrow> bool" where
  "device_ok d \<longleftrightarrow>
    validate_sysfs_path (ed_event_number d) (ed_sysfs_path d) = Inr () \<and> validate_classes (ed_classes d) = Inr ()
    \<and> DeviceIdentity_new (di_path (ed_identity d)) (di_bus (ed_identity d)) (di_vendor (ed_identity d))
        (di_model (ed_identity d)) (di_revision (ed_identity d)) (di_serial (ed_identity d)) = Inr (ed_identity d)
    \<and> DeviceCapabilities_new (dc_values (ed_capabilities d)) = Inr (ed_capabilities d)
    \<and> length (dc_values (ed_capabilities d)) = 10"

text \<open>A path that is text without the record's separators, as every kernel device path is.\<close>

definition path_plain :: "string \<Rightarrow> bool" where
  "path_plain p \<longleftrightarrow> plain p \<and> utf8_wellformed (map code_of p)"

lemma check_classes_allowed: "check_classes q seen cs = Inr u \<Longrightarrow> set cs \<subseteq> set ALLOWED_CLASSES"
proof (induction cs arbitrary: q seen)
  case (Cons c cs)
  have "c \<in> set ALLOWED_CLASSES" if "position c ALLOWED_CLASSES = Some i" for i
    using that by (auto simp: position_def find_Some_iff)
  with Cons show ?case by (auto split: option.splits if_splits)
qed simp

lemma classes_round_trip:
  assumes "validate_classes cs = Inr u"
  shows "split_on CHR '','' (join_on CHR '','' cs) = cs" and "plain (join_on CHR '','' cs)"
    and "list_all (\<lambda>c. code_of c < 128) (join_on CHR '','' cs)"
proof -
  have cs: "cs \<noteq> []" "set cs \<subseteq> set ALLOWED_CLASSES"
    using assms check_classes_allowed by (auto simp: validate_classes_def split: if_splits)
  have allowed: "\<forall>w\<in>set ALLOWED_CLASSES. CHR '','' \<notin> set w \<and> plain w \<and> list_all (\<lambda>c. code_of c < 128) w"
    by (simp add: ALLOWED_CLASSES_def plain_def)
  then have good: "\<forall>w\<in>set cs. CHR '','' \<notin> set w \<and> plain w \<and> list_all (\<lambda>c. code_of c < 128) w"
    using cs(2) by blast
  then show "split_on CHR '','' (join_on CHR '','' cs) = cs" using cs(1) by (intro split_on_join_on) blast+
  have sub: "c = CHR '','' \<or> (\<exists>w\<in>set cs. c \<in> set w)" if "c \<in> set (join_on CHR '','' cs)" for c
    using set_join_on [of "CHR '',''" cs] that by blast
  have "c \<noteq> CHR 0x09 \<and> c \<noteq> CHR 0x0A \<and> code_of c < 128" if "c \<in> set (join_on CHR '','' cs)" for c
  proof (cases "c = CHR '',''")
    case False
    with sub [OF that] obtain w where "w \<in> set cs" "c \<in> set w" by blast
    with good show ?thesis unfolding plain_def list_all_iff by blast
  qed simp
  then show "plain (join_on CHR '','' cs)" "list_all (\<lambda>c. code_of c < 128) (join_on CHR '','' cs)"
    unfolding plain_def list_all_iff by blast+
qed

lemma identity_parts:
  assumes "DeviceIdentity_new path bus vendor model revision serial = Inr i"
  shows "validate_value path = Inr ()"
    and "\<forall>v\<in>{bus, vendor, model, revision, serial}. v \<noteq> None \<longrightarrow> validate_value (the v) = Inr ()"
proof -
  have "set (List.map_filter id [bus, vendor, model, revision, serial]) = {v. Some v \<in> {bus, vendor, model, revision, serial}}"
    by (auto simp: List.map_filter_def)
  with assms show "validate_value path = Inr ()"
    "\<forall>v\<in>{bus, vendor, model, revision, serial}. v \<noteq> None \<longrightarrow> validate_value (the v) = Inr ()"
    by (auto simp: DeviceIdentity_new_def check_all_iff res_bind_eq_Inr simp del: List.map_filter_simps)
qed

lemma list_of_ten: "length xs = 10 \<Longrightarrow> \<exists>a b c d e f g h i j. xs = [a, b, c, d, e, f, g, h, i, j]"
  by (auto simp: numeral_eq_Suc length_Suc_conv)

lemma device_line_round_trip:
  assumes "device_ok d" and "path_plain (ed_sysfs_path d)"
  shows "decode_device (join_on CHR 0x09 (device_fields d)) = Inr d"
    and "CHR 0x0A \<notin> set (join_on CHR 0x09 (device_fields d))"
    and "strip_cr (join_on CHR 0x09 (device_fields d)) = join_on CHR 0x09 (device_fields d)"
    and "utf8_wellformed (map code_of (device_line d))"
proof -
  let ?i = "ed_identity d" and ?vs = "dc_values (ed_capabilities d)"
  note ok = assms(1) [unfolded device_ok_def]
  have identity: "DeviceIdentity_new (di_path ?i) (di_bus ?i) (di_vendor ?i) (di_model ?i) (di_revision ?i) (di_serial ?i) = Inr ?i"
    using ok by simp
  note parts = identity_parts [OF identity]
  note path = validate_value_plain [OF parts(1)]
  have options: "parse_optional (optional v) = Inr v \<and> plain (optional v) \<and> list_all (\<lambda>c. code_of c < 128) (optional v)"
    if "v \<in> {di_bus ?i, di_vendor ?i, di_model ?i, di_revision ?i, di_serial ?i}" for v
    using optional_round_trip [of v] parts(2) that by blast
  have classes: "validate_classes (ed_classes d) = Inr ()" using ok by simp
  have caps: "\<forall>v\<in>set ?vs. validate_capability_value v = Inr ()"
    using ok by (auto simp: DeviceCapabilities_new_def check_all_iff res_bind_eq_Inr)
  have plain: "\<forall>w\<in>set (device_fields d). plain w"
    using plain_event_name(1) assms(2) classes_round_trip(2) [OF classes] path options caps validate_capability_plain(1)
    by (auto simp: device_fields_def path_plain_def)
  have split: "split_on CHR 0x09 (join_on CHR 0x09 (device_fields d)) = device_fields d"
    using plain by (intro split_on_join_on) (auto simp: device_fields_def plain_def)
  from ok have "length ?vs = 10" by simp
  from list_of_ten [OF this] obtain a b c e f g h j k l where ten: "?vs = [a, b, c, e, f, g, h, j, k, l]" by blast
  show "decode_device (join_on CHR 0x09 (device_fields d)) = Inr d"
    unfolding decode_device_def split
    using ok options identity classes_round_trip(1) [OF classes] ten
    by (simp add: device_fields_def event_number_round_trip EnrolledDevice_new_def)
  show "CHR 0x0A \<notin> set (join_on CHR 0x09 (device_fields d))"
    using set_join_on [of "CHR 0x09" "device_fields d"] plain by (auto simp: plain_def)
  have "last (device_fields d) = l" by (simp add: device_fields_def ten)
  moreover have "l \<noteq> []" "CHR 0x0D \<notin> set l" using validate_capability_plain(2,3) caps ten by auto
  moreover have "device_fields d \<noteq> []" by (simp add: device_fields_def)
  ultimately have "last (join_on CHR 0x09 (device_fields d)) \<noteq> CHR 0x0D"
    using last_join_on [of "device_fields d" "CHR 0x09"] last_in_set [of l] by metis
  then show "strip_cr (join_on CHR 0x09 (device_fields d)) = join_on CHR 0x09 (device_fields d)"
    by (simp add: strip_cr_def)
  have "\<forall>w\<in>set (device_fields d). utf8_wellformed (map code_of w)"
    using ascii_event_name assms(2) classes_round_trip(3) [OF classes] path options caps validate_capability_plain(4)
    by (auto simp: device_fields_def path_plain_def intro!: utf8_ascii)
  then show "utf8_wellformed (map code_of (device_line d))"
    using utf8_join_on [of "device_fields d" "CHR 0x09"] by (simp add: device_line_def utf8_wellformed_append)
qed

lemma encode_devices_text:
  "encode_devices q buf ds = Inr out \<Longrightarrow>
    out = buf @ concat (map device_line ds) \<and> (ds \<noteq> [] \<longrightarrow> length out \<le> MAX_DEVICE_SET_BYTES)"
proof (induction ds arbitrary: q buf)
  case (Cons d ds)
  then have "encode_devices (Some (ed_event_number d)) (buf @ device_line d) ds = Inr out"
    and "length (buf @ device_line d) \<le> MAX_DEVICE_SET_BYTES"
    by (auto simp: Let_def res_bind_eq_Inr split: if_splits)
  with Cons.IH [OF this(1)] show ?case by (cases ds) auto
qed simp

lemma last_lines: "ls \<noteq> [] \<Longrightarrow> last (concat (map (\<lambda>l. l @ [c]) ls)) = c"
  by (induction ls) auto

lemma decode_devices_lines:
  assumes "\<forall>d\<in>set ds. decode_device (f d) = Inr d" and "length acc + length ds \<le> MAX_EVENT_DESCRIPTORS"
  shows "decode_devices acc (map f ds) = Inr (acc @ ds)"
  using assms by (induction ds arbitrary: acc) auto

lemma str_lines_lines:
  assumes "\<forall>l\<in>set ls. CHR 0x0A \<notin> set l \<and> strip_cr l = l"
  shows "str_lines (concat (map (\<lambda>l. l @ [CHR 0x0A]) ls)) = ls"
proof -
  have "map strip_cr ls = ls" using assms by (simp add: map_idI)
  then show ?thesis using assms split_on_lines [of ls "CHR 0x0A"] by (simp add: str_lines_def)
qed

lemma utf8_concat:
  "\<forall>w\<in>set ws. utf8_wellformed (map code_of w) \<Longrightarrow> utf8_wellformed (map code_of (concat ws))"
  by (induction ws) (simp_all add: utf8_wellformed_append)

lemma decode_inverts_encode:
  assumes "\<forall>d\<in>set ds. device_ok d \<and> path_plain (ed_sysfs_path d)" and "encode_device_set ds = Inr bytes"
  shows "decode_device_set bytes = Inr ds"
proof -
  have ds: "ds \<noteq> []" "length ds \<le> MAX_EVENT_DESCRIPTORS"
    using assms(2) by (auto simp: encode_device_set_def split: if_splits)
  then obtain out where out: "encode_devices None DEVICE_SET_HEADER ds = Inr out" "bytes = as_bytes out"
    using assms(2) by (auto simp: encode_device_set_def map_ok_eq_Inr split: if_splits)
  have txt': "out = DEVICE_SET_HEADER @ concat (map device_line ds)" "length out \<le> MAX_DEVICE_SET_BYTES"
    using encode_devices_text [OF out(1)] ds(1) by auto
  let ?line = "\<lambda>d. join_on CHR 0x09 (device_fields d)"
  let ?body = "concat (map device_line ds)"
  have body: "?body = concat (map (\<lambda>l. l @ [CHR 0x0A]) (map ?line ds))"
    by (simp add: device_line_def [abs_def] comp_def)
  have lines: "str_lines ?body = map ?line ds"
    unfolding body using device_line_round_trip(2,3) assms(1) by (intro str_lines_lines) auto
  have "?body \<noteq> []" "last ?body = CHR 0x0A"
    using ds(1) last_lines [of "map ?line ds" "CHR 0x0A"] by (auto simp: body simp del: map_map)
  moreover have "decode_devices [] (map ?line ds) = Inr ([] @ ds)"
    using device_line_round_trip(1) assms(1) ds(2) by (intro decode_devices_lines) auto
  moreover have "utf8_wellformed (map code_of DEVICE_SET_HEADER)" by (simp add: DEVICE_SET_HEADER_def)
  then have "utf8_wellformed (map code_of out)"
    using utf8_concat [of "map device_line ds"] device_line_round_trip(4) assms(1)
    by (simp add: txt'(1) utf8_wellformed_append)
  then have "from_utf8 bytes = Some out" by (simp add: out(2) from_utf8_as_bytes)
  moreover have "strip_prefix DEVICE_SET_HEADER out = Some ?body" by (simp add: txt'(1))
  moreover have "length bytes \<le> MAX_DEVICE_SET_BYTES" using txt'(2) by (simp add: out(2))
  ultimately show ?thesis
    using assms(2) lines unfolding decode_device_set_def by (simp add: ok_or_def del: concat_eq_Nil_conv)
qed

text \<open>
  The device set is stored canonically: for reviewed devices with plain kernel paths, the decoder returns
  a list of devices for a record exactly when encoding that list gives that record.
\<close>

theorem device_set_round_trip:
  assumes "\<forall>d\<in>set ds. device_ok d \<and> path_plain (ed_sysfs_path d)"
  shows "decode_device_set bytes = Inr ds \<longleftrightarrow> encode_device_set ds = Inr bytes"
proof
  show "encode_device_set ds = Inr bytes \<Longrightarrow> decode_device_set bytes = Inr ds"
    by (rule decode_inverts_encode [OF assms])
qed (auto simp: decode_device_set_def res_bind_eq_Inr split: if_splits)

section \<open>The initial input set is canonical\<close>

definition mapping_text :: "InputClassMapping \<Rightarrow> string" where
  "mapping_text m = event_name (icm_event_number m) @ CHR 0x09 # icm_sysfs_path m"

lemma mapping_line_text: "mapping_line m = mapping_text m @ [CHR 0x0A]"
  by (simp add: mapping_line_def mapping_text_def)

lemma split_once_Some: "split_once c s = Some (a, b) \<Longrightarrow> s = a @ c # b"
  by (induction s arbitrary: a) (auto split: if_splits)

lemma decode_mappings_sound:
  "decode_mappings acc ls = Inr ms \<Longrightarrow> \<exists>ms'. ms = acc @ ms' \<and> ls = map mapping_text ms'"
proof (induction ls arbitrary: acc)
  case (Cons l ls)
  from Cons.prems obtain e p n m where l: "split_once CHR 0x09 l = Some (e, p)" "parse_event_name e = Some n"
    "InputClassMapping_new n p = Inr m" and rest: "decode_mappings (acc @ [m]) ls = Inr ms"
    by (auto simp: res_bind_eq_Inr split: if_splits)
  have "e = event_name n" using l(2) by (auto simp: parse_event_name_def bind_eq_Some_conv split: if_splits)
  moreover have "m = \<lparr>icm_event_number = n, icm_sysfs_path = p\<rparr>"
    using l(3) by (auto simp: InputClassMapping_new_def split: if_splits)
  ultimately have "l = mapping_text m" using split_once_Some [OF l(1)] by (simp add: mapping_text_def)
  with Cons.IH [OF rest] show ?case by auto
qed simp

lemma decode_mappings_complete:
  assumes "\<forall>m\<in>set ms. valid_sysfs_path (icm_event_number m) (icm_sysfs_path m)"
    and "length acc + length ms \<le> MAX_INPUT_CLASS_MAPPINGS"
  shows "decode_mappings acc (map mapping_text ms) = Inr (acc @ ms)"
  using assms
proof (induction ms arbitrary: acc)
  case (Cons m ms)
  have "split_once CHR 0x09 (mapping_text m) = Some (event_name (icm_event_number m), icm_sysfs_path m)"
    using plain_event_name(1) by (simp add: mapping_text_def split_once_free plain_def)
  with Cons show ?case
    by (simp add: ok_or_def event_number_round_trip valid_sysfs_path_def InputClassMapping_new_def)
qed simp

lemma check_order_valid:
  "check_order q ms = Inr u \<Longrightarrow> \<forall>m\<in>set ms. valid_sysfs_path (icm_event_number m) (icm_sysfs_path m)"
  by (induction ms arbitrary: q) (auto split: if_splits)

lemma encode_mappings_text:
  "encode_mappings buf ms = Inr out \<longleftrightarrow> out = buf @ concat (map mapping_line ms)
    \<and> (ms \<noteq> [] \<longrightarrow> length out \<le> MAX_INPUT_SET_BYTES)"
proof (induction ms arbitrary: buf)
  case (Cons m ms)
  show ?case using Cons.IH [of "buf @ mapping_line m"] by (cases ms) (auto simp: Let_def)
qed auto

lemma join_on_terminated: "join_on c (ls @ [[]]) = concat (map (\<lambda>l. l @ [c]) ls)"
proof (induction ls)
  case (Cons l ls)
  then show ?case by (cases ls) auto
qed simp

lemma split_terminator_terminated:
  assumes "s \<noteq> []" and "last s = c"
  shows "s = concat (map (\<lambda>l. l @ [c]) (split_terminator c s))"
proof -
  have "split_on c (xs @ [c]) = split_on c xs @ [[]]" for xs
    by (induction xs) auto
  then have "last (split_on c s) = []" using assms by (metis append_butlast_last_id last_snoc)
  then have "split_on c s = split_terminator c s @ [[]]"
    by (simp add: split_terminator_def) (metis append_butlast_last_id split_on_not_Nil)
  then show ?thesis using join_on_split_on [of c s] join_on_terminated by metis
qed

lemma header_line: "INPUT_SET_HEADER = (''ASIS'' @ [CHR 0x09] @ ''1'') @ [CHR 0x0A]"
  by (simp add: INPUT_SET_HEADER_def)

lemma last_as_bytes: "s \<noteq> [] \<Longrightarrow> last (as_bytes s) = of_char (last s)"
  by (simp add: as_bytes_def last_map)

lemma input_set_decode_encode:
  assumes "decode_input_set bytes = Inr ms"
  shows "encode_input_set ms = Inr bytes"
proof -
  from assms obtain s where s: "from_utf8 bytes = Some s"
    and len: "length bytes \<le> MAX_INPUT_SET_BYTES" "bytes \<noteq> []" "last bytes = 10"
    and rest: "(case split_terminator CHR 0x0A s of [] \<Rightarrow> Inl IS_Malformed
       | header # ls \<Rightarrow>
           if header \<noteq> ''ASIS'' @ [CHR 0x09] @ ''1'' then Inl IS_Malformed
           else res_bind (decode_mappings [] ls) (\<lambda>ms. res_bind (validate_order ms) (\<lambda>_. Inr ms))) = Inr ms"
    unfolding decode_input_set_def by (auto simp: res_bind_eq_Inr [of "ok_or _ _"] split: if_split_asm)
  from rest obtain ls where ls: "split_terminator CHR 0x0A s = (''ASIS'' @ [CHR 0x09] @ ''1'') # ls" "decode_mappings [] ls = Inr ms"
    and order: "validate_order ms = Inr ()"
    by (cases "split_terminator CHR 0x0A s") (auto simp: res_bind_eq_Inr split: if_split_asm)
  have bytes: "bytes = as_bytes s" using s by (rule from_utf8_bytes)
  with len have "s \<noteq> []" "of_char (last s) = (10 :: byte)" by (auto simp: as_bytes_def last_map)
  then have "code_of (last s) = 10" using unat_of_char [of "last s"] by simp
  moreover have "char_of (code_of (last s)) = last s" by simp
  moreover have "char_of (10 :: nat) = CHR 0x0A" by (simp add: char_of_def bit_0)
  ultimately have "last s = CHR 0x0A" by simp
  from split_terminator_terminated [OF \<open>s \<noteq> []\<close> this] decode_mappings_sound [OF ls(2)] ls(1)
  have "s = INPUT_SET_HEADER @ concat (map mapping_line ms)"
    by (auto simp: header_line mapping_line_text [abs_def] comp_def)
  then show ?thesis
    using order len(1) by (simp add: encode_input_set_def encode_mappings_text bytes map_ok_eq_Inr)
qed

lemma input_set_encode_decode:
  assumes "encode_input_set ms = Inr bytes" and "\<forall>m\<in>set ms. utf8_wellformed (map code_of (icm_sysfs_path m))"
  shows "decode_input_set bytes = Inr ms"
proof -
  let ?out = "INPUT_SET_HEADER @ concat (map mapping_line ms)"
  from assms(1) have order: "validate_order ms = Inr ()" and bytes: "bytes = as_bytes ?out"
    and len: "ms \<noteq> [] \<longrightarrow> length ?out \<le> MAX_INPUT_SET_BYTES"
    by (auto simp: encode_input_set_def res_bind_eq_Inr map_ok_eq_Inr encode_mappings_text)
  have ms: "ms \<noteq> []" "length ms \<le> MAX_INPUT_CLASS_MAPPINGS" "check_order None ms = Inr ()"
    using order by (auto simp: validate_order_def split: if_splits)
  note valid = check_order_valid [OF ms(3)]
  have line: "CHR 0x0A \<notin> set (mapping_text m) \<and> utf8_wellformed (map code_of (mapping_line m))" if "m \<in> set ms" for m
    using that valid assms(2) plain_event_name(1) [of "icm_event_number m"]
      utf8_ascii [OF ascii_event_name, of "icm_event_number m"]
    by (auto simp: mapping_text_def mapping_line_def valid_sysfs_path_def plain_def utf8_wellformed_append)
  have "utf8_wellformed (map code_of ?out)"
    using line utf8_concat [of "map mapping_line ms"] by (simp add: INPUT_SET_HEADER_def)
  then have utf8: "from_utf8 bytes = Some ?out" unfolding bytes from_utf8_as_bytes by simp
  have out: "?out = concat (map (\<lambda>l. l @ [CHR 0x0A]) ((''ASIS'' @ [CHR 0x09] @ ''1'') # map mapping_text ms))"
    by (simp add: header_line mapping_line_text [abs_def] comp_def)
  have "split_on CHR 0x0A ?out = ((''ASIS'' @ [CHR 0x09] @ ''1'') # map mapping_text ms) @ [[]]"
    unfolding out using line by (intro split_on_lines) auto
  then have terminated: "split_terminator CHR 0x0A ?out = (''ASIS'' @ [CHR 0x09] @ ''1'') # map mapping_text ms"
    by (simp add: split_terminator_def)
  have "last ?out = CHR 0x0A" unfolding out by (rule last_lines) simp
  moreover have "?out \<noteq> []" by (simp add: INPUT_SET_HEADER_def)
  ultimately have "last bytes = 10" unfolding bytes by (simp add: last_as_bytes of_char_def del: as_bytes_append)
  moreover have "decode_mappings [] (map mapping_text ms) = Inr ([] @ ms)"
    using valid ms(2) by (intro decode_mappings_complete) auto
  moreover have "bytes \<noteq> []" "length bytes \<le> MAX_INPUT_SET_BYTES"
    using len ms(1) unfolding bytes by (auto simp: INPUT_SET_HEADER_def as_bytes_def)
  ultimately show ?thesis
    using utf8 terminated order by (simp add: decode_input_set_def ok_or_def)
qed

text \<open>
  The initial input set has one representation: a record decodes to a list of mappings with text paths
  exactly when that list encodes to that record. Records that are reordered, padded, duplicated or written
  with other number spellings are refused.
\<close>

theorem input_set_canonical:
  assumes "\<forall>m\<in>set ms. utf8_wellformed (map code_of (icm_sysfs_path m))"
  shows "decode_input_set bytes = Inr ms \<longleftrightarrow> encode_input_set ms = Inr bytes"
  using input_set_decode_encode input_set_encode_decode [OF _ assms] by blast

definition demo_mappings :: "InputClassMapping list" where
  "demo_mappings = [\<lparr>icm_event_number = 2, icm_sysfs_path = ''/sys/devices/a/event2''\<rparr>]"

lemma split_on_step:
  "split_on c (x # xs) = (case split_on c xs of [] \<Rightarrow> [] | w # ws \<Rightarrow> if x = c then [] # w # ws else (x # w) # ws)"
  using split_on_Cons_ex [of c xs] by auto

lemma demo_event_path: "path_components ''/sys/devices/a/event2'' = [''/'', ''sys'', ''devices'', ''a'', ''event2'']"
  by (simp add: path_components_def is_absolute_def split_on_step del: split_on.simps(2))

lemma demo_event_name: "event_name 2 = ''event2''"
  by (simp add: event_name_def decimal.simps char_of_def bit_0)

theorem input_set_canonical_witness:
  "\<exists>bytes. encode_input_set demo_mappings = Inr bytes \<and> decode_input_set bytes = Inr demo_mappings"
proof -
  have "valid_sysfs_path 2 ''/sys/devices/a/event2''"
    by (simp add: valid_sysfs_path_def sysfs_components_ok_def demo_event_path demo_event_name)
  then obtain bytes where "encode_input_set demo_mappings = Inr bytes"
    by (simp add: encode_input_set_def validate_order_def demo_mappings_def MAX_INPUT_CLASS_MAPPINGS_def
        MAX_INPUT_SET_BYTES_def INPUT_SET_HEADER_def mapping_line_def demo_event_name)
  moreover have "\<forall>m\<in>set demo_mappings. utf8_wellformed (map code_of (icm_sysfs_path m))"
    by (simp add: demo_mappings_def)
  ultimately show ?thesis using input_set_canonical [of demo_mappings] by blast
qed

end
