(* ===== verification/Activity_Broker.thy ===== *)
theory Activity_Broker
  imports Wire_Codec Device_Set
begin

text \<open>
  The activity broker (\<^verbatim>\<open>agent-seat-activity-broker/src/lib.rs\<close>, \<^verbatim>\<open>main.rs\<close>): the fixed-size status and
  eligibility frames, the classification of input events, start-up, and the poll loop that arms after a
  quiet interval, stops at the first physical event and answers the provider's status requests.

  One iteration of the loop is \<open>broker_round\<close>. What the kernel reports in it, the readiness of each
  descriptor, the bytes and events read from it and the clock, is the argument \<open>round\<close>.
\<close>

section \<open>Fixed frames\<close>

definition u16_to_be_bytes :: "16 word \<Rightarrow> byte list" where
  "u16_to_be_bytes w = be_digits 2 (unat w)"

definition u16_from_be_bytes :: "byte list \<Rightarrow> 16 word" where
  "u16_from_be_bytes bs = word_of_nat (be_value bs)"

definition u64_to_be_bytes :: "u64 \<Rightarrow> byte list" where
  "u64_to_be_bytes w = be_digits 8 (unat w)"

definition u64_from_be_bytes :: "byte list \<Rightarrow> u64" where
  "u64_from_be_bytes bs = word_of_nat (be_value bs)"

definition BROKER_MAGIC :: "byte list" where "BROKER_MAGIC = as_bytes ''ASAB''"
definition BROKER_REVISION :: "16 word" where "BROKER_REVISION = 1"
definition OP_STATUS :: byte where "OP_STATUS = 1"
definition REQUEST_BYTES :: nat where "REQUEST_BYTES = 8"
definition RESPONSE_BYTES :: nat where "RESPONSE_BYTES = 24"
definition ELIGIBILITY_MAGIC :: "byte list" where "ELIGIBILITY_MAGIC = as_bytes ''ASEL''"
definition ELIGIBILITY_REVISION :: "16 word" where "ELIGIBILITY_REVISION = 1"
definition ELIGIBILITY_FRAME_BYTES :: nat where "ELIGIBILITY_FRAME_BYTES = 8"

datatype BrokerProtocolError = PE_Unavailable | PE_Incompatible | PE_Malformed

datatype EligibilityState = Eligible | Ineligible

fun EligibilityState_encode :: "EligibilityState \<Rightarrow> byte" where
  "EligibilityState_encode Eligible = 1"
| "EligibilityState_encode Ineligible = 2"

definition EligibilityState_decode :: "byte \<Rightarrow> BrokerProtocolError + EligibilityState" where
  "EligibilityState_decode v = (if v = 1 then Inr Eligible else if v = 2 then Inr Ineligible else Inl PE_Malformed)"

datatype BrokerState = Arming | Ready | Stopped | Unavailable

fun BrokerState_encode :: "BrokerState \<Rightarrow> byte" where
  "BrokerState_encode Arming = 4"
| "BrokerState_encode Ready = 1"
| "BrokerState_encode Stopped = 2"
| "BrokerState_encode Unavailable = 3"

definition BrokerState_decode :: "byte \<Rightarrow> BrokerProtocolError + BrokerState" where
  "BrokerState_decode v = (if v = 4 then Inr Arming else if v = 1 then Inr Ready else if v = 2 then Inr Stopped
     else if v = 3 then Inr Unavailable else Inl PE_Malformed)"

datatype StopReason = Reason_None | Reason_Activity | Reason_EventLoss | Reason_EvidenceLost | Reason_Internal
| Reason_EligibilityChanged

fun StopReason_encode :: "StopReason \<Rightarrow> byte" where
  "StopReason_encode Reason_None = 0"
| "StopReason_encode Reason_Activity = 1"
| "StopReason_encode Reason_EventLoss = 2"
| "StopReason_encode Reason_EvidenceLost = 3"
| "StopReason_encode Reason_Internal = 4"
| "StopReason_encode Reason_EligibilityChanged = 5"

definition StopReason_decode :: "byte \<Rightarrow> BrokerProtocolError + StopReason" where
  "StopReason_decode v = (if v = 0 then Inr Reason_None else if v = 1 then Inr Reason_Activity
     else if v = 2 then Inr Reason_EventLoss else if v = 3 then Inr Reason_EvidenceLost
     else if v = 4 then Inr Reason_Internal else if v = 5 then Inr Reason_EligibilityChanged else Inl PE_Malformed)"

record BrokerStatus =
  bs_instance :: u64
  bs_epoch :: u64
  bs_state :: BrokerState
  bs_reason :: StopReason

definition is_same_ready :: "BrokerStatus \<Rightarrow> BrokerStatus \<Rightarrow> bool" where
  "is_same_ready s later \<longleftrightarrow> bs_state s = Ready \<and> bs_state later = Ready
    \<and> bs_instance s = bs_instance later \<and> bs_epoch s = bs_epoch later"

definition BrokerStatus_encode :: "BrokerStatus \<Rightarrow> byte list" where
  "BrokerStatus_encode s = BROKER_MAGIC @ u16_to_be_bytes BROKER_REVISION
    @ [BrokerState_encode (bs_state s), StopReason_encode (bs_reason s)]
    @ u64_to_be_bytes (bs_instance s) @ u64_to_be_bytes (bs_epoch s)"

definition valid_state :: "BrokerState \<Rightarrow> StopReason \<Rightarrow> bool" where
  "valid_state state reason \<longleftrightarrow> (case state of
       Arming \<Rightarrow> reason = Reason_None
     | Ready \<Rightarrow> reason = Reason_None
     | Stopped \<Rightarrow> reason = Reason_Activity \<or> reason = Reason_EligibilityChanged
     | Unavailable \<Rightarrow> reason = Reason_EventLoss \<or> reason = Reason_EvidenceLost \<or> reason = Reason_Internal)"

definition BrokerStatus_decode :: "byte list \<Rightarrow> BrokerProtocolError + BrokerStatus" where
  "BrokerStatus_decode bytes =
    (if take 4 bytes \<noteq> BROKER_MAGIC \<or> u16_from_be_bytes [bytes ! 4, bytes ! 5] \<noteq> BROKER_REVISION
     then Inl PE_Incompatible
     else
       res_bind (BrokerState_decode (bytes ! 6)) (\<lambda>state.
       res_bind (StopReason_decode (bytes ! 7)) (\<lambda>reason.
       if \<not> valid_state state reason then Inl PE_Malformed
       else
         (let ident = u64_from_be_bytes (take 8 (drop 8 bytes));
              epoch = u64_from_be_bytes (take 8 (drop 16 bytes)) in
          if ident = 0 \<or> epoch = 0 then Inl PE_Malformed
          else Inr \<lparr>bs_instance = ident, bs_epoch = epoch, bs_state = state, bs_reason = reason\<rparr>))))"

text \<open>Reading and writing the frames; every transport failure is \<open>PE_Unavailable\<close>.\<close>

definition read_bytes :: "nat \<Rightarrow> reader \<Rightarrow> (BrokerProtocolError + byte list) \<times> reader" where
  "read_bytes n rs = (let (r, rs') = read_exact n [] rs in (map_err (\<lambda>_. PE_Unavailable) r, rs'))"

definition status_request :: "byte list" where
  "status_request = BROKER_MAGIC @ u16_to_be_bytes BROKER_REVISION @ [OP_STATUS, 0]"

definition write_status_request :: "('w \<Rightarrow> byte list \<Rightarrow> (io_error + unit) \<times> 'w) \<Rightarrow> 'w \<Rightarrow> (BrokerProtocolError + unit) \<times> 'w" where
  "write_status_request write_all w = (let (r, w') = write_all w status_request in (map_err (\<lambda>_. PE_Unavailable) r, w'))"

definition read_status_request :: "reader \<Rightarrow> (BrokerProtocolError + unit) \<times> reader" where
  "read_status_request rs = (let (r, rs') = read_bytes REQUEST_BYTES rs in
    (res_bind r (\<lambda>bytes.
       if take 4 bytes \<noteq> BROKER_MAGIC \<or> u16_from_be_bytes [bytes ! 4, bytes ! 5] \<noteq> BROKER_REVISION
       then Inl PE_Incompatible
       else if bytes ! 6 \<noteq> OP_STATUS \<or> bytes ! 7 \<noteq> 0 then Inl PE_Malformed
       else Inr ()), rs'))"

definition read_status_response :: "reader \<Rightarrow> (BrokerProtocolError + BrokerStatus) \<times> reader" where
  "read_status_response rs = (let (r, rs') = read_bytes RESPONSE_BYTES rs in (res_bind r BrokerStatus_decode, rs'))"

definition eligibility_frame :: "EligibilityState \<Rightarrow> byte list" where
  "eligibility_frame state = ELIGIBILITY_MAGIC @ u16_to_be_bytes ELIGIBILITY_REVISION @ [EligibilityState_encode state, 0]"

definition write_eligibility :: "('w \<Rightarrow> byte list \<Rightarrow> (io_error + unit) \<times> 'w) \<Rightarrow> EligibilityState \<Rightarrow> 'w
    \<Rightarrow> (BrokerProtocolError + unit) \<times> 'w" where
  "write_eligibility write_all state w =
    (let (r, w') = write_all w (eligibility_frame state) in (map_err (\<lambda>_. PE_Unavailable) r, w'))"

definition decode_eligibility :: "byte list \<Rightarrow> BrokerProtocolError + EligibilityState" where
  "decode_eligibility frame =
    (if take 4 frame \<noteq> ELIGIBILITY_MAGIC \<or> u16_from_be_bytes [frame ! 4, frame ! 5] \<noteq> ELIGIBILITY_REVISION
       \<or> frame ! 7 \<noteq> 0 then Inl PE_Incompatible
     else EligibilityState_decode (frame ! 6))"

definition read_eligibility :: "reader \<Rightarrow> (BrokerProtocolError + EligibilityState) \<times> reader" where
  "read_eligibility rs = (let (r, rs') = read_bytes ELIGIBILITY_FRAME_BYTES rs in (res_bind r decode_eligibility, rs'))"

text \<open>The provider's connection: the peer's kernel-reported user, then one request and one response.\<close>

record 'w broker_socket =
  so_connect :: "string + unit"
  so_peer :: "string + u32"
  so_timeouts :: "string + unit"
  so_write :: "'w \<Rightarrow> byte list \<Rightarrow> (io_error + unit) \<times> 'w"

definition BrokerConnection_connect :: "'w broker_socket \<Rightarrow> u32 \<Rightarrow> BrokerProtocolError + unit" where
  "BrokerConnection_connect so expected_uid =
    res_bind (map_err (\<lambda>_. PE_Unavailable) (so_connect so)) (\<lambda>_.
    res_bind (map_err (\<lambda>_. PE_Unavailable) (so_peer so)) (\<lambda>uid.
    if uid \<noteq> expected_uid then Inl PE_Unavailable
    else map_err (\<lambda>_. PE_Unavailable) (so_timeouts so)))"

definition BrokerConnection_status :: "'w broker_socket \<Rightarrow> 'w \<times> reader
    \<Rightarrow> (BrokerProtocolError + BrokerStatus) \<times> 'w \<times> reader" where
  "BrokerConnection_status so s = (case write_status_request (so_write so) (fst s) of
       (Inl e, w) \<Rightarrow> (Inl e, w, snd s)
     | (Inr _, w) \<Rightarrow> (let (r, rs) = read_status_response (snd s) in (r, w, rs)))"

definition query :: "'w broker_socket \<Rightarrow> u32 \<Rightarrow> 'w \<times> reader \<Rightarrow> (BrokerProtocolError + BrokerStatus) \<times> 'w \<times> reader" where
  "query so expected_uid s = (case BrokerConnection_connect so expected_uid of
       Inl e \<Rightarrow> (Inl e, s) | Inr _ \<Rightarrow> BrokerConnection_status so s)"
section \<open>Adopting inherited descriptors\<close>

text \<open>
  \<^verbatim>\<open>inherited_files.rs\<close>. A descriptor is its number; the environment variables, what
  \<^verbatim>\<open>sd_listen_fds::get\<close> returns and whether a descriptor takes the close-on-exec flag are arguments.
\<close>

type_synonym fd = nat

record InheritedFile =
  if_name :: string
  if_descriptor :: fd

datatype InheritedFileError = IF_Missing | IF_Malformed | IF_CannotConfine

record activation =
  ac_listen_fds :: "string option"
  ac_listen_names :: "string option"
  ac_get :: "string + fd list"
  ac_cloexec :: "fd \<Rightarrow> bool"

definition parse_usize :: "string \<Rightarrow> nat option" where
  "parse_usize s = (let digits = (case s of c # r \<Rightarrow> if c = CHR ''+'' then r else s | [] \<Rightarrow> s) in
    if digits = [] \<or> \<not> list_all is_digit digits \<or> decimal_value 0 digits \<ge> 2 ^ 64 then None
    else Some (decimal_value 0 digits))"

definition bad_name :: "string \<Rightarrow> bool" where
  "bad_name n \<longleftrightarrow> n = [] \<or> length n > 255 \<or> list_ex (\<lambda>c. code_of c < 32 \<or> code_of c = 127) n"

definition validate_names :: "string \<Rightarrow> nat \<Rightarrow> InheritedFileError + string list" where
  "validate_names source count =
    (if count = 0 then Inl IF_Missing
     else (let names = split_on CHR '':'' source in
       if length names \<noteq> count \<or> list_ex bad_name names then Inl IF_Malformed else Inr names))"

fun confine_files :: "(fd \<Rightarrow> bool) \<Rightarrow> (fd \<times> string) list \<Rightarrow> InheritedFileError + InheritedFile list" where
  "confine_files cloexec [] = Inr []"
| "confine_files cloexec ((d, name) # rest) =
    (if \<not> cloexec d then Inl IF_CannotConfine
     else res_bind (confine_files cloexec rest) (\<lambda>files.
       Inr (\<lparr>if_name = name, if_descriptor = d\<rparr> # files)))"

definition receive_inherited_files :: "activation \<Rightarrow> nat \<Rightarrow> nat \<Rightarrow> InheritedFileError + InheritedFile list" where
  "receive_inherited_files env maximum_count consumed_name_count =
    res_bind (ok_or (ac_listen_fds env) IF_Missing) (\<lambda>fds.
    res_bind (ok_or (parse_usize fds) IF_Malformed) (\<lambda>announced_count.
    if announced_count = 0 \<or> announced_count > maximum_count then Inl IF_Malformed
    else
      res_bind (ok_or (ac_listen_names env) IF_Malformed) (\<lambda>announced_names.
      if announced_count + consumed_name_count \<ge> 2 ^ 64 then Inl IF_Malformed
      else
        res_bind (validate_names announced_names (announced_count + consumed_name_count)) (\<lambda>names.
        res_bind (map_err (\<lambda>_. IF_Malformed) (ac_get env)) (\<lambda>received.
        if length received \<noteq> announced_count then Inl IF_Missing
        else confine_files (ac_cloexec env) (zip received (drop consumed_name_count names)))))))"

section \<open>Classification\<close>

text \<open>An input event as \<^verbatim>\<open>InputEvent::destructure\<close> presents it.\<close>

datatype SynchronizationCode = SYN_REPORT | SYN_DROPPED | SYN_OTHER u16

datatype EventSummary = Synchronization SynchronizationCode | OtherEvent u16 u16 i32

type_synonym update = "BrokerState \<times> StopReason"

fun classify_input_event :: "EventSummary \<Rightarrow> update option" where
  "classify_input_event (Synchronization SYN_REPORT) = None"
| "classify_input_event (Synchronization SYN_DROPPED) = Some (Unavailable, Reason_EventLoss)"
| "classify_input_event _ = Some (Stopped, Reason_Activity)"

fun classify_eligibility_transition :: "BrokerProtocolError + EligibilityState \<Rightarrow> update" where
  "classify_eligibility_transition (Inr Ineligible) = (Stopped, Reason_EligibilityChanged)"
| "classify_eligibility_transition (Inr Eligible) = (Unavailable, Reason_EvidenceLost)"
| "classify_eligibility_transition (Inl e) = (Unavailable, Reason_EvidenceLost)"

definition u64_saturating_succ :: "u64 \<Rightarrow> u64" where
  "u64_saturating_succ w = (if w = - 1 then - 1 else w + 1)"

definition terminal :: "BrokerStatus \<Rightarrow> BrokerState \<Rightarrow> StopReason \<Rightarrow> BrokerStatus" where
  "terminal status state reason = status\<lparr>bs_epoch := u64_saturating_succ (bs_epoch status),
     bs_state := state, bs_reason := reason\<rparr>"

section \<open>The poll loop\<close>

text \<open>Times are nanoseconds. A descriptor's \<^verbatim>\<open>revents\<close> is the set of flags the code tests.\<close>

definition ARM_QUIET_INTERVAL :: nat where "ARM_QUIET_INTERVAL = 250000000"
definition INITIAL_ELIGIBILITY_WAIT :: nat where "INITIAL_ELIGIBILITY_WAIT = 2000000000"

record revents =
  ev_in :: bool
  ev_err :: bool
  ev_hup :: bool
  ev_nval :: bool

definition lost :: "revents \<Rightarrow> bool" where
  "lost ev \<longleftrightarrow> ev_err ev \<or> ev_hup ev \<or> ev_nval ev"

datatype accept_result = Accept_WouldBlock | Accept_Error string | Accepted "string + u32" "string + unit"

record round =
  rd_poll :: "string + unit"
  rd_listener :: revents
  rd_provider :: revents
  rd_eligibility :: revents
  rd_transition :: reader
  rd_device :: "fd \<Rightarrow> revents"
  rd_fetch :: "fd \<Rightarrow> string + EventSummary list"
  rd_now :: nat
  rd_accept :: accept_result
  rd_request :: reader
  rd_write :: bool

record broker =
  br_status :: BrokerStatus
  br_devices :: "fd list"
  br_eligibility :: bool
  br_deadline :: "nat option"
  br_provider :: bool

fun first_update :: "EventSummary list \<Rightarrow> update option" where
  "first_update [] = None"
| "first_update (e # es) = (case classify_input_event e of Some u \<Rightarrow> Some u | None \<Rightarrow> first_update es)"

definition device_update :: "revents \<Rightarrow> string + EventSummary list \<Rightarrow> update option" where
  "device_update ev fetched =
    (if lost ev then Some (Unavailable, Reason_EvidenceLost)
     else if \<not> ev_in ev then None
     else (case fetched of Inl _ \<Rightarrow> Some (Unavailable, Reason_EvidenceLost) | Inr es \<Rightarrow> first_update es))"

fun devices_update :: "round \<Rightarrow> fd list \<Rightarrow> update option" where
  "devices_update rd [] = None"
| "devices_update rd (d # ds) =
    (case device_update (rd_device rd d) (rd_fetch rd d) of Some u \<Rightarrow> Some u | None \<Rightarrow> devices_update rd ds)"

definition eligibility_update :: "round \<Rightarrow> broker \<Rightarrow> update option" where
  "eligibility_update rd s =
    (if \<not> br_eligibility s then None
     else if lost (rd_eligibility rd) then Some (Unavailable, Reason_EvidenceLost)
     else if ev_in (rd_eligibility rd)
       then Some (classify_eligibility_transition (fst (read_eligibility (rd_transition rd))))
     else None)"

definition terminal_update :: "round \<Rightarrow> broker \<Rightarrow> update option" where
  "terminal_update rd s =
    (case eligibility_update rd s of Some u \<Rightarrow> Some u | None \<Rightarrow> devices_update rd (br_devices s))"

definition apply_update :: "round \<Rightarrow> broker \<Rightarrow> broker" where
  "apply_update rd s = (case terminal_update rd s of
       Some (state, reason) \<Rightarrow> s\<lparr>br_status := terminal (br_status s) state reason, br_devices := [],
         br_eligibility := False, br_deadline := None\<rparr>
     | None \<Rightarrow> (case br_deadline s of
          Some deadline \<Rightarrow> if rd_now rd \<ge> deadline
            then s\<lparr>br_status := (br_status s)\<lparr>bs_state := Ready\<rparr>, br_deadline := None\<rparr> else s
        | None \<Rightarrow> s))"

fun accept_provider :: "accept_result \<Rightarrow> u32 \<Rightarrow> string + bool" where
  "accept_provider Accept_WouldBlock uid = Inr False"
| "accept_provider (Accept_Error e) uid = Inl (''cannot accept provider connection: '' @ e)"
| "accept_provider (Accepted peer nonblocking) uid =
    res_bind (map_err (\<lambda>e. ''cannot authenticate provider connection: '' @ e) peer) (\<lambda>peer_uid.
    if peer_uid \<noteq> uid then Inr False
    else res_bind (map_err (\<lambda>e. ''cannot make provider connection nonblocking: '' @ e) nonblocking) (\<lambda>_. Inr True))"

text \<open>
  The listener is polled only while there is no provider, so at most one of the last two blocks of an
  iteration runs. The second result is the response the provider's stream took.
\<close>

definition serve_listener :: "u32 \<Rightarrow> round \<Rightarrow> broker \<Rightarrow> string + broker" where
  "serve_listener uid rd s =
    (if lost (rd_listener rd) then Inl ''provider listener was lost''
     else if ev_in (rd_listener rd)
       then res_bind (accept_provider (rd_accept rd) uid) (\<lambda>p. Inr (s\<lparr>br_provider := p\<rparr>))
     else Inr s)"

definition serve_provider :: "round \<Rightarrow> broker \<Rightarrow> broker \<times> byte list option" where
  "serve_provider rd s =
    (if lost (rd_provider rd) then (s\<lparr>br_provider := False\<rparr>, None)
     else if ev_in (rd_provider rd) then
       (if is_ok (fst (read_status_request (rd_request rd))) \<and> rd_write rd
        then (s, Some (BrokerStatus_encode (br_status s)))
        else (s\<lparr>br_provider := False\<rparr>, None))
     else (s, None))"

definition broker_round :: "u32 \<Rightarrow> round \<Rightarrow> broker \<Rightarrow> string + (broker \<times> byte list option)" where
  "broker_round uid rd s =
    res_bind (map_err (\<lambda>e. ''poll failed: '' @ e) (rd_poll rd)) (\<lambda>_.
    (let t = apply_update rd s in
     if \<not> br_provider s then res_bind (serve_listener uid rd t) (\<lambda>t'. Inr (t', None))
     else Inr (serve_provider rd t)))"

definition poll_timeout :: "nat \<Rightarrow> broker \<Rightarrow> nat option" where
  "poll_timeout now s = map_option (\<lambda>deadline. deadline - now) (br_deadline s)"

text \<open>Rounds in sequence, with the responses in the order they were sent.\<close>

fun broker_rounds :: "u32 \<Rightarrow> round list \<Rightarrow> broker \<Rightarrow> string + (broker \<times> byte list option list)" where
  "broker_rounds uid [] s = Inr (s, [])"
| "broker_rounds uid (rd # rds) s =
    res_bind (broker_round uid rd s) (\<lambda>(t, reply).
    res_bind (broker_rounds uid rds t) (\<lambda>(t', replies). Inr (t', reply # replies)))"
section \<open>Start-up\<close>

datatype run_stop = Stop_Help | Stop_Error string

definition fallible :: "string + 'a \<Rightarrow> run_stop + 'a" where
  "fallible r = map_err Stop_Error r"

definition to_str :: "string \<Rightarrow> string option" where
  "to_str os = (if utf8_wellformed (map code_of os) then Some os else None)"

definition parse_u32_arg :: "string option \<Rightarrow> string \<Rightarrow> string + u32" where
  "parse_u32_arg value option =
    res_bind (ok_or (Option.bind value to_str) (option @ '' requires a value'')) (\<lambda>v.
    ok_or (parse_u32 v) (option @ '' requires an unsigned integer''))"

definition first_of :: "'a list \<Rightarrow> 'a option" where
  "first_of xs = (case xs of [] \<Rightarrow> None | x # _ \<Rightarrow> Some x)"

text \<open>\<open>debug\<close> is the \<^verbatim>\<open>Debug\<close> rendering of a string in a message.\<close>

fun Arguments_parse :: "(string \<Rightarrow> string) \<Rightarrow> u32 option \<Rightarrow> string list \<Rightarrow> run_stop + u32" where
  "Arguments_parse debug uid [] = ok_or uid (Stop_Error ''--uid is required'')"
| "Arguments_parse debug uid (argument # rest) = (case to_str argument of
       None \<Rightarrow> Inl (Stop_Error ''arguments must be UTF-8'')
     | Some a \<Rightarrow>
         if a = ''--uid'' then
           (if uid \<noteq> None then Inl (Stop_Error ''--uid may be specified once'')
            else res_bind (fallible (parse_u32_arg (first_of rest) ''--uid'')) (\<lambda>n.
              Arguments_parse debug (Some n) (drop 1 rest)))
         else if a = ''--help'' then Inl Stop_Help
         else Inl (Stop_Error (''unknown argument '' @ debug a)))"

text \<open>
  The first eligibility frame. The source is nonblocking: a read that would block is followed by one
  poll, the \<open>k\<close>-th of which \<open>wait k\<close> describes.
\<close>

definition WOULD_BLOCK :: io_error where "WOULD_BLOCK = ''would block''"

record wait =
  wt_now :: nat
  wt_poll :: "string + unit"
  wt_events :: revents

definition wait_result :: "nat \<Rightarrow> wait \<Rightarrow> string + unit" where
  "wait_result deadline w =
    (if deadline - wt_now w = 0 then Inl ''timed out waiting for initial eligibility evidence''
     else
       res_bind (map_err (\<lambda>e. ''initial eligibility poll failed: '' @ e) (wt_poll w)) (\<lambda>_.
       let ev = wt_events w in
       if ev_err ev \<or> ev_nval ev then Inl ''initial eligibility evidence was lost''
       else if \<not> ev_in ev \<and> \<not> lost ev then Inl ''timed out waiting for initial eligibility evidence''
       else if ev_hup ev \<and> \<not> ev_in ev then Inl ''eligibility channel closed during initial frame''
       else Inr ()))"

function initial_frame :: "nat \<Rightarrow> (nat \<Rightarrow> wait) \<Rightarrow> nat \<Rightarrow> byte list \<Rightarrow> reader \<Rightarrow> string + byte list" where
  "initial_frame deadline wait k got rs =
    (if length got < ELIGIBILITY_FRAME_BYTES then
       (case read (ELIGIBILITY_FRAME_BYTES - length got) rs of
          (Inr [], rs') \<Rightarrow> Inl ''eligibility channel closed during initial frame''
        | (Inr (b # bs), rs') \<Rightarrow> initial_frame deadline wait k (got @ b # bs) rs'
        | (Inl KInterrupted, rs') \<Rightarrow> initial_frame deadline wait k got rs'
        | (Inl (KOther e), rs') \<Rightarrow>
            if e = WOULD_BLOCK
            then (case wait_result deadline (wait k) of
                Inl m \<Rightarrow> Inl m
              | Inr _ \<Rightarrow> initial_frame deadline wait (Suc k) got rs')
            else Inl (''cannot read initial eligibility evidence: '' @ e))
     else Inr got)"
  by pat_completeness auto
termination
  by (relation "measure (\<lambda>(deadline, wait, k, got, rs). reader_size rs)")
    (auto dest!: sym [of _ "read _ _"] dest: read_data_size read_fault_size)

declare initial_frame.simps [simp del]

fun debug_protocol_error :: "BrokerProtocolError \<Rightarrow> string" where
  "debug_protocol_error PE_Unavailable = ''Unavailable''"
| "debug_protocol_error PE_Incompatible = ''Incompatible''"
| "debug_protocol_error PE_Malformed = ''Malformed''"

definition read_initial_eligibility :: "nat \<Rightarrow> nat \<Rightarrow> (nat \<Rightarrow> wait) \<Rightarrow> reader \<Rightarrow> string + EligibilityState" where
  "read_initial_eligibility now timeout wait rs =
    res_bind (initial_frame (now + timeout) wait 0 [] rs) (\<lambda>frame.
    map_err (\<lambda>e. ''cannot decode initial eligibility evidence: '' @ debug_protocol_error e)
      (fst (read_eligibility [Chunk frame])))"

text \<open>The devices as evdev presents them, and the probe of their state before the loop starts.\<close>

record RawDevice =
  rw_fd :: fd
  rw_events :: "nat list"
  rw_keys :: "nat list option"
  rw_relative :: "nat list option"
  rw_absolute :: "nat list option"
  rw_misc :: "nat list option"
  rw_switches :: "nat list option"
  rw_leds :: "nat list option"
  rw_sounds :: "nat list option"
  rw_ff :: "nat list option"
  rw_properties :: "nat list"

definition codes :: "nat list option \<Rightarrow> nat list" where
  "codes c = (case c of None \<Rightarrow> [] | Some ns \<Rightarrow> ns)"

definition matches_device_capabilities :: "RawDevice \<Rightarrow> DeviceCapabilities \<Rightarrow> bool" where
  "matches_device_capabilities device expected \<longleftrightarrow>
    capability_matches expected Kind_Event (rw_events device)
    \<and> capability_matches expected Kind_Key (codes (rw_keys device))
    \<and> capability_matches expected Kind_Relative (codes (rw_relative device))
    \<and> capability_matches expected Kind_Absolute (codes (rw_absolute device))
    \<and> capability_matches expected Kind_Misc (codes (rw_misc device))
    \<and> capability_matches expected Kind_Switch (codes (rw_switches device))
    \<and> capability_matches expected Kind_Led (codes (rw_leds device))
    \<and> capability_matches expected Kind_Sound (codes (rw_sounds device))
    \<and> capability_matches expected Kind_ForceFeedback (codes (rw_ff device))
    \<and> capability_matches expected Kind_Property (rw_properties device)"

record probe =
  pb_keys :: "fd \<Rightarrow> string + nat list"
  pb_poll :: "string + unit"
  pb_events :: "fd \<Rightarrow> revents"
  pb_fetch :: "fd \<Rightarrow> string + EventSummary list"

fun held_key :: "probe \<Rightarrow> RawDevice list \<Rightarrow> string + bool" where
  "held_key p [] = Inr False"
| "held_key p (d # ds) =
    (if rw_keys d = None then held_key p ds
     else
       res_bind (map_err (\<lambda>e. ''cannot inspect initial key/button state: '' @ e) (pb_keys p (rw_fd d))) (\<lambda>state.
       if state \<noteq> [] then Inr True else held_key p ds))"

fun scan_events :: "bool \<Rightarrow> EventSummary list \<Rightarrow> update + bool" where
  "scan_events activity [] = Inr activity"
| "scan_events activity (e # es) = (case classify_input_event e of
       Some (state, reason) \<Rightarrow>
         if state = Unavailable then Inl (Unavailable, reason)
         else if state = Stopped \<and> reason = Reason_Activity then scan_events True es
         else scan_events activity es
     | None \<Rightarrow> scan_events activity es)"

fun scan_queues :: "probe \<Rightarrow> bool \<Rightarrow> RawDevice list \<Rightarrow> string + update option" where
  "scan_queues p activity [] = Inr (if activity then Some (Stopped, Reason_Activity) else None)"
| "scan_queues p activity (d # ds) = (let ev = pb_events p (rw_fd d) in
    if lost ev then Inr (Some (Unavailable, Reason_EvidenceLost))
    else if \<not> ev_in ev then scan_queues p activity ds
    else
      res_bind (map_err (\<lambda>e. ''cannot inspect initial event queue: '' @ e) (pb_fetch p (rw_fd d))) (\<lambda>fetched.
      case scan_events activity fetched of
        Inl u \<Rightarrow> Inr (Some u)
      | Inr activity' \<Rightarrow> scan_queues p activity' ds))"

definition initial_device_update :: "probe \<Rightarrow> RawDevice list \<Rightarrow> string + update option" where
  "initial_device_update p devices =
    res_bind (held_key p devices) (\<lambda>held.
    if held then Inr (Some (Stopped, Reason_Activity))
    else
      res_bind (map_err (\<lambda>e. ''initial device poll failed: '' @ e) (pb_poll p)) (\<lambda>_.
      scan_queues p False devices))"
text \<open>\<^verbatim>\<open>getrandom\<close> fills at most the room that is left; each element is one call.\<close>

fun fill_random :: "byte list \<Rightarrow> (string + byte list) list \<Rightarrow> string + byte list" where
  "fill_random got calls =
    (if length got \<ge> 8 then Inr got
     else (case calls of
         [] \<Rightarrow> Inl ''random source returned no instance bytes''
       | Inl e # _ \<Rightarrow> Inl (''cannot create broker instance identifier: '' @ e)
       | Inr bs # rest \<Rightarrow> (let part = take (8 - length got) bs in
           if part = [] then Inl ''random source returned no instance bytes''
           else fill_random (got @ part) rest)))"

declare fill_random.simps [simp del]

definition random_broker_instance :: "(string + byte list) list \<Rightarrow> string + u64" where
  "random_broker_instance calls =
    res_bind (fill_random [] calls) (\<lambda>bytes.
    (let ident = u64_from_le_bytes bytes in
     if ident = 0 then Inl ''random broker instance identifier was zero'' else Inr ident))"

text \<open>What the process inherits and what its system calls answer, in the order \<^verbatim>\<open>run\<close> asks.\<close>

record file_view =
  fv_metadata :: "string + unit"
  fv_is_file :: bool
  fv_nlink :: u64
  fv_uid :: u32
  fv_mode :: u32
  fv_len :: u64
  fv_contents :: "string + byte list"

record startup =
  su_args :: "string list"
  su_debug :: "string \<Rightarrow> string"
  su_euid :: u32
  su_listener :: "string + unit"
  su_activation :: activation
  su_confine :: "fd \<Rightarrow> string + unit"
  su_file :: "fd \<Rightarrow> file_view"
  su_device :: "fd \<Rightarrow> string + RawDevice"
  su_eligibility :: "string + unit"
  su_wait_from :: nat
  su_wait :: "nat \<Rightarrow> wait"
  su_source :: reader
  su_probe :: probe
  su_random :: "(string + byte list) list"
  su_arm_from :: nat

fun inherited_error :: "InheritedFileError \<Rightarrow> string" where
  "inherited_error IF_Missing = ''no inherited descriptor set was addressed to this process''"
| "inherited_error IF_Malformed = ''the inherited descriptor environment is malformed''"
| "inherited_error IF_CannotConfine = ''an inherited descriptor could not be confined''"

fun device_set_error :: "DeviceSetError \<Rightarrow> string" where
  "device_set_error DS_Invalid = ''invalid reviewed device set''"
| "device_set_error DS_TooLarge = ''reviewed device set exceeds its bound''"

definition file_refused :: "u32 \<Rightarrow> file_view \<Rightarrow> bool" where
  "file_refused owner f \<longleftrightarrow> \<not> fv_is_file f \<or> fv_nlink f \<noteq> 1 \<or> fv_uid f \<noteq> owner
    \<or> and (fv_mode f) 511 \<noteq> 384 \<or> unat (fv_len f) > MAX_DEVICE_SET_BYTES"

definition read_enrolled_device_set :: "startup \<Rightarrow> fd \<Rightarrow> u32 \<Rightarrow> string + EnrolledDevice list" where
  "read_enrolled_device_set su d owner_uid =
    res_bind (su_confine su d) (\<lambda>_.
    (let f = su_file su d in
     res_bind (map_err (\<lambda>e. ''cannot inspect enrolled device set: '' @ e) (fv_metadata f)) (\<lambda>_.
     if file_refused owner_uid f then Inl ''enrolled device set is not an exact private peer-owned file''
     else
       res_bind (map_err (\<lambda>e. ''cannot read enrolled device set: '' @ e)
         (map_ok (take (MAX_DEVICE_SET_BYTES + 1)) (fv_contents f))) (\<lambda>bytes.
       if length bytes > MAX_DEVICE_SET_BYTES then Inl ''enrolled device set exceeds its read bound''
       else map_err (\<lambda>e. ''invalid enrolled device set: '' @ device_set_error e) (decode_device_set bytes)))))"

definition open_inherited_device :: "startup \<Rightarrow> fd \<Rightarrow> nat \<Rightarrow> string + RawDevice" where
  "open_inherited_device su d index =
    res_bind (su_confine su d) (\<lambda>_.
    map_err (\<lambda>e. ''event descriptor '' @ decimal index @ '' is not an evdev device: '' @ e) (su_device su d))"

fun open_devices :: "startup \<Rightarrow> nat \<Rightarrow> InheritedFile list \<Rightarrow> string + RawDevice list" where
  "open_devices su index [] = Inr []"
| "open_devices su index (f # fs) =
    (if if_name f \<noteq> ''event'' @ decimal index
     then Inl (''inherited event descriptor '' @ decimal index @ '' has the wrong name'')
     else
       res_bind (open_inherited_device su (if_descriptor f) index) (\<lambda>d.
       res_bind (open_devices su (Suc index) fs) (\<lambda>ds. Inr (d # ds))))"

fun check_capabilities :: "(RawDevice \<times> EnrolledDevice) list \<Rightarrow> string + unit" where
  "check_capabilities [] = Inr ()"
| "check_capabilities ((d, e) # rest) =
    (if \<not> matches_device_capabilities d (ed_capabilities e)
     then Inl (''inherited event descriptor for event'' @ decimal (unat (ed_event_number e))
       @ '' does not match enrollment'')
     else check_capabilities rest)"

definition inherit_devices :: "startup \<Rightarrow> string + RawDevice list" where
  "inherit_devices su =
    res_bind (map_err (\<lambda>e. ''cannot receive inherited descriptors: '' @ inherited_error e)
      (receive_inherited_files (su_activation su) (MAX_EVENT_DESCRIPTORS + 1) 1)) (\<lambda>inherited.
    if map_option if_name (first_of inherited) \<noteq> Some ''enrolled-device-set''
    then Inl ''first inherited descriptor must be named enrolled-device-set''
    else
      res_bind (read_enrolled_device_set su (if_descriptor (hd inherited)) 0) (\<lambda>enrolled_devices.
      if length enrolled_devices \<noteq> length (tl inherited)
      then Inl ''inherited event descriptor count does not match enrollment''
      else
        res_bind (open_devices su 0 (tl inherited)) (\<lambda>devices.
        if devices = [] then Inl ''at least one inherited event descriptor is required''
        else res_bind (check_capabilities (zip devices enrolled_devices)) (\<lambda>_. Inr devices))))"

definition initial_state :: "bool \<Rightarrow> update option \<Rightarrow> update" where
  "initial_state eligible found =
    (if \<not> eligible then (Stopped, Reason_EligibilityChanged)
     else (case found of Some u \<Rightarrow> u | None \<Rightarrow> (Arming, Reason_None)))"

definition initial_broker :: "u64 \<Rightarrow> update \<Rightarrow> nat \<Rightarrow> fd list \<Rightarrow> broker" where
  "initial_broker ident u now devices =
    (let usable = fst u = Arming \<or> fst u = Ready in
     \<lparr>br_status = \<lparr>bs_instance = ident, bs_epoch = 1, bs_state = fst u, bs_reason = snd u\<rparr>,
      br_devices = (if usable then devices else []), br_eligibility = usable,
      br_deadline = (if fst u = Arming then Some (now + ARM_QUIET_INTERVAL) else None), br_provider = False\<rparr>)"

text \<open>Everything \<^verbatim>\<open>run\<close> does before its loop: the enrolled user, and the loop's first state.\<close>

definition broker_start :: "startup \<Rightarrow> run_stop + (u32 \<times> broker)" where
  "broker_start su =
    res_bind (Arguments_parse (su_debug su) None (su_args su)) (\<lambda>uid.
    if su_euid su = 0 then Inl (Stop_Error ''broker must run as a confined non-root service user'')
    else if su_euid su = uid then Inl (Stop_Error ''broker and enrolled provider must use distinct UIDs'')
    else
      fallible (
      res_bind (su_listener su) (\<lambda>_.
      res_bind (inherit_devices su) (\<lambda>devices.
      res_bind (su_eligibility su) (\<lambda>_.
      res_bind (read_initial_eligibility (su_wait_from su) INITIAL_ELIGIBILITY_WAIT (su_wait su) (su_source su)) (\<lambda>eligibility.
      res_bind (initial_device_update (su_probe su) devices) (\<lambda>found.
      res_bind (random_broker_instance (su_random su)) (\<lambda>ident.
      Inr (uid, initial_broker ident (initial_state (eligibility = Eligible) found) (su_arm_from su)
        (map rw_fd devices))))))))))"
section \<open>The frames are canonical\<close>

lemma length_broker_bytes [simp]: "length (u16_to_be_bytes a) = 2" "length (u64_to_be_bytes b) = 8"
  by (simp_all add: u16_to_be_bytes_def u64_to_be_bytes_def)

lemma u16_be_round_trip [simp]: "u16_from_be_bytes (u16_to_be_bytes w) = w"
  using unat_bound [of w] by (simp add: u16_from_be_bytes_def u16_to_be_bytes_def be_value_be_digits)

lemma u64_be_round_trip [simp]: "u64_from_be_bytes (u64_to_be_bytes w) = w"
  using unat_bound [of w] by (simp add: u64_from_be_bytes_def u64_to_be_bytes_def be_value_be_digits)

lemma u16_be_inverse: "length bs = 2 \<Longrightarrow> u16_to_be_bytes (u16_from_be_bytes bs) = bs"
  using be_value_less [of bs]
  by (simp add: u16_to_be_bytes_def u16_from_be_bytes_def unat_of_nat be_digits_be_value)

lemma u64_be_inverse: "length bs = 8 \<Longrightarrow> u64_to_be_bytes (u64_from_be_bytes bs) = bs"
  using be_value_less [of bs]
  by (simp add: u64_to_be_bytes_def u64_from_be_bytes_def unat_of_nat be_digits_be_value)

lemma broker_bytes_of_two: "length bs = 2 \<Longrightarrow> [bs ! 0, bs ! 1] = bs"
  by (auto simp: length_Suc_conv numeral_2_eq_2)

lemma state_byte:
  "BrokerState_decode (BrokerState_encode s) = Inr s" "BrokerState_decode v = Inr s \<Longrightarrow> BrokerState_encode s = v"
  by (cases s; simp add: BrokerState_decode_def) (auto simp: BrokerState_decode_def split: if_splits)

lemma reason_byte:
  "StopReason_decode (StopReason_encode r) = Inr r" "StopReason_decode v = Inr r \<Longrightarrow> StopReason_encode r = v"
  by (cases r; simp add: StopReason_decode_def) (auto simp: StopReason_decode_def split: if_splits)

lemma eligibility_byte:
  "EligibilityState_decode (EligibilityState_encode e) = Inr e"
  "EligibilityState_decode v = Inr e \<Longrightarrow> EligibilityState_encode e = v"
  by (cases e; simp add: EligibilityState_decode_def) (auto simp: EligibilityState_decode_def split: if_splits)

text \<open>The first eight bytes of both frames: a magic, a revision and two octets.\<close>

definition head_frame :: "byte list \<Rightarrow> 16 word \<Rightarrow> byte \<Rightarrow> byte \<Rightarrow> byte list" where
  "head_frame magic rv a b = magic @ u16_to_be_bytes rv @ [a, b]"

lemma head_frame_parts:
  assumes "length magic = 4"
  shows "take 4 (head_frame magic rv a b @ tl') = magic"
    and "u16_from_be_bytes [(head_frame magic rv a b @ tl') ! 4, (head_frame magic rv a b @ tl') ! 5] = rv"
    and "(head_frame magic rv a b @ tl') ! 6 = a" and "(head_frame magic rv a b @ tl') ! 7 = b"
    and "drop 8 (head_frame magic rv a b @ tl') = tl'" and "length (head_frame magic rv a b) = 8"
proof -
  obtain x y where xy: "u16_to_be_bytes rv = [x, y]"
    using length_broker_bytes(1) [of rv]
    by (auto simp: length_Suc_conv numeral_2_eq_2 simp del: length_broker_bytes)
  then have "u16_from_be_bytes [x, y] = rv" by (metis u16_be_round_trip)
  with assms xy show "take 4 (head_frame magic rv a b @ tl') = magic"
    and "u16_from_be_bytes [(head_frame magic rv a b @ tl') ! 4, (head_frame magic rv a b @ tl') ! 5] = rv"
    and "(head_frame magic rv a b @ tl') ! 6 = a" and "(head_frame magic rv a b @ tl') ! 7 = b"
    and "drop 8 (head_frame magic rv a b @ tl') = tl'" and "length (head_frame magic rv a b) = 8"
    by (simp_all add: head_frame_def nth_append)
qed

lemma head_frame_magic: "length magic = 4 \<Longrightarrow> take 4 (head_frame magic rv a b) = magic"
  by (simp add: head_frame_def)

lemma head_frame_split:
  assumes "8 \<le> length bs"
  shows "bs = head_frame (take 4 bs) (u16_from_be_bytes [bs ! 4, bs ! 5]) (bs ! 6) (bs ! 7) @ drop 8 bs"
proof -
  have "bs = take 4 bs @ bs ! 4 # bs ! 5 # bs ! 6 # bs ! 7 # drop 8 bs"
    using assms id_take_nth_drop [of 4 bs] Cons_nth_drop_Suc [of 5 bs] Cons_nth_drop_Suc [of 6 bs]
      Cons_nth_drop_Suc [of 7 bs] by simp
  then show ?thesis by (simp add: head_frame_def u16_be_inverse)
qed

definition status_ok :: "BrokerStatus \<Rightarrow> bool" where
  "status_ok s \<longleftrightarrow> valid_state (bs_state s) (bs_reason s) \<and> bs_instance s \<noteq> 0 \<and> bs_epoch s \<noteq> 0"

lemma status_encode_head: "BrokerStatus_encode s = head_frame BROKER_MAGIC BROKER_REVISION
    (BrokerState_encode (bs_state s)) (StopReason_encode (bs_reason s))
    @ u64_to_be_bytes (bs_instance s) @ u64_to_be_bytes (bs_epoch s)"
  by (simp add: BrokerStatus_encode_def head_frame_def)

lemma magic_length: "length BROKER_MAGIC = 4" "length ELIGIBILITY_MAGIC = 4"
  by (simp_all add: BROKER_MAGIC_def ELIGIBILITY_MAGIC_def)

lemma length_status_encode [simp]: "length (BrokerStatus_encode s) = RESPONSE_BYTES"
  by (simp add: status_encode_head head_frame_parts(6) magic_length RESPONSE_BYTES_def)

lemma status_decode_encode: "status_ok s \<Longrightarrow> BrokerStatus_decode (BrokerStatus_encode s) = Inr s"
  unfolding status_encode_head BrokerStatus_decode_def
  by (simp add: head_frame_parts head_frame_magic magic_length state_byte reason_byte status_ok_def)

lemma status_decode_sound:
  assumes len: "length bs = RESPONSE_BYTES" and dec: "BrokerStatus_decode bs = Inr s"
  shows "BrokerStatus_encode s = bs \<and> status_ok s"
proof -
  let ?i = "u64_from_be_bytes (take 8 (drop 8 bs))" and ?e = "u64_from_be_bytes (take 8 (drop 16 bs))"
  from dec have magic: "take 4 bs = BROKER_MAGIC" "u16_from_be_bytes [bs ! 4, bs ! 5] = BROKER_REVISION"
    and st: "BrokerState_decode (bs ! 6) = Inr (bs_state s)" and re: "StopReason_decode (bs ! 7) = Inr (bs_reason s)"
    and ok: "status_ok s" and num: "bs_instance s = ?i" "bs_epoch s = ?e"
    by (auto simp: BrokerStatus_decode_def status_ok_def res_simps Let_def split: if_splits)
  have "drop 8 bs = u64_to_be_bytes ?i @ u64_to_be_bytes ?e"
    using len append_take_drop_id [of 8 "drop 8 bs"] by (simp add: u64_be_inverse RESPONSE_BYTES_def)
  with head_frame_split [of bs] len magic state_byte(2) [OF st] reason_byte(2) [OF re] num ok
  show ?thesis by (simp add: status_encode_head RESPONSE_BYTES_def)
qed

interpretation broker_frame: canonical_codec BrokerStatus_encode
  "\<lambda>bs. if length bs = RESPONSE_BYTES then BrokerStatus_decode bs else Inl PE_Malformed" status_ok
  by unfold_locales (auto simp: status_decode_encode dest: status_decode_sound split: if_splits)

definition eligibility_decoder :: "byte list \<Rightarrow> BrokerProtocolError + EligibilityState" where
  "eligibility_decoder bs = (if length bs = ELIGIBILITY_FRAME_BYTES then decode_eligibility bs else Inl PE_Malformed)"

lemma eligibility_frame_head: "eligibility_frame e = head_frame ELIGIBILITY_MAGIC ELIGIBILITY_REVISION
    (EligibilityState_encode e) 0 @ []"
  by (simp add: eligibility_frame_def head_frame_def)

interpretation eligibility_channel: canonical_codec eligibility_frame eligibility_decoder "\<lambda>_. True"
proof
  fix e show "eligibility_decoder (eligibility_frame e) = Inr e"
    unfolding eligibility_frame_head eligibility_decoder_def decode_eligibility_def
    using head_frame_parts(1-5) [OF magic_length(2), of ELIGIBILITY_REVISION "EligibilityState_encode e" 0 "[]"]
    by (simp add: eligibility_byte ELIGIBILITY_FRAME_BYTES_def head_frame_parts(6) magic_length)
next
  fix bs e assume "eligibility_decoder bs = Inr e"
  then show "eligibility_frame e = bs"
    using head_frame_split [of bs] eligibility_byte(2) [of "bs ! 6" e]
    by (auto simp: eligibility_decoder_def decode_eligibility_def eligibility_frame_head
        ELIGIBILITY_FRAME_BYTES_def split: if_splits)
qed simp
section \<open>The loop fails closed\<close>

text \<open>Evidence is kept exactly while the state is \<open>Arming\<close> or \<open>Ready\<close>; a deadline exactly while it is \<open>Arming\<close>.\<close>

definition running :: "BrokerState \<Rightarrow> bool" where
  "running st \<longleftrightarrow> st = Arming \<or> st = Ready"

definition broker_inv :: "fd list \<Rightarrow> broker \<Rightarrow> bool" where
  "broker_inv ds s \<longleftrightarrow> status_ok (br_status s)
    \<and> br_eligibility s = running (bs_state (br_status s))
    \<and> br_devices s = (if running (bs_state (br_status s)) then ds else [])
    \<and> (br_deadline s \<noteq> None \<longleftrightarrow> bs_state (br_status s) = Arming)"

lemma succ_nonzero: "w \<noteq> 0 \<Longrightarrow> u64_saturating_succ w \<noteq> 0"
proof -
  have "w + 1 \<noteq> 0" if "w \<noteq> - 1" for w :: u64
    using that add.inverse_unique [of w 1] by (metis add.commute minus_minus neg_eq_iff_add_eq_0)
  then show ?thesis by (simp add: u64_saturating_succ_def)
qed

definition stops :: "update \<Rightarrow> bool" where
  "stops u \<longleftrightarrow> \<not> running (fst u) \<and> valid_state (fst u) (snd u)"

lemma classify_stops: "classify_input_event e = Some u \<Longrightarrow> stops u"
  by (cases e rule: classify_input_event.cases) (auto simp: stops_def running_def valid_state_def)

lemma first_update_stops: "first_update es = Some u \<Longrightarrow> stops u"
  by (induction es) (auto split: option.splits dest: classify_stops)

lemma lost_stops: "stops (Unavailable, Reason_EvidenceLost)"
  by (simp add: stops_def running_def valid_state_def)

lemma transition_stops: "stops (classify_eligibility_transition r)"
  by (cases r rule: classify_eligibility_transition.cases) (simp_all add: stops_def running_def valid_state_def)

lemma device_update_stops: "device_update ev f = Some u \<Longrightarrow> stops u"
  by (auto simp: device_update_def lost_stops first_update_stops split: if_splits sum.splits)

lemma devices_update_stops: "devices_update rd ds = Some u \<Longrightarrow> stops u"
  by (induction ds) (auto split: option.splits dest: device_update_stops)

lemma terminal_update_stops: "terminal_update rd s = Some u \<Longrightarrow> stops u"
  by (auto simp: terminal_update_def eligibility_update_def lost_stops transition_stops
      dest: devices_update_stops split: option.splits if_splits)

lemma apply_update_inv:
  assumes "broker_inv ds s" shows "broker_inv ds (apply_update rd s)"
proof (cases "terminal_update rd s")
  case None
  with assms show ?thesis
    by (auto simp: apply_update_def broker_inv_def running_def status_ok_def valid_state_def
        split: option.splits BrokerState.splits)
next
  case (Some u)
  with assms show ?thesis
    using terminal_update_stops [OF Some] succ_nonzero [of "bs_epoch (br_status s)"]
    by (cases u) (auto simp: apply_update_def broker_inv_def terminal_def stops_def running_def status_ok_def)
qed

lemma apply_update_frame:
  "bs_instance (br_status (apply_update rd s)) = bs_instance (br_status s)"
  "br_provider (apply_update rd s) = br_provider s"
  by (auto simp: apply_update_def terminal_def split: option.splits)

text \<open>What the two serving blocks change: the provider's presence, nothing else.\<close>

lemma round_view:
  assumes "broker_round uid rd s = Inr (t, reply)"
  shows "\<exists>p. t = (apply_update rd s)\<lparr>br_provider := p\<rparr>"
    and "reply \<noteq> None \<Longrightarrow> reply = Some (BrokerStatus_encode (br_status t))"
proof -
  have same: "\<exists>p. x = x\<lparr>br_provider := p\<rparr>" for x :: broker by (rule exI [of _ "br_provider x"]) simp
  show "\<exists>p. t = (apply_update rd s)\<lparr>br_provider := p\<rparr>"
    using assms
    by (auto simp: broker_round_def serve_listener_def serve_provider_def Let_def res_simps
        intro: same split: if_splits)
  show "reply = Some (BrokerStatus_encode (br_status t))" if "reply \<noteq> None"
    using assms that
    by (auto simp: broker_round_def serve_listener_def serve_provider_def Let_def res_simps split: if_splits)
qed

lemma round_status: "broker_round uid rd s = Inr (t, reply) \<Longrightarrow> br_status t = br_status (apply_update rd s)"
  by (drule round_view(1)) auto

lemma inv_provider [simp]: "broker_inv ds (s\<lparr>br_provider := p\<rparr>) = broker_inv ds s"
  by (simp add: broker_inv_def)

lemma round_inv: "broker_inv ds s \<Longrightarrow> broker_round uid rd s = Inr (t, reply) \<Longrightarrow> broker_inv ds t"
  by (drule round_view(1)) (auto simp: apply_update_inv)

lemma stopped_update: "broker_inv ds s \<Longrightarrow> \<not> running (bs_state (br_status s)) \<Longrightarrow> apply_update rd s = s"
  by (auto simp: apply_update_def terminal_update_def eligibility_update_def broker_inv_def running_def
      split: option.splits)

lemma running_update:
  assumes "broker_inv ds s" and "running (bs_state (br_status (apply_update rd s)))"
  shows "running (bs_state (br_status s))" and "terminal_update rd s = None"
proof -
  show r: "running (bs_state (br_status s))"
    using assms(2) stopped_update [OF assms(1), of rd] by (cases "running (bs_state (br_status s))") auto
  show "terminal_update rd s = None"
    using assms(2) terminal_update_stops [of rd s]
    by (cases "terminal_update rd s") (auto simp: apply_update_def terminal_def stops_def split: prod.splits)
qed

text \<open>A round without an update saw nothing but report markers on every device and a silent eligibility channel.\<close>

definition quiet_device :: "revents \<Rightarrow> string + EventSummary list \<Rightarrow> bool" where
  "quiet_device ev fetched \<longleftrightarrow> \<not> lost ev
    \<and> (ev_in ev \<longrightarrow> (\<exists>es. fetched = Inr es \<and> set es \<subseteq> {Synchronization SYN_REPORT}))"

definition quiet_round :: "round \<Rightarrow> fd list \<Rightarrow> bool" where
  "quiet_round rd ds \<longleftrightarrow> \<not> lost (rd_eligibility rd) \<and> \<not> ev_in (rd_eligibility rd)
    \<and> (\<forall>d\<in>set ds. quiet_device (rd_device rd d) (rd_fetch rd d))"

lemma classify_None: "classify_input_event e = None \<longleftrightarrow> e = Synchronization SYN_REPORT"
  by (cases e rule: classify_input_event.cases) auto

lemma first_update_None: "first_update es = None \<longleftrightarrow> set es \<subseteq> {Synchronization SYN_REPORT}"
  by (induction es) (auto simp: classify_None split: option.splits)

lemma device_update_None: "device_update ev f = None \<longleftrightarrow> quiet_device ev f"
  by (auto simp: device_update_def quiet_device_def first_update_None split: sum.splits)

lemma devices_update_None:
  "devices_update rd ds = None \<longleftrightarrow> (\<forall>d\<in>set ds. quiet_device (rd_device rd d) (rd_fetch rd d))"
  by (induction ds) (auto simp flip: device_update_None split: option.splits)

lemma quiet_iff:
  "broker_inv ds s \<Longrightarrow> running (bs_state (br_status s)) \<Longrightarrow> terminal_update rd s = None \<longleftrightarrow> quiet_round rd ds"
  by (auto simp: terminal_update_def eligibility_update_def broker_inv_def quiet_round_def devices_update_None
      split: option.splits)
lemma round_deadline:
  "broker_round uid rd s = Inr (t, reply) \<Longrightarrow> br_deadline t = br_deadline (apply_update rd s)"
  by (drule round_view(1)) auto

text \<open>A round that ends running came from a running state and was quiet; a deadline is either still pending or was passed.\<close>

lemma running_round:
  assumes inv: "broker_inv ds s" and rnd: "broker_round uid rd s = Inr (t, reply)"
    and run: "running (bs_state (br_status t))"
  shows "running (bs_state (br_status s))" and "quiet_round rd ds"
    and "br_deadline s = Some dl \<Longrightarrow> dl \<le> rd_now rd \<or> br_deadline t = Some dl"
proof -
  have run': "running (bs_state (br_status (apply_update rd s)))" using run round_status [OF rnd] by simp
  show r: "running (bs_state (br_status s))" by (rule running_update(1) [OF inv run'])
  have none: "terminal_update rd s = None" by (rule running_update(2) [OF inv run'])
  then show "quiet_round rd ds" using quiet_iff [OF inv r] by simp
  show "dl \<le> rd_now rd \<or> br_deadline t = Some dl" if "br_deadline s = Some dl"
    using that none round_deadline [OF rnd] by (auto simp: apply_update_def)
qed

lemma reply_status:
  assumes "broker_inv ds s" and "broker_round uid rd s = Inr (t, Some b)" and "BrokerStatus_decode b = Inr y"
  shows "y = br_status t"
  using assms round_inv [OF assms(1,2)] round_view(2) [OF assms(2)] status_decode_encode [of "br_status t"]
  by (simp add: broker_inv_def)

lemma ready_reply_quiet:
  assumes "broker_inv ds s" and "broker_rounds uid rds s = Inr (t, replies)" and "j < length replies"
    and "replies ! j = Some b" and "BrokerStatus_decode b = Inr y" and "bs_state y = Ready"
  shows "running (bs_state (br_status s)) \<and> (\<forall>k\<le>j. quiet_round (rds ! k) ds)
    \<and> (\<forall>dl. br_deadline s = Some dl \<longrightarrow> (\<exists>k\<le>j. dl \<le> rd_now (rds ! k)))"
  using assms
proof (induction rds arbitrary: s replies j)
  case (Cons rd rds)
  from Cons.prems(2) obtain u reply rest where rnd: "broker_round uid rd s = Inr (u, reply)"
    and more: "broker_rounds uid rds u = Inr (t, rest)" and rs: "replies = reply # rest"
    by (auto simp: res_simps)
  have inv: "broker_inv ds u" by (rule round_inv [OF Cons.prems(1) rnd])
  note step = running_round [OF Cons.prems(1) rnd]
  show ?case
  proof (cases j)
    case 0
    then have "y = br_status u" using reply_status [OF Cons.prems(1)] rnd rs Cons.prems(4,5) by auto
    then have ready: "bs_state (br_status u) = Ready" using Cons.prems(6) by simp
    then have "br_deadline u = None" using inv by (simp add: broker_inv_def)
    with step ready 0 show ?thesis by (auto simp: running_def)
  next
    case (Suc i)
    then have "i < length rest" "rest ! i = Some b" using Cons.prems(3,4) rs by simp_all
    note ih = Cons.IH [OF inv more this Cons.prems(5,6)]
    then have run: "running (bs_state (br_status u))" by simp
    have "quiet_round ((rd # rds) ! k) ds" if "k \<le> j" for k
      using ih step(2) [OF run] that Suc by (cases k) auto
    moreover have "\<exists>k\<le>j. dl \<le> rd_now ((rd # rds) ! k)" if dl: "br_deadline s = Some dl" for dl
      using step(3) [OF run dl]
    proof
      assume "br_deadline u = Some dl"
      then obtain k where "k \<le> i" "dl \<le> rd_now (rds ! k)" using ih by blast
      then show ?thesis using Suc by (intro exI [of _ "Suc k"]) simp
    qed (auto intro!: exI [of _ 0])
    ultimately show ?thesis using step(1) [OF run] by blast
  qed
qed simp

text \<open>A stopped or unavailable broker keeps its status and repeats it.\<close>

lemma stopped_rounds:
  assumes "broker_inv ds s" and "\<not> running (bs_state (br_status s))" and "broker_rounds uid rds s = Inr (t, replies)"
  shows "br_status t = br_status s \<and> (\<forall>r\<in>set replies. r \<noteq> None \<longrightarrow> r = Some (BrokerStatus_encode (br_status s)))"
  using assms
proof (induction rds arbitrary: s replies)
  case (Cons rd rds)
  from Cons.prems(3) obtain u reply rest where rnd: "broker_round uid rd s = Inr (u, reply)"
    and more: "broker_rounds uid rds u = Inr (t, rest)" and rs: "replies = reply # rest"
    by (auto simp: res_simps)
  have same: "br_status u = br_status s"
    using round_status [OF rnd] stopped_update [OF Cons.prems(1,2)] by simp
  have "br_status t = br_status u \<and> (\<forall>r\<in>set rest. r \<noteq> None \<longrightarrow> r = Some (BrokerStatus_encode (br_status u)))"
    using Cons.IH [OF round_inv [OF Cons.prems(1) rnd] _ more] Cons.prems(2) same by simp
  then show ?case using round_view(2) [OF rnd] rs same by auto
qed simp

lemma rounds_inv: "broker_inv ds s \<Longrightarrow> broker_rounds uid rds s = Inr (t, replies) \<Longrightarrow> broker_inv ds t"
  by (induction rds arbitrary: s replies) (auto simp: res_simps dest: round_inv)

lemma rounds_instance:
  "broker_rounds uid rds s = Inr (t, replies) \<Longrightarrow> bs_instance (br_status t) = bs_instance (br_status s)"
  by (induction rds arbitrary: s replies) (auto simp: res_simps round_status apply_update_frame)
section \<open>Start-up establishes the invariant\<close>

lemma scan_events_stops: "scan_events a es = Inl u \<Longrightarrow> stops u"
proof (induction es arbitrary: a)
  case (Cons e es)
  then show ?case using classify_stops [of e] by (auto split: option.splits if_splits)
qed simp

lemma scan_queues_stops: "scan_queues p a ds = Inr (Some u) \<Longrightarrow> stops u"
proof (induction ds arbitrary: a)
  case Nil
  then show ?case by (auto simp: stops_def running_def valid_state_def split: if_splits)
next
  case (Cons d ds)
  show ?case
  proof (cases "pb_fetch p (rw_fd d)")
    case (Inr es)
    then show ?thesis
      using Cons by (cases "scan_events a es") (auto simp: Let_def lost_stops scan_events_stops split: if_splits)
  qed (use Cons in \<open>auto simp: Let_def lost_stops split: if_splits\<close>)
qed

lemma initial_update_stops: "initial_device_update p ds = Inr (Some u) \<Longrightarrow> stops u"
  by (auto simp: initial_device_update_def res_simps scan_queues_stops split: if_splits)
    (simp add: stops_def running_def valid_state_def)

lemma random_instance_nonzero: "random_broker_instance calls = Inr i \<Longrightarrow> i \<noteq> 0"
  by (auto simp: random_broker_instance_def res_simps Let_def split: if_splits)

lemma confine_files_length: "confine_files c ps = Inr fs \<Longrightarrow> length fs = length ps"
  by (induction ps arbitrary: fs) (auto simp: res_simps split: if_splits)

lemma confine_files_names: "confine_files c ps = Inr fs \<Longrightarrow> map if_name fs = map snd ps"
  by (induction ps arbitrary: fs) (auto simp: res_simps split: if_splits)

lemma inherited_files_bound:
  assumes "receive_inherited_files env m k = Inr fs"
  shows "0 < length fs" and "length fs \<le> m" and "\<forall>f\<in>set fs. \<not> bad_name (if_name f)"
proof -
  from assms obtain names got where n: "got \<noteq> []" "length got \<le> m"
    and names: "length names = length got + k" "\<forall>x\<in>set names. \<not> bad_name x"
    and fs: "confine_files (ac_cloexec env) (zip got (drop k names)) = Inr fs"
    by (auto simp: receive_inherited_files_def validate_names_def res_simps Let_def list_ex_iff not_less
        split: if_splits)
  have len: "length fs = length got" using confine_files_length [OF fs] names by simp
  then show "0 < length fs" "length fs \<le> m" using n by simp_all
  have "set (map if_name fs) \<subseteq> set names"
    using confine_files_names [OF fs] set_drop_subset [of k names] by (auto dest: set_zip_rightD)
  then show "\<forall>f\<in>set fs. \<not> bad_name (if_name f)" using names(2) by auto
qed

lemma open_devices_length: "open_devices su i fs = Inr ds \<Longrightarrow> length ds = length fs"
  by (induction fs arbitrary: i ds) (auto simp: res_simps split: if_splits)

lemma inherit_devices_bound:
  "inherit_devices su = Inr ds \<Longrightarrow> ds \<noteq> [] \<and> length ds \<le> MAX_EVENT_DESCRIPTORS"
  by (auto simp: inherit_devices_def res_simps split: if_splits
      dest!: open_devices_length inherited_files_bound(2))

lemma initial_broker_inv:
  assumes "stops u \<or> u = (Arming, Reason_None)" and "i \<noteq> 0"
  shows "broker_inv ds (initial_broker i u now ds)"
  using assms
  by (auto simp: broker_inv_def initial_broker_def Let_def running_def status_ok_def stops_def valid_state_def)

text \<open>What a successful start has established.\<close>

lemma broker_start_facts:
  assumes "broker_start su = Inr (uid, s)"
  obtains devices eligibility found ident where
    "inherit_devices su = Inr devices"
    "read_initial_eligibility (su_wait_from su) INITIAL_ELIGIBILITY_WAIT (su_wait su) (su_source su) = Inr eligibility"
    "initial_device_update (su_probe su) devices = Inr found"
    "s = initial_broker ident (initial_state (eligibility = Eligible) found) (su_arm_from su) (map rw_fd devices)"
    "ident \<noteq> 0" "su_euid su \<noteq> 0" "su_euid su \<noteq> uid"
  using assms random_instance_nonzero
  by (auto simp: broker_start_def fallible_def res_simps split: if_splits)

lemma initial_state_cases:
  "initial_device_update p ds = Inr found \<Longrightarrow>
    stops (initial_state el found) \<or> initial_state el found = (Arming, Reason_None) \<and> el \<and> found = None"
  by (auto simp: initial_state_def split: option.split dest: initial_update_stops)
    (simp add: stops_def running_def valid_state_def)+

lemma broker_start_inv:
  assumes "broker_start su = Inr (uid, s)"
  obtains devices where "inherit_devices su = Inr devices" "broker_inv (map rw_fd devices) s"
    "running (bs_state (br_status s)) \<Longrightarrow>
      read_initial_eligibility (su_wait_from su) INITIAL_ELIGIBILITY_WAIT (su_wait su) (su_source su) = Inr Eligible
      \<and> initial_device_update (su_probe su) devices = Inr None
      \<and> br_deadline s = Some (su_arm_from su + ARM_QUIET_INTERVAL)"
proof (rule broker_start_facts [OF assms])
  fix devices eligibility found ident
  assume d: "inherit_devices su = Inr devices"
    and e: "read_initial_eligibility (su_wait_from su) INITIAL_ELIGIBILITY_WAIT (su_wait su) (su_source su) = Inr eligibility"
    and f: "initial_device_update (su_probe su) devices = Inr found"
    and s: "s = initial_broker ident (initial_state (eligibility = Eligible) found) (su_arm_from su) (map rw_fd devices)"
    and i: "ident \<noteq> 0"
  note c = initial_state_cases [OF f, of "eligibility = Eligible"]
  have "broker_inv (map rw_fd devices) s" unfolding s using c i by (intro initial_broker_inv) auto
  moreover have "eligibility = Eligible \<and> found = None \<and> br_deadline s = Some (su_arm_from su + ARM_QUIET_INTERVAL)"
    if "running (bs_state (br_status s))"
    using c that unfolding s by (auto simp: initial_broker_def stops_def Let_def)
  ultimately show thesis using that d e f by blast
qed
section \<open>What a status answer means\<close>

text \<open>Idle at start-up: no key or button is held, no device is lost, and what is queued are report markers only.\<close>

definition idle_at_start :: "probe \<Rightarrow> RawDevice list \<Rightarrow> bool" where
  "idle_at_start p devices \<longleftrightarrow> (\<forall>d\<in>set devices. (rw_keys d \<noteq> None \<longrightarrow> pb_keys p (rw_fd d) = Inr [])
    \<and> quiet_device (pb_events p (rw_fd d)) (pb_fetch p (rw_fd d)))"

lemma scan_events_quiet: "scan_events activity es = Inr False \<longleftrightarrow> \<not> activity \<and> set es \<subseteq> {Synchronization SYN_REPORT}"
proof (induction es arbitrary: activity)
  case (Cons e es)
  then show ?case by (cases e rule: classify_input_event.cases) auto
qed simp

lemma scan_queues_quiet:
  "scan_queues p activity ds = Inr None \<longleftrightarrow>
    \<not> activity \<and> (\<forall>d\<in>set ds. quiet_device (pb_events p (rw_fd d)) (pb_fetch p (rw_fd d)))"
proof (induction ds arbitrary: activity)
  case (Cons d ds)
  obtain r where r: "pb_fetch p (rw_fd d) = r" by blast
  show ?case
  proof (cases r)
    case (Inr es)
    then show ?thesis using Cons.IH r scan_events_quiet [of activity es]
      by (cases "scan_events activity es") (auto simp: quiet_device_def Let_def)
  qed (use Cons.IH r in \<open>auto simp: quiet_device_def Let_def\<close>)
qed simp

lemma held_key_none: "held_key p ds = Inr False \<longleftrightarrow> (\<forall>d\<in>set ds. rw_keys d \<noteq> None \<longrightarrow> pb_keys p (rw_fd d) = Inr [])"
  by (induction ds) (auto simp: res_simps split: if_splits)

lemma initial_update_idle: "initial_device_update p devices = Inr None \<Longrightarrow> idle_at_start p devices"
  by (auto simp: initial_device_update_def idle_at_start_def res_simps held_key_none scan_queues_quiet split: if_splits)

text \<open>
  C9. A \<open>Ready\<close> answer is evidence: when a broker that started and then ran any number of iterations sends a
  response that decodes as \<open>Ready\<close>, then the guard had reported the seat eligible, no key was held and no event was
  queued at start-up, in every iteration up to that answer each enrolled device was intact and gave nothing but
  report markers and the eligibility channel was silent, and the clock had passed the full quiet interval.
\<close>

theorem ready_means_quiet:
  assumes "broker_start su = Inr (uid, s)" and "broker_rounds uid rds s = Inr (t, replies)" and "j < length replies"
    and "replies ! j = Some b" and "BrokerStatus_decode b = Inr y" and "bs_state y = Ready"
  shows "\<exists>devices. inherit_devices su = Inr devices \<and> devices \<noteq> []
    \<and> read_initial_eligibility (su_wait_from su) INITIAL_ELIGIBILITY_WAIT (su_wait su) (su_source su) = Inr Eligible
    \<and> initial_device_update (su_probe su) devices = Inr None \<and> idle_at_start (su_probe su) devices
    \<and> (\<forall>k\<le>j. quiet_round (rds ! k) (map rw_fd devices))
    \<and> (\<exists>k\<le>j. su_arm_from su + ARM_QUIET_INTERVAL \<le> rd_now (rds ! k))"
proof (rule broker_start_inv [OF assms(1)])
  fix devices
  assume d: "inherit_devices su = Inr devices" and inv: "broker_inv (map rw_fd devices) s"
    and run: "running (bs_state (br_status s)) \<Longrightarrow>
      read_initial_eligibility (su_wait_from su) INITIAL_ELIGIBILITY_WAIT (su_wait su) (su_source su) = Inr Eligible
      \<and> initial_device_update (su_probe su) devices = Inr None
      \<and> br_deadline s = Some (su_arm_from su + ARM_QUIET_INTERVAL)"
  show ?thesis using ready_reply_quiet [OF inv assms(2-6)] run d inherit_devices_bound [OF d] initial_update_idle by blast
qed

text \<open>
  C13. Activity is final at once: in the iteration that sees an event, a lost device or a change of eligibility the
  broker leaves \<open>Arming\<close> or \<open>Ready\<close> before it answers, with the next epoch and a reason of its new state, drops
  every evidence source, and from then on every answer, in that iteration and later, is that same status.
\<close>

theorem activity_is_final:
  assumes "broker_start su = Inr (uid, s0)" and "broker_rounds uid before s0 = Inr (s, rs)"
    and "inherit_devices su = Inr devices" and "running (bs_state (br_status s))"
    and "\<not> quiet_round rd (map rw_fd devices)" and "broker_rounds uid (rd # later) s = Inr (t, replies)"
  shows "bs_state (br_status t) \<in> {Stopped, Unavailable} \<and> status_ok (br_status t)
    \<and> bs_epoch (br_status t) = u64_saturating_succ (bs_epoch (br_status s))
    \<and> bs_instance (br_status t) = bs_instance (br_status s)
    \<and> br_devices t = [] \<and> \<not> br_eligibility t
    \<and> (\<forall>r\<in>set replies. r \<noteq> None \<longrightarrow> r = Some (BrokerStatus_encode (br_status t)))"
proof -
  let ?ds = "map rw_fd devices"
  from assms(1,3) have inv0: "broker_inv ?ds s0" by (auto elim: broker_start_inv)
  have inv: "broker_inv ?ds s" by (rule rounds_inv [OF inv0 assms(2)])
  from assms(6) obtain u reply rest where rnd: "broker_round uid rd s = Inr (u, reply)"
    and more: "broker_rounds uid later u = Inr (t, rest)" and rs: "replies = reply # rest"
    by (auto simp: res_simps)
  from quiet_iff [OF inv assms(4)] assms(5) obtain st re where up: "terminal_update rd s = Some (st, re)"
    by (cases "terminal_update rd s") auto
  have u: "br_status u = terminal (br_status s) st re" using round_status [OF rnd] up by (simp add: apply_update_def)
  have stop: "\<not> running (bs_state (br_status u))"
    using terminal_update_stops [OF up] by (simp add: u terminal_def stops_def)
  have invu: "broker_inv ?ds u" by (rule round_inv [OF inv rnd])
  have same: "br_status t = br_status u" and rest: "\<forall>r\<in>set rest. r \<noteq> None \<longrightarrow> r = Some (BrokerStatus_encode (br_status u))"
    using stopped_rounds [OF invu stop more] by simp_all
  have invt: "broker_inv ?ds t" by (rule rounds_inv [OF invu more])
  have "bs_state (br_status t) \<in> {Stopped, Unavailable}"
    using stop same by (cases "bs_state (br_status t)") (auto simp: running_def)
  moreover have "bs_epoch (br_status t) = u64_saturating_succ (bs_epoch (br_status s))"
    "bs_instance (br_status t) = bs_instance (br_status s)"
    using same by (simp_all add: u terminal_def)
  ultimately show ?thesis
    using invt stop same rest rs round_view(2) [OF rnd] by (auto simp: broker_inv_def running_def)
qed

text \<open>
  C34. A status frame has one reading: 24 bytes decode to a status exactly when the status is one the broker can
  report (a reason that fits its state, an instance and an epoch that are not zero) and the bytes are its encoding.
\<close>

theorem status_frame_canonical:
  assumes "length frame = RESPONSE_BYTES"
  shows "BrokerStatus_decode frame = Inr s \<longleftrightarrow> status_ok s \<and> frame = BrokerStatus_encode s"
  using broker_frame.decode_eq_iff [of frame s] assms by simp

text \<open>
  A broker that starts is well formed: it runs as neither root nor the enrolled user, holds one to 32 devices
  or none at all, its status is one the wire format can carry, with the first epoch, it has no provider, and it is
  never \<open>Ready\<close> before its first iteration. Every state it reaches keeps the agreement of status, evidence and deadline.
\<close>

theorem broker_start_typed:
  assumes "broker_start su = Inr (uid, s)"
  shows "su_euid su \<noteq> 0 \<and> su_euid su \<noteq> uid \<and> \<not> br_provider s \<and> bs_epoch (br_status s) = 1
    \<and> bs_state (br_status s) \<noteq> Ready
    \<and> (\<exists>ds. 1 \<le> length ds \<and> length ds \<le> MAX_EVENT_DESCRIPTORS \<and> broker_inv ds s
        \<and> (\<forall>rds t replies. broker_rounds uid rds s = Inr (t, replies) \<longrightarrow> broker_inv ds t))"
proof (rule broker_start_facts [OF assms])
  fix devices eligibility found ident
  assume d: "inherit_devices su = Inr devices" and f: "initial_device_update (su_probe su) devices = Inr found"
    and s: "s = initial_broker ident (initial_state (eligibility = Eligible) found) (su_arm_from su) (map rw_fd devices)"
    and i: "ident \<noteq> 0" and uid: "su_euid su \<noteq> 0" "su_euid su \<noteq> uid"
  note c = initial_state_cases [OF f, of "eligibility = Eligible"]
  have inv: "broker_inv (map rw_fd devices) s" unfolding s using c i by (intro initial_broker_inv) auto
  have "bs_state (br_status s) \<noteq> Ready"
    using c unfolding s by (auto simp: initial_broker_def stops_def running_def Let_def)
  moreover have "bs_epoch (br_status s) = 1" "\<not> br_provider s" by (simp_all add: s initial_broker_def Let_def)
  moreover have "1 \<le> length (map rw_fd devices)" "length (map rw_fd devices) \<le> MAX_EVENT_DESCRIPTORS"
    using inherit_devices_bound [OF d] by (auto simp: Suc_le_eq)
  ultimately show ?thesis using uid inv rounds_inv [OF inv] by blast
qed
section \<open>A concrete broker\<close>

definition demo_device :: EnrolledDevice where
  "demo_device = \<lparr>ed_event_number = 2, ed_sysfs_path = ''/sys/devices/a/event2'', ed_classes = [''key''],
     ed_identity = \<lparr>di_path = ''p'', di_bus = None, di_vendor = None, di_model = None, di_revision = None, di_serial = None\<rparr>,
     ed_capabilities = \<lparr>dc_values = replicate 10 ''0''\<rparr>\<rparr>"

definition demo_record :: "byte list" where
  "demo_record = as_bytes (DEVICE_SET_HEADER @ device_line demo_device)"

definition no_events :: revents where
  "no_events = \<lparr>ev_in = False, ev_err = False, ev_hup = False, ev_nval = False\<rparr>"

definition readable :: revents where
  "readable = no_events\<lparr>ev_in := True\<rparr>"

definition demo_evdev :: RawDevice where
  "demo_evdev = \<lparr>rw_fd = 4, rw_events = [], rw_keys = Some [], rw_relative = None, rw_absolute = None, rw_misc = None,
     rw_switches = None, rw_leds = None, rw_sounds = None, rw_ff = None, rw_properties = []\<rparr>"

definition demo_startup :: startup where
  "demo_startup = \<lparr>su_args = [''--uid'', ''7''], su_debug = id, su_euid = 5, su_listener = Inr (),
     su_activation = \<lparr>ac_listen_fds = Some ''2'', ac_listen_names = Some ''l:enrolled-device-set:event0'',
       ac_get = Inr [3, 4], ac_cloexec = (\<lambda>_. True)\<rparr>,
     su_confine = (\<lambda>_. Inr ()),
     su_file = (\<lambda>_. \<lparr>fv_metadata = Inr (), fv_is_file = True, fv_nlink = 1, fv_uid = 0, fv_mode = 384,
       fv_len = 200, fv_contents = Inr demo_record\<rparr>),
     su_device = (\<lambda>_. Inr demo_evdev), su_eligibility = Inr (), su_wait_from = 0,
     su_wait = (\<lambda>_. \<lparr>wt_now = 0, wt_poll = Inr (), wt_events = no_events\<rparr>),
     su_source = [Chunk (eligibility_frame Eligible)],
     su_probe = \<lparr>pb_keys = (\<lambda>_. Inr []), pb_poll = Inr (), pb_events = (\<lambda>_. no_events), pb_fetch = (\<lambda>_. Inr [])\<rparr>,
     su_random = [Inr [1, 0, 0, 0, 0, 0, 0, 0]], su_arm_from = 10\<rparr>"

definition demo_round :: "nat \<Rightarrow> round" where
  "demo_round now = \<lparr>rd_poll = Inr (), rd_listener = readable, rd_provider = readable, rd_eligibility = no_events,
     rd_transition = [], rd_device = (\<lambda>_. readable), rd_fetch = (\<lambda>_. Inr [Synchronization SYN_REPORT]), rd_now = now,
     rd_accept = Accepted (Inr 7) (Inr ()), rd_request = [Chunk status_request], rd_write = True\<rparr>"

definition demo_key :: round where
  "demo_key = (demo_round 250000020)\<lparr>rd_fetch := (\<lambda>_. Inr [OtherEvent 1 30 1])\<rparr>"

definition demo_broker :: broker where
  "demo_broker = initial_broker 1 (Arming, Reason_None) 10 [4]"

lemma demo_device_ok: "device_ok demo_device" "path_plain (ed_sysfs_path demo_device)"
proof -
  have "position ''key'' ALLOWED_CLASSES = Some 0"
    by (simp add: position_def ALLOWED_CLASSES_def upt_rec)
  moreover have "check_all validate_capability_value (replicate 10 ''0'') = Inr ()"
    unfolding check_all_iff by (simp add: validate_capability_value_def MAX_CAPABILITY_VALUE_BYTES_def
        contains_double_space_def is_digit_def)
  ultimately show "device_ok demo_device"
    by (simp add: device_ok_def demo_device_def validate_sysfs_path_def is_absolute_def sysfs_components_ok_def demo_event_path
        demo_event_name validate_classes_def DeviceIdentity_new_def validate_value_def MAX_VALUE_BYTES_def
        List.map_filter_def DeviceCapabilities_new_def)
  show "path_plain (ed_sysfs_path demo_device)"
    by (simp add: demo_device_def path_plain_def plain_def)
qed

lemma demo_values: "replicate 10 x = [x, x, x, x, x, x, x, x, x, x]"
  by (simp add: numeral_eq_Suc)

lemma demo_record_decodes: "decode_device_set demo_record = Inr [demo_device]"
proof (rule decode_inverts_encode)
  show "\<forall>d\<in>set [demo_device]. device_ok d \<and> path_plain (ed_sysfs_path d)" using demo_device_ok by simp
  have "length (DEVICE_SET_HEADER @ device_line demo_device) \<le> MAX_DEVICE_SET_BYTES"
    by (simp add: DEVICE_SET_HEADER_def device_line_def device_fields_def demo_device_def optional_def
        demo_event_name MAX_DEVICE_SET_BYTES_def demo_values)
  then show "encode_device_set [demo_device] = Inr demo_record"
    using demo_device_ok by (simp add: encode_device_set_def MAX_EVENT_DESCRIPTORS_def device_ok_def demo_record_def)
qed
lemma demo_capabilities: "matches_device_capabilities demo_evdev (ed_capabilities demo_device)"
proof -
  have "bitmap_codes ''0'' = []"
    by (simp add: bitmap_codes_def split_on_free parse_hex_word_def hex_value_def is_hex_def is_digit_def)
  then show ?thesis
    by (simp add: matches_device_capabilities_def capability_matches_def demo_evdev_def demo_device_def codes_def)
qed

lemma demo_names: "split_on CHR '':'' ''l:enrolled-device-set:event0'' = [''l'', ''enrolled-device-set'', ''event0'']"
  by (simp add: split_on_step del: split_on.simps(2))

lemma demo_decimal: "decimal 0 = ''0''"
  by (simp add: decimal.simps char_of_def bit_0)

lemma demo_received: "receive_inherited_files (su_activation demo_startup) 33 1 =
    Inr [\<lparr>if_name = ''enrolled-device-set'', if_descriptor = 3\<rparr>, \<lparr>if_name = ''event0'', if_descriptor = 4\<rparr>]"
proof -
  have "parse_usize ''2'' = Some 2" by (simp add: parse_usize_def is_digit_def)
  moreover have "validate_names ''l:enrolled-device-set:event0'' 3 = Inr [''l'', ''enrolled-device-set'', ''event0'']"
    by (simp add: validate_names_def demo_names bad_name_def del: split_on.simps)
  ultimately show ?thesis by (simp add: receive_inherited_files_def demo_startup_def ok_or_def)
qed

lemma demo_set_read: "read_enrolled_device_set demo_startup 3 0 = Inr [demo_device]"
proof -
  have "length demo_record \<le> MAX_DEVICE_SET_BYTES"
    using demo_record_decodes by (auto simp: decode_device_set_def split: if_splits)
  moreover have "\<not> file_refused 0 (su_file demo_startup 3)"
    by (simp add: demo_startup_def file_refused_def MAX_DEVICE_SET_BYTES_def)
  ultimately show ?thesis
    by (simp add: read_enrolled_device_set_def demo_record_decodes Let_def) (simp add: demo_startup_def demo_record_decodes)
qed

lemma demo_inherit: "inherit_devices demo_startup = Inr [demo_evdev]"
proof -
  have opened: "open_devices demo_startup 0 [\<lparr>if_name = ''event0'', if_descriptor = 4\<rparr>] = Inr [demo_evdev]"
    by (simp add: open_inherited_device_def demo_startup_def demo_decimal)
  show ?thesis
    by (simp add: inherit_devices_def MAX_EVENT_DESCRIPTORS_def demo_received [simplified] demo_set_read first_of_def
        opened demo_capabilities del: open_devices.simps)
qed

lemma read_exact_chunk: "length bs = n \<Longrightarrow> 0 < n \<Longrightarrow> read_exact n [] [Chunk bs] = (Inr bs, [])"
  by (cases bs) (simp_all add: read_exact.simps)

lemma demo_eligibility:
  "read_initial_eligibility 0 INITIAL_ELIGIBILITY_WAIT w [Chunk (eligibility_frame Eligible)] = Inr Eligible"
proof -
  have len: "length (eligibility_frame Eligible) = ELIGIBILITY_FRAME_BYTES"
    by (simp add: eligibility_frame_head head_frame_parts(6) magic_length ELIGIBILITY_FRAME_BYTES_def)
  then have "initial_frame d w 0 [] [Chunk (eligibility_frame Eligible)] = Inr (eligibility_frame Eligible)" for d
    by (cases "eligibility_frame Eligible") (simp_all add: initial_frame.simps ELIGIBILITY_FRAME_BYTES_def)
  moreover have "decode_eligibility (eligibility_frame Eligible) = Inr Eligible"
    using eligibility_channel.decode_encode [of Eligible] len by (simp add: eligibility_decoder_def)
  ultimately show ?thesis
    using len by (simp add: read_initial_eligibility_def read_eligibility_def read_bytes_def
        read_exact_chunk ELIGIBILITY_FRAME_BYTES_def)
qed

lemma demo_broker_start: "broker_start demo_startup = Inr (7, demo_broker)"
proof -
  have "initial_device_update (su_probe demo_startup) [demo_evdev] = Inr None"
    by (simp add: initial_device_update_def demo_startup_def demo_evdev_def no_events_def lost_def Let_def)
  moreover have "random_broker_instance (su_random demo_startup) = Inr 1"
    by (simp add: random_broker_instance_def demo_startup_def fill_random.simps u64_from_le_bytes_def)
  moreover have "Arguments_parse (su_debug demo_startup) None (su_args demo_startup) = Inr 7"
    by (simp add: demo_startup_def to_str_def first_of_def parse_u32_arg_def ok_or_def parse_u32_def is_digit_def fallible_def)
  ultimately show ?thesis
    using demo_inherit demo_eligibility
    by (simp add: broker_start_def demo_broker_def demo_evdev_def initial_state_def fallible_def)
      (simp add: demo_startup_def)
qed
lemma demo_request: "read_status_request [Chunk status_request] = (Inr (), [])"
proof -
  have req: "status_request = head_frame BROKER_MAGIC BROKER_REVISION OP_STATUS 0 @ []"
    by (simp add: status_request_def head_frame_def)
  have "length status_request = REQUEST_BYTES"
    by (simp add: req head_frame_parts(6) magic_length REQUEST_BYTES_def)
  then show ?thesis
    using head_frame_parts(1-4) [OF magic_length(1), of BROKER_REVISION OP_STATUS 0 "[]"]
    by (simp add: read_status_request_def read_bytes_def read_exact_chunk REQUEST_BYTES_def) (simp add: req)
qed

definition demo_broker_status :: "BrokerState \<Rightarrow> StopReason \<Rightarrow> u64 \<Rightarrow> BrokerStatus" where
  "demo_broker_status st re ep = \<lparr>bs_instance = 1, bs_epoch = ep, bs_state = st, bs_reason = re\<rparr>"

definition demo_running :: broker where
  "demo_running = \<lparr>br_status = demo_broker_status Ready Reason_None 1, br_devices = [4], br_eligibility = True,
     br_deadline = None, br_provider = True\<rparr>"

definition demo_stopped :: broker where
  "demo_stopped = \<lparr>br_status = demo_broker_status Stopped Reason_Activity 2, br_devices = [], br_eligibility = False,
     br_deadline = None, br_provider = True\<rparr>"

lemmas demo_round_simps = broker_round_def apply_update_def terminal_update_def eligibility_update_def device_update_def
  serve_listener_def serve_provider_def Let_def lost_def no_events_def readable_def demo_round_def demo_key_def
  demo_request

lemma demo_first: "broker_round 7 (demo_round 250000010) demo_broker = Inr (demo_running, None)"
  by (simp add: demo_round_simps demo_broker_def initial_broker_def ARM_QUIET_INTERVAL_def demo_running_def demo_broker_status_def)

lemma demo_second: "broker_round 7 (demo_round 250000015) demo_running =
    Inr (demo_running, Some (BrokerStatus_encode (demo_broker_status Ready Reason_None 1)))"
  by (simp add: demo_round_simps demo_running_def demo_broker_status_def)

lemma demo_third: "broker_round 7 demo_key demo_running =
    Inr (demo_stopped, Some (BrokerStatus_encode (demo_broker_status Stopped Reason_Activity 2)))"
  by (simp add: demo_round_simps demo_running_def demo_stopped_def demo_broker_status_def terminal_def u64_saturating_succ_def)

lemma demo_status_ok: "status_ok (demo_broker_status Ready Reason_None 1)" "status_ok (demo_broker_status Stopped Reason_Activity 2)"
  by (simp_all add: status_ok_def demo_broker_status_def valid_state_def)

theorem ready_means_quiet_witness:
  "\<exists>devices. inherit_devices demo_startup = Inr devices \<and> devices \<noteq> []
    \<and> (\<forall>k\<le>1. quiet_round ([demo_round 250000010, demo_round 250000015] ! k) (map rw_fd devices))"
  using ready_means_quiet [OF demo_broker_start, of "[demo_round 250000010, demo_round 250000015]" demo_running
      "[None, Some (BrokerStatus_encode (demo_broker_status Ready Reason_None 1))]" 1
      "BrokerStatus_encode (demo_broker_status Ready Reason_None 1)" "demo_broker_status Ready Reason_None 1"]
    demo_first demo_second status_decode_encode [OF demo_status_ok(1)]
  by (auto simp: demo_broker_status_def)

theorem activity_is_final_witness:
  "broker_rounds 7 [demo_round 250000010, demo_key] demo_broker =
    Inr (demo_stopped, [None, Some (BrokerStatus_encode (br_status demo_stopped))])
   \<and> bs_state (br_status demo_stopped) \<in> {Stopped, Unavailable} \<and> br_devices demo_stopped = []"
proof -
  have "\<not> quiet_round demo_key (map rw_fd [demo_evdev])"
    by (simp add: quiet_round_def quiet_device_def demo_round_simps demo_evdev_def)
  moreover have "broker_rounds 7 [demo_round 250000010] demo_broker = Inr (demo_running, [None])"
    using demo_first by simp
  moreover have run: "broker_rounds 7 [demo_key] demo_running =
      Inr (demo_stopped, [Some (BrokerStatus_encode (demo_broker_status Stopped Reason_Activity 2))])"
    using demo_third by simp
  moreover have "running (bs_state (br_status demo_running))"
    by (simp add: demo_running_def demo_broker_status_def running_def)
  ultimately have "bs_state (br_status demo_stopped) \<in> {Stopped, Unavailable} \<and> br_devices demo_stopped = []"
    using activity_is_final [OF demo_broker_start _ demo_inherit] by blast
  then show ?thesis using demo_first demo_third by (simp add: demo_stopped_def)
qed

theorem status_frame_canonical_witness:
  "length (BrokerStatus_encode (demo_broker_status Ready Reason_None 1)) = RESPONSE_BYTES
   \<and> BrokerStatus_decode (BrokerStatus_encode (demo_broker_status Ready Reason_None 1)) = Inr (demo_broker_status Ready Reason_None 1)"
  using status_frame_canonical [of "BrokerStatus_encode (demo_broker_status Ready Reason_None 1)" "demo_broker_status Ready Reason_None 1"]
    demo_status_ok by simp

theorem broker_start_typed_witness:
  "broker_start demo_startup = Inr (7, demo_broker) \<and> bs_state (br_status demo_broker) \<noteq> Ready
   \<and> (\<exists>ds. 1 \<le> length ds \<and> length ds \<le> MAX_EVENT_DESCRIPTORS \<and> broker_inv ds demo_broker)"
  using broker_start_typed [OF demo_broker_start] demo_broker_start by blast

end
