(* ===== verification/Companion_Seat.thy ===== *)
theory Companion_Seat
  imports Wire_Codec Wire_Advertisement Wire_Reply Provider_Config Desktop_Entry Observer_Scan
begin

text \<open>
  The MCP companion's side of a session (\<^verbatim>\<open>agent-seat-mcp/src/seat.rs\<close>) and its discovery of the
  provider's socket (\<^verbatim>\<open>discovery.rs\<close>): opening a session, pairing every response with its request,
  the advice given with each failure, and the precedence and checks of the three socket sources.

  As in the provider's session, JSON and the socket are arguments. What the X server answers during
  discovery is the record \<open>x11_view\<close>, with both readings of the selection's owner.
\<close>

section \<open>Errors\<close>

record SeatError =
  se_code :: ErrorCode
  se_retry :: Retry
  se_message :: string

definition seat_unavailable :: "string \<Rightarrow> SeatError" where
  "seat_unavailable m = \<lparr>se_code = Err_Unavailable, se_retry = Retry_Reconnect, se_message = m\<rparr>"

definition seat_malformed :: "string \<Rightarrow> SeatError" where
  "seat_malformed m = \<lparr>se_code = Err_Malformed, se_retry = Retry_Reconnect, se_message = m\<rparr>"

definition seat_internal :: "string \<Rightarrow> SeatError" where
  "seat_internal m = \<lparr>se_code = Err_Internal, se_retry = Retry_Never, se_message = m\<rparr>"

fun CodecError_to_string :: "CodecError \<Rightarrow> string" where
  "CodecError_to_string (Io e) = ''stream I/O failed: '' @ e"
| "CodecError_to_string TruncatedPrefix = ''frame length prefix was truncated''"
| "CodecError_to_string TruncatedPayload = ''frame payload was truncated''"
| "CodecError_to_string Empty = ''frame payload is empty''"
| "CodecError_to_string (CodecError.TooLarge n limit) =
    ''frame has '' @ decimal n @ '' bytes; maximum is '' @ decimal limit"
| "CodecError_to_string (Json e) = ''frame JSON is invalid: '' @ e"
| "CodecError_to_string (Invalid e) = ''frame message is invalid: '' @ e"

definition codec_error :: "CodecError \<Rightarrow> SeatError" where
  "codec_error e = (case e of
       Io i \<Rightarrow> seat_unavailable (''provider I/O failed: '' @ i)
     | CodecError.TooLarge n limit \<Rightarrow>
         \<lparr>se_code = Err_TooLarge, se_retry = Retry_Never, se_message = CodecError_to_string e\<rparr>
     | _ \<Rightarrow> seat_malformed (CodecError_to_string e))"

fun goodbye_retry :: "ErrorCode \<Rightarrow> Retry" where
  "goodbye_retry Err_NoSuchClient = Retry_Reobserve"
| "goodbye_retry Err_Stale = Retry_Reobserve"
| "goodbye_retry Err_TimedOut = Retry_Reobserve"
| "goodbye_retry Err_ResyncRequired = Retry_Reobserve"
| "goodbye_retry Err_Unavailable = Retry_Reconnect"
| "goodbye_retry Err_Malformed = Retry_Reconnect"
| "goodbye_retry Err_Internal = Retry_Reconnect"
| "goodbye_retry Err_Revoked = Retry_Reconnect"
| "goodbye_retry Err_SessionClosed = Retry_Reconnect"
| "goodbye_retry Err_IncompatibleRevision = Retry_Never"
| "goodbye_retry Err_Refused = Retry_Never"
| "goodbye_retry Err_Unsupported = Retry_Never"
| "goodbye_retry Err_InvalidArgument = Retry_Never"
| "goodbye_retry Err_TooLarge = Retry_Never"

definition goodbye_error :: "string \<Rightarrow> Goodbye \<Rightarrow> SeatError" where
  "goodbye_error context g =
    \<lparr>se_code = bye_code g, se_retry = goodbye_retry (bye_code g),
     se_message = context @ '': '' @ ErrorCode_as_str (bye_code g)
       @ (case bye_message g of None \<Rightarrow> [] | Some m \<Rightarrow> '': '' @ m)\<rparr>"

section \<open>A session with the provider\<close>

record 'w seat_wire =
  sw_to_vec :: "ClientMessage \<Rightarrow> json_error + byte list"
  sw_from_slice :: "byte list \<Rightarrow> json_error + ServerMessage"
  sw_write_all :: "'w \<Rightarrow> byte list \<Rightarrow> (io_error + unit) \<times> 'w"

text \<open>
  The stream of a \<^verbatim>\<open>Seat\<close> is what will be read from it and what was written to it;
  \<open>st_long\<close> tells which of the two read timeouts is set. \<open>timeouts\<close> arguments are the answers of the
  successive \<^verbatim>\<open>set_read_timeout\<close> calls.
\<close>

record 'w Seat =
  st_reader :: reader
  st_writer :: 'w
  st_next :: u64
  st_long :: bool

definition requested_capabilities :: "Capability list" where
  "requested_capabilities =
    [Cap_ObserveStructure, Cap_ObserveTitles, Cap_ObserveEvents, Cap_ManageActivate, Cap_ManageClose,
     Cap_ManageWorkspace, Cap_ManageState, Cap_ManageGeometry, Cap_LaunchList, Cap_LaunchExecute,
     Cap_InputPointer, Cap_InputKeyboard, Cap_TextTransfer, Cap_CaptureObscured]"

definition MCP_VERSION :: string where "MCP_VERSION = ''0.2.1''"

definition seat_text :: "nat \<Rightarrow> string \<Rightarrow> SeatError + string" where
  "seat_text limit v = map_err (\<lambda>e. seat_internal (BoundError_to_string e)) (BoundedText_new limit v)"

definition companion_hello :: "SeatError + ClientMessage" where
  "companion_hello =
    res_bind (map_err (\<lambda>e. seat_internal (BoundError_to_string e))
      (BoundedList_new MAX_CAPABILITIES requested_capabilities)) (\<lambda>requested.
    res_bind (seat_text MAX_NAME_BYTES PROTOCOL_NAME) (\<lambda>protocol.
    res_bind (seat_text MAX_NAME_BYTES ''agent-seat-mcp'') (\<lambda>name.
    res_bind (seat_text MAX_VERSION_BYTES MCP_VERSION) (\<lambda>version.
    res_bind (seat_text MAX_PURPOSE_BYTES ''translate MCP desktop tools'') (\<lambda>purpose.
    Inr (CM_Hello \<lparr>hello_protocol = protocol, hello_revision = PROTOCOL_REVISION,
      hello_peer = \<lparr>peer_name = name, peer_version = version, peer_purpose = purpose\<rparr>,
      hello_requested = requested\<rparr>))))))"

definition seat_send :: "'w seat_wire \<Rightarrow> ClientMessage \<Rightarrow> ('w Seat, SeatError, unit) st" where
  "seat_send wire m st =
    (let (r, w) = write_frame (sw_to_vec wire) validate_ClientMessage (sw_write_all wire) MAX_REQUEST_FRAME_BYTES m
        (st_writer st) in
     (map_err codec_error r, st\<lparr>st_writer := w\<rparr>))"

definition seat_receive :: "'w seat_wire \<Rightarrow> ('w Seat, SeatError, ServerMessage ReadFrame) st" where
  "seat_receive wire st =
    (let (r, rs) = read_frame (sw_from_slice wire) validate_ServerMessage MAX_RESPONSE_FRAME_BYTES (st_reader st) in
     (map_err codec_error r, st\<lparr>st_reader := rs\<rparr>))"

fun opening_reply :: "ServerMessage ReadFrame \<Rightarrow> SeatError + Welcome" where
  "opening_reply (Message (SM_Welcome w)) = Inr w"
| "opening_reply (Message (SM_Goodbye g)) = Inl (goodbye_error ''provider refused the session'' g)"
| "opening_reply (Message (SM_Response r)) = Inl (seat_malformed ''provider responded before opening the session'')"
| "opening_reply CleanEof = Inl (seat_unavailable ''provider closed during session opening'')"

definition Seat_from_stream :: "'w seat_wire \<Rightarrow> string + unit \<Rightarrow> reader \<Rightarrow> 'w \<Rightarrow> SeatError + 'w Seat" where
  "Seat_from_stream wire timeouts rs w =
    res_bind (map_err (\<lambda>e. seat_unavailable (''cannot bound provider I/O: '' @ e)) timeouts) (\<lambda>_.
    res_bind companion_hello (\<lambda>hello.
    (case st_bind (seat_send wire hello) (\<lambda>_. seat_receive wire)
        \<lparr>st_reader = rs, st_writer = w, st_next = 1, st_long = False\<rparr> of
       (Inl e, st) \<Rightarrow> Inl e
     | (Inr frame, st) \<Rightarrow>
         res_bind (opening_reply frame) (\<lambda>welcome.
         res_bind (map_err seat_malformed (validate_Welcome welcome)) (\<lambda>_. Inr st)))))"

definition Seat_connect :: "'w seat_wire \<Rightarrow> string \<Rightarrow> string + (reader \<times> 'w) \<Rightarrow> string + unit \<Rightarrow> SeatError + 'w Seat" where
  "Seat_connect wire path connected timeouts =
    res_bind (map_err (\<lambda>e. seat_unavailable (''cannot connect to '' @ path @ '': '' @ e)) connected) (\<lambda>(rs, w).
    Seat_from_stream wire timeouts rs w)"

definition response_for :: "RequestId \<Rightarrow> ServerMessage ReadFrame \<Rightarrow> SeatError + Response" where
  "response_for ident frame = (case frame of
       Message (SM_Response r) \<Rightarrow>
         if resp_id r = ident then Inr r
         else Inl (seat_malformed ''provider response identity does not match the request'')
     | Message (SM_Goodbye g) \<Rightarrow> Inl (goodbye_error ''provider closed the session'' g)
     | Message (SM_Welcome w) \<Rightarrow> Inl (seat_malformed ''provider repeated the opening response'')
     | CleanEof \<Rightarrow> Inl (seat_unavailable ''provider closed before responding''))"

definition is_long_input :: "Call \<Rightarrow> bool" where
  "is_long_input c \<longleftrightarrow> (case c of Call_KeyboardWrite _ \<Rightarrow> True | _ \<Rightarrow> False)"

definition set_timeout :: "string \<Rightarrow> string + unit \<Rightarrow> bool \<Rightarrow> ('w Seat, SeatError, unit) st" where
  "set_timeout context answer long st = (case answer of
       Inl e \<Rightarrow> (Inl (seat_unavailable (context @ e)), st) | Inr _ \<Rightarrow> (Inr (), st\<lparr>st_long := long\<rparr>))"

definition Seat_call :: "'w seat_wire \<Rightarrow> string + unit \<Rightarrow> string + unit \<Rightarrow> Call \<Rightarrow> ('w Seat, SeatError, Response) st" where
  "Seat_call wire extended restored call =
    st_bind (if is_long_input call then set_timeout ''cannot extend provider I/O bound: '' extended True else st_return ()) (\<lambda>_.
    st_bind (st_get st_next) (\<lambda>ident.
    st_bind (st_try (ok_or (checked_add ident 1) (seat_internal ''provider request identity space is exhausted''))) (\<lambda>following.
    st_bind (st_modify (\<lambda>st. st\<lparr>st_next := following\<rparr>)) (\<lambda>_.
    st_bind (seat_send wire (CM_Request \<lparr>req_id = ident, req_call = call\<rparr>)) (\<lambda>_.
    st_bind (seat_receive wire) (\<lambda>frame.
    st_bind (if is_long_input call then set_timeout ''cannot restore provider I/O bound: '' restored False else st_return ()) (\<lambda>_.
    st_try (response_for ident frame))))))))"
section \<open>Discovery\<close>

definition MAX_SOCKET_PATH_BYTES :: nat where "MAX_SOCKET_PATH_BYTES = 107"
definition ADVERTISEMENT_PROPERTY :: string where "ADVERTISEMENT_PROPERTY = ''_AGENT_SEAT''"
definition MAX_PROPERTY_LONGS :: nat where "MAX_PROPERTY_LONGS = (MAX_ADVERTISEMENT_BYTES + 3) div 4 + 1"

datatype DiscoveryError =
  DE_InvalidPath string | DE_X11 string | DE_Advertisement AdvertisementError | DE_AdvertisementShape string
| DE_AdvertisementUtf8

fun DiscoveryError_code :: "DiscoveryError \<Rightarrow> string" where
  "DiscoveryError_code (DE_InvalidPath _) = ''invalid_argument''"
| "DiscoveryError_code (DE_Advertisement Revision) = ''incompatible_revision''"
| "DiscoveryError_code (DE_X11 _) = ''unavailable''"
| "DiscoveryError_code _ = ''malformed''"

fun DiscoveryError_retry :: "DiscoveryError \<Rightarrow> string" where
  "DiscoveryError_retry (DE_InvalidPath _) = ''never''"
| "DiscoveryError_retry (DE_Advertisement Revision) = ''never''"
| "DiscoveryError_retry _ = ''reconnect''"

fun AdvertisementError_to_string :: "AdvertisementError \<Rightarrow> string" where
  "AdvertisementError_to_string AdvertisementError.TooLarge = ''advertisement exceeds 256 bytes''"
| "AdvertisementError_to_string Fields = ''advertisement must contain exactly three fields''"
| "AdvertisementError_to_string Protocol = ''advertisement names another protocol''"
| "AdvertisementError_to_string Revision = ''advertisement names an unsupported revision''"
| "AdvertisementError_to_string Socket = ''advertisement socket is not a bounded absolute path''"

fun DiscoveryError_to_string :: "DiscoveryError \<Rightarrow> string" where
  "DiscoveryError_to_string (DE_InvalidPath source) = source @ '' is not a bounded absolute socket path''"
| "DiscoveryError_to_string (DE_X11 e) = ''cannot inspect X11 Agent Seat discovery: '' @ e"
| "DiscoveryError_to_string (DE_Advertisement e) =
    ''invalid Agent Seat advertisement: '' @ AdvertisementError_to_string e"
| "DiscoveryError_to_string (DE_AdvertisementShape e) = ''invalid Agent Seat advertisement: '' @ e"
| "DiscoveryError_to_string DE_AdvertisementUtf8 = ''invalid Agent Seat advertisement: property is not UTF-8''"

definition validate_path :: "string \<Rightarrow> string \<Rightarrow> DiscoveryError + string" where
  "validate_path path source =
    (if path = [] \<or> \<not> is_absolute path \<or> CHR 0x00 \<in> set path \<or> length path > MAX_SOCKET_PATH_BYTES
     then Inl (DE_InvalidPath source) else Inr path)"

text \<open>The X server as discovery meets it; \<open>xv_atom\<close> answers \<^verbatim>\<open>intern_atom\<close> with \<^verbatim>\<open>only_if_exists\<close>.\<close>

record x11_view =
  xv_connect :: "string + nat"
  xv_roots :: "u32 list"
  xv_atom :: "string \<Rightarrow> string + u32"
  xv_owner :: "u32 \<Rightarrow> string + u32"
  xv_property :: "u32 \<Rightarrow> u32 \<Rightarrow> string + property_reply"
  xv_owner_again :: "u32 \<Rightarrow> string + u32"

definition selection_name :: "nat \<Rightarrow> string" where
  "selection_name screen = ''_AGENT_SEAT_S'' @ decimal screen"

definition x11_result :: "string + 'a \<Rightarrow> DiscoveryError + 'a" where
  "x11_result r = map_err DE_X11 r"

definition read_property :: "x11_view \<Rightarrow> u32 \<Rightarrow> u32 \<Rightarrow> u32 \<Rightarrow> DiscoveryError + byte list option" where
  "read_property xv window property utf8 =
    res_bind (x11_result (xv_property xv window property)) (\<lambda>reply.
    if pr_type reply = X_NONE then Inr None
    else if pr_type reply \<noteq> utf8 \<or> pr_format reply \<noteq> 8 \<or> pr_bytes_after reply \<noteq> 0
      \<or> length (pr_value reply) > MAX_ADVERTISEMENT_BYTES
    then Inl (DE_AdvertisementShape ''property type, format, or size is invalid'')
    else Inr (Some (pr_value reply)))"

text \<open>\<open>found\<close> is the \<^verbatim>\<open>let Some(..) = .. else { return Ok(None) }\<close> of the source.\<close>

definition found :: "'a option \<Rightarrow> ('a \<Rightarrow> 'e + 'b option) \<Rightarrow> 'e + 'b option" where
  "found x f = (case x of None \<Rightarrow> Inr None | Some a \<Rightarrow> f a)"

definition discover_x11 :: "string option \<Rightarrow> x11_view \<Rightarrow> DiscoveryError + string option" where
  "discover_x11 display xv =
    (if display = None \<or> display = Some [] then Inr None
     else
       res_bind (x11_result (xv_connect xv)) (\<lambda>screen_index.
       res_bind (ok_or (if screen_index < length (xv_roots xv) then Some (xv_roots xv ! screen_index) else None)
         (DE_X11 ''selected screen is absent'')) (\<lambda>root.
       res_bind (x11_result (xv_atom xv (selection_name screen_index))) (\<lambda>selection.
       if selection = X_NONE then Inr None
       else
         res_bind (x11_result (xv_owner xv selection)) (\<lambda>owner.
         if owner = X_NONE then Inr None
         else
           res_bind (x11_result (xv_atom xv ADVERTISEMENT_PROPERTY)) (\<lambda>property.
           res_bind (x11_result (xv_atom xv ''UTF8_STRING'')) (\<lambda>utf8.
           if property = X_NONE \<or> utf8 = X_NONE then Inr None
           else
             res_bind (read_property xv owner property utf8) (\<lambda>owner_read.
             found owner_read (\<lambda>owner_value.
             res_bind (read_property xv root property utf8) (\<lambda>root_read.
             found root_read (\<lambda>root_value.
             if owner_value \<noteq> root_value then Inr None
             else
               res_bind (x11_result (xv_owner_again xv selection)) (\<lambda>current_owner.
               if current_owner \<noteq> owner then Inr None
               else
                 res_bind (ok_or (from_utf8 root_value) DE_AdvertisementUtf8) (\<lambda>encoded.
                 res_bind (map_err DE_Advertisement (Advertisement_parse encoded)) (\<lambda>advertisement.
                 map_ok Some (validate_path (adv_socket advertisement) ''_AGENT_SEAT'')))))))))))))))"

record discovery_env =
  dv_socket :: "string option"
  dv_display :: "string option"
  dv_x11 :: x11_view

definition resolve_socket :: "string option \<Rightarrow> discovery_env \<Rightarrow> DiscoveryError + string option" where
  "resolve_socket explicit env = (case explicit of
       Some path \<Rightarrow> map_ok Some (validate_path path ''--socket'')
     | None \<Rightarrow> (case dv_socket env of
          Some path \<Rightarrow> map_ok Some (validate_path path ''AGENT_SEAT_SOCKET'')
        | None \<Rightarrow> discover_x11 (dv_display env) (dv_x11 env)))"
section \<open>Responses belong to their requests\<close>

lemma set_timeout_frame:
  "set_timeout context answer long st = (r, st') \<Longrightarrow>
    st_reader st' = st_reader st \<and> st_writer st' = st_writer st \<and> st_next st' = st_next st
    \<and> st_long st' = (if is_ok r then long else st_long st)"
  by (auto simp: set_timeout_def split: sum.splits)

lemma timeout_step:
  "(if b then set_timeout context answer long else st_return ()) st = (Inr u, st') \<Longrightarrow>
    st_reader st' = st_reader st \<and> st_writer st' = st_writer st \<and> st_next st' = st_next st
    \<and> st_long st' = (if b then long else st_long st)"
  by (auto dest: set_timeout_frame split: if_splits)

lemma seat_send_ok:
  "seat_send wire m st = (Inr u, st') \<Longrightarrow>
    write_frame (sw_to_vec wire) validate_ClientMessage (sw_write_all wire) MAX_REQUEST_FRAME_BYTES m (st_writer st)
      = (Inr (), st_writer st')
    \<and> st' = st\<lparr>st_writer := st_writer st'\<rparr>"
  by (auto simp: seat_send_def Let_def res_simps split: prod.splits)

lemma seat_receive_ok:
  "seat_receive wire st = (Inr frame, st') \<Longrightarrow>
    read_frame (sw_from_slice wire) validate_ServerMessage MAX_RESPONSE_FRAME_BYTES (st_reader st)
      = (Inr frame, st_reader st')
    \<and> st' = st\<lparr>st_reader := st_reader st'\<rparr>"
  by (auto simp: seat_receive_def Let_def res_simps split: prod.splits)

lemma response_for_ok: "response_for ident frame = Inr r \<longleftrightarrow> frame = Message (SM_Response r) \<and> resp_id r = ident"
  by (auto simp: response_for_def split: ReadFrame.splits ServerMessage.splits if_splits)

lemma read_frame_message_valid:
  "read_frame from_slice validate limit rs = (Inr (Message m), rs') \<Longrightarrow> validate m = Inr ()"
  by (auto simp: read_frame_def Let_def res_simps
      split: prod.split_asm sum.split_asm option.split_asm if_split_asm exact_error.split_asm)

lemma Seat_call_ok:
  assumes "Seat_call wire extended restored call st = (Inr r, st')"
  shows "resp_id r = st_next st \<and> checked_add (st_next st) 1 = Some (st_next st')
    \<and> write_frame (sw_to_vec wire) validate_ClientMessage (sw_write_all wire) MAX_REQUEST_FRAME_BYTES
        (CM_Request \<lparr>req_id = st_next st, req_call = call\<rparr>) (st_writer st) = (Inr (), st_writer st')
    \<and> read_frame (sw_from_slice wire) validate_ServerMessage MAX_RESPONSE_FRAME_BYTES (st_reader st)
        = (Inr (Message (SM_Response r)), st_reader st')
    \<and> st_long st' = (if is_long_input call then False else st_long st)"
proof -
  from assms obtain s1 s3 s4 frame following u1 u2 u3 where
    1: "(if is_long_input call then set_timeout ''cannot extend provider I/O bound: '' extended True else st_return ()) st = (Inr u1, s1)"
    and f: "checked_add (st_next s1) 1 = Some following"
    and 2: "seat_send wire (CM_Request \<lparr>req_id = st_next s1, req_call = call\<rparr>) (s1\<lparr>st_next := following\<rparr>) = (Inr u2, s3)"
    and 3: "seat_receive wire s3 = (Inr frame, s4)"
    and 4: "(if is_long_input call then set_timeout ''cannot restore provider I/O bound: '' restored False else st_return ()) s4 = (Inr u3, st')"
    and r: "response_for (st_next s1) frame = Inr r"
    unfolding Seat_call_def st_bind_eq_Inr by auto
  note a = timeout_step [OF 1] and b = seat_send_ok [OF 2] and c = seat_receive_ok [OF 3] and d = timeout_step [OF 4]
  obtain w rs where w: "s3 = s1\<lparr>st_next := following, st_writer := w\<rparr>" and rs: "s4 = s3\<lparr>st_reader := rs\<rparr>"
    using b c by (metis Seat.ext_inject Seat.surjective)
  show ?thesis using a b c d f r unfolding w rs by (auto simp: response_for_ok)
qed

text \<open>
  C23. A call gets its own response: when a call returns a response, the companion wrote exactly one frame, the
  request with the session's next identity, read exactly one frame, that response carries the same identity and is
  valid, the next identity is one larger without wrapping, and the read timeout is back to its usual bound.
\<close>

theorem response_pairs_request:
  assumes "Seat_call wire extended restored call st = (Inr r, st')" and "\<not> st_long st"
  shows "resp_id r = st_next st \<and> validate_Response r = Inr () \<and> unat (st_next st') = unat (st_next st) + 1
    \<and> write_frame (sw_to_vec wire) validate_ClientMessage (sw_write_all wire) MAX_REQUEST_FRAME_BYTES
        (CM_Request \<lparr>req_id = resp_id r, req_call = call\<rparr>) (st_writer st) = (Inr (), st_writer st')
    \<and> read_frame (sw_from_slice wire) validate_ServerMessage MAX_RESPONSE_FRAME_BYTES (st_reader st)
        = (Inr (Message (SM_Response r)), st_reader st')
    \<and> \<not> st_long st'"
proof -
  note ok = Seat_call_ok [OF assms(1)]
  then have "validate_ServerMessage (SM_Response r) = Inr ()" by (blast intro: read_frame_message_valid)
  then show ?thesis using ok assms(2) by (auto simp: checked_add_Some_iff)
qed

section \<open>Discovery finds only what a selection owner advertises\<close>

lemma read_property_Some:
  "read_property xv window property utf8 = Inr (Some bytes) \<Longrightarrow>
    \<exists>reply. xv_property xv window property = Inr reply \<and> pr_type reply = utf8 \<and> pr_format reply = 8
      \<and> pr_bytes_after reply = 0 \<and> pr_value reply = bytes"
  by (auto simp: read_property_def x11_result_def res_simps split: if_splits)

lemma found_Some: "found x f = Inr (Some b) \<longleftrightarrow> (\<exists>a. x = Some a \<and> f a = Inr (Some b))"
  by (auto simp: found_def split: option.splits)

lemma validate_path_ok:
  "validate_path p source = Inr q \<longleftrightarrow> q = p \<and> p \<noteq> [] \<and> is_absolute p \<and> CHR 0x00 \<notin> set p \<and> length p \<le> MAX_SOCKET_PATH_BYTES"
  by (auto simp: validate_path_def)

text \<open>A path is advertised when the owner of the screen's selection, the same before and after, and the root window both carry it.\<close>

definition advertises :: "x11_view \<Rightarrow> string \<Rightarrow> bool" where
  "advertises xv path \<longleftrightarrow> (\<exists>screen selection owner property utf8.
    xv_connect xv = Inr screen \<and> screen < length (xv_roots xv) \<and> xv_atom xv (selection_name screen) = Inr selection
    \<and> xv_owner xv selection = Inr owner \<and> xv_owner_again xv selection = Inr owner \<and> owner \<noteq> X_NONE
    \<and> xv_atom xv ADVERTISEMENT_PROPERTY = Inr property \<and> xv_atom xv ''UTF8_STRING'' = Inr utf8
    \<and> (\<forall>window \<in> {owner, xv_roots xv ! screen}. \<exists>reply. xv_property xv window property = Inr reply
        \<and> pr_type reply = utf8 \<and> pr_value reply = as_bytes (Advertisement_encode \<lparr>adv_socket = path\<rparr>)))"

lemma discover_advertised:
  assumes "discover_x11 display xv = Inr (Some path)"
  shows "advertises xv path \<and> validate_path path ''_AGENT_SEAT'' = Inr path"
proof -
  from assms obtain screen selection owner property utf8 bytes encoded adv where
    s: "xv_connect xv = Inr screen" "screen < length (xv_roots xv)" "xv_atom xv (selection_name screen) = Inr selection"
      "xv_atom xv ADVERTISEMENT_PROPERTY = Inr property" "xv_atom xv ''UTF8_STRING'' = Inr utf8"
    and o: "xv_owner xv selection = Inr owner" "owner \<noteq> X_NONE" "xv_owner_again xv selection = Inr owner"
    and p: "read_property xv owner property utf8 = Inr (Some bytes)"
      "read_property xv (xv_roots xv ! screen) property utf8 = Inr (Some bytes)"
    and e: "from_utf8 bytes = Some encoded" "Advertisement_parse encoded = Inr adv"
      "validate_path (adv_socket adv) ''_AGENT_SEAT'' = Inr path"
    by (auto simp: discover_x11_def x11_result_def res_simps found_Some split: if_splits)
  have path: "adv = \<lparr>adv_socket = path\<rparr>" using e(3) by (simp add: validate_path_ok)
  have "encoded = Advertisement_encode \<lparr>adv_socket = path\<rparr>" using encode_parse [OF e(2)] path by simp
  then have bytes: "bytes = as_bytes (Advertisement_encode \<lparr>adv_socket = path\<rparr>)" using from_utf8_bytes [OF e(1)] by simp
  have "\<forall>window \<in> {owner, xv_roots xv ! screen}. \<exists>reply.
      xv_property xv window property = Inr reply \<and> pr_type reply = utf8 \<and> pr_value reply = bytes"
    using read_property_Some [OF p(1)] read_property_Some [OF p(2)] by blast
  then have "advertises xv path" unfolding advertises_def bytes using s o by blast
  then show ?thesis using e(3) path by simp
qed

text \<open>
  C22. The socket the companion connects to is authentic: an explicit path wins over the environment, which wins over
  the display; the path is absolute, bounded and without NUL; and a path found on the display is the one that the
  unchanged owner of the screen's selection advertises, in the canonical encoding, both on its own window and on the root.
\<close>

theorem discovered_socket_authentic:
  assumes "resolve_socket explicit env = Inr (Some path)"
  shows "is_absolute path \<and> CHR 0x00 \<notin> set path \<and> length path \<le> MAX_SOCKET_PATH_BYTES
    \<and> (case explicit of Some p \<Rightarrow> path = p | None \<Rightarrow>
        (case dv_socket env of Some p \<Rightarrow> path = p | None \<Rightarrow> advertises (dv_x11 env) path))"
  using assms by (auto simp: resolve_socket_def res_simps validate_path_ok split: option.splits dest!: discover_advertised)

section \<open>Concrete sessions\<close>

definition demo_response :: Response where
  "demo_response = \<lparr>resp_id = 1, resp_outcome = Out_Error \<lparr>pe_code = Err_Stale, pe_retry = Retry_Reobserve,
     pe_field = None, pe_message = None, pe_current_generation = None,
     pe_current_sequence = None\<rparr>\<rparr>"

definition demo_seat_wire :: "byte list seat_wire" where
  "demo_seat_wire = \<lparr>sw_to_vec = (\<lambda>_. Inr [65]), sw_from_slice = (\<lambda>_. Inr (SM_Response demo_response)),
     sw_write_all = vec_write_all\<rparr>"

definition demo_seat :: "byte list Seat" where
  "demo_seat = \<lparr>st_reader = [Chunk [0, 0, 0, 1], Chunk [66]], st_writer = [], st_next = 1, st_long = False\<rparr>"

lemma demo_response_frame:
  "read_frame from_slice validate MAX_RESPONSE_FRAME_BYTES (Chunk [0, 0, 0, 1] # Chunk [b] # rs) =
    (res_bind (map_err Json (from_slice [b])) (\<lambda>m. res_bind (map_err Invalid (validate m)) (\<lambda>_. Inr (Message m))), rs)"
proof -
  have "unat (u32_from_be_bytes [0, 0, 0, 1]) = 1" by (simp add: unat_u32_from_be be_value_def)
  then show ?thesis
    by (simp add: read_frame_def read_prefix.simps [of "[]"] read_prefix.simps [of "[0, 0, 0, 1]"]
      read_exact.simps [of _ "[]"] read_exact.simps [of _ "[b]"] PREFIX_BYTES_def MAX_RESPONSE_FRAME_BYTES_def)
qed

lemma demo_seat_call: "\<exists>w. Seat_call demo_seat_wire (Inr ()) (Inr ()) Call_SeatStatus demo_seat =
    (Inr demo_response, \<lparr>st_reader = [], st_writer = w, st_next = 2, st_long = False\<rparr>)"
proof -
  have valid: "validate_Response demo_response = Inr ()" "resp_id demo_response = 1"
    by (simp_all add: demo_response_def validate_Response_def validate_ProtocolError_def)
  have nxt: "checked_add (1 :: u64) 1 = Some 2" by (simp add: checked_add_def)
  show ?thesis
    by (simp add: Seat_call_def demo_seat_def demo_seat_wire_def is_long_input_def st_bind_unfold st_run nxt ok_or_def
        seat_send_def write_frame_def validate_Request_def vec_write_all_def unat_u32_MAX MAX_REQUEST_FRAME_BYTES_def
        seat_receive_def demo_response_frame valid response_for_def)
qed

theorem response_pairs_request_witness:
  "\<exists>st'. Seat_call demo_seat_wire (Inr ()) (Inr ()) Call_SeatStatus demo_seat = (Inr demo_response, st')
    \<and> resp_id demo_response = st_next demo_seat \<and> unat (st_next st') = unat (st_next demo_seat) + 1"
  using demo_seat_call response_pairs_request [of demo_seat_wire "Inr ()" "Inr ()" Call_SeatStatus demo_seat demo_response]
  by (metis Seat.select_convs(4) demo_seat_def)

definition demo_advertised :: property_reply where
  "demo_advertised = \<lparr>pr_type = 5, pr_format = 8, pr_bytes_after = 0,
     pr_value = as_bytes (Advertisement_encode \<lparr>adv_socket = ''/s''\<rparr>), pr_value32 = None\<rparr>"

definition demo_discovery :: discovery_env where
  "demo_discovery = \<lparr>dv_socket = None, dv_display = Some '':0'',
     dv_x11 = \<lparr>xv_connect = Inr 0, xv_roots = [7], xv_atom = (\<lambda>name. Inr (if name = ''UTF8_STRING'' then 5 else 6)),
       xv_owner = (\<lambda>_. Inr 9), xv_property = (\<lambda>_ _. Inr demo_advertised), xv_owner_again = (\<lambda>_. Inr 9)\<rparr>\<rparr>"

lemma demo_discovered: "resolve_socket None demo_discovery = Inr (Some ''/s'')"
proof -
  have ok: "valid_advertisement \<lparr>adv_socket = ''/s''\<rparr>" by (simp add: valid_advertisement_def validate_socket_def SEPARATOR_def)
  have "Advertisement_parse (Advertisement_encode \<lparr>adv_socket = ''/s''\<rparr>) = Inr \<lparr>adv_socket = ''/s''\<rparr>"
    by (rule parse_encode [OF ok])
  moreover have "from_utf8 (as_bytes (Advertisement_encode \<lparr>adv_socket = ''/s''\<rparr>)) = Some (Advertisement_encode \<lparr>adv_socket = ''/s''\<rparr>)"
    by (simp add: from_utf8_as_bytes Advertisement_encode_def PROTOCOL_NAME_def revision_text REVISION_TEXT_def SEPARATOR_def)
  ultimately show ?thesis
    by (simp add: resolve_socket_def demo_discovery_def discover_x11_def x11_result_def ok_or_def X_NONE_def
        ADVERTISEMENT_PROPERTY_def selection_name_def read_property_def demo_advertised_def found_def length_encode
        MAX_ADVERTISEMENT_BYTES_def validate_path_def is_absolute_def MAX_SOCKET_PATH_BYTES_def)
qed

theorem discovered_socket_authentic_witness:
  "resolve_socket None demo_discovery = Inr (Some ''/s'') \<and> is_absolute ''/s'' \<and> length ''/s'' \<le> MAX_SOCKET_PATH_BYTES"
  using discovered_socket_authentic [OF demo_discovered] demo_discovered by blast

end
