(* ===== verification/Provider_Ownership.thy ===== *)
theory Provider_Ownership
  imports Companion_Seat Policy_File
begin

text \<open>
  Ownership of one X11 screen (\<^verbatim>\<open>agent-seat-x11/src/ownership.rs\<close>): claiming the selection, advertising the socket,
  noticing the loss, withdrawing, and the provider's own discovery.

  The display is explicit: windows, selection owners and properties. A run has a script with one step for each
  request the connection makes: what other clients do to the display before it, and whether the request fails, with
  or without having taken effect. While this connection grabs the server, other clients do nothing: the server
  does not process their requests. Dropping the connection is the server's close-down of it: the grab ends and
  its windows go, with their properties and selections. An exhausted script is an undisturbed server.
\<close>

section \<open>The display\<close>

record window_property =
  wp_type :: u32
  wp_value :: "byte list"

record x_display =
  xd_screen :: nat
  xd_roots :: "u32 list"
  xd_interned :: "string set"
  xd_windows :: "u32 set"
  xd_owner :: "u32 \<Rightarrow> u32"
  xd_property :: "u32 \<times> u32 \<rightharpoonup> window_property"

text \<open>The display together with what the server knows of this connection.\<close>

record x_connection =
  xc_display :: x_display
  xc_grabbed :: bool
  xc_created :: "u32 set"

record x_step =
  xs_race :: "(x_display \<Rightarrow> x_display) option"
  xs_failure :: "(string \<times> bool) option"

record x_world =
  xw_server :: x_connection
  xw_script :: "x_step list"
  xw_effects :: "(x_display \<times> x_display) list"

definition next_step :: "x_world \<Rightarrow> x_step" where
  "next_step w = (case xw_script w of [] \<Rightarrow> \<lparr>xs_race = None, xs_failure = None\<rparr> | step # _ \<Rightarrow> step)"

definition raced :: "x_step \<Rightarrow> x_connection \<Rightarrow> x_connection" where
  "raced step c = (case xs_race step of
       Some f \<Rightarrow> if xc_grabbed c then c else c\<lparr>xc_display := f (xc_display c)\<rparr>
     | None \<Rightarrow> c)"

definition x_call :: "(x_connection \<Rightarrow> (string + 'a) \<times> x_connection) \<Rightarrow> (x_world, string, 'a) st" where
  "x_call request w =
    (let step = next_step w; c = raced step (xw_server w); (r, c') = request c;
         w' = w\<lparr>xw_script := drop 1 (xw_script w)\<rparr> in
     case xs_failure step of
       None \<Rightarrow> (r, w'\<lparr>xw_server := c', xw_effects := xw_effects w @ [(xc_display c, xc_display c')]\<rparr>)
     | Some (e, True) \<Rightarrow> (Inl e, w'\<lparr>xw_server := c', xw_effects := xw_effects w @ [(xc_display c, xc_display c')]\<rparr>)
     | Some (e, False) \<Rightarrow> (Inl e, w'\<lparr>xw_server := c\<rparr>))"

definition on_display :: "(x_display \<Rightarrow> (string + 'a) \<times> x_display) \<Rightarrow> x_connection \<Rightarrow> (string + 'a) \<times> x_connection" where
  "on_display request c = (let (r, d) = request (xc_display c) in (r, c\<lparr>xc_display := d\<rparr>))"

definition exists_window :: "x_display \<Rightarrow> u32 \<Rightarrow> bool" where
  "exists_window d window \<longleftrightarrow> window \<in> xd_windows d \<or> window \<in> set (xd_roots d)"

definition destroy_windows :: "u32 set \<Rightarrow> x_display \<Rightarrow> x_display" where
  "destroy_windows ws d = d\<lparr>xd_windows := xd_windows d - ws,
     xd_owner := (\<lambda>s. if xd_owner d s \<in> ws then X_NONE else xd_owner d s),
     xd_property := (\<lambda>k. if fst k \<in> ws then None else xd_property d k)\<rparr>"

record own_env =
  oe_atom :: "string \<Rightarrow> u32"
  oe_id :: "string + u32"

definition x_connect :: "(x_world, string, nat \<times> u32 list) st" where
  "x_connect = x_call (\<lambda>c. (Inr (xd_screen (xc_display c), xd_roots (xc_display c)), c))"

definition intern_atom :: "own_env \<Rightarrow> string \<Rightarrow> (x_world, string, u32) st" where
  "intern_atom env name = x_call (on_display (\<lambda>d. (Inr (oe_atom env name), d\<lparr>xd_interned := insert name (xd_interned d)\<rparr>)))"

definition create_window :: "u32 \<Rightarrow> (x_world, string, unit) st" where
  "create_window window = x_call (\<lambda>c. if exists_window (xc_display c) window \<or> window = X_NONE then (Inl ''BadIDChoice'', c)
     else (Inr (), c\<lparr>xc_display := (xc_display c)\<lparr>xd_windows := insert window (xd_windows (xc_display c))\<rparr>,
       xc_created := insert window (xc_created c)\<rparr>))"

definition destroy_window :: "u32 \<Rightarrow> (x_world, string, unit) st" where
  "destroy_window window = x_call (\<lambda>c. if window \<notin> xd_windows (xc_display c) then (Inl ''BadWindow'', c)
     else (Inr (), c\<lparr>xc_display := destroy_windows {window} (xc_display c), xc_created := xc_created c - {window}\<rparr>))"

definition grab_server :: "(x_world, string, unit) st" where
  "grab_server = x_call (\<lambda>c. (Inr (), c\<lparr>xc_grabbed := True\<rparr>))"

definition ungrab_server :: "(x_world, string, unit) st" where
  "ungrab_server = x_call (\<lambda>c. (Inr (), c\<lparr>xc_grabbed := False\<rparr>))"

definition flush :: "(x_world, string, unit) st" where
  "flush = x_call (\<lambda>c. (Inr (), c))"

definition get_selection_owner :: "u32 \<Rightarrow> (x_world, string, u32) st" where
  "get_selection_owner selection = x_call (\<lambda>c. (Inr (xd_owner (xc_display c) selection), c))"

definition set_selection_owner :: "u32 \<Rightarrow> u32 \<Rightarrow> (x_world, string, unit) st" where
  "set_selection_owner window selection = x_call (on_display (\<lambda>d.
     if window \<noteq> X_NONE \<and> \<not> exists_window d window then (Inl ''BadWindow'', d)
     else (Inr (), d\<lparr>xd_owner := (xd_owner d)(selection := window)\<rparr>)))"

definition change_property8 :: "u32 \<Rightarrow> u32 \<Rightarrow> u32 \<Rightarrow> byte list \<Rightarrow> (x_world, string, unit) st" where
  "change_property8 window property type bytes = x_call (on_display (\<lambda>d.
     if \<not> exists_window d window then (Inl ''BadWindow'', d)
     else (Inr (), d\<lparr>xd_property := (xd_property d)((window, property) \<mapsto> \<lparr>wp_type = type, wp_value = bytes\<rparr>)\<rparr>)))"

definition delete_property :: "u32 \<Rightarrow> u32 \<Rightarrow> (x_world, string, unit) st" where
  "delete_property window property = x_call (on_display (\<lambda>d.
     if \<not> exists_window d window then (Inl ''BadWindow'', d)
     else (Inr (), d\<lparr>xd_property := (xd_property d)((window, property) := None)\<rparr>)))"

definition close_connection :: "x_world \<Rightarrow> x_world" where
  "close_connection w = (let c = xw_server w; d = destroy_windows (xc_created c) (xc_display c) in
     w\<lparr>xw_server := \<lparr>xc_display = d, xc_grabbed = False, xc_created = {}\<rparr>,
       xw_effects := xw_effects w @ [(xc_display c, d)]\<rparr>)"

section \<open>Claiming and releasing\<close>

record Ownership =
  os_screen :: nat
  os_root :: u32
  os_owner :: u32
  os_selection :: u32
  os_property :: u32
  os_active :: bool

definition own_x11_error :: "string \<Rightarrow> string" where
  "own_x11_error e = ''X11 provider ownership failed: '' @ e"

abbreviation xio :: "(x_world, string, 'a) st \<Rightarrow> (x_world, string, 'a) st" where
  "xio m \<equiv> st_map_err own_x11_error m"

definition result_and :: "'e + 'a \<Rightarrow> 'e + 'b \<Rightarrow> 'e + 'b" where
  "result_and r s = res_bind r (\<lambda>_. s)"

definition claim_under_grab :: "u32 \<Rightarrow> u32 \<Rightarrow> (x_world, string, unit) st" where
  "claim_under_grab selection owner =
    st_bind (xio (get_selection_owner selection)) (\<lambda>current.
    if current \<noteq> X_NONE then st_fail ''another Agent Seat provider already owns this X11 screen''
    else
      st_bind (xio (set_selection_owner owner selection)) (\<lambda>_.
      st_bind (xio (get_selection_owner selection)) (\<lambda>established.
      if established \<noteq> owner then st_fail ''Agent Seat selection ownership could not be established''
      else st_return ())))"

definition claim_selection :: "u32 \<Rightarrow> u32 \<Rightarrow> (x_world, string, unit) st" where
  "claim_selection selection owner =
    st_bind (xio grab_server) (\<lambda>_.
    st_bind (st_attempt (claim_under_grab selection owner)) (\<lambda>claimed.
    st_bind (st_attempt (xio ungrab_server)) (\<lambda>ungrab.
    st_bind (st_attempt (xio flush)) (\<lambda>flushed.
    st_try (result_and (result_and claimed ungrab) flushed)))))"

definition withdraw_under_grab :: "u32 \<Rightarrow> u32 \<Rightarrow> u32 \<Rightarrow> u32 \<Rightarrow> (x_world, string, unit) st" where
  "withdraw_under_grab root owner selection property =
    st_bind (xio (get_selection_owner selection)) (\<lambda>current.
    if current \<noteq> owner then st_fail ''Agent Seat selection was lost before withdrawal''
    else
      st_bind (xio (delete_property root property)) (\<lambda>_.
      st_bind (xio (delete_property owner property)) (\<lambda>_.
      xio (set_selection_owner X_NONE selection))))"

definition release :: "u32 \<Rightarrow> u32 \<Rightarrow> u32 \<Rightarrow> u32 \<Rightarrow> (x_world, string, unit) st" where
  "release root owner selection property =
    st_bind (xio grab_server) (\<lambda>_.
    st_bind (st_attempt (withdraw_under_grab root owner selection property)) (\<lambda>withdrawal.
    st_bind (st_attempt (xio (destroy_window owner))) (\<lambda>destroy.
    st_bind (st_attempt (xio ungrab_server)) (\<lambda>ungrab.
    st_bind (st_attempt (xio flush)) (\<lambda>flushed.
    st_try (result_and (result_and (result_and withdrawal destroy) ungrab) flushed))))))"

text \<open>The loop over the two windows that carry the advertisement.\<close>

fun advertise_on :: "(x_world, string, unit) st \<Rightarrow> u32 \<Rightarrow> u32 \<Rightarrow> byte list \<Rightarrow> u32 list \<Rightarrow> (x_world, string, unit) st" where
  "advertise_on undo property utf8 bytes [] = st_return ()"
| "advertise_on undo property utf8 bytes (window # rest) =
    st_bind (st_attempt (xio (change_property8 window property utf8 bytes))) (\<lambda>r.
    case r of
      Inl e \<Rightarrow> st_bind (st_attempt undo) (\<lambda>_. st_fail e)
    | Inr _ \<Rightarrow> advertise_on undo property utf8 bytes rest)"

text \<open>Everything after the connection is open: an error drops the connection.\<close>

definition or_close :: "(x_world, 'e, 'a) st \<Rightarrow> (x_world, 'e, 'a) st" where
  "or_close m w = (case m w of (Inl e, w') \<Rightarrow> (Inl e, close_connection w') | (Inr a, w') \<Rightarrow> (Inr a, w'))"

definition claim_on :: "own_env \<Rightarrow> string \<Rightarrow> nat \<Rightarrow> u32 list \<Rightarrow> (x_world, string, Ownership) st" where
  "claim_on env advertisement screen roots =
    st_bind (st_try (ok_or (if screen < length roots then Some (roots ! screen) else None)
      ''selected X11 screen is absent'')) (\<lambda>root.
    st_bind (xio (intern_atom env (selection_name screen))) (\<lambda>selection.
    st_bind (xio (intern_atom env ADVERTISEMENT_PROPERTY)) (\<lambda>property.
    st_bind (xio (intern_atom env ''UTF8_STRING'')) (\<lambda>utf8.
    st_bind (st_try (map_err (\<lambda>e. ''cannot allocate X11 owner window: '' @ e) (oe_id env))) (\<lambda>owner.
    st_bind (xio (create_window owner)) (\<lambda>_.
    st_bind (st_attempt (claim_selection selection owner)) (\<lambda>claimed.
    case claimed of
      Inl e \<Rightarrow>
        st_bind (st_attempt (destroy_window owner)) (\<lambda>_.
        st_bind (st_attempt flush) (\<lambda>_. st_fail e))
    | Inr _ \<Rightarrow>
        st_bind (advertise_on (release root owner selection property) property utf8 (as_bytes advertisement) [owner, root]) (\<lambda>_.
        st_bind (xio flush) (\<lambda>_.
        st_return \<lparr>os_screen = screen, os_root = root, os_owner = owner, os_selection = selection,
          os_property = property, os_active = True\<rparr>)))))))))"

definition Ownership_claim :: "own_env \<Rightarrow> string \<Rightarrow> (x_world, string, Ownership) st" where
  "Ownership_claim env socket =
    st_bind (st_try (ok_or (from_utf8 (as_bytes socket)) ''socket path must be UTF-8'')) (\<lambda>text.
    st_bind (st_try (map_err (\<lambda>e. ''cannot advertise provider: '' @ AdvertisementError_to_string e)
      (map_ok Advertisement_encode (Advertisement_new text)))) (\<lambda>advertisement.
    st_bind (st_map_err (\<lambda>e. ''cannot connect to selected X11 display: '' @ e) x_connect) (\<lambda>(screen, roots).
    or_close (claim_on env advertisement screen roots))))"

definition withdraw :: "Ownership \<Rightarrow> (x_world, 'e, (string + unit) \<times> Ownership) st" where
  "withdraw o' =
    st_bind (st_attempt (release (os_root o') (os_owner o') (os_selection o') (os_property o'))) (\<lambda>r.
    st_return (r, o'\<lparr>os_active := False\<rparr>))"

definition drop_ownership :: "Ownership \<Rightarrow> (x_world, 'e, unit) st" where
  "drop_ownership o' =
    st_bind (if os_active o'
      then st_bind (st_attempt (release (os_root o') (os_owner o') (os_selection o') (os_property o'))) (\<lambda>_. st_return ())
      else st_return ()) (\<lambda>_.
    st_modify close_connection)"

datatype own_event = SelectionClear (sc_selection: u32) (sc_owner: u32) | OtherEvent

text \<open>The pending events, and how the polling ends: with nothing left or with an error.\<close>

fun own_lost :: "Ownership \<Rightarrow> own_event list \<Rightarrow> string + unit \<Rightarrow> string + bool" where
  "own_lost o' [] finish = map_err own_x11_error (map_ok (\<lambda>_. False) finish)"
| "own_lost o' (event # rest) finish =
    (case event of
       SelectionClear s w \<Rightarrow> if s = os_selection o' \<and> w = os_owner o' then Inr True else own_lost o' rest finish
     | OtherEvent \<Rightarrow> own_lost o' rest finish)"

section \<open>The provider's own discovery\<close>

definition NO_PROVIDER :: string where
  "NO_PROVIDER = ''no Agent Seat provider is advertised on the selected X11 screen''"

definition read_advertisement :: "x11_view \<Rightarrow> u32 \<Rightarrow> u32 \<Rightarrow> u32 \<Rightarrow> string + byte list" where
  "read_advertisement xv window property utf8 =
    res_bind (map_err own_x11_error (xv_property xv window property)) (\<lambda>reply.
    if pr_type reply \<noteq> utf8 \<or> pr_format reply \<noteq> 8 \<or> pr_bytes_after reply \<noteq> 0
      \<or> length (pr_value reply) > MAX_ADVERTISEMENT_BYTES
    then Inl ''the X11 Agent Seat advertisement has invalid type, format, or size''
    else Inr (pr_value reply))"

definition advertised_socket :: "x11_view \<Rightarrow> string + string" where
  "advertised_socket xv =
    res_bind (map_err (\<lambda>e. ''cannot inspect X11 Agent Seat discovery: '' @ e) (xv_connect xv)) (\<lambda>screen_index.
    res_bind (ok_or (if screen_index < length (xv_roots xv) then Some (xv_roots xv ! screen_index) else None)
      ''cannot inspect X11 Agent Seat discovery: selected screen is absent'') (\<lambda>root.
    res_bind (map_err own_x11_error (xv_atom xv (selection_name screen_index))) (\<lambda>selection.
    if selection = X_NONE then Inl NO_PROVIDER
    else
      res_bind (map_err own_x11_error (xv_owner xv selection)) (\<lambda>owner.
      if owner = X_NONE then Inl NO_PROVIDER
      else
        res_bind (map_err own_x11_error (xv_atom xv ADVERTISEMENT_PROPERTY)) (\<lambda>property.
        res_bind (map_err own_x11_error (xv_atom xv ''UTF8_STRING'')) (\<lambda>utf8.
        if property = X_NONE \<or> utf8 = X_NONE
        then Inl ''the selected X11 screen has no Agent Seat advertisement atoms''
        else
          res_bind (read_advertisement xv owner property utf8) (\<lambda>owner_value.
          res_bind (read_advertisement xv root property utf8) (\<lambda>root_value.
          if owner_value \<noteq> root_value then Inl ''the X11 Agent Seat advertisements do not match''
          else
            res_bind (map_err own_x11_error (xv_owner_again xv selection)) (\<lambda>current_owner.
            if current_owner \<noteq> owner then Inl ''the X11 Agent Seat provider changed during discovery''
            else
              res_bind (ok_or (from_utf8 root_value) ''the X11 Agent Seat advertisement is not UTF-8'') (\<lambda>encoded.
              res_bind (map_err (\<lambda>e. ''invalid X11 Agent Seat advertisement: '' @ AdvertisementError_to_string e)
                (Advertisement_parse encoded)) (\<lambda>advertisement.
              Inr (adv_socket advertisement))))))))))))"
section \<open>Sharing a display\<close>

text \<open>
  What one client owes the provider whose window is \<open>w\<close>: it neither makes nor destroys that window, neither gives it
  the selection nor takes the selection from it, and leaves both advertisements alone while \<open>w\<close> owns the selection.
\<close>

definition leaves_alone :: "u32 \<Rightarrow> u32 \<Rightarrow> u32 \<Rightarrow> u32 \<Rightarrow> x_display \<Rightarrow> x_display \<Rightarrow> bool" where
  "leaves_alone selection property root w d d' \<longleftrightarrow>
    xd_screen d' = xd_screen d \<and> xd_roots d' = xd_roots d \<and> xd_interned d \<subseteq> xd_interned d'
    \<and> (w \<in> xd_windows d' \<longleftrightarrow> w \<in> xd_windows d) \<and> (xd_owner d' selection = w \<longleftrightarrow> xd_owner d selection = w)
    \<and> (xd_owner d selection = w \<longrightarrow> xd_property d' (root, property) = xd_property d (root, property)
        \<and> xd_property d' (w, property) = xd_property d (w, property))"

lemma leaves_alone_refl [simp]: "leaves_alone selection property root w d d"
  by (simp add: leaves_alone_def)

lemma leaves_alone_trans: "leaves_alone s p root w d e \<Longrightarrow> leaves_alone s p root w e f \<Longrightarrow> leaves_alone s p root w d f"
  unfolding leaves_alone_def by auto

text \<open>Rely and guarantee over the requests of one connection.\<close>

definition cooperative :: "(x_display \<Rightarrow> x_display \<Rightarrow> bool) \<Rightarrow> x_world \<Rightarrow> bool" where
  "cooperative rely w \<longleftrightarrow> (\<forall>step \<in> set (xw_script w). \<forall>f d. xs_race step = Some f \<longrightarrow> rely d (f d))"

definition discreet :: "(x_display \<Rightarrow> x_display \<Rightarrow> bool) \<Rightarrow> x_world \<Rightarrow> bool" where
  "discreet guar w \<longleftrightarrow> (\<forall>(d, d') \<in> set (xw_effects w). guar d d')"

definition rg :: "(x_display \<Rightarrow> x_display \<Rightarrow> bool) \<Rightarrow> (x_display \<Rightarrow> x_display \<Rightarrow> bool) \<Rightarrow> (x_connection \<Rightarrow> bool)
    \<Rightarrow> (x_world, 'e, 'a) st \<Rightarrow> ('e + 'a \<Rightarrow> x_connection \<Rightarrow> bool) \<Rightarrow> bool" where
  "rg rely guar P m Q \<longleftrightarrow> (\<forall>w r w'. cooperative rely w \<longrightarrow> discreet guar w \<longrightarrow> P (xw_server w) \<longrightarrow> m w = (r, w') \<longrightarrow>
    cooperative rely w' \<and> discreet guar w' \<and> Q r (xw_server w'))"

lemma rgD:
  "rg rely guar P m Q \<Longrightarrow> cooperative rely w \<Longrightarrow> discreet guar w \<Longrightarrow> P (xw_server w) \<Longrightarrow> m w = (r, w') \<Longrightarrow>
    cooperative rely w' \<and> discreet guar w' \<and> Q r (xw_server w')"
  unfolding rg_def by blast

lemma rg_conseq:
  "rg rely guar P m Q \<Longrightarrow> (\<And>c. P' c \<Longrightarrow> P c) \<Longrightarrow> (\<And>r c. Q r c \<Longrightarrow> Q' r c) \<Longrightarrow> rg rely guar P' m Q'"
  unfolding rg_def by blast

lemma rg_pre: "rg rely guar P m Q \<Longrightarrow> (\<And>c. P' c \<Longrightarrow> P c) \<Longrightarrow> rg rely guar P' m Q"
  by (rule rg_conseq)

lemma rg_bind:
  assumes "rg rely guar P m R" and "\<And>e c. R (Inl e) c \<Longrightarrow> Q (Inl e) c" and "\<And>a. rg rely guar (R (Inr a)) (f a) Q"
  shows "rg rely guar P (st_bind m f) Q"
  unfolding rg_def
proof (intro allI impI)
  fix w r w' assume w: "cooperative rely w" "discreet guar w" "P (xw_server w)" and run: "st_bind m f w = (r, w')"
  obtain x t where m: "m w = (x, t)" by force
  from rgD [OF assms(1) w m] have t: "cooperative rely t" "discreet guar t" "R x (xw_server t)" by auto
  show "cooperative rely w' \<and> discreet guar w' \<and> Q r (xw_server w')"
  proof (cases x)
    case (Inl e) then show ?thesis using t run m assms(2) by auto
  next
    case (Inr a) then show ?thesis using t run m rgD [OF assms(3), of t] by auto
  qed
qed

lemma rg_return: "(\<And>c. P c \<Longrightarrow> Q (Inr a) c) \<Longrightarrow> rg rely guar P (st_return a) Q"
  by (auto simp: rg_def)

lemma rg_fail: "(\<And>c. P c \<Longrightarrow> Q (Inl e) c) \<Longrightarrow> rg rely guar P (st_fail e) Q"
  by (auto simp: rg_def)

lemma rg_try: "(\<And>c. P c \<Longrightarrow> Q x c) \<Longrightarrow> rg rely guar P (st_try x) Q"
  by (auto simp: rg_def)

lemma rg_pure: "(x \<Longrightarrow> rg rely guar P m Q) \<Longrightarrow> rg rely guar (\<lambda>c. x \<and> P c) m Q"
  unfolding rg_def by blast

lemma rg_map_err:
  assumes "rg rely guar P m (\<lambda>r. Q (map_err g r))"
  shows "rg rely guar P (st_map_err g m) Q"
  unfolding rg_def
proof (intro allI impI)
  fix w r w' assume w: "cooperative rely w" "discreet guar w" "P (xw_server w)" and run: "st_map_err g m w = (r, w')"
  obtain x t where m: "m w = (x, t)" by force
  from rgD [OF assms w m] run m show "cooperative rely w' \<and> discreet guar w' \<and> Q r (xw_server w')"
    by (auto simp: st_map_err_def)
qed

lemma rg_attempt:
  fixes Q :: "'f + ('e + 'a) \<Rightarrow> x_connection \<Rightarrow> bool"
  assumes "rg rely guar P m (\<lambda>r. Q (Inr r))"
  shows "rg rely guar P (st_attempt m) Q"
  unfolding rg_def
proof (intro allI impI)
  fix w w' and r :: "'f + ('e + 'a)"
  assume w: "cooperative rely w" "discreet guar w" "P (xw_server w)" and run: "st_attempt m w = (r, w')"
  obtain x t where m: "m w = (x, t)" by force
  from rgD [OF assms w m] run m show "cooperative rely w' \<and> discreet guar w' \<and> Q r (xw_server w')"
    by (auto simp: st_attempt_def)
qed

lemma rg_attempt_bind:
  assumes "rg rely guar P m R" and "\<And>r. rg rely guar (R r) (f r) Q"
  shows "rg rely guar P (st_bind (st_attempt m) f) Q"
  by (rule rg_bind [where R = "\<lambda>x c. case x of Inl _ \<Rightarrow> False | Inr r \<Rightarrow> R r c"])
    (auto intro!: rg_attempt rg_conseq [OF assms(1)] assms(2))

lemma rg_call:
  assumes "\<And>c d. P c \<Longrightarrow> \<not> xc_grabbed c \<Longrightarrow> rely (xc_display c) d \<Longrightarrow> P (c\<lparr>xc_display := d\<rparr>)"
    and "\<And>c r c'. P c \<Longrightarrow> request c = (r, c') \<Longrightarrow> guar (xc_display c) (xc_display c') \<and> Q r c' \<and> (\<forall>e. Q (Inl e) c')"
    and "\<And>c e. P c \<Longrightarrow> Q (Inl e) c"
  shows "rg rely guar P (x_call request) Q"
  unfolding rg_def
proof (intro allI impI)
  fix w r w' assume w: "cooperative rely w" "discreet guar w" "P (xw_server w)" and run: "x_call request w = (r, w')"
  let ?c = "raced (next_step w) (xw_server w)"
  obtain x c' where x: "request ?c = (x, c')" by force
  have "set (xw_script w') \<subseteq> set (xw_script w)"
    using run x unfolding x_call_def
    by (auto simp: Let_def split: option.split_asm prod.split_asm bool.split_asm dest: in_set_dropD)
  then have rest: "cooperative rely w'" using w(1) unfolding cooperative_def by blast
  have "P ?c"
    using w(1,3) assms(1) by (auto simp: raced_def next_step_def cooperative_def split: option.split list.split)
  then show "cooperative rely w' \<and> discreet guar w' \<and> Q r (xw_server w')"
    using assms(2) [OF _ x] assms(3) run x rest w(2)
    by (auto simp: x_call_def Let_def discreet_def split: option.split_asm prod.split_asm bool.split_asm)
qed

lemma rg_close:
  assumes "\<And>c. P c \<Longrightarrow> guar (xc_display c) (destroy_windows (xc_created c) (xc_display c))
      \<and> Q (Inr ()) \<lparr>xc_display = destroy_windows (xc_created c) (xc_display c), xc_grabbed = False, xc_created = {}\<rparr>"
  shows "rg rely guar P (st_modify close_connection) Q"
  using assms by (auto simp: rg_def close_connection_def Let_def cooperative_def discreet_def)
section \<open>A provider among cooperating clients\<close>

text \<open>The names a provider works with: its screen, the atoms and its own window.\<close>

record place =
  pl_screen :: nat
  pl_roots :: "u32 list"
  pl_root :: u32
  pl_selection :: u32
  pl_property :: u32
  pl_window :: u32

definition relied :: "place \<Rightarrow> x_display \<Rightarrow> x_display \<Rightarrow> bool" where
  "relied pl = leaves_alone (pl_selection pl) (pl_property pl) (pl_root pl) (pl_window pl)"

definition owed :: "place \<Rightarrow> x_display \<Rightarrow> x_display \<Rightarrow> bool" where
  "owed pl d d' \<longleftrightarrow> (\<forall>other. other \<noteq> pl_window pl \<longrightarrow> other \<noteq> X_NONE \<longrightarrow>
    leaves_alone (pl_selection pl) (pl_property pl) (pl_root pl) other d d')"

lemma owed_refl [simp]: "owed pl d d"
  by (simp add: owed_def)

text \<open>At every moment: only the own window may have been made, and without it the selection is not held.\<close>

definition tidy :: "place \<Rightarrow> x_connection \<Rightarrow> bool" where
  "tidy pl c \<longleftrightarrow> xd_screen (xc_display c) = pl_screen pl \<and> xd_roots (xc_display c) = pl_roots pl
    \<and> xc_created c \<subseteq> {pl_window pl} \<and> (xc_created c \<noteq> {} \<longrightarrow> pl_window pl \<noteq> pl_root pl \<and> pl_window pl \<noteq> X_NONE)
    \<and> (xc_created c = {} \<longrightarrow> xd_owner (xc_display c) (pl_selection pl) \<noteq> pl_window pl)"

definition made :: "place \<Rightarrow> string set \<Rightarrow> x_connection \<Rightarrow> bool" where
  "made pl names c \<longleftrightarrow> tidy pl c \<and> xc_created c = {pl_window pl} \<and> pl_window pl \<in> xd_windows (xc_display c)
    \<and> pl_root pl \<in> set (pl_roots pl) \<and> names \<subseteq> xd_interned (xc_display c)"

definition owning :: "place \<Rightarrow> string set \<Rightarrow> x_connection \<Rightarrow> bool" where
  "owning pl names c \<longleftrightarrow> made pl names c \<and> xd_owner (xc_display c) (pl_selection pl) = pl_window pl"

definition shows_on :: "place \<Rightarrow> u32 \<Rightarrow> window_property \<Rightarrow> x_connection \<Rightarrow> bool" where
  "shows_on pl window v c \<longleftrightarrow> xd_property (xc_display c) (window, pl_property pl) = Some v"

lemmas place_defs = relied_def owed_def tidy_def made_def owning_def shows_on_def leaves_alone_def

lemma stable_tidy: "tidy pl c \<Longrightarrow> relied pl (xc_display c) d \<Longrightarrow> tidy pl (c\<lparr>xc_display := d\<rparr>)"
  by (auto simp: relied_def leaves_alone_def tidy_def)

lemma stable_made: "made pl ns c \<Longrightarrow> relied pl (xc_display c) d \<Longrightarrow> made pl ns (c\<lparr>xc_display := d\<rparr>)"
  using stable_tidy [of pl c d] by (auto simp: made_def relied_def leaves_alone_def)

lemma stable_owning: "owning pl ns c \<Longrightarrow> relied pl (xc_display c) d \<Longrightarrow> owning pl ns (c\<lparr>xc_display := d\<rparr>)"
  using stable_made [of pl ns c d] by (auto simp: owning_def relied_def leaves_alone_def)

lemma stable_shows:
  "owning pl ns c \<Longrightarrow> shows_on pl x v c \<Longrightarrow> x \<in> {pl_window pl, pl_root pl} \<Longrightarrow> relied pl (xc_display c) d \<Longrightarrow>
    shows_on pl x v (c\<lparr>xc_display := d\<rparr>)"
  by (auto simp: owning_def relied_def leaves_alone_def shows_on_def)

lemmas stable_intros = stable_tidy stable_made stable_owning stable_shows

text \<open>Requests that only look, or only change the grab.\<close>

lemma rg_peek:
  assumes "\<And>c d. P c \<Longrightarrow> \<not> xc_grabbed c \<Longrightarrow> relied pl (xc_display c) d \<Longrightarrow> P (c\<lparr>xc_display := d\<rparr>)"
    and "\<And>c. P c \<Longrightarrow> Q (f c) c" and "\<And>c e. P c \<Longrightarrow> Q (Inl e) c"
  shows "rg (relied pl) (owed pl) P (x_call (\<lambda>c. (f c, c))) Q"
  by (rule rg_call) (auto intro: assms)

lemma rg_get_owner:
  assumes "\<And>c d. P c \<Longrightarrow> \<not> xc_grabbed c \<Longrightarrow> relied pl (xc_display c) d \<Longrightarrow> P (c\<lparr>xc_display := d\<rparr>)"
  shows "rg (relied pl) (owed pl) P (xio (get_selection_owner s))
    (\<lambda>r c. P c \<and> (\<forall>x. r = Inr x \<longrightarrow> xd_owner (xc_display c) s = x))"
  unfolding get_selection_owner_def by (rule rg_map_err, rule rg_peek) (auto intro: assms)

lemma rg_flush:
  assumes "\<And>c d. P c \<Longrightarrow> \<not> xc_grabbed c \<Longrightarrow> relied pl (xc_display c) d \<Longrightarrow> P (c\<lparr>xc_display := d\<rparr>)"
  shows "rg (relied pl) (owed pl) P flush (\<lambda>_. P)"
  unfolding flush_def by (rule rg_peek) (auto intro: assms)

lemma rg_grab:
  assumes "\<And>c d. P c \<Longrightarrow> relied pl (xc_display c) d \<Longrightarrow> P (c\<lparr>xc_display := d\<rparr>)"
    and "\<And>c b. P c \<Longrightarrow> P (c\<lparr>xc_grabbed := b\<rparr>)"
  shows "rg (relied pl) (owed pl) P (xio grab_server) (\<lambda>r c. P c \<and> (is_ok r \<longrightarrow> xc_grabbed c))"
    and "rg (relied pl) (owed pl) P (xio ungrab_server) (\<lambda>r c. P c \<and> (is_ok r \<longrightarrow> \<not> xc_grabbed c))"
  unfolding grab_server_def ungrab_server_def by (rule rg_map_err, rule rg_call; auto intro: assms)+

lemma rg_set_owner:
  assumes "\<And>c. P c \<Longrightarrow> made pl ns c \<and> xc_grabbed c \<and> xd_owner (xc_display c) (pl_selection pl) = X_NONE"
  shows "rg (relied pl) (owed pl) P (xio (set_selection_owner (pl_window pl) (pl_selection pl)))
    (\<lambda>r c. (if is_ok r then owning pl ns c else made pl ns c) \<and> xc_grabbed c)"
  unfolding set_selection_owner_def
proof (rule rg_map_err, rule rg_call, goal_cases)
  case (2 c r c')
  then show ?case using assms [of c]
    by (auto simp: on_display_def place_defs exists_window_def split: if_splits)
qed (use assms in auto)
lemma made_tidy: "made pl ns c \<Longrightarrow> tidy pl c"
  by (simp add: made_def)

lemma owning_made: "owning pl ns c \<Longrightarrow> made pl ns c"
  by (simp add: owning_def)

lemma grab_update [simp]:
  "tidy pl (c\<lparr>xc_grabbed := b\<rparr>) = tidy pl c" "made pl ns (c\<lparr>xc_grabbed := b\<rparr>) = made pl ns c"
  "owning pl ns (c\<lparr>xc_grabbed := b\<rparr>) = owning pl ns c" "shows_on pl x v (c\<lparr>xc_grabbed := b\<rparr>) = shows_on pl x v c"
  by (simp_all add: tidy_def made_def owning_def shows_on_def)

lemma claim_under_grab_rg:
  "rg (relied pl) (owed pl) (\<lambda>c. made pl ns c \<and> xc_grabbed c) (claim_under_grab (pl_selection pl) (pl_window pl))
    (\<lambda>r c. (if is_ok r then owning pl ns c else made pl ns c) \<and> xc_grabbed c)"
  unfolding claim_under_grab_def
  apply (rule rg_bind [OF rg_get_owner], simp)
   apply (simp add: is_ok_def)
  apply (split if_split, intro conjI impI)
   apply (rule rg_fail, simp)
  apply (rule rg_bind [OF rg_set_owner], auto)[1]
  apply (rule rg_bind [OF rg_get_owner], auto)[1]
   apply (auto intro: owning_made)[1]
   apply (rule rg_fail, auto intro: owning_made)[1]
  apply (rule rg_return, simp)
  done

text \<open>The end of a grabbed section: ungrab, flush, combine.\<close>

lemma rg_ungrab_flush:
  assumes "\<And>c d. P c \<Longrightarrow> relied pl (xc_display c) d \<Longrightarrow> P (c\<lparr>xc_display := d\<rparr>)"
    and "\<And>c b. P c \<Longrightarrow> P (c\<lparr>xc_grabbed := b\<rparr>)"
  shows "rg (relied pl) (owed pl) P (st_bind (st_attempt (xio ungrab_server)) (\<lambda>ungrab.
      st_bind (st_attempt (xio flush)) (\<lambda>flushed. st_try (result_and (result_and r ungrab) flushed))))
    (\<lambda>x c. P c \<and> (is_ok x \<longrightarrow> is_ok r \<and> \<not> xc_grabbed c))"
proof (rule rg_attempt_bind [OF rg_grab(2) [OF assms]], assumption)
  fix u :: "string + unit"
  have "rg (relied pl) (owed pl) (\<lambda>c. P c \<and> (is_ok u \<longrightarrow> \<not> xc_grabbed c)) (xio flush)
      (\<lambda>_ c. P c \<and> (is_ok u \<longrightarrow> \<not> xc_grabbed c))"
    by (rule rg_map_err, rule rg_flush) (simp add: assms(1))
  then show "rg (relied pl) (owed pl) (\<lambda>c. P c \<and> (is_ok u \<longrightarrow> \<not> xc_grabbed c))
     (st_bind (st_attempt (xio flush)) (\<lambda>flushed. st_try (result_and (result_and r u) flushed)))
     (\<lambda>x c. P c \<and> (is_ok x \<longrightarrow> is_ok r \<and> \<not> xc_grabbed c))"
    by (rule rg_attempt_bind) (rule rg_try, auto simp: result_and_def is_ok_iff res_simps)
qed

lemma claim_selection_rg:
  "rg (relied pl) (owed pl) (made pl ns) (claim_selection (pl_selection pl) (pl_window pl))
    (\<lambda>r c. if is_ok r then owning pl ns c \<and> \<not> xc_grabbed c else made pl ns c)"
  unfolding claim_selection_def
proof (rule rg_bind [OF rg_grab(1) [of "made pl ns" pl]], rule stable_made, assumption+, simp, simp, goal_cases)
  case (1 a)
  show ?case
  proof (rule rg_attempt_bind, rule rg_conseq [OF claim_under_grab_rg [of pl ns]], simp, assumption, goal_cases)
    case (1 r)
    show ?case
      by (rule rg_conseq [OF rg_ungrab_flush [where P = "if is_ok r then owning pl ns else made pl ns"]])
        (auto intro: stable_intros owning_made split: if_splits)
  qed
qed

lemma rg_delete:
  assumes "x \<in> {pl_window pl, pl_root pl}"
  shows "rg (relied pl) (owed pl) (\<lambda>c. owning pl ns c \<and> xc_grabbed c) (xio (delete_property x (pl_property pl)))
    (\<lambda>_ c. owning pl ns c \<and> xc_grabbed c)"
  unfolding delete_property_def
proof (rule rg_map_err, rule rg_call, goal_cases)
  case (2 c r c')
  then show ?case using assms by (auto simp: on_display_def place_defs exists_window_def split: if_splits)
qed auto

lemma rg_clear_owner:
  "rg (relied pl) (owed pl) (\<lambda>c. owning pl ns c \<and> xc_grabbed c) (xio (set_selection_owner X_NONE (pl_selection pl)))
    (\<lambda>_ c. made pl ns c \<and> xc_grabbed c)"
  unfolding set_selection_owner_def
proof (rule rg_map_err, rule rg_call, goal_cases)
  case (2 c r c')
  then show ?case by (auto simp: on_display_def place_defs exists_window_def split: if_splits)
qed (auto intro: owning_made)

lemma withdraw_under_grab_rg:
  "rg (relied pl) (owed pl) (\<lambda>c. made pl ns c \<and> xc_grabbed c)
    (withdraw_under_grab (pl_root pl) (pl_window pl) (pl_selection pl) (pl_property pl))
    (\<lambda>_ c. made pl ns c \<and> xc_grabbed c)"
  unfolding withdraw_under_grab_def
  apply (rule rg_bind [OF rg_get_owner], simp, simp)
  apply (split if_split, intro conjI impI)
   apply (rule rg_fail, simp)
  apply (rule rg_bind [where R = "\<lambda>_ c. owning pl ns c \<and> xc_grabbed c"], rule rg_conseq [OF rg_delete [of _ pl ns]])
      apply (simp_all add: owning_def owning_made)[4]
  apply (rule rg_bind [OF rg_delete [of _ pl ns]], simp, simp add: owning_made)
  apply (rule rg_clear_owner)
  done

lemma rg_destroy:
  assumes "\<And>c. P c \<Longrightarrow> tidy pl c" and "\<And>c d. P c \<Longrightarrow> \<not> xc_grabbed c \<Longrightarrow> relied pl (xc_display c) d \<Longrightarrow> P (c\<lparr>xc_display := d\<rparr>)"
    and "\<And>c. P c \<Longrightarrow> xc_created c \<noteq> {}"
  shows "rg (relied pl) (owed pl) P (destroy_window (pl_window pl)) (\<lambda>_. tidy pl)"
  unfolding destroy_window_def
proof (rule rg_call, goal_cases)
  case (2 c r c')
  then show ?case using assms(1,3) [of c] by (auto simp: destroy_windows_def place_defs split: if_splits)
qed (use assms in auto)

lemma release_rg:
  "rg (relied pl) (owed pl) (made pl ns) (release (pl_root pl) (pl_window pl) (pl_selection pl) (pl_property pl))
    (\<lambda>_. tidy pl)"
  unfolding release_def
  apply (rule rg_bind [OF rg_grab(1) [of "made pl ns" pl]], rule stable_made, assumption+, simp, simp add: made_tidy)
  apply (rule rg_attempt_bind, rule rg_conseq [OF withdraw_under_grab_rg [of pl ns]], simp, assumption)
  apply (rule rg_attempt_bind, rule rg_map_err, rule rg_destroy [of _ pl], auto simp: made_def)[1]
  apply (rule rg_conseq [OF rg_ungrab_flush [of "tidy pl"]], auto intro: stable_tidy)
  done
lemma st_bind_try: "st_bind (st_try (Inr a)) f = f a" "st_bind (st_try (Inl e)) f = st_fail e" "st_bind (st_return a) f = f a"
  by (rule ext, simp add: st_bind_unfold st_run)+

definition fresh_place :: "place \<Rightarrow> string set \<Rightarrow> x_connection \<Rightarrow> bool" where
  "fresh_place pl names c \<longleftrightarrow> tidy pl c \<and> xc_created c = {} \<and> names \<subseteq> xd_interned (xc_display c)"

definition settled :: "place \<Rightarrow> string set \<Rightarrow> window_property \<Rightarrow> x_connection \<Rightarrow> bool" where
  "settled pl names v c \<longleftrightarrow> owning pl names c \<and> shows_on pl (pl_window pl) v c \<and> shows_on pl (pl_root pl) v c"

lemma fresh_screen: "fresh_place pl ns c \<Longrightarrow> xd_screen (xc_display c) = pl_screen pl \<and> xd_roots (xc_display c) = pl_roots pl"
  by (simp add: fresh_place_def tidy_def)

lemma stable_fresh: "fresh_place pl ns c \<Longrightarrow> relied pl (xc_display c) d \<Longrightarrow> fresh_place pl ns (c\<lparr>xc_display := d\<rparr>)"
  using stable_tidy [of pl c d] by (auto simp: fresh_place_def relied_def leaves_alone_def)

lemma stable_settled: "settled pl ns v c \<Longrightarrow> relied pl (xc_display c) d \<Longrightarrow> settled pl ns v (c\<lparr>xc_display := d\<rparr>)"
  unfolding settled_def by (blast intro: stable_owning stable_shows)

lemma rg_intern:
  "rg (relied pl) (owed pl) (fresh_place pl ns) (xio (intern_atom env name))
    (\<lambda>r c. case r of Inl _ \<Rightarrow> fresh_place pl ns c | Inr a \<Rightarrow> a = oe_atom env name \<and> fresh_place pl (insert name ns) c)"
  unfolding intern_atom_def
proof (rule rg_map_err, rule rg_call, goal_cases)
  case (2 c r c')
  then show ?case by (auto simp: on_display_def fresh_place_def place_defs)
qed (auto intro: stable_fresh)

lemma rg_create:
  assumes "pl_root pl \<in> set (pl_roots pl)"
  shows "rg (relied pl) (owed pl) (fresh_place pl ns) (xio (create_window (pl_window pl)))
    (\<lambda>r c. if is_ok r then made pl ns c else tidy pl c)"
  unfolding create_window_def
proof (rule rg_map_err, rule rg_call, goal_cases)
  case (2 c r c')
  then show ?case using assms by (auto simp: fresh_place_def place_defs exists_window_def split: if_splits)
qed (auto intro: stable_fresh, simp add: fresh_place_def)

lemma rg_change:
  assumes "x \<in> {pl_window pl, pl_root pl}"
    and "\<And>c d. P c \<Longrightarrow> \<not> xc_grabbed c \<Longrightarrow> relied pl (xc_display c) d \<Longrightarrow> P (c\<lparr>xc_display := d\<rparr>)"
    and "\<And>c. P c \<Longrightarrow> owning pl ns c"
    and "\<And>c f. P c \<Longrightarrow> owning pl ns (c\<lparr>xc_display := (xc_display c)\<lparr>xd_property := f\<rparr>\<rparr>) \<Longrightarrow>
      (\<forall>k. k \<noteq> (x, pl_property pl) \<longrightarrow> f k = xd_property (xc_display c) k) \<Longrightarrow> P (c\<lparr>xc_display := (xc_display c)\<lparr>xd_property := f\<rparr>\<rparr>)"
  shows "rg (relied pl) (owed pl) P (xio (change_property8 x (pl_property pl) utf8 bytes))
    (\<lambda>r c. P c \<and> (is_ok r \<longrightarrow> shows_on pl x \<lparr>wp_type = utf8, wp_value = bytes\<rparr> c))"
  unfolding change_property8_def
proof (rule rg_map_err, rule rg_call, goal_cases)
  case (2 c r c')
  let ?f = "(xd_property (xc_display c))((x, pl_property pl) \<mapsto> \<lparr>wp_type = utf8, wp_value = bytes\<rparr>)"
  have own: "owning pl ns c" using 2(1) by (rule assms(3))
  then have new: "owning pl ns (c\<lparr>xc_display := (xc_display c)\<lparr>xd_property := ?f\<rparr>\<rparr>)" by (auto simp: place_defs)
  then have "P (c\<lparr>xc_display := (xc_display c)\<lparr>xd_property := ?f\<rparr>\<rparr>)" by (intro assms(4) 2(1)) auto
  moreover have "owed pl (xc_display c) ((xc_display c)\<lparr>xd_property := ?f\<rparr>)" using own assms(1) by (auto simp: place_defs)
  ultimately show ?case using 2(1,2) by (auto simp: on_display_def shows_on_def split: if_splits)
qed (use assms in auto)

lemma rg_undo:
  "rg (relied pl) (owed pl) (made pl ns)
    (st_bind (st_attempt (release (pl_root pl) (pl_window pl) (pl_selection pl) (pl_property pl))) (\<lambda>_. st_fail e))
    (\<lambda>r c. case r of Inl _ \<Rightarrow> tidy pl c | Inr _ \<Rightarrow> False)"
  by (rule rg_attempt_bind [OF release_rg]) (rule rg_fail, simp)

lemma advertise_rg:
  "rg (relied pl) (owed pl) (owning pl ns)
    (advertise_on (release (pl_root pl) (pl_window pl) (pl_selection pl) (pl_property pl)) (pl_property pl) utf8 bytes
      [pl_window pl, pl_root pl])
    (\<lambda>r c. case r of Inl _ \<Rightarrow> tidy pl c | Inr _ \<Rightarrow> settled pl ns \<lparr>wp_type = utf8, wp_value = bytes\<rparr> c)"
proof -
  let ?v = "\<lparr>wp_type = utf8, wp_value = bytes\<rparr>"
  have root: "rg (relied pl) (owed pl) (\<lambda>c. owning pl ns c \<and> shows_on pl (pl_window pl) ?v c)
      (xio (change_property8 (pl_root pl) (pl_property pl) utf8 bytes))
      (\<lambda>r c. (owning pl ns c \<and> shows_on pl (pl_window pl) ?v c) \<and> (is_ok r \<longrightarrow> shows_on pl (pl_root pl) ?v c))"
  proof (rule rg_change [where ns = ns], goal_cases)
    case (4 c f)
    then have "pl_window pl \<noteq> pl_root pl" by (auto simp: place_defs)
    then show ?case using 4 by (auto simp: shows_on_def)
  qed (auto intro: stable_intros)
  have own: "rg (relied pl) (owed pl) (owning pl ns) (xio (change_property8 (pl_window pl) (pl_property pl) utf8 bytes))
      (\<lambda>r c. owning pl ns c \<and> (is_ok r \<longrightarrow> shows_on pl (pl_window pl) ?v c))"
    by (rule rg_change [where ns = ns]) (auto intro: stable_intros)
  note undo = rg_conseq [OF rg_undo [of pl ns]]
  show ?thesis
    unfolding advertise_on.simps
    apply (rule rg_attempt_bind [OF own])
    subgoal for r
      apply (cases r)
       apply (simp, rule undo, simp add: owning_made, simp split: sum.split_asm)
      apply (simp, rule rg_attempt_bind [OF root])
      subgoal for q
        apply (cases q)
         apply (simp, rule undo, simp add: owning_made, simp split: sum.split_asm)
        apply (simp, rule rg_return, simp add: settled_def)
        done
      done
    done
qed

lemma claim_on_rg:
  assumes "oe_id env = Inr (pl_window pl)" and "pl_root pl = roots ! screen" and "pl_roots pl = roots"
    and "pl_selection pl = oe_atom env (selection_name screen)" and "pl_property pl = oe_atom env ADVERTISEMENT_PROPERTY"
  shows "rg (relied pl) (owed pl) (fresh_place pl {}) (claim_on env advertisement screen roots)
    (\<lambda>r c. case r of Inl _ \<Rightarrow> tidy pl c
     | Inr o' \<Rightarrow> o' = \<lparr>os_screen = screen, os_root = pl_root pl, os_owner = pl_window pl, os_selection = pl_selection pl,
          os_property = pl_property pl, os_active = True\<rparr> \<and> screen < length roots
         \<and> settled pl {''UTF8_STRING'', ADVERTISEMENT_PROPERTY, selection_name screen}
             \<lparr>wp_type = oe_atom env ''UTF8_STRING'', wp_value = as_bytes advertisement\<rparr> c)"
proof -
  let ?ns = "{''UTF8_STRING'', ADVERTISEMENT_PROPERTY, selection_name screen}"
  let ?Q = "\<lambda>r c. case r of Inl _ \<Rightarrow> tidy pl c
     | Inr o' \<Rightarrow> o' = \<lparr>os_screen = screen, os_root = pl_root pl, os_owner = pl_window pl, os_selection = pl_selection pl,
          os_property = pl_property pl, os_active = True\<rparr> \<and> screen < length roots
         \<and> settled pl ?ns \<lparr>wp_type = oe_atom env ''UTF8_STRING'', wp_value = as_bytes advertisement\<rparr> c"
  have intern: "rg (relied pl) (owed pl) (fresh_place pl ns) (st_bind (xio (intern_atom env name)) f) ?Q"
    if "rg (relied pl) (owed pl) (fresh_place pl (insert name ns)) (f (oe_atom env name)) ?Q" for ns name f
    by (rule rg_bind [OF rg_intern], simp add: fresh_place_def, simp, rule rg_pure, simp add: that)
  have claimed: "rg (relied pl) (owed pl) (made pl ?ns) (st_bind (st_attempt (claim_selection (pl_selection pl) (pl_window pl)))
      (\<lambda>claimed. case claimed of
        Inl e \<Rightarrow> st_bind (st_attempt (destroy_window (pl_window pl))) (\<lambda>_. st_bind (st_attempt flush) (\<lambda>_. st_fail e))
      | Inr _ \<Rightarrow>
          st_bind (advertise_on (release (pl_root pl) (pl_window pl) (pl_selection pl) (pl_property pl)) (pl_property pl)
            (oe_atom env ''UTF8_STRING'') (as_bytes advertisement) [pl_window pl, pl_root pl]) (\<lambda>_.
          st_bind (xio flush) (\<lambda>_.
          st_return \<lparr>os_screen = screen, os_root = pl_root pl, os_owner = pl_window pl, os_selection = pl_selection pl,
            os_property = pl_property pl, os_active = True\<rparr>)))) ?Q" if "screen < length roots"
    apply (rule rg_attempt_bind [OF claim_selection_rg [of pl ?ns]])
    subgoal for r
      apply (cases r)
       apply (simp, rule rg_attempt_bind, rule rg_destroy [of "made pl ?ns"], rule made_tidy, assumption, rule stable_made,
          assumption, assumption, simp add: made_def)
       apply (rule rg_attempt_bind, rule rg_flush [of "tidy pl"], rule stable_tidy, assumption, assumption)
       apply (rule rg_fail, simp)
      apply (simp del: advertise_on.simps)
      apply (rule rg_bind [OF rg_pre [OF advertise_rg [of pl ?ns]]], simp, simp)
      apply (rule rg_bind [where R = "\<lambda>r. settled pl ?ns \<lparr>wp_type = oe_atom env ''UTF8_STRING'', wp_value = as_bytes advertisement\<rparr>"])
        apply (simp, rule rg_map_err, rule rg_flush, rule stable_settled, assumption, assumption)
       apply (auto simp: settled_def dest: owning_made made_tidy)[1]
      apply (rule rg_return, simp add: that)
      done
    done
  show ?thesis
  proof (cases "screen < length roots")
    case True
    then have "pl_root pl \<in> set (pl_roots pl)" using assms(2,3) by simp
    note create = rg_create [OF this, of ?ns]
    show ?thesis
      unfolding claim_on_def using True
      apply (simp add: ok_or_def assms(1) assms(2) [symmetric] st_bind_try del: advertise_on.simps)
      apply (rule intern, rule intern, rule intern)
      apply (simp only: assms(4,5) [symmetric])
      apply (rule rg_bind [OF create], simp, simp del: advertise_on.simps)
      apply (rule rg_conseq [OF claimed], auto split: sum.split_asm)
      done
  next
    case False
    then show ?thesis
      unfolding claim_on_def by (simp add: ok_or_def st_bind_try) (rule rg_fail, simp add: fresh_place_def)
  qed
qed
lemma rg_or_close:
  assumes "rg (relied pl) (owed pl) P m (\<lambda>r c. case r of Inl _ \<Rightarrow> tidy pl c | Inr a \<Rightarrow> Q a c)"
  shows "rg (relied pl) (owed pl) P (or_close m) (\<lambda>r c. case r of Inl _ \<Rightarrow> fresh_place pl {} c | Inr a \<Rightarrow> Q a c)"
  unfolding rg_def
proof (intro allI impI)
  fix w r w' assume w: "cooperative (relied pl) w" "discreet (owed pl) w" "P (xw_server w)" and run: "or_close m w = (r, w')"
  obtain x t where m: "m w = (x, t)" by force
  note t = rgD [OF assms w m]
  show "cooperative (relied pl) w' \<and> discreet (owed pl) w' \<and> (case r of Inl _ \<Rightarrow> fresh_place pl {} (xw_server w') | Inr a \<Rightarrow> Q a (xw_server w'))"
  proof (cases x)
    case (Inl e)
    then have tidy: "tidy pl (xw_server t)" and w': "r = Inl e" "w' = close_connection t"
      using t run m by (auto simp: or_close_def)
    then have "owed pl (xc_display (xw_server t)) (destroy_windows (xc_created (xw_server t)) (xc_display (xw_server t)))"
      by (auto simp: place_defs destroy_windows_def)
    moreover have "fresh_place pl {} (xw_server w')"
      using tidy unfolding w' by (auto simp: place_defs fresh_place_def destroy_windows_def close_connection_def Let_def)
    ultimately show ?thesis using t w' by (auto simp: close_connection_def Let_def cooperative_def discreet_def)
  next
    case (Inr a)
    then show ?thesis using t run m by (auto simp: or_close_def)
  qed
qed

definition own_place :: "own_env \<Rightarrow> x_display \<Rightarrow> u32 \<Rightarrow> place" where
  "own_place env d own = \<lparr>pl_screen = xd_screen d, pl_roots = xd_roots d, pl_root = xd_roots d ! xd_screen d,
     pl_selection = oe_atom env (selection_name (xd_screen d)), pl_property = oe_atom env ADVERTISEMENT_PROPERTY,
     pl_window = own\<rparr>"

definition claimed_state :: "own_env \<Rightarrow> place \<Rightarrow> string \<Rightarrow> Ownership \<Rightarrow> x_connection \<Rightarrow> bool" where
  "claimed_state env pl text o' c \<longleftrightarrow> valid_advertisement \<lparr>adv_socket = text\<rparr> \<and> utf8_wellformed (map code_of text)
    \<and> o' = \<lparr>os_screen = pl_screen pl, os_root = pl_root pl, os_owner = pl_window pl, os_selection = pl_selection pl,
          os_property = pl_property pl, os_active = True\<rparr> \<and> pl_screen pl < length (pl_roots pl)
    \<and> settled pl {''UTF8_STRING'', ADVERTISEMENT_PROPERTY, selection_name (pl_screen pl)}
        \<lparr>wp_type = oe_atom env ''UTF8_STRING'', wp_value = as_bytes (Advertisement_encode \<lparr>adv_socket = text\<rparr>)\<rparr> c"

lemma claim_rg:
  assumes "oe_id env = Inr own" and pl: "pl = own_place env d0 own"
  shows "rg (relied pl) (owed pl) (fresh_place pl {}) (Ownership_claim env socket)
    (\<lambda>r c. case r of Inl _ \<Rightarrow> fresh_place pl {} c | Inr o' \<Rightarrow> claimed_state env pl socket o' c)"
proof (cases "from_utf8 (as_bytes socket)")
  case None
  then show ?thesis unfolding Ownership_claim_def by (simp add: ok_or_def st_bind_try) (rule rg_fail, simp)
next
  case (Some t)
  have wf: "utf8_wellformed (map code_of socket)" and t: "t = socket"
    using Some by (auto simp: from_utf8_as_bytes split: if_splits)
  show ?thesis
  proof (cases "Advertisement_new socket")
    case (Inl e)
    then show ?thesis unfolding Ownership_claim_def using Some t by (simp add: ok_or_def st_bind_try) (rule rg_fail, simp)
  next
    case (Inr adv)
    then have adv: "adv = \<lparr>adv_socket = socket\<rparr>" "valid_advertisement adv" by (auto simp: new_accepts valid_advertisement_def)
    have connect: "rg (relied pl) (owed pl) (fresh_place pl {}) (st_map_err g x_connect)
        (\<lambda>r c. fresh_place pl {} c \<and> (\<forall>x. r = Inr x \<longrightarrow> x = (pl_screen pl, pl_roots pl)))" for g
      unfolding x_connect_def
      by (rule rg_map_err, rule rg_peek) (auto intro: stable_fresh simp: fresh_screen)
    have on: "rg (relied pl) (owed pl) (fresh_place pl {})
        (or_close (claim_on env (Advertisement_encode adv) (pl_screen pl) (pl_roots pl)))
        (\<lambda>r c. case r of Inl _ \<Rightarrow> fresh_place pl {} c | Inr o' \<Rightarrow> claimed_state env pl socket o' c)"
      by (rule rg_or_close, rule rg_conseq [OF claim_on_rg [of env pl]])
        (auto simp: assms own_place_def claimed_state_def adv wf adv(2) [unfolded adv(1)] split: sum.split)
    have on': "rg (relied pl) (owed pl) (\<lambda>c. x = (pl_screen pl, pl_roots pl) \<and> fresh_place pl {} c)
        (case x of (screen, roots) \<Rightarrow> or_close (claim_on env (Advertisement_encode adv) screen roots))
        (\<lambda>r c. case r of Inl _ \<Rightarrow> fresh_place pl {} c | Inr o' \<Rightarrow> claimed_state env pl socket o' c)" for x
      by (rule rg_pure) (simp add: on)
    show ?thesis unfolding Ownership_claim_def using Some t Inr
      by (simp add: ok_or_def st_bind_try, intro rg_bind [OF connect]) (simp, rule rg_pre [OF on'], simp)
  qed
qed
text \<open>One provider from start to end; an \<open>orderly\<close> one withdraws before its ownership is dropped.\<close>

definition provider_life :: "own_env \<Rightarrow> string \<Rightarrow> bool \<Rightarrow> (x_world, string, unit) st" where
  "provider_life env socket orderly =
    st_bind (Ownership_claim env socket) (\<lambda>o'.
    st_bind (if orderly then st_bind (withdraw o') (\<lambda>(r, o''). st_return o'') else st_return o') drop_ownership)"

lemma claimed_made: "claimed_state env pl socket o' c \<Longrightarrow> \<exists>ns. made pl ns c"
  unfolding claimed_state_def settled_def by (blast dest: owning_made)

lemma rg_drop:
  assumes "os_root o' = pl_root pl" "os_owner o' = pl_window pl" "os_selection o' = pl_selection pl" "os_property o' = pl_property pl"
  shows "rg (relied pl) (owed pl) (if os_active o' then made pl ns else tidy pl) (drop_ownership o') (\<lambda>_. fresh_place pl {})"
proof -
  have tidied: "rg (relied pl) (owed pl) (if os_active o' then made pl ns else tidy pl)
      (if os_active o'
       then st_bind (st_attempt (release (os_root o') (os_owner o') (os_selection o') (os_property o'))) (\<lambda>_. st_return ())
       else st_return ()) (\<lambda>r c. is_ok r \<and> tidy pl c)"
    by (auto simp: assms intro: rg_return intro!: rg_attempt_bind [OF release_rg [of pl ns]])
  have closing: "rg (relied pl) (owed pl) (tidy pl) (st_modify close_connection) (\<lambda>_. fresh_place pl {})"
    by (rule rg_close) (auto simp: place_defs fresh_place_def destroy_windows_def)
  show ?thesis unfolding drop_ownership_def
    by (rule rg_bind [OF tidied]) (simp_all add: closing)
qed
lemma life_rg:
  assumes "oe_id env = Inr own" and "pl = own_place env d0 own"
  shows "rg (relied pl) (owed pl) (fresh_place pl {}) (provider_life env socket orderly) (\<lambda>_. fresh_place pl {})"
  unfolding provider_life_def
proof (rule rg_bind [OF claim_rg [OF assms]], simp, goal_cases)
  case (1 o')
  let ?o = "\<lparr>os_screen = pl_screen pl, os_root = pl_root pl, os_owner = pl_window pl, os_selection = pl_selection pl,
    os_property = pl_property pl, os_active = True\<rparr>"
  let ?ns = "{''UTF8_STRING'', ADVERTISEMENT_PROPERTY, selection_name (pl_screen pl)}"
  have drop: "rg (relied pl) (owed pl) (if os_active q then made pl ?ns else tidy pl) (drop_ownership q) (\<lambda>_. fresh_place pl {})"
    if "q = ?o \<or> q = ?o\<lparr>os_active := False\<rparr>" for q
    using that by (intro rg_drop) auto
  have "rg (relied pl) (owed pl) (made pl ?ns)
      (st_bind (if orderly then st_bind (withdraw ?o) (\<lambda>(r, o''). st_return o'') else st_return ?o) drop_ownership)
      (\<lambda>_. fresh_place pl {})"
  proof (cases orderly)
    case True
    have "rg (relied pl) (owed pl) (made pl ?ns) (withdraw ?o) (\<lambda>r c. (\<exists>x. r = Inr (x, ?o\<lparr>os_active := False\<rparr>)) \<and> tidy pl c)"
      unfolding withdraw_def using release_rg [of pl ?ns] by (intro rg_attempt_bind) (auto intro: rg_return)
    then have w: "rg (relied pl) (owed pl) (made pl ?ns) (st_bind (withdraw ?o) (\<lambda>(r, o''). st_return o''))
        (\<lambda>r c. r = Inr (?o\<lparr>os_active := False\<rparr>) \<and> tidy pl c)"
      by (rule rg_bind) (auto intro!: rg_return simp: split_beta)
    have d: "rg (relied pl) (owed pl) (\<lambda>c. q = ?o\<lparr>os_active := False\<rparr> \<and> tidy pl c) (drop_ownership q) (\<lambda>_. fresh_place pl {})" for q
      by (rule rg_pure) (use drop [of "?o\<lparr>os_active := False\<rparr>"] in simp)
    show ?thesis unfolding if_P [OF True] by (rule rg_bind [OF w]) (simp, rule rg_pre [OF d], simp)
  next
    case False
    then show ?thesis using drop [of ?o] by (simp add: st_bind_try)
  qed
  then have "rg (relied pl) (owed pl) (\<lambda>c. o' = ?o \<and> made pl ?ns c)
      (st_bind (if orderly then st_bind (withdraw o') (\<lambda>(r, o''). st_return o'') else st_return o') drop_ownership)
      (\<lambda>_. fresh_place pl {})"
    by - (rule rg_pure, simp only:)
  then show ?case by (rule rg_pre) (auto simp: claimed_state_def settled_def dest: owning_made)
qed
text \<open>
  C12. One provider per screen: from its start to its end, whichever requests fail and however it ends, nothing a provider
  does takes the selection from another provider, removes that provider's window or touches the advertisement while
  the other owns the selection, provided the other clients leave this provider alone in the same way. What each
  provider relies on is what every provider guarantees. At its end, or when its claim fails, it holds nothing.
\<close>

theorem screen_ownership_exclusive:
  assumes "oe_id env = Inr own" and "xc_created (xw_server w) = {}" and "xw_effects w = []"
    and "d0 = xc_display (xw_server w)" and "selection = oe_atom env (selection_name (xd_screen d0))"
    and "property = oe_atom env ADVERTISEMENT_PROPERTY" and "root = xd_roots d0 ! xd_screen d0"
    and "xd_owner d0 selection \<noteq> own" and "cooperative (leaves_alone selection property root own) w"
    and "provider_life env socket orderly w = (r, w')"
  shows "(\<forall>(d, d') \<in> set (xw_effects w'). \<forall>other. other \<noteq> own \<and> other \<noteq> X_NONE \<longrightarrow> leaves_alone selection property root other d d')
    \<and> xd_owner (xc_display (xw_server w')) selection \<noteq> own \<and> xc_created (xw_server w') = {}"
proof -
  let ?pl = "own_place env d0 own"
  have rely: "relied ?pl = leaves_alone selection property root own" by (simp add: relied_def own_place_def assms)
  have start: "fresh_place ?pl {} (xw_server w)" using assms by (auto simp: fresh_place_def tidy_def own_place_def)
  have "discreet (owed ?pl) w'" "fresh_place ?pl {} (xw_server w')"
    using rgD [OF life_rg [OF assms(1) refl, of d0 socket orderly], of w r w'] assms(3,9,10) start
    unfolding rely by (auto simp: discreet_def)
  then show ?thesis by (auto simp: discreet_def owed_def fresh_place_def tidy_def own_place_def assms(5-7))
qed

section \<open>What a claimed screen shows\<close>

text \<open>
  The answers a discovering client gets while the display goes from \<open>d1\<close>, where it asks for the owner, over \<open>d2\<close>,
  where it reads the properties, to \<open>d3\<close>, where it asks again. A property read returns at most the requested length.
\<close>

definition property_view :: "window_property option \<Rightarrow> property_reply" where
  "property_view p = (case p of
       None \<Rightarrow> \<lparr>pr_type = X_NONE, pr_format = 0, pr_bytes_after = 0, pr_value = [], pr_value32 = None\<rparr>
     | Some v \<Rightarrow> \<lparr>pr_type = wp_type v, pr_format = 8, pr_bytes_after = of_nat (length (wp_value v) - 4 * MAX_PROPERTY_LONGS),
         pr_value = take (4 * MAX_PROPERTY_LONGS) (wp_value v), pr_value32 = None\<rparr>)"

definition display_view :: "own_env \<Rightarrow> x_display \<Rightarrow> x_display \<Rightarrow> x_display \<Rightarrow> x11_view" where
  "display_view env d1 d2 d3 = \<lparr>xv_connect = Inr (xd_screen d1), xv_roots = xd_roots d1,
     xv_atom = (\<lambda>name. Inr (if name \<in> xd_interned d1 then oe_atom env name else X_NONE)),
     xv_owner = (\<lambda>s. Inr (xd_owner d1 s)), xv_property = (\<lambda>window p. Inr (property_view (xd_property d2 (window, p)))),
     xv_owner_again = (\<lambda>s. Inr (xd_owner d3 s))\<rparr>"

definition advertised_on :: "own_env \<Rightarrow> place \<Rightarrow> string \<Rightarrow> x_display \<Rightarrow> bool" where
  "advertised_on env pl socket d \<longleftrightarrow> xd_screen d = pl_screen pl \<and> xd_roots d = pl_roots pl
    \<and> {''UTF8_STRING'', ADVERTISEMENT_PROPERTY, selection_name (pl_screen pl)} \<subseteq> xd_interned d
    \<and> xd_owner d (pl_selection pl) = pl_window pl
    \<and> (\<forall>window \<in> {pl_window pl, pl_root pl}. xd_property d (window, pl_property pl)
        = Some \<lparr>wp_type = oe_atom env ''UTF8_STRING'', wp_value = as_bytes (Advertisement_encode \<lparr>adv_socket = socket\<rparr>)\<rparr>)"

lemma advertised_stays: "advertised_on env pl socket d \<Longrightarrow> relied pl d d' \<Longrightarrow> advertised_on env pl socket d'"
  by (auto simp: advertised_on_def relied_def leaves_alone_def)

lemma claimed_advertised: "claimed_state env pl socket o' c \<Longrightarrow> advertised_on env pl socket (xc_display c)"
  by (auto simp: claimed_state_def settled_def advertised_on_def owning_def made_def tidy_def shows_on_def)

lemma advertisement_view:
  assumes "valid_advertisement adv"
  shows "property_view (Some \<lparr>wp_type = t, wp_value = as_bytes (Advertisement_encode adv)\<rparr>) =
      \<lparr>pr_type = t, pr_format = 8, pr_bytes_after = 0, pr_value = as_bytes (Advertisement_encode adv), pr_value32 = None\<rparr>
    \<and> length (Advertisement_encode adv) \<le> MAX_ADVERTISEMENT_BYTES"
  using assms by (auto simp: property_view_def length_encode valid_advertisement_def validate_socket_def
      MAX_PROPERTY_LONGS_def MAX_ADVERTISEMENT_BYTES_def split: if_splits)
lemma advertisement_decodes:
  assumes "valid_advertisement \<lparr>adv_socket = socket\<rparr>" and "utf8_wellformed (map code_of socket)"
  shows "from_utf8 (as_bytes (Advertisement_encode \<lparr>adv_socket = socket\<rparr>)) = Some (Advertisement_encode \<lparr>adv_socket = socket\<rparr>)"
    and "Advertisement_parse (Advertisement_encode \<lparr>adv_socket = socket\<rparr>) = Inr \<lparr>adv_socket = socket\<rparr>"
    and "validate_path socket source = Inr socket"
proof -
  have "utf8_wellformed (map code_of (PROTOCOL_NAME @ [SEPARATOR] @ REVISION_TEXT @ [SEPARATOR]))"
    by (simp add: PROTOCOL_NAME_def REVISION_TEXT_def SEPARATOR_def)
  from utf8_wellformed_append [OF this, of "map code_of socket"] assms(2)
  show "from_utf8 (as_bytes (Advertisement_encode \<lparr>adv_socket = socket\<rparr>)) = Some (Advertisement_encode \<lparr>adv_socket = socket\<rparr>)"
    unfolding from_utf8_as_bytes by (simp add: Advertisement_encode_def revision_text)
  show "Advertisement_parse (Advertisement_encode \<lparr>adv_socket = socket\<rparr>) = Inr \<lparr>adv_socket = socket\<rparr>"
    by (rule parse_encode [OF assms(1)])
  have "is_absolute socket" if "take 1 socket = ''/''" using that by (cases socket) (auto simp: is_absolute_def)
  then show "validate_path socket source = Inr socket"
    using assms(1) by (auto simp: valid_advertisement_def validate_socket_def validate_path_def MAX_SOCKET_PATH_BYTES_def
        SEPARATOR_def split: if_splits)
qed

lemma advertised_found:
  assumes "\<forall>d \<in> {d1, d2, d3}. advertised_on env pl socket d" and "pl_screen pl < length (pl_roots pl)"
    and "pl_root pl = pl_roots pl ! pl_screen pl" and "pl_window pl \<noteq> X_NONE"
    and "pl_selection pl = oe_atom env (selection_name (pl_screen pl))" and "pl_property pl = oe_atom env ADVERTISEMENT_PROPERTY"
    and "\<And>name. oe_atom env name \<noteq> X_NONE"
    and valid: "valid_advertisement \<lparr>adv_socket = socket\<rparr>" and "utf8_wellformed (map code_of socket)"
    and "screen_name \<noteq> []"
  shows "discover_x11 (Some screen_name) (display_view env d1 d2 d3) = Inr (Some socket)"
    and "advertised_socket (display_view env d1 d2 d3) = Inr socket"
proof -
  let ?xv = "display_view env d1 d2 d3" and ?adv = "Advertisement_encode \<lparr>adv_socket = socket\<rparr>"
  have ask: "xv_connect ?xv = Inr (pl_screen pl)" "xv_roots ?xv = pl_roots pl"
    "xv_atom ?xv (selection_name (pl_screen pl)) = Inr (pl_selection pl)" "xv_atom ?xv ADVERTISEMENT_PROPERTY = Inr (pl_property pl)"
    "xv_atom ?xv ''UTF8_STRING'' = Inr (oe_atom env ''UTF8_STRING'')"
    "xv_owner ?xv (pl_selection pl) = Inr (pl_window pl)" "xv_owner_again ?xv (pl_selection pl) = Inr (pl_window pl)"
    using assms(1,5,6) by (auto simp: display_view_def advertised_on_def)
  have reply: "xv_property ?xv window (pl_property pl) = Inr \<lparr>pr_type = oe_atom env ''UTF8_STRING'', pr_format = 8,
      pr_bytes_after = 0, pr_value = as_bytes ?adv, pr_value32 = None\<rparr>" if "window \<in> {pl_window pl, pl_root pl}" for window
    using assms(1) that advertisement_view [OF valid] by (auto simp: display_view_def advertised_on_def)
  have len: "length ?adv \<le> MAX_ADVERTISEMENT_BYTES" using advertisement_view [OF valid] by blast
  have read: "read_property ?xv window (pl_property pl) (oe_atom env ''UTF8_STRING'') = Inr (Some (as_bytes ?adv))"
    "read_advertisement ?xv window (pl_property pl) (oe_atom env ''UTF8_STRING'') = Inr (as_bytes ?adv)"
    if "window \<in> {pl_window pl, pl_root pl}" for window
    using reply [OF that] len assms(7) by (simp_all add: read_property_def read_advertisement_def x11_result_def)
  note atoms = assms(7) [of "selection_name (pl_screen pl)"] assms(7) [of ADVERTISEMENT_PROPERTY] assms(7) [of "''UTF8_STRING''"]
  note facts = ask read [of "pl_window pl", simplified] read [of "pl_root pl", simplified] assms(2,3,4) atoms [folded assms(5,6)]
    advertisement_decodes [OF valid assms(9)]
  show "discover_x11 (Some screen_name) ?xv = Inr (Some socket)"
    using facts assms(10) by (simp add: discover_x11_def x11_result_def ok_or_def found_def)
  show "advertised_socket ?xv = Inr socket"
    using facts by (simp add: advertised_socket_def ok_or_def)
qed

text \<open>
  C20. A claimed screen is found: once a claim has succeeded among clients that leave the provider alone, the companion's
  discovery and the provider's own control command both resolve the display to exactly the provider's socket, even
  while the display keeps changing in that way between their requests, and the ownership names the selection's owner.
\<close>

theorem claimed_screen_is_discovered:
  assumes "oe_id env = Inr own" and "\<And>name. oe_atom env name \<noteq> X_NONE" and "xc_created (xw_server w) = {}" and "xw_effects w = []"
    and "d0 = xc_display (xw_server w)" and "selection = oe_atom env (selection_name (xd_screen d0))"
    and "property = oe_atom env ADVERTISEMENT_PROPERTY" and "root = xd_roots d0 ! xd_screen d0"
    and "xd_owner d0 selection \<noteq> own" and "cooperative (leaves_alone selection property root own) w"
    and claim: "Ownership_claim env socket w = (Inr o', w')"
    and later: "\<forall>d \<in> {d1, d2, d3}. leaves_alone selection property root own (xc_display (xw_server w')) d"
    and "screen_name \<noteq> []"
  shows "discover_x11 (Some screen_name) (display_view env d1 d2 d3) = Inr (Some socket)
    \<and> advertised_socket (display_view env d1 d2 d3) = Inr socket
    \<and> xd_owner d3 selection = os_owner o' \<and> os_selection o' = selection"
proof -
  let ?pl = "own_place env d0 own"
  have rely: "relied ?pl = leaves_alone selection property root own" by (simp add: relied_def own_place_def assms)
  have start: "fresh_place ?pl {} (xw_server w)" using assms by (auto simp: fresh_place_def tidy_def own_place_def)
  have st: "claimed_state env ?pl socket o' (xw_server w')"
    using rgD [OF claim_rg [OF assms(1) refl, of d0 socket], of w _ w'] assms(4,10) claim start
    unfolding rely by (auto simp: discreet_def)
  have adv: "\<forall>d \<in> {d1, d2, d3}. advertised_on env ?pl socket d"
    using advertised_stays [OF claimed_advertised [OF st]] later unfolding rely by blast
  have facts: "pl_screen ?pl < length (pl_roots ?pl)" "pl_window ?pl \<noteq> X_NONE"
    "valid_advertisement \<lparr>adv_socket = socket\<rparr>" "utf8_wellformed (map code_of socket)"
    "os_owner o' = own" "os_selection o' = selection"
    using st by (auto simp: claimed_state_def settled_def owning_def made_def tidy_def own_place_def assms(6))
  have "discover_x11 (Some screen_name) (display_view env d1 d2 d3) = Inr (Some socket)"
    "advertised_socket (display_view env d1 d2 d3) = Inr socket"
    by (rule advertised_found [OF adv]; use facts assms(2,13) in \<open>simp add: own_place_def\<close>)+
  then show ?thesis using adv facts by (auto simp: advertised_on_def own_place_def assms(6))
qed
section \<open>A concrete display\<close>

definition demo_own_env :: own_env where
  "demo_own_env = \<lparr>oe_atom = (\<lambda>name. if name = ''UTF8_STRING'' then 5 else if name = ADVERTISEMENT_PROPERTY then 6 else 4),
     oe_id = Inr 9\<rparr>"

definition demo_display :: x_display where
  "demo_display = \<lparr>xd_screen = 0, xd_roots = [7], xd_interned = {}, xd_windows = {7}, xd_owner = (\<lambda>_. X_NONE),
     xd_property = Map.empty\<rparr>"

definition demo_x_race :: "x_display \<Rightarrow> x_display" where
  "demo_x_race d = d\<lparr>xd_windows := insert 8 (xd_windows d)\<rparr>"

definition demo_x_world :: x_world where
  "demo_x_world = \<lparr>xw_server = \<lparr>xc_display = demo_display, xc_grabbed = False, xc_created = {}\<rparr>,
     xw_script = [\<lparr>xs_race = Some demo_x_race, xs_failure = None\<rparr>], xw_effects = []\<rparr>"

lemma demo_atoms: "oe_atom demo_own_env name \<noteq> X_NONE" "oe_id demo_own_env = Inr 9"
  by (simp_all add: demo_own_env_def X_NONE_def)

lemma demo_cooperative: "cooperative (leaves_alone 4 6 7 9) demo_x_world"
  by (simp add: cooperative_def demo_x_world_def demo_x_race_def leaves_alone_def)

lemma demo_selection:
  "oe_atom demo_own_env (selection_name 0) = 4" "oe_atom demo_own_env ADVERTISEMENT_PROPERTY = 6"
  by (simp_all add: demo_own_env_def selection_name_def ADVERTISEMENT_PROPERTY_def)

lemma demo_claimed: "\<exists>o' w'. Ownership_claim demo_own_env ''/s'' demo_x_world = (Inr o', w')"
proof -
  have "from_utf8 (as_bytes ''/s'') = Some ''/s''" by (simp add: from_utf8_as_bytes)
  moreover have "Advertisement_new ''/s'' = Inr \<lparr>adv_socket = ''/s''\<rparr>" by (simp add: new_accepts validate_socket_def SEPARATOR_def)
  ultimately show ?thesis
    by (simp add: Ownership_claim_def ok_or_def st_bind_try st_bind_def st_map_err_def st_attempt_def st_run or_close_def claim_on_def
        x_connect_def x_call_def next_step_def raced_def Let_def on_display_def demo_x_world_def demo_display_def demo_x_race_def
        intern_atom_def demo_atoms(2) create_window_def exists_window_def X_NONE_def claim_selection_def grab_server_def
        claim_under_grab_def get_selection_owner_def set_selection_owner_def ungrab_server_def flush_def result_and_def
        change_property8_def)
qed

theorem screen_ownership_exclusive_witness:
  "\<exists>r w'. provider_life demo_own_env ''/s'' True demo_x_world = (r, w')
    \<and> (\<forall>(d, d') \<in> set (xw_effects w'). leaves_alone 4 6 7 8 d d') \<and> xd_owner (xc_display (xw_server w')) 4 \<noteq> 9"
proof -
  obtain r w' where run: "provider_life demo_own_env ''/s'' True demo_x_world = (r, w')" by force
  have "(\<forall>(d, d') \<in> set (xw_effects w'). \<forall>other. other \<noteq> 9 \<and> other \<noteq> X_NONE \<longrightarrow> leaves_alone 4 6 7 other d d')
      \<and> xd_owner (xc_display (xw_server w')) 4 \<noteq> 9 \<and> xc_created (xw_server w') = {}"
    by (rule screen_ownership_exclusive [OF demo_atoms(2) _ _ refl _ _ _ _ demo_cooperative run])
      (simp_all add: demo_x_world_def demo_display_def demo_selection X_NONE_def)
  then show ?thesis using run by (fastforce simp: X_NONE_def)
qed

theorem claimed_screen_is_discovered_witness:
  "\<exists>o' w'. Ownership_claim demo_own_env ''/s'' demo_x_world = (Inr o', w')
    \<and> discover_x11 (Some '':0'') (display_view demo_own_env (xc_display (xw_server w')) (demo_x_race (xc_display (xw_server w')))
        (xc_display (xw_server w'))) = Inr (Some ''/s'')"
proof -
  obtain o' w' where run: "Ownership_claim demo_own_env ''/s'' demo_x_world = (Inr o', w')" using demo_claimed by blast
  let ?d = "xc_display (xw_server w')"
  have later: "\<forall>d \<in> {?d, demo_x_race ?d, ?d}. leaves_alone 4 6 7 9 ?d d" by (simp add: demo_x_race_def leaves_alone_def)
  have "discover_x11 (Some '':0'') (display_view demo_own_env ?d (demo_x_race ?d) ?d) = Inr (Some ''/s'')
      \<and> advertised_socket (display_view demo_own_env ?d (demo_x_race ?d) ?d) = Inr ''/s''
      \<and> xd_owner ?d 4 = os_owner o' \<and> os_selection o' = 4"
    by (rule claimed_screen_is_discovered [OF demo_atoms(2,1) _ _ refl _ _ _ _ demo_cooperative run later])
      (simp_all add: demo_x_world_def demo_display_def demo_selection X_NONE_def)
  then show ?thesis using run by blast
qed

end
