(* ===== verification/Provider_Runtime.thy ===== *)
theory Provider_Runtime
  imports Policy_File Companion_Seat
begin

text \<open>
  The private runtime directory and the recoverable sockets of the provider (\<^verbatim>\<open>agent-seat-x11/src/runtime.rs\<close>),
  over the file system of the policy file. \<open>live\<close> tells which socket inodes have a process listening on them.
\<close>

section \<open>System calls on sockets\<close>

definition sys_metadata :: "string \<Rightarrow> (world, errno, metadata) st" where
  "sys_metadata p = syscall (\<lambda>d. (map_ok (\<lambda>(i, f). metadata_of i f) (file_behind MAX_LINKS d p), d))"

definition sys_bind :: "'d policy_env \<Rightarrow> string \<Rightarrow> (world, errno, inode) st" where
  "sys_bind env p = syscall (\<lambda>d. if dk_names d (path_components p) \<noteq> None
     then (Inl (AddrInUse ''Address already in use''), d)
     else (case pe_alloc env d of
         None \<Rightarrow> (Inl (Errno ''No space left on device''), d)
       | Some i \<Rightarrow> (Inr i, d\<lparr>dk_names := (dk_names d)(path_components p \<mapsto> i),
           dk_inodes := (dk_inodes d)(i \<mapsto> \<lparr>fi_kind = Kind_Socket, fi_uid = pe_uid env,
             fi_mode = and 511 (not (pe_umask env)), fi_data = []\<rparr>)\<rparr>)))"

text \<open>
  Where the code tells one kind of error from another, the kernel reports that kind only for its own reason: it refuses
  a connection where nobody listens and misses a name that is absent. A scripted failure of such a call is another error.
\<close>

definition sys_probe :: "(disk \<Rightarrow> errno + 'a) \<Rightarrow> (world, errno, 'a) st" where
  "sys_probe f = st_bind (st_map_err (\<lambda>e. Errno (errno_text e)) (syscall (\<lambda>d. (Inr (f d), d)))) st_try"

definition sys_connect :: "(inode \<Rightarrow> bool) \<Rightarrow> string \<Rightarrow> (world, errno, unit) st" where
  "sys_connect live p = sys_probe (\<lambda>d. res_bind (file_behind MAX_LINKS d p) (\<lambda>(i, f).
     if fi_kind f = Kind_Socket \<and> live i then Inr () else Inl (ConnectionRefused ''Connection refused'')))"

definition sys_set_nonblocking :: "(world, errno, unit) st" where
  "sys_set_nonblocking = syscall (\<lambda>d. (Inr (), d))"

section \<open>Paths\<close>

definition fnv1a64 :: "byte list \<Rightarrow> u64" where
  "fnv1a64 bytes = foldl (\<lambda>hash b. (xor hash (ucast b)) * 0x100000001b3) 0xcbf29ce484222325 bytes"

text \<open>The format \<^verbatim>\<open>{:016x}\<close>.\<close>

definition hash_digit :: "nat \<Rightarrow> char" where
  "hash_digit n = (if n < 10 then char_of (48 + n) else char_of (87 + n))"

definition hash_hex :: "u64 \<Rightarrow> string" where
  "hash_hex w = map (\<lambda>k. hash_digit (unat w div 16 ^ k mod 16)) (rev [0..<16])"

definition default_socket_path :: "(string \<Rightarrow> string option) \<Rightarrow> nat \<Rightarrow> string + string" where
  "default_socket_path var screen =
    res_bind (ok_or (var ''XDG_RUNTIME_DIR'') ''XDG_RUNTIME_DIR is required unless --socket is provided'') (\<lambda>base.
    if \<not> is_absolute base then Inl ''XDG_RUNTIME_DIR must be absolute''
    else
      res_bind (ok_or (var ''DISPLAY'') ''DISPLAY is required for the X11 provider'') (\<lambda>display.
      Inr (path_join (path_join base ''agent-seat'')
        (''seat-'' @ hash_hex (fnv1a64 (as_bytes display)) @ ''-s'' @ decimal screen @ ''.sock''))))"

definition control_socket_path :: "(string \<Rightarrow> string option) \<Rightarrow> string \<Rightarrow> string + string" where
  "control_socket_path var provider_socket =
    res_bind (ok_or (var ''XDG_RUNTIME_DIR'') ''XDG_RUNTIME_DIR is required for seat control'') (\<lambda>base.
    if \<not> is_absolute base then Inl ''XDG_RUNTIME_DIR must be absolute''
    else Inr (path_join (path_join base ''agent-seat'')
      (''control-'' @ hash_hex (fnv1a64 (as_bytes provider_socket)) @ ''.sock'')))"

definition validate_socket_path :: "string \<Rightarrow> string + unit" where
  "validate_socket_path p =
    res_bind (ok_or (from_utf8 (as_bytes p)) ''socket path must be UTF-8'') (\<lambda>t.
    map_err (\<lambda>e. ''invalid socket path: '' @ AdvertisementError_to_string e) (map_ok (\<lambda>_. ()) (Advertisement_new t)))"

section \<open>The runtime directory and its sockets\<close>

definition validate_private_directory :: "'d policy_env \<Rightarrow> string \<Rightarrow> (world, string, unit) st" where
  "validate_private_directory env p =
    st_bind (io (''cannot inspect runtime directory '' @ p) (sys_symlink_metadata p)) (\<lambda>meta.
    if md_kind meta \<noteq> Kind_Directory \<or> md_uid meta \<noteq> pe_uid env \<or> and (md_mode meta) 63 \<noteq> 0
    then st_fail (''runtime directory '' @ p @ '' must be a private directory owned by UID '' @ decimal (unat (pe_uid env)))
    else st_return ())"

definition ensure_private_directory :: "'d policy_env \<Rightarrow> string \<Rightarrow> (world, string, unit) st" where
  "ensure_private_directory env p =
    st_bind (st_attempt (sys_metadata p)) (\<lambda>present.
    st_bind (if is_ok present then st_return ()
      else io (''cannot create runtime directory '' @ p) (sys_mkdir env (path_components p))) (\<lambda>_.
    validate_private_directory env p))"

definition is_owned_socket :: "'d policy_env \<Rightarrow> metadata \<Rightarrow> bool" where
  "is_owned_socket env meta \<longleftrightarrow> md_kind meta = Kind_Socket \<and> md_uid meta = pe_uid env"

definition recover_stale_socket :: "'d policy_env \<Rightarrow> (inode \<Rightarrow> bool) \<Rightarrow> string \<Rightarrow> (world, string, unit) st" where
  "recover_stale_socket env live p =
    st_bind (st_attempt (sys_connect live p)) (\<lambda>answer.
    st_bind (case answer of
        Inr _ \<Rightarrow> st_fail (''a live provider socket already exists at '' @ p)
      | Inl (ConnectionRefused _) \<Rightarrow> st_return ()
      | Inl (NotFound _) \<Rightarrow> st_return ()
      | Inl e \<Rightarrow> st_fail (''cannot establish whether '' @ p @ '' is stale: '' @ errno_text e)) (\<lambda>_.
    st_bind (io (''cannot inspect stale socket '' @ p) (sys_symlink_metadata p)) (\<lambda>meta.
    if \<not> is_owned_socket env meta then st_fail (''refusing to replace non-socket or foreign path '' @ p)
    else io (''cannot remove stale socket '' @ p) (sys_remove_file p))))"

record ListenerGuard =
  lg_listener :: inode
  lg_path :: string
  lg_device :: u64
  lg_inode :: u64

definition bind_socket :: "'d policy_env \<Rightarrow> (inode \<Rightarrow> bool) \<Rightarrow> string \<Rightarrow> (world, string, inode) st" where
  "bind_socket env live p =
    st_bind (st_attempt (sys_bind env p)) (\<lambda>bound. case bound of
      Inr listener \<Rightarrow> st_return listener
    | Inl (AddrInUse _) \<Rightarrow>
        st_bind (recover_stale_socket env live p) (\<lambda>_.
        io (''cannot bind recovered socket '' @ p) (sys_bind env p))
    | Inl e \<Rightarrow> st_fail (''cannot bind socket '' @ p @ '': '' @ errno_text e))"

definition ListenerGuard_bind ::
    "'d policy_env \<Rightarrow> (inode \<Rightarrow> bool) \<Rightarrow> (string \<Rightarrow> string option) \<Rightarrow> string option \<Rightarrow> nat \<Rightarrow> (world, string, ListenerGuard) st" where
  "ListenerGuard_bind env live var explicit screen =
    st_bind (st_try (case explicit of Some p \<Rightarrow> Inr p | None \<Rightarrow> default_socket_path var screen)) (\<lambda>p.
    st_bind (st_try (validate_socket_path p)) (\<lambda>_.
    st_bind (st_try (ok_or (path_parent p) ''socket path has no parent directory'')) (\<lambda>parent.
    st_bind (ensure_private_directory env parent) (\<lambda>_.
    st_bind (bind_socket env live p) (\<lambda>listener.
    st_bind (io (''cannot protect socket '' @ p) (sys_chmod p 384)) (\<lambda>_.
    st_bind (io ''cannot make listener nonblocking'' sys_set_nonblocking) (\<lambda>_.
    st_bind (io (''cannot inspect bound socket '' @ p) (sys_symlink_metadata p)) (\<lambda>meta.
    st_return \<lparr>lg_listener = listener, lg_path = p, lg_device = in_dev (md_inode meta), lg_inode = in_ino (md_inode meta)\<rparr>))))))))"

definition drop_listener :: "ListenerGuard \<Rightarrow> (world, 'e, unit) st" where
  "drop_listener g =
    st_bind (st_attempt (sys_symlink_metadata (lg_path g))) (\<lambda>r. case r of
      Inr meta \<Rightarrow>
        if md_inode meta = Inode (lg_device g) (lg_inode g)
        then st_bind (st_attempt (sys_remove_file (lg_path g))) (\<lambda>_. st_return ())
        else st_return ()
    | Inl _ \<Rightarrow> st_return ())"

section \<open>A bound socket replaces nothing but a dead one\<close>

definition stale_socket :: "'d policy_env \<Rightarrow> (inode \<Rightarrow> bool) \<Rightarrow> inode \<Rightarrow> disk_file \<Rightarrow> bool" where
  "stale_socket env live i f \<longleftrightarrow> fi_kind f = Kind_Socket \<and> fi_uid f = pe_uid env \<and> \<not> live i"

definition untouched :: "'d policy_env \<Rightarrow> (inode \<Rightarrow> bool) \<Rightarrow> string \<Rightarrow> disk \<Rightarrow> disk \<Rightarrow> bool" where
  "untouched env live p d0 d \<longleftrightarrow>
    (\<forall>k i f. dk_names d0 k = Some i \<longrightarrow> dk_inodes d0 i = Some f \<longrightarrow>
      dk_names d k = Some i \<and> dk_inodes d i = Some f \<or> k = path_components p \<and> stale_socket env live i f)
    \<and> (\<forall>i. dk_inodes d i = None \<longrightarrow> dk_inodes d0 i = None)"

definition private_directory :: "'d policy_env \<Rightarrow> string \<Rightarrow> disk \<Rightarrow> bool" where
  "private_directory env q d \<longleftrightarrow> (\<exists>i f. dk_names d (path_components q) = Some i \<and> dk_inodes d i = Some f
    \<and> fi_kind f = Kind_Directory \<and> fi_uid f = pe_uid env \<and> and (fi_mode f) 63 = 0)"

lemma untouched_refl [simp]: "untouched env live p d d"
  by (simp add: untouched_def)

lemma untouched_create:
  assumes "untouched env live p d0 d" and "dk_names d k = None" and "dk_inodes d i = None"
  shows "untouched env live p d0 (d\<lparr>dk_names := (dk_names d)(k \<mapsto> i), dk_inodes := (dk_inodes d)(i \<mapsto> f)\<rparr>)"
  using assms unfolding untouched_def by (auto split: if_splits) (metis option.distinct(1))+

lemma private_create:
  "private_directory env q d \<Longrightarrow> dk_names d k = None \<Longrightarrow> dk_inodes d i = None \<Longrightarrow>
    private_directory env q (d\<lparr>dk_names := (dk_names d)(k \<mapsto> i), dk_inodes := (dk_inodes d)(i \<mapsto> f)\<rparr>)"
  unfolding private_directory_def by auto

lemma looks_pure [looks_intros]: "looks (syscall (\<lambda>d. (f d, d)))"
  by (simp add: looks_def triple_syscall)

lemma looks_probe [looks_intros]: "looks (sys_probe f)"
  unfolding sys_probe_def by (intro looks_intros)

lemma looks_socket_calls [looks_intros]:
  "looks (sys_metadata p)" "looks sys_set_nonblocking" "looks (sys_connect live p)" "looks (validate_private_directory env q)"
  unfolding sys_metadata_def sys_set_nonblocking_def sys_connect_def validate_private_directory_def
  by (intro looks_intros)+

lemma probe_triple: "triple (\<lambda>d. d = d0) (sys_probe f) (\<lambda>r d. d = d0 \<and> (r = f d0 \<or> (\<exists>t. r = Inl (Errno t))))"
  unfolding sys_probe_def
proof (rule triple_step)
  show "triple (\<lambda>d. d = d0) (st_map_err (\<lambda>e. Errno (errno_text e)) (syscall (\<lambda>d. (Inr (f d), d))))
      (\<lambda>r d. d = d0 \<and> (case r of Inl e \<Rightarrow> \<exists>t. e = Errno t | Inr v \<Rightarrow> v = f d0))"
    by (rule triple_map_err, rule triple_syscall) auto
qed (auto intro: triple_try)

lemma sys_connect_refused:
  "triple (\<lambda>d. d = d0) (sys_connect live p)
    (\<lambda>r d. d = d0 \<and> (\<forall>t. r = Inl (ConnectionRefused t) \<or> r = Inl (NotFound t) \<longrightarrow>
      (\<forall>i f. file_at d0 p = Some (i, f) \<longrightarrow> fi_kind f = Kind_Socket \<longrightarrow> \<not> live i)))"
  unfolding sys_connect_def
  by (rule triple_conseq [OF probe_triple]) (auto simp: MAX_LINKS_def eval_nat_numeral)

lemma st_bind_try_Inr: "st_bind (st_try (Inr a)) f = f a"
  by (rule ext) (simp add: st_bind_def st_run)

lemma io_metadata_triple:
  "triple P (io what (sys_symlink_metadata p))
    (\<lambda>r d. P d \<and> (\<forall>m. r = Inr m \<longrightarrow> (\<exists>i f. file_at d p = Some (i, f) \<and> m = metadata_of i f)))"
  unfolding sys_symlink_metadata_def by (rule triple_map_err, rule triple_syscall) (auto split: option.split)

lemma file_at_Some: "file_at d p = Some (i, f) \<longleftrightarrow> dk_names d (path_components p) = Some i \<and> dk_inodes d i = Some f"
  by (auto simp: file_at_def bind_eq_Some_conv)

lemma validate_private_triple:
  "triple P (validate_private_directory env q) (\<lambda>r d. P d \<and> (is_ok r \<longrightarrow> private_directory env q d))"
  unfolding validate_private_directory_def
  apply (rule triple_step [OF io_metadata_triple [where P = P]], simp)
  apply (split if_split, intro conjI impI)
   apply (rule triple_fail, simp)
  apply (rule triple_return)
  apply (auto simp: private_directory_def metadata_of_def file_at_Some)
  done

lemma ensure_private_triple:
  assumes "allocates_fresh env"
  shows "triple (untouched env live p d0) (ensure_private_directory env q)
    (\<lambda>r d. untouched env live p d0 d \<and> (is_ok r \<longrightarrow> private_directory env q d))"
  unfolding ensure_private_directory_def
proof (rule triple_attempt_bind [OF looksD [OF looks_socket_calls(1)]], rule triple_then)
  fix r
  have "triple (untouched env live p d0) (sys_mkdir env (path_components q)) (\<lambda>_. untouched env live p d0)"
    unfolding sys_mkdir_def using assms
    by (intro triple_syscall) (auto simp: allocates_fresh_def intro!: untouched_create split: option.split)
  then show "triple (untouched env live p d0) (if is_ok r then st_return ()
      else io (''cannot create runtime directory '' @ q) (sys_mkdir env (path_components q))) (\<lambda>_. untouched env live p d0)"
    by (auto intro!: triple_return triple_map_err)
qed (auto intro: validate_private_triple)

definition bound_at :: "'d policy_env \<Rightarrow> disk \<Rightarrow> string \<Rightarrow> inode \<Rightarrow> disk \<Rightarrow> bool" where
  "bound_at env d0 p l d \<longleftrightarrow> dk_inodes d0 l = None \<and> dk_names d (path_components p) = Some l
    \<and> (\<exists>f. dk_inodes d l = Some f \<and> fi_kind f = Kind_Socket \<and> fi_uid f = pe_uid env)"

lemma sys_bind_triple:
  assumes "allocates_fresh env"
  shows "triple (\<lambda>d. untouched env live p d0 d \<and> private_directory env q d) (sys_bind env p)
    (\<lambda>r d. untouched env live p d0 d \<and> private_directory env q d \<and> (\<forall>l. r = Inr l \<longrightarrow> bound_at env d0 p l d))"
  unfolding sys_bind_def
proof (rule triple_syscall, goal_cases)
  case (1 d)
  show ?case
  proof (cases "dk_names d (path_components p) = None \<and> pe_alloc env d \<noteq> None")
    case True
    then obtain i where i: "pe_alloc env d = Some i" "dk_names d (path_components p) = None" by auto
    then have "dk_inodes d i = None" using assms by (auto simp: allocates_fresh_def)
    then show ?thesis using 1 i untouched_create [of env live p d0 d "path_components p" i] private_create [of env q d "path_components p" i]
      by (auto simp: bound_at_def untouched_def)
  qed (use 1 in \<open>auto split: option.split\<close>)
qed simp

lemma recover_triple:
  "triple (\<lambda>d. untouched env live p d0 d \<and> private_directory env q d) (recover_stale_socket env live p)
    (\<lambda>_ d. untouched env live p d0 d \<and> private_directory env q d)"
proof (rule triple_assume)
  fix d assume inv: "untouched env live p d0 d \<and> private_directory env q d"
  let ?dead = "\<forall>i f. file_at d p = Some (i, f) \<longrightarrow> fi_kind f = Kind_Socket \<longrightarrow> \<not> live i"
  let ?Q = "\<lambda>_ d. untouched env live p d0 d \<and> private_directory env q d"
  have removed: "triple (\<lambda>d'. d' = d) (io what (sys_remove_file p)) ?Q"
    if "file_at d p = Some (i, f)" "is_owned_socket env (metadata_of i f)" ?dead for what i f
  proof (rule triple_map_err, unfold sys_remove_file_def, rule triple_syscall)
    fix d' assume d': "d' = d"
    have k: "fi_kind f = Kind_Socket" "fi_uid f = pe_uid env" "\<not> live i"
      using that by (auto simp: is_owned_socket_def metadata_of_def)
    have "untouched env live p d0 (d\<lparr>dk_names := (dk_names d)(path_components p := None)\<rparr>)"
      using inv that(1) k unfolding untouched_def by (fastforce simp: file_at_Some stale_socket_def)
    moreover have "private_directory env q (d\<lparr>dk_names := (dk_names d)(path_components p := None)\<rparr>)"
      using inv that(1) k by (auto simp: private_directory_def file_at_Some)
    ultimately show "case (case file_at d' p of None \<Rightarrow> (Inl (NotFound ''No such file or directory''), d')
        | Some (_, f) \<Rightarrow> if fi_kind f = Kind_Directory then (Inl (Errno ''Is a directory''), d')
            else (Inr (), d'\<lparr>dk_names := (dk_names d')(path_components p := None)\<rparr>)) of (r, d'') \<Rightarrow> ?Q (map_err g r) d''" for g
      using d' inv that(1) k by simp
  qed (use inv in auto)
  have inspected: "triple (\<lambda>d'. d' = d) (st_bind (io what (sys_symlink_metadata p)) (\<lambda>meta.
      if \<not> is_owned_socket env meta then st_fail e else io what' (sys_remove_file p))) ?Q" if ?dead for what what' e
  proof (rule triple_step [OF io_metadata_triple])
    fix meta
    show "triple (\<lambda>d'. d' = d \<and> (\<forall>m. Inr meta = Inr m \<longrightarrow> (\<exists>i f. file_at d' p = Some (i, f) \<and> m = metadata_of i f)))
      (if \<not> is_owned_socket env meta then st_fail e else io what' (sys_remove_file p)) ?Q"
    proof (rule triple_assume, elim conjE)
      fix d' assume "d' = d" "\<forall>m. Inr meta = Inr m \<longrightarrow> (\<exists>i f. file_at d' p = Some (i, f) \<and> m = metadata_of i f)"
      then obtain i f where f: "d' = d" "file_at d p = Some (i, f)" "meta = metadata_of i f" by auto
      show "triple (\<lambda>x. x = d') (if \<not> is_owned_socket env meta then st_fail e else io what' (sys_remove_file p)) ?Q"
        using inv removed [OF f(2) _ that] f by (auto intro: triple_fail)
    qed
  qed (use inv in auto)
  show "triple (\<lambda>d'. d' = d) (recover_stale_socket env live p) ?Q"
    unfolding recover_stale_socket_def
  proof (rule triple_attempt_bind [OF sys_connect_refused])
    fix r :: "errno + unit"
    let ?P = "\<lambda>d'. d' = d \<and> (\<forall>t. r = Inl (ConnectionRefused t) \<or> r = Inl (NotFound t) \<longrightarrow> ?dead)"
    have stop: "triple ?P (st_bind (st_fail e) g) ?Q" for e and g :: "unit \<Rightarrow> (world, string, unit) st"
      using inv by (auto simp: triple_def st_bind_def st_run)
    have go: "triple ?P (st_bind (st_return ()) (\<lambda>_. st_bind (io what (sys_symlink_metadata p)) (\<lambda>meta.
        if \<not> is_owned_socket env meta then st_fail e else io what' (sys_remove_file p)))) ?Q"
      if "r = Inl (ConnectionRefused t) \<or> r = Inl (NotFound t)" for t what what' e
    proof -
      have "triple (\<lambda>d'. d' = d \<and> ?dead) (st_bind (io what (sys_symlink_metadata p)) (\<lambda>meta.
          if \<not> is_owned_socket env meta then st_fail e else io what' (sys_remove_file p))) ?Q"
        by (rule triple_pure) (rule inspected)
      then show ?thesis using that by (auto simp: triple_def st_bind_def st_run)
    qed
    let ?answer = "(case r of
          Inr _ \<Rightarrow> st_fail (''a live provider socket already exists at '' @ p)
        | Inl (ConnectionRefused _) \<Rightarrow> st_return ()
        | Inl (NotFound _) \<Rightarrow> st_return ()
        | Inl e \<Rightarrow> st_fail (''cannot establish whether '' @ p @ '' is stale: '' @ errno_text e)) :: (world, string, unit) st"
    show "triple ?P (st_bind ?answer (\<lambda>_.
      st_bind (io (''cannot inspect stale socket '' @ p) (sys_symlink_metadata p)) (\<lambda>meta.
      if \<not> is_owned_socket env meta then st_fail (''refusing to replace non-socket or foreign path '' @ p)
      else io (''cannot remove stale socket '' @ p) (sys_remove_file p)))) ?Q"
    proof (cases "\<exists>t. r = Inl (ConnectionRefused t) \<or> r = Inl (NotFound t)")
      case True
      then obtain t where t: "r = Inl (ConnectionRefused t) \<or> r = Inl (NotFound t)" by blast
      then have answer: "?answer = st_return ()" by auto
      show ?thesis unfolding answer by (rule go [OF t])
    next
      case False
      then have "\<exists>e. ?answer = st_fail e" by (cases r) (auto split: errno.split)
      then obtain e where answer: "?answer = st_fail e" ..
      show ?thesis unfolding answer by (rule stop)
    qed
  qed
qed

definition socket_held :: "'d policy_env \<Rightarrow> (inode \<Rightarrow> bool) \<Rightarrow> disk \<Rightarrow> string \<Rightarrow> string \<Rightarrow> inode \<Rightarrow> disk \<Rightarrow> bool" where
  "socket_held env live d0 p q l d \<longleftrightarrow> untouched env live p d0 d \<and> private_directory env q d \<and> bound_at env d0 p l d"

lemma bind_socket_triple:
  assumes "allocates_fresh env"
  shows "triple (\<lambda>d. untouched env live p d0 d \<and> private_directory env q d) (bind_socket env live p)
    (\<lambda>r d. untouched env live p d0 d \<and> (\<forall>l. r = Inr l \<longrightarrow> socket_held env live d0 p q l d))"
proof -
  note bind = sys_bind_triple [OF assms, of live p d0 q]
  have again: "triple (\<lambda>d. untouched env live p d0 d \<and> private_directory env q d) (io what (sys_bind env p))
      (\<lambda>r d. untouched env live p d0 d \<and> (\<forall>l. r = Inr l \<longrightarrow> socket_held env live d0 p q l d))" for what
    by (rule triple_map_err, rule triple_conseq [OF bind]) (auto simp: socket_held_def map_err_eq_Inr)
  have recover: "triple (\<lambda>d. untouched env live p d0 d \<and> private_directory env q d)
      (st_bind (recover_stale_socket env live p) (\<lambda>_. io what (sys_bind env p)))
      (\<lambda>r d. untouched env live p d0 d \<and> (\<forall>l. r = Inr l \<longrightarrow> socket_held env live d0 p q l d))" for what
    by (rule triple_then [OF recover_triple]) (simp, rule again)
  show ?thesis
    unfolding bind_socket_def
  proof (rule triple_attempt_bind [OF bind])
    fix r :: "errno + inode"
    let ?P = "\<lambda>d. untouched env live p d0 d \<and> private_directory env q d \<and> (\<forall>l. r = Inr l \<longrightarrow> bound_at env d0 p l d)"
    let ?Q = "\<lambda>r d. untouched env live p d0 d \<and> (\<forall>l. r = Inr l \<longrightarrow> socket_held env live d0 p q l d)"
    have stop: "triple (\<lambda>d. untouched env live p d0 d \<and> private_directory env q d \<and> X d) (st_fail e) ?Q" for e X by (rule triple_fail) auto
    have recovered: "triple (\<lambda>d. untouched env live p d0 d \<and> private_directory env q d \<and> X d)
        (st_bind (recover_stale_socket env live p) (\<lambda>_. io what (sys_bind env p))) ?Q" for what X
      by (rule triple_conseq [OF recover]) auto
    have made: "triple ?P (st_return l) ?Q" if "r = Inr l" for l
      using that by (intro triple_return) (auto simp: socket_held_def)
    show "triple ?P (case r of Inr listener \<Rightarrow> st_return listener
        | Inl (AddrInUse _) \<Rightarrow>
            st_bind (recover_stale_socket env live p) (\<lambda>_. io (''cannot bind recovered socket '' @ p) (sys_bind env p))
        | Inl e \<Rightarrow> st_fail (''cannot bind socket '' @ p @ '': '' @ errno_text e)) ?Q"
    proof (cases r)
      case (Inl e)
      show ?thesis
        by (cases e) (simp_all only: Inl sum.case errno.case stop recovered)
    next
      case (Inr l)
      show ?thesis unfolding Inr sum.case by (rule made [unfolded Inr, OF refl])
    qed
  qed
qed

lemma chmod_held:
  "triple (socket_held env live d0 p q l) (io what (sys_chmod p 384))
    (\<lambda>r d. socket_held env live d0 p q l d \<and> (is_ok r \<longrightarrow> (\<forall>f. dk_inodes d l = Some f \<longrightarrow> fi_mode f = 384)))"
  unfolding sys_chmod_def
proof (rule triple_map_err, rule triple_syscall, goal_cases)
  case (1 d)
  then obtain f where f: "dk_names d (path_components p) = Some l" "dk_inodes d l = Some f" "fi_kind f = Kind_Socket"
    "fi_uid f = pe_uid env" "dk_inodes d0 l = None" by (auto simp: socket_held_def bound_at_def)
  then have "file_behind MAX_LINKS d p = Inr (l, f)" by (simp add: MAX_LINKS_def eval_nat_numeral file_at_def)
  moreover have "private_directory env q (d\<lparr>dk_inodes := (dk_inodes d)(l \<mapsto> f\<lparr>fi_mode := 384\<rparr>)\<rparr>)"
    using 1 f unfolding socket_held_def private_directory_def by fastforce
  then have "socket_held env live d0 p q l (d\<lparr>dk_inodes := (dk_inodes d)(l \<mapsto> f\<lparr>fi_mode := 384\<rparr>)\<rparr>)"
    using 1 f by (auto simp: socket_held_def bound_at_def untouched_def)
  ultimately show ?case using f by (simp add: on_inode_def)
qed simp

text \<open>What a successful bind leaves at its path.\<close>

definition well_bound :: "'d policy_env \<Rightarrow> disk \<Rightarrow> string \<Rightarrow> ListenerGuard \<Rightarrow> disk \<Rightarrow> bool" where
  "well_bound env d0 p g d \<longleftrightarrow> lg_path g = p
    \<and> (\<exists>parent. path_parent p = Some parent \<and> private_directory env parent d)
    \<and> lg_listener g = Inode (lg_device g) (lg_inode g) \<and> dk_inodes d0 (lg_listener g) = None
    \<and> (\<exists>f. file_at d p = Some (lg_listener g, f) \<and> fi_kind f = Kind_Socket \<and> fi_uid f = pe_uid env \<and> fi_mode f = 384)"

lemma guard_triple:
  assumes "path_parent p = Some q"
  shows "triple (\<lambda>d. socket_held env live d0 p q l d \<and> (\<forall>f. dk_inodes d l = Some f \<longrightarrow> fi_mode f = 384))
    (st_bind (io what sys_set_nonblocking) (\<lambda>_. st_bind (io what' (sys_symlink_metadata p)) (\<lambda>meta.
      st_return \<lparr>lg_listener = l, lg_path = p, lg_device = in_dev (md_inode meta), lg_inode = in_ino (md_inode meta)\<rparr>)))
    (\<lambda>r d. untouched env live p d0 d \<and> (\<forall>g. r = Inr g \<longrightarrow> well_bound env d0 p g d))"
    (is "triple ?P _ _")
proof (rule triple_then [OF looksD], intro looks_intros)
  show "triple ?P (st_bind (io what' (sys_symlink_metadata p)) (\<lambda>meta.
      st_return \<lparr>lg_listener = l, lg_path = p, lg_device = in_dev (md_inode meta), lg_inode = in_ino (md_inode meta)\<rparr>))
    (\<lambda>r d. untouched env live p d0 d \<and> (\<forall>g. r = Inr g \<longrightarrow> well_bound env d0 p g d))"
  proof (rule triple_step [OF io_metadata_triple [where P = ?P]], simp add: socket_held_def, rule triple_return, goal_cases)
    case (1 meta d)
    then have "socket_held env live d0 p q l d" "\<exists>f. file_at d p = Some (l, f) \<and> fi_mode f = 384 \<and> meta = metadata_of l f"
      by (auto simp: socket_held_def bound_at_def file_at_Some)
    then show ?case using assms by (auto simp: well_bound_def socket_held_def bound_at_def metadata_of_def file_at_Some)
  qed
qed (simp add: socket_held_def)

lemma ListenerGuard_triple:
  assumes "allocates_fresh env" and "(case explicit of Some p \<Rightarrow> Inr p | None \<Rightarrow> default_socket_path var screen) = Inr p"
  shows "triple (\<lambda>d. d = d0) (ListenerGuard_bind env live var explicit screen)
    (\<lambda>r d. untouched env live p d0 d \<and> (\<forall>g. r = Inr g \<longrightarrow> well_bound env d0 p g d))"
proof -
  have stop: "triple (\<lambda>d. d = d0) (st_bind (st_try (Inl e)) f) (\<lambda>r d. untouched env live p d0 d \<and> (\<forall>g. r = Inr g \<longrightarrow> well_bound env d0 p g d))"
    for e :: string and f :: "'c \<Rightarrow> (world, string, ListenerGuard) st"
    by (auto simp: triple_def st_bind_def st_run)
  have bound: "triple (socket_held env live d0 p q l)
      (st_bind (io (''cannot protect socket '' @ p) (sys_chmod p 384)) (\<lambda>_.
       st_bind (io what sys_set_nonblocking) (\<lambda>_. st_bind (io what' (sys_symlink_metadata p)) (\<lambda>meta.
      st_return \<lparr>lg_listener = l, lg_path = p, lg_device = in_dev (md_inode meta), lg_inode = in_ino (md_inode meta)\<rparr>))))
      (\<lambda>r d. untouched env live p d0 d \<and> (\<forall>g. r = Inr g \<longrightarrow> well_bound env d0 p g d))" if "path_parent p = Some q" for q l what what'
    by (rule triple_step [OF chmod_held]) (simp add: socket_held_def, rule triple_conseq [OF guard_triple [OF that]], simp_all)
  show ?thesis
  proof (cases "validate_socket_path p")
    case (Inl e)
    show ?thesis unfolding ListenerGuard_bind_def assms(2) st_bind_try_Inr Inl by (rule stop)
  next
    case (Inr u)
    show ?thesis
    proof (cases "path_parent p")
      case None
      show ?thesis unfolding ListenerGuard_bind_def assms(2) st_bind_try_Inr Inr None ok_or_def option.case by (rule stop)
    next
      case (Some q)
      show ?thesis
        unfolding ListenerGuard_bind_def assms(2) st_bind_try_Inr Inr Some ok_or_def option.case
        apply (rule triple_step [OF triple_conseq [OF ensure_private_triple [OF assms(1), of live p d0 q]]], simp, assumption, simp)
        apply (rule triple_step [OF triple_conseq [OF bind_socket_triple [OF assms(1), of live p d0 q]]], simp, assumption, simp)
        apply (rule triple_conseq [OF bound [OF Some]], simp, assumption)
        done
    qed
  qed
qed

text \<open>
  C16. The provider's socket replaces nothing but a dead one: whichever calls fail, whatever existed before a bind is still
  there afterwards, unless it was the named path and held a socket of the same user on which nobody listens. A bind
  that succeeds has made a new socket of mode 0600 under that path, in a directory only the user can enter.
\<close>

theorem bind_replaces_only_dead_sockets:
  assumes "allocates_fresh env" and "quiet w" and "ListenerGuard_bind env live var (Some p) screen w = (r, w')"
  shows "untouched env live p (wd_disk w) (wd_disk w') \<and> (\<forall>g. r = Inr g \<longrightarrow> well_bound env (wd_disk w) p g (wd_disk w'))"
  using tripleD [OF ListenerGuard_triple [OF assms(1), where explicit = "Some p"] assms(2) _ assms(3)] by simp

text \<open>Dropping the guard removes the path only while it still names the socket that was bound.\<close>

theorem drop_removes_own_socket:
  assumes "quiet w" and "drop_listener g w = (r, w')"
  shows "dk_inodes (wd_disk w') = dk_inodes (wd_disk w)
    \<and> (\<forall>k. dk_names (wd_disk w') k = dk_names (wd_disk w) k
        \<or> k = path_components (lg_path g) \<and> dk_names (wd_disk w) k = Some (Inode (lg_device g) (lg_inode g)))"
proof -
  let ?d0 = "wd_disk w"
  let ?Q = "\<lambda>r d. dk_inodes d = dk_inodes ?d0 \<and> (\<forall>k. dk_names d k = dk_names ?d0 k
        \<or> k = path_components (lg_path g) \<and> dk_names ?d0 k = Some (Inode (lg_device g) (lg_inode g)))"
  have "triple (\<lambda>d. d = ?d0) (drop_listener g) ?Q"
    unfolding drop_listener_def
  proof (rule triple_attempt_bind)
    show "triple (\<lambda>d. d = ?d0) (sys_symlink_metadata (lg_path g))
        (\<lambda>r d. d = ?d0 \<and> (\<forall>m. r = Inr m \<longrightarrow> dk_names ?d0 (path_components (lg_path g)) = Some (md_inode m)))"
      unfolding sys_symlink_metadata_def
      by (rule triple_syscall) (auto simp: metadata_of_def file_at_Some split: option.split)
    fix r
    have idle: "triple (\<lambda>d. d = ?d0 \<and> X d) (st_return ()) ?Q" for X by (rule triple_return) auto
    have removed: "triple (\<lambda>d. d = ?d0 \<and> (\<forall>m. Inr meta = Inr m \<longrightarrow> dk_names ?d0 (path_components (lg_path g)) = Some (md_inode m)))
        (st_bind (st_attempt (sys_remove_file (lg_path g))) (\<lambda>_. st_return ())) ?Q"
      if "md_inode meta = Inode (lg_device g) (lg_inode g)" for meta
    proof (rule triple_attempt_bind [where R = "\<lambda>_. ?Q ()"])
      show "triple (\<lambda>d. d = ?d0 \<and> (\<forall>m. Inr meta = Inr m \<longrightarrow> dk_names ?d0 (path_components (lg_path g)) = Some (md_inode m)))
          (sys_remove_file (lg_path g)) (\<lambda>_. ?Q ())"
        unfolding sys_remove_file_def by (rule triple_syscall) (auto simp: that split: option.split)
    qed (rule triple_return, simp)
    show "triple (\<lambda>d. d = ?d0 \<and> (\<forall>m. r = Inr m \<longrightarrow> dk_names ?d0 (path_components (lg_path g)) = Some (md_inode m)))
        (case r of
          Inr meta \<Rightarrow> if md_inode meta = Inode (lg_device g) (lg_inode g)
            then st_bind (st_attempt (sys_remove_file (lg_path g))) (\<lambda>_. st_return ()) else st_return ()
        | Inl _ \<Rightarrow> st_return ()) ?Q"
    proof (cases r)
      case (Inr meta)
      show ?thesis unfolding Inr sum.case by (split if_split) (intro conjI impI removed idle)
    next
      case (Inl e)
      show ?thesis unfolding Inl sum.case by (rule idle)
    qed
  qed
  from tripleD [OF this assms(1) refl assms(2)] show ?thesis by blast
qed

text \<open>The provider socket and the control socket of one runtime directory never share a path, nor do two screens.\<close>

lemma socket_name_join:
  "hd name \<noteq> CHR ''/'' \<Longrightarrow> name \<noteq> [] \<Longrightarrow> path_join (path_join base ''agent-seat'') name = path_join base ''agent-seat'' @ ''/'' @ name"
  by (cases name) (auto simp: path_join_def is_absolute_def)

theorem socket_paths_distinct:
  assumes "default_socket_path var screen = Inr p"
  shows "control_socket_path var provider \<noteq> Inr p"
    and "default_socket_path var screen' = Inr p \<Longrightarrow> screen' = screen"
proof -
  from assms obtain base display where var: "var ''XDG_RUNTIME_DIR'' = Some base" "var ''DISPLAY'' = Some display"
    and p: "p = path_join base ''agent-seat'' @ ''/'' @ ''seat-'' @ hash_hex (fnv1a64 (as_bytes display)) @ ''-s'' @ decimal screen @ ''.sock''"
    by (auto simp: default_socket_path_def res_simps socket_name_join split: if_splits)
  show "control_socket_path var provider \<noteq> Inr p"
    using var unfolding p by (auto simp: control_socket_path_def res_simps socket_name_join)
  show "screen' = screen" if "default_socket_path var screen' = Inr p"
    using that var unfolding p by (auto simp: default_socket_path_def res_simps socket_name_join split: if_splits)
qed

section \<open>A concrete runtime directory\<close>

definition demo_runtime :: world where
  "demo_runtime = \<lparr>wd_disk = \<lparr>dk_names = [[''/''] \<mapsto> Inode 1 1, [''/'', ''s''] \<mapsto> Inode 1 2],
     dk_inodes = [Inode 1 1 \<mapsto> \<lparr>fi_kind = Kind_Directory, fi_uid = 1000, fi_mode = 448, fi_data = []\<rparr>,
       Inode 1 2 \<mapsto> \<lparr>fi_kind = Kind_Socket, fi_uid = 1000, fi_mode = 384, fi_data = []\<rparr>], dk_locks = {}\<rparr>,
     wd_script = [], wd_serial = 1\<rparr>"

lemma demo_runtime_paths:
  "path_components ''/s'' = [''/'', ''s'']" "path_components ''/'' = [''/'']" "path_parent ''/s'' = Some ''/''"
proof -
  show comps: "path_components ''/s'' = [''/'', ''s'']" "path_components ''/'' = [''/'']"
    by (simp_all add: path_components_def is_absolute_def split_on_free split_on_sep del: split_on.simps(2))
  show "path_parent ''/s'' = Some ''/''" by (simp add: path_parent_def comps)
qed

lemma demo_bound: "\<exists>g w'. ListenerGuard_bind demo_policy_env (\<lambda>_. False) Map.empty (Some ''/s'') 0 demo_runtime = (Inr g, w')"
proof -
  have "validate_socket_path ''/s'' = Inr ()"
    by (simp add: validate_socket_path_def from_utf8_as_bytes Advertisement_new_def validate_socket_def SEPARATOR_def ok_or_def
        PROTOCOL_NAME_def REVISION_TEXT_def MAX_ADVERTISEMENT_BYTES_def)
  then show ?thesis
    by (simp add: ListenerGuard_bind_def st_bind_def st_run st_attempt_def st_map_err_def ok_or_def demo_runtime_paths demo_runtime_def
        ensure_private_directory_def sys_metadata_def sys_def file_at_def MAX_LINKS_def eval_nat_numeral metadata_of_def
        validate_private_directory_def sys_symlink_metadata_def demo_env bind_socket_def sys_bind_def recover_stale_socket_def
        sys_connect_def sys_probe_def is_owned_socket_def sys_remove_file_def sys_chmod_def on_inode_def sys_set_nonblocking_def)
qed

theorem bind_replaces_only_dead_sockets_witness:
  "\<exists>g w'. ListenerGuard_bind demo_policy_env (\<lambda>_. False) Map.empty (Some ''/s'') 0 demo_runtime = (Inr g, w')
    \<and> well_bound demo_policy_env (wd_disk demo_runtime) ''/s'' g (wd_disk w')"
proof -
  have "quiet demo_runtime" by (simp add: quiet_def demo_runtime_def)
  then show ?thesis using demo_bound bind_replaces_only_dead_sockets [OF demo_allocates] by blast
qed

end
