(* ===== verification/Provider_Active.thy ===== *)
theory Provider_Active
  imports Provider_Runtime
begin

text \<open>
  The evidence of the policy a running provider has loaded (\<^verbatim>\<open>agent-seat-x11/src/active.rs\<close>): a marker file that the
  provider keeps locked, and the status that other programs of the same user read from the locked markers. Closing a
  file gives up the lock taken through it.
\<close>

section \<open>Markers\<close>

definition ACTIVE_MAGIC :: "byte list" where "ACTIVE_MAGIC = as_bytes (''agent-seat-act1'' @ [CHR 0x0A])"
definition HEADER_BYTES :: nat where "HEADER_BYTES = 16 + 12"
definition MAX_POLICY_PATH_BYTES :: nat where "MAX_POLICY_PATH_BYTES = 4096"
definition MAX_MARKER_BYTES :: nat where "MAX_MARKER_BYTES = HEADER_BYTES + MAX_POLICY_PATH_BYTES + MAX_CONFIG_BYTES"
definition MAX_MARKERS :: nat where "MAX_MARKERS = 128"

datatype ActivePolicyStatus = NotReported | Matching u32 | Different u32 | Multiple nat bool | StatusUnavailable

record Marker =
  mk_pid :: u32
  mk_path :: "byte list"
  mk_source :: "byte list"

definition state_directory :: "(string \<Rightarrow> string option) \<Rightarrow> string + string option" where
  "state_directory var = (case var ''XDG_RUNTIME_DIR'' of
       None \<Rightarrow> Inr None
     | Some base \<Rightarrow> if \<not> is_absolute base then Inl ''XDG_RUNTIME_DIR must be absolute''
         else Inr (Some (path_join base ''agent-seat'')))"

definition marker_bytes :: "Marker \<Rightarrow> byte list" where
  "marker_bytes m = ACTIVE_MAGIC @ u32_to_le_bytes (mk_pid m) @ u32_to_le_bytes (of_nat (length (mk_path m)))
     @ u32_to_le_bytes (of_nat (length (mk_source m))) @ mk_path m @ mk_source m"

definition marker_body :: "u32 \<Rightarrow> 'd PolicySnapshot \<Rightarrow> string + byte list" where
  "marker_body pid snapshot =
    (let path = as_bytes (ps_path snapshot) in
     if length path > MAX_POLICY_PATH_BYTES
     then Inl (''policy path exceeds the '' @ decimal MAX_POLICY_PATH_BYTES @ ''-byte active-state bound'')
     else if length path \<ge> 2 ^ 32 then Inl ''policy path length cannot be represented''
     else if length (ps_source snapshot) \<ge> 2 ^ 32 then Inl ''policy source length cannot be represented''
     else Inr (marker_bytes \<lparr>mk_pid = pid, mk_path = path, mk_source = as_bytes (ps_source snapshot)\<rparr>))"

definition read_u32 :: "byte list \<Rightarrow> nat \<Rightarrow> string + u32" where
  "read_u32 bytes offset =
    (if offset + 4 \<le> length bytes then Inr (u32_from_le_bytes (take 4 (drop offset bytes)))
     else Inl ''active-policy marker header is truncated'')"

definition parse_marker :: "string \<Rightarrow> byte list \<Rightarrow> string + Marker" where
  "parse_marker p bytes =
    (if length bytes > MAX_MARKER_BYTES \<or> length bytes < HEADER_BYTES \<or> take (length ACTIVE_MAGIC) bytes \<noteq> ACTIVE_MAGIC
     then Inl (''active-policy marker '' @ p @ '' is malformed'')
     else
       res_bind (read_u32 bytes (length ACTIVE_MAGIC)) (\<lambda>pid.
       res_bind (map_ok unat (read_u32 bytes (length ACTIVE_MAGIC + 4))) (\<lambda>path_len.
       res_bind (map_ok unat (read_u32 bytes (length ACTIVE_MAGIC + 8))) (\<lambda>source_len.
       res_bind (if HEADER_BYTES + path_len > usize_MAX \<or> HEADER_BYTES + path_len + source_len > usize_MAX
           then Inl (''active-policy marker '' @ p @ '' has invalid lengths'')
           else Inr (HEADER_BYTES + path_len + source_len)) (\<lambda>expected.
       if path_len > MAX_POLICY_PATH_BYTES \<or> source_len > MAX_CONFIG_BYTES \<or> expected \<noteq> length bytes
       then Inl (''active-policy marker '' @ p @ '' has invalid lengths'')
       else
         (let path_end = HEADER_BYTES + path_len in
          Inr \<lparr>mk_pid = pid, mk_path = take path_len (drop HEADER_BYTES bytes), mk_source = drop path_end bytes\<rparr>))))))"

section \<open>Files\<close>

definition sys_open_nofollow :: "bool \<Rightarrow> string \<Rightarrow> (world, errno, inode) st" where
  "sys_open_nofollow writing p = sys_probe (\<lambda>d. case file_at d p of
       None \<Rightarrow> Inl (NotFound ''No such file or directory'')
     | Some (i, f) \<Rightarrow> (case fi_kind f of
           Kind_Regular \<Rightarrow> Inr i
         | Kind_Link _ \<Rightarrow> Inl (Errno ''Too many levels of symbolic links'')
         | Kind_Directory \<Rightarrow> if writing then Inl (Errno ''Is a directory'') else Inr i
         | Kind_Socket \<Rightarrow> Inl (Errno ''No such device or address'')))"

definition sys_lookup :: "string \<Rightarrow> (world, errno, metadata) st" where
  "sys_lookup p = sys_probe (\<lambda>d. case file_at d p of
       None \<Rightarrow> Inl (NotFound ''No such file or directory'')
     | Some (i, f) \<Rightarrow> Inr (metadata_of i f))"

definition close_locked :: "inode \<Rightarrow> (world, 'e, unit) st" where
  "close_locked i = st_modify (\<lambda>w. w\<lparr>wd_disk := (wd_disk w)\<lparr>dk_locks := dk_locks (wd_disk w) - {i}\<rparr>\<rparr>)"

definition validate_marker_file :: "'d policy_env \<Rightarrow> string \<Rightarrow> inode \<Rightarrow> (world, string, unit) st" where
  "validate_marker_file env p file =
    st_bind (io (''cannot inspect '' @ p) (sys_fstat file)) (\<lambda>meta.
    if md_kind meta \<noteq> Kind_Regular \<or> md_uid meta \<noteq> pe_uid env \<or> and (md_mode meta) 63 \<noteq> 0
    then st_fail (''active-policy marker '' @ p @ '' must be a private regular file owned by UID '' @ decimal (unat (pe_uid env)))
    else if md_len meta > MAX_MARKER_BYTES then st_fail (''active-policy marker '' @ p @ '' exceeds its byte bound'')
    else st_return ())"

definition read_marker :: "string \<Rightarrow> inode \<Rightarrow> (world, string, Marker) st" where
  "read_marker p file =
    st_bind (io (''cannot read '' @ p) (sys_read_to_end file (MAX_MARKER_BYTES + 1))) (\<lambda>bytes.
    st_try (parse_marker p bytes))"

definition read_locked_marker :: "'d policy_env \<Rightarrow> string \<Rightarrow> (world, string, Marker option) st" where
  "read_locked_marker env p =
    st_bind (st_attempt (sys_open_nofollow False p)) (\<lambda>opened. case opened of
      Inl (NotFound _) \<Rightarrow> st_return None
    | Inl e \<Rightarrow> st_fail (''cannot open active-policy marker '' @ p @ '': '' @ errno_text e)
    | Inr file \<Rightarrow>
        st_bind (validate_marker_file env p file) (\<lambda>_.
        st_bind (st_attempt (sys_flock file)) (\<lambda>locked. case locked of
          Inr _ \<Rightarrow> st_bind (close_locked file) (\<lambda>_. st_return None)
        | Inl (Again _) \<Rightarrow> st_bind (read_marker p file) (\<lambda>m. st_return (Some m))
        | Inl e \<Rightarrow> st_fail (''cannot inspect active-policy lock '' @ p @ '': '' @ errno_text e))))"

definition remove_stale_marker :: "'d policy_env \<Rightarrow> string \<Rightarrow> (world, string, unit) st" where
  "remove_stale_marker env p =
    st_bind (io ''cannot open prior active-policy marker'' (sys_open_nofollow True p)) (\<lambda>file.
    st_bind (validate_marker_file env p file) (\<lambda>_.
    st_bind (io ''prior active-policy marker is still locked by a provider'' (sys_flock file)) (\<lambda>_.
    st_bind (st_attempt (
      st_bind (io ''cannot inspect prior active-policy marker'' (sys_fstat file)) (\<lambda>open_meta.
      st_bind (io ''cannot inspect prior active-policy path'' (sys_symlink_metadata p)) (\<lambda>current.
      if md_inode open_meta \<noteq> md_inode current then st_fail ''prior active-policy marker changed during recovery''
      else io ''cannot remove stale active-policy marker'' (sys_remove_file p))))) (\<lambda>removed.
    st_bind (close_locked file) (\<lambda>_. st_try removed)))))"

record ActivePolicyGuard =
  ag_file :: inode
  ag_path :: string
  ag_device :: u64
  ag_inode :: u64

definition marker_path :: "'d policy_env \<Rightarrow> string \<Rightarrow> string" where
  "marker_path env directory = path_join directory (''active-'' @ decimal (unat (pe_pid env)) @ ''.policy'')"

text \<open>A failed preparation closes the file and removes the path; the lock is given up when it had been taken.\<close>

definition publish :: "'d policy_env \<Rightarrow> (string \<Rightarrow> string option) \<Rightarrow> 'd PolicySnapshot \<Rightarrow> (world, string, ActivePolicyGuard) st" where
  "publish env var snapshot =
    st_bind (st_try (res_bind (state_directory var) (\<lambda>found_dir.
      ok_or found_dir ''XDG_RUNTIME_DIR is unavailable for active-policy reporting''))) (\<lambda>directory.
    st_bind (ensure_private_directory env directory) (\<lambda>_.
    let p = marker_path env directory in
    st_bind (st_attempt (sys_metadata p)) (\<lambda>present.
    st_bind (if is_ok present then remove_stale_marker env p else st_return ()) (\<lambda>_.
    st_bind (io ''cannot create active-policy marker'' (sys_create_new env p)) (\<lambda>file.
    st_bind (st_attempt (
      st_bind (io ''cannot secure active-policy marker'' (sys_fchmod file 384)) (\<lambda>_.
      io ''cannot lock active-policy marker'' (sys_flock file)))) (\<lambda>locked. case locked of
      Inl e \<Rightarrow> st_bind (st_attempt (sys_remove_file p)) (\<lambda>_. st_fail e)
    | Inr _ \<Rightarrow>
        st_bind (st_attempt (
          st_bind (st_try (marker_body (pe_pid env) snapshot)) (\<lambda>body.
          st_bind (io ''cannot write active-policy marker'' (st_bind (sys_write_all file body) (\<lambda>_. sys_fsync file))) (\<lambda>_.
          io ''cannot inspect active-policy marker'' (sys_fstat file))))) (\<lambda>prepared. case prepared of
          Inl e \<Rightarrow>
            st_bind (close_locked file) (\<lambda>_.
            st_bind (st_attempt (sys_remove_file p)) (\<lambda>_. st_fail e))
        | Inr meta \<Rightarrow>
            st_return \<lparr>ag_file = file, ag_path = p, ag_device = in_dev (md_inode meta), ag_inode = in_ino (md_inode meta)\<rparr>)))))))"

definition drop_active :: "ActivePolicyGuard \<Rightarrow> (world, 'e, unit) st" where
  "drop_active g =
    st_bind (st_attempt (sys_fsync (ag_file g))) (\<lambda>_.
    st_bind (st_attempt (sys_symlink_metadata (ag_path g))) (\<lambda>r.
    st_bind (case r of
        Inr meta \<Rightarrow>
          if md_inode meta = Inode (ag_device g) (ag_inode g)
          then st_bind (st_attempt (sys_remove_file (ag_path g))) (\<lambda>_. st_return ())
          else st_return ()
      | Inl _ \<Rightarrow> st_return ()) (\<lambda>_.
    close_locked (ag_file g))))"

section \<open>The status\<close>

text \<open>\<open>listing\<close> is what \<^verbatim>\<open>read_dir\<close> yields for a directory, entry by entry.\<close>

definition is_marker_name :: "string \<Rightarrow> bool" where
  "is_marker_name name \<longleftrightarrow> take 7 name = ''active-'' \<and> ends_with name ''.policy''"

definition sys_read_dir :: "(disk \<Rightarrow> string list \<Rightarrow> (errno + string) list) \<Rightarrow> string
    \<Rightarrow> (world, errno, (errno + string) list) st" where
  "sys_read_dir listing p = syscall (\<lambda>d. (Inr (listing d (path_components p)), d))"

fun scan_markers :: "'d policy_env \<Rightarrow> 'd PolicySnapshot \<Rightarrow> string \<Rightarrow> (errno + string) list \<Rightarrow> nat \<Rightarrow> (u32 \<times> bool) list
    \<Rightarrow> (world, string, (u32 \<times> bool) list) st" where
  "scan_markers env snapshot directory [] scanned records = st_return records"
| "scan_markers env snapshot directory (entry # rest) scanned records =
    (case entry of
       Inl e \<Rightarrow> st_fail (''cannot read active-policy entry: '' @ errno_text e)
     | Inr name \<Rightarrow>
         if \<not> utf8_wellformed (map code_of name) \<or> \<not> is_marker_name name
         then scan_markers env snapshot directory rest scanned records
         else if scanned + 1 > MAX_MARKERS
         then st_fail (''active-policy marker count exceeds the '' @ decimal MAX_MARKERS @ ''-file bound'')
         else
           st_bind (read_locked_marker env (path_join directory name)) (\<lambda>record.
           scan_markers env snapshot directory rest (scanned + 1) (case record of
             Some m \<Rightarrow> if mk_path m = as_bytes (ps_path snapshot)
               then records @ [(mk_pid m, mk_source m = as_bytes (ps_source snapshot))] else records
           | None \<Rightarrow> records)))"

fun summarize :: "(u32 \<times> bool) list \<Rightarrow> ActivePolicyStatus" where
  "summarize [] = NotReported"
| "summarize [(pid, True)] = Matching pid"
| "summarize [(pid, False)] = Different pid"
| "summarize records = Multiple (length records) (list_all snd records)"

definition active_policy_status :: "'d policy_env \<Rightarrow> (string \<Rightarrow> string option) \<Rightarrow> (disk \<Rightarrow> string list \<Rightarrow> (errno + string) list)
    \<Rightarrow> 'd PolicySnapshot \<Rightarrow> (world, string, ActivePolicyStatus) st" where
  "active_policy_status env var listing snapshot =
    st_bind (st_try (state_directory var)) (\<lambda>found_dir. case found_dir of
      None \<Rightarrow> st_return StatusUnavailable
    | Some directory \<Rightarrow>
        st_bind (st_attempt (sys_lookup directory)) (\<lambda>present. case present of
          Inl (NotFound _) \<Rightarrow> st_return NotReported
        | Inl e \<Rightarrow> st_fail (''cannot inspect active-policy directory '' @ directory @ '': '' @ errno_text e)
        | Inr _ \<Rightarrow>
            st_bind (validate_private_directory env directory) (\<lambda>_.
            st_bind (io (''cannot read active-policy directory '' @ directory) (sys_read_dir listing directory)) (\<lambda>entries.
            st_bind (scan_markers env snapshot directory entries 0 []) (\<lambda>records.
            st_return (summarize records))))))"

section \<open>A marker is read back as it was written\<close>

definition marker_ok :: "Marker \<Rightarrow> bool" where
  "marker_ok m \<longleftrightarrow> length (mk_path m) \<le> MAX_POLICY_PATH_BYTES \<and> length (mk_source m) \<le> MAX_CONFIG_BYTES"

lemmas marker_sizes = HEADER_BYTES_def MAX_POLICY_PATH_BYTES_def MAX_MARKER_BYTES_def MAX_CONFIG_BYTES_def usize_MAX_def

lemma length_active_magic [simp]: "length ACTIVE_MAGIC = 16"
  by (simp add: ACTIVE_MAGIC_def)

lemma parse_marker_bytes:
  assumes "marker_ok m"
  shows "parse_marker p (marker_bytes m) = Inr m"
proof -
  have "length (mk_path m) < 2 ^ 32" "length (mk_source m) < 2 ^ 32" using assms by (simp_all add: marker_ok_def marker_sizes)
  then have len: "unat (of_nat (length (mk_path m)) :: u32) = length (mk_path m)"
    "unat (of_nat (length (mk_source m)) :: u32) = length (mk_source m)" by (simp_all add: unat_of_nat)
  have "read_u32 (marker_bytes m) 16 = Inr (mk_pid m)" "read_u32 (marker_bytes m) 20 = Inr (of_nat (length (mk_path m)))"
    "read_u32 (marker_bytes m) 24 = Inr (of_nat (length (mk_source m)))"
    by (simp_all add: read_u32_def marker_bytes_def)
  moreover have "length (marker_bytes m) = 28 + length (mk_path m) + length (mk_source m)" by (simp add: marker_bytes_def)
  moreover have "take 16 (marker_bytes m) = ACTIVE_MAGIC" by (simp add: marker_bytes_def)
  moreover have "drop 28 (marker_bytes m) = mk_path m @ mk_source m" by (simp add: marker_bytes_def)
  then have "take (length (mk_path m)) (drop 28 (marker_bytes m)) = mk_path m"
    "drop (28 + length (mk_path m)) (marker_bytes m) = mk_source m"
    by (simp_all flip: drop_drop add: add.commute)
  ultimately show ?thesis using assms len
    by (simp add: parse_marker_def marker_ok_def marker_sizes Let_def)
qed

lemma parse_marker_sound:
  assumes "parse_marker p bytes = Inr m"
  shows "marker_ok m \<and> bytes = marker_bytes m"
proof -
  from assms obtain pid pl sl where 1: "take 16 bytes = ACTIVE_MAGIC" "28 \<le> length bytes"
    "read_u32 bytes 16 = Inr pid" "read_u32 bytes 20 = Inr pl" "read_u32 bytes 24 = Inr sl"
    "unat pl \<le> MAX_POLICY_PATH_BYTES" "unat sl \<le> MAX_CONFIG_BYTES" "28 + unat pl + unat sl = length bytes"
    and m: "m = \<lparr>mk_pid = pid, mk_path = take (unat pl) (drop 28 bytes), mk_source = drop (28 + unat pl) bytes\<rparr>"
    by (auto simp: parse_marker_def res_simps Let_def HEADER_BYTES_def split: if_splits)
  have chunk: "take k (drop n bytes) @ drop (n + k) bytes = drop n bytes" for n k
    by (metis append_take_drop_id drop_drop add.commute)
  have "take 16 bytes @ drop 16 bytes = bytes" by simp
  then have parts: "bytes = take 16 bytes @ take 4 (drop 16 bytes) @ take 4 (drop 20 bytes) @ take 4 (drop 24 bytes) @ drop 28 bytes"
    using chunk [of 4 16] chunk [of 4 20] chunk [of 4 24] by simp
  have words: "u32_to_le_bytes pid = take 4 (drop 16 bytes)" "u32_to_le_bytes pl = take 4 (drop 20 bytes)"
    "u32_to_le_bytes sl = take 4 (drop 24 bytes)"
    using 1(2-5) by (auto simp: read_u32_def u32_le_inverse split: if_splits)
  have lens: "length (mk_path m) = unat pl" "length (mk_source m) = unat sl" using 1(8) m by auto
  then have "marker_ok m" using 1(6,7) by (simp add: marker_ok_def)
  moreover have "mk_path m @ mk_source m = drop 28 bytes" unfolding m by (simp flip: drop_drop add: add.commute)
  then have "marker_bytes m = bytes" using parts words lens m 1(1) by (simp add: marker_bytes_def)
  ultimately show ?thesis by simp
qed

interpretation active_marker: canonical_codec marker_bytes "parse_marker p" marker_ok
  by unfold_locales (auto simp: parse_marker_bytes dest: parse_marker_sound)

section \<open>Names of markers\<close>

lemma split_on_append: "split_on c (xs @ c # ys) = split_on c xs @ split_on c ys"
proof (induction xs)
  case (Cons x xs)
  then show ?case using split_on_Cons_ex [of c xs] by auto
qed simp

lemma components_join:
  assumes "is_absolute directory" and "name \<noteq> []" and "name \<noteq> ''.''" and "CHR ''/'' \<notin> set name"
  shows "path_components (path_join directory name) = path_components directory @ [name]"
proof -
  have rel: "\<not> is_absolute name" using assms(2,4) by (cases name) (auto simp: is_absolute_def)
  have "is_absolute (path_join directory name)" using assms(1) rel by (auto simp: path_join_def is_absolute_def)
  moreover have "filter (\<lambda>c. c \<noteq> [] \<and> c \<noteq> ''.'') (split_on CHR ''/'' (path_join directory name))
      = filter (\<lambda>c. c \<noteq> [] \<and> c \<noteq> ''.'') (split_on CHR ''/'' directory) @ [name]"
  proof (cases "last directory = CHR ''/''")
    case True
    then obtain d where d: "directory = d @ [CHR ''/'']" using assms(1) by (cases directory rule: rev_cases) (auto simp: is_absolute_def)
    have "split_on CHR ''/'' directory = split_on CHR ''/'' d @ [[]]" unfolding d by (simp add: split_on_append)
    then show ?thesis using assms(2-4) rel True unfolding path_join_def d by (simp add: split_on_append split_on_free)
  next
    case False
    then have "path_join directory name = directory @ CHR ''/'' # name" using assms(1) rel by (auto simp: path_join_def is_absolute_def)
    then show ?thesis using assms(2-4) by (simp add: split_on_append split_on_free)
  qed
  ultimately show ?thesis using assms(1) by (simp add: path_components_def Let_def)
qed

definition marker_name :: "u32 \<Rightarrow> string" where
  "marker_name pid = ''active-'' @ decimal (unat pid) @ ''.policy''"

lemma marker_name_facts:
  "is_marker_name (marker_name pid)" "CHR ''/'' \<notin> set (marker_name pid)" "utf8_wellformed (map code_of (marker_name pid))"
proof -
  show "is_marker_name (marker_name pid)" by (simp add: is_marker_name_def marker_name_def ends_with_def)
  have digits: "list_all is_digit (decimal (unat pid))" by (rule decimal_digits)
  then show "CHR ''/'' \<notin> set (marker_name pid)" by (auto simp: marker_name_def list_all_iff is_digit_def)
  have "list_all (\<lambda>b. b < 128) (map code_of (decimal (unat pid)))" using digits by (auto simp: list_all_iff is_digit_def)
  then show "utf8_wellformed (map code_of (marker_name pid))" by (intro utf8_wellformed_ascii) (simp add: marker_name_def)
qed

lemma marker_components:
  assumes "state_directory var = Inr (Some directory)"
  shows "path_components (path_join directory (marker_name pid)) = path_components directory @ [marker_name pid]"
proof -
  have "is_absolute directory" using assms by (auto simp: state_directory_def path_join_def is_absolute_def split: option.splits if_splits)
  then show "path_components (path_join directory (marker_name pid)) = path_components directory @ [marker_name pid]"
    by (rule components_join) (simp_all add: marker_name_facts(2), simp_all add: marker_name_def)
qed

lemma marker_path_name: "marker_path env directory = path_join directory (marker_name (pe_pid env))"
  by (simp add: marker_path_def marker_name_def)

section \<open>Reading the markers\<close>

text \<open>A marker that a running provider holds: locked, private, complete.\<close>

definition marker_held :: "'d policy_env \<Rightarrow> string \<Rightarrow> Marker \<Rightarrow> disk \<Rightarrow> bool" where
  "marker_held env p m d \<longleftrightarrow> marker_ok m \<and> (\<exists>i f. file_at d p = Some (i, f) \<and> i \<in> dk_locks d \<and> fi_kind f = Kind_Regular
    \<and> fi_uid f = pe_uid env \<and> and (fi_mode f) 63 = 0 \<and> fi_data f = marker_bytes m)"

lemma length_marker: "marker_ok m \<Longrightarrow> length (marker_bytes m) \<le> MAX_MARKER_BYTES"
  by (simp add: marker_bytes_def marker_ok_def marker_sizes)

lemma looks_marker_file [looks_intros]: "looks (validate_marker_file env p i)" "looks (read_marker p i)"
  unfolding validate_marker_file_def read_marker_def by (intro looks_intros)+

lemma read_marker_triple:
  assumes "dk_inodes d i = Some f" and "fi_data f = marker_bytes m" and "marker_ok m"
  shows "triple (\<lambda>d'. d' = d) (read_marker p i) (\<lambda>r d'. d' = d \<and> (\<forall>x. r = Inr x \<longrightarrow> x = m))"
proof -
  have "triple (\<lambda>d'. d' = d) (io what (sys_read_to_end i (MAX_MARKER_BYTES + 1))) (\<lambda>r d'. d' = d \<and> (\<forall>b. r = Inr b \<longrightarrow> b = marker_bytes m))" for what
    unfolding sys_read_to_end_def
    by (rule triple_map_err, rule triple_syscall) (use assms length_marker [OF assms(3)] in auto)
  then show ?thesis
    unfolding read_marker_def by (rule triple_step) (auto intro!: triple_try simp: parse_marker_bytes assms(3))
qed

lemma held_marker_is_read:
  assumes "marker_held env p m d"
  shows "triple (\<lambda>d'. d' = d) (read_locked_marker env p) (\<lambda>r d'. d' = d \<and> (\<forall>x. r = Inr x \<longrightarrow> x = Some m))"
proof -
  from assms obtain i f where f: "marker_ok m" "file_at d p = Some (i, f)" "i \<in> dk_locks d" "fi_kind f = Kind_Regular"
    "fi_data f = marker_bytes m" "dk_inodes d i = Some f" by (auto simp: marker_held_def file_at_Some)
  let ?Q = "\<lambda>r d'. d' = d \<and> (\<forall>x. r = Inr x \<longrightarrow> x = Some m)"
  have opened: "triple (\<lambda>d'. d' = d) (sys_open_nofollow False p) (\<lambda>r d'. d' = d \<and> (r = Inr i \<or> (\<exists>t. r = Inl (Errno t))))"
    unfolding sys_open_nofollow_def by (rule triple_conseq [OF probe_triple]) (auto simp: f)
  have flock: "triple (\<lambda>d'. d' = d) (sys_flock i) (\<lambda>r d'. d' = d \<and> (\<forall>u. r \<noteq> Inr u))"
    unfolding sys_flock_def by (rule triple_syscall) (auto simp: f)
  have got: "triple (\<lambda>d'. d' = d) (st_bind (read_marker p i) (\<lambda>m. st_return (Some m))) ?Q"
    by (rule triple_step [OF read_marker_triple [OF f(6,5,1)]]) (auto intro: triple_return)
  have locked: "triple (\<lambda>d'. d' = d \<and> (\<forall>u. r \<noteq> Inr u)) (case r of
      Inr _ \<Rightarrow> st_bind (close_locked i) (\<lambda>_. st_return None)
    | Inl (Again _) \<Rightarrow> st_bind (read_marker p i) (\<lambda>m. st_return (Some m))
    | Inl e \<Rightarrow> st_fail (g e)) ?Q" for r :: "errno + unit" and g
  proof (cases r)
    case (Inl e)
    have "triple (\<lambda>d'. d' = d \<and> X) (st_fail t) ?Q" "triple (\<lambda>d'. d' = d \<and> X) (st_bind (read_marker p i) (\<lambda>m. st_return (Some m))) ?Q"
      for t X using got by (auto intro!: triple_fail elim!: triple_conseq)
    then show ?thesis unfolding Inl by (cases e) (simp_all only: sum.case errno.case)
  qed (auto simp: triple_def)
  have opened_file: "triple (\<lambda>d'. d' = d) (st_bind (validate_marker_file env p i) (\<lambda>_. st_bind (st_attempt (sys_flock i)) (\<lambda>locked. case locked of
      Inr _ \<Rightarrow> st_bind (close_locked i) (\<lambda>_. st_return None)
    | Inl (Again _) \<Rightarrow> st_bind (read_marker p i) (\<lambda>m. st_return (Some m))
    | Inl e \<Rightarrow> st_fail (g e)))) ?Q" for g
    by (rule triple_then [OF looksD], intro looks_intros) (auto intro: triple_attempt_bind [OF flock locked])
  show ?thesis
    unfolding read_locked_marker_def
  proof (rule triple_attempt_bind [OF opened])
    fix r :: "errno + inode"
    show "triple (\<lambda>d'. d' = d \<and> (r = Inr i \<or> (\<exists>t. r = Inl (Errno t)))) (case r of
      Inl (NotFound _) \<Rightarrow> st_return None
    | Inl e \<Rightarrow> st_fail (''cannot open active-policy marker '' @ p @ '': '' @ errno_text e)
    | Inr file \<Rightarrow>
        st_bind (validate_marker_file env p file) (\<lambda>_.
        st_bind (st_attempt (sys_flock file)) (\<lambda>locked. case locked of
          Inr _ \<Rightarrow> st_bind (close_locked file) (\<lambda>_. st_return None)
        | Inl (Again _) \<Rightarrow> st_bind (read_marker p file) (\<lambda>m. st_return (Some m))
        | Inl e \<Rightarrow> st_fail (''cannot inspect active-policy lock '' @ p @ '': '' @ errno_text e)))) ?Q"
    proof (cases r)
      case (Inr j)
      show ?thesis
      proof (cases "j = i")
        case True
        show ?thesis unfolding Inr True sum.case
          by (rule triple_conseq [OF opened_file [of "\<lambda>e. ''cannot inspect active-policy lock '' @ p @ '': '' @ errno_text e"]])
            blast+
      qed (auto simp: Inr triple_def)
    next
      case (Inl e)
      show ?thesis unfolding Inl sum.case by (rule triple_pure) (auto intro: triple_fail)
    qed
  qed
qed

definition marker_record :: "'d PolicySnapshot \<Rightarrow> Marker \<Rightarrow> (u32 \<times> bool) list" where
  "marker_record saved m = (if mk_path m = as_bytes (ps_path saved) then [(mk_pid m, mk_source m = as_bytes (ps_source saved))] else [])"

lemma scan_triple:
  assumes "\<And>n. n \<in> set names \<Longrightarrow> is_marker_name n \<Longrightarrow> n = own" and "marker_held env (path_join directory own) m d"
    and "is_marker_name own" and "utf8_wellformed (map code_of own)"
  shows "triple (\<lambda>d'. d' = d) (scan_markers env saved directory (map Inr names) k records)
    (\<lambda>r d'. d' = d \<and> (\<forall>x. r = Inr x \<longrightarrow> x = records @ concat (map (\<lambda>n. if n = own then marker_record saved m else []) names)))"
  using assms(1)
proof (induction names arbitrary: k records)
  case Nil
  show ?case by (simp add: triple_return)
next
  case (Cons n names)
  note IH = Cons.IH [OF Cons.prems [OF list.set_intros(2)]]
  show ?case
  proof (cases "n = own")
    case False
    then have "\<not> is_marker_name n" using Cons.prems [of n] by auto
    then show ?thesis using IH [of k records] False by simp
  next
    case True
    show ?thesis
    proof (cases "k + 1 > MAX_MARKERS")
      case True
      then show ?thesis using \<open>n = own\<close> assms(3,4) by (simp add: triple_fail)
    next
      case False
      have "triple (\<lambda>d'. d' = d) (st_bind (read_locked_marker env (path_join directory own)) (\<lambda>record.
           scan_markers env saved directory (map Inr names) (k + 1) (case record of
             Some m \<Rightarrow> if mk_path m = as_bytes (ps_path saved)
               then records @ [(mk_pid m, mk_source m = as_bytes (ps_source saved))] else records
           | None \<Rightarrow> records)))
         (\<lambda>r d'. d' = d \<and> (\<forall>x. r = Inr x \<longrightarrow> x = records @ marker_record saved m @ concat (map (\<lambda>n. if n = own then marker_record saved m else []) names)))"
      proof (rule triple_step [OF held_marker_is_read [OF assms(2)]], simp)
        fix got
        show "triple (\<lambda>d'. d' = d \<and> (\<forall>x. Inr got = Inr x \<longrightarrow> x = Some m))
          (scan_markers env saved directory (map Inr names) (k + 1) (case got of
             Some m \<Rightarrow> if mk_path m = as_bytes (ps_path saved)
               then records @ [(mk_pid m, mk_source m = as_bytes (ps_source saved))] else records
           | None \<Rightarrow> records))
         (\<lambda>r d'. d' = d \<and> (\<forall>x. r = Inr x \<longrightarrow> x = records @ marker_record saved m @ concat (map (\<lambda>n. if n = own then marker_record saved m else []) names)))"
          using IH [of "k + 1" "records @ marker_record saved m"]
          by (intro triple_pure) (auto simp: marker_record_def split: if_splits)
      qed
      then show ?thesis using \<open>n = own\<close> assms(3,4) False by simp
    qed
  qed
qed

text \<open>What a status should say when exactly one provider reports.\<close>

definition sole_status :: "'d PolicySnapshot \<Rightarrow> 'e PolicySnapshot \<Rightarrow> u32 \<Rightarrow> ActivePolicyStatus" where
  "sole_status saved loaded pid =
    (if ps_path loaded \<noteq> ps_path saved then NotReported
     else if ps_source loaded = ps_source saved then Matching pid else Different pid)"

lemma as_bytes_inject [simp]: "as_bytes s = as_bytes t \<longleftrightarrow> s = t"
proof -
  have "inj (of_char :: char \<Rightarrow> byte)"
    by (rule inj_on_inverseI [where g = "\<lambda>b. char_of (unat b)"]) (simp add: unat_of_char)
  then show ?thesis by (simp add: as_bytes_def inj_map_eq_map)
qed

lemma sole_summary:
  assumes "distinct names" and "own \<in> set names"
    and "m = \<lparr>mk_pid = pid, mk_path = as_bytes (ps_path loaded), mk_source = as_bytes (ps_source loaded)\<rparr>"
  shows "summarize (concat (map (\<lambda>n. if n = own then marker_record saved m else []) names)) = sole_status saved loaded pid"
proof -
  from assms(1,2) obtain xs ys where n: "names = xs @ own # ys" "own \<notin> set xs" "own \<notin> set ys"
    by (metis distinct.simps(2) distinct_append in_set_conv_decomp_first)
  have none: "concat (map (\<lambda>n. if n = own then marker_record saved m else []) zs) = []" if "own \<notin> set zs" for zs
    using that by (induction zs) auto
  have "concat (map (\<lambda>n. if n = own then marker_record saved m else []) names) = marker_record saved m"
    unfolding n(1) map_append list.map concat_append concat.simps none [OF n(2)] none [OF n(3)] by simp
  moreover have "summarize (marker_record saved m) = sole_status saved loaded pid"
    by (simp add: marker_record_def sole_status_def assms(3))
  ultimately show ?thesis by simp
qed

lemma status_triple:
  assumes dir: "state_directory var = Inr (Some directory)" and "private_directory env directory d"
    and "listing d (path_components directory) = map Inr names" and "distinct names" and own: "marker_name pid \<in> set names"
    and "\<And>n. n \<in> set names \<Longrightarrow> is_marker_name n \<Longrightarrow> n = marker_name pid"
    and "marker_held env (path_join directory (marker_name pid)) m d"
    and "m = \<lparr>mk_pid = pid, mk_path = as_bytes (ps_path loaded), mk_source = as_bytes (ps_source loaded)\<rparr>"
  shows "triple (\<lambda>d'. d' = d) (active_policy_status env var listing saved)
    (\<lambda>r d'. d' = d \<and> (\<forall>x. r = Inr x \<longrightarrow> x = sole_status saved loaded pid))"
proof -
  let ?Q = "\<lambda>r d'. d' = d \<and> (\<forall>x. r = Inr x \<longrightarrow> x = sole_status saved loaded pid)"
  have scan: "triple (\<lambda>d'. d' = d) (st_bind (scan_markers env saved directory (map Inr names) 0 []) (\<lambda>records. st_return (summarize records))) ?Q"
    by (rule triple_step [OF scan_triple [OF assms(6,7) marker_name_facts(1,3)]])
      (auto intro!: triple_return simp: sole_summary [OF assms(4) own assms(8)])
  have read: "triple (\<lambda>d'. d' = d) (io what (sys_read_dir listing directory)) (\<lambda>r d'. d' = d \<and> (\<forall>x. r = Inr x \<longrightarrow> x = map Inr names))" for what
    unfolding sys_read_dir_def by (rule triple_map_err, rule triple_syscall) (use assms(3) in auto)
  have listed: "triple (\<lambda>d'. d' = d) (st_bind (io what (sys_read_dir listing directory)) (\<lambda>entries.
      st_bind (scan_markers env saved directory entries 0 []) (\<lambda>records. st_return (summarize records)))) ?Q" for what
  proof (rule triple_step [OF read], simp)
    fix entries
    show "triple (\<lambda>d'. d' = d \<and> (\<forall>x. Inr entries = Inr x \<longrightarrow> x = map Inr names))
        (st_bind (scan_markers env saved directory entries 0 []) (\<lambda>records. st_return (summarize records))) ?Q"
      by (rule triple_pure) (use scan in simp)
  qed
  have checked: "triple (\<lambda>d'. d' = d) (st_bind (validate_private_directory env directory) (\<lambda>_. st_bind (io what (sys_read_dir listing directory)) (\<lambda>entries.
      st_bind (scan_markers env saved directory entries 0 []) (\<lambda>records. st_return (summarize records))))) ?Q" for what
    by (rule triple_then [OF looksD [OF looks_socket_calls(4)]], simp, rule listed)
  from assms(2) obtain i f where f: "file_at d directory = Some (i, f)" by (auto simp: private_directory_def file_at_Some)
  have lookup: "triple (\<lambda>d'. d' = d) (sys_lookup directory) (\<lambda>r d'. d' = d \<and> (r = Inr (metadata_of i f) \<or> (\<exists>t. r = Inl (Errno t))))"
    unfolding sys_lookup_def by (rule triple_conseq [OF probe_triple]) (auto simp: f)
  show ?thesis
    unfolding active_policy_status_def dir st_bind_try_Inr option.case
  proof (rule triple_attempt_bind [OF lookup])
    fix r :: "errno + metadata"
    have fail: "triple (\<lambda>d'. d' = d \<and> X) (st_fail e) ?Q" for X e by (rule triple_fail) simp
    show "triple (\<lambda>d'. d' = d \<and> (r = Inr (metadata_of i f) \<or> (\<exists>t. r = Inl (Errno t)))) (case r of
        Inl (NotFound _) \<Rightarrow> st_return NotReported
      | Inl e \<Rightarrow> st_fail (''cannot inspect active-policy directory '' @ directory @ '': '' @ errno_text e)
      | Inr _ \<Rightarrow> st_bind (validate_private_directory env directory) (\<lambda>_.
          st_bind (io (''cannot read active-policy directory '' @ directory) (sys_read_dir listing directory)) (\<lambda>entries.
          st_bind (scan_markers env saved directory entries 0 []) (\<lambda>records. st_return (summarize records))))) ?Q"
    proof (cases r)
      case (Inr meta)
      show ?thesis unfolding Inr sum.case by (rule triple_conseq [OF checked]) blast+
    next
      case (Inl e)
      show ?thesis unfolding Inl sum.case by (rule triple_pure) (auto intro: triple_fail)
    qed
  qed
qed

section \<open>Publishing a marker\<close>

text \<open>Publishing adds no name but the directory and the marker, and leaves the directory private.\<close>

definition publishing :: "'d policy_env \<Rightarrow> string \<Rightarrow> disk \<Rightarrow> disk \<Rightarrow> bool" where
  "publishing env directory d0 d \<longleftrightarrow> private_directory env directory d
    \<and> (\<forall>k. dk_names d k \<noteq> None \<longrightarrow> dk_names d0 k \<noteq> None \<or> k = path_components directory
        \<or> k = path_components (marker_path env directory))"

definition marker_made :: "'d policy_env \<Rightarrow> string \<Rightarrow> (u32 \<Rightarrow> byte list \<Rightarrow> bool) \<Rightarrow> disk \<Rightarrow> inode \<Rightarrow> disk \<Rightarrow> bool" where
  "marker_made env directory stage d0 i d \<longleftrightarrow> publishing env directory d0 d
    \<and> dk_names d (path_components (marker_path env directory)) = Some i
    \<and> (\<exists>f. dk_inodes d i = Some f \<and> fi_kind f = Kind_Regular \<and> fi_uid f = pe_uid env \<and> stage (fi_mode f) (fi_data f))"

lemma publishing_unlock [simp]: "publishing env directory d0 (d\<lparr>dk_locks := X\<rparr>) = publishing env directory d0 d"
  by (simp add: publishing_def private_directory_def)

lemma marker_made_lock [simp]: "marker_made env directory stage d0 i (d\<lparr>dk_locks := X\<rparr>) = marker_made env directory stage d0 i d"
  by (simp add: marker_made_def)

lemma triple_close: "(\<And>d. P d \<Longrightarrow> Q (Inr ()) (d\<lparr>dk_locks := dk_locks d - {i}\<rparr>)) \<Longrightarrow> triple P (close_locked i) Q"
  by (auto simp: triple_def close_locked_def st_run quiet_def)

lemma ensured_publishing:
  "triple (\<lambda>d. d = d0) (ensure_private_directory env directory) (\<lambda>r d. \<forall>u. r = Inr u \<longrightarrow> publishing env directory d0 d)"
proof -
  let ?A = "\<lambda>d. \<forall>k. dk_names d k \<noteq> None \<longrightarrow> dk_names d0 k \<noteq> None \<or> k = path_components directory"
  have "triple (\<lambda>d. d = d0) (ensure_private_directory env directory) (\<lambda>r d. ?A d \<and> (is_ok r \<longrightarrow> private_directory env directory d))"
    unfolding ensure_private_directory_def
  proof (rule triple_attempt_bind [OF looksD [OF looks_socket_calls(1)]], rule triple_then)
    fix r
    have "triple (\<lambda>d. d = d0) (sys_mkdir env (path_components directory)) (\<lambda>_. ?A)"
      unfolding sys_mkdir_def by (rule triple_syscall) (auto split: option.split)
    then show "triple (\<lambda>d. d = d0) (if is_ok r then st_return ()
        else io (''cannot create runtime directory '' @ directory) (sys_mkdir env (path_components directory))) (\<lambda>_. ?A)"
      by (auto intro!: triple_return triple_map_err)
  qed (auto intro: validate_private_triple)
  then show ?thesis by (rule triple_conseq) (auto simp: publishing_def)
qed

lemma removed_publishing:
  "publishing env directory d0 d \<Longrightarrow> k \<noteq> path_components directory \<Longrightarrow>
    publishing env directory d0 (d\<lparr>dk_names := (dk_names d)(k := None)\<rparr>)"
  by (auto simp: publishing_def private_directory_def)

lemma stale_publishing:
  assumes "path_components p \<noteq> path_components directory"
  shows "triple (publishing env directory d0) (remove_stale_marker env p) (\<lambda>_. publishing env directory d0)"
proof -
  let ?J = "publishing env directory d0"
  have removed: "triple ?J (io what (sys_remove_file p)) (\<lambda>_. ?J)" for what
    unfolding sys_remove_file_def
    by (rule triple_map_err, rule triple_syscall) (use assms in \<open>auto intro: removed_publishing split: option.split\<close>)
  have locked: "triple ?J (io what (sys_flock i)) (\<lambda>_. ?J)" for what i
    unfolding sys_flock_def by (rule triple_map_err, rule triple_syscall) auto
  show ?thesis
    unfolding remove_stale_marker_def
    apply (rule triple_then [OF looksD], unfold sys_open_nofollow_def, intro looks_intros, assumption)
    apply (rule triple_then [OF looksD [OF looks_marker_file(1)]], assumption)
    apply (rule triple_then [OF locked], assumption)
    apply (rule triple_attempt_bind [where R = "\<lambda>_. ?J"])
     apply (rule triple_then [OF looksD], intro looks_intros, assumption)
     apply (rule triple_then [OF looksD], intro looks_intros, assumption)
     apply (split if_split, intro conjI impI triple_fail removed, assumption)
    apply (rule triple_then [where R = ?J], rule triple_close, simp, assumption, rule triple_try, assumption)
    done
qed

lemma created_publishing:
  assumes "allocates_fresh env"
  shows "triple (publishing env directory d0) (io what (sys_create_new env (marker_path env directory)))
    (\<lambda>r d. \<forall>i. r = Inr i \<longrightarrow> marker_made env directory (\<lambda>_ bytes. bytes = []) d0 i d)"
  unfolding sys_create_new_def
proof (rule triple_map_err, rule triple_syscall, goal_cases)
  case (1 d)
  let ?k = "path_components (marker_path env directory)"
  show ?case
  proof (cases "dk_names d ?k = None \<and> pe_alloc env d \<noteq> None")
    case True
    then obtain i where i: "pe_alloc env d = Some i" "dk_names d ?k = None" by auto
    then have "dk_inodes d i = None" using assms by (auto simp: allocates_fresh_def)
    then show ?thesis using 1 i private_create [of env directory d ?k i]
      by (auto simp: create_at_def marker_made_def publishing_def)
  qed (auto simp: create_at_def split: option.split)
qed simp

lemma made_update:
  assumes "marker_made env directory stage d0 i d" and "dk_inodes d i = Some f" and "fi_kind g = Kind_Regular"
    and "fi_uid g = pe_uid env" and "stage' (fi_mode g) (fi_data g)"
  shows "marker_made env directory stage' d0 i (d\<lparr>dk_inodes := (dk_inodes d)(i \<mapsto> g)\<rparr>)"
  using assms unfolding marker_made_def publishing_def private_directory_def by fastforce

definition loaded_marker :: "u32 \<Rightarrow> 'd PolicySnapshot \<Rightarrow> Marker" where
  "loaded_marker pid loaded = \<lparr>mk_pid = pid, mk_path = as_bytes (ps_path loaded), mk_source = as_bytes (ps_source loaded)\<rparr>"

lemma marker_body_Inr:
  "marker_body pid loaded = Inr bytes \<Longrightarrow> length (ps_source loaded) \<le> MAX_CONFIG_BYTES \<Longrightarrow>
    bytes = marker_bytes (loaded_marker pid loaded) \<and> marker_ok (loaded_marker pid loaded)"
  by (auto simp: marker_body_def loaded_marker_def marker_ok_def as_bytes_def Let_def split: if_splits)

lemma secured_triple:
  "triple (marker_made env directory (\<lambda>_ bytes. bytes = []) d0 i)
    (st_bind (io what (sys_fchmod i 384)) (\<lambda>_. io what' (sys_flock i)))
    (\<lambda>r d. \<forall>u. r = Inr u \<longrightarrow> marker_made env directory (\<lambda>mode bytes. mode = 384 \<and> bytes = []) d0 i d \<and> i \<in> dk_locks d)"
proof (rule triple_step)
  show "triple (marker_made env directory (\<lambda>_ bytes. bytes = []) d0 i) (io what (sys_fchmod i 384))
      (\<lambda>r d. \<forall>u. r = Inr u \<longrightarrow> marker_made env directory (\<lambda>mode bytes. mode = 384 \<and> bytes = []) d0 i d)"
    unfolding sys_fchmod_def
  proof (rule triple_map_err, rule triple_syscall, goal_cases)
    case (1 d)
    then obtain f where "dk_inodes d i = Some f" "fi_kind f = Kind_Regular" "fi_uid f = pe_uid env" "fi_data f = []"
      by (auto simp: marker_made_def)
    then show ?case using made_update [OF 1] by (simp add: on_inode_def)
  qed simp
qed (auto simp: sys_flock_def intro!: triple_map_err triple_syscall split: if_splits)

lemma written_triple:
  assumes "length (ps_source loaded) \<le> MAX_CONFIG_BYTES"
  shows "triple (\<lambda>d. marker_made env directory (\<lambda>mode bytes. mode = 384 \<and> bytes = []) d0 i d \<and> i \<in> dk_locks d)
    (st_bind (st_try (marker_body (pe_pid env) loaded)) (\<lambda>body.
      st_bind (io what (st_bind (sys_write_all i body) (\<lambda>_. sys_fsync i))) (\<lambda>_. io what' (sys_fstat i))))
    (\<lambda>r d. \<forall>meta. r = Inr meta \<longrightarrow> publishing env directory d0 d
      \<and> marker_held env (marker_path env directory) (loaded_marker (pe_pid env) loaded) d)"
    (is "triple ?P _ ?Q")
proof (rule triple_step [OF triple_try [where Q = "\<lambda>r d. r = marker_body (pe_pid env) loaded \<and> ?P d"]])
  fix body
  let ?m = "loaded_marker (pe_pid env) loaded"
  let ?W = "\<lambda>d. marker_made env directory (\<lambda>mode bytes. mode = 384 \<and> bytes = body) d0 i d \<and> i \<in> dk_locks d"
  have put: "triple ?P (sys_write_all i body) (\<lambda>r d. \<forall>u. r = Inr u \<longrightarrow> ?W d)"
    unfolding sys_write_all_def
  proof (rule triple_sys, goal_cases)
    case (1 d)
    then obtain f where "dk_inodes d i = Some f" "fi_kind f = Kind_Regular" "fi_uid f = pe_uid env" "fi_data f = []" "fi_mode f = 384"
      by (auto simp: marker_made_def)
    then show ?case using 1 made_update [of env directory "\<lambda>mode bytes. mode = 384 \<and> bytes = []" d0 i d f "overwrite body f"]
      by (simp add: on_inode_def overwrite_def)
  qed simp
  have stored: "triple ?P (io what (st_bind (sys_write_all i body) (\<lambda>_. sys_fsync i))) (\<lambda>r d. \<forall>u. r = Inr u \<longrightarrow> ?W d)"
    by (rule triple_map_err, rule triple_step [OF put], simp, unfold sys_fsync_def, rule triple_syscall) simp_all
  have held: "publishing env directory d0 d \<and> marker_held env (marker_path env directory) ?m d"
    if "?W d" "Inr body = marker_body (pe_pid env) loaded" for d
    using that marker_body_Inr [OF that(2) [symmetric] assms]
    by (auto simp: marker_made_def marker_held_def file_at_Some)
  have "triple ?P (st_bind (io what (st_bind (sys_write_all i body) (\<lambda>_. sys_fsync i))) (\<lambda>_. io what' (sys_fstat i)))
      (\<lambda>r d. \<forall>meta. r = Inr meta \<longrightarrow> ?W d)"
    by (rule triple_step [OF stored], simp, rule triple_conseq [OF looksD [where P = ?W]]) (intro looks_intros, simp_all)
  then have "triple (\<lambda>d. ?P d \<and> Inr body = marker_body (pe_pid env) loaded)
      (st_bind (io what (st_bind (sys_write_all i body) (\<lambda>_. sys_fsync i))) (\<lambda>_. io what' (sys_fstat i))) ?Q"
    by (intro triple_pure, elim triple_conseq) (use held in auto)
  then show "triple (\<lambda>d. Inr body = marker_body (pe_pid env) loaded \<and> ?P d)
      (st_bind (io what (st_bind (sys_write_all i body) (\<lambda>_. sys_fsync i))) (\<lambda>_. io what' (sys_fstat i))) ?Q"
    by (rule triple_conseq) auto
qed simp_all

lemma triple_pre: "triple P m Q \<Longrightarrow> (\<And>d. P' d \<Longrightarrow> P d) \<Longrightarrow> triple P' m Q"
  by (rule triple_conseq)

lemma publish_triple:
  assumes "allocates_fresh env" and "length (ps_source loaded) \<le> MAX_CONFIG_BYTES" and dir: "state_directory var = Inr (Some directory)"
  shows "triple (\<lambda>d. d = d0) (publish env var loaded) (\<lambda>r d. \<forall>g. r = Inr g \<longrightarrow> publishing env directory d0 d
    \<and> marker_held env (marker_path env directory) (loaded_marker (pe_pid env) loaded) d)"
    (is "triple _ _ ?Q")
proof -
  let ?J = "publishing env directory d0"
  let ?p = "marker_path env directory"
  have apart: "path_components ?p \<noteq> path_components directory"
    unfolding marker_path_name marker_components [OF dir] by simp
  have stop: "triple P (st_bind (st_attempt (sys_remove_file ?p)) (\<lambda>_. st_fail e)) ?Q" for P e
    by (rule triple_attempt_bind [where R = "\<lambda>_ _. True"], unfold sys_remove_file_def, rule triple_syscall)
      (auto intro: triple_fail split: option.split)
  have closed: "triple P (st_bind (close_locked i) (\<lambda>_. st_bind (st_attempt (sys_remove_file ?p)) (\<lambda>_. st_fail e))) ?Q" for P i e
    by (rule triple_then [where R = "\<lambda>_. True"], rule triple_close, simp, simp, rule stop)
  have found: "res_bind (state_directory var) (\<lambda>found_dir. ok_or found_dir e) = Inr directory" for e
    by (simp add: dir res_simps ok_or_def)
  show ?thesis
    unfolding publish_def found st_bind_try_Inr Let_def
    apply (rule triple_step [OF ensured_publishing], simp)
    apply (rule triple_attempt_bind [OF looksD [OF looks_socket_calls(1)]])
    apply (rule triple_then [where R = ?J])
      apply (split if_split, intro conjI impI triple_conseq [OF stale_publishing [OF apart]] triple_return, simp, simp, simp)
     apply simp
    apply (rule triple_step [OF created_publishing [OF assms(1)]], simp)
    apply (rule triple_attempt_bind [OF triple_pre [OF secured_triple [of env directory d0]]], simp)
    subgoal for _ _ _ i locked
      apply (cases locked; simp only: sum.case)
       apply (rule stop)
      apply (rule triple_attempt_bind [OF triple_pre [OF written_triple [OF assms(2), of env directory d0 i]]], simp)
      subgoal for _ prepared
        by (cases prepared; simp only: sum.case) (rule closed, rule triple_return, simp)
      done
    done
qed

section \<open>A status reports what was published\<close>

text \<open>Without failing calls a reader always gets its answer.\<close>

lemmas undisturbed = st_bind_def st_run st_attempt_def st_map_err_def sys_def sys_probe_def

lemma held_marker_answer:
  assumes "marker_held env p m (wd_disk w)" and "wd_script w = []"
  shows "read_locked_marker env p w = (Inr (Some m), w)"
proof -
  from assms(1) obtain i f where f: "marker_ok m" "file_at (wd_disk w) p = Some (i, f)" "i \<in> dk_locks (wd_disk w)" "fi_kind f = Kind_Regular"
    "fi_uid f = pe_uid env" "and (fi_mode f) 63 = 0" "fi_data f = marker_bytes m" "dk_inodes (wd_disk w) i = Some f"
    by (auto simp: marker_held_def file_at_Some)
  then show ?thesis using assms(2) length_marker [OF f(1)]
    by (simp add: read_locked_marker_def undisturbed sys_open_nofollow_def validate_marker_file_def sys_fstat_def metadata_of_def
        sys_flock_def read_marker_def sys_read_to_end_def parse_marker_bytes)
qed

lemma scan_answer:
  assumes "\<And>n. n \<in> set names \<Longrightarrow> is_marker_name n \<Longrightarrow> n = own" and "distinct names" and "k + (if own \<in> set names then 1 else 0) \<le> MAX_MARKERS"
    and "marker_held env (path_join directory own) m (wd_disk w)" and "wd_script w = []"
  shows "\<exists>records'. scan_markers env saved directory (map Inr names) k records w = (Inr records', w)"
  using assms(1-3)
proof (induction names arbitrary: k records)
  case (Cons n names)
  show ?case
  proof (cases "utf8_wellformed (map code_of n) \<and> is_marker_name n")
    case False
    then show ?thesis using Cons.IH [of k records] Cons.prems by (auto split: if_splits)
  next
    case True
    then have "n = own" using Cons.prems(1) by auto
    moreover have "own \<notin> set names" "k + 1 \<le> MAX_MARKERS" using \<open>n = own\<close> Cons.prems(2,3) by auto
    moreover have "read_locked_marker env (path_join directory n) w = (Inr (Some m), w)"
      unfolding \<open>n = own\<close> by (rule held_marker_answer [OF assms(4,5)])
    ultimately show ?thesis using True Cons.IH [of "k + 1"] Cons.prems(1,2) by (simp add: st_bind_def)
  qed
qed (simp add: st_run)

lemma status_answer:
  assumes "state_directory var = Inr (Some directory)" and "private_directory env directory (wd_disk w)"
    and "listing (wd_disk w) (path_components directory) = map Inr names" and "distinct names"
    and "\<And>n. n \<in> set names \<Longrightarrow> is_marker_name n \<Longrightarrow> n = own"
    and "marker_held env (path_join directory own) m (wd_disk w)" and "wd_script w = []"
  shows "\<exists>status. active_policy_status env var listing saved w = (Inr status, w)"
proof -
  have "0 + (if own \<in> set names then 1 else 0) \<le> MAX_MARKERS" by (simp add: MAX_MARKERS_def)
  then obtain records where "scan_markers env saved directory (map Inr names) 0 [] w = (Inr records, w)"
    using scan_answer [OF assms(5,4) _ assms(6,7)] by blast
  moreover obtain i f where "file_at (wd_disk w) directory = Some (i, f)" "fi_kind f = Kind_Directory" "fi_uid f = pe_uid env"
    "and (fi_mode f) 63 = 0" using assms(2) by (auto simp: private_directory_def file_at_Some)
  ultimately show ?thesis using assms(1,3,7)
    by (simp add: active_policy_status_def undisturbed sys_lookup_def validate_private_directory_def sys_symlink_metadata_def
        metadata_of_def sys_read_dir_def)
qed

text \<open>
  C21. A status reports what was published. When a provider has published the policy it loaded, while no other provider
  of the runtime directory reports, the status that any program of the same user asks for about a saved policy is
  \<open>Matching\<close> with the provider's process ID if path and source are the same, \<open>Different\<close> with that ID if only the path
  is, and \<open>NotReported\<close> for another path. Without failing calls there always is an answer, and asking changes nothing.
  \<open>listing\<close> is assumed to give each name of the directory once; the loaded source is within the configuration bound.
\<close>

theorem status_reports_published_policy:
  assumes "allocates_fresh env" and "quiet w" and "length (ps_source loaded) \<le> MAX_CONFIG_BYTES"
    and dir: "state_directory var = Inr (Some directory)"
    and others: "\<And>n. is_marker_name n \<Longrightarrow> dk_names (wd_disk w) (path_components directory @ [n]) \<noteq> None \<Longrightarrow> n = marker_name (pe_pid env)"
    and run: "publish env var loaded w = (Inr g, w')"
    and list: "listing (wd_disk w') (path_components directory) = map Inr names" "distinct names"
      "set names = {n. dk_names (wd_disk w') (path_components directory @ [n]) \<noteq> None}"
    and "pe_uid reader = pe_uid env"
  shows "(\<forall>status w''. active_policy_status reader var listing saved w' = (Inr status, w'') \<longrightarrow>
      status = sole_status saved loaded (pe_pid env) \<and> wd_disk w'' = wd_disk w')
    \<and> (wd_script w' = [] \<longrightarrow> active_policy_status reader var listing saved w' = (Inr (sole_status saved loaded (pe_pid env)), w'))"
proof -
  let ?own = "marker_name (pe_pid env)" and ?m = "loaded_marker (pe_pid env) loaded"
  from tripleD [OF publish_triple [OF assms(1,3) dir] assms(2) refl run]
  have quiet: "quiet w'" and made: "publishing env directory (wd_disk w) (wd_disk w')"
    and held: "marker_held env (path_join directory ?own) ?m (wd_disk w')"
    by (simp_all add: marker_path_name)
  have held': "marker_held reader (path_join directory ?own) ?m (wd_disk w')" and "private_directory reader directory (wd_disk w')"
    using held made assms(10) by (simp_all add: marker_held_def publishing_def private_directory_def)
  have own: "?own \<in> set names"
    using held list(3) by (auto simp: marker_held_def file_at_Some marker_components [OF dir])
  have sole: "n = ?own" if "n \<in> set names" "is_marker_name n" for n
    using that list(3) made others [of n] by (auto simp: publishing_def marker_path_name marker_components [OF dir])
  note status = status_triple [where listing = listing, OF dir \<open>private_directory reader directory (wd_disk w')\<close> list(1,2) own sole held' loaded_marker_def]
  note answer = status_answer [where listing = listing, OF dir \<open>private_directory reader directory (wd_disk w')\<close> list(1,2) sole held']
  have right: "status = sole_status saved loaded (pe_pid env) \<and> wd_disk w'' = wd_disk w'"
    if "active_policy_status reader var listing saved w' = (Inr status, w'')" for status w''
    using tripleD [OF status quiet refl that] by simp
  moreover have "active_policy_status reader var listing saved w' = (Inr (sole_status saved loaded (pe_pid env)), w')" if "wd_script w' = []"
    using answer [OF _ _ that, of saved] right by blast
  ultimately show ?thesis by blast
qed

section \<open>A concrete provider\<close>

definition demo_login :: world where
  "demo_login = \<lparr>wd_disk = \<lparr>dk_names = [[''/''] \<mapsto> Inode 1 1],
     dk_inodes = [Inode 1 1 \<mapsto> \<lparr>fi_kind = Kind_Directory, fi_uid = 1000, fi_mode = 448, fi_data = []\<rparr>], dk_locks = {}\<rparr>,
     wd_script = [], wd_serial = 1\<rparr>"

abbreviation demo_runtime_dir :: "string \<Rightarrow> string option" where
  "demo_runtime_dir \<equiv> [''XDG_RUNTIME_DIR'' \<mapsto> ''/'']"

definition demo_listing :: "disk \<Rightarrow> string list \<Rightarrow> (errno + string) list" where
  "demo_listing d k = map Inr (filter (\<lambda>n. dk_names d (k @ [n]) \<noteq> None) [marker_name 5])"

lemma demo_login_paths:
  "state_directory demo_runtime_dir = Inr (Some ''/agent-seat'')"
  "path_components ''/agent-seat'' = [''/'', ''agent-seat'']"
  "path_components (marker_path demo_policy_env ''/agent-seat'') = [''/'', ''agent-seat'', marker_name 5]"
proof -
  show dir: "state_directory demo_runtime_dir = Inr (Some ''/agent-seat'')" by (simp add: state_directory_def path_join_def is_absolute_def)
  show comps: "path_components ''/agent-seat'' = [''/'', ''agent-seat'']"
    by (simp add: path_components_def is_absolute_def split_on_free split_on_sep del: split_on.simps(2))
  show "path_components (marker_path demo_policy_env ''/agent-seat'') = [''/'', ''agent-seat'', marker_name 5]"
    unfolding marker_path_name marker_components [OF dir] comps by (simp add: demo_policy_env_def)
qed

lemma metadata_absent:
  assumes "dk_names (wd_disk w) (path_components p) = None" and "wd_script w = []"
  shows "sys_metadata p w = (Inl (NotFound ''No such file or directory''), w)"
proof -
  have "file_behind MAX_LINKS (wd_disk w) p = Inl (NotFound ''No such file or directory'')"
    using assms(1) by (simp add: MAX_LINKS_def eval_nat_numeral file_at_def)
  then show ?thesis using assms(2) by (simp add: sys_metadata_def sys_def res_simps)
qed

lemma ensure_absent:
  assumes "dk_names (wd_disk w) (path_components p) = None" and "wd_script w = []"
  shows "ensure_private_directory env p w = st_bind (io (''cannot create runtime directory '' @ p) (sys_mkdir env (path_components p)))
    (\<lambda>_. validate_private_directory env p) w"
  using metadata_absent [OF assms] by (auto simp: ensure_private_directory_def st_bind_def st_attempt_def is_ok_def)

lemma demo_published:
  "\<exists>g w'. publish demo_policy_env demo_runtime_dir demo_expected demo_login = (Inr g, w') \<and> wd_script w' = []
    \<and> {n. dk_names (wd_disk w') ([''/'', ''agent-seat''] @ [n]) \<noteq> None} = {marker_name 5}"
proof -
  have "marker_body (pe_pid demo_policy_env) demo_expected = Inr (marker_bytes (loaded_marker (pe_pid demo_policy_env) demo_expected))"
    by (simp add: marker_body_def loaded_marker_def demo_expected_def as_bytes_def marker_sizes)
  then show ?thesis
    by (simp add: publish_def demo_login_paths res_simps ok_or_def undisturbed demo_login_def
        ensure_absent metadata_absent file_at_def metadata_of_def sys_mkdir_def
        validate_private_directory_def sys_symlink_metadata_def demo_env sys_create_new_def create_at_def sys_fchmod_def
        sys_flock_def sys_write_all_def on_inode_def sys_fsync_def sys_fstat_def Let_def)
qed

theorem status_reports_published_policy_witness:
  "\<exists>g w'. publish demo_policy_env demo_runtime_dir demo_expected demo_login = (Inr g, w')
    \<and> active_policy_status demo_policy_env demo_runtime_dir demo_listing demo_expected w' = (Inr (Matching 5), w')"
proof -
  obtain g w' where run: "publish demo_policy_env demo_runtime_dir demo_expected demo_login = (Inr g, w')" and "wd_script w' = []"
    and names: "{n. dk_names (wd_disk w') ([''/'', ''agent-seat''] @ [n]) \<noteq> None} = {marker_name 5}"
    using demo_published by blast
  from names have "dk_names (wd_disk w') ([''/'', ''agent-seat''] @ [marker_name 5]) \<noteq> None" by blast
  then have list: "demo_listing (wd_disk w') (path_components ''/agent-seat'') = map Inr [marker_name 5]"
    unfolding demo_listing_def demo_login_paths(2) by simp
  have loaded: "quiet demo_login" "length (ps_source demo_expected) \<le> MAX_CONFIG_BYTES" "distinct [marker_name 5]"
    "sole_status demo_expected demo_expected (pe_pid demo_policy_env) = Matching 5"
    by (simp_all add: quiet_def demo_login_def demo_expected_def MAX_CONFIG_BYTES_def sole_status_def demo_policy_env_def)
  have absent: "dk_names (wd_disk demo_login) (path_components ''/agent-seat'' @ [n]) = None" for n
    by (simp add: demo_login_def demo_login_paths)
  have named: "set [marker_name 5] = {n. dk_names (wd_disk w') (path_components ''/agent-seat'' @ [n]) \<noteq> None}"
    unfolding demo_login_paths(2) names by simp
  have "wd_script w' = [] \<longrightarrow> active_policy_status demo_policy_env demo_runtime_dir demo_listing demo_expected w' = (Inr (Matching 5), w')"
    unfolding loaded(4) [symmetric]
    by (rule status_reports_published_policy [where listing = demo_listing, OF demo_allocates loaded(1,2) demo_login_paths(1) _ run list loaded(3) named refl, THEN conjunct2])
      (simp add: absent)
  then show ?thesis using run \<open>wd_script w' = []\<close> by blast
qed

end
