(* ===== verification/Companion_Tools.thy ===== *)
theory Companion_Tools
  imports Companion_Seat "HOL-Library.AList"
begin

text \<open>
  JSON values and the tool tables of the companion (\<^verbatim>\<open>agent-seat-mcp/src/mcp.rs\<close>, \<^verbatim>\<open>build_tools\<close> to
  \<^verbatim>\<open>object_with_target\<close>). An object is an association list without repeated keys.
\<close>

section \<open>JSON values\<close>

datatype json_number = JInt int | JFloat string

datatype json = JNull | JBool bool | JNumber json_number | JString string | JArray "json list"
| JObject "(string \<times> json) list"

definition as_object :: "json \<Rightarrow> (string \<times> json) list option" where
  "as_object v = (case v of JObject fs \<Rightarrow> Some fs | _ \<Rightarrow> None)"

definition json_get :: "json \<Rightarrow> string \<Rightarrow> json option" where
  "json_get v k = (case v of JObject fs \<Rightarrow> map_of fs k | _ \<Rightarrow> None)"

definition json_index :: "json \<Rightarrow> string \<Rightarrow> json" where
  "json_index v k = (case json_get v k of Some x \<Rightarrow> x | None \<Rightarrow> JNull)"

definition as_str :: "json \<Rightarrow> string option" where
  "as_str v = (case v of JString s \<Rightarrow> Some s | _ \<Rightarrow> None)"

definition as_u64 :: "json_number \<Rightarrow> u64 option" where
  "as_u64 n = (case n of JInt i \<Rightarrow> if 0 \<le> i \<and> i < 2 ^ 64 then Some (of_int i) else None | JFloat _ \<Rightarrow> None)"

definition is_i64 :: "json_number \<Rightarrow> bool" where
  "is_i64 n \<longleftrightarrow> (case n of JInt i \<Rightarrow> - (2 ^ 63) \<le> i \<and> i < 2 ^ 63 | JFloat _ \<Rightarrow> False)"

section \<open>The tool tables\<close>

definition KEYBOARD_KEYS :: "string list" where
  "KEYBOARD_KEYS =
    [''backspace'', ''delete'', ''enter'', ''escape'', ''tab'', ''space'', ''insert'', ''home'', ''end'', ''page_up'',
     ''page_down'', ''arrow_left'', ''arrow_right'', ''arrow_up'', ''arrow_down'', ''a'', ''b'', ''c'', ''d'',
     ''e'', ''f'', ''g'', ''h'', ''i'', ''j'', ''k'', ''l'', ''m'', ''n'', ''o'', ''p'', ''q'', ''r'', ''s'',
     ''t'', ''u'', ''v'', ''w'', ''x'', ''y'', ''z'', ''0'', ''1'', ''2'', ''3'', ''4'', ''5'', ''6'', ''7'',
     ''8'', ''9'', ''f1'', ''f2'', ''f3'', ''f4'', ''f5'', ''f6'', ''f7'', ''f8'', ''f9'', ''f10'', ''f11'',
     ''f12'']"

datatype Era = Legacy | Modern

record Tool =
  tl_name :: string
  tl_title :: string
  tl_description :: string
  tl_input_schema :: json

definition integer_from :: "int \<Rightarrow> json" where
  "integer_from low = JObject [(''type'', JString ''integer''), (''minimum'', JNumber (JInt low))]"

definition empty_schema :: json where
  "empty_schema = JObject [(''type'', JString ''object''), (''additionalProperties'', JBool False)]"

definition target_schema :: json where
  "target_schema = JObject [(''type'', JString ''object''),
     (''properties'', JObject [(''client'', integer_from 1), (''generation'', integer_from 0)]),
     (''required'', JArray [JString ''client'', JString ''generation'']), (''additionalProperties'', JBool False)]"

definition object_with_target :: "json \<Rightarrow> string list \<Rightarrow> json" where
  "object_with_target extra extra_required =
    (let base = [(''client'', integer_from 1), (''generation'', integer_from 0)];
         properties = (case extra of JObject es \<Rightarrow> AList.updates (map fst es) (map snd es) base | _ \<Rightarrow> base) in
     JObject [(''type'', JString ''object''), (''properties'', JObject properties),
       (''required'', JArray ([JString ''client'', JString ''generation''] @ map JString extra_required)),
       (''additionalProperties'', JBool False)])"

definition desktop_tools :: "Tool list" where
  "desktop_tools =
    [
     \<lparr>tl_name = ''seat_status'', tl_title = ''Agent Seat status'',
      tl_description = ''Resolve and authenticate the current Agent Seat provider. Call this before desktop work.'',
      tl_input_schema = empty_schema\<rparr>,
     \<lparr>tl_name = ''desktop_snapshot'', tl_title = ''Desktop snapshot'',
      tl_description = ''Observe the bounded Tier 0 desktop before choosing a target or mutation. Repeat after an action that may open a dialog or window; compare active and client IDs before more input.'',
      tl_input_schema = empty_schema\<rparr>,
     \<lparr>tl_name = ''events_subscribe'', tl_title = ''Subscribe to desktop changes'',
      tl_description = ''Start a bounded event stream; an empty kinds list subscribes to every core event.'',
      tl_input_schema = JObject [(''type'', JString ''object''), (''properties'', JObject [(''kinds'', JObject [(''type'', JString ''array''),
        (''maxItems'', JNumber (JInt 8)), (''uniqueItems'', JBool True), (''items'', JObject [(''enum'', JArray [JString ''client_added'',
        JString ''client_changed'', JString ''client_removed'', JString ''active_changed'', JString ''workspace_changed'',
        JString ''applications_changed''])])])]), (''additionalProperties'', JBool False)]\<rparr>,
     \<lparr>tl_name = ''events_poll'', tl_title = ''Poll desktop changes'',
      tl_description = ''Read bounded changes after a provider sequence cursor.'',
      tl_input_schema = JObject [(''type'', JString ''object''), (''properties'', JObject [(''after'', JObject [(''type'', JString ''integer''),
        (''minimum'', JNumber (JInt 0))]), (''limit'', JObject [(''type'', JString ''integer''), (''minimum'',
        JNumber (JInt 1)), (''maximum'', JNumber (JInt 1024))]), (''wait_ms'', JObject [(''type'', JString ''integer''),
        (''minimum'', JNumber (JInt 0)), (''maximum'', JNumber (JInt 30000))])]), (''required'', JArray [JString ''after'',
        JString ''limit'', JString ''wait_ms'']), (''additionalProperties'', JBool False)]\<rparr>,
     \<lparr>tl_name = ''client_activate'', tl_title = ''Activate client'',
      tl_description = ''Request advertised EWMH activation of a freshly observed client, then report what was observed.'',
      tl_input_schema = target_schema\<rparr>,
     \<lparr>tl_name = ''client_close'', tl_title = ''Close client politely'',
      tl_description = ''Request polite close only when the client advertises WM_DELETE_WINDOW, then report what was observed.'',
      tl_input_schema = target_schema\<rparr>,
     \<lparr>tl_name = ''workspace_switch'', tl_title = ''Switch workspace'',
      tl_description = ''Request an advertised current-workspace change from a fresh snapshot.'',
      tl_input_schema = JObject [(''type'', JString ''object''), (''properties'', JObject [(''workspace'', JObject [(''type'',
        JString ''integer''), (''minimum'', JNumber (JInt 0)), (''maximum'', JNumber (JInt 65535))]), (''sequence'',
        JObject [(''type'', JString ''integer''), (''minimum'', JNumber (JInt 0))])]), (''required'', JArray [JString ''workspace'',
        JString ''sequence'']), (''additionalProperties'', JBool False)]\<rparr>,
     \<lparr>tl_name = ''client_workspace'', tl_title = ''Send client to workspace'',
      tl_description = ''Request moving a freshly observed client to an advertised workspace.'',
      tl_input_schema = object_with_target (JObject [(''workspace'', JObject [(''type'', JString ''integer''), (''minimum'', JNumber (JInt 0)),
        (''maximum'', JNumber (JInt 65535))])]) [''workspace'']\<rparr>,
     \<lparr>tl_name = ''client_state'', tl_title = ''Change client state'',
      tl_description = ''Request one supported EWMH state transition on a freshly observed client.'',
      tl_input_schema = object_with_target (JObject [(''state'', JObject [(''enum'', JArray [JString ''above'', JString ''below'',
        JString ''fullscreen'', JString ''hidden'', JString ''maximized_horizontal'', JString ''maximized_vertical'',
        JString ''demands_attention'', JString ''sticky'', JString ''shaded''])]), (''action'', JObject [(''enum'',
        JArray [JString ''add'', JString ''remove'', JString ''toggle''])])]) [''state'', ''action'']\<rparr>,
     \<lparr>tl_name = ''client_geometry'', tl_title = ''Change client geometry'',
      tl_description = ''Request supported EWMH frame geometry for a freshly observed client.'',
      tl_input_schema = object_with_target (JObject [(''frame'', JObject [(''type'', JString ''object''), (''properties'', JObject [(''x'',
        JObject [(''type'', JString ''integer'')]), (''y'', JObject [(''type'', JString ''integer'')]), (''width'',
        JObject [(''type'', JString ''integer''), (''minimum'', JNumber (JInt 1)), (''maximum'', JNumber (JInt 4294967295))]),
        (''height'', JObject [(''type'', JString ''integer''), (''minimum'', JNumber (JInt 1)), (''maximum'',
        JNumber (JInt 4294967295))])]), (''required'', JArray [JString ''x'', JString ''y'', JString ''width'',
        JString ''height'']), (''additionalProperties'', JBool False)])]) [''frame'']\<rparr>,
     \<lparr>tl_name = ''applications_list'', tl_title = ''List launchable applications'',
      tl_description = ''List a bounded page of desktop entries visible under current provider policy.'',
      tl_input_schema = JObject [(''type'', JString ''object''), (''properties'', JObject [(''cursor'', JObject [(''type'', JString ''integer''),
        (''minimum'', JNumber (JInt 0)), (''maximum'', JNumber (JInt 4294967295)), (''default'', JNumber (JInt 0))]),
        (''limit'', JObject [(''type'', JString ''integer''), (''minimum'', JNumber (JInt 1)), (''maximum'',
        JNumber (JInt 256))])]), (''required'', JArray [JString ''limit'']), (''additionalProperties'', JBool False)]\<rparr>,
     \<lparr>tl_name = ''application_launch'', tl_title = ''Launch desktop application'',
      tl_description = ''Launch one current policy-approved desktop ID without a shell.'',
      tl_input_schema = JObject [(''type'', JString ''object''), (''properties'', JObject [(''application'', JObject [(''type'',
        JString ''string''), (''minLength'', JNumber (JInt 9)), (''maxLength'', JNumber (JInt 256)), (''pattern'',
        JString (''^[^/'' @ [CHR 0x5C] @ ''u0000]+'' @ [CHR 0x5C] @ ''.desktop$''))])]), (''required'', JArray [JString ''application'']),
        (''additionalProperties'', JBool False)]\<rparr>]"

definition input_tools :: "Tool list" where
  "input_tools =
    [
     \<lparr>tl_name = ''pointer_move'', tl_title = ''Move pointer within client'',
      tl_description = ''Move the pointer once to a currently visible client-relative point while the operator seat remains enabled.'',
      tl_input_schema = object_with_target (JObject [(''x'', JObject [(''type'', JString ''integer''), (''minimum'', JNumber (JInt 0)),
        (''maximum'', JNumber (JInt 4294967295))]), (''y'', JObject [(''type'', JString ''integer''), (''minimum'',
        JNumber (JInt 0)), (''maximum'', JNumber (JInt 4294967295))])]) [''x'', ''y'']\<rparr>,
     \<lparr>tl_name = ''pointer_click'', tl_title = ''Click within client'',
      tl_description = ''Move to and click one currently visible client-relative point while the operator seat remains enabled.'',
      tl_input_schema = object_with_target (JObject [(''x'', JObject [(''type'', JString ''integer''), (''minimum'', JNumber (JInt 0)),
        (''maximum'', JNumber (JInt 4294967295))]), (''y'', JObject [(''type'', JString ''integer''), (''minimum'',
        JNumber (JInt 0)), (''maximum'', JNumber (JInt 4294967295))]), (''button'', JObject [(''enum'', JArray [JString ''primary'',
        JString ''middle'', JString ''secondary''])])]) [''x'', ''y'', ''button'']\<rparr>,
     \<lparr>tl_name = ''pointer_slot_save'', tl_title = ''Remember pointer click'',
      tl_description = ''Save one previously verified client-relative click in the current provider session. A slot remembers coordinates, not a UI element; saving does not perform the click.'',
      tl_input_schema = object_with_target (JObject [(''name'', JObject [(''type'', JString ''string''), (''minLength'', JNumber (JInt 1)),
        (''maxLength'', JNumber (JInt 64)), (''pattern'', JString ''^[A-Za-z0-9._-]+$'')]), (''x'', JObject [(''type'',
        JString ''integer''), (''minimum'', JNumber (JInt 0)), (''maximum'', JNumber (JInt 4294967295))]), (''y'',
        JObject [(''type'', JString ''integer''), (''minimum'', JNumber (JInt 0)), (''maximum'', JNumber (JInt 4294967295))]),
        (''button'', JObject [(''enum'', JArray [JString ''primary'', JString ''middle'', JString ''secondary''])])]) [''name'',
        ''x'', ''y'', ''button'']\<rparr>,
     \<lparr>tl_name = ''pointer_slot_replay'', tl_title = ''Replay remembered click'',
      tl_description = (''Replay one remembered click using the target'' @ [CHR 0x27] @ ''s freshly observed generation and all current provider geometry, visibility, hit-test, grant, and seat checks. Reobserve before relying on a slot after UI changes.''),
      tl_input_schema = JObject [(''type'', JString ''object''), (''properties'', JObject [(''name'', JObject [(''type'', JString ''string''),
        (''minLength'', JNumber (JInt 1)), (''maxLength'', JNumber (JInt 64)), (''pattern'', JString ''^[A-Za-z0-9._-]+$'')]),
        (''generation'', JObject [(''type'', JString ''integer''), (''minimum'', JNumber (JInt 0))])]), (''required'',
        JArray [JString ''name'', JString ''generation'']), (''additionalProperties'', JBool False)]\<rparr>,
     \<lparr>tl_name = ''pointer_slots_list'', tl_title = ''List remembered clicks'',
      tl_description = ''List the at most 32 pointer clicks remembered only in the current provider session.'',
      tl_input_schema = JObject [(''type'', JString ''object''), (''properties'', JObject []), (''required'', JArray []), (''additionalProperties'',
        JBool False)]\<rparr>,
     \<lparr>tl_name = ''keyboard_type'', tl_title = ''Type text into client'',
      tl_description = ''Type bounded text through the current X11 keyboard layout only when the target already owns keyboard focus.'',
      tl_input_schema = object_with_target (JObject [(''text'', JObject [(''type'', JString ''string''), (''minLength'', JNumber (JInt 1)),
        (''maxLength'', JNumber (JInt 256))])]) [''text'']\<rparr>,
     \<lparr>tl_name = ''keyboard_key'', tl_title = ''Send key to client'',
      tl_description = ''Send one complete layout-aware key or shortcut only when the target already owns keyboard focus.'',
      tl_input_schema = object_with_target (JObject [(''key'', JObject [(''enum'', JArray (map JString KEYBOARD_KEYS))]), (''modifiers'',
        JObject [(''type'', JString ''array''), (''items'', JObject [(''enum'', JArray [JString ''control'',
        JString ''alt'', JString ''shift'', JString ''super''])]), (''maxItems'', JNumber (JInt 4)), (''uniqueItems'',
        JBool True), (''default'', JArray []), (''description'', JString ''Use canonical order: control, alt, shift, super.'')])]) [''key'']\<rparr>,
     \<lparr>tl_name = ''keyboard_write'', tl_title = ''Write long-form text into client'',
      tl_description = (''Type up to 4,096 characters and 16 KiB of preflighted multiline text through direct symbols in the current X11 keyboard layout. Refusal identifies the first unavailable scalar. Never change the user'' @ [CHR 0x27] @ ''s XKB layout or mapping as a workaround. The target must retain keyboard focus; completion is reported exactly and may be interrupted.''),
      tl_input_schema = object_with_target (JObject [(''text'', JObject [(''type'', JString ''string''), (''minLength'', JNumber (JInt 1)),
        (''maxLength'', JNumber (JInt 4096))])]) [''text'']\<rparr>,
     \<lparr>tl_name = ''text_insert'', tl_title = ''Transfer exact text to client'',
      tl_description = ''Offer up to 16,384 Unicode scalars and 32 KiB of exact UTF-8 to one freshly observed focused target. This separately granted write-only operation replaces X11 clipboard ownership; a clipboard manager may retain the text. It never reads the prior clipboard and reports selection delivery, not application insertion.'',
      tl_input_schema = object_with_target (JObject [(''text'', JObject [(''type'', JString ''string''), (''minLength'', JNumber (JInt 1)),
        (''maxLength'', JNumber (JInt 16384))])]) [''text'']\<rparr>,
     \<lparr>tl_name = ''capture_obscured'', tl_title = ''Capture client pixels'',
      tl_description = (''Capture one freshly observed client'' @ [CHR 0x27] @ ''s own pixels, including content covered by dialogs or other windows. This does not prove visibility, focus, or interactivity; use desktop_snapshot to inspect the active and newly added clients.''),
      tl_input_schema = target_schema\<rparr>,
     \<lparr>tl_name = ''capture_region'', tl_title = ''Capture part of client'',
      tl_description = ''Capture a bounded client-relative rectangle, including content covered by dialogs or other windows. This does not prove visibility, focus, or interactivity; use desktop_snapshot after UI-changing actions. The region may be at most 1,024 pixels on either side and 262,144 pixels total.'',
      tl_input_schema = object_with_target (JObject [(''x'', JObject [(''type'', JString ''integer''), (''minimum'', JNumber (JInt 0)),
        (''maximum'', JNumber (JInt 2047))]), (''y'', JObject [(''type'', JString ''integer''), (''minimum'',
        JNumber (JInt 0)), (''maximum'', JNumber (JInt 2047))]), (''width'', JObject [(''type'', JString ''integer''),
        (''minimum'', JNumber (JInt 1)), (''maximum'', JNumber (JInt 1024))]), (''height'', JObject [(''type'',
        JString ''integer''), (''minimum'', JNumber (JInt 1)), (''maximum'', JNumber (JInt 1024))])]) [''x'',
        ''y'', ''width'', ''height'']\<rparr>]"

definition build_tools :: "Tool list" where
  "build_tools = desktop_tools @ input_tools"

definition object_entry :: "string \<Rightarrow> json \<Rightarrow> (string \<times> json) list \<Rightarrow> json \<times> (string \<times> json) list" where
  "object_entry k absent fs = (case map_of fs k of Some v \<Rightarrow> (v, fs) | None \<Rightarrow> (absent, AList.update k absent fs))"

definition add_context_schema :: "json \<Rightarrow> json" where
  "add_context_schema schema = (case schema of
       JObject object0 \<Rightarrow>
         (let (properties, object1) = object_entry ''properties'' (JObject []) object0;
              object2 = (case properties of
                JObject ps \<Rightarrow> AList.update ''properties'' (JObject (AList.update ''context'' (integer_from 1) ps)) object1
              | _ \<Rightarrow> object1);
              (required, object3) = object_entry ''required'' (JArray []) object2;
              object4 = (case required of
                JArray rs \<Rightarrow> AList.update ''required'' (JArray (rs @ [JString ''context''])) object3
              | _ \<Rightarrow> object3) in
          JObject object4)
     | _ \<Rightarrow> schema)"

definition modern_tool :: "Tool \<Rightarrow> Tool" where
  "modern_tool t =
    (if tl_name t = ''seat_status''
     then t\<lparr>tl_description := ''Open one of at most eight Agent Seat contexts and report status; carry the returned context until seat_release, provider failure, or companion exit.''\<rparr>
     else t\<lparr>tl_input_schema := add_context_schema (tl_input_schema t)\<rparr>)"

definition build_modern_tools :: "Tool list" where
  "build_modern_tools = map modern_tool build_tools @
     [\<lparr>tl_name = ''seat_release'', tl_title = ''Release Agent Seat context'',
       tl_description = ''Release one explicit Agent Seat context when desktop work is complete.'',
       tl_input_schema = JObject [(''type'', JString ''object''), (''properties'', JObject [(''context'', integer_from 1)]),
         (''required'', JArray [JString ''context'']), (''additionalProperties'', JBool False)]\<rparr>]"

definition tools :: "Era \<Rightarrow> Tool list" where
  "tools era = (case era of Legacy \<Rightarrow> build_tools | Modern \<Rightarrow> build_modern_tools)"

definition tool_entry :: "Tool \<Rightarrow> json" where
  "tool_entry t = JObject [(''name'', JString (tl_name t)), (''title'', JString (tl_title t)),
     (''description'', JString (tl_description t)), (''inputSchema'', tl_input_schema t)]"

end
