(* ===== verification/Companion_Server.thy ===== *)
theory Companion_Server
  imports Companion_Tools
begin

text \<open>
  The MCP server of the companion (\<^verbatim>\<open>agent-seat-mcp/src/mcp.rs\<close>): the bounded line loop, the two
  protocol eras and their state, the contexts of the modern era, the recovery rule of the legacy era,
  pointer slots, and the translation of tools to Agent Seat calls.

  JSON text and the derived (de)serializers are the arguments of \<open>serde\<close>; JSON values and the
  tool tables are those of \<open>Companion_Tools\<close>. The provider connection is that of \<open>Companion_Seat\<close>: each
  request runs in a \<open>mcp_env\<close> that says what discovery, connecting and the timeouts answer.
\<close>

section \<open>Requests and replies\<close>

record RpcRequest =
  rpc_jsonrpc :: string
  rpc_id :: "json option"
  rpc_method :: string
  rpc_params :: json

record InitializeParams =
  ip_protocol_version :: string
  ip_capabilities :: json
  ip_client_info :: json

record CallToolParams =
  ct_name :: string
  ct_arguments :: "json option"

record PointerSlotSaveRequest =
  ss_name :: string
  ss_client :: ClientId
  ss_generation :: Generation
  ss_x :: u32
  ss_y :: u32
  ss_button :: PointerButton

record PointerSlotReplayRequest =
  sr_name :: string
  sr_generation :: Generation

record serde =
  sd_from_str :: "string \<Rightarrow> json option"
  sd_show :: "json \<Rightarrow> string"
  sd_outcome :: "Outcome \<Rightarrow> string + json"
  sd_target :: "TargetRequest \<Rightarrow> json"
  sd_region :: "CaptureRegion \<Rightarrow> json"
  sd_format :: "CaptureFormat \<Rightarrow> json"
  sd_click :: "PointerClickRequest \<Rightarrow> json"
  sd_rpc :: "json \<Rightarrow> RpcRequest option"
  sd_initialize :: "json \<Rightarrow> InitializeParams option"
  sd_discover :: "json \<Rightarrow> unit option"
  sd_list :: "json \<Rightarrow> string option option"
  sd_call :: "json \<Rightarrow> CallToolParams option"
  sd_save :: "json \<Rightarrow> string + PointerSlotSaveRequest"
  sd_replay :: "json \<Rightarrow> string + PointerSlotReplayRequest"
  sd_empty :: "json \<Rightarrow> string + unit"
  sd_subscribe :: "json \<Rightarrow> string + SubscribeRequest"
  sd_poll :: "json \<Rightarrow> string + PollRequest"
  sd_target_request :: "json \<Rightarrow> string + TargetRequest"
  sd_workspace :: "json \<Rightarrow> string + WorkspaceRequest"
  sd_client_workspace :: "json \<Rightarrow> string + ClientWorkspaceRequest"
  sd_client_state :: "json \<Rightarrow> string + ClientStateRequest"
  sd_client_geometry :: "json \<Rightarrow> string + ClientGeometryRequest"
  sd_applications :: "json \<Rightarrow> string + ApplicationListRequest"
  sd_launch :: "json \<Rightarrow> string + ApplicationLaunchRequest"
  sd_pointer_move :: "json \<Rightarrow> string + PointerMoveRequest"
  sd_pointer_click :: "json \<Rightarrow> string + PointerClickRequest"
  sd_type :: "json \<Rightarrow> string + KeyboardTypeRequest"
  sd_write :: "json \<Rightarrow> string + KeyboardWriteRequest"
  sd_key :: "json \<Rightarrow> string + KeyboardKeyRequest"
  sd_text :: "json \<Rightarrow> string + TextInsertRequest"
  sd_capture_region :: "json \<Rightarrow> string + CaptureRegionRequest"

datatype rpc_reply = RpcResult json json | RpcError json int string "json option"

fun reply_id :: "rpc_reply \<Rightarrow> json" where
  "reply_id (RpcResult i result) = i"
| "reply_id (RpcError i code message data) = i"

datatype ToolContent = TextContent string | ImageContent string

record ToolResult =
  tr_content :: "ToolContent list"
  tr_structured :: json
  tr_is_error :: bool

fun content_json :: "ToolContent \<Rightarrow> json" where
  "content_json (TextContent t) = JObject [(''type'', JString ''text''), (''text'', JString t)]"
| "content_json (ImageContent d) =
    JObject [(''type'', JString ''image''), (''data'', JString d), (''mimeType'', JString ''image/png'')]"

definition tool_json :: "ToolResult \<Rightarrow> json" where
  "tool_json r = JObject [(''content'', JArray (map content_json (tr_content r))),
     (''structuredContent'', tr_structured r), (''isError'', JBool (tr_is_error r))]"

definition tool_result :: "serde \<Rightarrow> json \<Rightarrow> bool \<Rightarrow> ToolResult" where
  "tool_result sd content is_error =
    \<lparr>tr_content = [TextContent (sd_show sd content)], tr_structured = content, tr_is_error = is_error\<rparr>"

definition tool_error :: "serde \<Rightarrow> string \<Rightarrow> string \<Rightarrow> string \<Rightarrow> ToolResult" where
  "tool_error sd code retry message = tool_result sd
    (JObject [(''status'', JString ''error''),
      (''body'', JObject [(''code'', JString code), (''retry'', JString retry), (''message'', JString message)])]) True"

definition CAPTURE_INTERACTIVITY_WARNING :: string where
  "CAPTURE_INTERACTIVITY_WARNING = ''Target-owned pixels may be covered by another client and do not prove visibility, focus, or interactivity. Inspect every mutation result. After an action that may open a dialog or window, take desktop_snapshot and handle its active or newly added client before more input.''"

definition capture_content :: "string \<Rightarrow> ToolContent list" where
  "capture_content data = [ImageContent data, TextContent CAPTURE_INTERACTIVITY_WARNING]"

definition capture_structured :: "string \<Rightarrow> (string \<times> json) list \<Rightarrow> json" where
  "capture_structured kind value = JObject [(''status'', JString ''ok''),
     (''body'', JObject [(''kind'', JString kind), (''value'', JObject value)])]"

definition tool_outcome :: "serde \<Rightarrow> Outcome \<Rightarrow> ToolResult" where
  "tool_outcome sd outcome = (case outcome of
       Out_Ok (Reply_Capture c) \<Rightarrow>
         \<lparr>tr_content = capture_content (cap_data c),
          tr_structured = capture_structured ''capture'' [(''target'', sd_target sd (cap_target c)),
            (''width'', JNumber (JInt (uint (cap_width c)))), (''height'', JNumber (JInt (uint (cap_height c)))),
            (''format'', sd_format sd (cap_format c))], tr_is_error = False\<rparr>
     | Out_Ok (Reply_CaptureRegion c) \<Rightarrow>
         \<lparr>tr_content = capture_content (cpr_data c),
          tr_structured = capture_structured ''capture_region'' [(''target'', sd_target sd (cpr_target c)),
            (''region'', sd_region sd (cpr_region c)), (''format'', sd_format sd (cpr_format c))], tr_is_error = False\<rparr>
     | _ \<Rightarrow> (case sd_outcome sd outcome of
          Inr content \<Rightarrow> tool_result sd content (case outcome of Out_Error _ \<Rightarrow> True | _ \<Rightarrow> False)
        | Inl e \<Rightarrow> tool_error sd ''internal'' ''never'' e))"

definition with_context :: "serde \<Rightarrow> u64 \<Rightarrow> ToolResult \<Rightarrow> ToolResult" where
  "with_context sd context r =
    (let structured = (case tr_structured r of
           JObject fs \<Rightarrow> JObject (AList.update ''context'' (JNumber (JInt (uint context))) fs) | v \<Rightarrow> v);
         content = (case tr_content r of TextContent _ # rest \<Rightarrow> TextContent (sd_show sd structured) # rest | cs \<Rightarrow> cs) in
     r\<lparr>tr_structured := structured, tr_content := content\<rparr>)"

definition requires_provider_reconnect :: "ToolResult \<Rightarrow> bool" where
  "requires_provider_reconnect r \<longleftrightarrow>
    json_index (json_index (tr_structured r) ''body'') ''retry'' = JString ''reconnect''"

section \<open>Validation and translation\<close>

definition MODERN_MCP_VERSION :: string where "MODERN_MCP_VERSION = ''2026-07-28''"
definition LEGACY_MCP_VERSION :: string where "LEGACY_MCP_VERSION = ''2025-11-25''"
definition MODERN_PROTOCOL_VERSION :: string where "MODERN_PROTOCOL_VERSION = ''io.modelcontextprotocol/protocolVersion''"
definition MODERN_CLIENT_INFO :: string where "MODERN_CLIENT_INFO = ''io.modelcontextprotocol/clientInfo''"
definition MODERN_CLIENT_CAPABILITIES :: string where
  "MODERN_CLIENT_CAPABILITIES = ''io.modelcontextprotocol/clientCapabilities''"
definition STATIC_RESULT_TTL_MS :: int where "STATIC_RESULT_TTL_MS = 3600000"
definition MAX_MODERN_CONTEXTS :: nat where "MAX_MODERN_CONTEXTS = 8"
definition MAX_POINTER_SLOTS :: nat where "MAX_POINTER_SLOTS = 32"
definition MAX_POINTER_SLOT_NAME_BYTES :: nat where "MAX_POINTER_SLOT_NAME_BYTES = 64"
definition MAX_MCP_LINE_BYTES :: nat where "MAX_MCP_LINE_BYTES = 1024 * 1024"

datatype ModernMetadataError = MM_Invalid | MM_Unsupported string

definition valid_id :: "json option \<Rightarrow> bool" where
  "valid_id i \<longleftrightarrow> (case i of
       None \<Rightarrow> True
     | Some (JString _) \<Rightarrow> True
     | Some (JNumber n) \<Rightarrow> is_i64 n \<or> as_u64 n \<noteq> None
     | _ \<Rightarrow> False)"

definition short_text :: "json \<Rightarrow> bool" where
  "short_text v \<longleftrightarrow> (case as_str v of Some s \<Rightarrow> s \<noteq> [] \<and> length s \<le> 128 | None \<Rightarrow> False)"

definition valid_implementation :: "json \<Rightarrow> bool" where
  "valid_implementation v \<longleftrightarrow> (case as_object v of
       None \<Rightarrow> False
     | Some fs \<Rightarrow> list_all (\<lambda>field. case map_of fs field of Some x \<Rightarrow> short_text x | None \<Rightarrow> False) [''name'', ''version''])"

definition modern_metadata :: "json \<Rightarrow> (string \<times> json) list option" where
  "modern_metadata params = Option.bind (json_get params ''_meta'') as_object"

definition has_modern_version :: "json \<Rightarrow> bool" where
  "has_modern_version params \<longleftrightarrow>
    (case modern_metadata params of None \<Rightarrow> False | Some fs \<Rightarrow> map_of fs MODERN_PROTOCOL_VERSION \<noteq> None)"

definition validate_modern_metadata :: "json \<Rightarrow> ModernMetadataError + unit" where
  "validate_modern_metadata params =
    res_bind (ok_or (modern_metadata params) MM_Invalid) (\<lambda>metadata.
    res_bind (ok_or (Option.bind (map_of metadata MODERN_PROTOCOL_VERSION) as_str) MM_Invalid) (\<lambda>requested.
    if requested \<noteq> MODERN_MCP_VERSION then Inl (MM_Unsupported requested)
    else if (case map_of metadata MODERN_CLIENT_CAPABILITIES of Some v \<Rightarrow> as_object v = None | None \<Rightarrow> True)
      then Inl MM_Invalid
    else if (case map_of metadata MODERN_CLIENT_INFO of Some client \<Rightarrow> \<not> valid_implementation client | None \<Rightarrow> False)
      then Inl MM_Invalid
    else Inr ()))"

definition server_info :: json where
  "server_info = JObject [(''name'', JString ''agent-seat-mcp''), (''title'', JString ''Agent Seat''),
     (''version'', JString MCP_VERSION)]"

definition modern_result :: "json \<Rightarrow> json" where
  "modern_result v = (case v of
       JObject fs \<Rightarrow> JObject (AList.update ''_meta'' (JObject [(''io.modelcontextprotocol/serverInfo'', server_info)])
         (AList.update ''resultType'' (JString ''complete'') fs))
     | _ \<Rightarrow> v)"

definition modern_result_with :: "json \<Rightarrow> json \<Rightarrow> string + json" where
  "modern_result_with v extra = (case v of
       JObject fs \<Rightarrow> (case extra of
          JObject es \<Rightarrow> Inr (modern_result (JObject (AList.updates (map fst es) (map snd es) fs)))
        | _ \<Rightarrow> Inl ''modern MCP result fields must be an object'')
     | _ \<Rightarrow> Inl ''modern MCP result must be an object'')"

definition modern_tool_result :: "ToolResult \<Rightarrow> json" where
  "modern_tool_result r = modern_result (tool_json r)"

definition take_context :: "json option \<Rightarrow> string + (u64 option \<times> json option)" where
  "take_context arguments =
    res_bind (case arguments of None \<Rightarrow> Inr [] | Some (JObject fs) \<Rightarrow> Inr fs
      | Some _ \<Rightarrow> Inl ''tool arguments must be an object'') (\<lambda>fs.
    res_bind (case map_of fs ''context'' of
        Some (JNumber n) \<Rightarrow> (case as_u64 n of
            Some v \<Rightarrow> if v \<noteq> 0 then Inr (Some v) else Inl ''context must be a positive integer''
          | None \<Rightarrow> Inl ''context must be a positive integer'')
      | Some _ \<Rightarrow> Inl ''context must be a positive integer''
      | None \<Rightarrow> Inr None) (\<lambda>context.
    Inr (context, Some (JObject (AList.delete ''context'' fs)))))"

datatype CallError = UnknownTool | BadArguments string

definition decoded :: "('a \<Rightarrow> Call) \<Rightarrow> string + 'a \<Rightarrow> CallError + Call" where
  "decoded variant r = map_err BadArguments (map_ok variant r)"

definition call_of :: "serde \<Rightarrow> string \<Rightarrow> json \<Rightarrow> CallError + Call" where
  "call_of sd name args =
    (if name = ''seat_status'' then decoded (\<lambda>_. Call_SeatStatus) (sd_empty sd args)
     else if name = ''desktop_snapshot'' then decoded (\<lambda>_. Call_DesktopSnapshot) (sd_empty sd args)
     else if name = ''events_subscribe'' then decoded Call_EventsSubscribe (sd_subscribe sd args)
     else if name = ''events_poll'' then decoded Call_EventsPoll (sd_poll sd args)
     else if name = ''client_activate'' then decoded Call_ClientActivate (sd_target_request sd args)
     else if name = ''client_close'' then decoded Call_ClientClose (sd_target_request sd args)
     else if name = ''workspace_switch'' then decoded Call_WorkspaceSwitch (sd_workspace sd args)
     else if name = ''client_workspace'' then decoded Call_ClientWorkspace (sd_client_workspace sd args)
     else if name = ''client_state'' then decoded Call_ClientState (sd_client_state sd args)
     else if name = ''client_geometry'' then decoded Call_ClientGeometry (sd_client_geometry sd args)
     else if name = ''applications_list'' then decoded Call_ApplicationsList (sd_applications sd args)
     else if name = ''application_launch'' then decoded Call_ApplicationLaunch (sd_launch sd args)
     else if name = ''pointer_move'' then decoded Call_PointerMove (sd_pointer_move sd args)
     else if name = ''pointer_click'' then decoded Call_PointerClick (sd_pointer_click sd args)
     else if name = ''keyboard_type'' then decoded Call_KeyboardType (sd_type sd args)
     else if name = ''keyboard_write'' then decoded Call_KeyboardWrite (sd_write sd args)
     else if name = ''keyboard_key'' then decoded Call_KeyboardKey (sd_key sd args)
     else if name = ''text_insert'' then decoded Call_TextInsert (sd_text sd args)
     else if name = ''capture_obscured'' then decoded Call_CaptureObscured (sd_target_request sd args)
     else if name = ''capture_region'' then decoded Call_CaptureRegion (sd_capture_region sd args)
     else Inl UnknownTool)"

definition or_empty :: "json option \<Rightarrow> json" where
  "or_empty arguments = (case arguments of Some v \<Rightarrow> v | None \<Rightarrow> JObject [])"

definition translate_call :: "serde \<Rightarrow> string \<Rightarrow> json option \<Rightarrow> CallError + Call" where
  "translate_call sd name arguments =
    res_bind (call_of sd name (or_empty arguments)) (\<lambda>call.
    res_bind (map_err BadArguments (validate_Call call)) (\<lambda>_. Inr call))"

section \<open>Contexts\<close>

record ProviderFailure =
  pf_code :: string
  pf_retry :: string
  pf_message :: string

record 'a Contexts =
  cx_limit :: nat
  cx_next :: u64
  cx_entries :: "(u64 \<times> 'a) list"

definition Contexts_new :: "nat \<Rightarrow> 'a Contexts" where
  "Contexts_new limit = \<lparr>cx_limit = limit, cx_next = 1, cx_entries = []\<rparr>"

definition Contexts_is_full :: "'a Contexts \<Rightarrow> bool" where
  "Contexts_is_full c \<longleftrightarrow> length (cx_entries c) \<ge> cx_limit c"

definition Contexts_insert :: "'a \<Rightarrow> 'a Contexts \<Rightarrow> ProviderFailure + (u64 \<times> 'a Contexts)" where
  "Contexts_insert v c =
    (if Contexts_is_full c
     then Inl \<lparr>pf_code = ''capacity'', pf_retry = ''reconnect'',
       pf_message = ''context limit '' @ decimal (cx_limit c) @ '' reached''\<rparr>
     else
       res_bind (ok_or (checked_add (cx_next c) 1) \<lparr>pf_code = ''capacity'', pf_retry = ''reconnect'',
         pf_message = ''context identity space is exhausted''\<rparr>) (\<lambda>following.
       Inr (cx_next c, c\<lparr>cx_next := following, cx_entries := AList.update (cx_next c) v (cx_entries c)\<rparr>)))"

definition Contexts_get :: "u64 \<Rightarrow> 'a Contexts \<Rightarrow> 'a option" where
  "Contexts_get i c = map_of (cx_entries c) i"

definition Contexts_set :: "u64 \<Rightarrow> 'a \<Rightarrow> 'a Contexts \<Rightarrow> 'a Contexts" where
  "Contexts_set i v c = c\<lparr>cx_entries := AList.update i v (cx_entries c)\<rparr>"

definition Contexts_remove :: "u64 \<Rightarrow> 'a Contexts \<Rightarrow> 'a Contexts" where
  "Contexts_remove i c = c\<lparr>cx_entries := AList.delete i (cx_entries c)\<rparr>"

section \<open>Sessions and pointer slots\<close>

record 'w ProviderSession =
  ps_seat :: "'w Seat"
  ps_slots :: "(string \<times> PointerClickRequest) list"

definition ProviderSession_new :: "'w Seat \<Rightarrow> 'w ProviderSession" where
  "ProviderSession_new seat = \<lparr>ps_seat = seat, ps_slots = []\<rparr>"

record 'w mcp_env =
  me_serde :: serde
  me_wire :: "'w seat_wire"
  me_discovery :: discovery_env
  me_connected :: "string \<Rightarrow> string + (reader \<times> 'w)"
  me_timeouts :: "string + unit"
  me_extend :: "string + unit"
  me_restore :: "string + unit"

definition seat_failure :: "SeatError \<Rightarrow> ProviderFailure" where
  "seat_failure e = \<lparr>pf_code = ErrorCode_as_str (se_code e), pf_retry = Retry_as_str (se_retry e), pf_message = se_message e\<rparr>"

definition discovery_failure :: "DiscoveryError \<Rightarrow> ProviderFailure" where
  "discovery_failure e =
    \<lparr>pf_code = DiscoveryError_code e, pf_retry = DiscoveryError_retry e, pf_message = DiscoveryError_to_string e\<rparr>"

definition call_seat :: "'w mcp_env \<Rightarrow> Call \<Rightarrow> ('w Seat, ProviderFailure, Outcome) st" where
  "call_seat env call seat =
    (let (r, seat') = Seat_call (me_wire env) (me_extend env) (me_restore env) call seat in
     (map_err seat_failure (map_ok resp_outcome r), seat'))"

definition on_seat :: "('w Seat, 'e, 'a) st \<Rightarrow> ('w ProviderSession, 'e, 'a) st" where
  "on_seat m ps = (let (r, seat) = m (ps_seat ps) in (r, ps\<lparr>ps_seat := seat\<rparr>))"

definition valid_pointer_slot_name :: "string \<Rightarrow> bool" where
  "valid_pointer_slot_name name \<longleftrightarrow> name \<noteq> [] \<and> length name \<le> MAX_POINTER_SLOT_NAME_BYTES
    \<and> list_all (\<lambda>c. is_ascii_alphanumeric c \<or> c = CHR ''.'' \<or> c = CHR ''_'' \<or> c = CHR ''-'') name"

definition is_pointer_slot_tool :: "string \<Rightarrow> bool" where
  "is_pointer_slot_tool name \<longleftrightarrow> name = ''pointer_slot_save'' \<or> name = ''pointer_slot_replay'' \<or> name = ''pointer_slots_list''"

definition invalid_argument :: "serde \<Rightarrow> string \<Rightarrow> ToolResult" where
  "invalid_argument sd m = tool_error sd ''invalid_argument'' ''never'' m"

definition slot_save :: "serde \<Rightarrow> json \<Rightarrow> ('w ProviderSession, ProviderFailure, ToolResult) st" where
  "slot_save sd args ps = (case sd_save sd args of
       Inl e \<Rightarrow> (Inr (invalid_argument sd e), ps)
     | Inr request \<Rightarrow>
         if \<not> valid_pointer_slot_name (ss_name request)
         then (Inr (invalid_argument sd
           (''slot name must be 1 to 64 bytes of ASCII letters, digits, \\'.\\', \\'_\\', or '' @ [CHR 0x27, CHR ''-'', CHR 0x27])), ps)
         else
           (let action = \<lparr>pcr_target = \<lparr>tgt_client = ss_client request, tgt_generation = ss_generation request\<rparr>,
                  pcr_x = ss_x request, pcr_y = ss_y request, pcr_button = ss_button request\<rparr> in
            case validate_PointerClickRequest action of
              Inl e \<Rightarrow> (Inr (invalid_argument sd e), ps)
            | Inr _ \<Rightarrow>
                if length (ps_slots ps) \<ge> MAX_POINTER_SLOTS \<and> map_of (ps_slots ps) (ss_name request) = None
                then (Inr (tool_error sd ''capacity'' ''never'' ''pointer action slot limit 32 reached''), ps)
                else
                  (Inr (tool_result sd (capture_structured ''pointer_slot_saved''
                    [(''name'', JString (ss_name request)), (''action'', sd_click sd action),
                     (''replaced'', JBool (map_of (ps_slots ps) (ss_name request) \<noteq> None))]) False),
                   ps\<lparr>ps_slots := AList.update (ss_name request) action (ps_slots ps)\<rparr>)))"

definition slot_replay :: "'w mcp_env \<Rightarrow> json \<Rightarrow> ('w ProviderSession, ProviderFailure, ToolResult) st" where
  "slot_replay env args ps = (let sd = me_serde env in case sd_replay sd args of
       Inl e \<Rightarrow> (Inr (invalid_argument sd e), ps)
     | Inr request \<Rightarrow>
         if \<not> valid_pointer_slot_name (sr_name request) then (Inr (invalid_argument sd ''slot name is invalid''), ps)
         else (case map_of (ps_slots ps) (sr_name request) of
             None \<Rightarrow> (Inr (tool_error sd ''not_found'' ''refresh'' ''pointer action slot is unknown in this provider session''), ps)
           | Some action \<Rightarrow>
               (let (r, ps') = on_seat (call_seat env (Call_PointerClick
                     (action\<lparr>pcr_target := (pcr_target action)\<lparr>tgt_generation := sr_generation request\<rparr>\<rparr>))) ps in
                (map_ok (tool_outcome sd) r, ps'))))"

definition slots_list :: "serde \<Rightarrow> json \<Rightarrow> ('w ProviderSession, ProviderFailure, ToolResult) st" where
  "slots_list sd args ps = (case sd_empty sd args of
       Inl e \<Rightarrow> (Inr (invalid_argument sd ''pointer_slots_list accepts no arguments''), ps)
     | Inr _ \<Rightarrow> (Inr (tool_result sd (capture_structured ''pointer_slots''
         [(''limit'', JNumber (JInt (int MAX_POINTER_SLOTS))),
          (''slots'', JArray (map (\<lambda>(name, action). JObject [(''name'', JString name), (''action'', sd_click sd action)])
            (sort_key fst (ps_slots ps))))]) False), ps))"

definition pointer_slot_call :: "'w mcp_env \<Rightarrow> string \<Rightarrow> json option \<Rightarrow> ('w ProviderSession, ProviderFailure, ToolResult) st" where
  "pointer_slot_call env name arguments =
    (let args = or_empty arguments; sd = me_serde env in
     if name = ''pointer_slot_save'' then slot_save sd args
     else if name = ''pointer_slot_replay'' then slot_replay env args
     else if name = ''pointer_slots_list'' then slots_list sd args
     else st_return (invalid_argument sd ''unknown local tool''))"

section \<open>The server\<close>

record 'w Server =
  sv_socket :: "string option"
  sv_inherited :: "'w Seat option"
  sv_legacy :: "'w ProviderSession option"
  sv_recovery :: bool
  sv_negotiated :: bool
  sv_initialized :: bool
  sv_contexts :: "'w ProviderSession Contexts"

definition Server_new :: "string option \<Rightarrow> 'w Seat option \<Rightarrow> 'w Server" where
  "Server_new socket seat = \<lparr>sv_socket = socket, sv_inherited = seat, sv_legacy = None, sv_recovery = False,
     sv_negotiated = False, sv_initialized = False, sv_contexts = Contexts_new MAX_MODERN_CONTEXTS\<rparr>"

definition outcome_requires_reconnect :: "Outcome \<Rightarrow> bool" where
  "outcome_requires_reconnect o' \<longleftrightarrow> (case o' of Out_Error e \<Rightarrow> pe_retry e = Retry_Reconnect | _ \<Rightarrow> False)"

definition stale_context :: ProviderFailure where
  "stale_context = \<lparr>pf_code = ''stale_context'', pf_retry = ''reconnect'',
     pf_message = ''Agent Seat context is unknown or expired''\<rparr>"

definition ended_modern_provider_session :: ProviderFailure where
  "ended_modern_provider_session = \<lparr>pf_code = ''stale_context'', pf_retry = ''reconnect'',
     pf_message = ''provider session ended; this context and its client IDs are invalid. Call seat_status, reobserve, and decide whether to retry; the previous call\\'s outcome may be unknown''\<rparr>"

definition ended_legacy_provider_session :: ProviderFailure where
  "ended_legacy_provider_session = \<lparr>pf_code = ''unavailable'', pf_retry = ''reconnect'',
     pf_message = ''provider session ended; call seat_status and reobserve before deciding whether to retry; the previous call\\'s outcome may be unknown''\<rparr>"

definition legacy_status_required :: ProviderFailure where
  "legacy_status_required = \<lparr>pf_code = ''unavailable'', pf_retry = ''reconnect'',
     pf_message = ''the previous provider session ended; call seat_status and reobserve before using any client ID''\<rparr>"

definition connect_seat :: "'w mcp_env \<Rightarrow> ('w Server, ProviderFailure, 'w Seat) st" where
  "connect_seat env sv = (case sv_inherited sv of
       Some seat \<Rightarrow> (Inr seat, sv\<lparr>sv_inherited := None\<rparr>)
     | None \<Rightarrow>
         (res_bind (map_err discovery_failure (resolve_socket (sv_socket sv) (me_discovery env))) (\<lambda>found_path.
          res_bind (ok_or found_path \<lparr>pf_code = ''unavailable'', pf_retry = ''reconnect'',
            pf_message = ''no live Agent Seat provider is advertised''\<rparr>) (\<lambda>path.
          map_err seat_failure (Seat_connect (me_wire env) path (me_connected env path) (me_timeouts env)))), sv))"

text \<open>A modern call runs in the session of its context and drops that session when it failed or must be reopened.\<close>

definition in_context :: "u64 \<Rightarrow> ('a \<Rightarrow> bool) \<Rightarrow> ('w ProviderSession, ProviderFailure, 'a) st
    \<Rightarrow> ('w Server, ProviderFailure, 'a) st" where
  "in_context context reopen m sv = (case Contexts_get context (sv_contexts sv) of
       None \<Rightarrow> (Inl stale_context, sv)
     | Some ps \<Rightarrow> (case m ps of
          (Inr a, ps') \<Rightarrow> (Inr a, sv\<lparr>sv_contexts := (if reopen a then Contexts_remove context (sv_contexts sv)
             else Contexts_set context ps' (sv_contexts sv))\<rparr>)
        | (Inl e, ps') \<Rightarrow> (Inl ended_modern_provider_session, sv\<lparr>sv_contexts := Contexts_remove context (sv_contexts sv)\<rparr>)))"

definition provider_call_modern :: "'w mcp_env \<Rightarrow> u64 \<Rightarrow> Call \<Rightarrow> ('w Server, ProviderFailure, Outcome) st" where
  "provider_call_modern env context call = in_context context outcome_requires_reconnect (on_seat (call_seat env call))"

definition pointer_slot_modern :: "'w mcp_env \<Rightarrow> u64 \<Rightarrow> string \<Rightarrow> json option \<Rightarrow> ('w Server, ProviderFailure, ToolResult) st" where
  "pointer_slot_modern env context name arguments =
    in_context context requires_provider_reconnect (pointer_slot_call env name arguments)"

definition create_modern_context :: "'w mcp_env \<Rightarrow> Call \<Rightarrow> ('w Server, ProviderFailure, u64 \<times> Outcome) st" where
  "create_modern_context env call sv =
    (if Contexts_is_full (sv_contexts sv)
     then (Inl \<lparr>pf_code = ''capacity'', pf_retry = ''reconnect'',
       pf_message = ''modern Agent Seat context limit '' @ decimal MAX_MODERN_CONTEXTS @ '' reached''\<rparr>, sv)
     else (case connect_seat env sv of
         (Inl e, sv1) \<Rightarrow> (Inl e, sv1)
       | (Inr seat, sv1) \<Rightarrow> (case on_seat (call_seat env call) (ProviderSession_new seat) of
            (Inl e, ps) \<Rightarrow> (Inl e, sv1)
          | (Inr out, ps) \<Rightarrow> (case Contexts_insert ps (sv_contexts sv1) of
               Inl e \<Rightarrow> (Inl e, sv1)
             | Inr (context, cs) \<Rightarrow> (Inr (context, out), sv1\<lparr>sv_contexts := cs\<rparr>)))))"

definition ensure_legacy :: "'w mcp_env \<Rightarrow> ('w Server, ProviderFailure, 'w ProviderSession) st" where
  "ensure_legacy env sv = (case sv_legacy sv of
       Some ps \<Rightarrow> (Inr ps, sv)
     | None \<Rightarrow> (case connect_seat env sv of
          (Inl e, sv1) \<Rightarrow> (Inl e, sv1)
        | (Inr seat, sv1) \<Rightarrow> (Inr (ProviderSession_new seat), sv1\<lparr>sv_legacy := Some (ProviderSession_new seat)\<rparr>)))"

definition in_legacy :: "'w mcp_env \<Rightarrow> ('a \<Rightarrow> bool) \<Rightarrow> ('a \<Rightarrow> bool) \<Rightarrow> ('w ProviderSession, ProviderFailure, 'a) st
    \<Rightarrow> ('w Server, ProviderFailure, 'a) st" where
  "in_legacy env reopen recovered m sv = (case ensure_legacy env sv of
       (Inl e, sv1) \<Rightarrow> (Inl e, sv1)
     | (Inr ps, sv1) \<Rightarrow> (case m ps of
          (Inr a, ps') \<Rightarrow> (Inr a,
             if reopen a then sv1\<lparr>sv_legacy := None, sv_recovery := True\<rparr>
             else sv1\<lparr>sv_legacy := Some ps', sv_recovery := (if recovered a then False else sv_recovery sv1)\<rparr>)
        | (Inl e, ps') \<Rightarrow> (Inl ended_legacy_provider_session, sv1\<lparr>sv_legacy := None, sv_recovery := True\<rparr>)))"

definition provider_call_legacy :: "'w mcp_env \<Rightarrow> Call \<Rightarrow> ('w Server, ProviderFailure, Outcome) st" where
  "provider_call_legacy env call sv =
    (let is_status = (call = Call_SeatStatus) in
     if sv_recovery sv \<and> \<not> is_status then (Inl legacy_status_required, sv)
     else in_legacy env outcome_requires_reconnect (\<lambda>out. is_status \<and> (case out of Out_Ok _ \<Rightarrow> True | _ \<Rightarrow> False))
       (on_seat (call_seat env call)) sv)"

definition pointer_slot_legacy :: "'w mcp_env \<Rightarrow> string \<Rightarrow> json option \<Rightarrow> ('w Server, ProviderFailure, ToolResult) st" where
  "pointer_slot_legacy env name arguments sv =
    (if sv_recovery sv then (Inl legacy_status_required, sv)
     else in_legacy env requires_provider_reconnect (\<lambda>_. False) (pointer_slot_call env name arguments) sv)"
section \<open>Handling a request\<close>

text \<open>Every handler ends in writing one reply, so it is modelled as the reply it writes and the state it leaves.\<close>

definition LEGACY_INSTRUCTIONS :: string where
  "LEGACY_INSTRUCTIONS = ''Use seat_status, then observe. Inspect every mutation result; never batch or discard it. Captures are target-owned and can show pixels behind dialogs, so they do not prove visibility, focus, or interactivity. After an action that may open a dialog/window, or when behavior is unexpected, take desktop_snapshot and handle active/new clients before more input. Prefer focused key commands, titles, and small regions. Use text_insert for exact multilingual or long text; it replaces clipboard ownership and reports delivery, not insertion. Never mutate XKB or bypass Agent Seat through a shell/browser clipboard. Save a pointer slot only after verifying its click; reobserve changed UI. On unavailable/reconnect, stale_context, stale, or timed_out, call seat_status and reobserve; never replay an old client ID or assume a failed mutation did not occur. The provider owns grants and policy.''"

definition MODERN_INSTRUCTIONS :: string where
  "MODERN_INSTRUCTIONS = ''Use seat_status, then observe. Inspect every mutation result; never batch or discard it. Captures are target-owned and can show pixels behind dialogs, so they do not prove visibility, focus, or interactivity. After an action that may open a dialog/window, or when behavior is unexpected, take desktop_snapshot and handle active/new clients before more input. Prefer focused key commands, titles, and small regions. Use text_insert for exact multilingual or long text; it replaces clipboard ownership and reports delivery, not insertion. Never mutate XKB or bypass Agent Seat through a shell/browser clipboard. Save a pointer slot only after verifying its click; reobserve changed UI. On unavailable/reconnect, stale_context, stale, or timed_out, call seat_status and reobserve; never replay an old client ID or assume a failed mutation did not occur. Report qualified work exactly.''"

definition tools_capability :: json where
  "tools_capability = JObject [(''tools'', JObject [(''listChanged'', JBool False)])]"

definition Server_initialize :: "serde \<Rightarrow> json \<Rightarrow> json \<Rightarrow> 'w Server \<Rightarrow> rpc_reply \<times> 'w Server" where
  "Server_initialize sd ident params sv =
    (if sv_negotiated sv then (RpcError ident (- 32600) ''initialize was already completed'' None, sv)
     else (case sd_initialize sd params of
         None \<Rightarrow> (RpcError ident (- 32602) ''invalid initialize parameters'' None, sv)
       | Some p \<Rightarrow>
           if as_object (ip_capabilities p) = None \<or> \<not> valid_implementation (ip_client_info p)
           then (RpcError ident (- 32602) ''invalid initialize parameters'' None, sv)
           else
             (let version = (if ip_protocol_version p = LEGACY_MCP_VERSION then ip_protocol_version p else LEGACY_MCP_VERSION) in
              (RpcResult ident (JObject [(''protocolVersion'', JString version), (''capabilities'', tools_capability),
                 (''serverInfo'', server_info), (''instructions'', JString LEGACY_INSTRUCTIONS)]),
               sv\<lparr>sv_negotiated := True\<rparr>))))"

definition Server_discover :: "serde \<Rightarrow> json \<Rightarrow> json \<Rightarrow> rpc_reply" where
  "Server_discover sd ident params = (case sd_discover sd params of
       None \<Rightarrow> RpcError ident (- 32602) ''invalid server/discover parameters'' None
     | Some _ \<Rightarrow> RpcResult ident (modern_result (JObject [
         (''supportedVersions'', JArray [JString MODERN_MCP_VERSION, JString LEGACY_MCP_VERSION]),
         (''capabilities'', tools_capability), (''instructions'', JString MODERN_INSTRUCTIONS),
         (''ttlMs'', JNumber (JInt STATIC_RESULT_TTL_MS)), (''cacheScope'', JString ''public'')])))"

definition list_tools :: "serde \<Rightarrow> json \<Rightarrow> json \<Rightarrow> Era \<Rightarrow> string + rpc_reply" where
  "list_tools sd ident params era =
    (case sd_list sd (if params = JNull then JObject [] else params) of
       Some None \<Rightarrow>
         (let result = JObject [(''tools'', JArray (map tool_entry (tools era)))] in
          case era of
            Legacy \<Rightarrow> Inr (RpcResult ident result)
          | Modern \<Rightarrow> map_ok (RpcResult ident) (modern_result_with result
              (JObject [(''ttlMs'', JNumber (JInt STATIC_RESULT_TTL_MS)), (''cacheScope'', JString ''public'')])))
     | _ \<Rightarrow> Inr (RpcError ident (- 32602) ''invalid tools/list parameters'' None))"

definition failure_result :: "serde \<Rightarrow> ProviderFailure \<Rightarrow> ToolResult" where
  "failure_result sd e = tool_error sd (pf_code e) (pf_retry e) (pf_message e)"

definition call_tool_legacy :: "'w mcp_env \<Rightarrow> json \<Rightarrow> json \<Rightarrow> 'w Server \<Rightarrow> rpc_reply \<times> 'w Server" where
  "call_tool_legacy env ident params sv = (let sd = me_serde env in case sd_call sd params of
       None \<Rightarrow> (RpcError ident (- 32602) ''invalid tools/call parameters'' None, sv)
     | Some p \<Rightarrow>
         if is_pointer_slot_tool (ct_name p) then
           (let (r, sv') = pointer_slot_legacy env (ct_name p) (ct_arguments p) sv in
            (RpcResult ident (tool_json (case r of Inr result \<Rightarrow> result | Inl e \<Rightarrow> failure_result sd e)), sv'))
         else (case translate_call sd (ct_name p) (ct_arguments p) of
             Inl UnknownTool \<Rightarrow> (RpcError ident (- 32602) ''unknown tool'' None, sv)
           | Inl (BadArguments m) \<Rightarrow> (RpcResult ident (tool_json (invalid_argument sd m)), sv)
           | Inr call \<Rightarrow>
               (let (r, sv') = provider_call_legacy env call sv in
                (RpcResult ident (tool_json (case r of Inr out \<Rightarrow> tool_outcome sd out | Inl e \<Rightarrow> failure_result sd e)), sv'))))"

definition modern_reply :: "json \<Rightarrow> ToolResult \<Rightarrow> rpc_reply" where
  "modern_reply ident r = RpcResult ident (modern_tool_result r)"

definition write_modern_call_error :: "serde \<Rightarrow> json \<Rightarrow> CallError \<Rightarrow> rpc_reply" where
  "write_modern_call_error sd ident e = (case e of
       UnknownTool \<Rightarrow> RpcError ident (- 32602) ''unknown tool'' None
     | BadArguments m \<Rightarrow> modern_reply ident (invalid_argument sd m))"

definition seat_release :: "serde \<Rightarrow> u64 option \<Rightarrow> json option \<Rightarrow> 'w Server \<Rightarrow> ToolResult \<times> 'w Server" where
  "seat_release sd context arguments sv =
    (if (case Option.bind arguments as_object of Some fs \<Rightarrow> fs \<noteq> [] | None \<Rightarrow> False)
     then (invalid_argument sd ''seat_release accepts only context'', sv)
     else (case context of
         Some c \<Rightarrow>
           if Contexts_get c (sv_contexts sv) \<noteq> None
           then (tool_result sd (capture_structured ''context_released'' [(''context'', JNumber (JInt (uint c)))]) False,
             sv\<lparr>sv_contexts := Contexts_remove c (sv_contexts sv)\<rparr>)
           else (tool_error sd ''stale_context'' ''reconnect'' ''Agent Seat context is unknown or expired'', sv)
       | None \<Rightarrow> (invalid_argument sd ''context is required'', sv)))"

definition seat_status :: "'w mcp_env \<Rightarrow> u64 option \<Rightarrow> json \<Rightarrow> json option \<Rightarrow> 'w Server \<Rightarrow> rpc_reply \<times> 'w Server" where
  "seat_status env context ident arguments sv = (let sd = me_serde env in
     if context \<noteq> None then (modern_reply ident (invalid_argument sd ''seat_status does not accept a context''), sv)
     else (case translate_call sd ''seat_status'' arguments of
         Inl e \<Rightarrow> (write_modern_call_error sd ident e, sv)
       | Inr call \<Rightarrow>
           (let (r, sv') = create_modern_context env call sv in
            (modern_reply ident (case r of
               Inr (c, out) \<Rightarrow> with_context sd c (tool_outcome sd out) | Inl e \<Rightarrow> failure_result sd e), sv'))))"

definition call_tool_modern :: "'w mcp_env \<Rightarrow> json \<Rightarrow> json \<Rightarrow> 'w Server \<Rightarrow> rpc_reply \<times> 'w Server" where
  "call_tool_modern env ident params sv = (let sd = me_serde env in case sd_call sd params of
       None \<Rightarrow> (RpcError ident (- 32602) ''invalid tools/call parameters'' None, sv)
     | Some p \<Rightarrow> (case take_context (ct_arguments p) of
          Inl m \<Rightarrow> (modern_reply ident (invalid_argument sd m), sv)
        | Inr (context, arguments) \<Rightarrow>
            if ct_name p = ''seat_release'' then
              (let (r, sv') = seat_release sd context arguments sv in (modern_reply ident r, sv'))
            else if ct_name p = ''seat_status'' then seat_status env context ident arguments sv
            else if is_pointer_slot_tool (ct_name p) then (case context of
                None \<Rightarrow> (modern_reply ident (invalid_argument sd ''context is required''), sv)
              | Some c \<Rightarrow>
                  (let (r, sv') = pointer_slot_modern env c (ct_name p) arguments sv in
                   (modern_reply ident (case r of Inr result \<Rightarrow> result | Inl e \<Rightarrow> failure_result sd e), sv')))
            else (case translate_call sd (ct_name p) arguments of
                Inl e \<Rightarrow> (write_modern_call_error sd ident e, sv)
              | Inr call \<Rightarrow> (case context of
                   None \<Rightarrow> (modern_reply ident (invalid_argument sd ''context is required''), sv)
                 | Some c \<Rightarrow>
                     (let (r, sv') = provider_call_modern env c call sv in
                      (modern_reply ident (case r of Inr out \<Rightarrow> tool_outcome sd out | Inl e \<Rightarrow> failure_result sd e), sv'))))))"

definition handle_modern :: "'w mcp_env \<Rightarrow> json \<Rightarrow> string \<Rightarrow> json \<Rightarrow> 'w Server \<Rightarrow> (string + rpc_reply) \<times> 'w Server" where
  "handle_modern env ident meth params sv = (let sd = me_serde env in case validate_modern_metadata params of
       Inl MM_Invalid \<Rightarrow> (Inr (RpcError ident (- 32602) ''invalid modern request metadata'' None), sv)
     | Inl (MM_Unsupported requested) \<Rightarrow>
         (Inr (RpcError ident (- 32022) ''Unsupported protocol version'' (Some (JObject [
            (''supported'', JArray [JString MODERN_MCP_VERSION, JString LEGACY_MCP_VERSION]),
            (''requested'', JString requested)]))), sv)
     | Inr _ \<Rightarrow>
         if meth = ''server/discover'' then (Inr (Server_discover sd ident params), sv)
         else if meth = ''tools/list'' then (list_tools sd ident params Modern, sv)
         else if meth = ''tools/call'' then
           (let (r, sv') = call_tool_modern env ident params sv in (Inr r, sv'))
         else (Inr (RpcError ident (- 32601) ''method not found'' None), sv))"

definition handle_legacy :: "'w mcp_env \<Rightarrow> json \<Rightarrow> string \<Rightarrow> json \<Rightarrow> 'w Server \<Rightarrow> (string + rpc_reply) \<times> 'w Server" where
  "handle_legacy env ident meth params sv = (let sd = me_serde env in
     if meth = ''ping'' then (Inr (RpcResult ident (JObject [])), sv)
     else if meth = ''tools/list'' \<and> sv_initialized sv then (list_tools sd ident params Legacy, sv)
     else if meth = ''tools/call'' \<and> sv_initialized sv then
       (let (r, sv') = call_tool_legacy env ident params sv in (Inr r, sv'))
     else if meth = ''tools/list'' \<or> meth = ''tools/call''
       then (Inr (RpcError ident (- 32002) ''server is not initialized'' None), sv)
     else (Inr (RpcError ident (- 32601) ''method not found'' None), sv))"

definition Server_respond :: "'w mcp_env \<Rightarrow> RpcRequest \<Rightarrow> 'w Server \<Rightarrow> (string + rpc_reply option) \<times> 'w Server" where
  "Server_respond env request sv =
    (if rpc_method request = ''notifications/initialized''
     then (Inr None, if sv_negotiated sv then sv\<lparr>sv_initialized := True\<rparr> else sv)
     else if rpc_method request = ''notifications/cancelled'' then (Inr None, sv)
     else (case rpc_id request of
         None \<Rightarrow> (Inr None, sv)
       | Some ident \<Rightarrow>
           if rpc_method request = ''initialize'' then
             (let (r, sv') = Server_initialize (me_serde env) ident (rpc_params request) sv in (Inr (Some r), sv'))
           else
             (let (r, sv') = (if has_modern_version (rpc_params request) \<or> rpc_method request = ''server/discover''
                  then handle_modern env ident (rpc_method request) (rpc_params request) sv
                  else handle_legacy env ident (rpc_method request) (rpc_params request) sv) in
              (map_ok Some r, sv'))))"

text \<open>\<open>write\<close> is \<^verbatim>\<open>write_json\<close>: the encoded reply, a newline and a flush on the output.\<close>

definition Server_handle :: "(rpc_reply \<Rightarrow> 'o \<Rightarrow> (string + unit) \<times> 'o) \<Rightarrow> 'w mcp_env \<Rightarrow> RpcRequest
    \<Rightarrow> 'w Server \<times> 'o \<Rightarrow> (string + unit) \<times> 'w Server \<times> 'o" where
  "Server_handle write env request s = (case Server_respond env request (fst s) of
       (Inl e, sv) \<Rightarrow> (Inl e, sv, snd s)
     | (Inr None, sv) \<Rightarrow> (Inr (), sv, snd s)
     | (Inr (Some r), sv) \<Rightarrow> (let (res, out) = write r (snd s) in (res, sv, out)))"

section \<open>The line loop\<close>

text \<open>
  Standard input is its remaining bytes and, at their end, end of file or an error. \<^verbatim>\<open>read_line\<close> on the
  bounded reader takes bytes up to a newline, the bound or the end.
\<close>

record stdin =
  si_rest :: string
  si_error :: "string option"

fun upto_newline :: "string \<Rightarrow> string" where
  "upto_newline [] = []"
| "upto_newline (c # cs) = (if c = CHR 0x0A then [c] else c # upto_newline cs)"

definition read_line :: "stdin \<Rightarrow> string + string" where
  "read_line si =
    (let bounded = take (MAX_MCP_LINE_BYTES + 1) (si_rest si); line = upto_newline bounded in
     if (line = [] \<or> last line \<noteq> CHR 0x0A) \<and> length bounded \<le> MAX_MCP_LINE_BYTES \<and> si_error si \<noteq> None
     then Inl (the (si_error si))
     else if \<not> utf8_wellformed (map code_of line) then Inl ''stream did not contain valid UTF-8''
     else Inr line)"

definition trim_line :: "string \<Rightarrow> string" where
  "trim_line line = rev (dropWhile (\<lambda>c. c = CHR 0x0A \<or> c = CHR 0x0D) (rev line))"

definition accepts_request :: "RpcRequest \<Rightarrow> bool" where
  "accepts_request r \<longleftrightarrow> rpc_jsonrpc r = ''2.0'' \<and> rpc_method r \<noteq> [] \<and> length (rpc_method r) \<le> 128 \<and> valid_id (rpc_id r)"

definition parse_line :: "serde \<Rightarrow> string \<Rightarrow> rpc_reply + RpcRequest" where
  "parse_line sd line =
    (if line = [] then Inl (RpcError JNull (- 32600) ''empty request'' None)
     else (case sd_from_str sd line of
         None \<Rightarrow> Inl (RpcError JNull (- 32700) ''parse error'' None)
       | Some value \<Rightarrow>
           if json_get value ''id'' = Some JNull then Inl (RpcError JNull (- 32600) ''invalid JSON-RPC request'' None)
           else (case sd_rpc sd value of
               Some request \<Rightarrow> if accepts_request request then Inr request
                 else Inl (RpcError JNull (- 32600) ''invalid JSON-RPC request'' None)
             | None \<Rightarrow> Inl (RpcError JNull (- 32600) ''invalid JSON-RPC request'' None))))"

lemma read_line_prefix: "read_line si = Inr line \<Longrightarrow> length line \<le> length (si_rest si)"
proof -
  have "length (upto_newline s) \<le> length s" for s by (induction s rule: upto_newline.induct) auto
  then have "length (upto_newline (take n (si_rest si))) \<le> length (si_rest si)" for n
    using le_trans length_take min.cobounded1 by (metis (no_types))
  then show "read_line si = Inr line \<Longrightarrow> length line \<le> length (si_rest si)"
    by (auto simp: read_line_def Let_def split: if_splits)
qed

lemma read_line_consumes:
  "read_line si = Inr line \<Longrightarrow> line \<noteq> [] \<Longrightarrow> length (si_rest si) - length line < length (si_rest si)"
  using read_line_prefix [of si line] by (cases line) auto

function serve_lines :: "(rpc_reply \<Rightarrow> 'o \<Rightarrow> (string + unit) \<times> 'o) \<Rightarrow> (nat \<Rightarrow> 'w mcp_env) \<Rightarrow> nat \<Rightarrow> stdin
    \<Rightarrow> 'w Server \<times> 'o \<Rightarrow> (string + unit) \<times> 'w Server \<times> 'o" where
  "serve_lines write env k si s = (case read_line si of
       Inl e \<Rightarrow> (Inl (''cannot read MCP stdio: '' @ e), s)
     | Inr line \<Rightarrow>
         if line = [] then (Inr (), s)
         else if length line > MAX_MCP_LINE_BYTES
           then (Inl (''MCP message exceeds '' @ decimal MAX_MCP_LINE_BYTES @ '' bytes''), s)
         else
           (let si' = si\<lparr>si_rest := drop (length line) (si_rest si)\<rparr>;
                (r, s') = (case parse_line (me_serde (env k)) (trim_line line) of
                   Inl reply \<Rightarrow> (let (res, out) = write reply (snd s) in (res, fst s, out))
                 | Inr request \<Rightarrow> Server_handle write (env k) request s) in
            case r of Inl e \<Rightarrow> (Inl e, s') | Inr _ \<Rightarrow> serve_lines write env (Suc k) si' s'))"
  by pat_completeness auto
termination
  by (relation "measure (\<lambda>(write, env, k, si, s). length (si_rest si))") (auto dest!: read_line_consumes)

declare serve_lines.simps [simp del]

section \<open>The advertised tools are the accepted tools\<close>

lemma call_of_unknown:
  "call_of sd name args = Inl UnknownTool \<longleftrightarrow>
    name \<notin> {''seat_status'', ''desktop_snapshot'', ''events_subscribe'', ''events_poll'', ''client_activate'', ''client_close'',
      ''workspace_switch'', ''client_workspace'', ''client_state'', ''client_geometry'', ''applications_list'',
      ''application_launch'', ''pointer_move'', ''pointer_click'', ''keyboard_type'', ''keyboard_write'', ''keyboard_key'',
      ''text_insert'', ''capture_obscured'', ''capture_region''}"
  (is "_ \<longleftrightarrow> name \<notin> ?known")
proof -
  have dec: "decoded v r \<noteq> Inl UnknownTool" for v and r :: "string + 'b"
    by (cases r) (simp_all add: decoded_def)
  show ?thesis by (simp add: call_of_def dec)
qed

lemma translate_unknown: "translate_call sd name args = Inl UnknownTool \<longleftrightarrow> call_of sd name (or_empty args) = Inl UnknownTool"
proof (cases "call_of sd name (or_empty args)")
  case (Inr call)
  then show ?thesis by (cases "validate_Call call") (simp_all add: translate_call_def)
qed (simp add: translate_call_def)

lemma tool_names: "map tl_name build_tools =
    [''seat_status'', ''desktop_snapshot'', ''events_subscribe'', ''events_poll'', ''client_activate'', ''client_close'',
     ''workspace_switch'', ''client_workspace'', ''client_state'', ''client_geometry'', ''applications_list'',
     ''application_launch'', ''pointer_move'', ''pointer_click'', ''pointer_slot_save'', ''pointer_slot_replay'',
     ''pointer_slots_list'', ''keyboard_type'', ''keyboard_key'', ''keyboard_write'', ''text_insert'',
     ''capture_obscured'', ''capture_region'']"
  by (simp add: build_tools_def desktop_tools_def input_tools_def)

lemma modern_names: "map tl_name build_modern_tools = map tl_name build_tools @ [''seat_release'']"
  by (simp add: build_modern_tools_def modern_tool_def)

text \<open>
  What \<^verbatim>\<open>tools/list\<close> announces is exactly what \<^verbatim>\<open>tools/call\<close> understands: names are distinct, the legacy list
  holds precisely the local pointer-slot tools and the tools the translation knows, whatever their arguments, and
  the modern list adds \<open>seat_release\<close> alone.
\<close>

theorem announced_tools_understood:
  "distinct (map tl_name (tools era))
   \<and> (name \<in> set (map tl_name (tools era)) \<longleftrightarrow>
       is_pointer_slot_tool name \<or> translate_call sd name args \<noteq> Inl UnknownTool
       \<or> era = Modern \<and> name = ''seat_release'')"
proof -
  have legacy: "map tl_name (tools Legacy) = map tl_name build_tools"
    and modern: "map tl_name (tools Modern) = map tl_name build_tools @ [''seat_release'']"
    by (simp_all add: tools_def modern_names)
  have "distinct (map tl_name build_tools @ [''seat_release''])" unfolding tool_names by simp
  moreover have "name \<in> set (map tl_name build_tools) \<longleftrightarrow>
      is_pointer_slot_tool name \<or> translate_call sd name args \<noteq> Inl UnknownTool"
    unfolding tool_names translate_unknown call_of_unknown is_pointer_slot_tool_def by auto
  ultimately show ?thesis by (cases era) (auto simp only: legacy modern set_append distinct_append list.set)
qed

section \<open>Every request is answered once\<close>

lemma list_tools_reply: "\<exists>r. list_tools sd ident params era = Inr r \<and> reply_id r = ident"
  by (auto simp: list_tools_def modern_result_with_def Let_def split: option.splits Era.splits)

lemma tool_reply_ids:
  "reply_id (fst (Server_initialize sd ident params sv)) = ident"
  "reply_id (Server_discover sd ident params) = ident"
  "reply_id (fst (call_tool_legacy env ident params sv)) = ident"
  "reply_id (write_modern_call_error sd ident e) = ident"
  "reply_id (modern_reply ident result) = ident"
  by (auto simp: Server_initialize_def Server_discover_def call_tool_legacy_def write_modern_call_error_def
      modern_reply_def Let_def split: option.splits sum.splits CallError.splits prod.splits)

lemma call_tool_modern_id: "reply_id (fst (call_tool_modern env ident params sv)) = ident"
proof -
  have "reply_id (fst (seat_status env c ident a sv)) = ident" for c a
    by (auto simp: seat_status_def tool_reply_ids Let_def split: sum.splits prod.splits)
  then show ?thesis
    by (auto simp: call_tool_modern_def tool_reply_ids Let_def split: option.splits sum.splits prod.splits)
qed

lemma handler_reply_ids:
  "\<exists>r. fst (handle_modern env ident meth params sv) = Inr r \<and> reply_id r = ident"
  "\<exists>r. fst (handle_legacy env ident meth params sv) = Inr r \<and> reply_id r = ident"
proof -
  show "\<exists>r. fst (handle_modern env ident meth params sv) = Inr r \<and> reply_id r = ident"
    using list_tools_reply [of "me_serde env" ident params Modern] call_tool_modern_id [of env ident params sv]
    by (auto simp: handle_modern_def tool_reply_ids Let_def
        split: sum.splits ModernMetadataError.splits prod.splits)
  show "\<exists>r. fst (handle_legacy env ident meth params sv) = Inr r \<and> reply_id r = ident"
    using list_tools_reply [of "me_serde env" ident params Legacy] tool_reply_ids(3) [of env ident params sv]
    by (auto simp: handle_legacy_def Let_def
        split: prod.splits)
qed

text \<open>
  A request with an identity that is not one of the two notifications is always answered, by exactly one reply
  that carries that identity, in both eras and in every state of the server; a notification is never answered.
\<close>

theorem requests_answered_once:
  "if rpc_method request \<in> {''notifications/initialized'', ''notifications/cancelled''} \<or> rpc_id request = None
   then fst (Server_respond env request sv) = Inr None
   else \<exists>reply. fst (Server_respond env request sv) = Inr (Some reply) \<and> Some (reply_id reply) = rpc_id request"
proof (cases "rpc_id request")
  case (Some ident)
  have "\<exists>reply. map_ok Some (fst (handle_modern env ident (rpc_method request) (rpc_params request) sv)) = Inr (Some reply)
      \<and> reply_id reply = ident"
    "\<exists>reply. map_ok Some (fst (handle_legacy env ident (rpc_method request) (rpc_params request) sv)) = Inr (Some reply)
      \<and> reply_id reply = ident"
    using handler_reply_ids [of env ident "rpc_method request" "rpc_params request" sv] by auto
  then show ?thesis
    using Some tool_reply_ids(1) [of "me_serde env" ident "rpc_params request" sv]
    by (auto simp: Server_respond_def Let_def split_beta)
qed (simp add: Server_respond_def)
section \<open>Sessions stay in step with the provider\<close>

text \<open>A seat is in step after \<open>n\<close> calls when it was opened and every one of them was answered by its own response.\<close>

inductive in_step :: "'w seat_wire \<Rightarrow> nat \<Rightarrow> 'w Seat \<Rightarrow> bool" for wire where
  opened: "Seat_from_stream wire timeouts rs w = Inr st \<Longrightarrow> in_step wire 0 st"
| called: "in_step wire n st \<Longrightarrow> Seat_call wire extended restored call st = (Inr r, st') \<Longrightarrow> in_step wire (Suc n) st'"

lemma seat_io_frame:
  "seat_send wire m st = (r, st') \<Longrightarrow> st_next st' = st_next st \<and> st_long st' = st_long st"
  "seat_receive wire st = (q, st') \<Longrightarrow> st_next st' = st_next st \<and> st_long st' = st_long st"
  by (auto simp: seat_send_def seat_receive_def Let_def split: prod.splits)

lemma from_stream_fresh:
  assumes "Seat_from_stream wire timeouts rs w = Inr st"
  shows "st_next st = 1 \<and> \<not> st_long st"
proof -
  let ?st = "\<lparr>st_reader = rs, st_writer = w, st_next = 1, st_long = False\<rparr>"
  obtain hello where h: "companion_hello = Inr hello"
    using assms by (cases companion_hello) (auto simp: Seat_from_stream_def res_simps)
  obtain r s2 where run: "st_bind (seat_send wire hello) (\<lambda>_. seat_receive wire) ?st = (r, s2)" by force
  from assms obtain frame where "r = Inr frame" "s2 = st"
    by (cases r) (auto simp: Seat_from_stream_def res_simps h run)
  with run have "st_bind (seat_send wire hello) (\<lambda>_. seat_receive wire) ?st = (Inr frame, st)" by simp
  then obtain s1 u where "seat_send wire hello ?st = (Inr u, s1)" "seat_receive wire s1 = (Inr frame, st)"
    unfolding st_bind_eq_Inr by auto
  then show ?thesis using seat_io_frame by fastforce
qed

lemma in_step_next: "in_step wire n st \<Longrightarrow> unat (st_next st) = n + 1 \<and> \<not> st_long st"
proof (induction rule: in_step.induct)
  case (opened timeouts rs w st)
  then show ?case using from_stream_fresh by fastforce
next
  case (called n st extended restored call r st')
  then show ?case using Seat_call_ok [OF called.hyps(2)] by (auto simp: checked_add_Some_iff)
qed

definition slots_ok :: "(string \<times> PointerClickRequest) list \<Rightarrow> bool" where
  "slots_ok slots \<longleftrightarrow> distinct (map fst slots) \<and> length slots \<le> MAX_POINTER_SLOTS
    \<and> (\<forall>(name, action) \<in> set slots. valid_pointer_slot_name name \<and> validate_PointerClickRequest action = Inr ())"

definition session_ok :: "'w seat_wire \<Rightarrow> 'w ProviderSession \<Rightarrow> bool" where
  "session_ok wire ps \<longleftrightarrow> (\<exists>n. in_step wire n (ps_seat ps)) \<and> slots_ok (ps_slots ps)"

definition contexts_ok :: "('a \<Rightarrow> bool) \<Rightarrow> 'a Contexts \<Rightarrow> bool" where
  "contexts_ok P c \<longleftrightarrow> cx_limit c = MAX_MODERN_CONTEXTS \<and> distinct (map fst (cx_entries c))
    \<and> length (cx_entries c) \<le> MAX_MODERN_CONTEXTS
    \<and> (\<forall>x \<in> set (cx_entries c). fst x \<noteq> 0 \<and> fst x < cx_next c \<and> P (snd x)) \<and> cx_next c \<noteq> 0"

definition server_ok :: "'w seat_wire \<Rightarrow> 'w Server \<Rightarrow> bool" where
  "server_ok wire sv \<longleftrightarrow> (\<forall>seat. sv_inherited sv = Some seat \<longrightarrow> (\<exists>n. in_step wire n seat))
    \<and> (\<forall>ps. sv_legacy sv = Some ps \<longrightarrow> session_ok wire ps) \<and> contexts_ok (session_ok wire) (sv_contexts sv)"

text \<open>Updating an association list without repeated keys.\<close>

lemma length_update: "length (AList.update k v al) = (if k \<in> fst ` set al then length al else Suc (length al))"
  by (induction al) auto

lemma set_update_subset: "set (AList.update k v al) \<subseteq> insert (k, v) (set al)"
  by (induction al) auto

lemma set_delete_subset: "set (AList.delete k al) \<subseteq> set al"
  by (auto simp: AList.delete_eq)

lemma map_of_in_keys: "map_of al k = Some v \<Longrightarrow> k \<in> fst ` set al"
  by (force dest: map_of_SomeD)

lemma contexts_get_ok: "contexts_ok P c \<Longrightarrow> Contexts_get i c = Some v \<Longrightarrow> P v \<and> i \<noteq> 0 \<and> i < cx_next c"
  by (auto simp: contexts_ok_def Contexts_get_def dest!: map_of_SomeD)

lemma contexts_remove_ok: "contexts_ok P c \<Longrightarrow> contexts_ok P (Contexts_remove i c)"
  using length_delete_le [of i "cx_entries c"] set_delete_subset [of i "cx_entries c"]
  by (auto simp: contexts_ok_def Contexts_remove_def distinct_delete)

lemma update_members:
  "(\<And>x. x \<in> set al \<Longrightarrow> Q x) \<Longrightarrow> Q (k, v) \<Longrightarrow> \<forall>x \<in> set (AList.update k v al). Q x"
  using set_update_subset [of k v al] by blast

lemma contexts_set_ok:
  assumes "contexts_ok P c" and "Contexts_get i c = Some old" and "P v"
  shows "contexts_ok P (Contexts_set i v c)"
proof -
  have key: "i \<in> fst ` set (cx_entries c)" using assms(2) by (simp add: Contexts_get_def map_of_in_keys)
  have "\<forall>x \<in> set (AList.update i v (cx_entries c)). fst x \<noteq> 0 \<and> fst x < cx_next c \<and> P (snd x)"
    using assms contexts_get_ok [OF assms(1,2)] by (intro update_members) (auto simp: contexts_ok_def)
  then show ?thesis
    using assms(1) key by (simp add: contexts_ok_def Contexts_set_def distinct_update length_update)
qed

lemma next_larger: "checked_add (n :: u64) 1 = Some m \<Longrightarrow> n < m \<and> m \<noteq> 0"
  by (auto simp: checked_add_Some_iff word_less_nat_alt unat_eq_zero [symmetric] simp del: unat_eq_zero)

lemma contexts_insert_ok:
  assumes "contexts_ok P c" and "P v" and "Contexts_insert v c = Inr (i, c')"
  shows "contexts_ok P c'" and "i = cx_next c" and "cx_next c < cx_next c'" and "Contexts_get i c = None"
    and "cx_entries c' = AList.update i v (cx_entries c)"
proof -
  from assms(3) have i: "i = cx_next c" and room: "length (cx_entries c) < cx_limit c"
    and nxt: "checked_add (cx_next c) 1 = Some (cx_next c')" and ent: "cx_entries c' = AList.update i v (cx_entries c)"
    and lim: "cx_limit c' = cx_limit c"
    by (auto simp: Contexts_insert_def Contexts_is_full_def res_simps split: if_splits)
  show "i = cx_next c" by (rule i)
  show "cx_next c < cx_next c'" using next_larger [OF nxt] by simp
  show "cx_entries c' = AList.update i v (cx_entries c)" by (rule ent)
  have fresh: "i \<notin> fst ` set (cx_entries c)" using assms(1) i by (auto simp: contexts_ok_def)
  then show "Contexts_get i c = None" by (simp add: Contexts_get_def map_of_eq_None_iff)
  have "\<forall>x \<in> set (cx_entries c'). fst x \<noteq> 0 \<and> fst x < cx_next c' \<and> P (snd x)"
    unfolding ent using assms(1,2) i next_larger [OF nxt]
    by (intro update_members) (auto simp: contexts_ok_def intro: less_trans)
  then show "contexts_ok P c'"
    using assms(1) room next_larger [OF nxt] fresh lim
    by (simp add: contexts_ok_def ent distinct_update length_update)
qed

text \<open>The contexts hand out identities as the shared interface \<open>fresh_ids\<close> demands.\<close>

interpretation context_ids: fresh_ids "Contexts_insert v" "\<lambda>c. {i. i < cx_next c}" for v :: 'a
proof
  fix s :: "'a Contexts" and i t
  assume "Contexts_insert v s = Inr (i, t)"
  then have "i = cx_next s" "checked_add (cx_next s) 1 = Some (cx_next t)"
    by (auto simp: Contexts_insert_def res_simps split: if_splits)
  with next_larger [of "cx_next s" "cx_next t"]
  show "i \<notin> {i. i < cx_next s}" and "insert i {i. i < cx_next s} \<subseteq> {i. i < cx_next t}" by auto
qed
section \<open>The server keeps its invariant\<close>

lemma call_seat_in_step:
  "in_step (me_wire env) n seat \<Longrightarrow> call_seat env call seat = (Inr out, seat') \<Longrightarrow> in_step (me_wire env) (Suc n) seat'"
  by (auto simp: call_seat_def Let_def res_simps split: prod.splits intro: in_step.called)

lemma on_seat_ok:
  "session_ok (me_wire env) ps \<Longrightarrow> on_seat (call_seat env call) ps = (Inr out, ps') \<Longrightarrow> session_ok (me_wire env) ps'"
  by (auto simp: on_seat_def session_ok_def Let_def split: prod.splits) (blast intro: call_seat_in_step)

lemma slot_save_ok:
  assumes "session_ok wire ps" and "slot_save sd args ps = (r, ps')"
  shows "session_ok wire ps'"
proof (cases "ps' = ps")
  case False
  obtain request where req: "sd_save sd args = Inr request"
    using False assms(2) by (cases "sd_save sd args") (auto simp: slot_save_def)
  define action where "action = \<lparr>pcr_target = \<lparr>tgt_client = ss_client request, tgt_generation = ss_generation request\<rparr>,
      pcr_x = ss_x request, pcr_y = ss_y request, pcr_button = ss_button request\<rparr>"
  have name: "valid_pointer_slot_name (ss_name request)" and action: "validate_PointerClickRequest action = Inr ()"
    and room: "length (ps_slots ps) < MAX_POINTER_SLOTS \<or> map_of (ps_slots ps) (ss_name request) \<noteq> None"
    and ps': "ps' = ps\<lparr>ps_slots := AList.update (ss_name request) action (ps_slots ps)\<rparr>"
    using False assms(2)
    by (auto simp: slot_save_def req action_def [symmetric] Let_def split: sum.split_asm if_split_asm)
  have "\<forall>x \<in> set (AList.update (ss_name request) action (ps_slots ps)).
      valid_pointer_slot_name (fst x) \<and> validate_PointerClickRequest (snd x) = Inr ()"
    using assms(1) name action by (intro update_members) (auto simp: session_ok_def slots_ok_def)
  moreover have "length (AList.update (ss_name request) action (ps_slots ps)) \<le> MAX_POINTER_SLOTS"
    using assms(1) room unfolding map_of_eq_None_iff
    by (auto simp: session_ok_def slots_ok_def length_update)
  ultimately show ?thesis
    using assms(1) unfolding ps' by (auto simp: session_ok_def slots_ok_def distinct_update)
qed (use assms in simp)

lemma slots_list_same: "slots_list sd args ps = (r, ps') \<Longrightarrow> ps' = ps"
  by (auto simp: slots_list_def split: sum.split_asm)

lemma slot_replay_ok:
  assumes "session_ok (me_wire env) ps" and "slot_replay env args ps = (Inr r, ps')"
  shows "session_ok (me_wire env) ps'"
proof (cases "ps' = ps")
  case False
  obtain request where req: "sd_replay (me_serde env) args = Inr request"
    using False assms(2) by (cases "sd_replay (me_serde env) args") (auto simp: slot_replay_def Let_def)
  obtain action where act: "map_of (ps_slots ps) (sr_name request) = Some action"
    using False assms(2) by (cases "map_of (ps_slots ps) (sr_name request)") (auto simp: slot_replay_def Let_def req split: if_split_asm)
  obtain call out where "on_seat (call_seat env call) ps = (Inr out, ps')"
    using False assms(2) by (auto simp: slot_replay_def Let_def req act res_simps split: if_split_asm prod.split_asm)
  then show ?thesis by (rule on_seat_ok [OF assms(1)])
qed (use assms in simp)

lemma pointer_slot_call_ok:
  assumes "session_ok (me_wire env) ps" and "pointer_slot_call env name arguments ps = (Inr r, ps')"
  shows "session_ok (me_wire env) ps'"
proof -
  consider "slot_save (me_serde env) (or_empty arguments) ps = (Inr r, ps')"
    | "slot_replay env (or_empty arguments) ps = (Inr r, ps')"
    | "slots_list (me_serde env) (or_empty arguments) ps = (Inr r, ps')" | "ps' = ps"
    using assms(2) unfolding pointer_slot_call_def Let_def by (auto split: if_split_asm)
  then show ?thesis
    by cases (use assms(1) slot_save_ok slot_replay_ok slots_list_same in \<open>blast+\<close>)
qed

lemma connect_seat_ok:
  assumes "server_ok (me_wire env) sv" and "connect_seat env sv = (r, sv')"
  shows "server_ok (me_wire env) sv'" and "r = Inr seat \<Longrightarrow> \<exists>n. in_step (me_wire env) n seat"
    and "sv_contexts sv' = sv_contexts sv" and "sv_legacy sv' = sv_legacy sv" and "sv_recovery sv' = sv_recovery sv"
  using assms
  by (auto simp: connect_seat_def server_ok_def res_simps Seat_connect_def split: option.splits
      intro: in_step.opened)

lemma new_session_ok: "in_step wire n seat \<Longrightarrow> session_ok wire (ProviderSession_new seat)"
  by (auto simp: session_ok_def ProviderSession_new_def slots_ok_def MAX_POINTER_SLOTS_def)

lemma in_context_ok:
  assumes "server_ok wire sv" and "in_context c reopen m sv = (r, sv')"
    and "\<And>ps a ps'. session_ok wire ps \<Longrightarrow> m ps = (Inr a, ps') \<Longrightarrow> session_ok wire ps'"
  shows "server_ok wire sv'"
proof (cases "Contexts_get c (sv_contexts sv)")
  case (Some ps)
  have ctx: "contexts_ok (session_ok wire) (sv_contexts sv)" using assms(1) by (simp add: server_ok_def)
  obtain q ps' where m: "m ps = (q, ps')" by force
  show ?thesis
    using assms(1,2) contexts_remove_ok [OF ctx] contexts_set_ok [OF ctx Some] assms(3) [of ps]
      contexts_get_ok [OF ctx Some] m Some
    by (cases q) (auto simp: in_context_def server_ok_def)
qed (use assms in \<open>simp add: in_context_def\<close>)

lemma in_legacy_ok:
  assumes "server_ok (me_wire env) sv" and "in_legacy env reopen recovered m sv = (r, sv')"
    and "\<And>ps a ps'. session_ok (me_wire env) ps \<Longrightarrow> m ps = (Inr a, ps') \<Longrightarrow> session_ok (me_wire env) ps'"
  shows "server_ok (me_wire env) sv'"
proof -
  obtain q sv1 where e: "ensure_legacy env sv = (q, sv1)" by force
  have ok: "server_ok (me_wire env) sv1 \<and> (\<forall>ps. q = Inr ps \<longrightarrow> session_ok (me_wire env) ps)"
  proof (cases "sv_legacy sv")
    case None
    obtain k sv2 where k: "connect_seat env sv = (k, sv2)" by force
    show ?thesis
    proof (cases k)
      case (Inr seat)
      then obtain n where "in_step (me_wire env) n seat" using connect_seat_ok(2) [OF assms(1) k] by blast
      then show ?thesis
        using e None k Inr connect_seat_ok(1) [OF assms(1) k] new_session_ok
        by (fastforce simp: ensure_legacy_def server_ok_def)
    qed (use e None k connect_seat_ok(1) [OF assms(1) k] in \<open>auto simp: ensure_legacy_def\<close>)
  qed (use e assms(1) in \<open>auto simp: ensure_legacy_def server_ok_def\<close>)
  show ?thesis
  proof (cases q)
    case (Inr ps)
    obtain x ps' where m: "m ps = (x, ps')" by force
    then show ?thesis
      using assms(2) e Inr ok assms(3) [of ps] by (cases x) (auto simp: in_legacy_def server_ok_def split: if_splits)
  qed (use assms(2) e ok in \<open>auto simp: in_legacy_def\<close>)
qed

lemma create_context_ok:
  assumes "server_ok (me_wire env) sv" and "create_modern_context env call sv = (r, sv')"
  shows "server_ok (me_wire env) sv'"
proof -
  obtain k sv1 where k: "connect_seat env sv = (k, sv1)" by force
  note con = connect_seat_ok [OF assms(1) k]
  show ?thesis
  proof (cases "Contexts_is_full (sv_contexts sv)")
    case False
    show ?thesis
    proof (cases k)
      case (Inr seat)
      then obtain n where "in_step (me_wire env) n seat" using con(2) by blast
      then have new: "session_ok (me_wire env) (ProviderSession_new seat)" by (rule new_session_ok)
      obtain q ps where q: "on_seat (call_seat env call) (ProviderSession_new seat) = (q, ps)" by force
      show ?thesis
      proof (cases q)
        case Out: (Inr out)
        have ps: "session_ok (me_wire env) ps" using on_seat_ok [OF new] q Out by blast
        have "contexts_ok (session_ok (me_wire env)) (sv_contexts sv1)" using con(1) by (simp add: server_ok_def)
        from contexts_insert_ok(1) [OF this ps] con(1) show ?thesis
          using assms(2) False k Inr q Out
          by (auto simp: create_modern_context_def server_ok_def split: sum.split_asm)
      qed (use assms(2) False k Inr q con(1) in \<open>auto simp: create_modern_context_def\<close>)
    qed (use assms(2) False k con(1) in \<open>auto simp: create_modern_context_def\<close>)
  qed (use assms in \<open>auto simp: create_modern_context_def\<close>)
qed
text \<open>The ways a request can change the server.\<close>

inductive server_step :: "'w mcp_env \<Rightarrow> 'w Server \<Rightarrow> 'w Server \<Rightarrow> bool" for env where
  idle: "server_step env sv sv"
| negotiated: "server_step env sv (sv\<lparr>sv_negotiated := True\<rparr>)"
| initialized: "server_step env sv (sv\<lparr>sv_initialized := True\<rparr>)"
| released: "server_step env sv (sv\<lparr>sv_contexts := Contexts_remove c (sv_contexts sv)\<rparr>)"
| created: "create_modern_context env call sv = (r, sv') \<Longrightarrow> server_step env sv sv'"
| modern_call: "provider_call_modern env c call sv = (r, sv') \<Longrightarrow> server_step env sv sv'"
| modern_slot: "pointer_slot_modern env c name args sv = (q, sv') \<Longrightarrow> server_step env sv sv'"
| legacy_call: "provider_call_legacy env call sv = (r, sv') \<Longrightarrow> server_step env sv sv'"
| legacy_slot: "pointer_slot_legacy env name args sv = (q, sv') \<Longrightarrow> server_step env sv sv'"

lemmas server_step_snd =
  server_step.modern_call [OF prod.collapse [symmetric]] server_step.modern_slot [OF prod.collapse [symmetric]]

lemma call_tool_legacy_step: "server_step env sv (snd (call_tool_legacy env ident params sv))"
  by (auto simp: call_tool_legacy_def Let_def split: option.split sum.split CallError.split prod.split
      intro: server_step.intros)

lemma call_tool_modern_step: "server_step env sv (snd (call_tool_modern env ident params sv))"
proof -
  have "server_step env sv (snd (seat_release sd c a sv))" for sd c a
    by (auto simp: seat_release_def split: option.split intro: server_step.intros)
  moreover have "server_step env sv (snd (seat_status env c ident a sv))" for c a
    by (auto simp: seat_status_def Let_def split: sum.split prod.split intro: server_step.intros)
  ultimately show ?thesis
    by (auto simp: call_tool_modern_def Let_def split_beta split: option.split sum.split
        intro: server_step.intros server_step_snd)
qed

lemma respond_step: "server_step env sv (snd (Server_respond env request sv))"
  using call_tool_legacy_step [of env sv] call_tool_modern_step [of env sv]
  by (auto simp: Server_respond_def Server_initialize_def handle_modern_def handle_legacy_def Let_def split_beta
      split: option.split sum.split ModernMetadataError.split intro: server_step.intros)

lemma server_step_ok:
  assumes "server_step env sv sv'" and "server_ok (me_wire env) sv"
  shows "server_ok (me_wire env) sv'"
  using assms
proof (cases rule: server_step.cases)
  case (released c)
  then show ?thesis using assms(2) contexts_remove_ok [of "session_ok (me_wire env)" "sv_contexts sv" c]
    by (auto simp: server_ok_def)
next
  case (created call r)
  then show ?thesis using create_context_ok [OF assms(2)] by blast
next
  case (modern_call c call r)
  then show ?thesis
    unfolding provider_call_modern_def using in_context_ok [OF assms(2)] on_seat_ok by blast
next
  case (modern_slot c name args q)
  then show ?thesis
    unfolding pointer_slot_modern_def using in_context_ok [OF assms(2)] pointer_slot_call_ok by blast
next
  case (legacy_call call r)
  then show ?thesis
    using assms(2)
    by (auto simp: provider_call_legacy_def Let_def split: if_split_asm dest: in_legacy_ok [OF assms(2) _ on_seat_ok])
next
  case (legacy_slot name args q)
  then show ?thesis
    using assms(2)
    by (auto simp: pointer_slot_legacy_def split: if_split_asm dest: in_legacy_ok [OF assms(2) _ pointer_slot_call_ok])
qed (auto simp: server_ok_def)

text \<open>A run of the server over any requests, each in its own environment.\<close>

fun mcp_run :: "('w mcp_env \<times> RpcRequest) list \<Rightarrow> 'w Server \<Rightarrow> 'w Server" where
  "mcp_run [] sv = sv"
| "mcp_run ((env, request) # rest) sv = mcp_run rest (snd (Server_respond env request sv))"

lemma mcp_run_ok:
  "server_ok wire sv \<Longrightarrow> \<forall>x \<in> set reqs. me_wire (fst x) = wire \<Longrightarrow> server_ok wire (mcp_run reqs sv)"
proof (induction reqs sv rule: mcp_run.induct)
  case (2 env request rest sv)
  then show ?case using server_step_ok [OF respond_step [of env sv request]] by simp
qed simp

lemma new_server_ok:
  "(\<And>seat. inherited = Some seat \<Longrightarrow> \<exists>n. in_step wire n seat) \<Longrightarrow> server_ok wire (Server_new socket inherited)"
  by (auto simp: server_ok_def Server_new_def contexts_ok_def Contexts_new_def)

text \<open>
  C10. Sessions never get out of step: whatever requests the companion handles and whatever the provider answers,
  every session it still holds, in either era, was opened properly and had each of its calls answered by the response
  with that call's identity, so no stale frame can be taken for a later answer; it holds at most eight contexts with
  distinct identities already handed out, and each session at most 32 slots with valid names and actions.
\<close>

theorem mcp_sessions_in_step:
  assumes "\<And>seat. inherited = Some seat \<Longrightarrow> Seat_from_stream wire timeouts rs w = Inr seat"
    and "\<forall>x \<in> set reqs. me_wire (fst x) = wire"
  shows "server_ok wire (mcp_run reqs (Server_new socket inherited))"
  using assms by (intro mcp_run_ok new_server_ok) (auto intro: in_step.opened)
section \<open>Dead contexts stay dead\<close>

text \<open>Identities only move forward, and a context that is gone does not come back.\<close>

definition forgets :: "'a Contexts \<Rightarrow> 'a Contexts \<Rightarrow> bool" where
  "forgets c c' \<longleftrightarrow> cx_next c \<le> cx_next c'
    \<and> (\<forall>i. i < cx_next c \<longrightarrow> Contexts_get i c = None \<longrightarrow> Contexts_get i c' = None)"

lemma forgets_refl [simp]: "forgets c c"
  by (simp add: forgets_def)

lemma forgets_trans: "forgets a b \<Longrightarrow> forgets b c \<Longrightarrow> forgets a c"
  by (fastforce simp: forgets_def)

lemma forgets_remove: "forgets c (Contexts_remove i c)"
  by (simp add: forgets_def Contexts_remove_def Contexts_get_def AList.delete_conv')

lemma forgets_set: "Contexts_get i c = Some old \<Longrightarrow> forgets c (Contexts_set i v c)"
  by (auto simp: forgets_def Contexts_set_def Contexts_get_def AList.update_conv')

lemma forgets_insert: "Contexts_insert v c = Inr (i, c') \<Longrightarrow> forgets c c'"
  by (auto simp: forgets_def Contexts_insert_def Contexts_get_def AList.update_conv' res_simps split: if_splits
      dest!: next_larger)

lemma in_context_forgets: "in_context c reopen m sv = (r, sv') \<Longrightarrow> forgets (sv_contexts sv) (sv_contexts sv')"
  by (auto simp: in_context_def forgets_remove forgets_set split: option.splits prod.splits sum.splits if_splits)

lemma connect_seat_frame:
  "connect_seat env sv = (r, sv') \<Longrightarrow>
    sv_contexts sv' = sv_contexts sv \<and> sv_legacy sv' = sv_legacy sv \<and> sv_recovery sv' = sv_recovery sv"
  by (auto simp: connect_seat_def split: option.splits)

lemma in_legacy_contexts: "in_legacy env reopen recovered m sv = (r, sv') \<Longrightarrow> sv_contexts sv' = sv_contexts sv"
  by (auto simp: in_legacy_def ensure_legacy_def split: option.splits prod.splits sum.splits if_splits
      dest!: connect_seat_frame)

lemma create_frame:
  assumes "create_modern_context env call sv = (r, sv')"
  shows "forgets (sv_contexts sv) (sv_contexts sv') \<and> sv_legacy sv' = sv_legacy sv \<and> sv_recovery sv' = sv_recovery sv"
proof -
  obtain k sv1 where k: "connect_seat env sv = (k, sv1)" by force
  note con = connect_seat_frame [OF k]
  show ?thesis
  proof (cases k)
    case (Inr seat)
    obtain q ps where "on_seat (call_seat env call) (ProviderSession_new seat) = (q, ps)" by force
    then show ?thesis
      using assms k Inr con forgets_insert [of ps "sv_contexts sv1"]
      by (cases q) (auto simp: create_modern_context_def split: if_split_asm sum.split_asm)
  qed (use assms k con in \<open>auto simp: create_modern_context_def split: if_split_asm\<close>)
qed

lemma server_step_forgets: "server_step env sv sv' \<Longrightarrow> forgets (sv_contexts sv) (sv_contexts sv')"
  by (induction rule: server_step.induct)
    (auto simp: forgets_remove provider_call_modern_def pointer_slot_modern_def provider_call_legacy_def
      pointer_slot_legacy_def Let_def in_context_forgets create_frame dest: in_legacy_contexts split: if_split_asm)

lemma mcp_run_forgets: "forgets (sv_contexts sv) (sv_contexts (mcp_run reqs sv))"
  by (induction reqs sv rule: mcp_run.induct)
    (auto intro: forgets_trans [OF server_step_forgets [OF respond_step]])

text \<open>
  C11. A context that was released, or whose session failed, is never valid again: an identity that the companion has
  handed out and that no longer names a session names none after any further requests, is never handed out again,
  and a call that quotes it is refused as stale without touching the server or any provider connection.
\<close>

theorem dead_context_stays_dead:
  assumes "c < cx_next (sv_contexts sv)" and "Contexts_get c (sv_contexts sv) = None"
  shows "provider_call_modern env c call (mcp_run reqs sv) = (Inl stale_context, mcp_run reqs sv)
    \<and> pointer_slot_modern env c name args (mcp_run reqs sv) = (Inl stale_context, mcp_run reqs sv)
    \<and> (create_modern_context env' call' (mcp_run reqs sv) = (Inr (c', out), sv') \<longrightarrow> c' \<noteq> c)"
proof -
  note fg = mcp_run_forgets [of sv reqs]
  have gone: "Contexts_get c (sv_contexts (mcp_run reqs sv)) = None" "c < cx_next (sv_contexts (mcp_run reqs sv))"
    using fg assms by (auto simp: forgets_def)
  have "c' \<noteq> c" if new: "create_modern_context env' call' (mcp_run reqs sv) = (Inr (c', out), sv')"
  proof -
    obtain k sv1 where k: "connect_seat env' (mcp_run reqs sv) = (k, sv1)" by force
    then have "c' = cx_next (sv_contexts (mcp_run reqs sv))"
      using new connect_seat_frame [OF k]
      by (auto simp: create_modern_context_def Contexts_insert_def res_simps split: if_split_asm sum.split_asm prod.split_asm)
    with gone show ?thesis by simp
  qed
  then show ?thesis using gone by (simp add: provider_call_modern_def pointer_slot_modern_def in_context_def)
qed

definition asks_status :: "'w mcp_env \<Rightarrow> RpcRequest \<Rightarrow> bool" where
  "asks_status env request \<longleftrightarrow> rpc_method request = ''tools/call'' \<and> \<not> has_modern_version (rpc_params request)
    \<and> (case sd_call (me_serde env) (rpc_params request) of Some p \<Rightarrow> ct_name p = ''seat_status'' | None \<Rightarrow> False)"
lemma call_of_status: "call_of sd name args = Inr Call_SeatStatus \<Longrightarrow> name = ''seat_status''"
  by (auto simp: call_of_def decoded_def res_simps split: if_split_asm)

lemma translate_status: "translate_call sd name args = Inr Call_SeatStatus \<Longrightarrow> name = ''seat_status''"
  by (auto simp: translate_call_def res_simps dest: call_of_status)

definition same_legacy :: "'w Server \<Rightarrow> 'w Server \<Rightarrow> bool" where
  "same_legacy sv sv' \<longleftrightarrow> sv_legacy sv' = sv_legacy sv \<and> sv_recovery sv' = sv_recovery sv"

lemma same_legacy_modern:
  "create_modern_context env call sv = (r, sv') \<Longrightarrow> same_legacy sv sv'"
  "in_context c reopen m sv = (q, sv') \<Longrightarrow> same_legacy sv sv'"
  using create_frame [of env call sv r sv']
  by (auto simp: same_legacy_def in_context_def split: option.splits prod.splits sum.splits if_splits)

lemma same_legacy_refl [simp]: "same_legacy sv sv"
  by (simp add: same_legacy_def)

lemmas same_legacy_effects =
  same_legacy_modern(1) [OF prod.collapse [symmetric]] same_legacy_modern(2) [OF prod.collapse [symmetric]]

lemma same_legacy_snd:
  "same_legacy sv (snd (provider_call_modern env c call sv))" "same_legacy sv (snd (pointer_slot_modern env c name args sv))"
  "same_legacy sv (snd (seat_release sd c' a sv))" "same_legacy sv (snd (seat_status env c' ident a sv))"
proof -
  show "same_legacy sv (snd (seat_release sd c' a sv))"
    by (auto simp: seat_release_def same_legacy_def split: option.split)
qed (auto simp: provider_call_modern_def pointer_slot_modern_def seat_status_def Let_def split_beta
    same_legacy_effects split: sum.split)

lemma call_tool_modern_legacy: "same_legacy sv (snd (call_tool_modern env ident params sv))"
  by (auto simp: call_tool_modern_def Let_def split_beta same_legacy_snd split: option.split sum.split)

lemma call_tool_legacy_recovery:
  assumes "sv_recovery sv" and "\<not> (case sd_call (me_serde env) params of Some p \<Rightarrow> ct_name p = ''seat_status'' | None \<Rightarrow> False)"
  shows "snd (call_tool_legacy env ident params sv) = sv
    \<and> (me_serde env' = me_serde env \<longrightarrow> call_tool_legacy env' ident params sv = call_tool_legacy env ident params sv)"
proof (cases "sd_call (me_serde env) params")
  case (Some p)
  then have "ct_name p \<noteq> ''seat_status''" using assms(2) by simp
  then have "call \<noteq> Call_SeatStatus" if "translate_call (me_serde env) (ct_name p) (ct_arguments p) = Inr call" for call
    using that translate_status by blast
  then show ?thesis
    using assms(1) Some
    by (auto simp: call_tool_legacy_def pointer_slot_legacy_def provider_call_legacy_def Let_def
        split: sum.split CallError.split)
qed (simp add: call_tool_legacy_def)

lemma handle_modern_same: "same_legacy sv (snd (handle_modern env ident meth params sv))"
  using call_tool_modern_legacy [of sv env ident params]
  by (auto simp: handle_modern_def Let_def split_beta same_legacy_def split: sum.split ModernMetadataError.split)

lemma respond_recovery:
  assumes "sv_recovery sv" and "\<not> asks_status env request"
  shows "same_legacy sv (snd (Server_respond env request sv))"
proof -
  have legacy: "same_legacy sv (snd (handle_legacy env ident (rpc_method request) (rpc_params request) sv))"
    if "\<not> has_modern_version (rpc_params request)" for ident
    using call_tool_legacy_recovery [OF assms(1), THEN conjunct1, of env "rpc_params request" ident] assms(2) that
    by (auto simp: handle_legacy_def asks_status_def Let_def split_beta same_legacy_def)
  show ?thesis
    using handle_modern_same [of sv env] legacy
    by (auto simp: Server_respond_def Server_initialize_def Let_def split_beta same_legacy_def split: option.split)
qed

text \<open>
  A request ends the legacy session: the session that was open is gone afterwards, or the request is a
  legacy tool call for which a session was there or could be opened, and in that session the call
  failed or its answer asked for a reconnect.
\<close>

definition legacy_call_lost :: "'w mcp_env \<Rightarrow> RpcRequest \<Rightarrow> 'w Server \<Rightarrow> bool" where
  "legacy_call_lost env request sv \<longleftrightarrow>
    rpc_method request = ''tools/call'' \<and> rpc_id request \<noteq> None \<and> \<not> has_modern_version (rpc_params request)
    \<and> sv_initialized sv
    \<and> (\<exists>p ps sv1. sd_call (me_serde env) (rpc_params request) = Some p \<and> ensure_legacy env sv = (Inr ps, sv1)
      \<and> (if is_pointer_slot_tool (ct_name p)
         then \<not> sv_recovery sv
           \<and> (case fst (pointer_slot_call env (ct_name p) (ct_arguments p) ps) of
                Inl _ \<Rightarrow> True | Inr result \<Rightarrow> requires_provider_reconnect result)
         else (\<exists>call. translate_call (me_serde env) (ct_name p) (ct_arguments p) = Inr call
           \<and> (sv_recovery sv \<longrightarrow> call = Call_SeatStatus)
           \<and> (case fst (on_seat (call_seat env call) ps) of
                Inl _ \<Rightarrow> True | Inr out \<Rightarrow> outcome_requires_reconnect out))))"

definition ends_legacy :: "'w mcp_env \<Rightarrow> RpcRequest \<Rightarrow> 'w Server \<Rightarrow> bool" where
  "ends_legacy env request sv \<longleftrightarrow>
    sv_legacy sv \<noteq> None \<and> sv_legacy (snd (Server_respond env request sv)) = None \<or> legacy_call_lost env request sv"

lemma in_legacy_ends:
  assumes "sv_legacy sv \<noteq> None \<and> sv_legacy (snd (in_legacy env reopen recovered m sv)) = None
    \<or> (\<exists>ps sv1. ensure_legacy env sv = (Inr ps, sv1) \<and> (case fst (m ps) of Inl _ \<Rightarrow> True | Inr a \<Rightarrow> reopen a))"
  shows "sv_legacy (snd (in_legacy env reopen recovered m sv)) = None
    \<and> sv_recovery (snd (in_legacy env reopen recovered m sv))"
proof -
  obtain ps sv1 where e: "ensure_legacy env sv = (Inr ps, sv1)"
    using assms by (cases "sv_legacy sv") (auto simp: ensure_legacy_def)
  obtain r ps' where "m ps = (r, ps')" by fastforce
  then show ?thesis using assms e by (cases r) (auto simp: in_legacy_def split: if_splits)
qed

lemma legacy_calls_end:
  assumes "sv_legacy sv \<noteq> None" and "sv_legacy (snd (call_tool_legacy env ident params sv)) = None"
  shows "sv_recovery (snd (call_tool_legacy env ident params sv))"
proof (cases "sd_call (me_serde env) params")
  case (Some p)
  have "sv_recovery (snd (provider_call_legacy env call sv))" if "sv_legacy (snd (provider_call_legacy env call sv)) = None" for call
    using that assms(1)
    by (auto simp: provider_call_legacy_def Let_def intro!: in_legacy_ends [THEN conjunct2] split: if_splits)
  moreover have "sv_recovery (snd (pointer_slot_legacy env name args sv))" if "sv_legacy (snd (pointer_slot_legacy env name args sv)) = None" for name args
    using that assms(1)
    by (auto simp: pointer_slot_legacy_def intro!: in_legacy_ends [THEN conjunct2] split: if_splits)
  ultimately show ?thesis
    using assms Some by (auto simp: call_tool_legacy_def Let_def split_beta split: if_splits sum.splits CallError.splits)
qed (use assms in \<open>simp add: call_tool_legacy_def\<close>)

lemma lost_calls_end:
  assumes "legacy_call_lost env request sv"
  shows "sv_legacy (snd (call_tool_legacy env ident (rpc_params request) sv)) = None
    \<and> sv_recovery (snd (call_tool_legacy env ident (rpc_params request) sv))"
proof -
  from assms obtain p ps sv1 where p: "sd_call (me_serde env) (rpc_params request) = Some p" and e: "ensure_legacy env sv = (Inr ps, sv1)"
    and rest: "if is_pointer_slot_tool (ct_name p)
         then \<not> sv_recovery sv
           \<and> (case fst (pointer_slot_call env (ct_name p) (ct_arguments p) ps) of
                Inl _ \<Rightarrow> True | Inr result \<Rightarrow> requires_provider_reconnect result)
         else (\<exists>call. translate_call (me_serde env) (ct_name p) (ct_arguments p) = Inr call
           \<and> (sv_recovery sv \<longrightarrow> call = Call_SeatStatus)
           \<and> (case fst (on_seat (call_seat env call) ps) of
                Inl _ \<Rightarrow> True | Inr out \<Rightarrow> outcome_requires_reconnect out))"
    unfolding legacy_call_lost_def by blast
  show ?thesis
  proof (cases "is_pointer_slot_tool (ct_name p)")
    case True
    with rest have "\<not> sv_recovery sv" and lost: "case fst (pointer_slot_call env (ct_name p) (ct_arguments p) ps) of
                Inl _ \<Rightarrow> True | Inr result \<Rightarrow> requires_provider_reconnect result" by simp_all
    then show ?thesis
      using p True in_legacy_ends [OF disjI2, where m = "pointer_slot_call env (ct_name p) (ct_arguments p)" and reopen = requires_provider_reconnect] e
      by (auto simp: call_tool_legacy_def pointer_slot_legacy_def Let_def split_beta)
  next
    case False
    with rest obtain call where call: "translate_call (me_serde env) (ct_name p) (ct_arguments p) = Inr call"
      "sv_recovery sv \<longrightarrow> call = Call_SeatStatus" and lost: "case fst (on_seat (call_seat env call) ps) of
                Inl _ \<Rightarrow> True | Inr out \<Rightarrow> outcome_requires_reconnect out" by auto
    then show ?thesis
      using p False in_legacy_ends [OF disjI2, where m = "on_seat (call_seat env call)" and reopen = outcome_requires_reconnect] e
      by (auto simp: call_tool_legacy_def provider_call_legacy_def Let_def split_beta)
  qed
qed

lemma respond_ends:
  assumes "ends_legacy env request sv"
  shows "sv_legacy (snd (Server_respond env request sv)) = None \<and> sv_recovery (snd (Server_respond env request sv))"
proof (cases "legacy_call_lost env request sv")
  case True
  then have "rpc_method request = ''tools/call''" "rpc_id request \<noteq> None" "\<not> has_modern_version (rpc_params request)"
    "sv_initialized sv" by (simp_all add: legacy_call_lost_def)
  then have "\<exists>ident. snd (Server_respond env request sv) = snd (call_tool_legacy env ident (rpc_params request) sv)"
    by (auto simp: Server_respond_def handle_legacy_def Let_def split_beta)
  then show ?thesis using lost_calls_end [OF True] by auto
next
  case False
  then have gone: "sv_legacy sv \<noteq> None" "sv_legacy (snd (Server_respond env request sv)) = None"
    using assms by (simp_all add: ends_legacy_def)
  have "same_legacy sv (snd (Server_respond env request sv))
      \<or> (\<exists>ident. snd (Server_respond env request sv) = snd (call_tool_legacy env ident (rpc_params request) sv))"
    using handle_modern_same [of sv env]
    by (auto simp: Server_respond_def Server_initialize_def handle_legacy_def Let_def split_beta same_legacy_def split: option.split)
  then show ?thesis using gone legacy_calls_end [OF gone(1), of env] by (auto simp: same_legacy_def)
qed

lemma recovery_independent:
  assumes "sv_recovery sv" and "\<not> asks_status env request" and "me_serde env' = me_serde env"
    and "\<not> has_modern_version (rpc_params request)" and "rpc_method request \<noteq> ''server/discover''"
  shows "Server_respond env' request sv = Server_respond env request sv"
proof -
  have "call_tool_legacy env' ident (rpc_params request) sv = call_tool_legacy env ident (rpc_params request) sv"
    if "rpc_method request = ''tools/call''" for ident
    using call_tool_legacy_recovery [OF assms(1), of env "rpc_params request" ident env'] assms(2-4) that by (simp add: asks_status_def)
  then show ?thesis
    using assms(3-5) by (simp add: Server_respond_def handle_legacy_def Let_def split: option.split)
qed

lemma run_recovery:
  assumes "sv_recovery sv" and "\<forall>x \<in> set reqs. \<not> asks_status (fst x) (snd x)"
  shows "sv_recovery (mcp_run reqs sv) \<and> sv_legacy (mcp_run reqs sv) = sv_legacy sv"
  using assms
proof (induction reqs sv rule: mcp_run.induct)
  case (2 env request rest sv)
  then have "same_legacy sv (snd (Server_respond env request sv))" using respond_recovery [of sv env request] by simp
  then show ?case using 2 by (simp add: same_legacy_def)
qed simp

text \<open>
  C28. When a legacy session ends, by a failed call or an answer that asks for a reconnect, nothing is
  sent on behalf of the legacy client until it asks for the seat's status: over any further requests
  without a legacy call of \<open>seat_status\<close> no legacy session is held and recovery stays demanded, and
  the next legacy request, if it is not such a call either, gets an answer and leaves a state that do
  not depend on the provider at all, whatever it would answer and whether or not it can be reached.
\<close>

theorem recovery_waits_for_status:
  assumes "ends_legacy env request sv" and "\<forall>x \<in> set reqs. \<not> asks_status (fst x) (snd x)"
    and "sv' = mcp_run ((env, request) # reqs) sv"
  shows "sv_legacy sv' = None \<and> sv_recovery sv'
    \<and> (\<forall>env1 env2 later. me_serde env1 = me_serde env2 \<and> \<not> asks_status env1 later
        \<and> \<not> has_modern_version (rpc_params later) \<and> rpc_method later \<noteq> ''server/discover''
        \<longrightarrow> Server_respond env1 later sv' = Server_respond env2 later sv')"
proof -
  have "sv_legacy sv' = None \<and> sv_recovery sv'"
    using respond_ends [OF assms(1)] run_recovery [OF _ assms(2)] by (simp add: assms(3))
  then show ?thesis
    using recovery_independent [of sv'] by (metis)
qed

section \<open>A concrete companion\<close>

definition demo_welcome :: Welcome where
  "demo_welcome = \<lparr>wel_protocol = PROTOCOL_NAME, wel_revision = PROTOCOL_REVISION, wel_session = 3,
     wel_provider = \<lparr>provider_name = ''p'', provider_version = ''1''\<rparr>, wel_backend = X11Ewmh, wel_assurance = Tier0,
     wel_features = [], wel_granted = [],
     wel_limits = \<lparr>lim_request_frame_bytes = 1, lim_response_frame_bytes = 1, lim_events_per_poll = 1, lim_poll_wait_ms = 1\<rparr>\<rparr>"

definition demo_wire2 :: "unit seat_wire" where
  "demo_wire2 = \<lparr>sw_to_vec = (\<lambda>_. Inr [65]),
     sw_from_slice = (\<lambda>bs. if bs = [1] then Inr (SM_Welcome demo_welcome) else Inr (SM_Response demo_response)),
     sw_write_all = (\<lambda>_ _. (Inr (), ()))\<rparr>"

definition demo_serde :: serde where
  "demo_serde = \<lparr>sd_from_str = (\<lambda>_. None), sd_show = (\<lambda>_. []), sd_outcome = (\<lambda>_. Inr JNull), sd_target = (\<lambda>_. JNull),
     sd_region = (\<lambda>_. JNull), sd_format = (\<lambda>_. JNull), sd_click = (\<lambda>_. JNull), sd_rpc = (\<lambda>_. None),
     sd_initialize = (\<lambda>_. None), sd_discover = (\<lambda>_. None), sd_list = (\<lambda>_. None),
     sd_call = (\<lambda>_. Some \<lparr>ct_name = ''seat_status'', ct_arguments = None\<rparr>), sd_save = (\<lambda>_. Inl []), sd_replay = (\<lambda>_. Inl []),
     sd_empty = (\<lambda>_. Inr ()), sd_subscribe = (\<lambda>_. Inl []), sd_poll = (\<lambda>_. Inl []), sd_target_request = (\<lambda>_. Inl []),
     sd_workspace = (\<lambda>_. Inl []), sd_client_workspace = (\<lambda>_. Inl []), sd_client_state = (\<lambda>_. Inl []),
     sd_client_geometry = (\<lambda>_. Inl []), sd_applications = (\<lambda>_. Inl []), sd_launch = (\<lambda>_. Inl []),
     sd_pointer_move = (\<lambda>_. Inl []), sd_pointer_click = (\<lambda>_. Inl []), sd_type = (\<lambda>_. Inl []), sd_write = (\<lambda>_. Inl []),
     sd_key = (\<lambda>_. Inl []), sd_text = (\<lambda>_. Inl []), sd_capture_region = (\<lambda>_. Inl [])\<rparr>"

definition demo_mcp :: "unit mcp_env" where
  "demo_mcp = \<lparr>me_serde = demo_serde, me_wire = demo_wire2, me_discovery = demo_discovery,
     me_connected = (\<lambda>_. Inr ([Chunk [0, 0, 0, 1], Chunk [1], Chunk [0, 0, 0, 1], Chunk [2]], ())), me_timeouts = Inr (),
     me_extend = Inr (), me_restore = Inr ()\<rparr>"

definition demo_meta :: json where
  "demo_meta = JObject [(''_meta'', JObject [(MODERN_PROTOCOL_VERSION, JString MODERN_MCP_VERSION),
     (MODERN_CLIENT_CAPABILITIES, JObject [])])]"

definition demo_ask_status :: RpcRequest where
  "demo_ask_status = \<lparr>rpc_jsonrpc = ''2.0'', rpc_id = Some (JString ''a''), rpc_method = ''tools/call'', rpc_params = demo_meta\<rparr>"

definition demo_ping :: RpcRequest where
  "demo_ping = \<lparr>rpc_jsonrpc = ''2.0'', rpc_id = Some (JString ''a''), rpc_method = ''ping'', rpc_params = JNull\<rparr>"

lemma demo_opened: "Seat_connect demo_wire2 ''/s'' (me_connected demo_mcp ''/s'') (Inr ()) =
    Inr \<lparr>st_reader = [Chunk [0, 0, 0, 1], Chunk [2]], st_writer = (), st_next = 1, st_long = False\<rparr>"
proof -
  have "\<exists>h. companion_hello = Inr (CM_Hello h) \<and> validate_Hello h = Inr ()"
    by (simp add: companion_hello_def BoundedList_new_def requested_capabilities_def MAX_CAPABILITIES_def seat_text_def
        BoundedText_new_def PROTOCOL_NAME_def MAX_NAME_BYTES_def MCP_VERSION_def MAX_VERSION_BYTES_def MAX_PURPOSE_BYTES_def
        validate_Hello_def validate_PeerInfo_def less_Capability_def)
  then obtain h where hello: "companion_hello = Inr (CM_Hello h)" "validate_Hello h = Inr ()" by blast
  have "validate_Welcome demo_welcome = Inr ()"
    by (simp add: demo_welcome_def validate_Welcome_def validate_ProviderInfo_def validate_Limits_def
        MAX_REQUEST_FRAME_BYTES_def MAX_RESPONSE_FRAME_BYTES_def MAX_EVENTS_def MAX_POLL_WAIT_MS_def)
  then show ?thesis
    by (simp add: Seat_connect_def Seat_from_stream_def demo_mcp_def st_bind_unfold seat_send_def seat_receive_def
        write_frame_def demo_wire2_def MAX_REQUEST_FRAME_BYTES_def unat_u32_MAX demo_response_frame hello)
qed
definition demo_live :: "unit ProviderSession" where
  "demo_live = ProviderSession_new \<lparr>st_reader = [], st_writer = (), st_next = 2, st_long = False\<rparr>"

lemma demo_created:
  "create_modern_context demo_mcp Call_SeatStatus (Server_new None None) = (Inr (1, resp_outcome demo_response),
    (Server_new None None)\<lparr>sv_contexts := \<lparr>cx_limit = 8, cx_next = 2, cx_entries = [(1, demo_live)]\<rparr>\<rparr>)"
proof -
  have valid: "validate_Response demo_response = Inr ()" "resp_id demo_response = 1"
    by (simp_all add: demo_response_def validate_Response_def validate_ProtocolError_def)
  have "checked_add (1 :: u64) 1 = Some 2" by (simp add: checked_add_def)
  moreover have "connect_seat demo_mcp (Server_new None None) =
      (Inr \<lparr>st_reader = [Chunk [0, 0, 0, 1], Chunk [2]], st_writer = (), st_next = 1, st_long = False\<rparr>, Server_new None None)"
    using demo_discovered demo_opened
    by (simp add: connect_seat_def Server_new_def ok_or_def) (simp add: demo_mcp_def)
  ultimately show ?thesis
    by (simp add: create_modern_context_def Contexts_is_full_def)
      (simp add: Server_new_def Contexts_new_def MAX_MODERN_CONTEXTS_def demo_mcp_def on_seat_def call_seat_def
        ProviderSession_new_def Seat_call_def is_long_input_def st_bind_unfold st_run ok_or_def seat_send_def write_frame_def
        demo_wire2_def validate_Request_def MAX_REQUEST_FRAME_BYTES_def unat_u32_MAX seat_receive_def demo_response_frame
        valid response_for_def Contexts_insert_def Contexts_is_full_def demo_live_def)
qed
lemma demo_metadata: "has_modern_version demo_meta" "validate_modern_metadata demo_meta = Inr ()"
  by (simp_all add: has_modern_version_def validate_modern_metadata_def modern_metadata_def demo_meta_def json_get_def as_object_def
      ok_or_def as_str_def MODERN_PROTOCOL_VERSION_def MODERN_CLIENT_CAPABILITIES_def MODERN_CLIENT_INFO_def)

lemma demo_mcp_run: "mcp_run [(demo_mcp, demo_ask_status)] (Server_new None None) =
    (Server_new None None)\<lparr>sv_contexts := \<lparr>cx_limit = 8, cx_next = 2, cx_entries = [(1, demo_live)]\<rparr>\<rparr>"
proof -
  have "translate_call demo_serde ''seat_status'' args = Inr Call_SeatStatus" for args
    by (simp add: translate_call_def call_of_def decoded_def demo_serde_def)
  moreover have "sd_call demo_serde p = Some \<lparr>ct_name = ''seat_status'', ct_arguments = None\<rparr>" for p
    by (simp add: demo_serde_def)
  moreover have "me_serde demo_mcp = demo_serde" by (simp add: demo_mcp_def)
  ultimately have "snd (call_tool_modern demo_mcp i p (Server_new None None)) =
      snd (create_modern_context demo_mcp Call_SeatStatus (Server_new None None))" for i p
    by (simp add: call_tool_modern_def take_context_def seat_status_def Let_def split_beta)
  then show ?thesis
    by (simp add: Server_respond_def demo_ask_status_def handle_modern_def demo_metadata demo_created Let_def split_beta)
qed

theorem mcp_sessions_in_step_witness:
  "server_ok demo_wire2 ((Server_new None None)\<lparr>sv_contexts := \<lparr>cx_limit = 8, cx_next = 2, cx_entries = [(1, demo_live)]\<rparr>\<rparr>)"
proof -
  have "\<forall>x \<in> set [(demo_mcp, demo_ask_status)]. me_wire (fst x) = demo_wire2" by (simp add: demo_mcp_def)
  from mcp_sessions_in_step [of None demo_wire2 "Inr ()" "[]" "()", OF _ this, of None]
  show ?thesis unfolding demo_mcp_run by simp
qed

definition demo_released :: "unit Server" where
  "demo_released = (Server_new None None)\<lparr>sv_contexts :=
     Contexts_remove 1 \<lparr>cx_limit = 8, cx_next = 2, cx_entries = [(1, demo_live)]\<rparr>\<rparr>"

theorem dead_context_stays_dead_witness:
  "provider_call_modern demo_mcp 1 Call_DesktopSnapshot (mcp_run [(demo_mcp, demo_ask_status)] demo_released)
    = (Inl stale_context, mcp_run [(demo_mcp, demo_ask_status)] demo_released)"
proof -
  have "1 < cx_next (sv_contexts demo_released)" "Contexts_get 1 (sv_contexts demo_released) = None"
    by (simp_all add: demo_released_def Contexts_remove_def Contexts_get_def)
  from dead_context_stays_dead [OF this] show ?thesis by blast
qed

text \<open>
  The provider has closed the connection of the legacy session; the next call loses it, and a snapshot
  requested then is refused although a new provider would answer.
\<close>

definition demo_legacy :: "unit Server" where
  "demo_legacy = (Server_new None None)\<lparr>sv_legacy := Some demo_live, sv_negotiated := True, sv_initialized := True\<rparr>"

definition demo_snapshot_env :: "unit mcp_env" where
  "demo_snapshot_env = demo_mcp\<lparr>me_serde := demo_serde\<lparr>sd_call := (\<lambda>_. Some \<lparr>ct_name = ''desktop_snapshot'', ct_arguments = None\<rparr>)\<rparr>\<rparr>"

definition demo_tool_call :: RpcRequest where
  "demo_tool_call = \<lparr>rpc_jsonrpc = ''2.0'', rpc_id = Some (JString ''a''), rpc_method = ''tools/call'', rpc_params = JNull\<rparr>"

lemma demo_session_ends: "ends_legacy demo_snapshot_env demo_tool_call demo_legacy"
proof -
  have "translate_call (me_serde demo_snapshot_env) ''desktop_snapshot'' None = Inr Call_DesktopSnapshot"
    by (simp add: translate_call_def call_of_def decoded_def demo_snapshot_env_def demo_serde_def)
  moreover have "\<exists>e. fst (on_seat (call_seat demo_snapshot_env Call_DesktopSnapshot) demo_live) = Inl e"
    by (simp add: on_seat_def call_seat_def demo_live_def ProviderSession_new_def Seat_call_def is_long_input_def st_bind_unfold
        st_bind_modify st_run ok_or_def checked_add_def demo_snapshot_env_def demo_mcp_def demo_wire2_def seat_send_def
        write_frame_def validate_Request_def MAX_REQUEST_FRAME_BYTES_def unat_u32_MAX seat_receive_def st_bind_def
        read_frame_def read_prefix.simps [of "[]"] PREFIX_BYTES_def response_for_def)
  ultimately have "legacy_call_lost demo_snapshot_env demo_tool_call demo_legacy"
    by (auto simp: legacy_call_lost_def demo_tool_call_def demo_legacy_def has_modern_version_def modern_metadata_def json_get_def
        ensure_legacy_def is_pointer_slot_tool_def demo_snapshot_env_def Server_new_def)
  then show ?thesis by (simp add: ends_legacy_def)
qed

theorem recovery_waits_for_status_witness:
  "let sv' = mcp_run [(demo_snapshot_env, demo_tool_call), (demo_snapshot_env, demo_tool_call)] demo_legacy in
    sv_legacy sv' = None \<and> sv_recovery sv'
    \<and> Server_respond demo_snapshot_env demo_tool_call sv'
      = Server_respond (demo_snapshot_env\<lparr>me_connected := (\<lambda>_. Inl ''refused'')\<rparr>) demo_tool_call sv'"
proof -
  have quiet: "\<not> asks_status demo_snapshot_env demo_tool_call" "\<not> has_modern_version (rpc_params demo_tool_call)"
    "rpc_method demo_tool_call \<noteq> ''server/discover''"
    by (simp_all add: asks_status_def demo_tool_call_def demo_snapshot_env_def has_modern_version_def modern_metadata_def json_get_def)
  then have "\<forall>x \<in> set [(demo_snapshot_env, demo_tool_call)]. \<not> asks_status (fst x) (snd x)" by simp
  note held = recovery_waits_for_status [OF demo_session_ends this refl]
  have "me_serde demo_snapshot_env = me_serde (demo_snapshot_env\<lparr>me_connected := (\<lambda>_. Inl ''refused'')\<rparr>)" by simp
  then show ?thesis using held quiet unfolding Let_def by blast
qed

theorem announced_tools_understood_witness:
  "''seat_release'' \<in> set (map tl_name (tools Modern)) \<and> ''shell'' \<notin> set (map tl_name (tools Legacy))"
proof -
  have "call_of demo_serde ''shell'' (or_empty None) = Inl UnknownTool" unfolding call_of_unknown by simp
  then have "translate_call demo_serde ''shell'' None = Inl UnknownTool" by (simp add: translate_unknown)
  then show ?thesis
    using announced_tools_understood [of Legacy "''shell''" demo_serde None]
      announced_tools_understood [of Modern "''seat_release''" demo_serde None]
    by (simp add: is_pointer_slot_tool_def)
qed

theorem requests_answered_once_witness:
  "\<exists>reply. fst (Server_respond demo_mcp demo_ping (Server_new None None)) = Inr (Some reply)
    \<and> Some (reply_id reply) = Some (JString ''a'')"
  using requests_answered_once [of demo_ping demo_mcp "Server_new None None"] by (simp add: demo_ping_def)

end
