(* ===== verification/Companion_Command.thy ===== *)
theory Companion_Command
  imports Companion_Server
begin

text \<open>
  The companion's command line (\<^verbatim>\<open>agent-seat-mcp/src/lib.rs\<close>): argument parsing, the private service
  registration it prints, and the adoption of one inherited provider connection.
\<close>

definition INSTALLED_COMPANION :: string where "INSTALLED_COMPANION = ''/usr/bin/agent-seat-mcp''"
definition PRIVATE_SOCKET_NAME :: string where "PRIVATE_SOCKET_NAME = ''x11-input.sock''"
definition PROVIDER_FD_NAME :: string where "PROVIDER_FD_NAME = ''agent-seat-provider''"
definition COMPANION_SYSTEMD_RUN :: string where "COMPANION_SYSTEMD_RUN = ''/usr/bin/systemd-run''"

datatype companion_command =
  Print_Config | Print_Help | Print_Private "string option" | Serve_Inherited | Serve_Socket "string option"

record companion_options =
  co_socket :: "string option"
  co_private :: bool
  co_provider_fd :: bool

definition finish_options :: "companion_options \<Rightarrow> string + companion_command" where
  "finish_options o' =
    (if co_private o' then
       (if co_provider_fd o' then Inl ''--provider-fd cannot print an MCP configuration''
        else Inr (Print_Private (co_socket o')))
     else if co_provider_fd o' then
       (if co_socket o' \<noteq> None then Inl ''--provider-fd cannot be combined with --socket'' else Inr Serve_Inherited)
     else Inr (Serve_Socket (co_socket o')))"

text \<open>\<open>debug\<close> is the \<^verbatim>\<open>Debug\<close> rendering of an argument in a message.\<close>

fun companion_arguments :: "(string \<Rightarrow> string) \<Rightarrow> companion_options \<Rightarrow> string list \<Rightarrow> string + companion_command" where
  "companion_arguments debug o' [] = finish_options o'"
| "companion_arguments debug o' (argument # rest) =
    (if argument = ''--socket'' then
       (if co_socket o' \<noteq> None then Inl ''--socket may be specified only once''
        else (case rest of
            [] \<Rightarrow> Inl ''--socket requires an absolute path''
          | path # rest' \<Rightarrow> companion_arguments debug (o'\<lparr>co_socket := Some path\<rparr>) rest'))
     else if argument = ''--print-mcp-config'' then Inr Print_Config
     else if argument = ''--print-private-mcp-config'' then
       (if co_private o' then Inl ''--print-private-mcp-config may be specified only once''
        else companion_arguments debug (o'\<lparr>co_private := True\<rparr>) rest)
     else if argument = ''--provider-fd'' then
       (if co_provider_fd o' then Inl ''--provider-fd may be specified only once''
        else companion_arguments debug (o'\<lparr>co_provider_fd := True\<rparr>) rest)
     else if argument = ''--help'' \<or> argument = ''-h'' then Inr Print_Help
     else Inl (''unknown argument '' @ debug argument))"

definition parse_companion :: "(string \<Rightarrow> string) \<Rightarrow> string list \<Rightarrow> string + companion_command" where
  "parse_companion debug arguments =
    companion_arguments debug \<lparr>co_socket = None, co_private = False, co_provider_fd = False\<rparr> arguments"

definition private_socket :: "string option \<Rightarrow> string option \<Rightarrow> string + string" where
  "private_socket runtime_dir explicit = (case explicit of
       Some path \<Rightarrow> Inr path
     | None \<Rightarrow>
         res_bind (ok_or runtime_dir
           ''XDG_RUNTIME_DIR or an explicit --socket is required for the private MCP profile'') (\<lambda>runtime.
         if \<not> is_absolute runtime then Inl ''XDG_RUNTIME_DIR must be absolute''
         else Inr (path_join (path_join runtime ''agent-seat'') PRIVATE_SOCKET_NAME)))"

definition private_properties :: "string list" where
  "private_properties =
    [''--user'',
     ''--pipe'',
     ''--wait'',
     ''--collect'',
     ''--quiet'',
     ''--service-type=exec'',
     ''--property=PrivateDevices=yes'',
     ''--property=DevicePolicy=strict'',
     ''--property=PrivateNetwork=yes'',
     ''--property=RestrictAddressFamilies=AF_UNIX'',
     ''--property=SystemCallArchitectures=native'',
     ''--property=SystemCallFilter=@system-service'',
     ''--property=SystemCallErrorNumber=EPERM'',
     ''--property=NoNewPrivileges=yes'',
     ''--property=CapabilityBoundingSet='',
     ''--property=AmbientCapabilities='',
     ''--property=LockPersonality=yes'',
     ''--property=MemoryDenyWriteExecute=yes'',
     ''--property=RestrictNamespaces=yes'',
     ''--property=RestrictRealtime=yes'',
     ''--property=RestrictSUIDSGID=yes'',
     ''--property=RemoveIPC=yes'',
     ''--property=ProtectSystem=strict'',
     ''--property=ProtectHome=yes'',
     ''--property=PrivateTmp=yes'',
     ''--property=ProtectProc=invisible'',
     ''--property=ProcSubset=pid'',
     ''--property=ProtectClock=yes'',
     ''--property=ProtectControlGroups=yes'',
     ''--property=ProtectHostname=yes'',
     ''--property=ProtectKernelLogs=yes'',
     ''--property=ProtectKernelModules=yes'',
     ''--property=ProtectKernelTunables=yes'',
     ''--property=InaccessiblePaths=-/dev/input -/dev/uinput'',
     ''--property=TemporaryFileSystem=/run:ro'',
     ''--property=NoExecPaths=/'',
     ''--property=ExecPaths=/usr/bin/agent-seat-mcp -/usr/lib -/usr/lib64 -/lib -/lib64'',
     ''--property=UnsetEnvironment=DISPLAY XAUTHORITY WAYLAND_DISPLAY DBUS_SESSION_BUS_ADDRESS SSH_AUTH_SOCK AGENT_SEAT_SOCKET HOME XDG_CONFIG_HOME XDG_DATA_HOME XDG_DATA_DIRS XDG_RUNTIME_DIR PATH'',
     ''--property=UMask=0077'',
     ''--property=TasksMax=2'',
     ''--property=LimitNOFILE=32'',
     ''--property=LimitCORE=0'',
     ''--property=MemoryMax=64M'',
     ''--property=CPUQuota=25%'',
     ''--property=KillMode=mixed'',
     ''--property=Restart=no'']"

definition private_systemd_arguments :: "string \<Rightarrow> string list" where
  "private_systemd_arguments socket = private_properties
    @ [''--property=OpenFile='' @ socket @ '':'' @ PROVIDER_FD_NAME, ''--'', INSTALLED_COMPANION, ''--provider-fd'']"

definition private_mcp_config :: "string option \<Rightarrow> string option \<Rightarrow> string + json" where
  "private_mcp_config runtime_dir explicit =
    res_bind (private_socket runtime_dir explicit) (\<lambda>path.
    res_bind (ok_or (if utf8_wellformed (map code_of path) then Some path else None)
      ''private-profile socket path must be UTF-8'') (\<lambda>socket.
    res_bind (map_err (\<lambda>e. ''invalid private-profile socket path: '' @ AdvertisementError_to_string e)
      (Advertisement_new socket)) (\<lambda>_.
    Inr (JObject [(''mcpServers'', JObject [(''agent-seat'', JObject [(''command'', JString COMPANION_SYSTEMD_RUN),
      (''args'', JArray (map JString (private_systemd_arguments socket)))])])]))))"

record inherited_env =
  ih_process_id :: nat
  ih_listen_pid :: "string option"
  ih_listen_fds :: "string option"
  ih_listen_names :: "string option"
  ih_descriptors :: "string + (string option \<times> nat) list"

definition inherited_seat :: "'w seat_wire \<Rightarrow> inherited_env \<Rightarrow> (nat \<Rightarrow> (reader \<times> 'w) \<times> (string + unit)) \<Rightarrow> string + 'w Seat" where
  "inherited_seat wire env stream =
    (if ih_listen_pid env \<noteq> Some (decimal (ih_process_id env)) \<or> ih_listen_fds env \<noteq> Some ''1''
       \<or> ih_listen_names env \<noteq> Some PROVIDER_FD_NAME
     then Inl ''inherited provider descriptor environment is not exact''
     else
       res_bind (map_err (\<lambda>_. ''inherited provider descriptor environment is malformed'') (ih_descriptors env)) (\<lambda>descriptors.
       if length descriptors \<noteq> 1 then Inl ''exactly one inherited provider descriptor is required''
       else (let (name, descriptor) = last descriptors in
         if name \<noteq> Some PROVIDER_FD_NAME then Inl ''inherited provider descriptor name is invalid''
         else (let ((rs, w), timeouts) = stream descriptor in
           map_err se_message (Seat_from_stream wire timeouts rs w)))))"

section \<open>The private registration\<close>

lemma inherited_seat_opened:
  "inherited_seat wire env stream = Inr seat \<Longrightarrow> \<exists>rs w timeouts. Seat_from_stream wire timeouts rs w = Inr seat"
  by (auto simp: inherited_seat_def res_simps Let_def split: if_splits prod.splits)

text \<open>
  The printed registration grants the companion exactly one descriptor: the only \<^verbatim>\<open>OpenFile\<close> property names the
  validated socket, and the companion is started with \<^verbatim>\<open>--provider-fd\<close> alone, so its command line selects the inherited
  connection and never discovery.
\<close>

theorem private_registration_confined:
  assumes "Advertisement_new socket = Inr adv"
  shows "filter (\<lambda>a. take 20 a = ''--property=OpenFile='') (private_systemd_arguments socket)
      = [''--property=OpenFile='' @ socket @ '':'' @ PROVIDER_FD_NAME]
    \<and> parse_companion debug (drop 1 (dropWhile (\<lambda>a. a \<noteq> INSTALLED_COMPANION) (private_systemd_arguments socket)))
      = Inr Serve_Inherited"
proof -
  have "filter (\<lambda>a. take 20 a = ''--property=OpenFile='') private_properties = []"
    by (simp add: private_properties_def)
  moreover have "dropWhile (\<lambda>a. a \<noteq> INSTALLED_COMPANION) (private_properties @ xs) = dropWhile (\<lambda>a. a \<noteq> INSTALLED_COMPANION) xs" for xs
    by (simp add: private_properties_def INSTALLED_COMPANION_def)
  ultimately show ?thesis
    by (simp add: private_systemd_arguments_def INSTALLED_COMPANION_def parse_companion_def finish_options_def)
qed

end
