(* ===== verification/Spec2Isabelle.thy ===== *)
theory Spec2Isabelle
  imports Wire_Bounded Wire_Codec Wire_Advertisement Wire_Vocabulary Wire_Message Wire_Reply Seat_Gate
    Provider_Config Observer_Scan Observer_Model Observer_Protocol Observer_Manager
    Input_Keyboard Observer_Grab Observer_Input Text_Transfer Pixel_Capture
    Desktop_Entry Launch_Catalog Provider_Session Policy_File Device_Set Activity_Broker
    Companion_Seat Provider_Ownership Provider_Runtime Provider_Active Companion_Tools Companion_Server Companion_Command
begin

text \<open>
  A verification library for Agent Seat: a protocol by which an agent observes and operates one user's X11 desktop,
  the provider that holds the authority over it, the companion that offers it to an agent as MCP tools, and the
  broker that reports physical input activity. The sources are Rust, under \<^verbatim>\<open>src/crates\<close>.

  \<^bold>\<open>The program and its parts.\<close> A companion process (\<^verbatim>\<open>agent-seat-mcp\<close>) discovers the socket that the owner of an X11
  selection advertises, opens a session over a length-prefixed JSON codec (\<^verbatim>\<open>agent-seat-proto\<close>) and translates tool
  calls into protocol calls. The provider (\<^verbatim>\<open>agent-seat-x11\<close>) owns the selection, reads a policy file, grants a session
  what is both requested and configured, and serves calls only while the volatile seat gate accepts the session's
  permit: it observes the desktop, manages windows, synthesises input, transfers text, captures pixels and launches
  installed applications. The activity broker (\<^verbatim>\<open>agent-seat-activity-broker\<close>) watches input devices it inherited and
  answers whether the seat has been quiet.

  \<^bold>\<open>Conventions.\<close> A struct is a record, an enum a datatype, a fallible function returns a sum with the error on the left,
  and code that changes state is a function of type \<open>('s, 'e, 'a) st\<close> (theory \<open>Seat_Prelude\<close>). Machine integers
  are words; checked arithmetic returns an option. Strings are byte strings. What the program asks of the outside
  (the X server, sockets, the file system, the clock, serde_json, the TOML parsers, the random source, the PNG encoder)
  is an argument: a record of answers, or a script with one step for each request that says what others do before
  it and whether it fails. A file system and an X display that the code changes are explicit states.

  \<^bold>\<open>Theories, in the order of the program.\<close>
  \<^item> \<open>Seat_Prelude\<close>: results, validation chains, the state monad, checked words, byte orders, UTF-8, splitting, decimal
    text, and two interfaces: \<open>canonical_codec\<close> (a decoder that accepts exactly the encodings) and \<open>fresh_ids\<close> (an
    allocator that never repeats an identity), each interpreted on the codecs and allocators below.
  \<^item> \<open>Wire_Bounded\<close>, \<open>Wire_Codec\<close>, \<open>Wire_Advertisement\<close>, \<open>Wire_Vocabulary\<close>, \<open>Wire_Message\<close>, \<open>Wire_Reply\<close>: the crate
    \<^verbatim>\<open>agent-seat-proto\<close> (\<^verbatim>\<open>bounded.rs\<close>, \<^verbatim>\<open>codec.rs\<close>, \<^verbatim>\<open>advertisement.rs\<close>, \<^verbatim>\<open>ids.rs\<close>, \<^verbatim>\<open>message.rs\<close>): bounded
    text and lists, frames over fragmented and interrupted streams, every message with its validator. Shown: frames
    round-trip, every malformed stream has its error, advertisements are canonical, bounded lists agree with their
    incremental reader.
  \<^item> \<open>Seat_Gate\<close> (\<^verbatim>\<open>seat.rs\<close>): the atomic gate word, permits and the control channel. Concurrent callers of the
    compare-exchange loop are a step relation. Shown: a refused permit is never accepted again, and only the
    provider's own user changes the gate.
  \<^item> \<open>Provider_Config\<close>, \<open>Policy_File\<close> (\<^verbatim>\<open>config.rs\<close>): the raw and the validated policy, grants, launch admission and draft
    edits; reading the file and the replacement transaction with its lock, staging file, exchange and rollback over an
    explicit disk. Shown: grants are the intersection, edits keep drafts valid, replacement is all or nothing under
    every failure, and a racing writer's policy survives.
  \<^item> \<open>Observer_Scan\<close>, \<open>Observer_Model\<close>, \<open>Observer_Protocol\<close> (\<^verbatim>\<open>observer.rs\<close>): the bounded scan of the desktop, identities,
    generations, the event log, snapshot, subscribe and poll. Shown: the scan respects its scope, identities are stable,
    the invariants survive every call, a peer that applies what it polls converges to the observer's view, and
    waiting calls return.
  \<^item> \<open>Observer_Manager\<close> (\<^verbatim>\<open>manager.rs\<close>): window management. Shown: messages name fresh targets and replies are honest.
  \<^item> \<open>Input_Keyboard\<close>, \<open>Observer_Grab\<close>, \<open>Observer_Input\<close> (\<^verbatim>\<open>keyboard.rs\<close>, \<^verbatim>\<open>input.rs\<close>): key resolution over an XKB map,
    grabbed sections and synthetic input as traces. Shown: resolved strokes yield their symbol, every synthetic request
    follows an accepting gate reading in the same grab, clicks land on their target, nothing stays pressed.
  \<^item> \<open>Text_Transfer\<close>, \<open>Pixel_Capture\<close> (\<^verbatim>\<open>text_transfer.rs\<close>, \<^verbatim>\<open>capture.rs\<close>): selection-based insertion and captures. Shown:
    text reaches only its target, insertion ends and reports honestly, captured pixels are exact.
  \<^item> \<open>Desktop_Entry\<close>, \<open>Launch_Catalog\<close> (\<^verbatim>\<open>launch.rs\<close>): desktop entries, Exec lines, the catalog and the supervisor. Shown:
    quoted arguments arrive verbatim, only permitted entries run, children and tokens are bounded.
  \<^item> \<open>Provider_Session\<close> (\<^verbatim>\<open>session.rs\<close>): greeting, grant, permit, request loop and dispatch over all of the above. Shown:
    every session refines an abstract protocol automaton and every call it performs is authorised and confined.
  \<^item> \<open>Provider_Ownership\<close> (\<^verbatim>\<open>ownership.rs\<close>): claiming and releasing a screen. Shown, by rely and guarantee over the requests
    of one connection: providers exclude each other, and a claimed screen is found by the companion.
  \<^item> \<open>Provider_Runtime\<close>, \<open>Provider_Active\<close> (\<^verbatim>\<open>runtime.rs\<close>, \<^verbatim>\<open>active.rs\<close>): the private runtime directory, the sockets, and
    the locked marker of the loaded policy, over the file system of \<open>Policy_File\<close>. Shown: binding replaces nothing but a
    dead socket of the same user, markers are a canonical codec, and a status reports what was published.
  \<^item> \<open>Device_Set\<close>, \<open>Activity_Broker\<close> (\<^verbatim>\<open>device_set.rs\<close>, \<^verbatim>\<open>initial_input_set.rs\<close>, \<^verbatim>\<open>lib.rs\<close>, \<^verbatim>\<open>main.rs\<close>,
    \<^verbatim>\<open>inherited_files.rs\<close>): enrolment records, status frames, start-up and the poll loop. Shown: a ready answer means a
    quiet and eligible seat, activity is final, frames are canonical.
  \<^item> \<open>Companion_Seat\<close>, \<open>Companion_Tools\<close>, \<open>Companion_Server\<close>, \<open>Companion_Command\<close> (\<^verbatim>\<open>agent-seat-mcp\<close>): session and discovery,
    the tool tables, the MCP server of both eras, the command line. Shown: a response belongs to its request,
    sessions stay in step, dead contexts stay dead, recovery waits for a status call, the advertised tools are the
    understood ones, and a discovered socket is authentic.

  \<^bold>\<open>Bounds and fuel.\<close> Loops are total functions by measure or by recursion over the script that drives them: a read loop
  consumes its reader, waiting loops consume samples of which the last is past the deadline, the catalog scan is
  bounded by \<^verbatim>\<open>MAX_SCANNED_PATHS\<close>, the stdio loop consumes its input. Symbolic links are followed 41 times, one more
  than the kernel allows. No theorem assumes that a loop returned without a theorem that it does.

  \<^bold>\<open>Not modelled.\<close> The start-up of the provider process: argument parsing, threads and the accept loop (\<^verbatim>\<open>lib.rs\<close>, \<^verbatim>\<open>main.rs\<close>)
  around the modelled components. The eligibility guard and the enrolment tool
  (\<^verbatim>\<open>agent-seat-eligibility-guard.rs\<close>, \<^verbatim>\<open>agent-seat-activity-enroll.rs\<close>), which drive systemd, sysfs and a terminal. The
  settings application (\<^verbatim>\<open>agent-seat-settings\<close>), a GTK interface whose policy edits are the modelled draft edits. The
  derived serde implementations, which are arguments of the codecs; getters and default values of the raw policy;
  memory ordering beyond sequential consistency; durability after a power loss.
\<close>

end
